(* ===== verification/Prelude.thy ===== *)
theory Prelude
  imports Main "HOL-Library.Sublist"
begin

text \<open>
  Shared vocabulary of the development: the fact collections the component proofs rewrite
  with, and the generic list lemmas that more than one component needs.
\<close>

section \<open>Fact collections\<close>

named_theorems lexer_frame "what a lexer primitive leaves unchanged"

section \<open>Lists\<close>

lemma butlast_snoc_eq: "xs \<noteq> [] \<Longrightarrow> butlast xs @ [last xs] = xs"
  by simp

lemma sorted_wrt_butlast: "sorted_wrt P xs \<Longrightarrow> sorted_wrt P (butlast xs)"
  by (metis append_butlast_last_id butlast.simps(1) sorted_wrt_append)

lemma sorted_wrt_snoc:
  "sorted_wrt P (xs @ [x]) \<longleftrightarrow> sorted_wrt P xs \<and> (\<forall>y\<in>set xs. P y x)"
  by (auto simp: sorted_wrt_append)

lemma set_butlast_subset: "set (butlast xs) \<subseteq> set xs"
  by (auto dest: in_set_butlastD)

lemma hd_butlast: "length xs > 1 \<Longrightarrow> hd (butlast xs) = hd xs"
  by (cases xs) auto

lemma last_in_set_length: "length xs > 0 \<Longrightarrow> last xs \<in> set xs"
  by simp

lemma sorted_wrt_less_last:
  fixes xs :: "int list"
  assumes "sorted_wrt (<) xs" "x \<in> set xs"
  shows "x \<le> last xs"
proof (cases "xs = []")
  case True
  with assms show ?thesis by simp
next
  case False
  then have "xs = butlast xs @ [last xs]" by simp
  with assms show ?thesis
    by (metis Un_iff empty_iff insert_iff less_imp_le list.set(1) list.simps(15)
        order_refl set_append sorted_wrt_snoc)
qed

lemma in_set_butlast_iff:
  fixes xs :: "int list"
  assumes "sorted_wrt (<) xs" "xs \<noteq> []"
  shows "x \<in> set (butlast xs) \<longleftrightarrow> x \<in> set xs \<and> x \<noteq> last xs"
proof -
  have eq: "xs = butlast xs @ [last xs]" using assms(2) by simp
  then have "\<forall>y\<in>set (butlast xs). y < last xs"
    using assms(1) by (metis sorted_wrt_snoc)
  then show ?thesis
    by (metis eq Un_iff empty_iff insert_iff less_irrefl list.set(1) list.simps(15) set_append)
qed

lemma suffix_drop_mono: "n \<le> m \<Longrightarrow> suffix (drop m xs) (drop n xs)"
proof -
  assume "n \<le> m"
  then have "drop m xs = drop (m - n) (drop n xs)" by simp
  then show ?thesis by (metis suffix_drop)
qed

end
