(* ===== verification/GoText.thy ===== *)
theory GoText
  imports Prelude
begin

text \<open>
  The parts of Go's language and standard library that the compiler's text handling rests
  on. A Go \<^verbatim>\<open>string\<close> is a sequence of bytes, so it is HOL's \<^typ>\<open>string\<close> (a list of
  8-bit characters); a \<^verbatim>\<open>rune\<close> is a code point, here a natural number. The conversions
  \<^verbatim>\<open>string(rs)\<close> and \<^verbatim>\<open>[]rune(s)\<close> are UTF-8 encoding and decoding with Go's treatment of
  invalid input (one U+FFFD per offending byte).
\<close>

type_synonym rune = nat

abbreviation rn :: "char \<Rightarrow> rune" where "rn c \<equiv> of_char c"

section \<open>UTF-8\<close>

definition utf8_encode :: "rune \<Rightarrow> string" where
  "utf8_encode r =
     (if r < 0x80 then [char_of r]
      else if r < 0x800 then [char_of (0xC0 + r div 64), char_of (0x80 + r mod 64)]
      else if 0x10FFFF < r \<or> (0xD800 \<le> r \<and> r \<le> 0xDFFF)
        then [char_of (0xEF::nat), char_of (0xBF::nat), char_of (0xBD::nat)]
      else if r < 0x10000
        then [char_of (0xE0 + r div 4096), char_of (0x80 + r div 64 mod 64),
              char_of (0x80 + r mod 64)]
      else [char_of (0xF0 + r div 262144), char_of (0x80 + r div 4096 mod 64),
            char_of (0x80 + r div 64 mod 64), char_of (0x80 + r mod 64)])"

definition go_string :: "rune list \<Rightarrow> string" where
  "go_string rs = concat (map utf8_encode rs)"

definition is_cont :: "nat \<Rightarrow> bool" where
  "is_cont b \<longleftrightarrow> 0x80 \<le> b \<and> b \<le> 0xBF"

text \<open>
  \<^verbatim>\<open>utf8.DecodeRune\<close> on a byte list: the rune and the number of bytes it takes. The bounds on
  the second byte exclude over-long forms, surrogates and values above U+10FFFF.
\<close>

definition decode_rune :: "nat list \<Rightarrow> rune \<times> nat" where
  "decode_rune bs =
     (case bs of [] \<Rightarrow> (0xFFFD, 0)
      | b0 # rs \<Rightarrow>
        if b0 < 0x80 then (b0, 1)
        else if 0xC2 \<le> b0 \<and> b0 \<le> 0xDF then
          (case rs of b1 # _ \<Rightarrow>
             if is_cont b1 then ((b0 - 0xC0) * 64 + (b1 - 0x80), 2) else (0xFFFD, 1)
           | [] \<Rightarrow> (0xFFFD, 1))
        else if 0xE0 \<le> b0 \<and> b0 \<le> 0xEF then
          (case rs of b1 # b2 # _ \<Rightarrow>
             if (if b0 = 0xE0 then 0xA0 else 0x80) \<le> b1 \<and> b1 \<le> (if b0 = 0xED then 0x9F else 0xBF)
                \<and> is_cont b2
             then ((b0 - 0xE0) * 4096 + (b1 - 0x80) * 64 + (b2 - 0x80), 3) else (0xFFFD, 1)
           | _ \<Rightarrow> (0xFFFD, 1))
        else if 0xF0 \<le> b0 \<and> b0 \<le> 0xF4 then
          (case rs of b1 # b2 # b3 # _ \<Rightarrow>
             if (if b0 = 0xF0 then 0x90 else 0x80) \<le> b1 \<and> b1 \<le> (if b0 = 0xF4 then 0x8F else 0xBF)
                \<and> is_cont b2 \<and> is_cont b3
             then ((b0 - 0xF0) * 262144 + (b1 - 0x80) * 4096 + (b2 - 0x80) * 64 + (b3 - 0x80), 4)
             else (0xFFFD, 1)
           | _ \<Rightarrow> (0xFFFD, 1))
        else (0xFFFD, 1))"

function utf8_decode :: "nat list \<Rightarrow> rune list" where
  "utf8_decode bs =
     (if bs = [] then []
      else fst (decode_rune bs) # utf8_decode (drop (max 1 (snd (decode_rune bs))) bs))"
  by pat_completeness auto
termination
  by (relation "measure length") auto

declare utf8_decode.simps [simp del]

definition go_runes :: "string \<Rightarrow> rune list" where
  "go_runes s = utf8_decode (map of_char s)"

definition rune_count :: "string \<Rightarrow> nat" where
  "rune_count s = length (go_runes s)"

definition valid_rune :: "rune \<Rightarrow> bool" where
  "valid_rune r \<longleftrightarrow> r \<le> 0x10FFFF \<and> \<not> (0xD800 \<le> r \<and> r \<le> 0xDFFF)"

lemma utf8_decode_Nil [simp]: "utf8_decode [] = []"
  by (simp add: utf8_decode.simps)

lemma utf8_decode_ascii [simp]: "b < 0x80 \<Longrightarrow> utf8_decode (b # bs) = b # utf8_decode bs"
  by (subst utf8_decode.simps) (simp add: decode_rune_def)


lemma of_char_char_of_less [simp]: "n < 256 \<Longrightarrow> of_char (char_of n :: char) = (n::nat)"
  by simp

text \<open>Decoding inverts encoding on every valid rune, whatever follows.\<close>

lemma decode_rune_encode:
  assumes "valid_rune r"
  shows "decode_rune (map of_char (utf8_encode r) @ bs) = (r, length (utf8_encode r))"
proof -
  have r: "r \<le> 0x10FFFF" "\<not> (0xD800 \<le> r \<and> r \<le> 0xDFFF)"
    using assms by (auto simp: valid_rune_def)
  consider (one) "r < 0x80" | (two) "0x80 \<le> r" "r < 0x800"
    | (three) "0x800 \<le> r" "r < 0x10000" | (four) "0x10000 \<le> r" by linarith
  then show ?thesis
  proof cases
    case one
    then show ?thesis by (simp add: utf8_encode_def decode_rune_def)
  next
    case two
    have b: "2 \<le> r div 64" "r div 64 \<le> 31" "r mod 64 \<le> 63" using two by (auto simp: div_le_mono less_eq_div_iff_mult_less_eq)
    then show ?thesis using two
      by (simp add: utf8_encode_def decode_rune_def is_cont_def)
  next
    case three
    define a b c where abc: "a = r div 4096" "b = r div 64 mod 64" "c = r mod 64"
    have r_eq: "r = a * 4096 + b * 64 + c"
    proof -
      have "r div 64 = a * 64 + b" unfolding abc by (simp add: div_mult2_eq [of r 64 64, simplified])
      then show ?thesis using div_mult_mod_eq [of r 64] unfolding abc(3) by linarith
    qed
    have bd: "a \<le> 15" "b \<le> 63" "c \<le> 63"
      using three by (auto simp: abc less_mult_imp_div_less)
    have "a = 0 \<Longrightarrow> 32 \<le> b" using three r_eq bd by linarith
    moreover have "a = 13 \<Longrightarrow> b \<le> 31" using r_eq bd r three by linarith
    moreover have "utf8_encode r = [char_of (0xE0 + a), char_of (0x80 + b), char_of (0x80 + c)]"
      using three r by (auto simp: utf8_encode_def abc)
    ultimately show ?thesis using bd r_eq
      by (auto simp: decode_rune_def is_cont_def)
  next
    case four
    define a b c d where abcd: "a = r div 262144" "b = r div 4096 mod 64"
      "c = r div 64 mod 64" "d = r mod 64"
    have r_eq: "r = a * 262144 + b * 4096 + c * 64 + d"
    proof -
      have "r div 64 = r div 4096 * 64 + c"
        unfolding abcd by (simp add: div_mult2_eq [of r 64 64, simplified])
      moreover have "r div 4096 = a * 64 + b"
        unfolding abcd by (simp add: div_mult2_eq [of r 4096 64, simplified])
      ultimately show ?thesis using div_mult_mod_eq [of r 64] unfolding abcd(4) by linarith
    qed
    have bd: "a \<le> 4" "b \<le> 63" "c \<le> 63" "d \<le> 63"
      using four r by (auto simp: abcd less_mult_imp_div_less)
    have "a = 0 \<Longrightarrow> 16 \<le> b" using four r_eq bd by linarith
    moreover have "a = 4 \<Longrightarrow> b \<le> 15" using r_eq bd r by linarith
    moreover have "utf8_encode r = [char_of (0xF0 + a), char_of (0x80 + b), char_of (0x80 + c),
        char_of (0x80 + d)]"
      using four r by (auto simp: utf8_encode_def abcd)
    ultimately show ?thesis using bd r_eq
      by (auto simp: decode_rune_def is_cont_def)
  qed
qed

lemma length_utf8_encode: "0 < length (utf8_encode r)"
  by (simp add: utf8_encode_def)

lemma utf8_decode_encode_append:
  "valid_rune r \<Longrightarrow> utf8_decode (map of_char (utf8_encode r) @ bs) = r # utf8_decode bs"
  using length_utf8_encode [of r]
  by (subst utf8_decode.simps) (auto simp: decode_rune_encode max_def Suc_le_eq)

lemma go_runes_go_string: "\<forall>r\<in>set rs. valid_rune r \<Longrightarrow> go_runes (go_string rs) = rs"
proof (induction rs)
  case Nil
  then show ?case by (simp add: go_runes_def go_string_def)
next
  case (Cons r rs)
  then show ?case
    by (simp add: go_runes_def go_string_def utf8_decode_encode_append)
qed


section \<open>Package strings\<close>

definition has_prefix :: "string \<Rightarrow> string \<Rightarrow> bool" where
  "has_prefix s p \<longleftrightarrow> take (length p) s = p"

definition has_suffix :: "string \<Rightarrow> string \<Rightarrow> bool" where
  "has_suffix s p \<longleftrightarrow> length p \<le> length s \<and> drop (length s - length p) s = p"

definition trim_prefix :: "string \<Rightarrow> string \<Rightarrow> string" where
  "trim_prefix s p = (if has_prefix s p then drop (length p) s else s)"

definition trim_suffix :: "string \<Rightarrow> string \<Rightarrow> string" where
  "trim_suffix s p = (if has_suffix s p then take (length s - length p) s else s)"

text \<open>\<^verbatim>\<open>strings.Split\<close> on a one-byte separator: always at least one part.\<close>

fun split_char :: "char \<Rightarrow> string \<Rightarrow> string list" where
  "split_char c [] = [[]]"
| "split_char c (x # xs) =
     (if x = c then [] # split_char c xs
      else (case split_char c xs of [] \<Rightarrow> [[x]] | l # ls \<Rightarrow> (x # l) # ls))"

text \<open>\<^verbatim>\<open>strings.Join\<close>.\<close>

fun go_join :: "string list \<Rightarrow> string \<Rightarrow> string" where
  "go_join [] sep = []"
| "go_join [x] sep = x"
| "go_join (x # y # r) sep = x @ sep @ go_join (y # r) sep"

text \<open>\<^verbatim>\<open>strings.TrimRight\<close> and \<^verbatim>\<open>strings.TrimLeft\<close> with a cutset.\<close>

definition trim_right :: "string \<Rightarrow> string \<Rightarrow> string" where
  "trim_right s cs = rev (dropWhile (\<lambda>c. c \<in> set cs) (rev s))"

definition trim_left :: "string \<Rightarrow> string \<Rightarrow> string" where
  "trim_left s cs = dropWhile (\<lambda>c. c \<in> set cs) s"

text \<open>\<^verbatim>\<open>strings.Index\<close>, \<^verbatim>\<open>strings.LastIndex\<close> and \<^verbatim>\<open>strings.Contains\<close> of one byte.\<close>

definition index_char :: "string \<Rightarrow> char \<Rightarrow> nat option" where
  "index_char s c =
     (let k = length (takeWhile (\<lambda>x. x \<noteq> c) s) in if k < length s then Some k else None)"

definition last_index_char :: "string \<Rightarrow> char \<Rightarrow> nat option" where
  "last_index_char s c = map_option (\<lambda>k. length s - 1 - k) (index_char (rev s) c)"

definition contains_char :: "string \<Rightarrow> char \<Rightarrow> bool" where
  "contains_char s c \<longleftrightarrow> c \<in> set s"

definition str_repeat :: "string \<Rightarrow> nat \<Rightarrow> string" where
  "str_repeat s n = concat (replicate n s)"

lemma split_char_nonempty [simp]: "split_char c s \<noteq> []"
  by (induction s) (auto split: list.splits)

lemma go_join_Cons: "xs \<noteq> [] \<Longrightarrow> go_join (x # xs) sep = x @ sep @ go_join xs sep"
  by (cases xs) auto

text \<open>Joining what was split restores the text.\<close>

lemma go_join_split_char: "go_join (split_char c s) [c] = s"
proof (induction s)
  case Nil
  then show ?case by simp
next
  case (Cons x s)
  show ?case
  proof (cases "x = c")
    case True
    with Cons show ?thesis by (simp add: go_join_Cons)
  next
    case False
    obtain l ls where sp: "split_char c s = l # ls"
      by (meson neq_Nil_conv split_char_nonempty)
    with Cons have "go_join (l # ls) [c] = s" by simp
    with False sp show ?thesis by (cases ls) auto
  qed
qed

lemma split_char_no_sep: "l \<in> set (split_char c s) \<Longrightarrow> c \<notin> set l"
proof (induction s arbitrary: l)
  case Nil
  then show ?case by simp
next
  case (Cons x s)
  obtain m ms where sp: "split_char c s = m # ms"
    by (meson neq_Nil_conv split_char_nonempty)
  with Cons show ?case by (auto split: if_splits)
qed

lemma index_char_None: "index_char s c = None \<longleftrightarrow> c \<notin> set s"
proof -
  have "length (takeWhile (\<lambda>x. x \<noteq> c) s) < length s \<longleftrightarrow> c \<in> set s"
    by (induction s) auto
  then show ?thesis by (auto simp: index_char_def Let_def)
qed

section \<open>Decimal rendering: the verb \<^verbatim>\<open>%d\<close>\<close>

definition digit_char :: "nat \<Rightarrow> char" where
  "digit_char d = char_of (48 + d)"

fun utoa :: "nat \<Rightarrow> string" where
  "utoa n = (if n < 10 then [digit_char n] else utoa (n div 10) @ [digit_char (n mod 10)])"

declare utoa.simps [simp del]

definition itoa :: "int \<Rightarrow> string" where
  "itoa i = (if i < 0 then CHR ''-'' # utoa (nat (- i)) else utoa (nat i))"

lemma digit_char_inj: "a < 10 \<Longrightarrow> b < 10 \<Longrightarrow> digit_char a = digit_char b \<Longrightarrow> a = b"
proof -
  assume ab: "a < 10" "b < 10" "digit_char a = digit_char b"
  then have "(of_char (digit_char a) :: nat) = of_char (digit_char b)" by simp
  with ab(1,2) show "a = b" by (simp add: digit_char_def)
qed

lemma utoa_nonempty [simp]: "utoa n \<noteq> []"
  by (subst utoa.simps) simp

lemma utoa_digits: "c \<in> set (utoa n) \<Longrightarrow> \<exists>d<10. c = digit_char d"
proof (induction n rule: utoa.induct)
  case (1 n)
  have "\<exists>d<10. digit_char (n mod 10) = digit_char d"
    by (rule exI [of _ "n mod 10"]) simp
  with 1 show ?case
    by (cases "n < 10") (auto simp: utoa.simps [of n])
qed

lemma length_utoa_1: "length (utoa k) = 1 \<longleftrightarrow> k < 10"
proof (cases "k < 10")
  case True
  then show ?thesis by (subst utoa.simps) simp
next
  case False
  have "0 < length (utoa (k div 10))" by simp
  with False show ?thesis by (subst utoa.simps) simp
qed

lemma utoa_inj: "utoa m = utoa n \<Longrightarrow> m = n"
proof (induction m arbitrary: n rule: utoa.induct)
  case (1 m)
  show ?case
  proof (cases "m < 10")
    case True
    then have "n < 10" using 1(2) length_utoa_1 by metis
    with True 1(2) show ?thesis
      by (auto simp: utoa.simps [of m] utoa.simps [of n] dest: digit_char_inj)
  next
    case False
    then have n: "\<not> n < 10" using 1(2) length_utoa_1 by metis
    have "utoa m = utoa (m div 10) @ [digit_char (m mod 10)]"
      using False by (simp add: utoa.simps [of m])
    moreover have "utoa n = utoa (n div 10) @ [digit_char (n mod 10)]"
      using n by (simp add: utoa.simps [of n])
    ultimately have eq: "utoa (m div 10) = utoa (n div 10)"
        "digit_char (m mod 10) = digit_char (n mod 10)"
      using 1(2) by auto
    have "m div 10 = n div 10" using 1(1) [OF False eq(1)] .
    moreover have "m mod 10 = n mod 10" using eq(2) digit_char_inj by simp
    ultimately show ?thesis by (metis div_mult_mod_eq)
  qed
qed

lemma utoa_no_underscore: "CHR ''_'' \<notin> set (utoa n)"
proof
  assume "CHR ''_'' \<in> set (utoa n)"
  then obtain d where "d < 10" "CHR ''_'' = digit_char d" using utoa_digits by blast
  then have "(of_char CHR ''_'' :: nat) = of_char (digit_char d)" by simp
  with \<open>d < 10\<close> show False by (simp add: digit_char_def)
qed

end
