(* ===== verification/Token.thy ===== *)
theory Token
  imports GoText
begin

text \<open>
  \<^verbatim>\<open>internal/lexer/token.go\<close>: the token types, the token record, the names of the token
  types and the keyword table.

  \<^verbatim>\<open>type TokenType int\<close> with its \<^verbatim>\<open>iota\<close> constants is a datatype over the integer value, and
  each constant is an abbreviation for the value \<^verbatim>\<open>iota\<close> gives it (the declaration order of
  the source), so that two token types are equal exactly when their integers are.
\<close>

section \<open>Token types\<close>

datatype token_type = TokenType nat

instantiation token_type :: linorder
begin
definition less_eq_token_type :: "token_type \<Rightarrow> token_type \<Rightarrow> bool" where
  "less_eq_token_type a b \<longleftrightarrow> (case a of TokenType m \<Rightarrow> case b of TokenType n \<Rightarrow> m \<le> n)"
definition less_token_type :: "token_type \<Rightarrow> token_type \<Rightarrow> bool" where
  "less_token_type a b \<longleftrightarrow> (case a of TokenType m \<Rightarrow> case b of TokenType n \<Rightarrow> m < n)"
instance
  by standard (auto simp: less_eq_token_type_def less_token_type_def split: token_type.splits)
end

text \<open>Literals\<close>

abbreviation TOKEN_IDENTIFIER :: token_type where "TOKEN_IDENTIFIER \<equiv> TokenType 0"
abbreviation TOKEN_INTEGER :: token_type where "TOKEN_INTEGER \<equiv> TokenType 1"
abbreviation TOKEN_FLOAT :: token_type where "TOKEN_FLOAT \<equiv> TokenType 2"
abbreviation TOKEN_STRING :: token_type where "TOKEN_STRING \<equiv> TokenType 3"
abbreviation TOKEN_STRING_HEAD :: token_type where "TOKEN_STRING_HEAD \<equiv> TokenType 4"
abbreviation TOKEN_STRING_MID :: token_type where "TOKEN_STRING_MID \<equiv> TokenType 5"
abbreviation TOKEN_STRING_TAIL :: token_type where "TOKEN_STRING_TAIL \<equiv> TokenType 6"
abbreviation TOKEN_STRING_RAW :: token_type where "TOKEN_STRING_RAW \<equiv> TokenType 7"
abbreviation TOKEN_TRUE :: token_type where "TOKEN_TRUE \<equiv> TokenType 8"
abbreviation TOKEN_FALSE :: token_type where "TOKEN_FALSE \<equiv> TokenType 9"

text \<open>Keywords\<close>

abbreviation TOKEN_PETIOLE :: token_type where "TOKEN_PETIOLE \<equiv> TokenType 10"
abbreviation TOKEN_IMPORT :: token_type where "TOKEN_IMPORT \<equiv> TokenType 11"
abbreviation TOKEN_TYPE :: token_type where "TOKEN_TYPE \<equiv> TokenType 12"
abbreviation TOKEN_INTERFACE :: token_type where "TOKEN_INTERFACE \<equiv> TokenType 13"
abbreviation TOKEN_VAR :: token_type where "TOKEN_VAR \<equiv> TokenType 14"
abbreviation TOKEN_FUNC :: token_type where "TOKEN_FUNC \<equiv> TokenType 15"
abbreviation TOKEN_RETURN :: token_type where "TOKEN_RETURN \<equiv> TokenType 16"
abbreviation TOKEN_IF :: token_type where "TOKEN_IF \<equiv> TokenType 17"
abbreviation TOKEN_ELSE :: token_type where "TOKEN_ELSE \<equiv> TokenType 18"
abbreviation TOKEN_FOR :: token_type where "TOKEN_FOR \<equiv> TokenType 19"
abbreviation TOKEN_CONTINUE :: token_type where "TOKEN_CONTINUE \<equiv> TokenType 20"
abbreviation TOKEN_BREAK :: token_type where "TOKEN_BREAK \<equiv> TokenType 21"
abbreviation TOKEN_IN :: token_type where "TOKEN_IN \<equiv> TokenType 22"
abbreviation TOKEN_FROM :: token_type where "TOKEN_FROM \<equiv> TokenType 23"
abbreviation TOKEN_TO :: token_type where "TOKEN_TO \<equiv> TokenType 24"
abbreviation TOKEN_THROUGH :: token_type where "TOKEN_THROUGH \<equiv> TokenType 25"
abbreviation TOKEN_SWITCH :: token_type where "TOKEN_SWITCH \<equiv> TokenType 26"
abbreviation TOKEN_CASE :: token_type where "TOKEN_CASE \<equiv> TokenType 27"
abbreviation TOKEN_DEFAULT :: token_type where "TOKEN_DEFAULT \<equiv> TokenType 28"
abbreviation TOKEN_GO :: token_type where "TOKEN_GO \<equiv> TokenType 29"
abbreviation TOKEN_DEFER :: token_type where "TOKEN_DEFER \<equiv> TokenType 30"
abbreviation TOKEN_MAKE :: token_type where "TOKEN_MAKE \<equiv> TokenType 31"
abbreviation TOKEN_LIST :: token_type where "TOKEN_LIST \<equiv> TokenType 32"
abbreviation TOKEN_MAP :: token_type where "TOKEN_MAP \<equiv> TokenType 33"
abbreviation TOKEN_CHANNEL :: token_type where "TOKEN_CHANNEL \<equiv> TokenType 34"
abbreviation TOKEN_SEND :: token_type where "TOKEN_SEND \<equiv> TokenType 35"
abbreviation TOKEN_RECEIVE :: token_type where "TOKEN_RECEIVE \<equiv> TokenType 36"
abbreviation TOKEN_CLOSE :: token_type where "TOKEN_CLOSE \<equiv> TokenType 37"
abbreviation TOKEN_PANIC :: token_type where "TOKEN_PANIC \<equiv> TokenType 38"
abbreviation TOKEN_RECOVER :: token_type where "TOKEN_RECOVER \<equiv> TokenType 39"
abbreviation TOKEN_ERROR :: token_type where "TOKEN_ERROR \<equiv> TokenType 40"
abbreviation TOKEN_EMPTY :: token_type where "TOKEN_EMPTY \<equiv> TokenType 41"
abbreviation TOKEN_REFERENCE :: token_type where "TOKEN_REFERENCE \<equiv> TokenType 42"
abbreviation TOKEN_DEREFERENCE :: token_type where "TOKEN_DEREFERENCE \<equiv> TokenType 43"
abbreviation TOKEN_ON :: token_type where "TOKEN_ON \<equiv> TokenType 44"
abbreviation TOKEN_DISCARD :: token_type where "TOKEN_DISCARD \<equiv> TokenType 45"
abbreviation TOKEN_OF :: token_type where "TOKEN_OF \<equiv> TokenType 46"
abbreviation TOKEN_AS :: token_type where "TOKEN_AS \<equiv> TokenType 47"
abbreviation TOKEN_SKILL :: token_type where "TOKEN_SKILL \<equiv> TokenType 48"
abbreviation TOKEN_SELECT :: token_type where "TOKEN_SELECT \<equiv> TokenType 49"
abbreviation TOKEN_ENUM :: token_type where "TOKEN_ENUM \<equiv> TokenType 50"
abbreviation TOKEN_THEN :: token_type where "TOKEN_THEN \<equiv> TokenType 51"
abbreviation TOKEN_IS :: token_type where "TOKEN_IS \<equiv> TokenType 52"

text \<open>Variadic keyword\<close>

abbreviation TOKEN_MANY :: token_type where "TOKEN_MANY \<equiv> TokenType 53"

text \<open>Const keyword\<close>

abbreviation TOKEN_CONST :: token_type where "TOKEN_CONST \<equiv> TokenType 54"

text \<open>Operators\<close>

abbreviation TOKEN_WALRUS :: token_type where "TOKEN_WALRUS \<equiv> TokenType 55"
abbreviation TOKEN_ASSIGN :: token_type where "TOKEN_ASSIGN \<equiv> TokenType 56"
abbreviation TOKEN_EQUALS :: token_type where "TOKEN_EQUALS \<equiv> TokenType 57"
abbreviation TOKEN_ISNT :: token_type where "TOKEN_ISNT \<equiv> TokenType 58"
abbreviation TOKEN_DOUBLE_EQUALS :: token_type where "TOKEN_DOUBLE_EQUALS \<equiv> TokenType 59"
abbreviation TOKEN_NOT_EQUALS :: token_type where "TOKEN_NOT_EQUALS \<equiv> TokenType 60"
abbreviation TOKEN_LT :: token_type where "TOKEN_LT \<equiv> TokenType 61"
abbreviation TOKEN_GT :: token_type where "TOKEN_GT \<equiv> TokenType 62"
abbreviation TOKEN_LTE :: token_type where "TOKEN_LTE \<equiv> TokenType 63"
abbreviation TOKEN_GTE :: token_type where "TOKEN_GTE \<equiv> TokenType 64"
abbreviation TOKEN_PLUS :: token_type where "TOKEN_PLUS \<equiv> TokenType 65"
abbreviation TOKEN_PLUS_PLUS :: token_type where "TOKEN_PLUS_PLUS \<equiv> TokenType 66"
abbreviation TOKEN_MINUS :: token_type where "TOKEN_MINUS \<equiv> TokenType 67"
abbreviation TOKEN_MINUS_MINUS :: token_type where "TOKEN_MINUS_MINUS \<equiv> TokenType 68"
abbreviation TOKEN_STAR :: token_type where "TOKEN_STAR \<equiv> TokenType 69"
abbreviation TOKEN_SLASH :: token_type where "TOKEN_SLASH \<equiv> TokenType 70"
abbreviation TOKEN_PERCENT :: token_type where "TOKEN_PERCENT \<equiv> TokenType 71"
abbreviation TOKEN_AND :: token_type where "TOKEN_AND \<equiv> TokenType 72"
abbreviation TOKEN_AND_AND :: token_type where "TOKEN_AND_AND \<equiv> TokenType 73"
abbreviation TOKEN_BIT_AND :: token_type where "TOKEN_BIT_AND \<equiv> TokenType 74"
abbreviation TOKEN_BIT_AND_ASSIGN :: token_type where "TOKEN_BIT_AND_ASSIGN \<equiv> TokenType 75"
abbreviation TOKEN_OR :: token_type where "TOKEN_OR \<equiv> TokenType 76"
abbreviation TOKEN_OR_OR :: token_type where "TOKEN_OR_OR \<equiv> TokenType 77"
abbreviation TOKEN_BIT_OR :: token_type where "TOKEN_BIT_OR \<equiv> TokenType 78"
abbreviation TOKEN_ONERR :: token_type where "TOKEN_ONERR \<equiv> TokenType 79"
abbreviation TOKEN_EXPLAIN :: token_type where "TOKEN_EXPLAIN \<equiv> TokenType 80"
abbreviation TOKEN_NOT :: token_type where "TOKEN_NOT \<equiv> TokenType 81"
abbreviation TOKEN_BANG :: token_type where "TOKEN_BANG \<equiv> TokenType 82"
abbreviation TOKEN_PIPE :: token_type where "TOKEN_PIPE \<equiv> TokenType 83"
abbreviation TOKEN_FAT_ARROW :: token_type where "TOKEN_FAT_ARROW \<equiv> TokenType 84"
abbreviation TOKEN_ARROW_LEFT :: token_type where "TOKEN_ARROW_LEFT \<equiv> TokenType 85"

text \<open>Delimiters\<close>

abbreviation TOKEN_LPAREN :: token_type where "TOKEN_LPAREN \<equiv> TokenType 86"
abbreviation TOKEN_RPAREN :: token_type where "TOKEN_RPAREN \<equiv> TokenType 87"
abbreviation TOKEN_LBRACKET :: token_type where "TOKEN_LBRACKET \<equiv> TokenType 88"
abbreviation TOKEN_RBRACKET :: token_type where "TOKEN_RBRACKET \<equiv> TokenType 89"
abbreviation TOKEN_LBRACE :: token_type where "TOKEN_LBRACE \<equiv> TokenType 90"
abbreviation TOKEN_RBRACE :: token_type where "TOKEN_RBRACE \<equiv> TokenType 91"
abbreviation TOKEN_COMMA :: token_type where "TOKEN_COMMA \<equiv> TokenType 92"
abbreviation TOKEN_DOT :: token_type where "TOKEN_DOT \<equiv> TokenType 93"
abbreviation TOKEN_COLON :: token_type where "TOKEN_COLON \<equiv> TokenType 94"

text \<open>Special\<close>

abbreviation TOKEN_NEWLINE :: token_type where "TOKEN_NEWLINE \<equiv> TokenType 95"
abbreviation TOKEN_INDENT :: token_type where "TOKEN_INDENT \<equiv> TokenType 96"
abbreviation TOKEN_DEDENT :: token_type where "TOKEN_DEDENT \<equiv> TokenType 97"
abbreviation TOKEN_EOF :: token_type where "TOKEN_EOF \<equiv> TokenType 98"
abbreviation TOKEN_COMMENT :: token_type where "TOKEN_COMMENT \<equiv> TokenType 99"
abbreviation TOKEN_DIRECTIVE :: token_type where "TOKEN_DIRECTIVE \<equiv> TokenType 100"
abbreviation TOKEN_SEMICOLON :: token_type where "TOKEN_SEMICOLON \<equiv> TokenType 101"

definition token_type_count :: nat where
  "token_type_count = 102"

section \<open>Tokens\<close>

record token =
  Type :: token_type
  Lexeme :: string
  Line :: int
  Column :: int
  File :: string

section \<open>Names of token types\<close>

text \<open>The literal and keyword cases of \<^verbatim>\<open>TokenType.String\<close>, in the order of the switch.\<close>

definition literalKeywordNames :: "(token_type \<times> string) list" where
  "literalKeywordNames =
    [(TOKEN_IDENTIFIER, ''IDENTIFIER''),
     (TOKEN_INTEGER, ''INTEGER''),
     (TOKEN_FLOAT, ''FLOAT''),
     (TOKEN_STRING, ''STRING''),
     (TOKEN_STRING_HEAD, ''STRING_HEAD''),
     (TOKEN_STRING_MID, ''STRING_MID''),
     (TOKEN_STRING_TAIL, ''STRING_TAIL''),
     (TOKEN_STRING_RAW, ''STRING_RAW''),
     (TOKEN_TRUE, ''TRUE''),
     (TOKEN_FALSE, ''FALSE''),
     (TOKEN_PETIOLE, ''PETIOLE''),
     (TOKEN_IMPORT, ''IMPORT''),
     (TOKEN_TYPE, ''TYPE''),
     (TOKEN_INTERFACE, ''INTERFACE''),
     (TOKEN_VAR, ''VAR''),
     (TOKEN_FUNC, ''FUNC''),
     (TOKEN_RETURN, ''RETURN''),
     (TOKEN_IF, ''IF''),
     (TOKEN_ELSE, ''ELSE''),
     (TOKEN_FOR, ''FOR''),
     (TOKEN_CONTINUE, ''CONTINUE''),
     (TOKEN_BREAK, ''BREAK''),
     (TOKEN_IN, ''IN''),
     (TOKEN_FROM, ''FROM''),
     (TOKEN_TO, ''TO''),
     (TOKEN_THROUGH, ''THROUGH''),
     (TOKEN_SWITCH, ''SWITCH''),
     (TOKEN_CASE, ''CASE''),
     (TOKEN_DEFAULT, ''DEFAULT''),
     (TOKEN_GO, ''GO''),
     (TOKEN_DEFER, ''DEFER''),
     (TOKEN_MAKE, ''MAKE''),
     (TOKEN_LIST, ''LIST''),
     (TOKEN_MAP, ''MAP''),
     (TOKEN_CHANNEL, ''CHANNEL''),
     (TOKEN_SEND, ''SEND''),
     (TOKEN_RECEIVE, ''RECEIVE''),
     (TOKEN_CLOSE, ''CLOSE''),
     (TOKEN_PANIC, ''PANIC''),
     (TOKEN_RECOVER, ''RECOVER''),
     (TOKEN_ERROR, ''ERROR''),
     (TOKEN_EMPTY, ''EMPTY''),
     (TOKEN_REFERENCE, ''REFERENCE''),
     (TOKEN_DEREFERENCE, ''DEREFERENCE''),
     (TOKEN_ON, ''ON''),
     (TOKEN_DISCARD, ''DISCARD''),
     (TOKEN_OF, ''OF''),
     (TOKEN_AS, ''AS''),
     (TOKEN_SKILL, ''SKILL''),
     (TOKEN_SELECT, ''SELECT''),
     (TOKEN_ENUM, ''ENUM''),
     (TOKEN_THEN, ''THEN''),
     (TOKEN_IS, ''IS'')]"

text \<open>Its variadic, const, operator, delimiter and special cases.\<close>

definition operatorDelimiterNames :: "(token_type \<times> string) list" where
  "operatorDelimiterNames =
    [(TOKEN_MANY, ''MANY''),
     (TOKEN_CONST, ''CONST''),
     (TOKEN_WALRUS, ''WALRUS''),
     (TOKEN_ASSIGN, ''ASSIGN''),
     (TOKEN_EQUALS, ''EQUALS''),
     (TOKEN_DOUBLE_EQUALS, ''DOUBLE_EQUALS''),
     (TOKEN_NOT_EQUALS, ''NOT_EQUALS''),
     (TOKEN_LT, ''LT''),
     (TOKEN_GT, ''GT''),
     (TOKEN_LTE, ''LTE''),
     (TOKEN_GTE, ''GTE''),
     (TOKEN_PLUS, ''PLUS''),
     (TOKEN_PLUS_PLUS, ''PLUS_PLUS''),
     (TOKEN_MINUS, ''MINUS''),
     (TOKEN_MINUS_MINUS, ''MINUS_MINUS''),
     (TOKEN_STAR, ''STAR''),
     (TOKEN_SLASH, ''SLASH''),
     (TOKEN_PERCENT, ''PERCENT''),
     (TOKEN_AND, ''AND''),
     (TOKEN_AND_AND, ''AND_AND''),
     (TOKEN_BIT_AND, ''BIT_AND''),
     (TOKEN_BIT_AND_ASSIGN, ''BIT_AND_ASSIGN''),
     (TOKEN_OR, ''OR''),
     (TOKEN_OR_OR, ''OR_OR''),
     (TOKEN_BIT_OR, ''BIT_OR''),
     (TOKEN_ONERR, ''ONERR''),
     (TOKEN_EXPLAIN, ''EXPLAIN''),
     (TOKEN_NOT, ''NOT''),
     (TOKEN_BANG, ''BANG''),
     (TOKEN_PIPE, ''PIPE''),
     (TOKEN_FAT_ARROW, ''FAT_ARROW''),
     (TOKEN_ARROW_LEFT, ''ARROW_LEFT''),
     (TOKEN_LPAREN, ''LPAREN''),
     (TOKEN_RPAREN, ''RPAREN''),
     (TOKEN_LBRACKET, ''LBRACKET''),
     (TOKEN_RBRACKET, ''RBRACKET''),
     (TOKEN_LBRACE, ''LBRACE''),
     (TOKEN_RBRACE, ''RBRACE''),
     (TOKEN_COMMA, ''COMMA''),
     (TOKEN_DOT, ''DOT''),
     (TOKEN_COLON, ''COLON''),
     (TOKEN_NEWLINE, ''NEWLINE''),
     (TOKEN_INDENT, ''INDENT''),
     (TOKEN_DEDENT, ''DEDENT''),
     (TOKEN_EOF, ''EOF''),
     (TOKEN_COMMENT, ''COMMENT''),
     (TOKEN_DIRECTIVE, ''DIRECTIVE''),
     (TOKEN_SEMICOLON, ''SEMICOLON'')]"

definition tokenTypeString :: "token_type \<Rightarrow> string" where
  "tokenTypeString t =
     (case map_of (literalKeywordNames @ operatorDelimiterNames) t of
        Some s \<Rightarrow> s
      | None \<Rightarrow> ''UNKNOWN'')"

section \<open>Keywords\<close>

definition keyword_table :: "(string \<times> token_type) list" where
  "keyword_table =
    [(''petiole'', TOKEN_PETIOLE),
     (''package'', TOKEN_PETIOLE),
     (''import'', TOKEN_IMPORT),
     (''type'', TOKEN_TYPE),
     (''interface'', TOKEN_INTERFACE),
     (''variable'', TOKEN_VAR),
     (''function'', TOKEN_FUNC),
     (''var'', TOKEN_VAR),
     (''func'', TOKEN_FUNC),
     (''return'', TOKEN_RETURN),
     (''if'', TOKEN_IF),
     (''else'', TOKEN_ELSE),
     (''for'', TOKEN_FOR),
     (''continue'', TOKEN_CONTINUE),
     (''break'', TOKEN_BREAK),
     (''in'', TOKEN_IN),
     (''from'', TOKEN_FROM),
     (''to'', TOKEN_TO),
     (''through'', TOKEN_THROUGH),
     (''switch'', TOKEN_SWITCH),
     (''when'', TOKEN_CASE),
     (''default'', TOKEN_DEFAULT),
     (''otherwise'', TOKEN_DEFAULT),
     (''go'', TOKEN_GO),
     (''defer'', TOKEN_DEFER),
     (''make'', TOKEN_MAKE),
     (''list'', TOKEN_LIST),
     (''map'', TOKEN_MAP),
     (''channel'', TOKEN_CHANNEL),
     (''send'', TOKEN_SEND),
     (''receive'', TOKEN_RECEIVE),
     (''close'', TOKEN_CLOSE),
     (''panic'', TOKEN_PANIC),
     (''recover'', TOKEN_RECOVER),
     (''error'', TOKEN_ERROR),
     (''empty'', TOKEN_EMPTY),
     (''nil'', TOKEN_EMPTY),
     (''reference'', TOKEN_REFERENCE),
     (''dereference'', TOKEN_DEREFERENCE),
     (''on'', TOKEN_ON),
     (''discard'', TOKEN_DISCARD),
     (''of'', TOKEN_OF),
     (''as'', TOKEN_AS),
     (''many'', TOKEN_MANY),
     (''const'', TOKEN_CONST),
     (''constant'', TOKEN_CONST),
     (''true'', TOKEN_TRUE),
     (''false'', TOKEN_FALSE),
     (''equals'', TOKEN_EQUALS),
     (''isnt'', TOKEN_ISNT),
     (''and'', TOKEN_AND),
     (''or'', TOKEN_OR),
     (''onerr'', TOKEN_ONERR),
     (''explain'', TOKEN_EXPLAIN),
     (''not'', TOKEN_NOT),
     (''skill'', TOKEN_SKILL),
     (''select'', TOKEN_SELECT),
     (''enum'', TOKEN_ENUM),
     (''then'', TOKEN_THEN),
     (''is'', TOKEN_IS)]"

definition LookupKeyword :: "string \<Rightarrow> token_type" where
  "LookupKeyword identifier =
     (case map_of keyword_table identifier of Some tok \<Rightarrow> tok | None \<Rightarrow> TOKEN_IDENTIFIER)"

definition IsKeyword :: "string \<Rightarrow> bool" where
  "IsKeyword s \<longleftrightarrow> map_of keyword_table s \<noteq> None"

text \<open>
  \<^verbatim>\<open>Keywords()\<close> returns the keys of the map in Go's unspecified iteration order; here in the
  order of the table. The \<^verbatim>\<open>sync.Once\<close> cache only avoids recomputing the same list.
\<close>

definition Keywords :: "string list" where
  "Keywords = map fst keyword_table"

section \<open>Facts about the tables\<close>

lemma keyword_table_types:
  "list_all (\<lambda>(k, t). t \<noteq> TOKEN_IDENTIFIER) keyword_table"
  by (simp add: keyword_table_def)

lemma keyword_table_distinct: "distinct (map fst keyword_table)"
  by code_simp

lemma LookupKeyword_iff: "LookupKeyword s = TOKEN_IDENTIFIER \<longleftrightarrow> \<not> IsKeyword s"
proof (cases "map_of keyword_table s")
  case None
  then show ?thesis by (simp add: LookupKeyword_def IsKeyword_def)
next
  case (Some t)
  then have "(s, t) \<in> set keyword_table" by (rule map_of_SomeD)
  with keyword_table_types have "t \<noteq> TOKEN_IDENTIFIER" by (auto simp: list_all_iff)
  with Some show ?thesis by (simp add: LookupKeyword_def IsKeyword_def)
qed

lemma LookupKeyword_range:
  "LookupKeyword s \<in> insert TOKEN_IDENTIFIER (snd ` set keyword_table)"
  by (auto simp: LookupKeyword_def split: option.splits dest!: map_of_SomeD intro: rev_image_eqI)

end
