(* ===== verification/Ast.thy ===== *)
theory Ast
  imports Token
begin

text \<open>
  The nodes of \<^verbatim>\<open>internal/ast/ast.go\<close> that the modelled components exchange: positions,
  directives and type annotations. A Go interface value is \<^verbatim>\<open>nil\<close> or a pointer to one of the
  node structs; the constructor \<open>NilType\<close> stands for the \<^verbatim>\<open>nil\<close> value of \<^verbatim>\<open>TypeAnnotation\<close>.
\<close>

record Position =
  posLine :: int
  posColumn :: int
  posFile :: string

record Directive =
  dirToken :: token
  dirName :: string
  dirArgs :: "string list"

datatype TypeAnnotation =
    NilType
  | PrimitiveType token string
  | NamedType token string
  | ReferenceType token TypeAnnotation
  | ListType token TypeAnnotation
  | MapType token TypeAnnotation TypeAnnotation
  | ChannelType token TypeAnnotation
  | FunctionType token "TypeAnnotation list" "TypeAnnotation list"

text \<open>The token of a node; calling a method on the \<^verbatim>\<open>nil\<close> value panics.\<close>

fun type_token :: "TypeAnnotation \<Rightarrow> token option" where
  "type_token NilType = None"
| "type_token (PrimitiveType t n) = Some t"
| "type_token (NamedType t n) = Some t"
| "type_token (ReferenceType t e) = Some t"
| "type_token (ListType t e) = Some t"
| "type_token (MapType t k v) = Some t"
| "type_token (ChannelType t e) = Some t"
| "type_token (FunctionType t ps rs) = Some t"

definition token_pos :: "token \<Rightarrow> Position" where
  "token_pos t = \<lparr>posLine = Line t, posColumn = Column t, posFile = File t\<rparr>"

definition TypePos :: "TypeAnnotation \<Rightarrow> Position option" where
  "TypePos ty = map_option token_pos (type_token ty)"

definition TypeTokenLiteral :: "TypeAnnotation \<Rightarrow> string option" where
  "TypeTokenLiteral ty = map_option Lexeme (type_token ty)"

text \<open>Two annotations that differ in their tokens (their source positions) only.\<close>

fun erase :: "TypeAnnotation \<Rightarrow> TypeAnnotation" where
  "erase NilType = NilType"
| "erase (PrimitiveType t n) = PrimitiveType undefined n"
| "erase (NamedType t n) = NamedType undefined n"
| "erase (ReferenceType t e) = ReferenceType undefined (erase e)"
| "erase (ListType t e) = ListType undefined (erase e)"
| "erase (MapType t k v) = MapType undefined (erase k) (erase v)"
| "erase (ChannelType t e) = ChannelType undefined (erase e)"
| "erase (FunctionType t ps rs) = FunctionType undefined (map erase ps) (map erase rs)"

end
