(* ===== verification/Lexer.thy ===== *)
theory Lexer
  imports Token
begin

text \<open>
  \<^verbatim>\<open>internal/lexer/lexer.go\<close>, first part: the lexer's state, its character classes, the
  primitives that read runes and append tokens or errors, and the scanners of one token
  that do not look into string content (comments, numbers, identifiers).

  A method on \<^verbatim>\<open>*Lexer\<close> is a function on the record \<open>lexer\<close>. Go slices used as stacks grow
  at the end, and so do the lists here: the top of a stack is its last element.
\<close>

section \<open>State\<close>

text \<open>The error messages of the lexer, with the values they are formatted from.\<close>

datatype lex_error =
    UnexpectedCharacter rune
  | TabsNotAllowed
  | NotMultipleOfFour int int
  | IndentJump int int
  | DedentMismatch int "int list"
  | UnterminatedString
  | NulInString
  | IncompleteHexAtEnd
  | IncompleteHexDigits
  | OctalOutOfRange
  | UnterminatedRawString
  | NulInRawString
  | HexNoDigits
  | OctalNoDigits
  | BinaryNoDigits

record lex_diag =
  diagFile :: string
  diagLine :: int
  diagColumn :: int
  diagError :: lex_error

record interp_state =
  interpBraceDepth :: int
  quote :: rune

record lexer =
  source :: "rune list"
  start :: nat
  current :: nat
  line :: int
  column :: int
  filename :: string
  tokens :: "token list"
  indentStack :: "int list"
  atLineStart :: bool
  indentationHandled :: bool
  errors :: "lex_diag list"
  continuationLine :: bool
  braceDepth :: int
  parenDepth :: int
  inFunctionLiteral :: bool
  closureIndentStack :: "int list"
  closureParenDepthStack :: "int list"
  afterFatArrow :: bool
  pendingClosureBlock :: bool
  blockKeywordSeen :: bool
  braceStack :: "bool list"
  braceBlockDepth :: int
  interpStack :: "interp_state list"

definition NewLexer :: "string \<Rightarrow> string \<Rightarrow> lexer" where
  "NewLexer src fname =
     \<lparr>source = go_runes src, start = 0, current = 0, line = 1, column = 1, filename = fname,
      tokens = [], indentStack = [0], atLineStart = True, indentationHandled = False,
      errors = [], continuationLine = False, braceDepth = 0, parenDepth = 0,
      inFunctionLiteral = False, closureIndentStack = [], closureParenDepthStack = [],
      afterFatArrow = False, pendingClosureBlock = False, blockKeywordSeen = False,
      braceStack = [], braceBlockDepth = 0, interpStack = []\<rparr>"

section \<open>Character classes\<close>

definition isDigit :: "rune \<Rightarrow> bool" where
  "isDigit c \<longleftrightarrow> c \<ge> rn CHR ''0'' \<and> c \<le> rn CHR ''9''"

definition hexDigit :: "rune \<Rightarrow> nat option" where
  "hexDigit c =
     (if c \<ge> rn CHR ''0'' \<and> c \<le> rn CHR ''9'' then Some (c - rn CHR ''0'')
      else if c \<ge> rn CHR ''a'' \<and> c \<le> rn CHR ''f'' then Some (c - rn CHR ''a'' + 10)
      else if c \<ge> rn CHR ''A'' \<and> c \<le> rn CHR ''F'' then Some (c - rn CHR ''A'' + 10)
      else None)"

definition isHexDigit :: "rune \<Rightarrow> bool" where
  "isHexDigit c \<longleftrightarrow> (c \<ge> rn CHR ''0'' \<and> c \<le> rn CHR ''9'') \<or>
     (c \<ge> rn CHR ''a'' \<and> c \<le> rn CHR ''f'') \<or> (c \<ge> rn CHR ''A'' \<and> c \<le> rn CHR ''F'')"

definition isOctalDigit :: "rune \<Rightarrow> bool" where
  "isOctalDigit c \<longleftrightarrow> c \<ge> rn CHR ''0'' \<and> c \<le> rn CHR ''7''"

definition isAlpha :: "rune \<Rightarrow> bool" where
  "isAlpha c \<longleftrightarrow> (c \<ge> rn CHR ''a'' \<and> c \<le> rn CHR ''z'') \<or>
     (c \<ge> rn CHR ''A'' \<and> c \<le> rn CHR ''Z'') \<or> c = rn CHR ''_''"

definition isAlphaNumeric :: "rune \<Rightarrow> bool" where
  "isAlphaNumeric c \<longleftrightarrow> isAlpha c \<or> isDigit c"

text \<open>The blanks that indentation is made of.\<close>

abbreviation isBlank :: "rune \<Rightarrow> bool" where
  "isBlank c \<equiv> c = rn CHR '' '' \<or> c = rn CHR 0x09"

abbreviation rune_nl :: rune where "rune_nl \<equiv> rn CHR 0x0A"
abbreviation rune_cr :: rune where "rune_cr \<equiv> rn CHR 0x0D"
abbreviation rune_dquote :: rune where "rune_dquote \<equiv> rn CHR 0x22"
abbreviation rune_squote :: rune where "rune_squote \<equiv> rn CHR 0x27"
abbreviation rune_backslash :: rune where "rune_backslash \<equiv> rn CHR 0x5C"
abbreviation rune_backtick :: rune where "rune_backtick \<equiv> rn CHR 0x60"

section \<open>Primitives\<close>

definition isAtEnd :: "lexer \<Rightarrow> bool" where
  "isAtEnd l \<longleftrightarrow> current l \<ge> length (source l)"

definition peek :: "lexer \<Rightarrow> rune" where
  "peek l = (if isAtEnd l then 0 else source l ! current l)"

definition peekNext :: "lexer \<Rightarrow> rune" where
  "peekNext l = (if current l + 1 \<ge> length (source l) then 0 else source l ! (current l + 1))"

definition advance :: "lexer \<Rightarrow> rune \<times> lexer" where
  "advance l =
     (if isAtEnd l then (0, l)
      else (source l ! current l, l\<lparr>current := current l + 1, column := column l + 1\<rparr>))"

text \<open>A call of \<^verbatim>\<open>l.advance()\<close> whose result is not used.\<close>

definition skip :: "lexer \<Rightarrow> lexer" where
  "skip l = snd (advance l)"

definition match_rune :: "rune \<Rightarrow> lexer \<Rightarrow> bool \<times> lexer" where
  "match_rune expected l =
     (if isAtEnd l then (False, l)
      else if source l ! current l \<noteq> expected then (False, l)
      else (True, l\<lparr>current := current l + 1, column := column l + 1\<rparr>))"

definition mkToken :: "token_type \<Rightarrow> string \<Rightarrow> lexer \<Rightarrow> token" where
  "mkToken tt lexeme l =
     \<lparr>Type = tt, Lexeme = lexeme, Line = line l,
      Column = max 0 (column l - int (rune_count lexeme)), File = filename l\<rparr>"

definition isBlockKeyword :: "token_type \<Rightarrow> bool" where
  "isBlockKeyword tt \<longleftrightarrow> tt = TOKEN_IF \<or> tt = TOKEN_FOR \<or> tt = TOKEN_FUNC \<or> tt = TOKEN_SWITCH \<or>
     tt = TOKEN_ELSE \<or> tt = TOKEN_SELECT \<or> tt = TOKEN_GO \<or> tt = TOKEN_DEFER"

definition addTokenWithLexeme :: "token_type \<Rightarrow> string \<Rightarrow> lexer \<Rightarrow> lexer" where
  "addTokenWithLexeme tt lexeme l =
     (let l1 = l\<lparr>tokens := tokens l @ [mkToken tt lexeme l]\<rparr>;
          l2 = (if afterFatArrow l1 \<and> tt \<noteq> TOKEN_FAT_ARROW \<and> tt \<noteq> TOKEN_COMMENT
                   \<and> tt \<noteq> TOKEN_DIRECTIVE
                then l1\<lparr>afterFatArrow := False\<rparr> else l1)
      in if isBlockKeyword tt then l2\<lparr>blockKeywordSeen := True\<rparr>
         else if tt = TOKEN_NEWLINE \<or> tt = TOKEN_INDENT \<or> tt = TOKEN_OF
         then l2\<lparr>blockKeywordSeen := False\<rparr>
         else l2)"

definition current_lexeme :: "lexer \<Rightarrow> string" where
  "current_lexeme l = go_string (take (current l - start l) (drop (start l) (source l)))"

definition addToken :: "token_type \<Rightarrow> lexer \<Rightarrow> lexer" where
  "addToken tt l = addTokenWithLexeme tt (current_lexeme l) l"

definition lexError :: "lex_error \<Rightarrow> lexer \<Rightarrow> lexer" where
  "lexError e l =
     l\<lparr>errors := errors l @
        [\<lparr>diagFile = filename l, diagLine = line l, diagColumn = column l, diagError = e\<rparr>]\<rparr>"

text \<open>
  The loops \<^verbatim>\<open>for P(l.peek()) { l.advance() }\<close>. At the end of the source \<^verbatim>\<open>peek\<close> is 0, which
  satisfies none of the conditions \<open>P\<close> the code uses, so the loops without an \<^verbatim>\<open>isAtEnd\<close>
  test stop there as well.
\<close>

function advance_while :: "(rune \<Rightarrow> bool) \<Rightarrow> lexer \<Rightarrow> lexer" where
  "advance_while P l = (if \<not> isAtEnd l \<and> P (peek l) then advance_while P (skip l) else l)"
  by pat_completeness auto
termination
  by (relation "measure (\<lambda>(P, l). length (source l) - current l)")
     (auto simp: skip_def advance_def isAtEnd_def)

declare advance_while.simps [simp del]

section \<open>Comments, numbers, identifiers\<close>

definition scanComment :: "lexer \<Rightarrow> lexer" where
  "scanComment l =
     (let l1 = advance_while (\<lambda>c. c \<noteq> rune_nl) l
      in if has_prefix (current_lexeme l1) ''# kuki:'' then addToken TOKEN_DIRECTIVE l1
         else addToken TOKEN_COMMENT l1)"

definition isBinaryDigit :: "rune \<Rightarrow> bool" where
  "isBinaryDigit c \<longleftrightarrow> c = rn CHR ''0'' \<or> c = rn CHR ''1''"

text \<open>The three prefixed forms: consume the prefix letter, complain about a missing digit,
  consume the digits and separators.\<close>

definition scanPrefixed :: "(rune \<Rightarrow> bool) \<Rightarrow> lex_error \<Rightarrow> lexer \<Rightarrow> lexer" where
  "scanPrefixed digit e l =
     (let l1 = skip l;
          l2 = (if \<not> digit (peek l1) then lexError e l1 else l1);
          l3 = advance_while (\<lambda>c. digit c \<or> c = rn CHR ''_'') l2
      in addToken TOKEN_INTEGER l3)"

definition scanDecimal :: "lexer \<Rightarrow> lexer" where
  "scanDecimal l =
     (let l1 = advance_while (\<lambda>c. isDigit c \<or> c = rn CHR ''_'') l
      in if peek l1 = rn CHR ''.'' \<and> isDigit (peekNext l1)
         then addToken TOKEN_FLOAT (advance_while (\<lambda>c. isDigit c \<or> c = rn CHR ''_'') (skip l1))
         else addToken TOKEN_INTEGER l1)"

definition scanNumber :: "lexer \<Rightarrow> lexer" where
  "scanNumber l =
     (let next = peek l
      in if source l ! start l = rn CHR ''0'' \<and> (next = rn CHR ''x'' \<or> next = rn CHR ''X'')
           then scanPrefixed isHexDigit HexNoDigits l
         else if source l ! start l = rn CHR ''0'' \<and> (next = rn CHR ''o'' \<or> next = rn CHR ''O'')
           then scanPrefixed isOctalDigit OctalNoDigits l
         else if source l ! start l = rn CHR ''0'' \<and> (next = rn CHR ''b'' \<or> next = rn CHR ''B'')
           then scanPrefixed isBinaryDigit BinaryNoDigits l
         else scanDecimal l)"

definition scanIdentifier :: "lexer \<Rightarrow> lexer" where
  "scanIdentifier l =
     (let l1 = advance_while isAlphaNumeric l;
          text = current_lexeme l1;
          tokenType = LookupKeyword text;
          l2 = addTokenWithLexeme tokenType text l1
      in if tokenType = TOKEN_FUNC then l2\<lparr>inFunctionLiteral := True\<rparr> else l2)"

end
