(* ===== verification/LexerStrings.thy ===== *)
theory LexerStrings
  imports Lexer
begin

text \<open>
  \<^verbatim>\<open>internal/lexer/lexer.go\<close>, second part: string literals. A double-quoted string is scanned
  in place; a triple-quoted or single-quoted string is read to its closing delimiter,
  dedented, and then spliced back into the source as an escaped double-quoted string, which
  the in-place scanner reads. The splice lengthens the source while it is being scanned.
\<close>

section \<open>What is left to scan\<close>

definition rest :: "lexer \<Rightarrow> rune list" where
  "rest l = drop (current l) (source l)"

lemma isAtEnd_rest: "isAtEnd l \<longleftrightarrow> rest l = []"
  by (simp add: isAtEnd_def rest_def)

lemma rest_skip [simp]: "rest (skip l) = tl (rest l)"
  by (simp add: rest_def skip_def advance_def isAtEnd_def tl_drop drop_Suc)

lemma peek_rest: "peek l = (case rest l of [] \<Rightarrow> 0 | c # _ \<Rightarrow> c)"
  by (auto simp: peek_def isAtEnd_def rest_def Cons_nth_drop_Suc [symmetric] not_le
      split: list.splits)

lemma advance_eq: "advance l = (peek l, skip l)"
  by (simp add: advance_def peek_def skip_def)

section \<open>Dedenting\<close>

abbreviation char_nl :: char where "char_nl \<equiv> CHR 0x0A"
abbreviation char_cr :: char where "char_cr \<equiv> CHR 0x0D"
abbreviation char_tab :: char where "char_tab \<equiv> CHR 0x09"

definition strip_first_newline :: "string \<Rightarrow> string" where
  "strip_first_newline raw =
     (if length raw > 0 \<and> raw ! 0 = char_nl then drop 1 raw
      else if length raw > 1 \<and> raw ! 0 = char_cr \<and> raw ! 1 = char_nl then drop 2 raw
      else raw)"

definition strip_last_newline :: "string \<Rightarrow> string" where
  "strip_last_newline raw =
     (if length raw > 0 \<and> last raw = char_nl
      then (let raw1 = butlast raw
            in if length raw1 > 0 \<and> last raw1 = char_cr then butlast raw1 else raw1)
      else raw)"

fun leading_indent :: "string \<Rightarrow> int" where
  "leading_indent [] = 0"
| "leading_indent (ch # s) =
     (if ch = CHR '' '' then 1 + leading_indent s
      else if ch = char_tab then 4 + leading_indent s
      else 0)"

definition blank_line :: "string \<Rightarrow> bool" where
  "blank_line s \<longleftrightarrow> trim_right s [CHR '' '', char_tab, char_cr] = []"

fun min_indent :: "string list \<Rightarrow> int \<Rightarrow> int" where
  "min_indent [] m = m"
| "min_indent (s # ls) m =
     (if blank_line s then min_indent ls m
      else (let i = leading_indent s
            in min_indent ls (if m < 0 \<or> i < m then i else m)))"

fun strip_indent :: "int \<Rightarrow> int \<Rightarrow> string \<Rightarrow> string" where
  "strip_indent m stripped [] = []"
| "strip_indent m stripped (ch # s) =
     (if stripped < m then
        (if ch = CHR '' '' then strip_indent m (stripped + 1) s
         else if ch = char_tab
           then strip_indent m (if stripped + 4 > m then m else stripped + 4) s
         else ch # s)
      else ch # s)"

definition dedentTripleQuote :: "string \<Rightarrow> string" where
  "dedentTripleQuote raw0 =
     (let raw = strip_last_newline (strip_first_newline raw0);
          ls = split_char char_nl raw;
          m = min_indent ls (- 1)
      in if m \<le> 0 then raw else go_join (map (strip_indent m 0) ls) [char_nl])"

section \<open>Escape sequences\<close>

text \<open>The private-use sentinels for the escapes \<^verbatim>\<open>\{\<close>, \<^verbatim>\<open>\}\<close> and \<^verbatim>\<open>\sep\<close>.\<close>

abbreviation pua_lbrace :: rune where "pua_lbrace \<equiv> 0xE000"
abbreviation pua_rbrace :: rune where "pua_rbrace \<equiv> 0xE001"
abbreviation pua_sep :: rune where "pua_sep \<equiv> 0xE002"

text \<open>The loop over up to two more octal digits.\<close>

fun octal_digits :: "nat \<Rightarrow> nat \<Rightarrow> lexer \<Rightarrow> nat \<times> lexer" where
  "octal_digits 0 oct l = (oct, l)"
| "octal_digits (Suc k) oct l =
     (if isAtEnd l then (oct, l)
      else if isOctalDigit (peek l)
        then octal_digits k (oct * 8 + (peek l - rn CHR ''0'')) (skip l)
      else (oct, l))"

definition scanHexEscape :: "string \<Rightarrow> lexer \<Rightarrow> string \<times> lexer" where
  "scanHexEscape v l =
     (if isAtEnd l then (v, lexError IncompleteHexAtEnd l)
      else (let (h1, l1) = advance l
            in if isAtEnd l1 then (v, lexError IncompleteHexDigits l1)
               else (let (h2, l2) = advance l1
                     in case (hexDigit h1, hexDigit h2) of
                          (Some hi, Some lo) \<Rightarrow> (v @ utf8_encode (hi * 16 + lo), l2)
                        | _ \<Rightarrow> (v @ [CHR 0x5C, CHR ''x''] @ utf8_encode h1 @ utf8_encode h2, l2))))"

definition scanOctalEscape :: "rune \<Rightarrow> string \<Rightarrow> lexer \<Rightarrow> string \<times> lexer" where
  "scanOctalEscape escaped v l =
     (let (oct, l1) = octal_digits 2 (escaped - rn CHR ''0'') l
      in if oct > 255 then (v, lexError OctalOutOfRange l1) else (v @ [char_of oct], l1))"

definition scanStringEscape :: "string \<Rightarrow> lexer \<Rightarrow> string \<times> lexer" where
  "scanStringEscape v l0 =
     (let l = skip l0
      in if isAtEnd l then (v, l)
         else (let (escaped, l1) = advance l
               in if escaped = rn CHR ''n'' then (v @ [char_nl], l1)
                  else if escaped = rn CHR ''t'' then (v @ [char_tab], l1)
                  else if escaped = rn CHR ''r'' then (v @ [char_cr], l1)
                  else if escaped = rune_backslash then (v @ [CHR 0x5C], l1)
                  else if escaped = rune_dquote then (v @ [CHR 0x22], l1)
                  else if escaped = rune_squote then (v @ [CHR 0x27], l1)
                  else if escaped = rn CHR ''{'' then (v @ utf8_encode pua_lbrace, l1)
                  else if escaped = rn CHR ''}'' then (v @ utf8_encode pua_rbrace, l1)
                  else if escaped = rn CHR ''s'' then
                    (if peek l1 = rn CHR ''e'' \<and> peekNext l1 = rn CHR ''p''
                     then (v @ utf8_encode pua_sep, skip (skip l1))
                     else (v @ ''s'', l1))
                  else if escaped = rn CHR ''x'' then scanHexEscape v l1
                  else if isOctalDigit escaped then scanOctalEscape escaped v l1
                  else (v @ utf8_encode escaped, l1)))"

lemma rest_lexError [simp]: "rest (lexError e l) = rest l"
  by (simp add: rest_def lexError_def)

lemma suffix_tl: "suffix (tl xs) xs"
  by (metis suffix_drop drop_Suc drop_0)

lemma rest_octal_digits: "suffix (rest (snd (octal_digits k oct l))) (rest l)"
  by (induction k oct l rule: octal_digits.induct)
     (auto intro: suffix_order.trans suffix_tl)

lemma rest_scanHexEscape: "suffix (rest (snd (scanHexEscape v l))) (rest l)"
  by (auto simp: scanHexEscape_def advance_eq Let_def split: option.splits
      intro: suffix_tl suffix_order.trans [OF suffix_tl suffix_tl])

lemma rest_scanOctalEscape: "suffix (rest (snd (scanOctalEscape e v l))) (rest l)"
  using rest_octal_digits [of 2 "e - rn CHR ''0''" l]
  by (auto simp: scanOctalEscape_def split: prod.splits)

lemma rest_scanStringEscape: "suffix (rest (snd (scanStringEscape v l))) (tl (rest l))"
proof -
  have *: "suffix (rest l1) (tl (tl (rest l))) \<Longrightarrow> suffix (rest l1) (tl (rest l))" for l1
    by (meson suffix_order.trans suffix_tl)
  have t: "suffix (tl (tl (rest l))) (tl (rest l))" by (rule suffix_tl)
  have t4: "suffix (tl (tl (tl (tl (rest l))))) (tl (rest l))"
    by (meson suffix_order.trans suffix_tl)
  show ?thesis
    using rest_scanHexEscape [of v "skip (skip l)"]
      rest_scanOctalEscape [of "peek (skip l)" v "skip (skip l)"] t t4
    by (auto simp: scanStringEscape_def advance_eq Let_def intro: *)
qed

lemma rest_scanStringEscape_less:
  "\<not> isAtEnd l \<Longrightarrow> length (rest (snd (scanStringEscape v l))) < length (rest l)"
  using suffix_length_le [OF rest_scanStringEscape [of v l]]
  by (cases "rest l") (auto simp: isAtEnd_rest)

section \<open>The body of a string\<close>

definition isInterpStart :: "lexer \<Rightarrow> bool" where
  "isInterpStart l \<longleftrightarrow>
     (if current l + 1 \<ge> length (source l) then False else isAlpha (source l ! (current l + 1)))"

definition newline_pos :: "lexer \<Rightarrow> lexer" where
  "newline_pos l = l\<lparr>line := line l + 1, column := 0\<rparr>"

lemma rest_newline_pos [simp]: "rest (newline_pos l) = rest l"
  by (simp add: rest_def newline_pos_def)

definition pushInterp :: "rune \<Rightarrow> lexer \<Rightarrow> lexer" where
  "pushInterp q l = l\<lparr>interpStack := interpStack l @ [\<lparr>interpBraceDepth = 0, quote = q\<rparr>]\<rparr>"

function scanStringLoop ::
  "token_type \<Rightarrow> token_type \<Rightarrow> rune \<Rightarrow> string \<Rightarrow> lexer \<Rightarrow> lexer" where
  "scanStringLoop interpTT endTT q v l =
     (if isAtEnd l then lexError UnterminatedString l
      else if peek l = q then addTokenWithLexeme endTT v (skip l)
      else if peek l = rune_nl then
        (if q = rune_dquote then lexError UnterminatedString l
         else scanStringLoop interpTT endTT q (v @ utf8_encode (peek l)) (newline_pos (skip l)))
      else if peek l = rune_backslash then
        scanStringLoop interpTT endTT q
          (fst (scanStringEscape v l)) (snd (scanStringEscape v l))
      else if peek l = rn CHR ''{'' \<and> isInterpStart l then
        pushInterp q (addTokenWithLexeme interpTT v (skip l))
      else if peek l = 0 then lexError NulInString (skip l)
      else scanStringLoop interpTT endTT q (v @ utf8_encode (peek l)) (skip l))"
  by pat_completeness auto
termination
  by (relation "measure (\<lambda>(_, _, _, _, l). length (rest l))")
     (auto simp: rest_scanStringEscape_less isAtEnd_rest case_prod_beta)

declare scanStringLoop.simps [simp del]

definition scanStringBody :: "token_type \<Rightarrow> token_type \<Rightarrow> rune \<Rightarrow> lexer \<Rightarrow> lexer" where
  "scanStringBody interpTT endTT q l = scanStringLoop interpTT endTT q [] l"

definition scanStringContinuation :: "rune \<Rightarrow> lexer \<Rightarrow> lexer" where
  "scanStringContinuation q l = scanStringBody TOKEN_STRING_MID TOKEN_STRING_TAIL q l"

section \<open>Splicing content back into the source\<close>

definition inject_rune :: "rune \<Rightarrow> rune list" where
  "inject_rune ch =
     (if ch = rune_dquote then [rune_backslash, rune_dquote]
      else if ch = rune_nl then [rune_backslash, rn CHR ''n'']
      else if ch = rune_cr then []
      else [ch])"

fun inject_content :: "rune list \<Rightarrow> rune list" where
  "inject_content [] = []"
| "inject_content [ch] = inject_rune ch"
| "inject_content (ch # d # rs) =
     (if ch = rune_backslash then ch # d # inject_content rs
      else inject_rune ch @ inject_content (d # rs))"

definition scanStringFromContent :: "string \<Rightarrow> lexer \<Rightarrow> lexer" where
  "scanStringFromContent content l =
     (let inject = inject_content (go_runes content) @ [rune_dquote];
          l1 = l\<lparr>source := take (current l) (source l) @ inject @ drop (current l) (source l)\<rparr>
      in scanStringBody TOKEN_STRING_HEAD TOKEN_STRING rune_dquote l1)"

section \<open>Delimited strings\<close>

definition atTripleQuote :: "lexer \<Rightarrow> bool" where
  "atTripleQuote l \<longleftrightarrow>
     peek l = rune_dquote \<and>
     current l + 1 < length (source l) \<and> source l ! (current l + 1) = rune_dquote \<and>
     current l + 2 < length (source l) \<and> source l ! (current l + 2) = rune_dquote"

text \<open>\<^verbatim>\<open>ch := l.advance()\<close> followed by the line count of the multi-line scanners.\<close>

definition skip_counting :: "lexer \<Rightarrow> lexer" where
  "skip_counting l = (if peek l = rune_nl then newline_pos (skip l) else skip l)"

lemma rest_skip_counting [simp]: "rest (skip_counting l) = tl (rest l)"
  by (simp add: skip_counting_def)

function readTriple :: "rune list \<Rightarrow> lexer \<Rightarrow> rune list \<times> lexer" where
  "readTriple raw l =
     (if isAtEnd l then (raw, l)
      else if atTripleQuote l then (raw, skip (skip (skip l)))
      else readTriple (raw @ [peek l]) (skip_counting l))"
  by pat_completeness auto
termination
  by (relation "measure (\<lambda>(_, l). length (rest l))") (auto simp: isAtEnd_rest)

declare readTriple.simps [simp del]

function readSingle :: "rune list \<Rightarrow> lexer \<Rightarrow> rune list \<times> lexer" where
  "readSingle raw l =
     (if isAtEnd l then (raw, l)
      else if peek l = rune_squote then (raw, skip l)
      else if peek l = rune_backslash \<and> current l + 1 < length (source l)
              \<and> source l ! (current l + 1) = rune_squote
        then readSingle (raw @ [rune_squote]) (skip (skip l))
      else readSingle (raw @ [peek l]) (skip_counting l))"
  by pat_completeness auto
termination
  by (relation "measure (\<lambda>(_, l). length (rest l))")
     (auto simp: isAtEnd_rest intro: le_less_trans [OF diff_le_self])

declare readSingle.simps [simp del]

text \<open>The common tail of the two multi-line scanners: dedent, scan the content with the line
  of the opening delimiter, then restore the position after the closing one.\<close>

definition scanDelimited :: "int \<Rightarrow> rune list \<times> lexer \<Rightarrow> lexer" where
  "scanDelimited startLine rl =
     (let (raw, l) = rl;
          content = dedentTripleQuote (go_string raw);
          l1 = scanStringFromContent content (l\<lparr>line := startLine\<rparr>)
      in l1\<lparr>line := line l, column := column l\<rparr>)"

definition scanTripleQuoteString :: "lexer \<Rightarrow> lexer" where
  "scanTripleQuoteString l = scanDelimited (line l) (readTriple [] l)"

definition scanSingleQuoteString :: "lexer \<Rightarrow> lexer" where
  "scanSingleQuoteString l = scanDelimited (line l) (readSingle [] l)"

definition scanString :: "lexer \<Rightarrow> lexer" where
  "scanString l =
     (if peek l = rune_dquote then
        (if current l + 1 < length (source l) \<and> source l ! (current l + 1) = rune_dquote
         then scanTripleQuoteString (skip (skip l))
         else addTokenWithLexeme TOKEN_STRING [] (skip l))
      else scanStringBody TOKEN_STRING_HEAD TOKEN_STRING rune_dquote l)"

function scanRawLoop :: "int \<Rightarrow> string \<Rightarrow> lexer \<Rightarrow> lexer" where
  "scanRawLoop startLine v l =
     (if isAtEnd l then lexError UnterminatedRawString (l\<lparr>line := startLine\<rparr>)
      else if peek l = rune_backtick then addTokenWithLexeme TOKEN_STRING_RAW v (skip l)
      else if peek l = 0 then lexError NulInRawString (skip l)
      else scanRawLoop startLine (v @ utf8_encode (peek l)) (skip_counting l))"
  by pat_completeness auto
termination
  by (relation "measure (\<lambda>(_, _, l). length (rest l))") (auto simp: isAtEnd_rest)

declare scanRawLoop.simps [simp del]

definition scanRawString :: "lexer \<Rightarrow> lexer" where
  "scanRawString l = scanRawLoop (line l) [] l"

end
