(* ===== verification/LexerMerge.thy ===== *)
theory LexerMerge
  imports Token
begin

text \<open>
  \<^verbatim>\<open>mergeLineContinuations\<close> of \<^verbatim>\<open>internal/lexer/lexer.go\<close>: the pass over the finished token
  list that removes the NEWLINE and INDENT tokens around pipe chains, and one later DEDENT
  for each INDENT it removed. The two loop variables \<^verbatim>\<open>absorbedIndents\<close> and
  \<^verbatim>\<open>inPipeChain\<close> are arguments; the tokens appended to \<^verbatim>\<open>result\<close> are the list returned.
\<close>

abbreviation has_type :: "token_type \<Rightarrow> token \<Rightarrow> bool" where
  "has_type tt t \<equiv> Type t = tt"

lemma length_dropWhile_less: "length (dropWhile P xs) < Suc (length xs)"
  by (simp add: length_dropWhile_le less_Suc_eq_le)

function mergeLoop :: "nat \<Rightarrow> bool \<Rightarrow> token list \<Rightarrow> token list" where
  "mergeLoop absorbed inPipe [] = []"
| "mergeLoop absorbed inPipe (tok # ts) =
     (if Type tok = TOKEN_DEDENT \<and> absorbed > 0 then mergeLoop (absorbed - 1) inPipe ts
      else if Type tok = TOKEN_PIPE then
        (let cs = takeWhile (has_type TOKEN_COMMENT) ts;
             r = dropWhile (has_type TOKEN_COMMENT) ts
         in tok # cs @
            (if r \<noteq> [] \<and> Type (hd r) = TOKEN_NEWLINE then
               (let indents = takeWhile (has_type TOKEN_INDENT) (tl r);
                    j = dropWhile (has_type TOKEN_INDENT) (tl r)
                in if j \<noteq> [] \<and> Type (hd j) \<noteq> TOKEN_DEDENT \<and> Type (hd j) \<noteq> TOKEN_EOF
                   then mergeLoop (absorbed + length indents) True j
                   else mergeLoop absorbed True r)
             else mergeLoop absorbed True r))
      else if Type tok = TOKEN_NEWLINE then
        (let indents = takeWhile (has_type TOKEN_INDENT) ts;
             j = dropWhile (has_type TOKEN_INDENT) ts
         in if j \<noteq> [] \<and> (Type (hd j) = TOKEN_PIPE \<or> (Type (hd j) = TOKEN_ONERR \<and> inPipe))
            then mergeLoop (absorbed + length indents) inPipe j
            else tok # mergeLoop absorbed False ts)
      else tok # mergeLoop absorbed inPipe ts)"
  by pat_completeness auto
termination
proof (relation "measure (\<lambda>(_, _, ts). length ts)", goal_cases)
  case (3 absorbed inPipe tok ts cs r indents j)
  then have j: "j = dropWhile (has_type TOKEN_INDENT) (tl r)"
    and r: "r = dropWhile (has_type TOKEN_COMMENT) ts" by blast+
  have "length j \<le> length (tl r)" unfolding j by (rule length_dropWhile_le)
  also have "\<dots> \<le> length r" by simp
  also have "\<dots> \<le> length ts" unfolding r by (rule length_dropWhile_le)
  finally show ?case by simp
qed (auto simp: length_dropWhile_less)

declare mergeLoop.simps(2) [simp del]

definition mergeLineContinuations :: "token list \<Rightarrow> token list" where
  "mergeLineContinuations ts = mergeLoop 0 False ts"

section \<open>The pass as a relation\<close>

text \<open>
  \<open>merges a p ts out\<close>: from \<open>a\<close> absorbed INDENTs and chain flag \<open>p\<close>, the pass may turn
  \<open>ts\<close> into \<open>out\<close>. One rule per branch of the loop, with the lookahead conditions dropped;
  every fact below is an induction over these rules.
\<close>

inductive merges :: "nat \<Rightarrow> bool \<Rightarrow> token list \<Rightarrow> token list \<Rightarrow> bool" where
  stop: "merges a p [] []"
| absorb: "Type t = TOKEN_DEDENT \<Longrightarrow> merges a p ts out \<Longrightarrow> merges (Suc a) p (t # ts) out"
| pipe_join: "Type t = TOKEN_PIPE \<Longrightarrow> \<forall>c\<in>set cs. Type c = TOKEN_COMMENT \<Longrightarrow>
    Type nl = TOKEN_NEWLINE \<Longrightarrow> \<forall>i\<in>set inds. Type i = TOKEN_INDENT \<Longrightarrow>
    merges (a + length inds) True ts out \<Longrightarrow>
    merges a p (t # cs @ nl # inds @ ts) (t # cs @ out)"
| pipe_keep: "Type t = TOKEN_PIPE \<Longrightarrow> \<forall>c\<in>set cs. Type c = TOKEN_COMMENT \<Longrightarrow>
    merges a True ts out \<Longrightarrow> merges a p (t # cs @ ts) (t # cs @ out)"
| newline_join: "Type nl = TOKEN_NEWLINE \<Longrightarrow> \<forall>i\<in>set inds. Type i = TOKEN_INDENT \<Longrightarrow>
    merges (a + length inds) p ts out \<Longrightarrow> merges a p (nl # inds @ ts) out"
| newline_keep: "Type nl = TOKEN_NEWLINE \<Longrightarrow> merges a False ts out \<Longrightarrow>
    merges a p (nl # ts) (nl # out)"
| keep: "a = 0 \<or> Type t \<noteq> TOKEN_DEDENT \<Longrightarrow> Type t \<noteq> TOKEN_PIPE \<Longrightarrow> Type t \<noteq> TOKEN_NEWLINE \<Longrightarrow>
    merges a p ts out \<Longrightarrow> merges a p (t # ts) (t # out)"

inductive_cases merges_NilE: "merges a p [] out"

lemma takeWhile_has_type: "\<forall>t\<in>set (takeWhile (has_type tt) ts). Type t = tt"
  by (auto dest: set_takeWhileD)

lemma mergeLoop_merges: "merges a p ts (mergeLoop a p ts)"
proof (induction a p ts rule: mergeLoop.induct)
  case (1 a p)
  then show ?case by (simp add: merges.stop)
next
  case (2 a p tok ts)
  let ?cs = "takeWhile (has_type TOKEN_COMMENT) ts" and ?r = "dropWhile (has_type TOKEN_COMMENT) ts"
  let ?pi = "takeWhile (has_type TOKEN_INDENT) (tl ?r)"
  let ?pj = "dropWhile (has_type TOKEN_INDENT) (tl ?r)"
  let ?ni = "takeWhile (has_type TOKEN_INDENT) ts" and ?nj = "dropWhile (has_type TOKEN_INDENT) ts"
  consider (ded) "Type tok = TOKEN_DEDENT \<and> a > 0"
    | (pipe) "Type tok = TOKEN_PIPE"
    | (nl) "Type tok = TOKEN_NEWLINE"
    | (other) "\<not> (Type tok = TOKEN_DEDENT \<and> a > 0)" "Type tok \<noteq> TOKEN_PIPE" "Type tok \<noteq> TOKEN_NEWLINE"
    by blast
  then show ?case
  proof cases
    case ded
    with 2(1) have "merges (a - 1) p ts (mergeLoop (a - 1) p ts)" by blast
    then have "merges (Suc (a - 1)) p (tok # ts) (mergeLoop (a - 1) p ts)"
      using ded by (blast intro: merges.absorb)
    with ded show ?thesis by (simp add: mergeLoop.simps(2))
  next
    case pipe
    have nded: "\<not> (Type tok = TOKEN_DEDENT \<and> a > 0)" using pipe by simp
    show ?thesis
    proof (cases "?r \<noteq> [] \<and> Type (hd ?r) = TOKEN_NEWLINE \<and> ?pj \<noteq> [] \<and>
        Type (hd ?pj) \<noteq> TOKEN_DEDENT \<and> Type (hd ?pj) \<noteq> TOKEN_EOF")
      case True
      then have "merges (a + length ?pi) True ?pj (mergeLoop (a + length ?pi) True ?pj)"
        using 2(2) [OF nded pipe refl refl _ refl refl] by blast
      then have "merges a p (tok # ?cs @ hd ?r # ?pi @ ?pj)
          (tok # ?cs @ mergeLoop (a + length ?pi) True ?pj)"
        using True by (intro merges.pipe_join [OF pipe takeWhile_has_type _ takeWhile_has_type]) blast+
      moreover have "tok # ?cs @ hd ?r # ?pi @ ?pj = tok # ts" using True by simp
      ultimately show ?thesis
        using True pipe by (simp add: mergeLoop.simps(2) Let_def del: takeWhile_dropWhile_id)
    next
      case False
      then have "merges a True ?r (mergeLoop a True ?r)"
        using 2(3) [OF nded pipe refl refl _ refl refl] 2(4) [OF nded pipe refl refl] by blast
      then have "merges a p (tok # ?cs @ ?r) (tok # ?cs @ mergeLoop a True ?r)"
        by (rule merges.pipe_keep [OF pipe takeWhile_has_type])
      moreover have "mergeLoop a p (tok # ts) = tok # ?cs @ mergeLoop a True ?r"
        using False pipe by (auto simp: mergeLoop.simps(2) Let_def)
      ultimately show ?thesis by simp
    qed
  next
    case nl
    have n: "\<not> (Type tok = TOKEN_DEDENT \<and> a > 0)" "Type tok \<noteq> TOKEN_PIPE" using nl by auto
    show ?thesis
    proof (cases "?nj \<noteq> [] \<and> (Type (hd ?nj) = TOKEN_PIPE \<or> (Type (hd ?nj) = TOKEN_ONERR \<and> p))")
      case True
      then have "merges (a + length ?ni) p ?nj (mergeLoop (a + length ?ni) p ?nj)"
        using 2(5) [OF n nl refl refl] by blast
      then have "merges a p (tok # ?ni @ ?nj) (mergeLoop (a + length ?ni) p ?nj)"
        by (rule merges.newline_join [OF nl takeWhile_has_type])
      with True nl show ?thesis by (simp add: mergeLoop.simps(2) Let_def)
    next
      case False
      then have "merges a False ts (mergeLoop a False ts)"
        using 2(6) [OF n nl refl refl] by blast
      then have "merges a p (tok # ts) (tok # mergeLoop a False ts)"
        by (rule merges.newline_keep [OF nl])
      moreover have "mergeLoop a p (tok # ts) = tok # mergeLoop a False ts"
        using False nl by (auto simp: mergeLoop.simps(2) Let_def)
      ultimately show ?thesis by simp
    qed
  next
    case other
    then have "merges a p ts (mergeLoop a p ts)" using 2(7) by blast
    with other show ?thesis
      by (auto simp: mergeLoop.simps(2) intro: merges.keep)
  qed
qed

section \<open>What the pass keeps\<close>

definition isLayout :: "token \<Rightarrow> bool" where
  "isLayout t \<longleftrightarrow> Type t = TOKEN_NEWLINE \<or> Type t = TOKEN_INDENT \<or> Type t = TOKEN_DEDENT"

lemma filter_layout_run [simp]:
  "\<forall>i\<in>set inds. Type i = TOKEN_INDENT \<Longrightarrow> filter (\<lambda>t. \<not> isLayout t) inds = []"
  by (auto simp: isLayout_def filter_empty_conv)

lemma merges_keeps:
  "merges a p ts out \<Longrightarrow>
     filter (\<lambda>t. \<not> isLayout t) out = filter (\<lambda>t. \<not> isLayout t) ts"
  by (induction rule: merges.induct) (auto simp: isLayout_def filter_empty_conv)

lemma merges_subseq: "merges a p ts out \<Longrightarrow> subseq out ts"
proof (induction rule: merges.induct)
  case (pipe_join t cs nl inds a ts out p)
  then have "subseq out (nl # inds @ ts)" by (metis list_emb_append2 list_emb_Cons)
  then show ?case by (simp add: subseq_append')
next
  case (pipe_keep t cs a ts out p)
  then show ?case by (simp add: subseq_append')
next
  case (newline_join nl inds a p ts out)
  then show ?case by (metis list_emb_append2 list_emb_Cons)
qed auto

lemma mergeLoop_no_pipe:
  "\<forall>t\<in>set ts. Type t \<noteq> TOKEN_PIPE \<Longrightarrow> mergeLoop 0 False ts = ts"
proof (induction ts)
  case Nil
  then show ?case by simp
next
  case (Cons t ts)
  have "Type (hd j) \<noteq> TOKEN_PIPE" if "j \<noteq> []" "j = dropWhile (has_type TOKEN_INDENT) ts" for j
    using Cons.prems that by (metis hd_in_set list.set_intros(2) set_dropWhileD)
  with Cons show ?case by (auto simp: Let_def mergeLoop.simps(2))
qed

section \<open>Balanced layout\<close>

text \<open>
  \<open>layout_depth d ts\<close> is the block depth after reading \<open>ts\<close> at depth \<open>d\<close>, or \<^term>\<open>None\<close> if
  a DEDENT arrives at depth 0.
\<close>

fun layout_depth :: "nat \<Rightarrow> token list \<Rightarrow> nat option" where
  "layout_depth d [] = Some d"
| "layout_depth d (t # ts) =
     (if Type t = TOKEN_INDENT then layout_depth (Suc d) ts
      else if Type t = TOKEN_DEDENT then (if d = 0 then None else layout_depth (d - 1) ts)
      else layout_depth d ts)"

lemma layout_depth_append:
  "layout_depth d (xs @ ys) = Option.bind (layout_depth d xs) (\<lambda>e. layout_depth e ys)"
  by (induction d xs rule: layout_depth.induct) auto

lemma layout_depth_indents [simp]:
  "\<forall>i\<in>set inds. Type i = TOKEN_INDENT \<Longrightarrow> layout_depth d inds = Some (d + length inds)"
  by (induction inds arbitrary: d) auto

lemma layout_depth_comments [simp]:
  "\<forall>c\<in>set cs. Type c = TOKEN_COMMENT \<Longrightarrow> layout_depth d cs = Some d"
  by (induction cs arbitrary: d) auto

text \<open>
  The pass never absorbs a DEDENT that has no absorbed INDENT before it: from a depth that
  covers the INDENTs absorbed so far, the output's depth is the input's minus those still
  waiting for their DEDENT.
\<close>

lemma merges_depth:
  "merges a p ts out \<Longrightarrow> layout_depth d ts = Some e \<Longrightarrow> a \<le> d \<Longrightarrow>
     \<exists>a'\<le>e. layout_depth (d - a) out = Some (e - a')"
proof (induction arbitrary: d rule: merges.induct)
  case (stop a p)
  then show ?case by auto
next
  case (absorb t a p ts out)
  then have "layout_depth (d - 1) ts = Some e" "a \<le> d - 1" "d - 1 - a = d - Suc a"
    by (auto split: if_splits)
  with absorb.IH [of "d - 1"] show ?case by simp
next
  case (pipe_join t cs nl inds a ts out p)
  then have "layout_depth (d + length inds) ts = Some e"
    by (simp add: layout_depth_append)
  with pipe_join show ?case
    using pipe_join.IH [of "d + length inds"] by (simp add: layout_depth_append)
next
  case (newline_join nl inds a p ts out)
  then have "layout_depth (d + length inds) ts = Some e"
    by (simp add: layout_depth_append)
  with newline_join show ?case
    using newline_join.IH [of "d + length inds"] by simp
next
  case (keep a t p ts out)
  show ?case
  proof (cases "Type t = TOKEN_DEDENT")
    case True
    with keep.prems keep.hyps have "a = 0" "d \<noteq> 0" "layout_depth (d - 1) ts = Some e"
      by (auto split: if_splits)
    with True keep.IH [of "d - 1"] show ?thesis by simp
  next
    case False
    with keep.prems keep.IH [of d] keep.IH [of "Suc d"] show ?thesis
      by (auto split: if_splits simp: Suc_diff_le)
  qed
qed (auto simp: layout_depth_append)

end
