(* ===== verification/LexerScan.thy ===== *)
theory LexerScan
  imports LexerStrings LexerMerge
begin

text \<open>
  \<^verbatim>\<open>internal/lexer/lexer.go\<close>, third part: indentation, the dispatch on one rune
  (\<^verbatim>\<open>scanToken\<close>) and the driver \<^verbatim>\<open>ScanTokens\<close>.
\<close>

section \<open>Indentation\<close>

definition inParenContinuation :: "lexer \<Rightarrow> bool" where
  "inParenContinuation l \<longleftrightarrow>
     (if parenDepth l = 0 then False
      else if closureParenDepthStack l = [] then True
      else parenDepth l > last (closureParenDepthStack l))"

definition peekNextLineIndent :: "lexer \<Rightarrow> int" where
  "peekNextLineIndent l =
     int (length (filter (\<lambda>c. c = rn CHR '' '')
            (takeWhile isBlank (drop (current l) (source l)))))"

text \<open>The loop that counts and consumes the leading spaces and tabs.\<close>

function countBlanks :: "int \<Rightarrow> int \<Rightarrow> lexer \<Rightarrow> (int \<times> int) \<times> lexer" where
  "countBlanks spaces tabs l =
     (if \<not> isAtEnd l \<and> isBlank (peek l) then
        (if peek l = rn CHR '' '' then countBlanks (spaces + 1) tabs (skip l)
         else countBlanks spaces (tabs + 1) (skip l))
      else ((spaces, tabs), l))"
  by pat_completeness auto
termination
  by (relation "measure (\<lambda>(_, _, l). length (rest l))") (auto simp: isAtEnd_rest)

declare countBlanks.simps [simp del]

text \<open>One round of the dedent loop: emit, pop, and close the closure body that ended.\<close>

definition popIndent :: "lexer \<Rightarrow> lexer" where
  "popIndent l =
     (let l1 = addToken TOKEN_DEDENT l;
          l2 = l1\<lparr>indentStack := butlast (indentStack l1)\<rparr>
      in if length (closureIndentStack l2) > 0
            \<and> last (indentStack l2) < last (closureIndentStack l2)
         then l2\<lparr>closureIndentStack := butlast (closureIndentStack l2),
                 closureParenDepthStack := butlast (closureParenDepthStack l2)\<rparr>
         else l2)"

lemma indentStack_addTokenWithLexeme [simp]: "indentStack (addTokenWithLexeme tt s l) = indentStack l"
  by (simp add: addTokenWithLexeme_def Let_def)

lemma indentStack_popIndent [simp]: "indentStack (popIndent l) = butlast (indentStack l)"
  by (simp add: popIndent_def addToken_def Let_def)

function dedentLoop :: "int \<Rightarrow> lexer \<Rightarrow> lexer" where
  "dedentLoop spaces l =
     (if length (indentStack l) > 1 \<and> last (indentStack l) > spaces
      then dedentLoop spaces (popIndent l) else l)"
  by pat_completeness auto
termination
  by (relation "measure (\<lambda>(_, l). length (indentStack l))") auto

declare dedentLoop.simps [simp del]

definition openIndent :: "int \<Rightarrow> lexer \<Rightarrow> lexer" where
  "openIndent spaces l =
     (let l1 = addToken TOKEN_INDENT (l\<lparr>indentStack := indentStack l @ [spaces]\<rparr>)
      in if pendingClosureBlock l1
         then l1\<lparr>closureIndentStack := closureIndentStack l1 @ [spaces],
                 closureParenDepthStack := closureParenDepthStack l1 @ [parenDepth l1],
                 pendingClosureBlock := False\<rparr>
         else l1)"

definition closeIndent :: "int \<Rightarrow> lexer \<Rightarrow> lexer" where
  "closeIndent spaces l =
     (let validLevels = indentStack l;
          l1 = dedentLoop spaces l
      in if inParenContinuation l1 then l1
         else if last (indentStack l1) \<noteq> spaces
              then lexError (DedentMismatch spaces validLevels) l1
         else l1)"

text \<open>\<^verbatim>\<open>spaces\<close> is a count, so \<^verbatim>\<open>spaces%4\<close> and \<^verbatim>\<open>(spaces+2)/4\<close> agree with \<open>mod\<close> and \<open>div\<close>.\<close>

definition handleIndentation :: "lexer \<Rightarrow> lexer" where
  "handleIndentation l0 =
     (let ((spaces, tabs), l) = countBlanks 0 0 l0
      in if tabs > 0 then lexError TabsNotAllowed l
         else if isAtEnd l \<or> peek l = rune_nl \<or> peek l = rune_cr \<or> peek l = rn CHR ''#'' then l
         else if inParenContinuation l \<and> \<not> pendingClosureBlock l then l
         else if spaces mod 4 \<noteq> 0 then
           (let nearest = (spaces + 2) div 4 * 4
            in lexError (NotMultipleOfFour spaces (if nearest = 0 then 4 else nearest)) l)
         else
           (let currentIndent = last (indentStack l)
            in if spaces > currentIndent then
                 (if \<not> pendingClosureBlock l \<and> spaces \<noteq> currentIndent + 4
                  then lexError (IndentJump currentIndent spaces) l
                  else openIndent spaces l)
               else if spaces < currentIndent then closeIndent spaces l
               else l))"

section \<open>One token\<close>

text \<open>The bodies of the cases for a line feed and (after an optional line feed) a carriage
  return.\<close>

definition endLine :: "lexer \<Rightarrow> lexer" where
  "endLine l =
     (let l1 = (if braceDepth l > 0 then l\<lparr>continuationLine := True\<rparr>
                else if inParenContinuation l then
                  (if (afterFatArrow l \<or> inFunctionLiteral l)
                      \<and> peekNextLineIndent l > last (indentStack l)
                   then addToken TOKEN_NEWLINE (l\<lparr>pendingClosureBlock := True\<rparr>)
                   else l\<lparr>continuationLine := True\<rparr>)
                else addToken TOKEN_NEWLINE l)
      in l1\<lparr>afterFatArrow := False, inFunctionLiteral := False, line := line l1 + 1,
            column := 0, atLineStart := True, indentationHandled := False\<rparr>)"

definition addInterpBrace :: "int \<Rightarrow> lexer \<Rightarrow> lexer" where
  "addInterpBrace d l =
     (if interpStack l = [] then l
      else l\<lparr>interpStack := butlast (interpStack l) @
              [(last (interpStack l))\<lparr>interpBraceDepth := interpBraceDepth (last (interpStack l)) + d\<rparr>]\<rparr>)"

definition scanOpenBrace :: "lexer \<Rightarrow> lexer" where
  "scanOpenBrace l0 =
     (let l = addInterpBrace 1 l0
      in if blockKeywordSeen l
         then addToken TOKEN_INDENT
                (l\<lparr>braceStack := braceStack l @ [True], braceBlockDepth := braceBlockDepth l + 1,
                   blockKeywordSeen := False\<rparr>)
         else addToken TOKEN_LBRACE
                (l\<lparr>braceStack := braceStack l @ [False], braceDepth := braceDepth l + 1\<rparr>))"

definition decBraceDepth :: "lexer \<Rightarrow> lexer" where
  "decBraceDepth l = (if braceDepth l > 0 then l\<lparr>braceDepth := braceDepth l - 1\<rparr> else l)"

definition scanCloseBrace :: "lexer \<Rightarrow> lexer" where
  "scanCloseBrace l0 =
     (if interpStack l0 \<noteq> [] \<and> interpBraceDepth (last (interpStack l0)) = 0
      then scanStringContinuation (quote (last (interpStack l0)))
             (l0\<lparr>interpStack := butlast (interpStack l0), start := current l0\<rparr>)
      else
        (let l = addInterpBrace (- 1) l0
         in if braceStack l \<noteq> [] then
              (let wasBlock = last (braceStack l);
                   l1 = l\<lparr>braceStack := butlast (braceStack l)\<rparr>
               in if wasBlock
                  then addToken TOKEN_DEDENT (l1\<lparr>braceBlockDepth := braceBlockDepth l1 - 1\<rparr>)
                  else addToken TOKEN_RBRACE (decBraceDepth l1))
            else addToken TOKEN_RBRACE (decBraceDepth l)))"

text \<open>\<^verbatim>\<open>if l.match(a) { add t1 } else { k }\<close>.\<close>

definition ifMatch :: "char \<Rightarrow> (lexer \<Rightarrow> lexer) \<Rightarrow> (lexer \<Rightarrow> lexer) \<Rightarrow> lexer \<Rightarrow> lexer" where
  "ifMatch c yes no l = (let (b, l1) = match_rune (rn c) l in if b then yes l1 else no l1)"

text \<open>The operator and punctuation cases of the switch; \<^term>\<open>None\<close> for any other rune.\<close>

definition scanOperator :: "rune \<Rightarrow> lexer \<Rightarrow> lexer option" where
  "scanOperator c l =
     (if c = rn CHR '','' then Some (addToken TOKEN_COMMA l)
      else if c = rn CHR ''.'' then Some (addToken TOKEN_DOT l)
      else if c = rn CHR ''+'' then
        Some (ifMatch CHR ''+'' (addToken TOKEN_PLUS_PLUS) (addToken TOKEN_PLUS) l)
      else if c = rn CHR ''-'' then
        Some (ifMatch CHR ''-'' (addToken TOKEN_MINUS_MINUS) (addToken TOKEN_MINUS) l)
      else if c = rn CHR ''*'' then Some (addToken TOKEN_STAR l)
      else if c = rn CHR ''/'' then Some (addToken TOKEN_SLASH l)
      else if c = rn CHR ''%'' then Some (addToken TOKEN_PERCENT l)
      else if c = rn CHR '':'' then
        Some (ifMatch CHR ''='' (addToken TOKEN_WALRUS) (addToken TOKEN_COLON) l)
      else if c = rn CHR ''='' then
        Some (ifMatch CHR ''='' (addToken TOKEN_DOUBLE_EQUALS)
               (ifMatch CHR ''>'' (\<lambda>l. addToken TOKEN_FAT_ARROW (l\<lparr>afterFatArrow := True\<rparr>))
                  (addToken TOKEN_ASSIGN)) l)
      else if c = rn CHR ''!'' then
        Some (ifMatch CHR ''='' (addToken TOKEN_NOT_EQUALS) (addToken TOKEN_BANG) l)
      else if c = rn CHR ''<'' then
        Some (ifMatch CHR ''-'' (addToken TOKEN_ARROW_LEFT)
               (ifMatch CHR ''='' (addToken TOKEN_LTE) (addToken TOKEN_LT)) l)
      else if c = rn CHR ''>'' then
        Some (ifMatch CHR ''='' (addToken TOKEN_GTE) (addToken TOKEN_GT) l)
      else if c = rn CHR ''|'' then
        Some (ifMatch CHR ''>'' (addToken TOKEN_PIPE)
               (ifMatch CHR ''|'' (addToken TOKEN_OR_OR) (addToken TOKEN_BIT_OR)) l)
      else if c = rn CHR ''&'' then
        Some (ifMatch CHR ''&'' (addToken TOKEN_AND_AND)
               (ifMatch CHR ''='' (addToken TOKEN_BIT_AND_ASSIGN) (addToken TOKEN_BIT_AND)) l)
      else None)"

text \<open>The switch of \<^verbatim>\<open>scanToken\<close> on the rune \<open>c\<close> that was just consumed.\<close>

definition scanSwitch :: "rune \<Rightarrow> lexer \<Rightarrow> lexer" where
  "scanSwitch c l =
     (if isBlank c then advance_while isBlank l
      else if c = rune_nl then endLine l
      else if c = rune_cr then endLine (if peek l = rune_nl then skip l else l)
      else if c = rn CHR ''#'' then scanComment l
      else if c = rn CHR '';'' then addToken TOKEN_SEMICOLON l
      else if c = rune_dquote then scanString l
      else if c = rune_squote then scanSingleQuoteString l
      else if c = rune_backtick then scanRawString l
      else if c = rn CHR ''('' then addToken TOKEN_LPAREN (l\<lparr>parenDepth := parenDepth l + 1\<rparr>)
      else if c = rn CHR '')'' then
        addToken TOKEN_RPAREN
          (if parenDepth l > 0 then l\<lparr>parenDepth := parenDepth l - 1\<rparr> else l)
      else if c = rn CHR ''['' then addToken TOKEN_LBRACKET (l\<lparr>braceDepth := braceDepth l + 1\<rparr>)
      else if c = rn CHR '']'' then addToken TOKEN_RBRACKET (decBraceDepth l)
      else if c = rn CHR ''{'' then scanOpenBrace l
      else if c = rn CHR ''}'' then scanCloseBrace l
      else (case scanOperator c l of
              Some l' \<Rightarrow> l'
            | None \<Rightarrow>
                if isDigit c then scanNumber l
                else if isAlpha c then scanIdentifier l
                else lexError (UnexpectedCharacter c) l))"

text \<open>\<^verbatim>\<open>c := l.advance(); l.atLineStart = false; switch c { ... }\<close>\<close>

definition scanRune :: "lexer \<Rightarrow> lexer" where
  "scanRune l = (let (c, l1) = advance l in scanSwitch c (l1\<lparr>atLineStart := False\<rparr>))"

definition moveStart :: "lexer \<Rightarrow> lexer" where
  "moveStart l = l\<lparr>start := current l, indentationHandled := True\<rparr>"

text \<open>The two prologues that consume decorative indentation: inside an open bracket, and inside
  a brace block.\<close>

definition skipContinuationIndent :: "lexer \<Rightarrow> lexer" where
  "skipContinuationIndent l =
     (if atLineStart l \<and> continuationLine l \<and> \<not> indentationHandled l
      then moveStart (advance_while isBlank (l\<lparr>continuationLine := False\<rparr>))
      else l)"

definition skipBraceBlockIndent :: "lexer \<Rightarrow> lexer" where
  "skipBraceBlockIndent l =
     (if atLineStart l \<and> \<not> indentationHandled l \<and> braceBlockDepth l > 0
      then moveStart (advance_while isBlank l)
      else l)"

definition scanToken :: "lexer \<Rightarrow> lexer" where
  "scanToken l0 =
     (let l = skipBraceBlockIndent (skipContinuationIndent l0);
          c = peek l
      in if atLineStart l \<and> \<not> indentationHandled l then
           (if isBlank c then handleIndentation (l\<lparr>indentationHandled := True\<rparr>)
            else if c \<noteq> rune_nl \<and> c \<noteq> rune_cr \<and> c \<noteq> rn CHR ''#'' then
              (if length (indentStack l) > 1
               then handleIndentation (l\<lparr>indentationHandled := True\<rparr>)
               else scanRune (l\<lparr>indentationHandled := True\<rparr>))
            else scanRune l)
         else scanRune l)"

end
