(* ===== verification/LexerLoop.thy ===== *)
theory LexerLoop
  imports LexerScan
begin

text \<open>
  The driver of \<^verbatim>\<open>internal/lexer/lexer.go\<close>: \<^verbatim>\<open>ScanTokens\<close> calls \<^verbatim>\<open>scanToken\<close> until the source is
  used up. Two things make its termination a theorem rather than an observation: a call may
  consume nothing (it may only settle the indentation of the line), and the multi-line
  strings put text back into the source. What decreases is, lexicographically, the number of
  quotes left to scan (a single quote weighs two, a double quote one), the number of runes
  left, and whether the indentation of the current line is still to be settled.
\<close>

section \<open>What the steps leave to scan\<close>

lemma rest_update [simp]:
  "rest (line_update g0 l) = rest l"
  "rest (column_update g1 l) = rest l"
  "rest (start_update g2 l) = rest l"
  "rest (tokens_update g3 l) = rest l"
  "rest (indentStack_update g4 l) = rest l"
  "rest (atLineStart_update g5 l) = rest l"
  "rest (indentationHandled_update g6 l) = rest l"
  "rest (errors_update g7 l) = rest l"
  "rest (continuationLine_update g8 l) = rest l"
  "rest (braceDepth_update g9 l) = rest l"
  "rest (parenDepth_update g10 l) = rest l"
  "rest (inFunctionLiteral_update g11 l) = rest l"
  "rest (closureIndentStack_update g12 l) = rest l"
  "rest (closureParenDepthStack_update g13 l) = rest l"
  "rest (afterFatArrow_update g14 l) = rest l"
  "rest (pendingClosureBlock_update g15 l) = rest l"
  "rest (blockKeywordSeen_update g16 l) = rest l"
  "rest (braceStack_update g17 l) = rest l"
  "rest (braceBlockDepth_update g18 l) = rest l"
  "rest (interpStack_update g19 l) = rest l"
  "rest (filename_update g20 l) = rest l"
  by (simp_all add: rest_def)

lemma rest_addTokenWithLexeme [simp]: "rest (addTokenWithLexeme tt s l) = rest l"
  by (simp add: addTokenWithLexeme_def Let_def)

lemma rest_addToken [simp]: "rest (addToken tt l) = rest l"
  by (simp add: addToken_def)

lemma rest_pushInterp [simp]: "rest (pushInterp q l) = rest l"
  by (simp add: pushInterp_def)

lemma suffix_tlI: "suffix xs (tl ys) \<Longrightarrow> suffix xs ys"
  by (meson suffix_order.trans suffix_tl)

lemma suffix_advance_while [simp]: "suffix (rest (advance_while P l)) (rest l)"
proof (induction P l rule: advance_while.induct)
  case (1 P l)
  then show ?case by (subst advance_while.simps) (auto intro: suffix_tlI)
qed

lemma suffix_countBlanks: "suffix (rest (snd (countBlanks s t l))) (rest l)"
proof (induction s t l rule: countBlanks.induct)
  case (1 s t l)
  then show ?case by (subst countBlanks.simps) (auto intro: suffix_tlI)
qed

lemma suffix_scanStringLoop: "suffix (rest (scanStringLoop i e q v l)) (rest l)"
proof (induction i e q v l rule: scanStringLoop.induct)
  case (1 i e q v l)
  then show ?case
    using rest_scanStringEscape [of v l]
    by (subst scanStringLoop.simps)
       (auto intro: suffix_tlI suffix_tl suffix_order.trans)
qed

lemma suffix_scanRawLoop: "suffix (rest (scanRawLoop n v l)) (rest l)"
proof (induction n v l rule: scanRawLoop.induct)
  case (1 n v l)
  then show ?case by (subst scanRawLoop.simps) (auto intro: suffix_tlI suffix_tl)
qed

lemma suffix_match_rune: "suffix (rest (snd (match_rune c l))) (rest l)"
proof -
  have "match_rune c l = (if isAtEnd l \<or> source l ! current l \<noteq> c then (False, l) else (True, skip l))"
    by (simp add: match_rune_def skip_def advance_def)
  then show ?thesis by (simp add: suffix_tl)
qed

lemma suffix_ifMatch:
  assumes "\<And>l. suffix (rest (yes l)) (rest l)" "\<And>l. suffix (rest (no l)) (rest l)"
  shows "suffix (rest (ifMatch c yes no l)) (rest l)"
proof (cases "match_rune (rn c) l")
  case (Pair b l1)
  have "suffix (rest l1) (rest l)" using suffix_match_rune [of "rn c" l] Pair by simp
  then show ?thesis
    using assms [of l1] Pair by (auto simp: ifMatch_def elim: suffix_order.trans)
qed

lemma suffix_scanOperator:
  "scanOperator c l = Some l' \<Longrightarrow> suffix (rest l') (rest l)"
  by (auto simp: scanOperator_def split: if_splits intro!: suffix_ifMatch)

lemma suffix_advance_while_skip: "suffix (rest (advance_while P (skip l))) (rest l)"
  using suffix_advance_while [of P "skip l"] by (simp add: suffix_tlI)

lemma suffix_scanPrefixed: "suffix (rest (scanPrefixed digit e l)) (rest l)"
  using suffix_advance_while [of "\<lambda>c. digit c \<or> c = rn CHR ''_''" "lexError e (skip l)"]
    suffix_advance_while_skip [of "\<lambda>c. digit c \<or> c = rn CHR ''_''" l]
  by (simp add: scanPrefixed_def Let_def suffix_tlI)

lemma suffix_scanDecimal: "suffix (rest (scanDecimal l)) (rest l)"
proof -
  let ?d = "\<lambda>c. isDigit c \<or> c = rn CHR ''_''"
  have "suffix (rest (advance_while ?d (skip (advance_while ?d l)))) (rest (advance_while ?d l))"
    by (rule suffix_advance_while_skip)
  also have "suffix (rest (advance_while ?d l)) (rest l)" by simp
  finally have "suffix (rest (advance_while ?d (skip (advance_while ?d l)))) (rest l)" .
  then show ?thesis by (simp add: scanDecimal_def Let_def)
qed

lemma suffix_scanNumber: "suffix (rest (scanNumber l)) (rest l)"
  by (simp add: scanNumber_def Let_def suffix_scanPrefixed suffix_scanDecimal)

lemma suffix_scanIdentifier: "suffix (rest (scanIdentifier l)) (rest l)"
  by (simp add: scanIdentifier_def Let_def)

lemma suffix_scanComment: "suffix (rest (scanComment l)) (rest l)"
  by (simp add: scanComment_def Let_def)

lemma rest_endLine [simp]: "rest (endLine l) = rest l"
  by (simp add: endLine_def Let_def)

lemma rest_addInterpBrace [simp]: "rest (addInterpBrace d l) = rest l"
  by (simp add: addInterpBrace_def)

lemma rest_decBraceDepth [simp]: "rest (decBraceDepth l) = rest l"
  by (simp add: decBraceDepth_def)

lemma rest_scanOpenBrace [simp]: "rest (scanOpenBrace l) = rest l"
  by (simp add: scanOpenBrace_def Let_def)

lemma suffix_scanCloseBrace: "suffix (rest (scanCloseBrace l)) (rest l)"
  using suffix_scanStringLoop [of _ _ _ _ "l\<lparr>interpStack := butlast (interpStack l), start := current l\<rparr>"]
  by (auto simp: scanCloseBrace_def scanStringContinuation_def scanStringBody_def Let_def)

lemma rest_popIndent [simp]: "rest (popIndent l) = rest l"
  by (simp add: popIndent_def Let_def)

lemma rest_dedentLoop [simp]: "rest (dedentLoop n l) = rest l"
proof (induction n l rule: dedentLoop.induct)
  case (1 n l)
  then show ?case by (subst dedentLoop.simps) simp
qed

lemma suffix_handleIndentation: "suffix (rest (handleIndentation l)) (rest l)"
  using suffix_countBlanks [of 0 0 l]
  by (auto simp: handleIndentation_def openIndent_def closeIndent_def Let_def split: prod.splits)

section \<open>The weight of the quotes\<close>

definition quote_weight :: "rune list \<Rightarrow> nat" where
  "quote_weight rs =
     sum_list (map (\<lambda>c. if c = rune_squote then 2 else if c = rune_dquote then 1 else 0) rs)"

lemma quote_weight_simps [simp]:
  "quote_weight [] = 0"
  "quote_weight (c # rs) =
     (if c = rune_squote then 2 else if c = rune_dquote then 1 else 0) + quote_weight rs"
  "quote_weight (xs @ ys) = quote_weight xs + quote_weight ys"
  by (simp_all add: quote_weight_def)

lemma quote_weight_subseq: "subseq xs ys \<Longrightarrow> quote_weight xs \<le> quote_weight ys"
  by (induction rule: list_emb.induct) auto

lemma quote_weight_suffix: "suffix xs ys \<Longrightarrow> quote_weight xs \<le> quote_weight ys"
  by (auto simp: suffix_def)

lemma quote_weight_large: "(\<And>c. c \<in> set rs \<Longrightarrow> 0x80 \<le> c) \<Longrightarrow> quote_weight rs = 0"
proof (induction rs)
  case (Cons c rs)
  have "0x80 \<le> c" using Cons.prems by simp
  then have "c \<noteq> 34" "c \<noteq> 39" by auto
  then show ?case using Cons by simp
qed simp

lemma quote_weight_encode: "quote_weight (map of_char (utf8_encode r)) = quote_weight [r]"
proof (cases "r < 0x80")
  case True
  then show ?thesis by (simp add: utf8_encode_def)
next
  case False
  have m: "128 \<le> (of_char (char_of (128 + x)) :: nat)" if "x < 128" for x :: nat
    using that by simp
  have 1: "r < 0x800 \<Longrightarrow> 64 + r div 64 < 128" and 2: "r < 0x10000 \<Longrightarrow> 96 + r div 4096 < 128"
    and 3: "r \<le> 0x10FFFF \<Longrightarrow> 112 + r div 262144 < 128"
    by (simp_all add: less_mult_imp_div_less)
  have 4: "x mod 64 < 128" for x :: nat by (rule less_trans [of _ 64]) simp_all
  have "0x80 \<le> c" if "c \<in> set (map of_char (utf8_encode r))" for c :: nat
    using that False m [OF 1] m [OF 2] m [OF 3] m [OF 4]
    by (auto simp del: of_char_of simp: utf8_encode_def split: if_splits)
  then have "quote_weight (map of_char (utf8_encode r)) = 0" by (rule quote_weight_large)
  then show ?thesis using False by simp
qed

lemma quote_weight_go_string: "quote_weight (map of_char (go_string rs)) = quote_weight rs"
  by (induction rs) (simp_all add: go_string_def quote_weight_encode)

lemma decode_rune_large:
  assumes b0: "b0 \<ge> 0x80"
  shows "fst (decode_rune (b0 # bs)) \<ge> 0x80"
proof -
  have two: "128 \<le> (b0 - 192) * 64 + x" if "194 \<le> b0" for x
    using that by simp
  have three: "128 \<le> (b0 - 224) * 4096 + (b1 - 128) * 64 + x"
    if "224 \<le> b0" "(if b0 = 224 then 160 else 128) \<le> b1" for b1 x
    using that by (cases "b0 = 224") auto
  have four: "128 \<le> (b0 - 240) * 262144 + (b1 - 128) * 4096 + x + y"
    if "240 \<le> b0" "(if b0 = 240 then 144 else 128) \<le> b1" for b1 x y
    using that by (cases "b0 = 240") auto
  have I: "(P \<Longrightarrow> 128 \<le> fst a) \<Longrightarrow> (\<not> P \<Longrightarrow> 128 \<le> fst b) \<Longrightarrow> 128 \<le> fst (if P then a else b)"
    for P and a b :: "nat \<times> nat" by simp
  have C: "128 \<le> fst a \<Longrightarrow> (\<And>y ys. 128 \<le> fst (f y ys)) \<Longrightarrow>
    128 \<le> fst (case xs of [] \<Rightarrow> a | y # ys \<Rightarrow> f y ys)" for xs :: "nat list" and a f
    by (cases xs) auto
  have d: "128 \<le> fst ((65533::nat), (1::nat))" by simp
  show ?thesis
    unfolding decode_rune_def list.case
    by (intro I C d; (elim conjE)?; (unfold fst_conv)?; (rule two three four b0; assumption)?)
qed

lemma quote_weight_decode_rune:
  "quote_weight [fst (decode_rune (b # bs))] \<le> quote_weight [b]"
proof (cases "b < 0x80")
  case True
  then show ?thesis by (simp add: decode_rune_def)
next
  case False
  then have "0x80 \<le> fst (decode_rune (b # bs))" by (intro decode_rune_large) simp
  then show ?thesis by (subst quote_weight_large) auto
qed

lemma quote_weight_decode: "quote_weight (utf8_decode bs) \<le> quote_weight bs"
proof (induction bs rule: utf8_decode.induct)
  case (1 bs)
  show ?case
  proof (cases bs)
    case Nil
    then show ?thesis by simp
  next
    case (Cons b0 r)
    let ?n = "max 1 (snd (decode_rune bs))"
    have "quote_weight (drop ?n bs) \<le> quote_weight r"
    proof (rule quote_weight_suffix)
      have "suffix (drop ?n bs) (drop 1 bs)" by (rule suffix_drop_mono) simp
      then show "suffix (drop ?n bs) r" using Cons by simp
    qed
    moreover have "quote_weight (utf8_decode (drop ?n bs)) \<le> quote_weight (drop ?n bs)"
      using 1 Cons by simp
    moreover have "utf8_decode bs = [fst (decode_rune bs)] @ utf8_decode (drop ?n bs)"
      using utf8_decode.simps [of bs] Cons by simp
    then have "quote_weight (utf8_decode bs) =
        quote_weight [fst (decode_rune bs)] + quote_weight (utf8_decode (drop ?n bs))"
      by (simp only: quote_weight_simps(3))
    moreover have "quote_weight [fst (decode_rune bs)] \<le> quote_weight [b0]"
      using quote_weight_decode_rune [of b0 r] Cons by simp
    moreover have "quote_weight bs = quote_weight [b0] + quote_weight r"
      using Cons by simp
    ultimately show ?thesis by linarith
  qed
qed

text \<open>Dedenting and splicing do not add quotes: at most the closing one is added.\<close>

lemma suffix_trans_subseq: "suffix xs ys \<Longrightarrow> subseq xs ys"
  by (auto simp: suffix_def)

lemma subseq_butlast: "subseq (butlast xs) xs"
  by (metis append_butlast_last_id butlast.simps(1) subseq_order.order_refl list_emb_append2
      subseq_rev_drop_many)

lemma subseq_strip_first_newline: "subseq (strip_first_newline s) s"
  by (simp add: strip_first_newline_def suffix_trans_subseq suffix_drop)

lemma subseq_strip_last_newline: "subseq (strip_last_newline s) s"
  using subseq_butlast [of s] subseq_butlast [of "butlast s"]
  by (auto simp: strip_last_newline_def Let_def intro: subseq_order.trans)

lemma subseq_strip_indent: "subseq (strip_indent m k s) s"
  by (induction m k s rule: strip_indent.induct) auto

lemma subseq_go_join_map:
  "(\<And>x. subseq (f x) x) \<Longrightarrow> subseq (go_join (map f ls) sep) (go_join ls sep)"
  by (induction ls sep rule: go_join.induct) (auto intro!: list_emb_append_mono)

lemma subseq_dedent: "subseq (dedentTripleQuote s) s"
proof -
  let ?r = "strip_last_newline (strip_first_newline s)"
  have r: "subseq ?r s"
    by (meson subseq_order.trans subseq_strip_first_newline subseq_strip_last_newline)
  have "subseq (go_join (map (strip_indent m 0) (split_char char_nl ?r)) [char_nl])
      (go_join (split_char char_nl ?r) [char_nl])" for m
    by (intro subseq_go_join_map subseq_strip_indent)
  then have "subseq (go_join (map (strip_indent m 0) (split_char char_nl ?r)) [char_nl]) s" for m
    using r by (metis go_join_split_char subseq_order.trans)
  with r show ?thesis by (simp add: dedentTripleQuote_def Let_def)
qed

lemma quote_weight_dedent:
  "quote_weight (go_runes (dedentTripleQuote (go_string raw))) \<le> quote_weight raw"
proof -
  let ?d = "dedentTripleQuote (go_string raw)"
  have "quote_weight (go_runes ?d) \<le> quote_weight (map of_char ?d)"
    by (simp add: go_runes_def quote_weight_decode)
  also have "\<dots> \<le> quote_weight (map of_char (go_string raw))"
    by (intro quote_weight_subseq subseq_map subseq_dedent)
  also have "\<dots> = quote_weight raw" by (rule quote_weight_go_string)
  finally show ?thesis .
qed

lemma quote_weight_inject_rune: "quote_weight (inject_rune c) \<le> quote_weight [c]"
  by (simp add: inject_rune_def)

lemma quote_weight_inject: "quote_weight (inject_content rs) \<le> quote_weight rs"
proof (induction rs rule: inject_content.induct)
  case (3 ch d rs)
  then show ?case using quote_weight_inject_rune [of ch] by auto
qed (use quote_weight_inject_rune in auto)

lemma rest_Cons: "\<not> isAtEnd l \<Longrightarrow> rest l = peek l # tl (rest l)"
  by (cases "rest l") (auto simp: isAtEnd_rest peek_rest)

lemma quote_weight_rest:
  "\<not> isAtEnd l \<Longrightarrow> quote_weight (rest l) = quote_weight [peek l] + quote_weight (tl (rest l))"
  by (subst rest_Cons) simp_all

lemma quote_weight_tl: "quote_weight (tl rs) \<le> quote_weight rs"
  by (cases rs) auto

lemma quote_weight_readTriple:
  "readTriple raw l = (raw', l') \<Longrightarrow>
    quote_weight raw' + quote_weight (rest l') \<le> quote_weight raw + quote_weight (rest l)"
proof (induction raw l arbitrary: raw' l' rule: readTriple.induct)
  case (1 raw l)
  have t: "quote_weight (tl (tl (tl (rest l)))) \<le> quote_weight (rest l)"
    by (meson le_trans quote_weight_tl)
  show ?case
  proof (cases "isAtEnd l \<or> atTripleQuote l")
    case True
    then show ?thesis using 1(2) t by (auto simp: readTriple.simps [of raw l] split: if_splits)
  next
    case False
    then have n: "\<not> isAtEnd l" "\<not> atTripleQuote l" by auto
    then have "readTriple (raw @ [peek l]) (skip_counting l) = (raw', l')"
      using 1(2) by (subst (asm) readTriple.simps) simp
    then show ?thesis using 1(1) [OF n] quote_weight_rest [OF n(1)] by simp
  qed
qed

lemma peek_next_rest:
  "current l + 1 < length (source l) \<Longrightarrow> \<exists>c rs. rest l = c # source l ! (current l + 1) # rs"
  by (metis Cons_nth_drop_Suc Suc_eq_plus1 Suc_lessD rest_def)

lemma quote_weight_readSingle:
  "readSingle raw l = (raw', l') \<Longrightarrow>
    quote_weight raw' + quote_weight (rest l') \<le> quote_weight raw + quote_weight (rest l)"
proof (induction raw l arbitrary: raw' l' rule: readSingle.induct)
  case (1 raw l)
  let ?esc = "peek l = rune_backslash \<and> current l + 1 < length (source l)
    \<and> source l ! (current l + 1) = rune_squote"
  consider "isAtEnd l" | (close) "\<not> isAtEnd l" "peek l = rune_squote"
    | (esc) "\<not> isAtEnd l" "peek l \<noteq> rune_squote" ?esc
    | (other) "\<not> isAtEnd l" "peek l \<noteq> rune_squote" "\<not> ?esc" by blast
  then show ?case
  proof cases
    case 1
    then show ?thesis using "1.prems" by (simp add: readSingle.simps [of raw l])
  next
    case close
    then show ?thesis using "1.prems" quote_weight_tl by (auto simp: readSingle.simps [of raw l])
  next
    case esc
    then obtain rs where "rest l = peek l # rune_squote # rs"
      using peek_next_rest [of l] by (auto simp: peek_rest)
    then have "quote_weight [rune_squote] + quote_weight (tl (tl (rest l))) \<le> quote_weight (rest l)"
      by simp
    moreover have "readSingle (raw @ [rune_squote]) (skip (skip l)) = (raw', l')"
      using "1.prems" esc by (subst (asm) readSingle.simps) simp
    ultimately show ?thesis using "1.IH"(1) [OF esc] by simp
  next
    case other
    moreover have "readSingle (raw @ [peek l]) (skip_counting l) = (raw', l')"
      using "1.prems" other by (subst (asm) readSingle.simps) (simp only: if_False)
    ultimately show ?thesis using "1.IH"(2) [OF other] quote_weight_rest [of l] by simp
  qed
qed

lemma suffix_drop_take_append: "suffix (drop n (take n xs @ ys)) ys"
  by (simp add: suffix_drop)

lemma rest_scanStringFromContent:
  "suffix (rest (scanStringFromContent s l)) (inject_content (go_runes s) @ [rune_dquote] @ rest l)"
proof -
  let ?i = "inject_content (go_runes s) @ [rune_dquote]"
  let ?l = "l\<lparr>source := take (current l) (source l) @ ?i @ drop (current l) (source l)\<rparr>"
  have "rest ?l = drop (current l) (take (current l) (source l) @ (?i @ rest l))"
    by (simp add: rest_def)
  then have "suffix (rest ?l) (?i @ rest l)" by (simp only: suffix_drop_take_append)
  moreover have "suffix (rest (scanStringFromContent s l)) (rest ?l)"
    by (simp add: scanStringFromContent_def scanStringBody_def suffix_scanStringLoop Let_def)
  ultimately show ?thesis using suffix_order.trans by fastforce
qed

lemma quote_weight_scanDelimited:
  "quote_weight (rest (scanDelimited n (raw, l))) \<le> quote_weight raw + 1 + quote_weight (rest l)"
proof -
  let ?s = "dedentTripleQuote (go_string raw)"
  have "quote_weight (rest (scanDelimited n (raw, l)))
      \<le> quote_weight (inject_content (go_runes ?s) @ [rune_dquote] @ rest l)"
    using quote_weight_suffix [OF rest_scanStringFromContent [of ?s "l\<lparr>line := n\<rparr>"]]
    by (simp add: scanDelimited_def Let_def)
  also have "\<dots> \<le> quote_weight raw + 1 + quote_weight (rest l)"
    using quote_weight_inject [of "go_runes ?s"] quote_weight_dedent [of raw] by simp
  finally show ?thesis .
qed

lemma quote_weight_scanSingleQuoteString:
  "quote_weight (rest (scanSingleQuoteString l)) \<le> quote_weight (rest l) + 1"
proof (cases "readSingle [] l")
  case (Pair raw l')
  then show ?thesis
    using quote_weight_readSingle [OF Pair] quote_weight_scanDelimited [of "line l" raw l']
    by (simp add: scanSingleQuoteString_def)
qed

lemma quote_weight_scanTripleQuoteString:
  "quote_weight (rest (scanTripleQuoteString l)) \<le> quote_weight (rest l) + 1"
proof (cases "readTriple [] l")
  case (Pair raw l')
  then show ?thesis
    using quote_weight_readTriple [OF Pair] quote_weight_scanDelimited [of "line l" raw l']
    by (simp add: scanTripleQuoteString_def)
qed

section \<open>The loop terminates\<close>

text \<open>\<open>consumes l' l\<close>: \<open>l'\<close> has less left to scan than \<open>l\<close>.\<close>

definition consumes :: "lexer \<Rightarrow> lexer \<Rightarrow> bool" where
  "consumes l' l \<longleftrightarrow> quote_weight (rest l') < quote_weight (rest l) \<or>
     quote_weight (rest l') \<le> quote_weight (rest l) \<and> length (rest l') < length (rest l)"

lemma consumes_suffix:
  assumes "\<not> isAtEnd l" "suffix (rest l') (rest (skip l))"
  shows "consumes l' l"
proof -
  have "suffix (rest l') (tl (rest l))" using assms(2) by simp
  then have "length (rest l') \<le> length (tl (rest l))" "quote_weight (rest l') \<le> quote_weight (tl (rest l))"
    by (auto dest: suffix_length_le quote_weight_suffix)
  moreover have "length (tl (rest l)) < length (rest l)"
    using assms(1) by (cases "rest l") (auto simp: isAtEnd_rest)
  ultimately show ?thesis
    using quote_weight_tl [of "rest l"] by (auto simp: consumes_def)
qed

lemma suffix_endLine_skip: "suffix (rest (endLine (if b then skip l else l))) (rest l)"
  by (simp add: suffix_tl)

lemma suffix_scanRawString: "suffix (rest (scanRawString l)) (rest l)"
  by (simp add: scanRawString_def suffix_scanRawLoop)

lemma suffix_scanSwitch:
  assumes "c \<noteq> rune_dquote" "c \<noteq> rune_squote"
  shows "suffix (rest (scanSwitch c l)) (rest l)"
proof (cases "scanOperator c l")
  case None
  then show ?thesis using assms
    by (simp add: scanSwitch_def suffix_scanComment suffix_scanRawString suffix_scanCloseBrace
        suffix_scanNumber suffix_scanIdentifier suffix_tl)
next
  case (Some l')
  then show ?thesis using assms suffix_scanOperator [OF Some]
    by (simp add: scanSwitch_def suffix_scanComment suffix_scanRawString suffix_scanCloseBrace suffix_tl)
qed

lemma consumes_scanString:
  assumes "\<not> isAtEnd l" "peek l = rune_dquote" "rest l' = rest (skip l)"
  shows "consumes (scanString l') l"
proof (cases "peek l' = rune_dquote \<and> current l' + 1 < length (source l') \<and>
    source l' ! (current l' + 1) = rune_dquote")
  case True
  then obtain rs where "rest l' = rune_dquote # rune_dquote # rs"
    using peek_next_rest [of l'] by (auto simp: peek_rest)
  moreover have "quote_weight (rest l) = 1 + quote_weight (rest l')"
    using quote_weight_rest [OF assms(1)] assms by simp
  ultimately have "quote_weight (rest (scanString l')) < quote_weight (rest l)"
    using True quote_weight_scanTripleQuoteString [of "skip (skip l')"] by (simp add: scanString_def)
  then show ?thesis by (simp add: consumes_def)
next
  case False
  then have "suffix (rest (scanString l')) (rest l')"
    by (auto simp: scanString_def scanStringBody_def suffix_scanStringLoop suffix_tl)
  with assms show ?thesis by (intro consumes_suffix) simp_all
qed

lemma consumes_scanSingle:
  assumes "\<not> isAtEnd l" "peek l = rune_squote" "rest l' = rest (skip l)"
  shows "consumes (scanSingleQuoteString l') l"
  using quote_weight_rest [OF assms(1)] quote_weight_scanSingleQuoteString [of l'] assms
  by (simp add: consumes_def)

lemma consumes_scanRune:
  assumes "\<not> isAtEnd l"
  shows "consumes (scanRune l) l"
proof -
  let ?l = "(skip l)\<lparr>atLineStart := False\<rparr>"
  have r: "rest ?l = rest (skip l)" by simp
  have e: "scanRune l = scanSwitch (peek l) ?l" by (simp add: scanRune_def advance_eq)
  consider "peek l = rune_dquote" | "peek l = rune_squote"
    | "peek l \<noteq> rune_dquote" "peek l \<noteq> rune_squote" by blast
  then show ?thesis
  proof cases
    case 1
    then show ?thesis using consumes_scanString [OF assms 1 r] e by (simp add: scanSwitch_def)
  next
    case 2
    then show ?thesis using consumes_scanSingle [OF assms 2 r] e by (simp add: scanSwitch_def)
  next
    case 3
    then show ?thesis
      using suffix_scanSwitch [OF 3, of ?l] e consumes_suffix [OF assms] r by simp
  qed
qed

text \<open>The prologues of \<^verbatim>\<open>scanToken\<close> only move forward.\<close>

lemma suffix_prologue: "suffix (rest (skipBraceBlockIndent (skipContinuationIndent l))) (rest l)"
proof -
  have m: "rest (moveStart l) = rest l" for l by (simp add: moveStart_def)
  have "suffix (rest (skipContinuationIndent l)) (rest l)"
    using suffix_advance_while [of isBlank "l\<lparr>continuationLine := False\<rparr>"]
    by (simp add: skipContinuationIndent_def m)
  moreover have "suffix (rest (skipBraceBlockIndent l')) (rest l')" for l'
    using suffix_advance_while [of isBlank l'] by (simp add: skipBraceBlockIndent_def m)
  ultimately show ?thesis using suffix_order.trans by blast
qed

definition line_pending :: "lexer \<Rightarrow> nat" where
  "line_pending l = (if atLineStart l \<and> \<not> indentationHandled l then 1 else 0)"

abbreviation scan_measure :: "(lexer \<times> lexer) set" where
  "scan_measure \<equiv> measures [\<lambda>l. quote_weight (rest l), \<lambda>l. length (rest l), line_pending]"

lemma consumes_measure: "consumes l' l \<Longrightarrow> (l', l) \<in> scan_measure"
  by (auto simp: consumes_def)

lemma consumes_after_suffix:
  assumes "suffix (rest l1) (rest l)" "consumes l' l1"
  shows "consumes l' l"
  using assms quote_weight_suffix [OF assms(1)] suffix_length_le [OF assms(1)]
  by (auto simp: consumes_def)

lemma indentationHandled_skip [simp]: "indentationHandled (skip l) = indentationHandled l"
  by (simp add: skip_def advance_def)

lemma indentationHandled_lexError [simp]: "indentationHandled (lexError e l) = indentationHandled l"
  by (simp add: lexError_def)

lemma indentationHandled_addToken [simp]: "indentationHandled (addToken tt l) = indentationHandled l"
  by (simp add: addToken_def addTokenWithLexeme_def Let_def)

lemma indentationHandled_countBlanks:
  "indentationHandled (snd (countBlanks s t l)) = indentationHandled l"
proof (induction s t l rule: countBlanks.induct)
  case (1 s t l)
  then show ?case by (subst countBlanks.simps) auto
qed

lemma indentationHandled_dedentLoop [simp]:
  "indentationHandled (dedentLoop n l) = indentationHandled l"
proof (induction n l rule: dedentLoop.induct)
  case (1 n l)
  then show ?case by (subst dedentLoop.simps) (auto simp: popIndent_def Let_def)
qed

lemma indentationHandled_handleIndentation [simp]:
  "indentationHandled (handleIndentation l) = indentationHandled l"
  using indentationHandled_countBlanks [of 0 0 l]
  by (auto simp: handleIndentation_def openIndent_def closeIndent_def Let_def split: prod.splits)

lemma scanRune_measure:
  assumes "\<not> isAtEnd l" "suffix (rest l1) (rest l)"
  shows "(scanRune l1, l) \<in> scan_measure"
proof (cases "isAtEnd l1")
  case False
  then show ?thesis
    using consumes_scanRune assms(2) consumes_after_suffix consumes_measure by blast
next
  case True
  then have "rest l1 = []" by (simp add: isAtEnd_rest)
  moreover have "rest l \<noteq> []" using assms(1) by (simp add: isAtEnd_rest)
  ultimately have "consumes l1 l" by (simp add: consumes_def)
  moreover have "suffix (rest (scanRune l1)) (rest l1)"
    using suffix_scanSwitch [of 0 "(skip l1)\<lparr>atLineStart := False\<rparr>"] True
    by (simp add: scanRune_def advance_eq peek_def suffix_tlI)
  ultimately show ?thesis
    using consumes_measure quote_weight_suffix suffix_length_le
    by (metis \<open>rest l1 = []\<close> consumes_def suffix_bot.extremum_uniqueI)
qed

lemma handleIndentation_measure:
  assumes "suffix (rest l1) (rest l)" "indentationHandled l1" "line_pending l = 1"
  shows "(handleIndentation l1, l) \<in> scan_measure"
proof -
  have s: "suffix (rest (handleIndentation l1)) (rest l)"
    using suffix_handleIndentation assms(1) suffix_order.trans by blast
  moreover have "line_pending (handleIndentation l1) = 0"
    using assms(2) by (simp add: line_pending_def)
  ultimately show ?thesis
    using assms(3) quote_weight_suffix [OF s] suffix_length_le [OF s] by auto
qed

lemma scanToken_measure:
  assumes "\<not> isAtEnd l"
  shows "(scanToken l, l) \<in> scan_measure"
proof -
  let ?p = "skipBraceBlockIndent (skipContinuationIndent l)"
  let ?h = "?p\<lparr>indentationHandled := True\<rparr>"
  have s: "suffix (rest ?p) (rest l)" by (rule suffix_prologue)
  then have sh: "suffix (rest ?h) (rest l)" by simp
  show ?thesis
  proof (cases "atLineStart ?p \<and> \<not> indentationHandled ?p")
    case True
    then have "line_pending l = 1"
      by (auto simp: line_pending_def skipBraceBlockIndent_def skipContinuationIndent_def
          moveStart_def split: if_splits)
    then show ?thesis
      using True scanRune_measure [OF assms s] scanRune_measure [OF assms sh]
        handleIndentation_measure [OF sh]
      by (simp add: scanToken_def Let_def)
  next
    case False
    then show ?thesis
      using scanRune_measure [OF assms s] by (auto simp: scanToken_def Let_def)
  qed
qed

section \<open>The driver\<close>

function scanLoop :: "lexer \<Rightarrow> lexer" where
  "scanLoop l = (if isAtEnd l then l else scanLoop (scanToken (l\<lparr>start := current l\<rparr>)))"
  by pat_completeness auto
termination
proof (relation scan_measure)
  fix l assume "\<not> isAtEnd l"
  then have "(scanToken (l\<lparr>start := current l\<rparr>), l\<lparr>start := current l\<rparr>) \<in> scan_measure"
    by (intro scanToken_measure) (simp add: isAtEnd_def)
  then show "(scanToken (l\<lparr>start := current l\<rparr>), l) \<in> scan_measure"
    by (simp add: line_pending_def)
qed simp

declare scanLoop.simps [simp del]

function closeIndents :: "lexer \<Rightarrow> lexer" where
  "closeIndents l =
     (if length (indentStack l) > 1
      then closeIndents ((addToken TOKEN_DEDENT l)\<lparr>indentStack := butlast (indentStack l)\<rparr>)
      else l)"
  by pat_completeness auto
termination
  by (relation "measure (\<lambda>l. length (indentStack l))") auto

declare closeIndents.simps [simp del]

definition ScanTokens :: "lexer \<Rightarrow> lex_diag list + token list" where
  "ScanTokens l =
     (let l1 = addToken TOKEN_EOF (closeIndents (scanLoop l))
      in if errors l1 \<noteq> [] then Inl (errors l1) else Inr (mergeLineContinuations (tokens l1)))"

text \<open>What holds of the start and is kept by every step holds at the end of the loop.\<close>

lemma scanLoop_invariant:
  assumes "I l" "\<And>l. I l \<Longrightarrow> \<not> isAtEnd l \<Longrightarrow> I (scanToken (l\<lparr>start := current l\<rparr>))"
  shows "I (scanLoop l) \<and> isAtEnd (scanLoop l)"
  using assms(1)
proof (induction l rule: scanLoop.induct)
  case (1 l)
  then show ?case using assms(2) by (subst (1 2) scanLoop.simps) auto
qed

end
