(* ===== verification/Parser.thy ===== *)
theory Parser
  imports Ast LexerLoop
begin

text \<open>
  \<^verbatim>\<open>internal/parser/parser.go\<close>: the parser's state and the helper methods every parsing routine
  is written with. A method on \<^verbatim>\<open>*Parser\<close> is a function on the record \<open>parser\<close>; a method that
  also returns a value returns the pair of the value and the new state. Looking at a token moves
  the position past comments and semicolons and collects directives, so even \<^verbatim>\<open>peekToken\<close> changes
  the state.
\<close>

section \<open>State\<close>

record parse_diag =
  pFile :: string
  pLine :: int
  pColumn :: int
  pMessage :: string

text \<open>The collected errors: those of the lexer, or those of the parser.\<close>

type_synonym perror = "lex_diag + parse_diag"

record parser =
  ptokens :: "token list"
  pos :: nat
  perrors :: "perror list"
  pendingDirectives :: "Directive list"
  allowInlineOnErr :: bool

definition NewFromTokens :: "token list \<Rightarrow> parser" where
  "NewFromTokens ts =
     \<lparr>ptokens = ts, pos = 0, perrors = [], pendingDirectives = [], allowInlineOnErr = True\<rparr>"

definition New :: "string \<Rightarrow> string \<Rightarrow> parser" where
  "New src fname =
     (case ScanTokens (NewLexer src fname) of
        Inl es \<Rightarrow> \<lparr>ptokens = [], pos = 0, perrors = map Inl es, pendingDirectives = [],
                   allowInlineOnErr = True\<rparr>
      | Inr ts \<Rightarrow> NewFromTokens ts)"

section \<open>Directives\<close>

text \<open>\<^verbatim>\<open>strings.TrimSpace\<close>: white space in the sense of \<^verbatim>\<open>unicode.IsSpace\<close>.\<close>

definition is_space :: "rune \<Rightarrow> bool" where
  "is_space r \<longleftrightarrow> r \<in> {0x09, 0x0A, 0x0B, 0x0C, 0x0D, 0x20, 0x85, 0xA0, 0x1680, 0x2028, 0x2029,
     0x202F, 0x205F, 0x3000} \<or> (0x2000 \<le> r \<and> r \<le> 0x200A)"

definition trim_space :: "string \<Rightarrow> string" where
  "trim_space s = go_string (rev (dropWhile is_space (rev (dropWhile is_space (go_runes s)))))"

text \<open>\<^verbatim>\<open>strings.Cut\<close> at the first occurrence of one byte.\<close>

definition cut_char :: "string \<Rightarrow> char \<Rightarrow> (string \<times> string) option" where
  "cut_char s c = map_option (\<lambda>k. (take k s, drop (k + 1) s)) (index_char s c)"

function parseDirectiveArgs :: "string \<Rightarrow> string list" where
  "parseDirectiveArgs s0 =
     (let s = trim_left s0 [CHR '' '', CHR 0x09]
      in case s of [] \<Rightarrow> []
         | c # s' \<Rightarrow>
           if c = CHR 0x22 then
             (case index_char s' (CHR 0x22) of
                None \<Rightarrow> [s']
              | Some end \<Rightarrow> take end s' # parseDirectiveArgs (drop (end + 1) s'))
           else
             (case index_char s (CHR '' '') of
                None \<Rightarrow> [s]
              | Some end \<Rightarrow> take end s # parseDirectiveArgs (drop (end + 1) s)))"
  by pat_completeness auto
termination
proof (relation "measure length", goal_cases)
  case (2 s0 s c s')
  have "length s \<le> length s0" unfolding 2(1) trim_left_def by (rule length_dropWhile_le)
  then show ?case using 2(2) by simp
next
  case (3 s0 s c s')
  have "length s \<le> length s0" unfolding 3(1) trim_left_def by (rule length_dropWhile_le)
  then show ?case using 3(2) by simp
qed simp

declare parseDirectiveArgs.simps [simp del]

definition parseDirective :: "token \<Rightarrow> Directive" where
  "parseDirective t =
     (let content = trim_space (trim_prefix (Lexeme t) ''# kuki:'')
      in case cut_char content (CHR '' '') of
           None \<Rightarrow> \<lparr>dirToken = t, dirName = content, dirArgs = []\<rparr>
         | Some (before, after) \<Rightarrow>
             (let argStr = trim_space after
              in \<lparr>dirToken = t, dirName = before,
                  dirArgs = (if argStr \<noteq> [] then parseDirectiveArgs argStr else [])\<rparr>))"

section \<open>Looking at tokens\<close>

definition isIgnored :: "token \<Rightarrow> bool" where
  "isIgnored t \<longleftrightarrow> Type t = TOKEN_COMMENT \<or> Type t = TOKEN_SEMICOLON \<or> Type t = TOKEN_DIRECTIVE"

text \<open>The tokens from the current position on.\<close>

definition ahead :: "parser \<Rightarrow> token list" where
  "ahead p = drop (pos p) (ptokens p)"

text \<open>The loop of \<^verbatim>\<open>skipIgnoredTokens\<close> passes the longest run of ignored tokens and parses the
  directives in it.\<close>

definition skipIgnoredTokens :: "parser \<Rightarrow> parser" where
  "skipIgnoredTokens p =
     (let run = takeWhile isIgnored (ahead p)
      in p\<lparr>pos := pos p + length run,
           pendingDirectives := pendingDirectives p @
             map parseDirective (filter (has_type TOKEN_DIRECTIVE) run)\<rparr>)"

text \<open>\<^verbatim>\<open>lexer.Token{Type: lexer.TOKEN_EOF}\<close> and \<^verbatim>\<open>lexer.Token{}\<close> (whose type is the first one,
  \<^verbatim>\<open>TOKEN_IDENTIFIER\<close>).\<close>

definition eof_token :: token where
  "eof_token = \<lparr>Type = TOKEN_EOF, Lexeme = [], Line = 0, Column = 0, File = []\<rparr>"

definition zero_token :: token where
  "zero_token = \<lparr>Type = TokenType 0, Lexeme = [], Line = 0, Column = 0, File = []\<rparr>"

definition peekToken :: "parser \<Rightarrow> token \<times> parser" where
  "peekToken p0 =
     (let p = skipIgnoredTokens p0
      in (if pos p \<ge> length (ptokens p) then eof_token else ptokens p ! pos p, p))"

definition peekAt :: "nat \<Rightarrow> parser \<Rightarrow> token \<times> parser" where
  "peekAt offset p0 =
     (let p = skipIgnoredTokens p0; seen = filter (\<lambda>t. \<not> isIgnored t) (ahead p)
      in (if offset < length seen then seen ! offset else eof_token, p))"

definition peekNextToken :: "parser \<Rightarrow> token \<times> parser" where
  "peekNextToken p = peekAt 1 p"

definition previousToken :: "parser \<Rightarrow> token" where
  "previousToken p = (if pos p = 0 then eof_token else ptokens p ! (pos p - 1))"

definition p_isAtEnd :: "parser \<Rightarrow> bool \<times> parser" where
  "p_isAtEnd p =
     (if pos p \<ge> length (ptokens p) then (True, p)
      else (let (t, p1) = peekToken p in (Type t = TOKEN_EOF, p1)))"

section \<open>Consuming tokens\<close>

definition p_advance :: "parser \<Rightarrow> token \<times> parser" where
  "p_advance p =
     (let (e, p1) = p_isAtEnd p; p2 = (if \<not> e then p1\<lparr>pos := pos p1 + 1\<rparr> else p1)
      in (previousToken p2, p2))"

definition check :: "token_type \<Rightarrow> parser \<Rightarrow> bool \<times> parser" where
  "check tt p =
     (let (e, p1) = p_isAtEnd p
      in if e then (False, p1) else (let (t, p2) = peekToken p1 in (Type t = tt, p2)))"

fun match_types :: "token_type list \<Rightarrow> parser \<Rightarrow> bool \<times> parser" where
  "match_types [] p = (False, p)"
| "match_types (tt # tts) p =
     (let (b, p1) = check tt p
      in if b then (True, snd (p_advance p1)) else match_types tts p1)"

definition p_error :: "token \<Rightarrow> string \<Rightarrow> parser \<Rightarrow> parser" where
  "p_error t message p =
     p\<lparr>perrors := perrors p @
        [Inr \<lparr>pFile = File t, pLine = Line t, pColumn = Column t, pMessage = message\<rparr>]\<rparr>"

text \<open>\<^verbatim>\<open>consume\<close> returns the token and an error; the callers ignore the error, which has been
  recorded, and go on with the token (the zero token when there was an error).\<close>

definition consume :: "token_type \<Rightarrow> string \<Rightarrow> parser \<Rightarrow> token \<times> parser" where
  "consume tt message p =
     (let (b, p1) = check tt p
      in if b then p_advance p1
         else (let (t, p2) = peekToken p1 in (zero_token, p_error t message p2)))"

definition drainDirectives :: "parser \<Rightarrow> Directive list \<times> parser" where
  "drainDirectives p = (pendingDirectives p, p\<lparr>pendingDirectives := []\<rparr>)"

definition isIdentifierFollower :: "parser \<Rightarrow> bool \<times> parser" where
  "isIdentifierFollower p =
     (let (next, p1) = peekNextToken p
      in (Type next \<in> set [TOKEN_WALRUS, TOKEN_ASSIGN, TOKEN_BIT_AND, TOKEN_BIT_AND_ASSIGN,
            TOKEN_DOT, TOKEN_LBRACKET, TOKEN_COMMA, TOKEN_RPAREN, TOKEN_RBRACKET, TOKEN_RBRACE,
            TOKEN_PLUS_PLUS, TOKEN_MINUS_MINUS, TOKEN_SEMICOLON, TOKEN_STRING_MID,
            TOKEN_STRING_TAIL, TOKEN_NOT_EQUALS, TOKEN_DOUBLE_EQUALS, TOKEN_EQUALS, TOKEN_ISNT,
            TOKEN_LT, TOKEN_GT, TOKEN_LTE, TOKEN_GTE, TOKEN_PLUS, TOKEN_MINUS, TOKEN_STAR,
            TOKEN_SLASH, TOKEN_PERCENT, TOKEN_AND, TOKEN_OR, TOKEN_AND_AND, TOKEN_OR_OR,
            TOKEN_PIPE, TOKEN_ONERR], p1))"

section \<open>The token stream\<close>

text \<open>
  What the helper methods do to the tokens that count: \<open>view p\<close> are the tokens ahead that are
  not ignored. Looking never changes it, advancing drops its first token, and an EOF token is
  never passed.
\<close>

definition view :: "parser \<Rightarrow> token list" where
  "view p = filter (\<lambda>t. \<not> isIgnored t) (ahead p)"

definition next_type :: "parser \<Rightarrow> token_type" where
  "next_type p = (case view p of [] \<Rightarrow> TOKEN_EOF | t # _ \<Rightarrow> Type t)"

lemma ahead_skipIgnored: "ahead (skipIgnoredTokens p) = dropWhile isIgnored (ahead p)"
  by (simp add: skipIgnoredTokens_def ahead_def Let_def dropWhile_eq_drop add.commute)

lemma filter_dropWhile: "filter (\<lambda>x. \<not> P x) (dropWhile P xs) = filter (\<lambda>x. \<not> P x) xs"
  by (induction xs) auto

lemma view_skipIgnored [simp]: "view (skipIgnoredTokens p) = view p"
  by (simp add: view_def ahead_skipIgnored filter_dropWhile)

lemma skipIgnored_fields [simp]:
  "ptokens (skipIgnoredTokens p) = ptokens p" "perrors (skipIgnoredTokens p) = perrors p"
  by (simp_all add: skipIgnoredTokens_def Let_def)

lemma view_dropWhile:
  "view p = (case dropWhile isIgnored (ahead p) of [] \<Rightarrow> []
     | t # ts \<Rightarrow> t # filter (\<lambda>t. \<not> isIgnored t) ts)"
proof (cases "dropWhile isIgnored (ahead p)")
  case Nil
  have "view p = []" using filter_dropWhile [of isIgnored "ahead p"] unfolding view_def Nil by simp
  then show ?thesis unfolding Nil by simp
next
  case (Cons t ts)
  then have "\<not> isIgnored t" by (metis dropWhile_eq_Cons_conv)
  then have "view p = t # filter (\<lambda>t. \<not> isIgnored t) ts"
    using filter_dropWhile [of isIgnored "ahead p"] unfolding view_def Cons by simp
  then show ?thesis unfolding Cons by simp
qed

lemma ahead_hd: "pos p < length (ptokens p) \<Longrightarrow> ahead p = ptokens p ! pos p # drop (Suc (pos p)) (ptokens p)"
  by (simp add: ahead_def Cons_nth_drop_Suc)

lemma peekToken_view:
  "peekToken p = (case view p of [] \<Rightarrow> eof_token | t # _ \<Rightarrow> t, skipIgnoredTokens p)"
proof -
  let ?q = "skipIgnoredTokens p"
  have a: "ahead ?q = dropWhile isIgnored (ahead p)" by (rule ahead_skipIgnored)
  show ?thesis
  proof (cases "pos ?q \<ge> length (ptokens ?q)")
    case True
    then have "ahead ?q = []" by (simp add: ahead_def)
    then have "view p = []" using view_dropWhile [of p] unfolding a by (simp only: list.case)
    then show ?thesis using True by (simp add: peekToken_def Let_def)
  next
    case False
    then have "ahead ?q = ptokens ?q ! pos ?q # drop (Suc (pos ?q)) (ptokens ?q)"
      by (intro ahead_hd) simp
    then have "view p \<noteq> []" "hd (view p) = ptokens ?q ! pos ?q" using view_dropWhile [of p] a by auto
    then show ?thesis using False by (cases "view p") (simp_all add: peekToken_def Let_def)
  qed
qed

lemma peekToken_simps [simp]:
  "Type (fst (peekToken p)) = next_type p" "view (snd (peekToken p)) = view p"
  "perrors (snd (peekToken p)) = perrors p" "next_type (snd (peekToken p)) = next_type p"
  by (simp_all add: peekToken_view next_type_def eof_token_def split: list.split)

lemma p_isAtEnd_simps [simp]:
  "fst (p_isAtEnd p) \<longleftrightarrow> next_type p = TOKEN_EOF" "view (snd (p_isAtEnd p)) = view p"
  "perrors (snd (p_isAtEnd p)) = perrors p" "next_type (snd (p_isAtEnd p)) = next_type p"
proof -
  have "view p = []" if "length (ptokens p) \<le> pos p" using that by (simp add: view_def ahead_def)
  then show "fst (p_isAtEnd p) \<longleftrightarrow> next_type p = TOKEN_EOF" "view (snd (p_isAtEnd p)) = view p"
    "perrors (snd (p_isAtEnd p)) = perrors p" "next_type (snd (p_isAtEnd p)) = next_type p"
    by (auto simp: p_isAtEnd_def peekToken_view next_type_def eof_token_def split: list.split)
qed

lemma p_advance_end: "next_type p = TOKEN_EOF \<Longrightarrow> view (snd (p_advance p)) = view p"
  using p_isAtEnd_simps [of p] by (simp add: p_advance_def case_prod_beta Let_def del: p_isAtEnd_simps)

lemma perrors_p_advance [simp]: "perrors (snd (p_advance p)) = perrors p"
  using p_isAtEnd_simps(3) [of p] by (simp add: p_advance_def case_prod_beta Let_def)

lemma p_advance_view:
  assumes "next_type p \<noteq> TOKEN_EOF"
  shows "fst (p_advance p) = hd (view p)" "view (snd (p_advance p)) = tl (view p)" "view p \<noteq> []"
proof -
  let ?q = "skipIgnoredTokens p"
  show v: "view p \<noteq> []" using assms by (auto simp: next_type_def)
  then have lt: "pos p < length (ptokens p)"
    by (metis ahead_def drop_all filter.simps(1) not_le_imp_less view_def)
  have e: "p_isAtEnd p = (False, ?q)"
    using lt assms v by (simp add: p_isAtEnd_def peekToken_view next_type_def split: list.splits)
  have a: "ahead ?q = dropWhile isIgnored (ahead p)" by (rule ahead_skipIgnored)
  have "ahead ?q \<noteq> []"
  proof
    assume "ahead ?q = []"
    then have "view p = []" using view_dropWhile [of p] unfolding a by (simp only: list.case)
    with v show False ..
  qed
  then have "pos ?q < length (ptokens ?q)" by (simp add: ahead_def)
  then have h: "ahead ?q = ptokens ?q ! pos ?q # drop (Suc (pos ?q)) (ptokens ?q)" by (rule ahead_hd)
  then have vp: "view p = ptokens ?q ! pos ?q # filter (\<lambda>t. \<not> isIgnored t) (drop (Suc (pos ?q)) (ptokens ?q))"
    using view_dropWhile [of p] a by simp
  then show "fst (p_advance p) = hd (view p)" "view (snd (p_advance p)) = tl (view p)"
    by (simp_all add: p_advance_def e previousToken_def view_def ahead_def Let_def)
qed

lemma length_view_advance: "length (view (snd (p_advance p))) \<le> length (view p)"
  using p_advance_end [of p] p_advance_view(2) [of p] by (cases "next_type p = TOKEN_EOF") auto

lemma length_view_advance_less:
  "next_type p \<noteq> TOKEN_EOF \<Longrightarrow> length (view (snd (p_advance p))) < length (view p)"
  using p_advance_view(2,3) [of p] by (simp add: diff_less)

lemma check_simps [simp]:
  "fst (check tt p) \<longleftrightarrow> next_type p \<noteq> TOKEN_EOF \<and> next_type p = tt"
  "view (snd (check tt p)) = view p" "perrors (snd (check tt p)) = perrors p"
  "next_type (snd (check tt p)) = next_type p"
  by (simp_all add: check_def case_prod_beta Let_def)

lemma view_p_error [simp]: "view (p_error t m p) = view p"
  by (simp add: view_def ahead_def p_error_def)

lemma consume_simps:
  "length (view (snd (consume tt m p))) \<le> length (view p)"
  using length_view_advance [of "snd (check tt p)"] by (simp add: consume_def case_prod_beta Let_def)

lemma consume_match:
  assumes "next_type p = tt" "tt \<noteq> TOKEN_EOF"
  shows "fst (consume tt m p) = hd (view p)" "view (snd (consume tt m p)) = tl (view p)"
    "perrors (snd (consume tt m p)) = perrors p"
  using p_advance_view [of "snd (check tt p)"] assms
  by (simp_all add: consume_def case_prod_beta Let_def)

declare match_types.simps [simp del]

lemma match_one_simps:
  "fst (match_types [tt] p) \<longleftrightarrow> next_type p \<noteq> TOKEN_EOF \<and> next_type p = tt"
  "view (snd (match_types [tt] p)) = (if next_type p \<noteq> TOKEN_EOF \<and> next_type p = tt then tl (view p) else view p)"
  "perrors (snd (match_types [tt] p)) = perrors p"
  using p_advance_view(2) [of "snd (check tt p)"]
  by (auto simp: match_types.simps case_prod_beta Let_def)

text \<open>\<^verbatim>\<open>for p.match(lexer.TOKEN_NEWLINE) { }\<close>\<close>

function skipNewlines :: "parser \<Rightarrow> parser" where
  "skipNewlines p =
     (let (b, p1) = match_types [TOKEN_NEWLINE] p in if b then skipNewlines p1 else p1)"
  by pat_completeness auto
termination
proof (relation "measure (\<lambda>p. length (view p))", goal_cases)
  case (2 p x b p1)
  then have x: "x = match_types [TOKEN_NEWLINE] p" and "fst x" "p1 = snd x"
    using fst_conv snd_conv by (metis, metis, metis)
  then have n: "next_type p = TOKEN_NEWLINE" and v: "view p1 = tl (view p)"
    using match_one_simps [of TOKEN_NEWLINE p] by (auto split: if_splits)
  have "view p \<noteq> []" using n by (auto simp: next_type_def)
  with v show ?case by (simp add: diff_less)
qed simp

declare skipNewlines.simps [simp del]

lemma skipNewlines_view:
  "view (skipNewlines p) = dropWhile (has_type TOKEN_NEWLINE) (view p) \<and>
   perrors (skipNewlines p) = perrors p"
proof (induction p rule: skipNewlines.induct)
  case (1 p)
  let ?m = "match_types [TOKEN_NEWLINE] p"
  have s: "skipNewlines p = (if fst ?m then skipNewlines (snd ?m) else snd ?m)"
    by (subst skipNewlines.simps) (simp add: case_prod_beta Let_def)
  show ?case
  proof (cases "fst ?m")
    case True
    then have "next_type p = TOKEN_NEWLINE" by (simp add: match_one_simps)
    moreover have "view (skipNewlines (snd ?m)) = dropWhile (has_type TOKEN_NEWLINE) (view (snd ?m)) \<and>
        perrors (skipNewlines (snd ?m)) = perrors (snd ?m)"
      using 1 True by (metis prod.collapse)
    ultimately show ?thesis
      using s True by (cases "view p") (auto simp: match_one_simps next_type_def)
  next
    case False
    then show ?thesis
      using s by (cases "view p") (auto simp: match_one_simps next_type_def)
  qed
qed

end
