(* ===== verification/TypeParser.thy ===== *)
theory TypeParser
  imports Parser "HOL-Library.Monad_Syntax"
begin

text \<open>
  \<^verbatim>\<open>parseTypeAnnotation\<close> of \<^verbatim>\<open>internal/parser/parser_type.go\<close>. The method calls itself after it
  has consumed a token; the first argument of the model bounds the depth of these calls and
  \<^term>\<open>None\<close> means that the bound was too small. One more than the number of tokens ahead is
  always enough (\<open>parseTypeAnnotation_total\<close> below), so \<open>parseTypeAnnotation\<close> is total.
\<close>

section \<open>The parser\<close>

definition primitive_names :: "string list" where
  "primitive_names =
     [''int'', ''int8'', ''int16'', ''int32'', ''int64'',
      ''uint'', ''uint8'', ''uint16'', ''uint32'', ''uint64'',
      ''float32'', ''float64'', ''string'', ''bool'', ''byte'', ''rune'']"

text \<open>The quotes of the error messages.\<close>

definition quoted :: "string \<Rightarrow> string" where
  "quoted s = [CHR 0x27] @ s @ [CHR 0x27]"

definition msgTypeName :: string where
  "msgTypeName = ''expected type name after '' @ quoted ''.''"

text \<open>The case for an identifier: a primitive, a name, or a qualified name.\<close>

definition parseNamedType :: "parser \<Rightarrow> TypeAnnotation \<times> parser" where
  "parseNamedType p =
     (let (tok, p1) = p_advance p
      in if Lexeme tok \<in> set primitive_names then (PrimitiveType tok (Lexeme tok), p1)
         else (let (t, p2) = peekToken p1
               in if Type t = TOKEN_DOT then
                    (let (_, p3) = p_advance p2;
                         (ident, p4) = consume TOKEN_IDENTIFIER msgTypeName p3
                     in (NamedType tok (Lexeme tok @ ''.'' @ Lexeme ident), p4))
                  else (NamedType tok (Lexeme tok), p2)))"

definition badType :: "parser \<Rightarrow> TypeAnnotation \<times> parser" where
  "badType p0 =
     (let (t, p) = peekToken p0
      in (NamedType t ''_'',
          p_error t (''expected type annotation, got '' @ tokenTypeString (Type t)) p))"

text \<open>The tokens after the parameters of a function type that mean it has no results.\<close>

definition noReturns :: "token_type \<Rightarrow> bool" where
  "noReturns tt \<longleftrightarrow> tt = TOKEN_NEWLINE \<or> tt = TOKEN_COMMA \<or> tt = TOKEN_RPAREN \<or> tt = TOKEN_EOF \<or>
     tt = TOKEN_INDENT \<or> tt = TOKEN_DEDENT"

abbreviation expect :: "token_type \<Rightarrow> string \<Rightarrow> parser \<Rightarrow> parser" where
  "expect tt message p \<equiv> snd (consume tt message p)"

fun parseType :: "nat \<Rightarrow> parser \<Rightarrow> (TypeAnnotation \<times> parser) option"
and parseParams :: "nat \<Rightarrow> parser \<Rightarrow> (TypeAnnotation list \<times> parser) option"
and parseCommaTypes :: "nat \<Rightarrow> parser \<Rightarrow> (TypeAnnotation list \<times> parser) option"
and parseReturns :: "nat \<Rightarrow> parser \<Rightarrow> (TypeAnnotation list \<times> parser) option"
and parseReturnList :: "nat \<Rightarrow> parser \<Rightarrow> (TypeAnnotation list \<times> parser) option"
where
  "parseType 0 p = None"
| "parseType (Suc n) p0 =
     (let (t, p) = peekToken p0; tt = Type t
      in if tt = TOKEN_LBRACKET then
           (let (tok, p1) = p_advance p;
                p2 = expect TOKEN_RBRACKET (''expected '' @ quoted '']'' @ '' after '' @ quoted ''[''
                       @ '' for list type ([]T)'') p1
            in do { (e, p3) \<leftarrow> parseType n p2; Some (ListType tok e, p3) })
         else if tt = TOKEN_REFERENCE \<or> tt = TOKEN_STAR then
           (let (tok, p1) = p_advance p
            in do { (e, p2) \<leftarrow> parseType n p1; Some (ReferenceType tok e, p2) })
         else if tt = TOKEN_LIST then
           (let (tok, p1) = p_advance p;
                p2 = expect TOKEN_OF (''expected '' @ quoted ''of'' @ '' after '' @ quoted ''list'') p1
            in do { (e, p3) \<leftarrow> parseType n p2; Some (ListType tok e, p3) })
         else if tt = TOKEN_MAP then
           (let (tok, p1) = p_advance p; (b, p2) = check TOKEN_LBRACKET p1
            in if b then
                 do { (k, p3) \<leftarrow> parseType n (snd (p_advance p2));
                      let p4 = expect TOKEN_RBRACKET
                                 (''expected '' @ quoted '']'' @ '' after map key type'') p3;
                      (v, p5) \<leftarrow> parseType n p4;
                      Some (MapType tok k v, p5) }
               else
                 do { (k, p3) \<leftarrow> parseType n (expect TOKEN_OF
                        (''expected '' @ quoted ''of'' @ '' or '' @ quoted ''['' @ '' after ''
                         @ quoted ''map'') p2);
                      let p4 = expect TOKEN_TO
                                 (''expected '' @ quoted ''to'' @ '' after map key type'') p3;
                      (v, p5) \<leftarrow> parseType n p4;
                      Some (MapType tok k v, p5) })
         else if tt = TOKEN_CHANNEL then
           (let (tok, p1) = p_advance p;
                p2 = expect TOKEN_OF (''expected '' @ quoted ''of'' @ '' after '' @ quoted ''channel'') p1
            in do { (e, p3) \<leftarrow> parseType n p2; Some (ChannelType tok e, p3) })
         else if tt = TOKEN_FUNC then
           (let (tok, p1) = p_advance p;
                p2 = expect TOKEN_LPAREN (''expected '' @ quoted ''('' @ '' after '' @ quoted ''func'') p1
            in do { (ps, p3) \<leftarrow> parseParams n p2;
                    let p4 = expect TOKEN_RPAREN
                               (''expected '' @ quoted '')'' @ '' after function parameters'') p3;
                    (rs, p5) \<leftarrow> parseReturns n p4;
                    Some (FunctionType tok ps rs, p5) })
         else if tt = TOKEN_ERROR then
           (let (tok, p1) = p_advance p in Some (NamedType tok ''error'', p1))
         else if tt = TOKEN_IDENTIFIER then Some (parseNamedType p)
         else Some (badType p))"
| "parseParams 0 p = None"
| "parseParams (Suc n) p0 =
     (let (t, p) = peekToken p0
      in if Type t \<noteq> TOKEN_RPAREN then
           do { (a, p1) \<leftarrow> parseType n p; (as, p2) \<leftarrow> parseCommaTypes n p1; Some (a # as, p2) }
         else Some ([], p))"
| "parseCommaTypes 0 p = None"
| "parseCommaTypes (Suc n) p0 =
     (let (t, p) = peekToken p0
      in if Type t = TOKEN_COMMA then
           do { (a, p1) \<leftarrow> parseType n (snd (p_advance p));
                (as, p2) \<leftarrow> parseCommaTypes n p1; Some (a # as, p2) }
         else Some ([], p))"
| "parseReturns 0 p = None"
| "parseReturns (Suc n) p0 =
     (let (t, p) = peekToken p0
      in if \<not> noReturns (Type t) then
           (let (b, p1) = check TOKEN_LPAREN p
            in if b then
                 do { (rs, p2) \<leftarrow> parseReturnList n (snd (p_advance p1));
                      Some (rs, expect TOKEN_RPAREN
                                  (''expected '' @ quoted '')'' @ '' after return types'') p2) }
               else do { (r, p2) \<leftarrow> parseType n p1; Some ([r], p2) })
         else Some ([], p))"
| "parseReturnList 0 p = None"
| "parseReturnList (Suc n) p =
     do { (a, p1) \<leftarrow> parseType n p;
          let (b, p2) = match_types [TOKEN_COMMA] p1;
          if b then do { (as, p3) \<leftarrow> parseReturnList n p2; Some (a # as, p3) }
          else Some ([a], p2) }"

definition parseTypeAnnotation :: "parser \<Rightarrow> TypeAnnotation \<times> parser" where
  "parseTypeAnnotation p =
     (case parseType (2 * length (view p) + 1) p of Some r \<Rightarrow> r | None \<Rightarrow> (NilType, p))"

section \<open>The bound is enough\<close>

abbreviation vlen :: "parser \<Rightarrow> nat" where "vlen p \<equiv> length (view p)"

definition within :: "nat \<Rightarrow> ('a \<times> parser) option \<Rightarrow> bool" where
  "within k r \<longleftrightarrow> (\<exists>a p'. r = Some (a, p') \<and> vlen p' \<le> k)"

lemma within_Some [simp]: "within k (Some (a, p')) \<longleftrightarrow> vlen p' \<le> k"
  by (simp add: within_def)

lemma within_bind:
  assumes "within k r" "\<And>a p'. vlen p' \<le> k \<Longrightarrow> within m (g (a, p'))"
  shows "within m (Option.bind r g)"
  using assms by (auto simp: within_def)

lemma vlen_expect: "vlen (expect tt m p) \<le> vlen p"
  by (rule consume_simps)

lemma vlen_match: "vlen (snd (match_types [tt] p)) \<le> vlen p"
  by (simp add: match_one_simps)

lemma vlen_parseNamedType: "vlen (snd (parseNamedType p)) \<le> vlen p"
proof -
  let ?p1 = "snd (p_advance p)"
  let ?p3 = "snd (p_advance (snd (peekToken ?p1)))"
  have "vlen ?p1 \<le> vlen p" by (rule length_view_advance)
  moreover have "vlen ?p3 \<le> vlen ?p1" using length_view_advance [of "snd (peekToken ?p1)"] by simp
  moreover have "vlen (snd (consume TOKEN_IDENTIFIER m ?p3)) \<le> vlen ?p3" for m by (rule consume_simps)
  ultimately have "vlen (snd (consume TOKEN_IDENTIFIER m ?p3)) \<le> vlen p" for m
    using le_trans by blast
  with \<open>vlen ?p1 \<le> vlen p\<close> show ?thesis
    by (simp add: parseNamedType_def case_prod_beta Let_def)
qed

lemma within_if: "(P \<Longrightarrow> within k a) \<Longrightarrow> (\<not> P \<Longrightarrow> within k b) \<Longrightarrow> within k (if P then a else b)"
  by simp

lemma parse_within:
  "(\<forall>p. 2 * vlen p + 1 \<le> n \<longrightarrow> within (vlen p) (parseType n p)) \<and>
   (\<forall>p. 2 * vlen p + 2 \<le> n \<longrightarrow> within (vlen p) (parseParams n p)) \<and>
   (\<forall>p. 2 * vlen p + 1 \<le> n \<longrightarrow> within (vlen p) (parseCommaTypes n p)) \<and>
   (\<forall>p. 2 * vlen p + 2 \<le> n \<longrightarrow> within (vlen p) (parseReturns n p)) \<and>
   (\<forall>p. 2 * vlen p + 2 \<le> n \<longrightarrow> within (vlen p) (parseReturnList n p))"
proof (induction n)
  case 0
  show ?case by simp
next
  case (Suc n)
  have ty: "within k (parseType n p)" if "2 * vlen p + 1 \<le> n" "vlen p \<le> k" for p k
    using Suc that by (auto simp: within_def intro: le_trans)
  have pa: "within k (parseParams n p)" if "2 * vlen p + 2 \<le> n" "vlen p \<le> k" for p k
    using Suc that by (auto simp: within_def intro: le_trans)
  have co: "within k (parseCommaTypes n p)" if "2 * vlen p + 1 \<le> n" "vlen p \<le> k" for p k
    using Suc that by (auto simp: within_def intro: le_trans)
  have re: "within k (parseReturns n p)" if "2 * vlen p + 2 \<le> n" "vlen p \<le> k" for p k
    using Suc that by (auto simp: within_def intro: le_trans)
  have rl: "within k (parseReturnList n p)" if "2 * vlen p + 2 \<le> n" "vlen p \<le> k" for p k
    using Suc that by (auto simp: within_def intro: le_trans)
  show ?case
  proof (intro conjI allI impI)
    fix p assume n: "2 * vlen p + 1 \<le> Suc n"
    let ?q = "snd (peekToken p)"
    let ?a = "snd (p_advance ?q)"
    show "within (vlen p) (parseType (Suc n) p)"
    proof (cases "next_type p = TOKEN_EOF")
      case True
      then show ?thesis by (simp add: case_prod_beta Let_def badType_def)
    next
      case False
      then have "vlen ?a < vlen p" using length_view_advance_less [of ?q] by simp
      then obtain k where k: "vlen ?a \<le> k" "Suc k = vlen p" by (cases "vlen p") auto
      have kp: "k \<le> vlen p" using k(2) by linarith
      have ex: "vlen (expect tt m q) \<le> k" if "vlen q \<le> k" for tt m q
        using that vlen_expect le_trans by blast
      have ad: "vlen (snd (p_advance q)) \<le> k" if "vlen q \<le> k" for q
        using that length_view_advance le_trans by blast
      have t: "within k (parseType n q)" if "vlen q \<le> k" for q
        using that n k by (intro ty) linarith+
      have ps: "within k (parseParams n q)" if "vlen q \<le> k" for q
        using that n k by (intro pa) linarith+
      have rs: "within k (parseReturns n q)" if "vlen q \<le> k" for q
        using that n k by (intro re) linarith+
      have nt: "within (vlen p) (Some (parseNamedType ?q))"
        using vlen_parseNamedType [of ?q] by (simp add: within_def) (metis surj_pair snd_conv)
      have bt: "within (vlen p) (Some (badType ?q))"
        by (simp add: badType_def case_prod_beta Let_def)
      show ?thesis
        unfolding parseType.simps(2) Let_def case_prod_beta
        by (intro within_if within_bind [where k = k] t ps rs nt bt) (simp_all add: k ex ad le_trans [OF _ kp])
    qed
  next
    fix p assume n: "2 * vlen p + 2 \<le> Suc n"
    then show "within (vlen p) (parseParams (Suc n) p)"
      by (auto simp: case_prod_beta Let_def intro!: within_bind [where k = "vlen p"] ty co)
  next
    fix p assume n: "2 * vlen p + 1 \<le> Suc n"
    then show "within (vlen p) (parseCommaTypes (Suc n) p)"
      using length_view_advance_less [of "snd (peekToken p)"]
      by (auto simp: case_prod_beta Let_def intro!: within_bind [where k = "vlen p - 1"] ty co)
  next
    fix p assume n: "2 * vlen p + 2 \<le> Suc n"
    then show "within (vlen p) (parseReturns (Suc n) p)"
      using length_view_advance_less [of "snd (check TOKEN_LPAREN (snd (peekToken p)))"]
      by (auto simp: case_prod_beta Let_def intro!: within_bind [where k = "vlen p"] ty rl
          intro: le_trans [OF vlen_expect])
  next
    fix p assume n: "2 * vlen p + 2 \<le> Suc n"
    show "within (vlen p) (parseReturnList (Suc n) p)"
    proof (unfold parseReturnList.simps Let_def case_prod_beta,
        intro within_bind [where k = "vlen p"] within_if)
      show "within (vlen p) (parseType n p)" using n by (intro ty) simp_all
    next
      fix a p1 assume l: "vlen p1 \<le> vlen p" and m: "fst (match_types [TOKEN_COMMA] (snd (a, p1)))"
      let ?m = "snd (match_types [TOKEN_COMMA] p1)"
      have "vlen ?m \<le> vlen p1 - 1" "vlen p1 \<noteq> 0"
        using m by (auto simp: match_one_simps next_type_def split: list.splits)
      then have "within (vlen p) (parseReturnList n ?m)"
        using l n by (intro rl) linarith+
      then show "within (vlen p) (parseReturnList n (snd (match_types [TOKEN_COMMA] (snd (a, p1)))))"
        by simp
    qed (auto intro: le_trans [OF vlen_match])
  qed
qed

lemma parseType_enough: "2 * vlen p + 1 \<le> n \<Longrightarrow> \<exists>t p'. parseType n p = Some (t, p') \<and> vlen p' \<le> vlen p"
  using parse_within [of n] by (simp add: within_def)

lemma parseTypeAnnotation_eq: "parseType (2 * vlen p + 1) p = Some (parseTypeAnnotation p)"
  using parseType_enough [of p "2 * vlen p + 1"] by (auto simp: parseTypeAnnotation_def)

section \<open>The grammar of type annotations\<close>

text \<open>
  The syntax the method documents, as a relation between tokens and the annotation they stand
  for. What may follow a type depends on how it ends: an unqualified name must not be followed by
  a dot, and a function type without results only by one of the tokens of \<open>noReturns\<close>.
\<close>

datatype end_kind = Closed | Unqualified | NoResult

fun fits :: "end_kind \<Rightarrow> token_type \<Rightarrow> bool" where
  "fits Closed tt \<longleftrightarrow> True"
| "fits Unqualified tt \<longleftrightarrow> tt \<noteq> TOKEN_DOT"
| "fits NoResult tt \<longleftrightarrow> noReturns tt"

inductive type_syntax :: "token list \<Rightarrow> TypeAnnotation \<Rightarrow> end_kind \<Rightarrow> bool"
  and param_syntax :: "token list \<Rightarrow> TypeAnnotation list \<Rightarrow> bool"
  and comma_syntax :: "token list \<Rightarrow> TypeAnnotation list \<Rightarrow> bool"
  and return_syntax :: "token list \<Rightarrow> TypeAnnotation list \<Rightarrow> end_kind \<Rightarrow> bool"
where
  bracket_list: "Type lb = TOKEN_LBRACKET \<Longrightarrow> Type rb = TOKEN_RBRACKET \<Longrightarrow> type_syntax ts e k \<Longrightarrow>
    type_syntax (lb # rb # ts) (ListType lb e) k"
| reference: "Type r = TOKEN_REFERENCE \<or> Type r = TOKEN_STAR \<Longrightarrow> type_syntax ts e k \<Longrightarrow>
    type_syntax (r # ts) (ReferenceType r e) k"
| list_of: "Type l = TOKEN_LIST \<Longrightarrow> Type f = TOKEN_OF \<Longrightarrow> type_syntax ts e k \<Longrightarrow>
    type_syntax (l # f # ts) (ListType l e) k"
| bracket_map: "Type m = TOKEN_MAP \<Longrightarrow> Type lb = TOKEN_LBRACKET \<Longrightarrow> type_syntax ts key j \<Longrightarrow>
    fits j TOKEN_RBRACKET \<Longrightarrow> Type rb = TOKEN_RBRACKET \<Longrightarrow> type_syntax us val k \<Longrightarrow>
    type_syntax (m # lb # ts @ rb # us) (MapType m key val) k"
| map_of: "Type m = TOKEN_MAP \<Longrightarrow> Type f = TOKEN_OF \<Longrightarrow> type_syntax ts key j \<Longrightarrow>
    fits j TOKEN_TO \<Longrightarrow> Type o' = TOKEN_TO \<Longrightarrow> type_syntax us val k \<Longrightarrow>
    type_syntax (m # f # ts @ o' # us) (MapType m key val) k"
| channel_of: "Type c = TOKEN_CHANNEL \<Longrightarrow> Type f = TOKEN_OF \<Longrightarrow> type_syntax ts e k \<Longrightarrow>
    type_syntax (c # f # ts) (ChannelType c e) k"
| func: "Type f = TOKEN_FUNC \<Longrightarrow> Type lp = TOKEN_LPAREN \<Longrightarrow> param_syntax ts ps \<Longrightarrow>
    Type rp = TOKEN_RPAREN \<Longrightarrow> return_syntax us rs k \<Longrightarrow>
    type_syntax (f # lp # ts @ rp # us) (FunctionType f ps rs) k"
| error_name: "Type e = TOKEN_ERROR \<Longrightarrow> type_syntax [e] (NamedType e ''error'') Closed"
| primitive: "Type i = TOKEN_IDENTIFIER \<Longrightarrow> Lexeme i \<in> set primitive_names \<Longrightarrow>
    type_syntax [i] (PrimitiveType i (Lexeme i)) Closed"
| named: "Type i = TOKEN_IDENTIFIER \<Longrightarrow> Lexeme i \<notin> set primitive_names \<Longrightarrow>
    type_syntax [i] (NamedType i (Lexeme i)) Unqualified"
| dotted_name: "Type i = TOKEN_IDENTIFIER \<Longrightarrow> Lexeme i \<notin> set primitive_names \<Longrightarrow>
    Type d = TOKEN_DOT \<Longrightarrow> Type j = TOKEN_IDENTIFIER \<Longrightarrow>
    type_syntax [i, d, j] (NamedType i (Lexeme i @ ''.'' @ Lexeme j)) Closed"
| no_params: "param_syntax [] []"
| params: "type_syntax ts t k \<Longrightarrow> comma_syntax us as \<Longrightarrow> param_syntax (ts @ us) (t # as)"
| no_comma: "comma_syntax [] []"
| comma: "Type c = TOKEN_COMMA \<Longrightarrow> type_syntax ts t k \<Longrightarrow> comma_syntax us as \<Longrightarrow>
    comma_syntax (c # ts @ us) (t # as)"
| no_return: "return_syntax [] [] NoResult"
| one_return: "type_syntax ts t k \<Longrightarrow> return_syntax ts [t] k"
| returns: "Type lp = TOKEN_LPAREN \<Longrightarrow> type_syntax ts t k \<Longrightarrow> comma_syntax us as \<Longrightarrow>
    Type rp = TOKEN_RPAREN \<Longrightarrow> return_syntax (lp # ts @ us @ [rp]) (t # as) Closed"

text \<open>Reading tokens that are there: each step takes its token and reports nothing.\<close>

definition first_type :: "token list \<Rightarrow> token_type" where
  "first_type ts = (case ts of [] \<Rightarrow> TOKEN_EOF | t # _ \<Rightarrow> Type t)"

lemma next_type_first: "next_type p = first_type (view p)"
  by (simp add: next_type_def first_type_def)

definition clean :: "parser \<Rightarrow> token list \<Rightarrow> parser \<Rightarrow> bool" where
  "clean p r p' \<longleftrightarrow> view p' = r \<and> perrors p' = perrors p"

lemma peek_step: "\<exists>p1. peekToken p = (case view p of [] \<Rightarrow> eof_token | t # _ \<Rightarrow> t, p1) \<and> clean p (view p) p1"
  by (auto simp: peekToken_view clean_def)

lemma advance_step:
  "view p = t # r \<Longrightarrow> Type t \<noteq> TOKEN_EOF \<Longrightarrow> \<exists>p1. p_advance p = (t, p1) \<and> clean p r p1"
  using p_advance_view [of p] by (cases "p_advance p") (simp add: clean_def next_type_def, metis perrors_p_advance snd_conv)

lemma consume_step:
  "view p = t # r \<Longrightarrow> Type t = tt \<Longrightarrow> tt \<noteq> TOKEN_EOF \<Longrightarrow> \<exists>p1. consume tt m p = (t, p1) \<and> clean p r p1"
  using consume_match [of p tt m] by (cases "consume tt m p") (simp add: clean_def next_type_def)

end
