(* ===== verification/TypeSyntax.thy ===== *)
theory TypeSyntax
  imports TypeParser
begin

text \<open>
  \<^verbatim>\<open>parseTypeAnnotation\<close> against the grammar of \<open>TypeParser\<close>: it accepts what the grammar
  derives (with that result, consuming exactly those tokens, and no error), and whatever it
  accepts without an error the grammar derives.
\<close>

section \<open>One case of the switch each\<close>

lemma clean_trans: "clean p ys q \<Longrightarrow> view q = xs \<Longrightarrow> clean q r q' \<Longrightarrow> clean p r q'"
  by (simp add: clean_def)

lemma parse_head:
  assumes "view p = x # xs" "Type x \<noteq> TOKEN_EOF"
  shows "\<exists>p1 p2. peekToken p = (x, p1) \<and> p_advance p1 = (x, p2) \<and> clean p (x # xs) p1 \<and> clean p xs p2"
proof -
  obtain p1 where p1: "peekToken p = (x, p1)" "clean p (x # xs) p1"
    using peek_step [of p] assms(1) by auto
  then obtain p2 where "p_advance p1 = (x, p2)" "clean p1 xs p2"
    using advance_step [of p1 x xs] assms(2) by (auto simp: clean_def)
  with p1 show ?thesis by (auto simp: clean_def)
qed

lemma consume_steps:
  assumes "view p = y # xs" "Type y = tt" "tt \<noteq> TOKEN_EOF"
  shows "\<exists>c. \<forall>m. consume tt m p = (y, c m) \<and> clean p xs (c m)"
  using consume_step [OF assms] by (intro exI [of _ "\<lambda>m. snd (consume tt m p)"]) (metis snd_conv)

lemma parse_head2:
  assumes "view p = x # y # xs" "Type x \<noteq> TOKEN_EOF" "Type y = tt" "tt \<noteq> TOKEN_EOF"
  shows "\<exists>p1 p2 c. peekToken p = (x, p1) \<and> p_advance p1 = (x, p2) \<and> clean p (y # xs) p2 \<and>
    (\<forall>m. consume tt m p2 = (y, c m) \<and> clean p xs (c m))"
proof -
  obtain p1 p2 where p: "peekToken p = (x, p1)" "p_advance p1 = (x, p2)" "clean p (y # xs) p2"
    using parse_head [OF assms(1,2)] by blast
  obtain c where "\<forall>m. consume tt m p2 = (y, c m) \<and> clean p2 xs (c m)"
    using consume_steps [of p2 y xs tt] p(3) assms(3,4) by (auto simp: clean_def)
  with p show ?thesis by (auto simp: clean_def)
qed

lemma parseType_bracket_list:
  assumes "view p = l # b # ys" "Type l = TOKEN_LBRACKET" "Type b = TOKEN_RBRACKET"
  shows "\<exists>q. clean p ys q \<and>
    parseType (Suc n) p = do { (e, p3) \<leftarrow> parseType n q; Some (ListType l e, p3) }"
proof -
  obtain p1 p2 c where h: "peekToken p = (l, p1)" "p_advance p1 = (l, p2)"
      "\<And>m. consume TOKEN_RBRACKET m p2 = (b, c m)" "\<And>m. clean p ys (c m)"
    using parse_head2 [OF assms(1) _ assms(3)] assms(2) by auto
  show ?thesis by (simp add: h assms(2) Let_def) (use h(4) in blast)
qed

lemma parseType_list_of:
  assumes "view p = l # f # ys" "Type l = TOKEN_LIST" "Type f = TOKEN_OF"
  shows "\<exists>q. clean p ys q \<and>
    parseType (Suc n) p = do { (e, p3) \<leftarrow> parseType n q; Some (ListType l e, p3) }"
proof -
  obtain p1 p2 c where h: "peekToken p = (l, p1)" "p_advance p1 = (l, p2)"
      "\<And>m. consume TOKEN_OF m p2 = (f, c m)" "\<And>m. clean p ys (c m)"
    using parse_head2 [OF assms(1) _ assms(3)] assms(2) by auto
  show ?thesis by (simp add: h assms(2) Let_def) (use h(4) in blast)
qed

lemma parseType_channel_of:
  assumes "view p = l # f # ys" "Type l = TOKEN_CHANNEL" "Type f = TOKEN_OF"
  shows "\<exists>q. clean p ys q \<and>
    parseType (Suc n) p = do { (e, p3) \<leftarrow> parseType n q; Some (ChannelType l e, p3) }"
proof -
  obtain p1 p2 c where h: "peekToken p = (l, p1)" "p_advance p1 = (l, p2)"
      "\<And>m. consume TOKEN_OF m p2 = (f, c m)" "\<And>m. clean p ys (c m)"
    using parse_head2 [OF assms(1) _ assms(3)] assms(2) by auto
  show ?thesis by (simp add: h assms(2) Let_def) (use h(4) in blast)
qed

lemma parseType_reference:
  assumes "view p = l # ys" "Type l = TOKEN_REFERENCE \<or> Type l = TOKEN_STAR"
  shows "\<exists>q. clean p ys q \<and>
    parseType (Suc n) p = do { (e, p3) \<leftarrow> parseType n q; Some (ReferenceType l e, p3) }"
proof -
  have l: "Type l \<noteq> TOKEN_EOF" "Type l \<noteq> TOKEN_LBRACKET" using assms(2) by auto
  obtain p1 p2 where h: "peekToken p = (l, p1)" "p_advance p1 = (l, p2)" "clean p ys p2"
    using parse_head [OF assms(1) l(1)] by auto
  show ?thesis using l(2) assms(2) h(3) by (auto simp: h(1,2) Let_def)
qed

lemma parseType_func:
  assumes "view p = l # f # ys" "Type l = TOKEN_FUNC" "Type f = TOKEN_LPAREN"
  shows "\<exists>q m. clean p ys q \<and>
    parseType (Suc n) p = do { (ps, p3) \<leftarrow> parseParams n q;
                    (rs, p5) \<leftarrow> parseReturns n (expect TOKEN_RPAREN m p3);
                    Some (FunctionType l ps rs, p5) }"
proof -
  obtain p1 p2 c where h: "peekToken p = (l, p1)" "p_advance p1 = (l, p2)"
      "\<And>m. consume TOKEN_LPAREN m p2 = (f, c m)" "\<And>m. clean p ys (c m)"
    using parse_head2 [OF assms(1) _ assms(3)] assms(2) by auto
  show ?thesis by (simp add: h assms(2) Let_def) (use h(4) in blast)
qed

lemma check_step:
  "\<exists>p1. check tt p = (next_type p \<noteq> TOKEN_EOF \<and> next_type p = tt, p1) \<and> clean p (view p) p1"
  using check_simps [of tt p] by (cases "check tt p") (simp add: clean_def)

lemma parseType_map_of:
  assumes "view p = m # f # ys" "Type m = TOKEN_MAP" "Type f = TOKEN_OF"
  shows "\<exists>q msg. clean p ys q \<and>
    parseType (Suc n) p = do { (k, p3) \<leftarrow> parseType n q;
                    (v, p5) \<leftarrow> parseType n (expect TOKEN_TO msg p3);
                    Some (MapType m k v, p5) }"
proof -
  obtain p1 p2 where h: "peekToken p = (m, p1)" "p_advance p1 = (m, p2)" "clean p (f # ys) p2"
    using parse_head [OF assms(1)] assms(2) by auto
  obtain p3 where c: "check TOKEN_LBRACKET p2 = (False, p3)" "clean p (f # ys) p3"
    using check_step [of TOKEN_LBRACKET p2] h(3) assms(3) by (auto simp: clean_def next_type_def)
  obtain c where d: "\<And>msg. consume TOKEN_OF msg p3 = (f, c msg)" "\<And>msg. clean p ys (c msg)"
    using consume_steps [of p3 f ys TOKEN_OF] c(2) assms(3) by (auto simp: clean_def)
  show ?thesis by (simp add: h c(1) d(1) assms(2) Let_def) (use d(2) in blast)
qed

lemma parseType_bracket_map:
  assumes "view p = m # b # ys" "Type m = TOKEN_MAP" "Type b = TOKEN_LBRACKET"
  shows "\<exists>q msg. clean p ys q \<and>
    parseType (Suc n) p = do { (k, p3) \<leftarrow> parseType n q;
                    (v, p5) \<leftarrow> parseType n (expect TOKEN_RBRACKET msg p3);
                    Some (MapType m k v, p5) }"
proof -
  obtain p1 p2 where h: "peekToken p = (m, p1)" "p_advance p1 = (m, p2)" "clean p (b # ys) p2"
    using parse_head [OF assms(1)] assms(2) by auto
  obtain p3 where c: "check TOKEN_LBRACKET p2 = (True, p3)" "clean p (b # ys) p3"
    using check_step [of TOKEN_LBRACKET p2] h(3) assms(3) by (auto simp: clean_def next_type_def)
  obtain p4 where d: "p_advance p3 = (b, p4)" "clean p ys p4"
    using advance_step [of p3 b ys] c(2) assms(3) by (auto simp: clean_def)
  show ?thesis by (simp add: h c(1) d(1) assms(2) Let_def) (use d(2) in blast)
qed

lemma parseType_error:
  assumes "view p = l # ys" "Type l = TOKEN_ERROR"
  shows "\<exists>q. clean p ys q \<and> parseType (Suc n) p = Some (NamedType l ''error'', q)"
proof -
  obtain p1 p2 where h: "peekToken p = (l, p1)" "p_advance p1 = (l, p2)" "clean p ys p2"
    using parse_head [OF assms(1)] assms(2) by auto
  then show ?thesis using assms(2) by (simp add: Let_def)
qed

lemma parseType_identifier:
  assumes "view p = l # ys" "Type l = TOKEN_IDENTIFIER"
  shows "\<exists>q. clean p (l # ys) q \<and> parseType (Suc n) p = Some (parseNamedType q)"
proof -
  obtain p1 where "peekToken p = (l, p1)" "clean p (l # ys) p1"
    using parse_head [OF assms(1)] assms(2) by auto
  then show ?thesis using assms(2) by (auto simp: Let_def)
qed

lemma parseNamedType_primitive:
  assumes "view p = l # ys" "Type l = TOKEN_IDENTIFIER" "Lexeme l \<in> set primitive_names"
  shows "\<exists>q. clean p ys q \<and> parseNamedType p = (PrimitiveType l (Lexeme l), q)"
  using advance_step [of p l ys] assms by (auto simp: parseNamedType_def)

lemma parseNamedType_name:
  assumes "view p = l # ys" "Type l = TOKEN_IDENTIFIER" "Lexeme l \<notin> set primitive_names"
    "first_type ys \<noteq> TOKEN_DOT"
  shows "\<exists>q. clean p ys q \<and> parseNamedType p = (NamedType l (Lexeme l), q)"
proof -
  obtain p1 where p1: "p_advance p = (l, p1)" "clean p ys p1"
    using advance_step [of p l ys] assms by auto
  obtain p2 where p2: "peekToken p1 = (case ys of [] \<Rightarrow> eof_token | t # _ \<Rightarrow> t, p2)" "clean p ys p2"
    using peek_step [of p1] p1(2) by (auto simp: clean_def)
  then show ?thesis
    using p1(1) assms(3,4)
    by (auto simp: parseNamedType_def first_type_def eof_token_def split: list.splits)
qed

lemma parseNamedType_dotted:
  assumes "view p = l # d # j # ys" "Type l = TOKEN_IDENTIFIER" "Lexeme l \<notin> set primitive_names"
    "Type d = TOKEN_DOT" "Type j = TOKEN_IDENTIFIER"
  shows "\<exists>q. clean p ys q \<and> parseNamedType p = (NamedType l (Lexeme l @ ''.'' @ Lexeme j), q)"
proof -
  obtain p1 where p1: "p_advance p = (l, p1)" "clean p (d # j # ys) p1"
    using advance_step [of p l "d # j # ys"] assms by auto
  obtain p2 where p2: "peekToken p1 = (d, p2)" "clean p (d # j # ys) p2"
    using peek_step [of p1] p1(2) by (auto simp: clean_def)
  obtain p3 where p3: "p_advance p2 = (d, p3)" "clean p (j # ys) p3"
    using advance_step [of p2 d "j # ys"] p2(2) assms by (auto simp: clean_def)
  obtain c where c: "\<And>m. consume TOKEN_IDENTIFIER m p3 = (j, c m)" "\<And>m. clean p ys (c m)"
    using consume_steps [of p3 j ys TOKEN_IDENTIFIER] p3(2) assms by (auto simp: clean_def)
  then show ?thesis using p1(1) p2(1) p3(1) assms(3,4) by (auto simp: parseNamedType_def Let_def)
qed

section \<open>The parser accepts the grammar\<close>

text \<open>The results in parentheses after their first one.\<close>

definition moreReturns :: "nat \<Rightarrow> parser \<Rightarrow> (TypeAnnotation list \<times> parser) option" where
  "moreReturns n p =
     (let (b, p2) = match_types [TOKEN_COMMA] p
      in if b then parseReturnList n p2 else Some ([], p2))"

lemma parseReturnList_more:
  "parseReturnList (Suc n) p =
     do { (a, p1) \<leftarrow> parseType n p; (as, p2) \<leftarrow> moreReturns n p1; Some (a # as, p2) }"
  by (auto simp: moreReturns_def Let_def case_prod_beta intro!: Option.bind_cong [OF refl])

lemma match_step:
  "\<exists>p1. match_types [tt] p = (first_type (view p) \<noteq> TOKEN_EOF \<and> first_type (view p) = tt, p1) \<and>
     clean p (if first_type (view p) \<noteq> TOKEN_EOF \<and> first_type (view p) = tt then tl (view p) else view p) p1"
  using match_one_simps [of tt p] by (cases "match_types [tt] p") (simp add: clean_def next_type_first)

declare parseType.simps(2) [simp del] and parseReturnList.simps(2) [simp del]

text \<open>Every annotation starts with one of these tokens.\<close>

definition type_start :: "token_type \<Rightarrow> bool" where
  "type_start tt \<longleftrightarrow> tt = TOKEN_LBRACKET \<or> tt = TOKEN_REFERENCE \<or> tt = TOKEN_STAR \<or> tt = TOKEN_LIST \<or>
     tt = TOKEN_MAP \<or> tt = TOKEN_CHANNEL \<or> tt = TOKEN_FUNC \<or> tt = TOKEN_ERROR \<or> tt = TOKEN_IDENTIFIER"

lemma type_syntax_start:
  "type_syntax ts t k \<Longrightarrow> type_start (first_type (ts @ r))"
  by (cases rule: type_syntax.cases) (auto simp: type_start_def first_type_def)

lemma type_start_not:
  "type_start tt \<Longrightarrow> tt \<noteq> TOKEN_RPAREN \<and> tt \<noteq> TOKEN_LPAREN \<and> tt \<noteq> TOKEN_EOF \<and> \<not> noReturns tt"
  by (auto simp: type_start_def noReturns_def)

lemma comma_first:
  "comma_syntax us as \<Longrightarrow> first_type r = TOKEN_RPAREN \<Longrightarrow>
     first_type (us @ r) = TOKEN_COMMA \<or> first_type (us @ r) = TOKEN_RPAREN"
  by (cases rule: comma_syntax.cases) (auto simp: first_type_def)

lemma fits_list: "tt = TOKEN_COMMA \<or> tt = TOKEN_RPAREN \<Longrightarrow> fits k tt"
  by (cases k) (auto simp: noReturns_def)

text \<open>What the induction shows of each of the four parts.\<close>

definition reads :: "(nat \<Rightarrow> parser \<Rightarrow> ('a \<times> parser) option) \<Rightarrow> nat \<Rightarrow> token list \<Rightarrow> 'a \<Rightarrow>
    (token_type \<Rightarrow> bool) \<Rightarrow> bool" where
  "reads f b ts x follow \<longleftrightarrow>
     (\<forall>p n r. view p = ts @ r \<longrightarrow> follow (first_type r) \<longrightarrow> 2 * length (ts @ r) + b \<le> n \<longrightarrow>
        (\<exists>q. f n p = Some (x, q) \<and> clean p r q))"

lemma readsD:
  assumes "reads f b ts x follow" "view p = ts @ r" "follow (first_type r)" "2 * length (ts @ r) + b \<le> n"
  obtains q where "f n p = Some (x, q)" "clean p r q"
  using assms unfolding reads_def by blast

lemma readsI:
  assumes "\<And>p n r. view p = ts @ r \<Longrightarrow> follow (first_type r) \<Longrightarrow> 2 * length (ts @ r) + b \<le> n \<Longrightarrow>
    \<exists>q. f n p = Some (x, q) \<and> clean p r q"
  shows "reads f b ts x follow"
  using assms unfolding reads_def by blast

lemma reads_wrap:
  assumes step: "\<And>p n ys. view p = hd1 @ ys \<Longrightarrow> \<exists>q. clean p ys q \<and>
      parseType (Suc n) p = do { (e, p3) \<leftarrow> parseType n q; Some (C e, p3) }"
    and e: "reads parseType 1 ts e (fits k)" and ne: "hd1 \<noteq> []"
  shows "reads parseType 1 (hd1 @ ts) (C e) (fits k)"
proof (rule readsI)
  fix p n r assume p: "view p = (hd1 @ ts) @ r" "fits k (first_type r)" "2 * length ((hd1 @ ts) @ r) + 1 \<le> n"
  then obtain m where m: "n = Suc m" by (cases n) auto
  have l: "length hd1 \<ge> 1" using ne by (cases hd1) auto
  obtain q where q: "clean p (ts @ r) q" "parseType n p = do { (e, p3) \<leftarrow> parseType m q; Some (C e, p3) }"
    using step [of p "ts @ r" m] p(1) m by auto
  obtain q' where "parseType m q = Some (e, q')" "clean q r q'"
    using e by (rule readsD [where p = q and r = r and n = m]) (use q p m l in \<open>auto simp: clean_def\<close>)
  with q show "\<exists>q. parseType n p = Some (C e, q) \<and> clean p r q"
    by (auto simp: clean_def)
qed

lemma reads_map:
  assumes step: "\<And>p n ys. view p = m # f # ys \<Longrightarrow> \<exists>q msg. clean p ys q \<and>
    parseType (Suc n) p = do { (k, p3) \<leftarrow> parseType n q;
                    (v, p5) \<leftarrow> parseType n (expect tt msg p3); Some (MapType m k v, p5) }"
    and k: "reads parseType 1 ts key (fits j)" and fj: "fits j tt" and o: "Type o' = tt" "tt \<noteq> TOKEN_EOF"
    and v: "reads parseType 1 us val (fits e)"
  shows "reads parseType 1 (m # f # ts @ o' # us) (MapType m key val) (fits e)"
proof (rule readsI)
  fix p n r assume p: "view p = (m # f # ts @ o' # us) @ r" "fits e (first_type r)"
    "2 * length ((m # f # ts @ o' # us) @ r) + 1 \<le> n"
  then obtain n' where n: "n = Suc n'" by (cases n) auto
  obtain q msg where q: "clean p (ts @ o' # us @ r) q" "parseType n p = do { (k, p3) \<leftarrow> parseType n' q;
                    (v, p5) \<leftarrow> parseType n' (expect tt msg p3); Some (MapType m k v, p5) }"
    using step [of p "ts @ o' # us @ r" n'] p(1) n by auto
  obtain p3 where p3: "parseType n' q = Some (key, p3)" "clean q (o' # us @ r) p3"
    using k by (rule readsD [where p = q and r = "o' # us @ r" and n = n'])
      (use q p n fj o in \<open>auto simp: clean_def first_type_def\<close>)
  obtain p4 where p4: "expect tt msg p3 = p4" "clean p3 (us @ r) p4"
    using consume_step [of p3 o' "us @ r" tt msg] p3(2) o by (auto simp: clean_def)
  obtain p5 where "parseType n' p4 = Some (val, p5)" "clean p4 r p5"
    using v by (rule readsD [where p = p4 and r = r and n = n'])
      (use p4 p n in \<open>auto simp: clean_def\<close>)
  with q p3 p4 show "\<exists>q. parseType n p = Some (MapType m key val, q) \<and> clean p r q"
    by (auto simp: clean_def)
qed

lemma reads_comma:
  assumes c: "Type c = TOKEN_COMMA" and t: "reads parseType 1 ts t (fits k)" and us: "comma_syntax us as"
    and more: "reads f 1 us as (\<lambda>tt. tt = TOKEN_RPAREN)"
    and step: "\<And>p n ys. view p = c # ys \<Longrightarrow> \<exists>q. clean p ys q \<and>
      f (Suc n) p = do { (a, p1) \<leftarrow> parseType n q; (as, p2) \<leftarrow> f n p1; Some (a # as, p2) }"
  shows "reads f 1 (c # ts @ us) (t # as) (\<lambda>tt. tt = TOKEN_RPAREN)"
proof (rule readsI)
  fix p n r assume p: "view p = (c # ts @ us) @ r" "first_type r = TOKEN_RPAREN"
    "2 * length ((c # ts @ us) @ r) + 1 \<le> n"
  then obtain n' where n: "n = Suc n'" by (cases n) auto
  obtain q where q: "clean p (ts @ us @ r) q"
      "f n p = do { (a, p1) \<leftarrow> parseType n' q; (as, p2) \<leftarrow> f n' p1; Some (a # as, p2) }"
    using step [of p "ts @ us @ r" n'] p(1) n by auto
  have "fits k (first_type (us @ r))" using comma_first [OF us p(2)] by (rule fits_list)
  then obtain p1 where p1: "parseType n' q = Some (t, p1)" "clean q (us @ r) p1"
    using t q p n by (auto simp: clean_def elim: readsD [where p = q and r = "us @ r" and n = n'])
  obtain p2 where "f n' p1 = Some (as, p2)" "clean p1 r p2"
    using more by (rule readsD [where p = p1 and r = r and n = n']) (use p1 p n in \<open>auto simp: clean_def\<close>)
  with q p1 show "\<exists>q. f n p = Some (t # as, q) \<and> clean p r q" by (auto simp: clean_def)
qed

lemma comma_step:
  assumes "view p = c # ys" "Type c = TOKEN_COMMA"
  shows "\<exists>q. clean p ys q \<and> parseCommaTypes (Suc n) p =
    do { (a, p1) \<leftarrow> parseType n q; (as, p2) \<leftarrow> parseCommaTypes n p1; Some (a # as, p2) }"
proof -
  obtain p1 p2 where "peekToken p = (c, p1)" "p_advance p1 = (c, p2)" "clean p ys p2"
    using parse_head [OF assms(1)] assms(2) by auto
  then show ?thesis using assms(2) by auto
qed

lemma return_step:
  assumes "view p = c # ys" "Type c = TOKEN_COMMA"
  shows "\<exists>q. clean p ys q \<and> moreReturns (Suc n) p =
    do { (a, p1) \<leftarrow> parseType n q; (as, p2) \<leftarrow> moreReturns n p1; Some (a # as, p2) }"
proof -
  obtain q where "match_types [TOKEN_COMMA] p = (True, q)" "clean p ys q"
    using match_step [of TOKEN_COMMA p] assms by (auto simp: first_type_def)
  then show ?thesis by (auto simp: moreReturns_def parseReturnList_more)
qed

lemma comma_done:
  assumes "first_type (view p) = TOKEN_RPAREN"
  shows "\<exists>q. parseCommaTypes (Suc n) p = Some ([], q) \<and> clean p (view p) q"
    "\<exists>q. moreReturns n p = Some ([], q) \<and> clean p (view p) q"
  using peek_step [of p] match_step [of TOKEN_COMMA p] assms
  by (auto simp: moreReturns_def first_type_def split: list.splits)

lemma type_reads:
  "(type_syntax ts t k \<longrightarrow> reads parseType 1 ts t (fits k)) \<and>
   (param_syntax ts1 ps \<longrightarrow> reads parseParams 2 ts1 ps (\<lambda>tt. tt = TOKEN_RPAREN)) \<and>
   (comma_syntax ts2 as \<longrightarrow> reads parseCommaTypes 1 ts2 as (\<lambda>tt. tt = TOKEN_RPAREN) \<and>
      reads moreReturns 1 ts2 as (\<lambda>tt. tt = TOKEN_RPAREN)) \<and>
   (return_syntax ts3 rs k3 \<longrightarrow> reads parseReturns 2 ts3 rs (fits k3))"
proof (induction rule: type_syntax_param_syntax_comma_syntax_return_syntax.induct)
  case (bracket_list lb rb ts e k)
  then show ?case using reads_wrap [of "[lb, rb]" "ListType lb" ts e k] parseType_bracket_list by simp
next
  case (reference r ts e k)
  then show ?case using reads_wrap [of "[r]" "ReferenceType r" ts e k] parseType_reference by simp
next
  case (list_of l f ts e k)
  then show ?case using reads_wrap [of "[l, f]" "ListType l" ts e k] parseType_list_of by simp
next
  case (bracket_map m lb ts key j rb us val k)
  note step = parseType_bracket_map [OF _ bracket_map.hyps(1,2)]
  show ?case using bracket_map by (intro reads_map [where tt = TOKEN_RBRACKET, OF step]) simp_all
next
  case (map_of m f ts key j o' us val k)
  note step = parseType_map_of [OF _ map_of.hyps(1,2)]
  show ?case using map_of by (intro reads_map [where tt = TOKEN_TO, OF step]) simp_all
next
  case (channel_of c f ts e k)
  then show ?case using reads_wrap [of "[c, f]" "ChannelType c" ts e k] parseType_channel_of by simp
next
  case (func f lp ts ps rp us rs k)
  show ?case
  proof (rule readsI)
    fix p n r assume p: "view p = (f # lp # ts @ rp # us) @ r" "fits k (first_type r)"
      "2 * length ((f # lp # ts @ rp # us) @ r) + 1 \<le> n"
    then obtain n' where n: "n = Suc n'" by (cases n) auto
    obtain q m where q: "clean p (ts @ rp # us @ r) q"
        "parseType n p = do { (ps, p3) \<leftarrow> parseParams n' q;
           (rs, p5) \<leftarrow> parseReturns n' (expect TOKEN_RPAREN m p3); Some (FunctionType f ps rs, p5) }"
      using parseType_func [of p f lp "ts @ rp # us @ r" n'] p(1) n func by auto
    obtain p3 where p3: "parseParams n' q = Some (ps, p3)" "clean q (rp # us @ r) p3"
      using func.IH(1) by (rule readsD [where p = q and r = "rp # us @ r" and n = n'])
        (use q p n func in \<open>auto simp: clean_def first_type_def\<close>)
    obtain p4 where p4: "expect TOKEN_RPAREN m p3 = p4" "clean p3 (us @ r) p4"
      using consume_step [of p3 rp "us @ r" TOKEN_RPAREN m] p3(2) func by (auto simp: clean_def)
    obtain p5 where "parseReturns n' p4 = Some (rs, p5)" "clean p4 r p5"
      using func.IH(2) by (rule readsD [where p = p4 and r = r and n = n'])
        (use p4 p n in \<open>auto simp: clean_def\<close>)
    with q p3 p4 show "\<exists>q. parseType n p = Some (FunctionType f ps rs, q) \<and> clean p r q"
      by (auto simp: clean_def)
  qed
next
  case (error_name e)
  show ?case
  proof (rule readsI)
    fix p n r assume p: "view p = [e] @ r" "2 * length ([e] @ r) + 1 \<le> n"
    then obtain n' where n: "n = Suc n'" by (cases n) auto
    then show "\<exists>q. parseType n p = Some (NamedType e ''error'', q) \<and> clean p r q"
      using parseType_error [of p e r n'] p error_name by auto
  qed
next
  case (primitive i)
  show ?case
  proof (rule readsI)
    fix p n r assume p: "view p = [i] @ r" "2 * length ([i] @ r) + 1 \<le> n"
    then obtain n' where n: "n = Suc n'" by (cases n) auto
    obtain q where q: "clean p (i # r) q" "parseType n p = Some (parseNamedType q)"
      using parseType_identifier [of p i r n'] p primitive n by auto
    then show "\<exists>q. parseType n p = Some (PrimitiveType i (Lexeme i), q) \<and> clean p r q"
      using parseNamedType_primitive [of q i r] primitive by (auto simp: clean_def)
  qed
next
  case (named i)
  show ?case
  proof (rule readsI)
    fix p n r assume p: "view p = [i] @ r" "fits Unqualified (first_type r)" "2 * length ([i] @ r) + 1 \<le> n"
    then obtain n' where n: "n = Suc n'" by (cases n) auto
    obtain q where q: "clean p (i # r) q" "parseType n p = Some (parseNamedType q)"
      using parseType_identifier [of p i r n'] p named n by auto
    then show "\<exists>q. parseType n p = Some (NamedType i (Lexeme i), q) \<and> clean p r q"
      using parseNamedType_name [of q i r] named p(2) by (auto simp: clean_def)
  qed
next
  case (dotted_name i d j)
  show ?case
  proof (rule readsI)
    fix p n r assume p: "view p = [i, d, j] @ r" "2 * length ([i, d, j] @ r) + 1 \<le> n"
    then obtain n' where n: "n = Suc n'" by (cases n) auto
    obtain q where q: "clean p (i # d # j # r) q" "parseType n p = Some (parseNamedType q)"
      using parseType_identifier [of p i "d # j # r" n'] p dotted_name n by auto
    then show "\<exists>q. parseType n p = Some (NamedType i (Lexeme i @ ''.'' @ Lexeme j), q) \<and> clean p r q"
      using parseNamedType_dotted [of q i d j r] dotted_name by (auto simp: clean_def)
  qed
next
  case no_params
  show ?case
  proof (rule readsI)
    fix p n r assume p: "view p = [] @ r" "first_type r = TOKEN_RPAREN" "2 * length ([] @ r) + 2 \<le> n"
    then obtain n' where "n = Suc n'" by (cases n) auto
    then show "\<exists>q. parseParams n p = Some ([], q) \<and> clean p r q"
      using peek_step [of p] p by (auto simp: first_type_def split: list.splits)
  qed
next
  case (params ts t k us as)
  show ?case
  proof (rule readsI)
    fix p n r assume p: "view p = (ts @ us) @ r" "first_type r = TOKEN_RPAREN"
      "2 * length ((ts @ us) @ r) + 2 \<le> n"
    then obtain n' where n: "n = Suc n'" by (cases n) auto
    have s: "type_start (first_type (ts @ us @ r))"
      using params.hyps(1) by (rule type_syntax_start)
    obtain p1 where p1: "peekToken p = (case view p of [] \<Rightarrow> eof_token | t # _ \<Rightarrow> t, p1)"
        "clean p (ts @ us @ r) p1"
      using peek_step [of p] p(1) by auto
    have ft: "Type (case view p of [] \<Rightarrow> eof_token | t # _ \<Rightarrow> t) \<noteq> TOKEN_RPAREN"
      using type_start_not [OF s] p(1) by (auto simp: first_type_def eof_token_def split: list.splits)
    have "fits k (first_type (us @ r))" using comma_first [OF params.hyps(2) p(2)] by (rule fits_list)
    then obtain p2 where p2: "parseType n' p1 = Some (t, p2)" "clean p1 (us @ r) p2"
      using params.IH(1) p1 p n by (auto simp: clean_def elim: readsD [where p = p1 and r = "us @ r" and n = n'])
    obtain p3 where "parseCommaTypes n' p2 = Some (as, p3)" "clean p2 r p3"
      using params.IH(2) [THEN conjunct1] by (rule readsD [where p = p2 and r = r and n = n'])
        (use p2 p n in \<open>auto simp: clean_def\<close>)
    with p1 p2 ft n show "\<exists>q. parseParams n p = Some (t # as, q) \<and> clean p r q"
      by (auto simp: clean_def)
  qed
next
  case no_comma
  show ?case
  proof (intro conjI; rule readsI)
    fix p n r assume p: "view p = [] @ r" "first_type r = TOKEN_RPAREN" "2 * length ([] @ r) + 1 \<le> n"
    then obtain n' where "n = Suc n'" by (cases n) auto
    then show "\<exists>q. parseCommaTypes n p = Some ([], q) \<and> clean p r q" "\<exists>q. moreReturns n p = Some ([], q) \<and> clean p r q"
      using comma_done [of p] p by auto
  qed
next
  case (comma c ts t k us as)
  then show ?case using comma_step return_step by (intro conjI reads_comma [where k = k]) auto
next
  case no_return
  show ?case
  proof (rule readsI)
    fix p n r assume p: "view p = [] @ r" "fits NoResult (first_type r)" "2 * length ([] @ r) + 2 \<le> n"
    then obtain n' where "n = Suc n'" by (cases n) auto
    then show "\<exists>q. parseReturns n p = Some ([], q) \<and> clean p r q"
      using peek_step [of p] p by (auto simp: first_type_def eof_token_def split: list.splits)
  qed
next
  case (one_return ts t k)
  show ?case
  proof (rule readsI)
    fix p n r assume p: "view p = ts @ r" "fits k (first_type r)" "2 * length (ts @ r) + 2 \<le> n"
    then obtain n' where n: "n = Suc n'" by (cases n) auto
    have s: "type_start (first_type (ts @ r))" using one_return.hyps by (rule type_syntax_start)
    obtain p1 where p1: "peekToken p = (case view p of [] \<Rightarrow> eof_token | t # _ \<Rightarrow> t, p1)" "clean p (ts @ r) p1"
      using peek_step [of p] p(1) by auto
    have ft: "\<not> noReturns (Type (case view p of [] \<Rightarrow> eof_token | t # _ \<Rightarrow> t))"
      using type_start_not [OF s] p(1) by (auto simp: first_type_def eof_token_def split: list.splits)
    obtain p2 where p2: "check TOKEN_LPAREN p1 = (False, p2)" "clean p (ts @ r) p2"
      using check_step [of TOKEN_LPAREN p1] p1(2) type_start_not [OF s]
      by (auto simp: clean_def next_type_first)
    obtain q where "parseType n' p2 = Some (t, q)" "clean p2 r q"
      using one_return.IH by (rule readsD [where p = p2 and r = r and n = n'])
        (use p2 p n in \<open>auto simp: clean_def\<close>)
    with p1 p2 ft n show "\<exists>q. parseReturns n p = Some ([t], q) \<and> clean p r q"
      by (auto simp: clean_def)
  qed
next
  case (returns lp ts t k us as rp)
  show ?case
  proof (rule readsI)
    fix p n r assume p: "view p = (lp # ts @ us @ [rp]) @ r" "2 * length ((lp # ts @ us @ [rp]) @ r) + 2 \<le> n"
    then obtain n' where n: "n = Suc (Suc n')" by (cases n; cases "n - 1") auto
    have rp: "first_type (rp # r) = TOKEN_RPAREN" using returns by (simp add: first_type_def)
    obtain p1 where p1: "peekToken p = (lp, p1)" "clean p (lp # ts @ us @ rp # r) p1"
      using peek_step [of p] p(1) by auto
    obtain p2 where p2: "check TOKEN_LPAREN p1 = (True, p2)" "clean p (lp # ts @ us @ rp # r) p2"
      using check_step [of TOKEN_LPAREN p1] p1(2) returns.hyps by (auto simp: clean_def next_type_def)
    obtain p3 where p3: "p_advance p2 = (lp, p3)" "clean p (ts @ us @ rp # r) p3"
      using advance_step [of p2 lp "ts @ us @ rp # r"] p2(2) returns.hyps by (auto simp: clean_def)
    have "fits k (first_type (us @ rp # r))" using comma_first [OF returns.hyps(3) rp] by (rule fits_list)
    then obtain p4 where p4: "parseType n' p3 = Some (t, p4)" "clean p3 (us @ rp # r) p4"
      using returns.IH(1) p3 p n
      by (auto simp: clean_def elim: readsD [where p = p3 and r = "us @ rp # r" and n = n'])
    obtain p5 where p5: "moreReturns n' p4 = Some (as, p5)" "clean p4 (rp # r) p5"
      using returns.IH(2) [THEN conjunct2] by (rule readsD [where p = p4 and r = "rp # r" and n = n'])
        (use p4 p3 p n rp in \<open>auto simp: clean_def\<close>)
    have e: "\<exists>p6. expect TOKEN_RPAREN m p5 = p6 \<and> clean p5 r p6" for m
      using consume_step [of p5 rp r TOKEN_RPAREN m] p5(2) returns.hyps by (auto simp: clean_def)
    have "\<not> noReturns (Type lp)" using returns.hyps(1) by (simp add: noReturns_def)
    with p1 p2 p3 p4 p5 e n show "\<exists>q. parseReturns n p = Some (t # as, q) \<and> clean p r q"
      by (auto simp: clean_def parseReturnList_more)
  qed
qed

section \<open>What the parser accepts is in the grammar\<close>

text \<open>\<open>accepts p p' Q\<close>: errors are only added, and if none is, the tokens consumed satisfy \<open>Q\<close>.\<close>

definition accepts :: "parser \<Rightarrow> parser \<Rightarrow> (token list \<Rightarrow> bool) \<Rightarrow> bool" where
  "accepts p p' Q \<longleftrightarrow> prefix (perrors p) (perrors p') \<and>
     (perrors p' = perrors p \<longrightarrow> (\<exists>ts. view p = ts @ view p' \<and> Q ts))"

lemma accepts_trans:
  assumes "accepts p q Q1" "accepts q r Q2"
    and "\<And>a b. view p = a @ b @ view r \<Longrightarrow> view q = b @ view r \<Longrightarrow> Q1 a \<Longrightarrow> Q2 b \<Longrightarrow> Q (a @ b)"
  shows "accepts p r Q"
proof -
  have pre: "prefix (perrors p) (perrors q)" "prefix (perrors q) (perrors r)"
    using assms by (auto simp: accepts_def)
  have "\<exists>ts. view p = ts @ view r \<and> Q ts" if e: "perrors r = perrors p"
  proof -
    have "perrors q = perrors p" using pre e by (simp add: prefix_order.antisym)
    then obtain a b where "view p = a @ view q" "Q1 a" "view q = b @ view r" "Q2 b"
      using assms(1,2) e by (auto simp: accepts_def)
    then show ?thesis using assms(3) [of a b] by auto
  qed
  moreover have "prefix (perrors p) (perrors r)" using pre prefix_order.trans by blast
  ultimately show ?thesis by (simp add: accepts_def)
qed

lemma accepts_mono: "accepts p q Q \<Longrightarrow> (\<And>ts. view p = ts @ view q \<Longrightarrow> Q ts \<Longrightarrow> Q' ts) \<Longrightarrow> accepts p q Q'"
  by (auto simp: accepts_def)

lemma accepts_clean: "clean p (view p) q \<Longrightarrow> Q [] \<Longrightarrow> accepts p q Q"
  by (auto simp: accepts_def clean_def)

lemma accepts_error: "view q = view p \<Longrightarrow> perrors q = perrors p @ [e] \<Longrightarrow> accepts p q Q"
  by (auto simp: accepts_def)

lemma accepts_consume:
  assumes "tt \<noteq> TOKEN_EOF"
  shows "accepts p (snd (consume tt m p))
    (\<lambda>ts. ts = [fst (consume tt m p)] \<and> Type (fst (consume tt m p)) = tt \<and> next_type p = tt)"
proof (cases "next_type p = tt")
  case True
  then obtain x xs where x: "view p = x # xs" "Type x = tt"
    using assms by (auto simp: next_type_def split: list.splits)
  then show ?thesis using consume_match [OF True assms, of m] True by (simp add: accepts_def)
next
  case False
  then show ?thesis
    by (intro accepts_error) (simp_all add: consume_def case_prod_beta Let_def, simp_all add: p_error_def)
qed

lemma accepts_expect:
  assumes "tt \<noteq> TOKEN_EOF"
  shows "accepts p (expect tt m p) (\<lambda>ts. \<exists>x. ts = [x] \<and> Type x = tt \<and> next_type p = tt)"
  by (rule accepts_mono [OF accepts_consume [OF assms]]) blast

lemma accepts_advance:
  assumes "next_type p \<noteq> TOKEN_EOF"
  shows "accepts p (snd (p_advance p)) (\<lambda>ts. ts = [fst (p_advance p)] \<and> Type (fst (p_advance p)) = next_type p)"
  using p_advance_view [OF assms] by (cases "view p") (auto simp: accepts_def next_type_def)

lemma accepts_peek: "accepts (snd (peekToken p)) q Q \<Longrightarrow> accepts p q Q"
  by (simp add: accepts_def)

lemma accepts_named:
  assumes "next_type p = TOKEN_IDENTIFIER"
  shows "accepts p (snd (parseNamedType p))
    (\<lambda>ts. \<exists>k. type_syntax ts (fst (parseNamedType p)) k \<and> fits k (next_type (snd (parseNamedType p))))"
proof -
  let ?i = "fst (p_advance p)" and ?p1 = "snd (p_advance p)"
  let ?p2 = "snd (peekToken ?p1)"
  have a: "accepts p ?p1 (\<lambda>ts. ts = [?i] \<and> Type ?i = TOKEN_IDENTIFIER)"
    using accepts_advance [of p] assms by simp
  show ?thesis
  proof (cases "Lexeme ?i \<in> set primitive_names")
    case True
    then have e: "parseNamedType p = (PrimitiveType ?i (Lexeme ?i), ?p1)"
      by (simp add: parseNamedType_def case_prod_beta)
    show ?thesis unfolding e fst_conv snd_conv
      by (rule accepts_mono [OF a]) (use True type_syntax_param_syntax_comma_syntax_return_syntax.primitive fits.simps(1) in blast)
  next
    case False
    show ?thesis
    proof (cases "next_type ?p1 = TOKEN_DOT")
      case dot: True
      let ?p3 = "snd (p_advance ?p2)"
      let ?c = "consume TOKEN_IDENTIFIER msgTypeName ?p3"
      have e: "parseNamedType p = (NamedType ?i (Lexeme ?i @ ''.'' @ Lexeme (fst ?c)), snd ?c)"
        using False dot by (simp add: parseNamedType_def case_prod_beta Let_def)
      have d: "accepts ?p1 ?p3 (\<lambda>ts. \<exists>d. ts = [d] \<and> Type d = TOKEN_DOT)"
      proof (rule accepts_peek, rule accepts_mono [OF accepts_advance])
        show "next_type ?p2 \<noteq> TOKEN_EOF" using dot by simp
      qed (use dot in simp)
      have j: "accepts ?p3 (snd ?c) (\<lambda>ts. ts = [fst ?c] \<and> Type (fst ?c) = TOKEN_IDENTIFIER)"
        by (rule accepts_mono [OF accepts_consume [of TOKEN_IDENTIFIER]]) (simp, blast)
      have dj: "accepts ?p1 (snd ?c) (\<lambda>ts. \<exists>d. ts = [d, fst ?c] \<and> Type d = TOKEN_DOT \<and>
          Type (fst ?c) = TOKEN_IDENTIFIER)"
        by (rule accepts_trans [OF d j]) auto
      show ?thesis unfolding e fst_conv snd_conv
        by (rule accepts_trans [OF a dj])
          (use False type_syntax_param_syntax_comma_syntax_return_syntax.dotted_name in fastforce)
    next
      case nd: False
      then have e: "parseNamedType p = (NamedType ?i (Lexeme ?i), ?p2)"
        using False by (simp add: parseNamedType_def case_prod_beta Let_def)
      have "accepts p ?p2 (\<lambda>ts. ts = [?i] \<and> Type ?i = TOKEN_IDENTIFIER)"
        using a by (simp add: accepts_def)
      then show ?thesis unfolding e fst_conv snd_conv
        by (rule accepts_mono) (use False nd type_syntax_param_syntax_comma_syntax_return_syntax.named in fastforce)
    qed
  qed
qed

abbreviation peeked :: "parser \<Rightarrow> parser" where "peeked p \<equiv> snd (peekToken p)"
abbreviation taken :: "parser \<Rightarrow> token" where "taken p \<equiv> fst (p_advance (peeked p))"
abbreviation after :: "parser \<Rightarrow> parser" where "after p \<equiv> snd (p_advance (peeked p))"

lemma accepts_head:
  assumes "next_type p \<noteq> TOKEN_EOF"
  shows "accepts p (after p) (\<lambda>ts. ts = [taken p] \<and> Type (taken p) = next_type p)"
proof (rule accepts_peek, rule accepts_mono [OF accepts_advance])
  show "next_type (peeked p) \<noteq> TOKEN_EOF" using assms by simp
qed simp

lemma accepts_wrap1:
  assumes "next_type p = tt" "tt \<noteq> TOKEN_EOF" "accepts (after p) p' Q"
  shows "accepts p p' (\<lambda>ts. \<exists>us. ts = taken p # us \<and> Type (taken p) = tt \<and> Q us)"
proof (rule accepts_trans [OF accepts_head assms(3)])
  show "next_type p \<noteq> TOKEN_EOF" using assms by simp
qed (use assms(1) in simp)

lemma accepts_wrap2:
  assumes "next_type p = tt" "tt \<noteq> TOKEN_EOF" "ss \<noteq> TOKEN_EOF" "accepts (expect ss m (after p)) p' Q"
  shows "accepts p p' (\<lambda>ts. \<exists>x us. ts = taken p # x # us \<and> Type (taken p) = tt \<and> Type x = ss \<and> Q us)"
proof -
  have "accepts (after p) p' (\<lambda>ts. \<exists>x us. ts = x # us \<and> Type x = ss \<and> Q us)"
    by (rule accepts_trans [OF accepts_expect [OF assms(3)] assms(4)]) auto
  from accepts_wrap1 [OF assms(1,2) this] show ?thesis by (rule accepts_mono) blast
qed

text \<open>Two parts with an expected token between them.\<close>

lemma accepts_between:
  assumes "accepts p q Q1" "tt \<noteq> TOKEN_EOF" "accepts (expect tt m q) p' Q2"
  shows "accepts p p' (\<lambda>ts. \<exists>us x vs. ts = us @ x # vs \<and> Type x = tt \<and> next_type q = tt \<and> Q1 us \<and> Q2 vs)"
proof -
  have "accepts q p' (\<lambda>ts. \<exists>x vs. ts = x # vs \<and> Type x = tt \<and> next_type q = tt \<and> Q2 vs)"
    by (rule accepts_trans [OF accepts_expect [OF assms(2)] assms(3)]) auto
  then show ?thesis by (rule accepts_trans [OF assms(1)]) blast
qed

definition type_ok :: "TypeAnnotation \<Rightarrow> parser \<Rightarrow> token list \<Rightarrow> bool" where
  "type_ok t p' ts \<longleftrightarrow> (\<exists>k. type_syntax ts t k \<and> fits k (next_type p'))"

definition return_ok :: "TypeAnnotation list \<Rightarrow> parser \<Rightarrow> token list \<Rightarrow> bool" where
  "return_ok rs p' ts \<longleftrightarrow> (\<exists>k. return_syntax ts rs k \<and> fits k (next_type p'))"

definition list_ok :: "TypeAnnotation list \<Rightarrow> token list \<Rightarrow> bool" where
  "list_ok as ts \<longleftrightarrow> (\<exists>t as' us vs k. as = t # as' \<and> ts = us @ vs \<and> type_syntax us t k \<and> comma_syntax vs as')"

lemmas grammar = type_syntax_param_syntax_comma_syntax_return_syntax.intros

lemma map_ok:
  assumes "next_type p3 = tt" "type_ok k p3 us" "type_ok v p' vs" "Type m = TOKEN_MAP"
    "Type b = TOKEN_LBRACKET \<and> tt = TOKEN_RBRACKET \<or> Type b = TOKEN_OF \<and> tt = TOKEN_TO" "Type x = tt"
  shows "type_ok (MapType m k v) p' (m # b # us @ x # vs)"
proof -
  obtain i j where "type_syntax us k i" "fits i tt" "type_syntax vs v j" "fits j (next_type p')"
    using assms(1-3) by (auto simp: type_ok_def)
  then have "type_syntax (m # b # us @ x # vs) (MapType m k v) j"
    using assms(4-6) type_syntax_param_syntax_comma_syntax_return_syntax.bracket_map type_syntax_param_syntax_comma_syntax_return_syntax.map_of by metis
  with \<open>fits j (next_type p')\<close> show ?thesis unfolding type_ok_def by blast
qed

lemma map_ok_to:
  "next_type p3 = TOKEN_TO \<Longrightarrow> type_ok k p3 us \<Longrightarrow> type_ok v p' vs \<Longrightarrow> Type m = TOKEN_MAP \<Longrightarrow>
    Type b = TOKEN_OF \<Longrightarrow> Type x = TOKEN_TO \<Longrightarrow> type_ok (MapType m k v) p' (m # b # us @ x # vs)"
  by (rule map_ok) simp_all

lemma parseType_sound_step:
  assumes ty: "\<And>p t p'. parseType n p = Some (t, p') \<Longrightarrow> accepts p p' (type_ok t p')"
    and pa: "\<And>p ps p'. parseParams n p = Some (ps, p') \<Longrightarrow> accepts p p' (\<lambda>ts. param_syntax ts ps)"
    and re: "\<And>p rs p'. parseReturns n p = Some (rs, p') \<Longrightarrow> accepts p p' (return_ok rs p')"
    and p: "parseType (Suc n) p = Some (t, p')"
  shows "accepts p p' (type_ok t p')"
proof -
  consider (lb) "next_type p = TOKEN_LBRACKET"
    | (ref) tt where "next_type p = tt" "tt = TOKEN_REFERENCE \<or> tt = TOKEN_STAR"
    | (li) "next_type p = TOKEN_LIST" | (map) "next_type p = TOKEN_MAP"
    | (ch) "next_type p = TOKEN_CHANNEL" | (fu) "next_type p = TOKEN_FUNC"
    | (er) "next_type p = TOKEN_ERROR" | (id) "next_type p = TOKEN_IDENTIFIER"
    | (bad) "\<not> type_start (next_type p)"
    unfolding type_start_def by metis
  then show ?thesis
  proof cases
    case lb
    then obtain m e where e: "parseType n (expect TOKEN_RBRACKET m (after p)) = Some (e, p')" "t = ListType (taken p) e"
      using p by (auto simp: parseType.simps(2) case_prod_beta Let_def bind_eq_Some_conv)
    show ?thesis
      by (rule accepts_mono [OF accepts_wrap2 [OF lb _ _ ty [OF e(1)]]])
        (auto simp: e(2) type_ok_def intro: grammar)
  next
    case ref
    then obtain e where e: "parseType n (after p) = Some (e, p')" "t = ReferenceType (taken p) e"
      using p by (auto simp: parseType.simps(2) case_prod_beta Let_def bind_eq_Some_conv)
    show ?thesis
      by (rule accepts_mono [OF accepts_wrap1 [OF ref(1) _ ty [OF e(1)]]])
        (use ref(2) in \<open>auto simp: e(2) type_ok_def intro: grammar\<close>)
  next
    case li
    then obtain m e where e: "parseType n (expect TOKEN_OF m (after p)) = Some (e, p')" "t = ListType (taken p) e"
      using p by (auto simp: parseType.simps(2) case_prod_beta Let_def bind_eq_Some_conv)
    show ?thesis
      by (rule accepts_mono [OF accepts_wrap2 [OF li _ _ ty [OF e(1)]]])
        (auto simp: e(2) type_ok_def intro: grammar)
  next
    case ch
    then obtain m e where e: "parseType n (expect TOKEN_OF m (after p)) = Some (e, p')" "t = ChannelType (taken p) e"
      using p by (auto simp: parseType.simps(2) case_prod_beta Let_def bind_eq_Some_conv)
    show ?thesis
      by (rule accepts_mono [OF accepts_wrap2 [OF ch _ _ ty [OF e(1)]]])
        (auto simp: e(2) type_ok_def intro: grammar)
  next
    case fu
    then obtain m m' ps p3 rs where e: "parseParams n (expect TOKEN_LPAREN m (after p)) = Some (ps, p3)"
        "parseReturns n (expect TOKEN_RPAREN m' p3) = Some (rs, p')" "t = FunctionType (taken p) ps rs"
      using p by (auto simp: parseType.simps(2) case_prod_beta Let_def bind_eq_Some_conv)
    show ?thesis
      by (rule accepts_mono [OF accepts_wrap2 [OF fu _ _ accepts_between [OF pa [OF e(1)] _ re [OF e(2)]]]])
        (auto simp: e(3) type_ok_def return_ok_def intro: grammar)
  next
    case er
    then have e: "p' = after p" "t = NamedType (taken p) ''error''"
      using p by (auto simp: parseType.simps(2) case_prod_beta Let_def)
    have "accepts p p' (\<lambda>ts. ts = [taken p] \<and> Type (taken p) = TOKEN_ERROR)"
      using accepts_head [of p] er unfolding e by simp
    then show ?thesis
      by (rule accepts_mono) (auto simp: e(2) type_ok_def intro!: exI [of _ Closed]
            type_syntax_param_syntax_comma_syntax_return_syntax.error_name)
  next
    case id
    then have eq: "parseNamedType (peeked p) = (t, p')"
      using p by (auto simp: parseType.simps(2) case_prod_beta Let_def)
    have "next_type (peeked p) = TOKEN_IDENTIFIER" using id by simp
    note accepts_named [OF this, unfolded eq fst_conv snd_conv]
    then have "accepts (peeked p) p' (type_ok t p')"
      by (rule accepts_mono) (simp only: type_ok_def)
    then show ?thesis by (rule accepts_peek)
  next
    case bad
    then have "p' = snd (badType (peeked p))"
      using p by (auto simp: parseType.simps(2) case_prod_beta Let_def type_start_def)
    then show ?thesis
      by (intro accepts_error) (simp_all add: badType_def case_prod_beta Let_def, simp_all add: p_error_def)
  next
    case map
    let ?c = "snd (check TOKEN_LBRACKET (after p))"
    show ?thesis
    proof (cases "next_type (after p) = TOKEN_LBRACKET")
      case True
      then obtain m k p3 v where e: "parseType n (snd (p_advance ?c)) = Some (k, p3)"
          "parseType n (expect TOKEN_RBRACKET m p3) = Some (v, p')" "t = MapType (taken p) k v"
        using p map by (auto simp: parseType.simps(2) case_prod_beta Let_def bind_eq_Some_conv)
      have "accepts ?c (snd (p_advance ?c)) (\<lambda>ts. \<exists>b. ts = [b] \<and> Type b = TOKEN_LBRACKET)"
        by (rule accepts_mono [OF accepts_advance]) (use True in simp_all)
      then have "accepts (after p) (snd (p_advance ?c)) (\<lambda>ts. \<exists>b. ts = [b] \<and> Type b = TOKEN_LBRACKET)"
        by (simp add: accepts_def)
      from accepts_trans [OF this accepts_between [OF ty [OF e(1)] _ ty [OF e(2)]],
          where Q = "\<lambda>ts. \<exists>b us x vs. ts = b # us @ x # vs \<and> Type b = TOKEN_LBRACKET \<and>
            Type x = TOKEN_RBRACKET \<and> next_type p3 = TOKEN_RBRACKET \<and> type_ok k p3 us \<and> type_ok v p' vs"]
      have "accepts (after p) p' (\<lambda>ts. \<exists>b us x vs. ts = b # us @ x # vs \<and> Type b = TOKEN_LBRACKET \<and>
            Type x = TOKEN_RBRACKET \<and> next_type p3 = TOKEN_RBRACKET \<and> type_ok k p3 us \<and> type_ok v p' vs)"
        by force
      from accepts_wrap1 [OF map _ this] show ?thesis
        by (rule accepts_mono)
          (simp, use map_ok [of p3 TOKEN_RBRACKET k _ v p' _ "taken p"] e(3) in blast)
    next
      case False
      then obtain m m' k p3 v where e: "parseType n (expect TOKEN_OF m ?c) = Some (k, p3)"
          "parseType n (expect TOKEN_TO m' p3) = Some (v, p')" "t = MapType (taken p) k v"
        using p map by (auto simp: parseType.simps(2) case_prod_beta Let_def bind_eq_Some_conv)
      have "accepts ?c (expect TOKEN_OF m ?c) (\<lambda>ts. \<exists>b. ts = [b] \<and> Type b = TOKEN_OF)"
        by (rule accepts_mono [OF accepts_expect]) auto
      then have "accepts (after p) (expect TOKEN_OF m ?c) (\<lambda>ts. \<exists>b. ts = [b] \<and> Type b = TOKEN_OF)"
        by (simp add: accepts_def)
      from accepts_trans [OF this accepts_between [OF ty [OF e(1)] _ ty [OF e(2)]],
          where Q = "\<lambda>ts. \<exists>b us x vs. ts = b # us @ x # vs \<and> Type b = TOKEN_OF \<and>
            Type x = TOKEN_TO \<and> next_type p3 = TOKEN_TO \<and> type_ok k p3 us \<and> type_ok v p' vs"]
      have "accepts (after p) p' (\<lambda>ts. \<exists>b us x vs. ts = b # us @ x # vs \<and> Type b = TOKEN_OF \<and>
            Type x = TOKEN_TO \<and> next_type p3 = TOKEN_TO \<and> type_ok k p3 us \<and> type_ok v p' vs)"
        by force
      from accepts_wrap1 [OF map _ this] show ?thesis
        by (rule accepts_mono)
          (simp, use map_ok_to [of p3 k _ v p' _ "taken p"] e(3) in blast)
    qed
  qed
qed

lemma accepts_comma:
  assumes "accepts q p1 (type_ok a p1)" "accepts p1 p' (\<lambda>ts. comma_syntax ts as)"
    "accepts p q (\<lambda>ts. \<exists>c. ts = [c] \<and> Type c = TOKEN_COMMA)"
  shows "accepts p p' (\<lambda>ts. comma_syntax ts (a # as))"
proof -
  have "accepts q p' (\<lambda>ts. \<exists>us vs k. ts = us @ vs \<and> type_syntax us a k \<and> comma_syntax vs as)"
    by (rule accepts_trans [OF assms(1,2)]) (auto simp: type_ok_def)
  then show ?thesis
    by (rule accepts_trans [OF assms(3)]) (auto intro: grammar)
qed

lemma accepts_list:
  assumes "accepts p q (type_ok a q)" "accepts q p' (\<lambda>ts. comma_syntax ts as)"
  shows "accepts p p' (list_ok (a # as))"
  by (rule accepts_trans [OF assms]) (auto simp: list_ok_def type_ok_def)

lemma accepts_match_comma:
  assumes "next_type p = TOKEN_COMMA"
  shows "accepts p (snd (match_types [TOKEN_COMMA] p)) (\<lambda>ts. \<exists>c. ts = [c] \<and> Type c = TOKEN_COMMA)"
proof -
  obtain c cs where "view p = c # cs" "Type c = TOKEN_COMMA"
    using assms by (auto simp: next_type_def split: list.splits)
  then show ?thesis using match_one_simps [of TOKEN_COMMA p] assms by (simp add: accepts_def)
qed

lemma parse_sound:
  "(\<forall>p t p'. parseType n p = Some (t, p') \<longrightarrow> accepts p p' (type_ok t p')) \<and>
   (\<forall>p ps p'. parseParams n p = Some (ps, p') \<longrightarrow> accepts p p' (\<lambda>ts. param_syntax ts ps)) \<and>
   (\<forall>p as p'. parseCommaTypes n p = Some (as, p') \<longrightarrow> accepts p p' (\<lambda>ts. comma_syntax ts as)) \<and>
   (\<forall>p rs p'. parseReturns n p = Some (rs, p') \<longrightarrow> accepts p p' (return_ok rs p')) \<and>
   (\<forall>p rs p'. parseReturnList n p = Some (rs, p') \<longrightarrow> accepts p p' (list_ok rs)) \<and>
   (\<forall>p as p'. moreReturns n p = Some (as, p') \<longrightarrow> accepts p p' (\<lambda>ts. comma_syntax ts as))"
proof (induction n)
  case 0
  have "accepts p p' (\<lambda>ts. comma_syntax ts as)" if "moreReturns 0 p = Some (as, p')" for p as p'
  proof -
    have "as = []" "p' = snd (match_types [TOKEN_COMMA] p)" "next_type p \<noteq> TOKEN_COMMA"
      using that by (auto simp: moreReturns_def case_prod_beta match_one_simps split: if_splits)
    then show ?thesis
      by (auto simp: accepts_def match_one_simps intro: grammar)
  qed
  then show ?case by simp
next
  case (Suc n)
  have ty: "parseType n p = Some (t, p') \<Longrightarrow> accepts p p' (type_ok t p')" for p t p'
    using Suc by blast
  have pa: "parseParams n p = Some (ps, p') \<Longrightarrow> accepts p p' (\<lambda>ts. param_syntax ts ps)" for p ps p'
    using Suc by blast
  have co: "parseCommaTypes n p = Some (as, p') \<Longrightarrow> accepts p p' (\<lambda>ts. comma_syntax ts as)" for p as p'
    using Suc by blast
  have re: "parseReturns n p = Some (rs, p') \<Longrightarrow> accepts p p' (return_ok rs p')" for p rs p'
    using Suc by blast
  have rl: "parseReturnList n p = Some (rs, p') \<Longrightarrow> accepts p p' (list_ok rs)" for p rs p'
    using Suc by blast
  have mo: "moreReturns n p = Some (as, p') \<Longrightarrow> accepts p p' (\<lambda>ts. comma_syntax ts as)" for p as p'
    using Suc by blast
  have rl': "accepts p p' (list_ok rs)" if r: "parseReturnList (Suc n) p = Some (rs, p')" for p rs p'
  proof -
    obtain a p1 as where e: "parseType n p = Some (a, p1)" "moreReturns n p1 = Some (as, p')" "rs = a # as"
      using r by (auto simp: parseReturnList_more bind_eq_Some_conv)
    show ?thesis unfolding e(3) by (rule accepts_list [OF ty [OF e(1)] mo [OF e(2)]])
  qed
  show ?case
  proof (intro conjI allI impI)
    fix p t p' assume "parseType (Suc n) p = Some (t, p')"
    with ty pa re show "accepts p p' (type_ok t p')" by (rule parseType_sound_step)
  next
    fix p ps p' assume p: "parseParams (Suc n) p = Some (ps, p')"
    show "accepts p p' (\<lambda>ts. param_syntax ts ps)"
    proof (cases "next_type p = TOKEN_RPAREN")
      case True
      then show ?thesis using p by (auto simp: case_prod_beta accepts_def intro: grammar)
    next
      case False
      then obtain a p1 as where e: "parseType n (peeked p) = Some (a, p1)"
          "parseCommaTypes n p1 = Some (as, p')" "ps = a # as"
        using p by (auto simp: case_prod_beta bind_eq_Some_conv)
      show ?thesis unfolding e(3)
        by (rule accepts_mono [OF accepts_peek [OF accepts_list [OF ty [OF e(1)] co [OF e(2)]]]])
          (auto simp: list_ok_def intro: grammar)
    qed
  next
    fix p as p' assume p: "parseCommaTypes (Suc n) p = Some (as, p')"
    show "accepts p p' (\<lambda>ts. comma_syntax ts as)"
    proof (cases "next_type p = TOKEN_COMMA")
      case True
      then obtain a p1 as' where e: "parseType n (after p) = Some (a, p1)"
          "parseCommaTypes n p1 = Some (as', p')" "as = a # as'"
        using p by (auto simp: case_prod_beta bind_eq_Some_conv)
      have "accepts p (after p) (\<lambda>ts. \<exists>c. ts = [c] \<and> Type c = TOKEN_COMMA)"
        by (rule accepts_mono [OF accepts_head]) (use True in auto)
      then show ?thesis unfolding e(3) by (rule accepts_comma [OF ty [OF e(1)] co [OF e(2)]])
    next
      case False
      then show ?thesis using p by (auto simp: case_prod_beta accepts_def intro: grammar)
    qed
  next
    fix p rs p' assume p: "parseReturns (Suc n) p = Some (rs, p')"
    let ?c = "snd (check TOKEN_LPAREN (peeked p))"
    consider (no) "noReturns (next_type p)" | (many) "next_type p = TOKEN_LPAREN"
      | (one) "\<not> noReturns (next_type p)" "next_type p \<noteq> TOKEN_LPAREN" by blast
    then show "accepts p p' (return_ok rs p')"
    proof cases
      case no
      then have "rs = []" "p' = peeked p" using p by (auto simp: case_prod_beta)
      moreover have "return_ok [] (peeked p) []"
        using no by (auto simp: return_ok_def intro!: exI [of _ NoResult] grammar)
      ultimately show ?thesis by (simp add: accepts_def)
    next
      case many
      then have "\<not> noReturns (next_type p)" by (simp add: noReturns_def)
      then obtain m p2 where e: "parseReturnList n (snd (p_advance ?c)) = Some (rs, p2)"
          "p' = expect TOKEN_RPAREN m p2"
        using p many by (auto simp: case_prod_beta bind_eq_Some_conv)
      have "accepts ?c (snd (p_advance ?c)) (\<lambda>ts. \<exists>b. ts = [b] \<and> Type b = TOKEN_LPAREN)"
        by (rule accepts_mono [OF accepts_advance]) (use many in simp_all)
      then have a: "accepts p (snd (p_advance ?c)) (\<lambda>ts. \<exists>b. ts = [b] \<and> Type b = TOKEN_LPAREN)"
        by (simp add: accepts_def)
      have "accepts p2 p' (\<lambda>ts. \<exists>x. ts = [x] \<and> Type x = TOKEN_RPAREN)"
        unfolding e(2) by (rule accepts_mono [OF accepts_expect]) auto
      from accepts_trans [OF rl [OF e(1)] this, where Q = "\<lambda>ts. \<exists>us x. ts = us @ [x] \<and> list_ok rs us \<and> Type x = TOKEN_RPAREN"]
      have b: "accepts (snd (p_advance ?c)) p' (\<lambda>ts. \<exists>us x. ts = us @ [x] \<and> list_ok rs us \<and> Type x = TOKEN_RPAREN)"
        by blast
      show ?thesis
      proof (rule accepts_trans [OF a b])
        fix x y :: "token list" assume "\<exists>b. x = [b] \<and> Type b = TOKEN_LPAREN"
          "\<exists>us x. y = us @ [x] \<and> list_ok rs us \<and> Type x = TOKEN_RPAREN"
        then obtain lp us rp t as vs ws k where "x = [lp]" "Type lp = TOKEN_LPAREN" "y = (vs @ ws) @ [rp]"
            "Type rp = TOKEN_RPAREN" "rs = t # as" "type_syntax vs t k" "comma_syntax ws as"
          by (auto simp: list_ok_def)
        then have "return_syntax (x @ y) rs Closed"
          using type_syntax_param_syntax_comma_syntax_return_syntax.returns [of lp vs t k ws as rp] by simp
        then show "return_ok rs p' (x @ y)" unfolding return_ok_def using fits.simps(1) by blast
      qed
    next
      case one
      then obtain r where e: "parseType n ?c = Some (r, p')" "rs = [r]"
        using p by (auto simp: case_prod_beta bind_eq_Some_conv)
      have "accepts p p' (type_ok r p')" using ty [OF e(1)] by (simp add: accepts_def)
      then show ?thesis unfolding e(2)
        by (rule accepts_mono) (auto simp: type_ok_def return_ok_def intro: grammar)
    qed
  next
    fix p rs p' assume "parseReturnList (Suc n) p = Some (rs, p')"
    then show "accepts p p' (list_ok rs)" by (rule rl')
  next
    fix p as p' assume m: "moreReturns (Suc n) p = Some (as, p')"
    show "accepts p p' (\<lambda>ts. comma_syntax ts as)"
    proof (cases "next_type p = TOKEN_COMMA")
      case True
      then have "parseReturnList (Suc n) (snd (match_types [TOKEN_COMMA] p)) = Some (as, p')"
        using m by (simp add: moreReturns_def case_prod_beta match_one_simps)
      then obtain a p1 as' where e: "parseType n (snd (match_types [TOKEN_COMMA] p)) = Some (a, p1)"
          "moreReturns n p1 = Some (as', p')" "as = a # as'"
        by (auto simp: parseReturnList_more bind_eq_Some_conv)
      show ?thesis unfolding e(3)
        by (rule accepts_comma [OF ty [OF e(1)] mo [OF e(2)] accepts_match_comma [OF True]])
    next
      case False
      then have "as = []" "p' = snd (match_types [TOKEN_COMMA] p)"
        using m by (auto simp: moreReturns_def case_prod_beta match_one_simps)
      then show ?thesis using False by (auto simp: accepts_def match_one_simps intro: grammar)
    qed
  qed
qed

end
