(* ===== verification/LexerInvariant.thy ===== *)
theory LexerInvariant
  imports LexerLoop
begin

text \<open>
  The induction principle of the lexer, as an interface. Every method of \<^verbatim>\<open>Lexer\<close> is built from
  a handful of state changes: those that touch neither the token list nor the layout stacks
  (a \<^emph>\<open>frame\<close> step), appending an ordinary token, opening and closing an indentation level,
  and opening and closing a brace. A predicate that these changes keep is kept by every
  scanner, by \<^verbatim>\<open>scanToken\<close> and by the whole loop of \<^verbatim>\<open>ScanTokens\<close>. The components that
  state an invariant interpret the locale and get the whole lexer from it.
\<close>

section \<open>Frame steps\<close>

definition lframe :: "lexer \<Rightarrow> lexer \<Rightarrow> bool" where
  "lframe l l' \<longleftrightarrow>
     tokens l' = tokens l \<and> indentStack l' = indentStack l \<and>
     closureIndentStack l' = closureIndentStack l \<and>
     closureParenDepthStack l' = closureParenDepthStack l \<and>
     braceStack l' = braceStack l \<and> braceBlockDepth l' = braceBlockDepth l \<and>
     filename l' = filename l \<and> line l \<le> line l' \<and>
     (0 \<le> parenDepth l \<longrightarrow> 0 \<le> parenDepth l') \<and> (0 \<le> braceDepth l \<longrightarrow> 0 \<le> braceDepth l')"

lemma lframe_refl [simp]: "lframe l l"
  by (simp add: lframe_def)

lemma lframe_trans: "lframe l l1 \<Longrightarrow> lframe l1 l2 \<Longrightarrow> lframe l l2"
  by (auto simp: lframe_def)

lemma lframe_skip [lexer_frame, simp]: "lframe l (skip l)"
  by (simp add: lframe_def skip_def advance_def)

lemma lframe_lexError [lexer_frame, simp]: "lframe l (lexError e l)"
  by (simp add: lframe_def lexError_def)

lemma lframe_newline_pos [lexer_frame, simp]: "lframe l (newline_pos l)"
  by (simp add: lframe_def newline_pos_def)

lemma lframe_pushInterp [lexer_frame, simp]: "lframe l (pushInterp q l)"
  by (simp add: lframe_def pushInterp_def)

lemma lframe_skip_counting [lexer_frame, simp]: "lframe l (skip_counting l)"
  by (auto simp: skip_counting_def intro: lframe_trans [OF lframe_skip])

lemma lframe_addInterpBrace [lexer_frame, simp]: "lframe l (addInterpBrace d l)"
  by (simp add: lframe_def addInterpBrace_def)

lemma lframe_decBraceDepth [lexer_frame, simp]: "lframe l (decBraceDepth l)"
  by (simp add: lframe_def decBraceDepth_def)

lemma lframe_moveStart [lexer_frame, simp]: "lframe l (moveStart l)"
  by (simp add: lframe_def moveStart_def)

lemma lframe_advance_while [lexer_frame, simp]: "lframe l (advance_while P l)"
proof (induction P l rule: advance_while.induct)
  case (1 P l)
  then show ?case
    by (subst advance_while.simps) (auto intro: lframe_trans [OF lframe_skip])
qed

lemma lframe_countBlanks [lexer_frame]: "lframe l (snd (countBlanks s t l))"
proof (induction s t l rule: countBlanks.induct)
  case (1 s t l)
  then show ?case
    by (subst countBlanks.simps) (auto intro: lframe_trans [OF lframe_skip])
qed

lemma lframe_match_rune [lexer_frame]: "lframe l (snd (match_rune c l))"
  by (simp add: match_rune_def lframe_def)

lemma lframe_octal_digits [lexer_frame]: "lframe l (snd (octal_digits k oct l))"
  by (induction k oct l rule: octal_digits.induct) (auto intro: lframe_trans [OF lframe_skip])

lemma lframe_scanHexEscape [lexer_frame]: "lframe l (snd (scanHexEscape v l))"
  by (auto simp: scanHexEscape_def advance_eq Let_def split: option.splits
      intro: lframe_trans [OF lframe_skip])

lemma lframe_scanOctalEscape [lexer_frame]: "lframe l (snd (scanOctalEscape e v l))"
  using lframe_octal_digits [of l 2 "e - rn CHR ''0''"]
  by (auto simp: scanOctalEscape_def split: prod.splits intro: lframe_trans)

lemma lframe_scanStringEscape [lexer_frame]: "lframe l (snd (scanStringEscape v l))"
proof -
  let ?s = "skip (skip l)"
  have s: "lframe l ?s" by (meson lframe_skip lframe_trans)
  have "lframe l (snd (scanHexEscape v ?s))" "lframe l (snd (scanOctalEscape e v ?s))" for e
    using s lframe_scanHexEscape lframe_scanOctalEscape lframe_trans by blast+
  moreover have "lframe l (skip (skip ?s))" using s by (meson lframe_skip lframe_trans)
  ultimately show ?thesis using s by (simp add: scanStringEscape_def advance_eq Let_def)
qed

lemma lframe_readTriple: "lframe l (snd (readTriple raw l))"
proof (induction raw l rule: readTriple.induct)
  case (1 raw l)
  moreover have "lframe l (skip (skip (skip l)))" by (meson lframe_skip lframe_trans)
  ultimately show ?case
    by (subst readTriple.simps) (auto intro: lframe_trans [OF lframe_skip_counting])
qed

lemma lframe_readSingle: "lframe l (snd (readSingle raw l))"
proof (induction raw l rule: readSingle.induct)
  case (1 raw l)
  have "lframe l (skip (skip l))" by (meson lframe_skip lframe_trans)
  note this [THEN lframe_trans]
  with 1 show ?case
    by (subst readSingle.simps) (auto intro: lframe_trans [OF lframe_skip_counting])
qed

text \<open>A double-quoted string never crosses a line.\<close>

lemma line_addTokenWithLexeme [simp]: "line (addTokenWithLexeme tt s l) = line l"
  by (simp add: addTokenWithLexeme_def Let_def)

lemma line_skip [simp]: "line (skip l) = line l"
  by (simp add: skip_def advance_def)

lemma line_lexError [simp]: "line (lexError e l) = line l"
  by (simp add: lexError_def)

lemma line_octal_digits: "line (snd (octal_digits k oct l)) = line l"
  by (induction k oct l rule: octal_digits.induct) auto

lemma line_scanStringEscape [simp]: "line (snd (scanStringEscape v l)) = line l"
  using line_octal_digits [of 2 _ "skip (skip l)"]
  by (auto simp: scanStringEscape_def scanHexEscape_def scanOctalEscape_def advance_eq Let_def
      split: option.splits prod.splits) (metis snd_conv)+

lemma line_scanStringLoop: "line (scanStringLoop i e rune_dquote v l) = line l"
proof (induction i e rune_dquote v l rule: scanStringLoop.induct)
  case (1 i e v l)
  then show ?case
    by (subst scanStringLoop.simps) (simp add: pushInterp_def)
qed

section \<open>The interface\<close>

definition plain_type :: "token_type \<Rightarrow> bool" where
  "plain_type tt \<longleftrightarrow> tt \<noteq> TOKEN_INDENT \<and> tt \<noteq> TOKEN_DEDENT \<and> tt \<noteq> TOKEN_EOF"

lemma plain_keywords: "list_all (\<lambda>(k, t). plain_type t) keyword_table"
  by code_simp

lemma plain_LookupKeyword [simp]: "plain_type (LookupKeyword s)"
  using LookupKeyword_range [of s] plain_keywords
  by (auto simp: list_all_iff plain_type_def)

locale lexer_invariant =
  fixes I :: "lexer \<Rightarrow> bool"
  assumes frame: "I l \<Longrightarrow> lframe l l' \<Longrightarrow> I l'"
    and plain: "I l \<Longrightarrow> plain_type tt \<Longrightarrow> I (addTokenWithLexeme tt s l)"
    and indent: "I l \<Longrightarrow> last (indentStack l) < n \<Longrightarrow> n mod 4 = 0 \<Longrightarrow> I (openIndent n l)"
    and dedent: "I l \<Longrightarrow> length (indentStack l) > 1 \<Longrightarrow> I (popIndent l)"
    and open_block: "I l \<Longrightarrow>
      I (addToken TOKEN_INDENT (l\<lparr>braceStack := braceStack l @ [True],
            braceBlockDepth := braceBlockDepth l + 1, blockKeywordSeen := False\<rparr>))"
    and close_block: "I l \<Longrightarrow> braceStack l \<noteq> [] \<Longrightarrow> last (braceStack l) \<Longrightarrow>
      I (addToken TOKEN_DEDENT (l\<lparr>braceStack := butlast (braceStack l),
            braceBlockDepth := braceBlockDepth l - 1\<rparr>))"
    and open_brace: "I l \<Longrightarrow> I (l\<lparr>braceStack := braceStack l @ [False]\<rparr>)"
    and close_brace: "I l \<Longrightarrow> braceStack l \<noteq> [] \<Longrightarrow> \<not> last (braceStack l) \<Longrightarrow>
      I (l\<lparr>braceStack := butlast (braceStack l)\<rparr>)"
begin

lemma addToken: "I l \<Longrightarrow> plain_type tt \<Longrightarrow> I (addToken tt l)"
  by (simp add: addToken_def plain)

lemma scanStringLoop:
  "I l \<Longrightarrow> plain_type i \<Longrightarrow> plain_type e \<Longrightarrow> I (scanStringLoop i e q v l)"
proof (induction i e q v l rule: scanStringLoop.induct)
  case (1 i e q v l)
  have s: "I (skip l)" using 1(4) lframe_skip frame by blast
  have "I (newline_pos (skip l))" using s lframe_newline_pos frame by blast
  moreover have "I (snd (scanStringEscape v l))" using 1(4) lframe_scanStringEscape frame by blast
  moreover have "I (lexError x l)" "I (lexError x (skip l))" for x
    using 1(4) s lframe_lexError frame by blast+
  moreover have "I (pushInterp q (addTokenWithLexeme i v (skip l)))"
    using plain [OF s 1(5)] lframe_pushInterp frame by blast
  moreover have "I (addTokenWithLexeme e v (skip l))" by (rule plain [OF s 1(6)])
  ultimately show ?case
    using 1 s by (subst scanStringLoop.simps) simp
qed

lemma scanStringBody:
  "I l \<Longrightarrow> plain_type i \<Longrightarrow> plain_type e \<Longrightarrow> I (scanStringBody i e q l)"
  by (simp add: scanStringBody_def scanStringLoop)

lemma scanDelimited:
  assumes "I l0" "lframe l0 l"
  shows "I (scanDelimited (line l0) (raw, l))"
proof -
  let ?s = "dedentTripleQuote (go_string raw)" and ?l = "l\<lparr>line := line l0\<rparr>"
  let ?r = "scanStringFromContent ?s ?l"
  have "I ?l" using assms by (auto elim!: frame simp: lframe_def)
  then have "I (?l\<lparr>source := src\<rparr>)" for src by (auto elim!: frame simp: lframe_def)
  then have "I ?r" by (simp add: scanStringFromContent_def Let_def scanStringBody plain_type_def)
  moreover have "line ?r = line l0"
    by (simp add: scanStringFromContent_def scanStringBody_def Let_def
        line_scanStringLoop [simplified])
  then have "lframe ?r (?r\<lparr>line := line l, column := column l\<rparr>)"
    using assms by (simp add: lframe_def)
  ultimately show ?thesis by (auto simp: scanDelimited_def Let_def intro: frame)
qed

lemma scanTripleQuoteString: "I l \<Longrightarrow> I (scanTripleQuoteString l)"
  using scanDelimited [of l "snd (readTriple [] l)" "fst (readTriple [] l)"] lframe_readTriple
  by (simp add: scanTripleQuoteString_def)

lemma scanSingleQuoteString: "I l \<Longrightarrow> I (scanSingleQuoteString l)"
  using scanDelimited [of l "snd (readSingle [] l)" "fst (readSingle [] l)"] lframe_readSingle
  by (simp add: scanSingleQuoteString_def)

lemma skip: "I l \<Longrightarrow> I (skip l)"
  using frame lframe_skip by blast

lemma scanString: "I l \<Longrightarrow> I (scanString l)"
  by (simp add: scanString_def scanTripleQuoteString scanStringBody skip plain plain_type_def)

lemma scanRawLoop:
  "I l0 \<Longrightarrow> lframe l0 l \<Longrightarrow> n = line l0 \<Longrightarrow> I (scanRawLoop n v l)"
proof (induction n v l rule: scanRawLoop.induct)
  case (1 n v l)
  have s: "lframe l0 (skip l)" "lframe l0 (skip_counting l)" "lframe l0 (lexError x (skip l))" for x
    by (rule lframe_trans [OF 1(3)]; simp add: lframe_trans [OF lframe_skip])+
  then have "I (addTokenWithLexeme TOKEN_STRING_RAW v (skip l))"
    using plain [OF frame [OF 1(2) s(1)]] by (simp add: plain_type_def)
  moreover have "I (lexError x (l\<lparr>line := line l0\<rparr>))" for x
    using 1(3) by (intro frame [OF 1(2)]) (simp add: lframe_def lexError_def)
  moreover have "I (lexError x (skip l))" for x by (rule frame [OF 1(2) s(3)])
  moreover have "\<not> isAtEnd l \<Longrightarrow> peek l \<noteq> rune_backtick \<Longrightarrow> peek l \<noteq> 0 \<Longrightarrow>
      I (scanRawLoop n (v @ utf8_encode (peek l)) (skip_counting l))"
    using 1(1) [OF _ _ _ 1(2) s(2) 1(4)] by blast
  ultimately show ?case
    using 1(4) by (subst scanRawLoop.simps) (auto simp only: split: if_split)
qed

lemma scanRawString: "I l \<Longrightarrow> I (scanRawString l)"
  by (simp add: scanRawString_def scanRawLoop)

lemma frame_update:
  "I l \<Longrightarrow> I (l\<lparr>pendingClosureBlock := b\<rparr>)" "I l \<Longrightarrow> I (l\<lparr>continuationLine := b\<rparr>)"
  "I l \<Longrightarrow> I (l\<lparr>atLineStart := b\<rparr>)" "I l \<Longrightarrow> I (l\<lparr>indentationHandled := b\<rparr>)"
  "I l \<Longrightarrow> I (l\<lparr>inFunctionLiteral := b\<rparr>)" "I l \<Longrightarrow> I (l\<lparr>afterFatArrow := b\<rparr>)"
  "I l \<Longrightarrow> I (l\<lparr>start := n\<rparr>)" "I l \<Longrightarrow> I (l\<lparr>interpStack := st\<rparr>)" "I l \<Longrightarrow> I (l\<lparr>column := k\<rparr>)"
  "I l \<Longrightarrow> I (l\<lparr>line := line l + 1\<rparr>)" "I l \<Longrightarrow> I (l\<lparr>parenDepth := parenDepth l + 1\<rparr>)"
  "I l \<Longrightarrow> I (l\<lparr>braceDepth := braceDepth l + 1\<rparr>)"
  "I l \<Longrightarrow> parenDepth l > 0 \<Longrightarrow> I (l\<lparr>parenDepth := parenDepth l - 1\<rparr>)"
  by (erule frame; simp add: lframe_def)+

lemma frame_ops:
  "I l \<Longrightarrow> I (advance_while P l)" "I l \<Longrightarrow> I (lexError e l)" "I l \<Longrightarrow> I (addInterpBrace d l)"
  "I l \<Longrightarrow> I (decBraceDepth l)" "I l \<Longrightarrow> I (moveStart l)"
  by (erule frame; rule lexer_frame)+

lemma ifMatch:
  "(\<And>l. I l \<Longrightarrow> I (yes l)) \<Longrightarrow> (\<And>l. I l \<Longrightarrow> I (no l)) \<Longrightarrow> I l \<Longrightarrow> I (ifMatch c yes no l)"
  using frame [OF _ lframe_match_rune [of l "rn c"]]
  by (simp add: ifMatch_def case_prod_beta)

lemma scanOperator: "I l \<Longrightarrow> scanOperator c l = Some l' \<Longrightarrow> I l'"
  by (auto simp: scanOperator_def split: if_splits
      intro!: ifMatch addToken frame_update simp: plain_type_def)

lemma scanPrefixed: "I l \<Longrightarrow> I (scanPrefixed d e l)"
  by (simp add: scanPrefixed_def Let_def addToken frame_ops skip plain_type_def)

lemma scanNumber: "I l \<Longrightarrow> I (scanNumber l)"
  by (simp add: scanNumber_def scanDecimal_def Let_def addToken frame_ops skip scanPrefixed
      plain_type_def)

lemma scanIdentifier: "I l \<Longrightarrow> I (scanIdentifier l)"
proof -
  assume "I l"
  then have "I (addTokenWithLexeme (LookupKeyword s) s (advance_while isAlphaNumeric l))" for s
    by (simp add: plain frame_ops)
  then show ?thesis by (simp only: scanIdentifier_def Let_def frame_update split: if_split) blast
qed

lemma scanComment: "I l \<Longrightarrow> I (scanComment l)"
  by (simp add: scanComment_def Let_def addToken frame_ops plain_type_def)

lemma endLine:
  assumes "I l"
  shows "I (endLine l)"
proof -
  have "I (l\<lparr>afterFatArrow := False, inFunctionLiteral := False, line := line l + 1,
            column := 0, atLineStart := True, indentationHandled := False\<rparr>)" if "I l" for l
    using that by (rule frame) (simp add: lframe_def)
  then show ?thesis
    using assms by (simp add: endLine_def Let_def addToken frame_update plain_type_def)
qed

lemma scanOpenBrace: "I l \<Longrightarrow> I (scanOpenBrace l)"
proof -
  assume "I l"
  then have a: "I (addInterpBrace 1 l)" by (rule frame_ops)
  have "I (m\<lparr>braceStack := braceStack m @ [False], braceDepth := braceDepth m + 1\<rparr>)" if "I m" for m
    using open_brace [OF that] by (rule frame) (simp add: lframe_def)
  with open_block [OF a] a show ?thesis
    by (simp add: scanOpenBrace_def Let_def addToken plain_type_def)
qed

lemma scanCloseBrace: "I l \<Longrightarrow> I (scanCloseBrace l)"
proof -
  assume l: "I l"
  have "I (l\<lparr>interpStack := butlast (interpStack l), start := current l\<rparr>)"
    using l by (rule frame) (simp add: lframe_def)
  then have c: "I (scanStringContinuation q (l\<lparr>interpStack := butlast (interpStack l), start := current l\<rparr>))" for q
    by (simp add: scanStringContinuation_def scanStringBody plain_type_def)
  have a: "I (addInterpBrace (- 1) l)" using l by (rule frame_ops)
  show ?thesis
    using c a close_block [OF a] close_brace [OF a]
    by (simp add: scanCloseBrace_def Let_def addToken frame_ops plain_type_def)
qed

lemma dedentLoop: "I l \<Longrightarrow> I (dedentLoop n l)"
proof (induction n l rule: dedentLoop.induct)
  case (1 n l)
  then show ?case by (subst dedentLoop.simps) (auto intro: dedent [simplified])
qed

lemma closeIndent: "I l \<Longrightarrow> I (closeIndent n l)"
  by (simp add: closeIndent_def Let_def dedentLoop frame_ops)

lemma handleIndentation: "I l \<Longrightarrow> I (handleIndentation l)"
proof -
  assume "I l"
  then have "I (snd (countBlanks 0 0 l))" using frame lframe_countBlanks by blast
  then show ?thesis
    by (simp add: handleIndentation_def case_prod_beta Let_def frame_ops closeIndent indent)
qed

lemma scanSwitch: "I l \<Longrightarrow> I (scanSwitch c l)"
  using scanOperator [of l c]
  by (cases "scanOperator c l")
     (simp_all add: scanSwitch_def frame_ops endLine skip scanComment addToken scanString
      scanSingleQuoteString scanRawString frame_update scanOpenBrace scanCloseBrace
      scanNumber scanIdentifier plain_type_def)

lemma scanRune: "I l \<Longrightarrow> I (scanRune l)"
  by (simp add: scanRune_def advance_eq scanSwitch frame_update skip)

lemma prologue: "I l \<Longrightarrow> I (skipBraceBlockIndent (skipContinuationIndent l))"
  by (simp add: skipBraceBlockIndent_def skipContinuationIndent_def frame_ops frame_update)

lemma scanToken: "I l \<Longrightarrow> I (scanToken l)"
  using prologue [of l]
  by (simp add: scanToken_def Let_def scanRune frame_update handleIndentation)

theorem scanLoop: "I l \<Longrightarrow> I (scanLoop l)"
  using scanLoop_invariant [of I l] scanToken [OF frame_update(7)] by blast

end

end
