(* ===== verification/LexerCorrect.thy ===== *)
theory LexerCorrect
  imports LexerInvariant
begin

text \<open>
  The invariants of the lexer, each an interpretation of \<open>lexer_invariant\<close>: the layout
  stacks stay well formed and agree with the INDENT and DEDENT tokens emitted so far; the
  tokens come in line order, carry the file name, and none of them is an EOF before the end.
  The section on \<^verbatim>\<open>ScanTokens\<close> draws the consequences for the finished token list.
\<close>

section \<open>The layout stacks\<close>

definition closure_ok :: "lexer \<Rightarrow> bool" where
  "closure_ok l \<longleftrightarrow>
     length (closureIndentStack l) = length (closureParenDepthStack l) \<and>
     sorted_wrt (<) (closureIndentStack l) \<and>
     set (closureIndentStack l) \<subseteq> set (tl (indentStack l))"

definition indent_ok :: "lexer \<Rightarrow> bool" where
  "indent_ok l \<longleftrightarrow>
     indentStack l \<noteq> [] \<and> hd (indentStack l) = 0 \<and> sorted_wrt (<) (indentStack l) \<and>
     (\<forall>n\<in>set (indentStack l). n mod 4 = 0)"

definition brace_ok :: "lexer \<Rightarrow> bool" where
  "brace_ok l \<longleftrightarrow>
     braceBlockDepth l = int (count_list (braceStack l) True) \<and>
     0 \<le> braceDepth l \<and> 0 \<le> parenDepth l"

definition depth_ok :: "lexer \<Rightarrow> bool" where
  "depth_ok l \<longleftrightarrow>
     layout_depth 0 (tokens l) =
       Some (length (indentStack l) - 1 + count_list (braceStack l) True)"

definition layout_inv :: "lexer \<Rightarrow> bool" where
  "layout_inv l \<longleftrightarrow> indent_ok l \<and> closure_ok l \<and> brace_ok l \<and> depth_ok l"

lemma addTokenWithLexeme_fields [simp]:
  "tokens (addTokenWithLexeme tt s l) = tokens l @ [mkToken tt s l]"
  "closureIndentStack (addTokenWithLexeme tt s l) = closureIndentStack l"
  "closureParenDepthStack (addTokenWithLexeme tt s l) = closureParenDepthStack l"
  "braceStack (addTokenWithLexeme tt s l) = braceStack l"
  "braceBlockDepth (addTokenWithLexeme tt s l) = braceBlockDepth l"
  "braceDepth (addTokenWithLexeme tt s l) = braceDepth l"
  "parenDepth (addTokenWithLexeme tt s l) = parenDepth l"
  "filename (addTokenWithLexeme tt s l) = filename l"
  by (simp_all add: addTokenWithLexeme_def Let_def)

lemma Type_mkToken [simp]: "Type (mkToken tt s l) = tt" "Line (mkToken tt s l) = line l"
  "File (mkToken tt s l) = filename l"
  by (simp_all add: mkToken_def)

lemma count_list_snoc [simp]: "count_list (xs @ [x]) y = count_list xs y + (if x = y then 1 else 0)"
  by (induction xs) auto

lemma count_list_butlast:
  "xs \<noteq> [] \<Longrightarrow> count_list (butlast xs) y = count_list xs y - (if last xs = y then 1 else 0)"
  by (metis add_diff_cancel_right' append_butlast_last_id count_list_snoc)

lemma count_list_last_pos: "xs \<noteq> [] \<Longrightarrow> last xs = y \<Longrightarrow> 0 < count_list xs y"
  by (metis count_list_0_iff gr0I last_in_set)

lemmas layout_inv_defs = layout_inv_def indent_ok_def closure_ok_def brace_ok_def depth_ok_def

lemma layout_inv_indent:
  assumes "layout_inv l" "last (indentStack l) < n" "n mod 4 = 0"
  shows "layout_inv (openIndent n l)"
proof -
  have ne: "indentStack l \<noteq> []" using assms by (simp add: layout_inv_defs)
  have s: "sorted_wrt (<) (indentStack l @ [n])"
    using assms sorted_wrt_less_last [of "indentStack l"]
    by (fastforce simp: sorted_wrt_snoc layout_inv_defs)
  have "x < n" if "x \<in> set (closureIndentStack l)" for x
    using that assms s ne by (fastforce simp: sorted_wrt_snoc layout_inv_defs dest: list.set_sel(2))
  then show ?thesis
    using assms s ne
    by (auto simp: layout_inv_defs openIndent_def addToken_def Let_def layout_depth_append
        sorted_wrt_snoc Suc_diff_le Suc_leI)
qed

lemma set_tl_sorted:
  fixes xs :: "int list"
  assumes "sorted_wrt (<) xs" "x \<in> set (tl xs)" "length xs > 1" "x \<noteq> last xs"
  shows "x \<in> set (tl (butlast xs))"
proof -
  obtain y ys where xs: "xs = y # ys" "ys \<noteq> []" using assms(3) by (cases xs) auto
  then have "x \<in> set ys" "x \<noteq> last ys" "sorted_wrt (<) ys" using assms by auto
  then have "x \<in> set (butlast ys)" using in_set_butlast_iff xs by blast
  then show ?thesis using xs by simp
qed

lemma layout_inv_dedent:
  assumes "layout_inv l" "length (indentStack l) > 1"
  shows "layout_inv (popIndent l)"
proof -
  let ?is = "indentStack l" and ?cs = "closureIndentStack l"
  have ne: "?is \<noteq> []" "butlast ?is \<noteq> []" using assms(2) by (cases "?is"; auto)+
  have sorted: "sorted_wrt (<) ?is" "sorted_wrt (<) ?cs" using assms by (auto simp: layout_inv_defs)
  have sub: "set ?cs \<subseteq> set (tl ?is)" using assms by (simp add: layout_inv_defs)
  have lt: "last (butlast ?is) < last ?is"
    using sorted(1) ne by (metis append_butlast_last_id last_in_set sorted_wrt_snoc)
  let ?pop = "length ?cs > 0 \<and> last (butlast ?is) < last ?cs"
  let ?cs' = "if ?pop then butlast ?cs else ?cs"
  have cs': "set ?cs' \<subseteq> set (tl (butlast ?is))"
  proof
    fix x assume x: "x \<in> set ?cs'"
    then have xcs: "x \<in> set ?cs" by (auto split: if_splits dest: in_set_butlastD)
    then have xle: "x \<le> last ?cs" using sorted_wrt_less_last [OF sorted(2)] by blast
    have "x \<noteq> last ?is"
    proof
      assume eq: "x = last ?is"
      have "last ?cs \<in> set ?is"
        using sub xcs by (metis last_in_set length_pos_if_in_set length_greater_0_conv list.set_sel(2) ne(1) subsetD)
      then have "last ?cs \<le> last ?is" using sorted_wrt_less_last [OF sorted(1)] by blast
      then have "x = last ?cs" using xle eq by simp
      moreover have "?pop" using xcs eq \<open>x = last ?cs\<close> lt by (cases ?cs) auto
      ultimately show False
        using x in_set_butlast_iff [OF sorted(2)] by auto
    qed
    then show "x \<in> set (tl (butlast ?is))"
      using set_tl_sorted [OF sorted(1)] xcs sub assms(2) by blast
  qed
  have p: "popIndent l = (addToken TOKEN_DEDENT l)\<lparr>indentStack := butlast ?is, closureIndentStack := ?cs',
      closureParenDepthStack := if ?pop then butlast (closureParenDepthStack l) else closureParenDepthStack l\<rparr>"
    by (simp add: popIndent_def Let_def addToken_def)
  have "indent_ok (popIndent l)"
    using assms hd_butlast [OF assms(2)] ne sorted_wrt_butlast [OF sorted(1)]
    by (auto simp: layout_inv_defs dest: in_set_butlastD)
  moreover have "closure_ok (popIndent l)"
  proof -
    have "sorted_wrt (<) ?cs'" using sorted(2) sorted_wrt_butlast by auto
    moreover have "length ?cs = length (closureParenDepthStack l)"
      using assms by (simp add: layout_inv_defs)
    ultimately show ?thesis
      using cs' unfolding closure_ok_def p by simp
  qed
  moreover have "brace_ok (popIndent l)"
    using assms by (simp add: p addToken_def layout_inv_defs)
  moreover have "depth_ok (popIndent l)"
  proof -
    have "layout_depth 0 (tokens l) = Some (length ?is - 1 + count_list (braceStack l) True)"
      using assms by (simp add: layout_inv_defs)
    then show ?thesis
      using assms(2) by (simp add: p depth_ok_def addToken_def layout_depth_append numeral_2_eq_2)
  qed
  ultimately show ?thesis by (simp add: layout_inv_def)
qed

interpretation layout: lexer_invariant layout_inv
proof
  fix l l' :: lexer assume "layout_inv l" "lframe l l'"
  then show "layout_inv l'" by (auto simp: layout_inv_defs lframe_def)
next
  fix l tt s assume "layout_inv l" "plain_type tt"
  then show "layout_inv (addTokenWithLexeme tt s l)"
    by (simp add: layout_inv_defs plain_type_def layout_depth_append)
next
  fix l and n :: int assume "layout_inv l" "last (indentStack l) < n" "n mod 4 = 0"
  then show "layout_inv (openIndent n l)" by (rule layout_inv_indent)
next
  fix l :: lexer assume "layout_inv l" "length (indentStack l) > 1"
  then show "layout_inv (popIndent l)" by (rule layout_inv_dedent)
next
  fix l :: lexer assume "layout_inv l"
  then show "layout_inv (addToken TOKEN_INDENT (l\<lparr>braceStack := braceStack l @ [True],
      braceBlockDepth := braceBlockDepth l + 1, blockKeywordSeen := False\<rparr>))"
    by (simp add: layout_inv_defs addToken_def layout_depth_append)
next
  fix l :: lexer assume a: "layout_inv l" "braceStack l \<noteq> []" "last (braceStack l)"
  then have "0 < count_list (braceStack l) True" by (intro count_list_last_pos) auto
  with a show "layout_inv (addToken TOKEN_DEDENT (l\<lparr>braceStack := butlast (braceStack l),
      braceBlockDepth := braceBlockDepth l - 1\<rparr>))"
    by (simp add: layout_inv_defs addToken_def layout_depth_append count_list_butlast of_nat_diff)
next
  fix l :: lexer assume "layout_inv l"
  then show "layout_inv (l\<lparr>braceStack := braceStack l @ [False]\<rparr>)"
    by (simp add: layout_inv_defs)
next
  fix l :: lexer assume "layout_inv l" "braceStack l \<noteq> []" "\<not> last (braceStack l)"
  then show "layout_inv (l\<lparr>braceStack := butlast (braceStack l)\<rparr>)"
    by (simp add: layout_inv_defs count_list_butlast)
qed

section \<open>The tokens\<close>

definition token_inv :: "lexer \<Rightarrow> bool" where
  "token_inv l \<longleftrightarrow>
     sorted_wrt (\<le>) (map Line (tokens l)) \<and>
     (\<forall>t\<in>set (tokens l). Line t \<le> line l \<and> Type t \<noteq> TOKEN_EOF \<and> File t = filename l)"

lemma token_inv_update [simp]:
  "token_inv (indentStack_update f l) = token_inv l"
  "token_inv (closureIndentStack_update g l) = token_inv l"
  "token_inv (closureParenDepthStack_update h l) = token_inv l"
  "token_inv (pendingClosureBlock_update b l) = token_inv l"
  "token_inv (blockKeywordSeen_update b l) = token_inv l"
  "token_inv (braceStack_update k l) = token_inv l"
  "token_inv (braceBlockDepth_update i l) = token_inv l"
  by (simp_all add: token_inv_def)

lemma token_inv_add:
  "token_inv l \<Longrightarrow> tt \<noteq> TOKEN_EOF \<Longrightarrow> token_inv (addTokenWithLexeme tt s l)"
  by (auto simp: token_inv_def sorted_wrt_append)

interpretation order: lexer_invariant token_inv
proof
  fix l l' :: lexer assume "token_inv l" "lframe l l'"
  then show "token_inv l'" by (force simp: token_inv_def lframe_def)
qed (simp_all add: openIndent_def popIndent_def addToken_def plain_type_def Let_def token_inv_add)

text \<open>The file name never changes.\<close>

interpretation fname: lexer_invariant "\<lambda>l. filename l = f" for f
  by unfold_locales
     (simp_all add: lframe_def openIndent_def popIndent_def addToken_def Let_def)

section \<open>The states the lexer passes through\<close>

definition scan_step :: "lexer \<Rightarrow> lexer" where
  "scan_step l = scanToken (l\<lparr>start := current l\<rparr>)"

inductive reachable :: "string \<Rightarrow> string \<Rightarrow> lexer \<Rightarrow> bool" for src fname where
  init: "reachable src fname (NewLexer src fname)"
| step: "reachable src fname l \<Longrightarrow> \<not> isAtEnd l \<Longrightarrow> reachable src fname (scan_step l)"

lemma layout_inv_NewLexer: "layout_inv (NewLexer src fname)"
  by (simp add: NewLexer_def layout_inv_defs)

lemma token_inv_NewLexer: "token_inv (NewLexer src fname)"
  by (simp add: NewLexer_def token_inv_def)

lemma reachable_layout_inv: "reachable src fname l \<Longrightarrow> layout_inv l"
  by (induction rule: reachable.induct)
     (auto simp: layout_inv_NewLexer scan_step_def intro: layout.scanToken layout.frame_update)

lemma reachable_token_inv: "reachable src fname l \<Longrightarrow> token_inv l"
  by (induction rule: reachable.induct)
     (auto simp: token_inv_NewLexer scan_step_def intro: order.scanToken order.frame_update)

lemma reachable_scanLoop: "reachable src fname l \<Longrightarrow> reachable src fname (scanLoop l)"
  using scanLoop_invariant [of "reachable src fname" l] reachable.step
  by (auto simp: scan_step_def)

lemma scanLoop_iterate:
  "\<exists>n. scanLoop l = (scan_step ^^ n) l \<and> (\<forall>m<n. \<not> isAtEnd ((scan_step ^^ m) l))"
proof (induction l rule: scanLoop.induct)
  case (1 l)
  show ?case
  proof (cases "isAtEnd l")
    case True
    then show ?thesis by (intro exI [of _ 0]) (simp add: scanLoop.simps)
  next
    case False
    then have "\<exists>n. scanLoop (scan_step l) = (scan_step ^^ n) (scan_step l) \<and>
        (\<forall>m<n. \<not> isAtEnd ((scan_step ^^ m) (scan_step l)))"
      using 1 unfolding scan_step_def by blast
    then obtain n where n: "scanLoop (scan_step l) = (scan_step ^^ n) (scan_step l)"
        "\<forall>m<n. \<not> isAtEnd ((scan_step ^^ m) (scan_step l))"
      by blast
    have "scanLoop l = (scan_step ^^ Suc n) l"
      using n(1) False by (subst scanLoop.simps) (simp add: scan_step_def funpow_swap1)
    moreover have "\<not> isAtEnd ((scan_step ^^ m) l)" if "m < Suc n" for m
      using that n(2) False by (cases m) (simp_all add: funpow_swap1)
    ultimately show ?thesis by blast
  qed
qed

section \<open>The finished token list\<close>

lemma indentStack_addToken [simp]: "indentStack (addToken tt l) = indentStack l"
  by (simp add: addToken_def)

lemma closeIndents_depth:
  "layout_depth 0 (tokens l) = Some (length (indentStack l) - 1 + k) \<Longrightarrow>
    layout_depth 0 (tokens (closeIndents l)) = Some k"
proof (induction l rule: closeIndents.induct)
  case (1 l)
  then show ?case
    by (cases "length (indentStack l) > 1"; subst closeIndents.simps)
       (simp_all add: addToken_def layout_depth_append)
qed

lemma closeIndents_token_inv: "token_inv l \<Longrightarrow> token_inv (closeIndents l)"
proof (induction l rule: closeIndents.induct)
  case (1 l)
  then show ?case
    by (subst closeIndents.simps) (auto simp: addToken_def token_inv_add)
qed

lemma filename_closeIndents [simp]: "filename (closeIndents l) = filename l"
proof (induction l rule: closeIndents.induct)
  case (1 l)
  then show ?case by (subst closeIndents.simps) (auto simp: addToken_def)
qed

lemma filename_scanLoop: "filename (scanLoop (NewLexer src fname)) = fname"
proof -
  have "reachable src fname l \<Longrightarrow> filename l = fname" for l
    by (induction rule: reachable.induct)
       (auto simp: NewLexer_def scan_step_def intro: fname.scanToken)
  then show ?thesis using reachable_scanLoop [OF reachable.init] by blast
qed

lemma ScanTokens_InrD:
  assumes "ScanTokens l = Inr ts"
  obtains e where "ts = mergeLineContinuations (tokens (closeIndents (scanLoop l)) @ [e])"
    "Type e = TOKEN_EOF" "Line e = line (closeIndents (scanLoop l))"
    "File e = filename (scanLoop l)"
  using assms by (auto simp: ScanTokens_def Let_def addToken_def split: if_splits)

lemma subseq_set_subset: "subseq xs ys \<Longrightarrow> set xs \<subseteq> set ys"
  by (induction rule: list_emb.induct) auto

lemma sorted_wrt_subseq: "subseq xs ys \<Longrightarrow> sorted_wrt P ys \<Longrightarrow> sorted_wrt P xs"
  by (induction rule: list_emb.induct) (auto dest: subseq_set_subset)

lemma subseq_snoc_cases:
  assumes "subseq out (xs @ [e])" "e \<notin> set xs" "e \<in> set out"
  shows "\<exists>out'. out = out' @ [e] \<and> subseq out' xs"
proof -
  obtain o1 o2 where o: "out = o1 @ o2" "subseq o1 xs" "subseq o2 [e]"
    using assms(1) subseq_append_iff by blast
  have "set o1 \<subseteq> set xs" using o(2) by (rule subseq_set_subset)
  then have "e \<in> set o2" using assms(2,3) o(1) by auto
  then have "o2 = [e]" using o(3) by (cases o2) (auto simp: list_emb_Nil2 split: if_splits elim: list_emb.cases)
  with o show ?thesis by blast
qed

lemma ScanTokens_tokens:
  assumes "ScanTokens (NewLexer src fname) = Inr ts"
  shows "\<exists>ts' e. ts = ts' @ [e] \<and> Type e = TOKEN_EOF \<and> (\<forall>t\<in>set ts'. Type t \<noteq> TOKEN_EOF) \<and>
     sorted_wrt (\<le>) (map Line ts) \<and> (\<forall>t\<in>set ts. File t = fname)"
proof -
  let ?l = "closeIndents (scanLoop (NewLexer src fname))"
  obtain e where e: "ts = mergeLineContinuations (tokens ?l @ [e])" "Type e = TOKEN_EOF"
      "Line e = line ?l" "File e = fname"
    using assms by (rule ScanTokens_InrD) (simp add: filename_scanLoop)
  have inv: "token_inv ?l"
    using reachable_token_inv [OF reachable_scanLoop [OF reachable.init]]
    by (rule closeIndents_token_inv)
  have sub: "subseq ts (tokens ?l @ [e])"
    unfolding e(1) mergeLineContinuations_def by (rule merges_subseq [OF mergeLoop_merges])
  have "e \<in> set ts"
    using merges_keeps [OF mergeLoop_merges [of 0 False "tokens ?l @ [e]"]] e
    by (auto simp: mergeLineContinuations_def isLayout_def dest!: arg_cong [where f = set])
  moreover have "e \<notin> set (tokens ?l)" using inv e(2) by (auto simp: token_inv_def)
  ultimately obtain ts' where ts': "ts = ts' @ [e]" "subseq ts' (tokens ?l)"
    using subseq_snoc_cases [OF sub] by blast
  have "set ts' \<subseteq> set (tokens ?l)" using ts'(2) by (rule subseq_set_subset)
  moreover have "sorted_wrt (\<le>) (map Line (tokens ?l @ [e]))"
    using inv e(3) by (auto simp: token_inv_def sorted_wrt_append)
  then have "sorted_wrt (\<le>) (map Line ts)"
    using sorted_wrt_subseq subseq_map [OF sub] by blast
  ultimately show ?thesis
    using ts'(1) e inv by (auto simp: token_inv_def filename_scanLoop)
qed

lemma ScanTokens_depth:
  assumes "ScanTokens (NewLexer src fname) = Inr ts"
  shows "\<exists>d\<le>count_list (braceStack (scanLoop (NewLexer src fname))) True. layout_depth 0 ts = Some d"
proof -
  let ?s = "scanLoop (NewLexer src fname)"
  obtain e where e: "ts = mergeLineContinuations (tokens (closeIndents ?s) @ [e])" "Type e = TOKEN_EOF"
    using assms by (rule ScanTokens_InrD)
  have "layout_inv ?s" using reachable_layout_inv [OF reachable_scanLoop [OF reachable.init]] .
  then have "layout_depth 0 (tokens (closeIndents ?s)) = Some (count_list (braceStack ?s) True)"
    by (intro closeIndents_depth) (simp add: layout_inv_defs)
  then have "layout_depth 0 (tokens (closeIndents ?s) @ [e]) = Some (count_list (braceStack ?s) True)"
    using e(2) by (simp add: layout_depth_append)
  from merges_depth [OF mergeLoop_merges [of 0 False] this] show ?thesis
    unfolding e(1) mergeLineContinuations_def by auto
qed

end
