(* ===== verification/FormatString.thy ===== *)
theory FormatString
  imports LexerCorrect
begin

text \<open>
  How the formatter prints a string literal (\<^verbatim>\<open>escapeStringValue\<close> of
  \<^verbatim>\<open>internal/formatter/printer.go\<close>) and why the lexer reads it back: scanning the escaped
  text yields the value it was printed from.
\<close>

section \<open>Escaping\<close>

definition hex_char :: "nat \<Rightarrow> char" where
  "hex_char d = (if d < 10 then char_of (48 + d) else char_of (87 + d))"

text \<open>\<^verbatim>\<open>range\<close> over a string decodes it rune by rune; \<^verbatim>\<open>%02x\<close> of a value below 128 is two
  lower-case hexadecimal digits.\<close>

definition escape_rune :: "rune \<Rightarrow> string" where
  "escape_rune r =
     (if r = rune_backslash then [CHR 0x5C, CHR 0x5C]
      else if r = rune_dquote then [CHR 0x5C, CHR 0x22]
      else if r = rune_nl then [CHR 0x5C, CHR ''n'']
      else if r = rn CHR 0x09 then [CHR 0x5C, CHR ''t'']
      else if r = rune_cr then [CHR 0x5C, CHR ''r'']
      else if r = pua_lbrace then [CHR 0x5C, CHR ''{'']
      else if r = pua_rbrace then [CHR 0x5C, CHR ''}'']
      else if r = pua_sep then [CHR 0x5C, CHR ''s'', CHR ''e'', CHR ''p'']
      else if r < 0x20 \<or> r = 0x7F then [CHR 0x5C, CHR ''x'', hex_char (r div 16), hex_char (r mod 16)]
      else utf8_encode r)"

definition escapeStringValue :: "string \<Rightarrow> string" where
  "escapeStringValue s = concat (map escape_rune (go_runes s))"

section \<open>Reading it back\<close>

lemma peekNext_rest: "peekNext l = (case rest l of _ # b # _ \<Rightarrow> b | _ \<Rightarrow> 0)"
proof (cases "current l + 1 < length (source l)")
  case True
  then obtain c rs where "rest l = c # source l ! (current l + 1) # rs"
    using peek_next_rest by blast
  then show ?thesis using True by (simp add: peekNext_def)
next
  case False
  then have "length (rest l) \<le> 1" by (simp add: rest_def)
  then show ?thesis using False by (auto simp: peekNext_def split: list.split)
qed

lemma isInterpStart_rest: "isInterpStart l \<longleftrightarrow> (case rest l of _ # b # _ \<Rightarrow> isAlpha b | _ \<Rightarrow> False)"
proof (cases "current l + 1 < length (source l)")
  case True
  then obtain c rs where "rest l = c # source l ! (current l + 1) # rs"
    using peek_next_rest by blast
  then show ?thesis using True by (simp add: isInterpStart_def)
next
  case False
  then have "length (rest l) \<le> 1" by (simp add: rest_def)
  then show ?thesis using False by (auto simp: isInterpStart_def split: list.split)
qed

lemma hexDigit_hex_char: "d < 16 \<Longrightarrow> hexDigit (of_char (hex_char d)) = Some d"
  by (simp add: hexDigit_def hex_char_def)

lemma scanStringLoop_backslash:
  "rest l = 92 # ys \<Longrightarrow> scanStringLoop i e 34 v l =
     scanStringLoop i e 34 (fst (scanStringEscape v l)) (snd (scanStringEscape v l))"
  by (subst scanStringLoop.simps) (simp add: isAtEnd_rest peek_rest)

lemma scanStringLoop_plain:
  "rest l = r # X \<Longrightarrow> r \<notin> {34, 10, 92, 0} \<Longrightarrow> (r = 123 \<Longrightarrow> X = [] \<or> \<not> isAlpha (hd X)) \<Longrightarrow>
     scanStringLoop i e 34 v l = scanStringLoop i e 34 (v @ utf8_encode r) (skip l)"
  by (subst scanStringLoop.simps)
     (auto simp: isAtEnd_rest peek_rest isInterpStart_rest split: list.split)

lemma scanStringLoop_quote:
  "rest l = 34 # X \<Longrightarrow> scanStringLoop i e 34 v l = addTokenWithLexeme e v (skip l)"
  by (subst scanStringLoop.simps) (simp add: isAtEnd_rest peek_rest)

lemma go_runes_encode: "valid_rune r \<Longrightarrow> go_runes (utf8_encode r) = [r]"
  using utf8_decode_encode_append [of r "[]"] by (simp add: go_runes_def)

lemma scanHexEscape_hex_char:
  assumes "rest l = of_char (hex_char a) # of_char (hex_char b) # X" "a < 16" "b < 16"
  shows "scanHexEscape v l = (v @ utf8_encode (a * 16 + b), skip (skip l))"
  using assms
  by (simp add: scanHexEscape_def isAtEnd_rest advance_eq peek_rest hexDigit_hex_char Let_def)

text \<open>The escapes of one letter: the rune, its escape letter, the bytes the scanner appends.\<close>

definition simple_escapes :: "(rune \<times> char \<times> string) list" where
  "simple_escapes =
     [(92, CHR 0x5C, [CHR 0x5C]), (34, CHR 0x22, [CHR 0x22]), (10, CHR ''n'', [char_nl]),
      (9, CHR ''t'', [char_tab]), (13, CHR ''r'', [char_cr]),
      (pua_lbrace, CHR ''{'', utf8_encode pua_lbrace), (pua_rbrace, CHR ''}'', utf8_encode pua_rbrace)]"

lemma utf8_encode_of_char: "(of_char c :: nat) < 128 \<Longrightarrow> utf8_encode (of_char c) = [c]"
  by (simp add: utf8_encode_def)

lemmas utf8_encode_values =
  utf8_encode_of_char [of "CHR 0x5C", simplified] utf8_encode_of_char [of "CHR 0x22", simplified]
  utf8_encode_of_char [of char_nl, simplified] utf8_encode_of_char [of char_tab, simplified]
  utf8_encode_of_char [of char_cr, simplified]

lemma simple_escapes_encode: "list_all (\<lambda>(r, c, s). utf8_encode r = s) simple_escapes"
  by (simp add: simple_escapes_def utf8_encode_values)

lemma escape_rune_values:
  "escape_rune 92 = [CHR 0x5C, CHR 0x5C]" "escape_rune 34 = [CHR 0x5C, CHR 0x22]"
  "escape_rune 10 = [CHR 0x5C, CHR ''n'']" "escape_rune 9 = [CHR 0x5C, CHR ''t'']"
  "escape_rune 13 = [CHR 0x5C, CHR ''r'']" "escape_rune pua_lbrace = [CHR 0x5C, CHR ''{'']"
  "escape_rune pua_rbrace = [CHR 0x5C, CHR ''}'']"
  by (simp_all add: escape_rune_def)

lemma simple_escapes_rune:
  "list_all (\<lambda>(r, c, s). escape_rune r = [CHR 0x5C, c] \<and> go_runes [CHR 0x5C, c] = [92, of_char c])
     simple_escapes"
  unfolding simple_escapes_def list.pred_inject prod.case escape_rune_values go_runes_def
  by simp

lemma simple_escapesD:
  assumes "(r, c, s) \<in> set simple_escapes"
  shows "utf8_encode r = s" "go_runes (escape_rune r) = [92, of_char c]"
  using bspec [OF simple_escapes_encode [unfolded list_all_iff] assms]
    bspec [OF simple_escapes_rune [unfolded list_all_iff] assms] by simp_all

lemma scanStringEscape_simple:
  assumes "(r, c, s) \<in> set simple_escapes" "rest l = 92 # of_char c # X"
  shows "scanStringEscape v l = (v @ s, skip (skip l))"
proof -
  have "scanStringEscape v l = (v @ s, skip (skip l))"
    if "c = k" "s = u" "(k, u) \<in> {(CHR 0x5C, [CHR 0x5C]), (CHR 0x22, [CHR 0x22]), (CHR ''n'', [char_nl]),
      (CHR ''t'', [char_tab]), (CHR ''r'', [char_cr]),
      (CHR ''{'', utf8_encode pua_lbrace), (CHR ''}'', utf8_encode pua_rbrace)}" for k u
    using assms(2) that
    by (elim insertE; simp add: scanStringEscape_def isAtEnd_rest advance_eq peek_rest Let_def)
  then show ?thesis using assms(1) by (simp add: simple_escapes_def) blast
qed

text \<open>\<open>skips l l1\<close>: \<open>l1\<close> is \<open>l\<close> after some calls of \<^verbatim>\<open>advance\<close> and nothing else.\<close>

inductive skips :: "lexer \<Rightarrow> lexer \<Rightarrow> bool" for l where
  refl [simp]: "skips l l"
| step [simp]: "skips l l1 \<Longrightarrow> skips l (skip l1)"

lemma skips_trans: "skips l1 l2 \<Longrightarrow> skips l l1 \<Longrightarrow> skips l l2"
  by (induction rule: skips.induct) simp_all

text \<open>One step of the scanner over the escape of one rune. \<open>X\<close> is what follows.\<close>

lemma scanStringLoop_escape:
  assumes r: "valid_rune r" and l: "rest l = go_runes (escape_rune r) @ X"
    and X: "X \<noteq> []" "r = 123 \<Longrightarrow> \<not> isAlpha (hd X)"
  shows "\<exists>l1. scanStringLoop i e 34 v l = scanStringLoop i e 34 (v @ utf8_encode r) l1 \<and>
    rest l1 = X \<and> skips l l1"
proof -
  consider (esc) "r \<in> {92, 34, 10, 9, 13, pua_lbrace, pua_rbrace}" | (sep) "r = pua_sep"
    | (hex) "r \<notin> {92, 34, 10, 9, 13, pua_lbrace, pua_rbrace, pua_sep}" "r < 0x20 \<or> r = 0x7F"
    | (plain) "r \<notin> {92, 34, 10, 9, 13, pua_lbrace, pua_rbrace, pua_sep}" "\<not> (r < 0x20 \<or> r = 0x7F)"
    by blast
  then show ?thesis
  proof cases
    case esc
    then obtain c s where c: "(r, c, s) \<in> set simple_escapes"
      by (auto simp: simple_escapes_def)
    have c2: "rest l = 92 # of_char c # X"
      using l simple_escapesD [OF c] by simp
    show ?thesis
      using scanStringLoop_backslash [OF c2, of i e v] scanStringEscape_simple [OF c c2, of v] c2
        simple_escapesD(1) [OF c]
      by auto
  next
    case sep
    then have c: "rest l = 92 # 115 # 101 # 112 # X"
      using l by (simp add: escape_rune_def go_runes_def)
    then have "scanStringEscape v l = (v @ utf8_encode r, skip (skip (skip (skip l))))"
      using sep by (simp add: scanStringEscape_def isAtEnd_rest advance_eq peek_rest peekNext_rest Let_def)
    then show ?thesis using c scanStringLoop_backslash [OF c, of i e v] by auto
  next
    case hex
    have d: "r div 16 < 16" "r mod 16 < 16" using hex(2) by auto
    have a: "of_char (hex_char x) < (128::nat)" if "x < 16" for x
      using that by (simp add: hex_char_def)
    have c: "rest l = 92 # 120 # of_char (hex_char (r div 16)) # of_char (hex_char (r mod 16)) # X"
      using l hex a [OF d(1)] a [OF d(2)] by (simp add: escape_rune_def go_runes_def)
    have "scanHexEscape v (skip (skip l)) = (v @ utf8_encode r, skip (skip (skip (skip l))))"
      using scanHexEscape_hex_char [of "skip (skip l)" "r div 16" "r mod 16" X] c d
      by (simp del: of_char_of)
    then have "scanStringEscape v l = (v @ utf8_encode r, skip (skip (skip (skip l))))"
      using c by (simp add: scanStringEscape_def isAtEnd_rest advance_eq peek_rest Let_def)
    then show ?thesis using c scanStringLoop_backslash [OF c, of i e v] by auto
  next
    case plain
    then have "rest l = r # X"
      using l r by (simp add: escape_rune_def go_runes_encode)
    then show ?thesis
      using scanStringLoop_plain [of l r X i e v] plain X by auto
  qed
qed

text \<open>
  A text in which an opening brace is directly followed by a letter would read back as the
  start of an interpolation; the value of a literal with the escape \<^verbatim>\<open>\{\<close> holds a sentinel
  there instead.
\<close>

fun interp_free :: "rune list \<Rightarrow> bool" where
  "interp_free (a # b # rs) \<longleftrightarrow> \<not> (a = rn CHR ''{'' \<and> isAlpha b) \<and> interp_free (b # rs)"
| "interp_free _ \<longleftrightarrow> True"

lemma escape_rune_hd:
  assumes "valid_rune b" "\<not> isAlpha b"
  shows "go_runes (escape_rune b) \<noteq> [] \<and> \<not> isAlpha (hd (go_runes (escape_rune b)))"
proof -
  have "\<exists>s. escape_rune b = CHR 0x5C # s \<or> escape_rune b = utf8_encode b"
    by (simp add: escape_rune_def)
  then consider (esc) s where "escape_rune b = CHR 0x5C # s" | (plain) "escape_rune b = utf8_encode b"
    by blast
  then show ?thesis
  proof cases
    case esc
    then show ?thesis by (simp add: go_runes_def isAlpha_def)
  next
    case plain
    then show ?thesis using assms by (simp add: go_runes_encode)
  qed
qed

lemma ascii_append_decode:
  "(\<And>c. c \<in> set s \<Longrightarrow> (of_char c :: nat) < 128) \<Longrightarrow> go_runes (s @ u) = go_runes s @ go_runes u"
  by (induction s) (simp_all add: go_runes_def)

lemma hex_char_ascii: "x < 16 \<Longrightarrow> (of_char (hex_char x) :: nat) < 128"
  by (simp add: hex_char_def)

lemma escape_rune_append:
  assumes "valid_rune r"
  shows "go_runes (escape_rune r @ u) = go_runes (escape_rune r) @ go_runes u"
proof (cases "escape_rune r = utf8_encode r")
  case True
  then show ?thesis
    using utf8_decode_encode_append [OF assms] go_runes_encode [OF assms]
    by (simp add: go_runes_def)
next
  case False
  then have "(of_char c :: nat) < 128" if "c \<in> set (escape_rune r)" for c
    using that hex_char_ascii [of "r div 16"] hex_char_ascii [of "r mod 16"]
    by (auto simp: escape_rune_def less_mult_imp_div_less split: if_splits)
  then show ?thesis by (rule ascii_append_decode)
qed

lemma scanStringLoop_escaped:
  "\<forall>r\<in>set rs. valid_rune r \<Longrightarrow> interp_free rs \<Longrightarrow>
     rest l = go_runes (concat (map escape_rune rs)) @ 34 # X \<Longrightarrow>
     \<exists>l1. scanStringLoop i e 34 v l = addTokenWithLexeme e (v @ go_string rs) l1 \<and>
       rest l1 = X \<and> skips l l1"
proof (induction rs arbitrary: v l)
  case Nil
  then have "rest l = 34 # X" by (simp add: go_runes_def)
  then show ?case
    using scanStringLoop_quote [of l X i e v] by (auto simp: go_string_def)
next
  case (Cons r rs)
  let ?Y = "go_runes (concat (map escape_rune rs)) @ 34 # X"
  have r: "valid_rune r" using Cons.prems by simp
  have "rest l = go_runes (escape_rune r) @ ?Y"
    using Cons.prems(3) escape_rune_append [OF r] by simp
  moreover have "\<not> isAlpha (hd ?Y)" if "r = 123"
  proof (cases rs)
    case Nil
    then show ?thesis by (simp add: go_runes_def isAlpha_def)
  next
    case (Cons b bs)
    then have b: "valid_rune b" "\<not> isAlpha b" using Cons.prems that by simp_all
    then show ?thesis
      using escape_rune_hd [OF b] escape_rune_append [OF b(1)] Cons by simp
  qed
  ultimately obtain l1 where
    l1: "scanStringLoop i e 34 v l = scanStringLoop i e 34 (v @ utf8_encode r) l1" "rest l1 = ?Y"
      "skips l l1"
    using scanStringLoop_escape [OF r, of l ?Y i e v] by auto
  have "interp_free rs" using Cons.prems(2) by (cases rs) auto
  then show ?case
    using Cons.IH [of l1 "v @ utf8_encode r"] l1 Cons.prems(1) skips_trans by (fastforce simp: go_string_def)
qed

lemma skips_frame: "skips l l1 \<Longrightarrow> lframe l l1 \<and> errors l1 = errors l \<and> line l1 = line l"
proof (induction rule: skips.induct)
  case (step l1)
  moreover have "errors (skip l1) = errors l1" by (simp add: skip_def advance_def)
  ultimately show ?case using lframe_skip lframe_trans by auto
qed simp

lemma escape_rune_no_quote:
  assumes "valid_rune r"
  shows "\<exists>c cs. go_runes (escape_rune r) = c # cs \<and> c \<noteq> 34"
proof -
  have "(\<exists>s. escape_rune r = CHR 0x5C # s) \<or> escape_rune r = utf8_encode r \<and> r \<noteq> 34"
    by (simp add: escape_rune_def)
  then show ?thesis using go_runes_encode [OF assms] by (auto simp: go_runes_def)
qed

text \<open>The scanner of a double-quoted literal, from just after the opening quote.\<close>

lemma scanString_escaped:
  assumes "\<forall>r\<in>set rs. valid_rune r" "interp_free rs" "rs \<noteq> [] \<or> X = [] \<or> hd X \<noteq> 34"
    and l: "rest l = go_runes (concat (map escape_rune rs)) @ 34 # X"
  shows "\<exists>l1. scanString l = addTokenWithLexeme TOKEN_STRING (go_string rs) l1 \<and>
    rest l1 = X \<and> skips l l1"
proof (cases rs)
  case Nil
  then have r: "rest l = 34 # X" using l by (simp add: go_runes_def)
  have "\<not> (current l + 1 < length (source l) \<and> source l ! (current l + 1) = 34)"
    using peek_next_rest [of l] r assms(3) Nil by auto
  then have "scanString l = addTokenWithLexeme TOKEN_STRING [] (skip l)"
    using r by (auto simp: scanString_def peek_rest)
  then show ?thesis using Nil r by (auto simp: go_string_def)
next
  case (Cons r rs')
  then have "valid_rune r" using assms(1) by simp
  then have "peek l \<noteq> 34"
    using l Cons escape_rune_no_quote [of r] escape_rune_append [of r] by (auto simp: peek_rest)
  then have "scanString l = scanStringLoop TOKEN_STRING_HEAD TOKEN_STRING 34 [] l"
    by (simp add: scanString_def scanStringBody_def)
  then show ?thesis
    using scanStringLoop_escaped [OF assms(1,2) l, of TOKEN_STRING_HEAD TOKEN_STRING "[]"] by simp
qed

section \<open>A literal as a whole program\<close>

lemma escapes_append:
  "\<forall>r\<in>set rs. valid_rune r \<Longrightarrow>
     go_runes (concat (map escape_rune rs) @ u) = go_runes (concat (map escape_rune rs)) @ go_runes u"
  by (induction rs) (simp_all add: escape_rune_append go_runes_def [of "[]"])

lemma errors_addTokenWithLexeme [simp]: "errors (addTokenWithLexeme tt s l) = errors l"
  by (simp add: addTokenWithLexeme_def Let_def)

text \<open>A source that one token uses up.\<close>

lemma ScanTokens_single:
  assumes "\<not> isAtEnd l" "scanToken (l\<lparr>start := current l\<rparr>) = addTokenWithLexeme tt s l1"
    "rest l1 = []" "tokens l1 = []" "errors l1 = []" "indentStack l1 = [n]" "tt \<noteq> TOKEN_PIPE"
  shows "\<exists>t e. ScanTokens l = Inr [t, e] \<and> Type t = tt \<and> Lexeme t = s \<and> Type e = TOKEN_EOF"
proof -
  let ?l = "addTokenWithLexeme tt s l1"
  have "scanLoop l = scanLoop ?l" using assms(1,2) by (subst scanLoop.simps) simp
  also have "\<dots> = ?l" using assms(3) by (subst scanLoop.simps) (simp add: isAtEnd_rest)
  finally have "scanLoop l = ?l" .
  moreover have "closeIndents ?l = ?l" using assms(6) by (subst closeIndents.simps) simp
  moreover have "mergeLineContinuations [mkToken tt s l1, e] = [mkToken tt s l1, e]"
    if "Type e = TOKEN_EOF" for e
    unfolding mergeLineContinuations_def using that assms(7)
    by (intro mergeLoop_no_pipe) (simp add: mkToken_def)
  ultimately have "ScanTokens l = Inr [mkToken tt s l1, mkToken TOKEN_EOF (current_lexeme ?l) ?l]"
    using assms(4,5) by (simp add: ScanTokens_def Let_def addToken_def)
  moreover have "Lexeme (mkToken tt s l1) = s" by (simp add: mkToken_def)
  ultimately show ?thesis by simp
qed

lemma ScanTokens_escaped:
  assumes "\<forall>r\<in>set rs. valid_rune r" "interp_free rs"
  shows "\<exists>t e. ScanTokens (NewLexer ([CHR 0x22] @ escapeStringValue (go_string rs) @ [CHR 0x22]) fname)
      = Inr [t, e] \<and> Type t = TOKEN_STRING \<and> Lexeme t = go_string rs \<and> Type e = TOKEN_EOF"
proof -
  let ?s = "[CHR 0x22] @ escapeStringValue (go_string rs) @ [CHR 0x22]"
  let ?L = "NewLexer ?s fname"
  let ?h = "?L\<lparr>start := current ?L, indentationHandled := True\<rparr>"
  let ?k = "(skip ?h)\<lparr>atLineStart := False\<rparr>"
  have e: "escapeStringValue (go_string rs) = concat (map escape_rune rs)"
    by (simp add: escapeStringValue_def go_runes_go_string [OF assms(1)])
  have src: "go_runes ?s = 34 # go_runes (concat (map escape_rune rs)) @ [34]"
    using escapes_append [OF assms(1), of "[CHR 0x22]"] by (simp add: e) (simp add: go_runes_def)
  then have rest: "rest ?L = 34 # go_runes (concat (map escape_rune rs)) @ [34]"
    by (simp add: NewLexer_def rest_def)
  then have rk: "rest ?k = go_runes (concat (map escape_rune rs)) @ 34 # []" by simp
  obtain l1 where l1: "scanString ?k = addTokenWithLexeme TOKEN_STRING (go_string rs) l1"
      "rest l1 = []" "skips ?k l1"
    using scanString_escaped [OF assms _ rk] by auto
  have peek: "peek ?h = 34" "peek (?L\<lparr>start := current ?L\<rparr>) = 34"
    using rest by (simp_all add: peek_rest)
  have fields: "continuationLine ?L = False" "braceBlockDepth ?L = 0" "length (indentStack ?L) = 1"
      "atLineStart ?L" "\<not> indentationHandled ?L"
    by (simp_all add: NewLexer_def)
  have "scanToken (?L\<lparr>start := current ?L\<rparr>) = scanRune ?h"
    using peek(2) fields
    by (simp add: scanToken_def skipContinuationIndent_def skipBraceBlockIndent_def Let_def)
  also have "\<dots> = scanString ?k"
    using peek(1) by (simp add: scanRune_def advance_eq scanSwitch_def)
  finally have "scanToken (?L\<lparr>start := current ?L\<rparr>) = scanString ?k" .
  moreover have "tokens l1 = []" "errors l1 = []" "indentStack l1 = [0]"
    using skips_frame [OF l1(3)] by (simp_all add: lframe_def skip_def advance_def NewLexer_def)
  ultimately show ?thesis
    using l1(1,2) rest by (intro ScanTokens_single [of _ _ _ l1 0]) (simp_all add: isAtEnd_rest)
qed

end
