(* ===== verification/LexerProps.thy ===== *)
theory LexerProps
  imports LexerCorrect FormatString
begin

text \<open>
  What the lexer promises, stated over \<^verbatim>\<open>ScanTokens\<close>, \<^verbatim>\<open>handleIndentation\<close>,
  \<^verbatim>\<open>dedentTripleQuote\<close> and the identifier scanner. The sections before the properties compute the
  functional behaviour of the single operations.
\<close>

section \<open>Identifiers\<close>

lemma current_skips: "k \<le> length (rest l) \<Longrightarrow> current ((skip ^^ k) l) = current l + k \<and>
    rest ((skip ^^ k) l) = drop k (rest l) \<and> source ((skip ^^ k) l) = source l \<and>
    start ((skip ^^ k) l) = start l \<and> lframe l ((skip ^^ k) l)"
proof (induction k)
  case (Suc k)
  let ?m = "(skip ^^ k) l"
  have ih: "current ?m = current l + k" "rest ?m = drop k (rest l)" "source ?m = source l"
      "start ?m = start l" "lframe l ?m"
    using Suc by auto
  then have "\<not> isAtEnd ?m" using Suc.prems by (simp add: isAtEnd_rest)
  then have "current (skip ?m) = Suc (current ?m)" "source (skip ?m) = source ?m" "start (skip ?m) = start ?m"
    by (simp_all add: skip_def advance_def)
  then show ?case using ih lframe_trans [OF ih(5) lframe_skip] by (simp add: drop_Suc tl_drop)
qed simp

lemma advance_while_skips:
  "\<not> P 0 \<Longrightarrow> advance_while P l = (skip ^^ length (takeWhile P (rest l))) l"
proof (induction P l rule: advance_while.induct)
  case (1 P l)
  show ?case
  proof (cases "rest l")
    case Nil
    then show ?thesis by (subst advance_while.simps) (simp add: isAtEnd_rest)
  next
    case (Cons c cs)
    then have "\<not> isAtEnd l" "peek l = c" by (simp_all add: isAtEnd_rest peek_rest)
    then show ?thesis using 1 Cons
      by (subst advance_while.simps) (simp add: funpow_swap1)
  qed
qed

lemma current_lexeme_skips:
  assumes "k \<le> length (rest l)" "start l = current l"
  shows "current_lexeme ((skip ^^ k) l) = go_string (take k (rest l))"
  using current_skips [OF assms(1)] assms(2) by (simp add: current_lexeme_def rest_def)

lemma skip_fields [simp]: "source (skip l) = source l" "start (skip l) = start l"
  "tokens (skip l) = tokens l" "line (skip l) = line l"
  by (simp_all add: skip_def advance_def)

lemma skips_funpow: "skips l ((skip ^^ k) l)"
  by (induction k) simp_all

lemma scanSwitch_alpha:
  assumes "isAlpha c"
  shows "scanSwitch c l = scanIdentifier l"
proof -
  have n: "c \<notin> {32, 9, 10, 13, 35, 59, 34, 39, 96, 40, 41, 91, 93, 123, 125, 44, 46, 43, 45, 42, 47, 37,
      58, 61, 33, 60, 62, 124, 38}"
    using assms by (auto simp: isAlpha_def)
  then have "scanOperator c l = None" by (simp add: scanOperator_def)
  moreover have "\<not> isDigit c" using assms by (auto simp: isAlpha_def isDigit_def)
  ultimately show ?thesis using n assms by (simp add: scanSwitch_def)
qed

lemma scanRune_identifier:
  assumes l: "rest l = w @ X" "start l = current l"
    and w: "w \<noteq> []" "isAlpha (hd w)" "\<forall>c\<in>set w. isAlphaNumeric c" "X = [] \<or> \<not> isAlphaNumeric (hd X)"
  shows "\<exists>t. tokens (scanRune l) = tokens l @ [t] \<and> Type t = LookupKeyword (go_string w) \<and>
    Lexeme t = go_string w \<and> Line t = line l \<and> rest (scanRune l) = X"
proof -
  obtain c cs where wc: "w = c # cs" "isAlpha c" using w by (cases w) auto
  let ?m = "(skip l)\<lparr>atLineStart := False\<rparr>"
  let ?n = "advance_while isAlphaNumeric ?m"
  have z: "\<not> isAlphaNumeric 0" by (simp add: isAlphaNumeric_def isAlpha_def isDigit_def)
  have tw: "takeWhile isAlphaNumeric (cs @ X) = cs"
    using w wc by (cases X) (auto simp: takeWhile_append)
  have "scanRune l = scanIdentifier ?m"
  proof -
    have "peek l = c" using l wc by (simp add: peek_rest)
    then show ?thesis using wc(2) by (simp add: scanRune_def advance_eq scanSwitch_alpha)
  qed
  moreover have "?n = (skip ^^ length cs) ?m"
    using advance_while_skips [of isAlphaNumeric ?m, OF z] l wc tw by simp
  moreover have k: "length cs \<le> length (rest ?m)" using l wc by simp
  have n: "rest ((skip ^^ length cs) ?m) = X" "lframe ?m ((skip ^^ length cs) ?m)"
      "current ((skip ^^ length cs) ?m) = current ?m + length cs"
      "source ((skip ^^ length cs) ?m) = source l" "start ((skip ^^ length cs) ?m) = start l"
    using current_skips [OF k] l wc by simp_all
  have c: "current ?m = Suc (current l)"
    using l wc by (simp add: skip_def advance_def isAtEnd_rest)
  have "take (Suc (length cs)) (drop (start l) (source l)) = w"
    using l wc by (simp add: rest_def)
  then have lex: "current_lexeme ((skip ^^ length cs) ?m) = go_string w"
    using n c l(2) by (simp add: current_lexeme_def)
  have fr: "tokens ((skip ^^ length cs) ?m) = tokens l" "line ((skip ^^ length cs) ?m) = line l"
    using skips_frame [OF skips_funpow [of ?m "length cs"]]
    by (simp_all add: lframe_def)
  ultimately show ?thesis
    using n lex by (simp add: scanIdentifier_def Let_def mkToken_def)
qed

section \<open>Dedenting undoes indenting\<close>

definition indent_line :: "nat \<Rightarrow> string \<Rightarrow> string" where
  "indent_line n s = replicate n (CHR '' '') @ s"

lemma leading_indent_nonneg: "0 \<le> leading_indent s"
  by (induction s rule: leading_indent.induct) auto

lemma leading_indent_line: "leading_indent (indent_line n s) = int n + leading_indent s"
  by (induction n) (simp_all add: indent_line_def)

lemma blank_indent_line: "blank_line (indent_line n s) = blank_line s"
proof -
  have b: "blank_line s \<longleftrightarrow> (\<forall>c\<in>set s. c \<in> set [CHR '' '', char_tab, char_cr])" for s
    unfolding blank_line_def trim_right_def by (simp only: rev_is_Nil_conv dropWhile_eq_Nil_conv set_rev)
  have "CHR '' '' \<in> set [CHR '' '', char_tab, char_cr]" by simp
  then show ?thesis unfolding b indent_line_def by (auto simp only: set_append set_replicate_conv_if Un_iff split: if_splits)
qed

lemma strip_indent_line: "0 \<le> k \<Longrightarrow> k \<le> int n \<Longrightarrow> strip_indent (int n) k (indent_line (nat (int n - k)) s) = s"
proof (induction "nat (int n - k)" arbitrary: k)
  case 0
  then have "k = int n" by simp
  then show ?case by (cases s) (simp_all add: indent_line_def)
next
  case (Suc m)
  then have "k < int n" "m = nat (int n - (k + 1))" by linarith+
  moreover have "indent_line (nat (int n - k)) s = CHR '' '' # indent_line m s"
    using Suc(2) by (simp add: indent_line_def flip: Suc(2))
  ultimately show ?case using Suc by simp
qed

lemma min_indent_ge:
  "\<forall>s\<in>set ls. \<not> blank_line s \<longrightarrow> k \<le> leading_indent s \<Longrightarrow> m < 0 \<or> k \<le> m \<Longrightarrow>
     min_indent ls m < 0 \<or> k \<le> min_indent ls m"
  by (induction ls m rule: min_indent.induct) (auto simp: Let_def)

lemma min_indent_le_start: "0 \<le> m \<Longrightarrow> 0 \<le> min_indent ls m \<and> min_indent ls m \<le> m"
proof (induction ls m rule: min_indent.induct)
  case (2 s ls m)
  then show ?case using leading_indent_nonneg [of s] by (auto simp: Let_def)
qed simp

lemma min_indent_le:
  "s \<in> set ls \<Longrightarrow> \<not> blank_line s \<Longrightarrow> 0 \<le> min_indent ls m \<and> min_indent ls m \<le> leading_indent s"
proof (induction ls m rule: min_indent.induct)
  case (2 a ls m)
  show ?case
  proof (cases "s = a")
    case True
    then show ?thesis
      using 2 min_indent_le_start [of "if m < 0 \<or> leading_indent a < m then leading_indent a else m" ls]
        leading_indent_nonneg [of a] by (auto simp: Let_def split: if_splits)
  next
    case False
    then show ?thesis using 2 by (auto simp: Let_def)
  qed
qed simp

lemma split_char_join:
  "ls \<noteq> [] \<Longrightarrow> \<forall>s\<in>set ls. c \<notin> set s \<Longrightarrow> split_char c (go_join ls [c]) = ls"
proof (induction ls "[c]" rule: go_join.induct)
  case (2 s)
  then have "c \<notin> set s" by simp
  then show ?case by (induction s) auto
next
  case (3 x y r)
  have "split_char c (x @ c # t) = x # split_char c t" if "c \<notin> set x" for t
    using that by (induction x) auto
  with 3 show ?case by simp
qed simp

text \<open>A line and its indented form: a line without characters may be left as it is.\<close>

definition indents :: "nat \<Rightarrow> string \<Rightarrow> string \<Rightarrow> bool" where
  "indents n s t \<longleftrightarrow> t = indent_line n s \<or> s = [] \<and> t = []"

lemma indents_line:
  assumes "indents n s t"
  shows "blank_line t = blank_line s" "char_nl \<in> set t \<Longrightarrow> char_nl \<in> set s"
    "\<not> blank_line s \<Longrightarrow> leading_indent t = int n + leading_indent s" "strip_indent (int n) 0 t = s"
  using assms strip_indent_line [of 0 n s] blank_indent_line leading_indent_line
  by (auto simp: indents_def indent_line_def blank_line_def trim_right_def)

lemma go_join_last:
  "ks \<noteq> [] \<Longrightarrow> last ks \<noteq> [] \<or> 1 < length ks \<Longrightarrow>
   go_join ks [char_nl] \<noteq> [] \<and> last (go_join ks [char_nl]) = (if last ks = [] then char_nl else last (last ks))"
proof (induction ks)
  case (Cons k ks)
  show ?case
  proof (cases "ks = [] \<or> last ks \<noteq> [] \<or> 1 < length ks")
    case True
    then show ?thesis using Cons by (cases ks) (auto simp: go_join_Cons)
  next
    case False
    then have "ks = [[]]" by (cases ks) auto
    then show ?thesis by simp
  qed
qed simp

lemma dedent_indented:
  assumes ls: "\<forall>s\<in>set ls. char_nl \<notin> set s" "0 < n" and ts: "list_all2 (indents n) ls ts"
    and z: "s0 \<in> set ls" "\<not> blank_line s0" "leading_indent s0 = 0"
    and cr: "last ls = [] \<or> last (last ls) \<noteq> char_cr"
  shows "dedentTripleQuote ([char_nl] @ go_join ts [char_nl] @ [char_nl]) = go_join ls [char_nl]"
proof -
  let ?r = "go_join ts [char_nl]"
  have ne: "ls \<noteq> []" "ts \<noteq> []" and len: "length ts = length ls"
    using z ts by (auto simp: list_all2_lengthD)
  have nth: "indents n (ls ! i) (ts ! i)" if "i < length ls" for i
    using ts that by (simp add: list_all2_conv_all_nth)
  have in_ts: "\<exists>s\<in>set ls. indents n s t" if "t \<in> set ts" for t
    using that nth len by (metis in_set_conv_nth)
  have tlast: "indents n (last ls) (last ts)"
    using nth [of "length ls - 1"] ne len by (simp add: last_conv_nth)
  have lastr: "?r \<noteq> [] \<and> last ?r \<noteq> char_cr"
  proof -
    have "last ts \<noteq> [] \<or> 1 < length ts"
    proof (rule ccontr)
      assume "\<not> (last ts \<noteq> [] \<or> 1 < length ts)"
      then have "ts = [[]]" using ne by (cases ts) auto
      then obtain s where "ls = [s]" "indents n s []" using ts by (auto simp: list_all2_Cons2)
      then show False using z ls(2) by (auto simp: indents_def indent_line_def blank_line_def trim_right_def)
    qed
    moreover have "last ts \<noteq> [] \<Longrightarrow> last (last ts) \<noteq> char_cr"
      using tlast cr ls(2) by (auto simp: indents_def indent_line_def last_append split: if_splits)
    ultimately show ?thesis using go_join_last [OF ne(2)] by auto
  qed
  have 1: "strip_last_newline (strip_first_newline ([char_nl] @ ?r @ [char_nl])) = ?r"
    using lastr by (simp add: strip_first_newline_def strip_last_newline_def Let_def)
  have 2: "split_char char_nl ?r = ts"
    using ls ne in_ts indents_line(2) by (intro split_char_join) blast+
  have 3: "min_indent ts (- 1) = int n"
  proof -
    have "\<forall>t\<in>set ts. \<not> blank_line t \<longrightarrow> int n \<le> leading_indent t"
    proof (intro ballI impI)
      fix t assume "t \<in> set ts" "\<not> blank_line t"
      then obtain s where "indents n s t" "\<not> blank_line s" using in_ts indents_line(1) by blast
      then show "int n \<le> leading_indent t" using indents_line(3) leading_indent_nonneg [of s] by simp
    qed
    then have "min_indent ts (- 1) < 0 \<or> int n \<le> min_indent ts (- 1)"
      by (rule min_indent_ge) simp
    moreover obtain i where i: "i < length ls" "s0 = ls ! i" using z(1) by (metis in_set_conv_nth)
    then have t0: "indents n s0 (ts ! i)" "ts ! i \<in> set ts" using nth len by simp_all
    then have "0 \<le> min_indent ts (- 1) \<and> min_indent ts (- 1) \<le> leading_indent (ts ! i)"
      using z(2) by (intro min_indent_le) (simp_all add: indents_line(1))
    ultimately show ?thesis using indents_line(3) [OF t0(1) z(2)] z(3) by simp
  qed
  have "strip_indent (int n) 0 (ts ! i) = ls ! i" if "i < length ls" for i
    by (rule indents_line(4) [OF nth [OF that]])
  then have "map (strip_indent (int n) 0) ts = ls"
    using len by (intro nth_equalityI) simp_all
  then show ?thesis
    using 1 2 3 ls(2) by (simp add: dedentTripleQuote_def Let_def)
qed

section \<open>Settling the indentation of a line\<close>

text \<open>The leading blanks of what is left, and the code that follows them.\<close>

definition lead :: "lexer \<Rightarrow> rune list" where
  "lead l = takeWhile isBlank (rest l)"

lemma countBlanks_lead:
  "fst (fst (countBlanks s t l)) = s + int (length (filter (\<lambda>c. c = 32) (lead l))) \<and>
   snd (fst (countBlanks s t l)) = t + int (length (filter (\<lambda>c. c \<noteq> 32) (lead l))) \<and>
   rest (snd (countBlanks s t l)) = drop (length (lead l)) (rest l) \<and>
   skips l (snd (countBlanks s t l))"
proof (induction s t l rule: countBlanks.induct)
  case (1 s t l)
  show ?case
  proof (cases "rest l")
    case Nil
    then show ?thesis by (subst (1 2 3 4) countBlanks.simps) (simp add: isAtEnd_rest lead_def)
  next
    case (Cons c cs)
    then have n: "\<not> isAtEnd l" "peek l = c" by (simp_all add: isAtEnd_rest peek_rest)
    have sk: "skips (skip l) l1 \<Longrightarrow> skips l l1" for l1
      using skips_trans [of "skip l" l1 l] by simp
    consider "c = 32" | "c = 9" | "\<not> isBlank c" by fastforce
    then show ?thesis
    proof cases
      case 1
      then show ?thesis using "1.IH"(1) n Cons sk
        by (subst (1 2 3 4) countBlanks.simps) (simp add: lead_def)
    next
      case 2
      then show ?thesis using "1.IH"(2) n Cons sk
        by (subst (1 2 3 4) countBlanks.simps) (simp add: lead_def)
    next
      case 3
      then show ?thesis using n Cons
        by (subst (1 2 3 4) countBlanks.simps) (simp add: lead_def)
    qed
  qed
qed

lemma butlast_filter_le:
  fixes xs :: "int list"
  assumes "sorted_wrt (<) xs" "xs \<noteq> []" "n < last xs"
  shows "filter (\<lambda>x. x \<le> n) (butlast xs) = filter (\<lambda>x. x \<le> n) xs"
    "filter (\<lambda>x. n < x) xs = filter (\<lambda>x. n < x) (butlast xs) @ [last xs]"
proof -
  have xs: "xs = butlast xs @ [last xs]" using assms(2) by simp
  have "filter (\<lambda>x. x \<le> n) (butlast xs @ [last xs]) = filter (\<lambda>x. x \<le> n) (butlast xs)"
    "filter (\<lambda>x. n < x) (butlast xs @ [last xs]) = filter (\<lambda>x. n < x) (butlast xs) @ [last xs]"
    using assms(3) by simp_all
  with xs show "filter (\<lambda>x. x \<le> n) (butlast xs) = filter (\<lambda>x. x \<le> n) xs"
    "filter (\<lambda>x. n < x) xs = filter (\<lambda>x. n < x) (butlast xs) @ [last xs]" by metis+
qed

lemma popIndent_fields [simp]:
  "tokens (popIndent l) = tokens l @ [mkToken TOKEN_DEDENT (current_lexeme l) l]"
  "parenDepth (popIndent l) = parenDepth l" "errors (popIndent l) = errors l"
  by (simp_all add: popIndent_def addToken_def Let_def)

lemma dedentLoop_spec:
  "layout_inv l \<Longrightarrow> 0 \<le> n \<Longrightarrow>
     indentStack (dedentLoop n l) = filter (\<lambda>x. x \<le> n) (indentStack l) \<and>
     map Type (tokens (dedentLoop n l)) = map Type (tokens l) @
       replicate (length (filter (\<lambda>x. n < x) (indentStack l))) TOKEN_DEDENT \<and>
     parenDepth (dedentLoop n l) = parenDepth l \<and> errors (dedentLoop n l) = errors l"
proof (induction n l rule: dedentLoop.induct)
  case (1 n l)
  have s: "sorted_wrt (<) (indentStack l)" "indentStack l \<noteq> []" "hd (indentStack l) = 0"
    using 1(2) by (auto simp: layout_inv_defs)
  show ?case
  proof (cases "length (indentStack l) > 1 \<and> last (indentStack l) > n")
    case True
    then have "layout_inv (popIndent l)" using 1(2) layout_inv_dedent by blast
    moreover have "dedentLoop n l = dedentLoop n (popIndent l)" using True by (subst dedentLoop.simps) simp
    ultimately show ?thesis
      using 1(1) [OF True] 1(3) butlast_filter_le [OF s(1,2), of n] True
      by (simp add: replicate_append_same flip: replicate_Suc)
  next
    case False
    have le: "last (indentStack l) \<le> n"
    proof (cases "length (indentStack l) > 1")
      case True
      then show ?thesis using False by simp
    next
      case single: False
      then have "length (indentStack l) = 1" using s(2) by (cases "indentStack l") auto
      then have "indentStack l = [0]" using s(3) by (cases "indentStack l") auto
      then show ?thesis using 1(3) by simp
    qed
    then have all: "\<forall>x\<in>set (indentStack l). x \<le> n"
      using sorted_wrt_less_last [OF s(1)] by force
    have "dedentLoop n l = l" using False by (subst dedentLoop.simps) auto
    moreover have "filter (\<lambda>x. n < x) (indentStack l) = []" using all by (auto simp: filter_empty_conv)
    ultimately show ?thesis using all by simp
  qed
qed

lemma skips_continuation:
  "skips l m \<Longrightarrow> parenDepth m = parenDepth l \<and> pendingClosureBlock m = pendingClosureBlock l \<and>
     closureParenDepthStack m = closureParenDepthStack l \<and> inParenContinuation m = inParenContinuation l"
  by (induction rule: skips.induct) (simp_all add: skip_def advance_def inParenContinuation_def)

lemma handleIndentation_spec:
  assumes inv: "layout_inv l" and top: "\<not> (inParenContinuation l \<and> \<not> pendingClosureBlock l)"
    and code: "drop (length (lead l)) (rest l) = c # cs" "c \<notin> {rune_nl, rune_cr, rn CHR ''#''}"
    and ok: "errors (handleIndentation l) = errors l"
  defines "n \<equiv> int (length (lead l))"
  shows "last (indentStack (handleIndentation l)) = n \<or> inParenContinuation (handleIndentation l)"
    "indentStack (handleIndentation l) =
       (if last (indentStack l) < n then indentStack l @ [n] else filter (\<lambda>x. x \<le> n) (indentStack l))"
    "map Type (tokens (handleIndentation l)) = map Type (tokens l) @
       (if last (indentStack l) < n then [TOKEN_INDENT]
        else replicate (length (filter (\<lambda>x. n < x) (indentStack l))) TOKEN_DEDENT)"
proof -
  obtain s t m where cb: "countBlanks 0 0 l = ((s, t), m)" by (metis prod.exhaust)
  have m: "rest m = c # cs" "skips l m" "s = int (length (filter (\<lambda>c. c = 32) (lead l)))"
      "t = int (length (filter (\<lambda>c. c \<noteq> 32) (lead l)))"
    using countBlanks_lead [of 0 0 l] cb code(1) by simp_all
  have fr: "indentStack m = indentStack l" "tokens m = tokens l" "errors m = errors l"
      "lframe l m"
    using skips_frame [OF m(2)] by (simp_all add: lframe_def)
  have inv': "layout_inv m" using layout.frame [OF inv fr(4)] .
  have np: "\<not> (inParenContinuation m \<and> \<not> pendingClosureBlock m)"
    using top skips_continuation [OF m(2)] by simp
  have nc: "\<not> (isAtEnd m \<or> peek m = rune_nl \<or> peek m = rune_cr \<or> peek m = rn CHR ''#'')"
    using m(1) code(2) by (simp add: isAtEnd_rest peek_rest)
  have err: "errors (lexError e x) \<noteq> errors x" for e x by (simp add: lexError_def)
  have h: "handleIndentation l =
     (if t > 0 then lexError TabsNotAllowed m
      else if s mod 4 \<noteq> 0 then lexError (NotMultipleOfFour s (if (s + 2) div 4 * 4 = 0 then 4 else (s + 2) div 4 * 4)) m
      else if s > last (indentStack m) then
        (if \<not> pendingClosureBlock m \<and> s \<noteq> last (indentStack m) + 4
         then lexError (IndentJump (last (indentStack m)) s) m else openIndent s m)
      else if s < last (indentStack m) then closeIndent s m else m)"
    unfolding handleIndentation_def cb Let_def prod.case if_not_P [OF np] if_not_P [OF nc] ..
  have no: "handleIndentation l \<noteq> lexError e m" for e
    using ok err [of e m] fr(3) by metis
  have "\<not> t > 0"
  proof
    assume "t > 0"
    then show False using no [of TabsNotAllowed] by (simp only: h if_True simp_thms)
  qed
  then have t0: "t = 0" using m(4) by simp
  have s4: "s mod 4 = 0"
  proof (rule ccontr)
    assume "s mod 4 \<noteq> 0"
    then show False
      using no [of "NotMultipleOfFour s (if (s + 2) div 4 * 4 = 0 then 4 else (s + 2) div 4 * 4)"] t0
      by (simp only: h if_True) simp
  qed
  have "filter (\<lambda>c. c = 32) (lead l) = lead l"
    using t0 m(4) by (simp only: of_nat_0_eq_iff of_nat_eq_0_iff length_0_conv filter_empty_conv filter_id_conv simp_thms)
  then have sn: "s = n" using m(3) by (simp add: n_def)
  have ne: "indentStack l \<noteq> []" "sorted_wrt (<) (indentStack l)" using inv by (simp_all add: layout_inv_defs)
  consider (up) "last (indentStack l) < n" | (down) "n < last (indentStack l)" | (same) "n = last (indentStack l)"
    by linarith
  then have "(last (indentStack (handleIndentation l)) = n \<or> inParenContinuation (handleIndentation l)) \<and>
    indentStack (handleIndentation l) =
       (if last (indentStack l) < n then indentStack l @ [n] else filter (\<lambda>x. x \<le> n) (indentStack l)) \<and>
    map Type (tokens (handleIndentation l)) = map Type (tokens l) @
       (if last (indentStack l) < n then [TOKEN_INDENT]
        else replicate (length (filter (\<lambda>x. n < x) (indentStack l))) TOKEN_DEDENT)"
  proof cases
    case up
    then have "handleIndentation l = openIndent n m"
      using h no [of "IndentJump (last (indentStack m)) s"] fr t0 s4 sn by (simp only: split: if_splits) simp_all
    then show ?thesis using up fr by (simp add: openIndent_def addToken_def Let_def)
  next
    case down
    then have hc: "handleIndentation l = closeIndent n m"
      using h fr t0 s4 sn by simp
    let ?d = "dedentLoop n m"
    have d: "indentStack ?d = filter (\<lambda>x. x \<le> n) (indentStack l)"
      "map Type (tokens ?d) = map Type (tokens l) @
         replicate (length (filter (\<lambda>x. n < x) (indentStack l))) TOKEN_DEDENT"
      "errors ?d = errors l"
      using dedentLoop_spec [OF inv', of n] fr by (auto simp: n_def)
    have "closeIndent n m = ?d \<and> (last (indentStack ?d) = n \<or> inParenContinuation ?d)"
      using ok hc d err [of _ ?d]
      by (auto simp: closeIndent_def Let_def split: if_splits)
    then show ?thesis using hc d down by simp
  next
    case same
    then have "handleIndentation l = m" using h fr t0 s4 sn by simp
    moreover have "\<forall>x\<in>set (indentStack l). x \<le> n"
      using same sorted_wrt_less_last [OF ne(2)] by blast
    then have "filter (\<lambda>x. x \<le> n) (indentStack l) = indentStack l"
      "filter (\<lambda>x. n < x) (indentStack l) = []" by (auto simp: filter_empty_conv)
    ultimately show ?thesis using same fr by simp
  qed
  then show "last (indentStack (handleIndentation l)) = n \<or> inParenContinuation (handleIndentation l)"
    "indentStack (handleIndentation l) =
       (if last (indentStack l) < n then indentStack l @ [n] else filter (\<lambda>x. x \<le> n) (indentStack l))"
    "map Type (tokens (handleIndentation l)) = map Type (tokens l) @
       (if last (indentStack l) < n then [TOKEN_INDENT]
        else replicate (length (filter (\<lambda>x. n < x) (indentStack l))) TOKEN_DEDENT)" by blast+
qed

text \<open>Blank lines, comment lines and continuation lines of a call in parentheses change nothing.\<close>

definition plain_layout :: "lexer \<Rightarrow> bool" where
  "plain_layout l \<longleftrightarrow>
     (case drop (length (lead l)) (rest l) of [] \<Rightarrow> True | c # cs \<Rightarrow> c \<in> {rune_nl, rune_cr, rn CHR ''#''}) \<or>
     inParenContinuation l \<and> \<not> pendingClosureBlock l"

lemma handleIndentation_plain:
  assumes "plain_layout l" and ok: "errors (handleIndentation l) = errors l"
  shows "indentStack (handleIndentation l) = indentStack l" "tokens (handleIndentation l) = tokens l"
proof -
  obtain s t m where cb: "countBlanks 0 0 l = ((s, t), m)" by (metis prod.exhaust)
  have m: "rest m = drop (length (lead l)) (rest l)" "skips l m"
    using countBlanks_lead [of 0 0 l] cb by simp_all
  have fr: "indentStack m = indentStack l" "tokens m = tokens l" "errors m = errors l"
    using skips_frame [OF m(2)] by (simp_all add: lframe_def)
  note pd = skips_continuation [OF m(2)]
  consider (line) "isAtEnd m \<or> peek m = rune_nl \<or> peek m = rune_cr \<or> peek m = rn CHR ''#''"
    | (call) "inParenContinuation m \<and> \<not> pendingClosureBlock m"
    using assms(1) pd unfolding plain_layout_def m(1) [symmetric]
    by (cases "rest m") (auto simp: isAtEnd_rest peek_rest)
  then have "handleIndentation l = (if t > 0 then lexError TabsNotAllowed m else m)"
  proof cases
    case line
    show ?thesis unfolding handleIndentation_def cb Let_def prod.case if_P [OF line] ..
  next
    case call
    show ?thesis unfolding handleIndentation_def cb Let_def prod.case if_P [OF call] if_cancel ..
  qed
  moreover have "errors (lexError TabsNotAllowed m) \<noteq> errors m" by (simp add: lexError_def)
  ultimately have "handleIndentation l = m" using ok fr by (auto split: if_splits)
  then show "indentStack (handleIndentation l) = indentStack l" "tokens (handleIndentation l) = tokens l"
    using fr by simp_all
qed

section \<open>Properties\<close>

text \<open>A small program that the witnesses run.\<close>

definition sample_source :: string where
  "sample_source = ''if{}''"

lemma sample_scans:
  "case ScanTokens (NewLexer sample_source ''f'') of Inl _ \<Rightarrow> False | Inr ts \<Rightarrow> length ts = 4"
  by code_simp

lemma sample_tokens: "\<exists>ts. ScanTokens (NewLexer sample_source ''f'') = Inr ts"
  using sample_scans by (auto split: sum.splits)

lemma sample_closed: "True \<notin> set (braceStack (scanLoop (NewLexer sample_source ''f'')))"
  by code_simp

text \<open>C11: Scanning terminates on every input, although multi-line strings are spliced back into
  the source while it is scanned: finitely many calls of \<^verbatim>\<open>scanToken\<close> reach the end, and the
  loop of \<^verbatim>\<open>ScanTokens\<close> is exactly those calls.\<close>

theorem scan_terminates:
  "\<exists>n. isAtEnd ((scan_step ^^ n) (NewLexer src fname)) \<and>
       scanLoop (NewLexer src fname) = (scan_step ^^ n) (NewLexer src fname)"
  using scanLoop_iterate [of "NewLexer src fname"]
    scanLoop_invariant [of "\<lambda>_. True" "NewLexer src fname"] by auto

text \<open>C14: In every state the lexer passes through, the indentation stack is not empty, starts with
  0, increases strictly and holds multiples of four; the two closure stacks have equal length and
  hold only open levels; \<^verbatim>\<open>braceBlockDepth\<close> counts the open block braces and no depth is negative.
  So no slice of \<^verbatim>\<open>lexer.go\<close> is indexed or cut when it is empty.\<close>

theorem lexer_stacks_ok:
  assumes "reachable src fname l"
  shows "indentStack l \<noteq> [] \<and> hd (indentStack l) = 0 \<and> sorted_wrt (<) (indentStack l) \<and>
    list_all (\<lambda>n. n mod 4 = 0) (indentStack l) \<and>
    length (closureIndentStack l) = length (closureParenDepthStack l) \<and>
    set (closureIndentStack l) \<subseteq> set (tl (indentStack l)) \<and>
    braceBlockDepth l = int (count_list (braceStack l) True) \<and> 0 \<le> braceDepth l \<and> 0 \<le> parenDepth l"
  using reachable_layout_inv [OF assms] by (simp add: layout_inv_defs list_all_iff)

theorem lexer_stacks_ok_witness:
  "indentStack (scan_step (NewLexer ''a'' ''f'')) \<noteq> []"
  using lexer_stacks_ok [OF reachable.step [OF reachable.init [of "''a''" "''f''"]]]
  by (simp add: isAtEnd_def NewLexer_def go_runes_def)

text \<open>C31: A successful scan returns the tokens in line order, all stamped with the file name, and
  ends with the EOF token, which occurs nowhere else.\<close>

theorem scan_tokens_shape:
  assumes "ScanTokens (NewLexer src fname) = Inr ts"
  shows "\<exists>ts' e. ts = ts' @ [e] \<and> Type e = TOKEN_EOF \<and>
    list_all (\<lambda>t. Type t \<noteq> TOKEN_EOF) ts' \<and>
    sorted_wrt (\<le>) (map Line ts) \<and> list_all (\<lambda>t. File t = fname) ts"
  using ScanTokens_tokens [OF assms] by (simp add: list_all_iff)

theorem scan_tokens_shape_witness:
  "\<exists>ts ts' e. ScanTokens (NewLexer sample_source ''f'') = Inr ts \<and> ts = ts' @ [e] \<and> Type e = TOKEN_EOF"
  using sample_tokens scan_tokens_shape by meson

text \<open>C20: In the tokens a scan returns no DEDENT comes before its INDENT, and the blocks left open at
  the end are block braces of the source that were never closed: if every block brace is closed,
  INDENT and DEDENT balance, after the pipe continuations have been merged as well.\<close>

theorem scan_tokens_balanced:
  assumes "ScanTokens (NewLexer src fname) = Inr ts"
    and "True \<notin> set (braceStack (scanLoop (NewLexer src fname)))"
  shows "layout_depth 0 ts = Some 0"
  using ScanTokens_depth [OF assms(1)] assms(2) by (simp add: count_list_0_iff)

theorem scan_tokens_balanced_witness:
  "\<exists>ts. ScanTokens (NewLexer sample_source ''f'') = Inr ts \<and> layout_depth 0 ts = Some 0"
  using sample_tokens scan_tokens_balanced [OF _ sample_closed] by meson

text \<open>C32: Merging pipe continuations removes only layout: every other token survives, in order, and
  nothing is inserted.\<close>

theorem merge_keeps_code:
  "filter (\<lambda>t. \<not> isLayout t) (mergeLineContinuations ts) = filter (\<lambda>t. \<not> isLayout t) ts \<and>
   subseq (mergeLineContinuations ts) ts"
  unfolding mergeLineContinuations_def
  using merges_keeps [OF mergeLoop_merges] merges_subseq [OF mergeLoop_merges] by blast

text \<open>C37: A token list without a pipe is returned unchanged.\<close>

theorem merge_without_pipe:
  assumes "list_all (\<lambda>t. Type t \<noteq> TOKEN_PIPE) ts"
  shows "mergeLineContinuations ts = ts"
  unfolding mergeLineContinuations_def using assms by (intro mergeLoop_no_pipe) (simp add: list_all_iff)

theorem merge_without_pipe_witness:
  "mergeLineContinuations [mkToken TOKEN_NEWLINE [] (NewLexer [] [])]
    = [mkToken TOKEN_NEWLINE [] (NewLexer [] [])]"
  by (rule merge_without_pipe) simp

text \<open>C21: The formatter's escaping and the lexer's unescaping are inverse: a text of valid code
  points in which no brace is followed by a letter, printed by \<^verbatim>\<open>escapeStringValue\<close> between
  double quotes, scans to exactly one STRING token with that text as its value.\<close>

theorem escape_roundtrip:
  assumes "list_all valid_rune rs" "interp_free rs"
  shows "\<exists>t e. ScanTokens (NewLexer ([CHR 0x22] @ escapeStringValue (go_string rs) @ [CHR 0x22]) fname)
      = Inr [t, e] \<and> Type t = TOKEN_STRING \<and> Lexeme t = go_string rs \<and> Type e = TOKEN_EOF"
  using assms by (intro ScanTokens_escaped) (simp_all add: list_all_iff)

theorem escape_roundtrip_witness:
  "\<exists>t e. ScanTokens (NewLexer ([CHR 0x22] @ escapeStringValue (go_string [97, 34, 10, 0xE000, 98]) @ [CHR 0x22]) ''f'')
      = Inr [t, e] \<and> Type t = TOKEN_STRING \<and> Lexeme t = go_string [97, 34, 10, 0xE000, 98] \<and> Type e = TOKEN_EOF"
  by (rule escape_roundtrip) (simp_all add: valid_rune_def)

text \<open>Without the condition the claim is false: a brace that the source writes as \<^verbatim>\<open>\x7b\<close> is printed bare and
  starts an interpolation when it is read again.\<close>

lemma brace_read_as_interpolation:
  "escapeStringValue ''{a}'' = ''{a}''"
  "peek (NewLexer ''{a}'' f) = rn CHR ''{'' \<and> isInterpStart (NewLexer ''{a}'' f)"
  by (simp_all add: escapeStringValue_def escape_rune_def go_runes_def utf8_encode_def char_of_def
      isInterpStart_def NewLexer_def peek_def isAtEnd_def isAlpha_def bit_0)

text \<open>C33: Where an identifier begins, the lexer takes the longest run of letters, digits and
  underscores, emits one token for it, a keyword exactly if the run is in the keyword table, and
  leaves what follows.\<close>

theorem identifier_longest_match:
  assumes "rest l = w @ X" "start l = current l" "w \<noteq> []" "isAlpha (hd w)"
    "list_all isAlphaNumeric w" "X = [] \<or> \<not> isAlphaNumeric (hd X)"
  shows "\<exists>t. tokens (scanRune l) = tokens l @ [t] \<and> Type t = LookupKeyword (go_string w) \<and>
    Lexeme t = go_string w \<and> Line t = line l \<and> rest (scanRune l) = X"
  using assms by (intro scanRune_identifier) (simp_all add: list_all_iff)

theorem identifier_longest_match_witness:
  "\<exists>t. tokens (scanRune (NewLexer ''if(x'' ''f'')) = [t] \<and> Type t = LookupKeyword (go_string [105, 102])"
  using identifier_longest_match [of "NewLexer ''if(x'' ''f''" "[105, 102]" "[40, 120]"]
  by (simp add: rest_def NewLexer_def go_runes_def isAlpha_def isAlphaNumeric_def isDigit_def) blast

text \<open>C35: Dedenting undoes indenting by spaces: if every line of a text is indented by the same number of
  spaces, lines without characters excepted, which may stay as they are, and the result is put between
  line breaks, as in a triple-quoted string, then \<^verbatim>\<open>dedentTripleQuote\<close> returns the text. One line of the text is
  neither blank nor indented, and the last one does not end in a carriage return.\<close>

theorem dedent_undoes_indent:
  assumes "list_all (\<lambda>s. char_nl \<notin> set s) ls" "0 < n" "list_all2 (indents n) ls ts"
    "s0 \<in> set ls" "\<not> blank_line s0" "leading_indent s0 = 0" "last ls = [] \<or> last (last ls) \<noteq> char_cr"
  shows "dedentTripleQuote ([char_nl] @ go_join ts [char_nl] @ [char_nl]) = go_join ls [char_nl]"
  using dedent_indented [OF _ assms(2-7)] assms(1) by (simp add: list_all_iff)

theorem dedent_undoes_indent_witness:
  "dedentTripleQuote ([char_nl] @ ''    a'' @ [char_nl] @ [char_nl] @ ''      b'' @ [char_nl])
    = ''a'' @ [char_nl] @ [char_nl] @ ''  b''"
  using dedent_undoes_indent [of "[''a'', [], ''  b'']" 4 "[''    a'', [], ''      b'']" "''a''"]
  by (simp add: blank_line_def trim_right_def numeral_eq_Suc indents_def indent_line_def)

text \<open>A tab at the edge of the common indentation is removed whole, with more than was asked for.\<close>

lemma tab_overshoots: "dedentTripleQuote (''  a'' @ [char_nl] @ [char_tab] @ ''b'') = ''a'' @ [char_nl] @ ''b''"
  by (simp add: dedentTripleQuote_def strip_first_newline_def strip_last_newline_def blank_line_def
      trim_right_def)

text \<open>C24: Settling the indentation of a line either reports an error or does exactly what the layout asks
  for. At a blank line, a comment line or a continuation line of a call in parentheses it changes
  neither the stack nor the tokens. At any other line it emits one INDENT if the line is deeper than the
  open level, and one DEDENT for each open level that is deeper than the line, and leaves the line's own
  indentation on top of the stack; only a line that closes a block-bodied lambda and falls back into
  the call around it need not match a level.\<close>

theorem indentation_settled:
  assumes "layout_inv l" and "errors (handleIndentation l) = errors l"
  shows "if plain_layout l
     then indentStack (handleIndentation l) = indentStack l \<and> tokens (handleIndentation l) = tokens l
     else (last (indentStack (handleIndentation l)) = int (length (lead l)) \<or>
           inParenContinuation (handleIndentation l)) \<and>
       map Type (tokens (handleIndentation l)) = map Type (tokens l) @
         (if last (indentStack l) < int (length (lead l)) then [TOKEN_INDENT]
          else replicate (length (filter (\<lambda>x. int (length (lead l)) < x) (indentStack l))) TOKEN_DEDENT)"
proof (cases "plain_layout l")
  case True
  then show ?thesis using handleIndentation_plain [OF _ assms(2)] by simp
next
  case False
  then obtain c cs where code: "drop (length (lead l)) (rest l) = c # cs" "c \<notin> {rune_nl, rune_cr, rn CHR ''#''}"
    and top: "\<not> (inParenContinuation l \<and> \<not> pendingClosureBlock l)"
    by (cases "drop (length (lead l)) (rest l)") (auto simp: plain_layout_def)
  show ?thesis
    using handleIndentation_spec(1,3) [OF assms(1) top code assms(2)] False by simp
qed

theorem indentation_settled_witness:
  "last (indentStack (handleIndentation (NewLexer ''    x'' ''f''))) = 4"
proof -
  let ?l = "NewLexer ''    x'' ''f''"
  have e: "errors (handleIndentation ?l) = errors ?l" by code_simp
  have "\<not> plain_layout ?l" by code_simp
  then have "last (indentStack (handleIndentation ?l)) = int (length (lead ?l)) \<or>
      inParenContinuation (handleIndentation ?l)"
    using indentation_settled [OF layout_inv_NewLexer e] by simp
  moreover have "\<not> inParenContinuation (handleIndentation ?l)" by code_simp
  moreover have "int (length (lead ?l)) = 4" by code_simp
  ultimately show ?thesis by simp
qed

end
