(* ===== verification/FormatType.thy ===== *)
theory FormatType
  imports TypeSyntax LexerProps
begin

text \<open>
  The formatter's rendering of a type annotation (\<^verbatim>\<open>typeAnnotationToString\<close> of
  \<^verbatim>\<open>internal/formatter/printer.go\<close>) and the round trip through the lexer and the parser: the
  printed text scans without error and parses to the annotation it was printed from.
\<close>

section \<open>Printing\<close>

fun typeAnnotationToString :: "TypeAnnotation \<Rightarrow> string" where
  "typeAnnotationToString NilType = []"
| "typeAnnotationToString (PrimitiveType t n) = n"
| "typeAnnotationToString (NamedType t n) = n"
| "typeAnnotationToString (ReferenceType t e) = ''reference '' @ typeAnnotationToString e"
| "typeAnnotationToString (ListType t e) = ''list of '' @ typeAnnotationToString e"
| "typeAnnotationToString (MapType t k v) =
     ''map of '' @ typeAnnotationToString k @ '' to '' @ typeAnnotationToString v"
| "typeAnnotationToString (ChannelType t e) = ''channel of '' @ typeAnnotationToString e"
| "typeAnnotationToString (FunctionType t ps rs) =
     ''func('' @ go_join (map typeAnnotationToString ps) '', '' @ '')'' @
     (case map typeAnnotationToString rs of
        [] \<Rightarrow> []
      | [r] \<Rightarrow> '' '' @ r
      | returnTypes \<Rightarrow> '' ('' @ go_join returnTypes '', '' @ '')'')"

section \<open>Texts made of words and punctuation on one line\<close>

datatype piece = W string | Sp | LP | RP | CM | DT

fun piece_text :: "piece \<Rightarrow> string" where
  "piece_text (W w) = w"
| "piece_text Sp = '' ''"
| "piece_text LP = ''(''"
| "piece_text RP = '')''"
| "piece_text CM = '',''"
| "piece_text DT = ''.''"

fun piece_token :: "piece \<Rightarrow> (token_type \<times> string) list" where
  "piece_token (W w) = [(LookupKeyword w, w)]"
| "piece_token Sp = []"
| "piece_token LP = [(TOKEN_LPAREN, ''('')]"
| "piece_token RP = [(TOKEN_RPAREN, '')'')]"
| "piece_token CM = [(TOKEN_COMMA, '','')]"
| "piece_token DT = [(TOKEN_DOT, ''.'')]"

abbreviation pieces_text :: "piece list \<Rightarrow> string" where
  "pieces_text ps \<equiv> concat (map piece_text ps)"

abbreviation pieces_tokens :: "piece list \<Rightarrow> (token_type \<times> string) list" where
  "pieces_tokens ps \<equiv> concat (map piece_token ps)"

abbreviation tok_pair :: "token \<Rightarrow> token_type \<times> string" where
  "tok_pair t \<equiv> (Type t, Lexeme t)"

definition word_char :: "char \<Rightarrow> bool" where
  "word_char c \<longleftrightarrow> isAlphaNumeric (of_char c)"

definition is_word :: "string \<Rightarrow> bool" where
  "is_word w \<longleftrightarrow> w \<noteq> [] \<and> isAlpha (of_char (hd w)) \<and> list_all word_char w"

text \<open>No two words and no two spaces side by side, and no space at the end.\<close>

fun spaced :: "piece list \<Rightarrow> bool" where
  "spaced [] \<longleftrightarrow> True"
| "spaced [p] \<longleftrightarrow> p \<noteq> Sp \<and> (\<forall>w. p = W w \<longrightarrow> is_word w)"
| "spaced (p # q # ps) \<longleftrightarrow> (\<forall>w. p = W w \<longrightarrow> is_word w \<and> (\<forall>v. q \<noteq> W v)) \<and> (p = Sp \<longrightarrow> q \<noteq> Sp) \<and> spaced (q # ps)"

lemma word_char_ascii: "word_char c \<Longrightarrow> (of_char c :: nat) < 128"
  by (auto simp: word_char_def isAlphaNumeric_def isAlpha_def isDigit_def)

lemma go_runes_ascii:
  "(\<And>c. c \<in> set s \<Longrightarrow> (of_char c :: nat) < 128) \<Longrightarrow> go_runes s = map of_char s"
  by (induction s) (simp_all add: go_runes_def)

lemma go_string_ascii:
  "(\<And>c. c \<in> set s \<Longrightarrow> (of_char c :: nat) < 128) \<Longrightarrow> go_string (map of_char s) = s"
  by (induction s) (simp_all add: go_string_def utf8_encode_of_char)

text \<open>The lexer with nothing reported and no open block, and the same in the middle of a line.\<close>

definition quiet :: "lexer \<Rightarrow> bool" where
  "quiet l \<longleftrightarrow> errors l = [] \<and> indentStack l = [0]"

definition inline :: "lexer \<Rightarrow> bool" where
  "inline l \<longleftrightarrow> quiet l \<and> \<not> atLineStart l"

text \<open>\<open>emits l toks l'\<close>: a step that appends tokens of these types and lexemes.\<close>

definition emits :: "lexer \<Rightarrow> (token_type \<times> string) list \<Rightarrow> lexer \<Rightarrow> bool" where
  "emits l ts l' \<longleftrightarrow> inline l' \<and> map tok_pair (tokens l') = map tok_pair (tokens l) @ ts"

lemma atLineStart_simps [simp]:
  "atLineStart (addTokenWithLexeme tt s l) = atLineStart l" "atLineStart (skip l) = atLineStart l"
  "errors (skip l) = errors l" "indentStack (skip l) = indentStack l"
  by (simp_all add: addTokenWithLexeme_def Let_def skip_def advance_def)

lemma quiet_simps [simp]:
  "quiet (skip l) = quiet l" "quiet (addTokenWithLexeme tt s l) = quiet l"
  "quiet (start_update f l) = quiet l" "quiet (parenDepth_update g l) = quiet l"
  "quiet (inFunctionLiteral_update h l) = quiet l" "quiet (indentationHandled_update h l) = quiet l"
  "quiet (atLineStart_update h l) = quiet l"
  by (simp_all add: quiet_def)

lemma inline_simps [simp]:
  "inline (skip l) = inline l" "inline (addTokenWithLexeme tt s l) = inline l"
  "inline (start_update f l) = inline l" "inline (parenDepth_update g l) = inline l"
  "inline (inFunctionLiteral_update h l) = inline l" "inline (indentationHandled_update h l) = inline l"
  by (simp_all add: inline_def)

lemma inline_funpow: "inline ((skip ^^ k) l) = inline l"
  by (induction k) simp_all

lemma scanToken_inline: "inline l \<Longrightarrow> scanToken l = scanRune l"
  by (simp add: scanToken_def skipContinuationIndent_def skipBraceBlockIndent_def inline_def Let_def)

lemma scanRune_eq: "scanRune l = scanSwitch (peek l) ((skip l)\<lparr>atLineStart := False\<rparr>)"
  by (simp add: scanRune_def advance_eq)

lemma inline_scanIdentifier: "inline l \<Longrightarrow> inline (scanIdentifier l)"
proof -
  assume "inline l"
  moreover have "\<not> isAlphaNumeric 0" by (simp add: isAlphaNumeric_def isAlpha_def isDigit_def)
  ultimately show ?thesis
    by (simp add: scanIdentifier_def advance_while_skips inline_funpow Let_def)
qed

lemma emits_word:
  assumes l: "quiet l" "start l = current l" "rest l = map of_char w @ X"
    and w: "is_word w" "X = [] \<or> \<not> isAlphaNumeric (hd X)"
  shows "emits l [(LookupKeyword w, w)] (scanRune l) \<and> rest (scanRune l) = X"
proof -
  have gs: "go_string (map of_char w) = w"
    using w(1) word_char_ascii by (intro go_string_ascii) (auto simp: is_word_def list_all_iff)
  have w': "map of_char w \<noteq> []" "isAlpha (hd (map of_char w))" "\<forall>c\<in>set (map of_char w). isAlphaNumeric c"
    using w(1) by (auto simp: is_word_def list_all_iff word_char_def hd_map)
  obtain t where t: "tokens (scanRune l) = tokens l @ [t]" "Type t = LookupKeyword w" "Lexeme t = w"
      "rest (scanRune l) = X"
    using scanRune_identifier [OF l(3,2) w' w(2)] gs by auto
  have "isAlpha (peek l)" using l(3) w' by (cases w) (auto simp: peek_rest)
  moreover have "inline ((skip l)\<lparr>atLineStart := False\<rparr>)" using l(1) by (simp add: inline_def)
  ultimately have "inline (scanRune l)"
    by (simp add: scanRune_eq scanSwitch_alpha inline_scanIdentifier)
  with t show ?thesis by (simp add: emits_def)
qed

lemma emits_punct:
  assumes l: "quiet l" "start l = current l" "rest l = map of_char (piece_text p) @ X"
    and p: "p \<in> {LP, RP, CM, DT}"
  shows "emits l (piece_token p) (scanRune l) \<and> rest (scanRune l) = X"
proof -
  let ?m = "(skip l)\<lparr>atLineStart := False\<rparr>"
  obtain k where k: "piece_text p = [k]" "(of_char k :: nat) < 128" using p by auto
  then have c: "rest l = of_char k # X" using l(3) by simp
  then have e: "current (skip l) = Suc (current l)" by (simp add: skip_def advance_def isAtEnd_rest)
  have s: "take (Suc 0) (drop (current l) (source l)) = [of_char k]" using c by (simp add: rest_def)
  have lex: "current_lexeme ?m = [k]"
    using l(2) s k(2) by (simp add: current_lexeme_def e go_string_def utf8_encode_of_char)
  then have lex': "current_lexeme (?m\<lparr>parenDepth := j\<rparr>) = [k]" for j
    by (simp add: current_lexeme_def)
  have m: "inline ?m" "tokens ?m = tokens l" "rest ?m = X"
    using l(1) c by (simp_all add: inline_def)
  have pk: "peek l = of_char k" using c by (simp add: peek_rest)
  have add: "emits l [(tt, [k])] (addToken tt ?m) \<and> rest (addToken tt ?m) = X"
    "emits l [(tt, [k])] (addToken tt (?m\<lparr>parenDepth := j\<rparr>)) \<and> rest (addToken tt (?m\<lparr>parenDepth := j\<rparr>)) = X"
    for tt j
    using m lex lex' by (simp_all add: emits_def addToken_def mkToken_def)
  have sw: "scanRune l = scanSwitch (of_char k) ?m" by (simp add: scanRune_eq pk)
  consider "p = LP" "k = CHR ''(''" | "p = RP" "k = CHR '')''" | "p = CM" "k = CHR '',''" | "p = DT" "k = CHR ''.''"
    using p k(1) by auto
  then show ?thesis
  proof cases
    case 1
    then show ?thesis using add(2) by (simp add: sw scanSwitch_def)
  next
    case 2
    then have "scanRune l = addToken TOKEN_RPAREN (if parenDepth ?m > 0 then ?m\<lparr>parenDepth := parenDepth ?m - 1\<rparr> else ?m)"
      by (simp add: sw scanSwitch_def)
    then show ?thesis using 2 add by (simp del: inline_simps)
  next
    case 3
    then show ?thesis using add(1) by (simp add: sw scanSwitch_def scanOperator_def)
  next
    case 4
    then show ?thesis using add(1) by (simp add: sw scanSwitch_def scanOperator_def)
  qed
qed

lemma emits_space:
  assumes l: "quiet l" "rest l = 32 # X" "X = [] \<or> \<not> isBlank (hd X)"
  shows "emits l [] (scanRune l) \<and> rest (scanRune l) = X"
proof -
  let ?m = "(skip l)\<lparr>atLineStart := False\<rparr>"
  have m: "inline ?m" "tokens ?m = tokens l" "rest ?m = X"
    using l by (simp_all add: inline_def)
  have "takeWhile isBlank (rest ?m) = []" using l(2,3) by (cases X) auto
  then have "advance_while isBlank ?m = ?m" by (subst advance_while_skips) simp_all
  then have "scanRune l = ?m" using l(2) by (simp add: scanRune_eq peek_rest scanSwitch_def)
  with m show ?thesis by (simp add: emits_def)
qed

lemma emits_piece:
  assumes l: "quiet l" "start l = current l" "rest l = map of_char (piece_text p) @ X"
    and w: "\<And>w. p = W w \<Longrightarrow> is_word w \<and> (X = [] \<or> \<not> isAlphaNumeric (hd X))"
    and s: "p = Sp \<Longrightarrow> X = [] \<or> \<not> isBlank (hd X)"
  shows "emits l (piece_token p) (scanRune l) \<and> rest (scanRune l) = X"
proof (cases p)
  case (W w)
  then show ?thesis using emits_word [OF l(1,2), of w X] l(3) assms(4) by simp
next
  case Sp
  then show ?thesis using emits_space [OF l(1), of X] l(3) s by simp
qed (use emits_punct [OF l] in auto)

lemma spaced_next:
  assumes "spaced (p # ps)"
  shows "\<And>w. p = W w \<Longrightarrow> is_word w \<and> (map of_char (pieces_text ps) = [] \<or>
      \<not> isAlphaNumeric (hd (map of_char (pieces_text ps))))"
    and "p = Sp \<Longrightarrow> map of_char (pieces_text ps) = [] \<or> \<not> isBlank (hd (map of_char (pieces_text ps)))"
    and "spaced ps"
proof -
  have word: "is_word v \<Longrightarrow> v \<noteq> [] \<and> \<not> isBlank (of_char (hd v))" for v
    by (auto simp: is_word_def isAlpha_def)
  show "spaced ps" using assms by (cases ps) auto
  then have q: "ps = [] \<or> (\<exists>q qs. ps = q # qs \<and> (\<forall>v. q = W v \<longrightarrow> is_word v))"
    using assms by (cases ps rule: spaced.cases) auto
  show "is_word w \<and> (map of_char (pieces_text ps) = [] \<or> \<not> isAlphaNumeric (hd (map of_char (pieces_text ps))))"
    if "p = W w" for w
    using that assms by (cases ps; cases "hd ps")
      (auto simp: isAlphaNumeric_def isAlpha_def isDigit_def)
  show "map of_char (pieces_text ps) = [] \<or> \<not> isBlank (hd (map of_char (pieces_text ps)))" if "p = Sp"
  proof (cases ps)
    case (Cons r rs)
    then show ?thesis using that assms q word
      by (cases r) (auto simp: hd_append hd_map)
  qed (use that assms in simp)
qed

lemma scanLoop_pieces:
  "inline l \<Longrightarrow> spaced ps \<Longrightarrow> rest l = map of_char (pieces_text ps) \<Longrightarrow>
     emits l (pieces_tokens ps) (scanLoop l)"
proof (induction ps arbitrary: l)
  case Nil
  then show ?case by (subst scanLoop.simps) (simp add: isAtEnd_rest emits_def)
next
  case (Cons p ps)
  let ?l = "l\<lparr>start := current l\<rparr>"
  have "emits ?l (piece_token p) (scanRune ?l) \<and> rest (scanRune ?l) = map of_char (pieces_text ps)"
    using Cons.prems spaced_next [OF Cons.prems(2)]
    by (intro emits_piece) (simp_all add: inline_def)
  moreover have "piece_text p \<noteq> []"
    using spaced_next(1) [OF Cons.prems(2)] by (cases p) (auto simp: is_word_def)
  then have "\<not> isAtEnd l" using Cons.prems(3) by (simp add: isAtEnd_rest)
  then have "scanLoop l = scanLoop (scanRune ?l)"
    using Cons.prems(1) by (subst scanLoop.simps) (simp add: scanToken_inline)
  moreover have "spaced ps" by (rule spaced_next(3) [OF Cons.prems(2)])
  ultimately show ?case
    using Cons.IH [of "scanRune ?l"] by (simp add: emits_def)
qed

text \<open>A whole source of this kind that starts with a word.\<close>

lemma piece_text_ascii: "spaced ps \<Longrightarrow> c \<in> set (pieces_text ps) \<Longrightarrow> (of_char c :: nat) < 128"
proof (induction ps)
  case (Cons p ps)
  have "(of_char c :: nat) < 128" if "c \<in> set (piece_text p)"
    using that spaced_next(1) [OF Cons.prems(1)] word_char_ascii
    by (cases p) (auto simp: is_word_def list_all_iff)
  then show ?case using Cons spaced_next(3) [OF Cons.prems(1)] by auto
qed simp

lemma ScanTokens_pieces:
  assumes "spaced (W w # ps)" "list_all (\<lambda>(tt, s). tt \<noteq> TOKEN_PIPE) (pieces_tokens (W w # ps))"
  shows "\<exists>ts e. ScanTokens (NewLexer (pieces_text (W w # ps)) fname) = Inr (ts @ [e]) \<and>
    map tok_pair ts = pieces_tokens (W w # ps) \<and> Type e = TOKEN_EOF"
proof -
  let ?L = "NewLexer (pieces_text (W w # ps)) fname"
  let ?h = "?L\<lparr>start := current ?L, indentationHandled := True\<rparr>"
  let ?S = "scanLoop ?L"
  have r: "rest ?L = map of_char (pieces_text (W w # ps))"
  proof -
    have "go_runes (pieces_text (W w # ps)) = map of_char (pieces_text (W w # ps))"
      by (intro go_runes_ascii piece_text_ascii [OF assms(1)])
    then show ?thesis by (simp add: NewLexer_def rest_def)
  qed
  have fields: "continuationLine ?L = False" "braceBlockDepth ?L = 0" "length (indentStack ?L) = 1"
      "atLineStart ?L" "\<not> indentationHandled ?L" "quiet ?L" "tokens ?L = []"
    by (simp_all add: NewLexer_def quiet_def)
  have w: "w \<noteq> []" "isAlpha (of_char (hd w))" using spaced_next(1) [OF assms(1)] by (auto simp: is_word_def)
  then have pk: "isAlpha (peek (?L\<lparr>start := current ?L\<rparr>))" using r by (cases w) (simp_all add: peek_rest)
  have "scanToken (?L\<lparr>start := current ?L\<rparr>) = scanRune ?h"
    using pk fields by (auto simp: scanToken_def skipContinuationIndent_def skipBraceBlockIndent_def
        Let_def isAlpha_def)
  moreover have "\<not> isAtEnd ?L" using r w by (simp add: isAtEnd_rest)
  ultimately have S: "?S = scanLoop (scanRune ?h)" by (subst scanLoop.simps) simp
  have 1: "emits ?h (piece_token (W w)) (scanRune ?h) \<and> rest (scanRune ?h) = map of_char (pieces_text ps)"
    using spaced_next [OF assms(1)] fields r by (intro emits_piece) simp_all
  then have "emits (scanRune ?h) (pieces_tokens ps) ?S"
    unfolding S using spaced_next(3) [OF assms(1)] by (intro scanLoop_pieces) (auto simp: emits_def)
  with 1 fields have e: "inline ?S" "map tok_pair (tokens ?S) = pieces_tokens (W w # ps)"
    by (simp_all add: emits_def)
  then have c: "closeIndents ?S = ?S" by (subst closeIndents.simps) (simp add: inline_def quiet_def)
  let ?e = "mkToken TOKEN_EOF (current_lexeme ?S) ?S"
  have "Type t \<noteq> TOKEN_PIPE" if "t \<in> set (tokens ?S)" for t
  proof -
    have "(Type t, Lexeme t) \<in> set (map tok_pair (tokens ?S))" using that by auto
    then have "(Type t, Lexeme t) \<in> set (pieces_tokens (W w # ps))" unfolding e(2) .
    then show ?thesis using assms(2) unfolding list_all_iff by blast
  qed
  then have "mergeLineContinuations (tokens ?S @ [?e]) = tokens ?S @ [?e]"
    unfolding mergeLineContinuations_def by (intro mergeLoop_no_pipe) auto
  then have "ScanTokens ?L = Inr (tokens ?S @ [?e])"
    using e(1) c by (simp add: ScanTokens_def addToken_def Let_def inline_def quiet_def)
  with e(2) show ?thesis by (intro exI [of _ "tokens ?S"] exI [of _ ?e]) simp
qed

section \<open>Printed annotations\<close>

definition is_name :: "string \<Rightarrow> bool" where
  "is_name w \<longleftrightarrow> is_word w \<and> LookupKeyword w = TOKEN_IDENTIFIER"

text \<open>The function type that ends a printed annotation, if any, has no results.\<close>

fun open_end :: "TypeAnnotation \<Rightarrow> bool" where
  "open_end (ReferenceType t e) = open_end e"
| "open_end (ListType t e) = open_end e"
| "open_end (ChannelType t e) = open_end e"
| "open_end (MapType t k v) = open_end v"
| "open_end (FunctionType t ps rs) \<longleftrightarrow> (case map open_end rs of [] \<Rightarrow> True | [b] \<Rightarrow> b | _ \<Rightarrow> False)"
| "open_end _ = False"

text \<open>The annotations the source syntax can express: primitive names as such, names of one or two
  identifiers, and no key type that ends in a function type without results.\<close>

definition printable_name :: "string \<Rightarrow> bool" where
  "printable_name n \<longleftrightarrow> n = ''error'' \<or>
     (case split_char CHR ''.'' n of
        [a] \<Rightarrow> is_name a \<and> a \<notin> set primitive_names
      | [a, b] \<Rightarrow> is_name a \<and> is_name b \<and> a \<notin> set primitive_names
      | _ \<Rightarrow> False)"

fun printable :: "TypeAnnotation \<Rightarrow> bool" where
  "printable NilType \<longleftrightarrow> False"
| "printable (PrimitiveType t n) \<longleftrightarrow> n \<in> set primitive_names"
| "printable (NamedType t n) \<longleftrightarrow> printable_name n"
| "printable (ReferenceType t e) \<longleftrightarrow> printable e"
| "printable (ListType t e) \<longleftrightarrow> printable e"
| "printable (MapType t k v) \<longleftrightarrow> printable k \<and> \<not> open_end k \<and> printable v"
| "printable (ChannelType t e) \<longleftrightarrow> printable e"
| "printable (FunctionType t ps rs) \<longleftrightarrow> list_all printable ps \<and> list_all printable rs"

fun name_pieces :: "string \<Rightarrow> piece list" where
  "name_pieces n = (case split_char CHR ''.'' n of [a, b] \<Rightarrow> [W a, DT, W b] | _ \<Rightarrow> [W n])"

fun comma_pieces :: "piece list list \<Rightarrow> piece list" where
  "comma_pieces [] = []"
| "comma_pieces [x] = x"
| "comma_pieces (x # y # xs) = x @ [CM, Sp] @ comma_pieces (y # xs)"

fun type_pieces :: "TypeAnnotation \<Rightarrow> piece list" where
  "type_pieces NilType = []"
| "type_pieces (PrimitiveType t n) = [W n]"
| "type_pieces (NamedType t n) = name_pieces n"
| "type_pieces (ReferenceType t e) = [W ''reference'', Sp] @ type_pieces e"
| "type_pieces (ListType t e) = [W ''list'', Sp, W ''of'', Sp] @ type_pieces e"
| "type_pieces (MapType t k v) =
     [W ''map'', Sp, W ''of'', Sp] @ type_pieces k @ [Sp, W ''to'', Sp] @ type_pieces v"
| "type_pieces (ChannelType t e) = [W ''channel'', Sp, W ''of'', Sp] @ type_pieces e"
| "type_pieces (FunctionType t ps rs) =
     [W ''func'', LP] @ comma_pieces (map type_pieces ps) @ [RP] @
     (case map type_pieces rs of [] \<Rightarrow> [] | [r] \<Rightarrow> [Sp] @ r
      | rs' \<Rightarrow> [Sp, LP] @ comma_pieces rs' @ [RP])"

lemma pieces_text_comma:
  "pieces_text (comma_pieces pss) = go_join (map pieces_text pss) '', ''"
  by (induction pss rule: comma_pieces.induct) simp_all

lemma pieces_text_name: "pieces_text (name_pieces n) = n"
  using go_join_split_char [of "CHR ''.''" n] by (auto split: list.splits)

lemma type_pieces_text: "pieces_text (type_pieces t) = typeAnnotationToString t"
proof (induction t)
  case (FunctionType t ps rs)
  have "map pieces_text (map type_pieces ps) = map typeAnnotationToString ps"
    "map pieces_text (map type_pieces rs) = map typeAnnotationToString rs"
    using FunctionType by simp_all
  then show ?case
    by (cases rs; cases "tl rs") (auto simp: pieces_text_comma o_def cong: map_cong)
qed (simp_all add: pieces_text_name del: name_pieces.simps)

section \<open>Printed annotations are well spaced\<close>

definition junction :: "piece \<Rightarrow> piece \<Rightarrow> bool" where
  "junction p q \<longleftrightarrow> \<not> (\<exists>w v. p = W w \<and> q = W v) \<and> \<not> (p = Sp \<and> q = Sp)"

definition word_ok :: "piece \<Rightarrow> bool" where
  "word_ok p \<longleftrightarrow> (\<forall>w. p = W w \<longrightarrow> is_word w)"

fun separated :: "piece list \<Rightarrow> bool" where
  "separated [] \<longleftrightarrow> True"
| "separated [p] \<longleftrightarrow> word_ok p"
| "separated (p # q # ps) \<longleftrightarrow> word_ok p \<and> junction p q \<and> separated (q # ps)"

lemma spaced_separated: "separated ps \<Longrightarrow> ps \<noteq> [] \<Longrightarrow> last ps \<noteq> Sp \<Longrightarrow> spaced ps"
  by (induction ps rule: separated.induct) (auto simp: word_ok_def junction_def)

lemma separated_append:
  "separated x \<Longrightarrow> separated y \<Longrightarrow> (x \<noteq> [] \<Longrightarrow> y \<noteq> [] \<Longrightarrow> junction (last x) (hd y)) \<Longrightarrow> separated (x @ y)"
proof (induction x rule: separated.induct)
  case (2 p)
  then show ?case by (cases y) auto
qed auto

text \<open>A separated text that starts with a word and does not end with a space.\<close>

definition phrase :: "piece list \<Rightarrow> bool" where
  "phrase ps \<longleftrightarrow> separated ps \<and> (\<exists>w qs. ps = W w # qs) \<and> last ps \<noteq> Sp"

lemma phrase_word [simp]: "phrase [W w] \<longleftrightarrow> is_word w"
  by (simp add: phrase_def word_ok_def)

lemma junction_simps [simp]:
  "junction (W w) Sp" "junction (W w) LP" "junction (W w) RP" "junction (W w) CM" "junction (W w) DT"
  "junction Sp (W w)" "junction Sp LP" "junction LP (W w)" "junction LP RP" "junction RP Sp"
  "junction RP RP" "junction RP CM" "junction CM Sp" "junction DT (W w)"
  by (simp_all add: junction_def)

lemma phrase_append:
  assumes "phrase x" "phrase y" "separated s" "s \<noteq> []" "junction (last x) (hd s)" "\<And>w. junction (last s) (W w)"
  shows "phrase (x @ s @ y)"
proof -
  obtain w ys where y: "y = W w # ys" using assms(2) by (auto simp: phrase_def)
  have "separated (s @ y)" using assms y by (intro separated_append) (auto simp: phrase_def)
  then have "separated (x @ s @ y)" using assms by (intro separated_append) (auto simp: phrase_def)
  moreover have "last (x @ s @ y) = last y" using y by simp
  ultimately show ?thesis using assms by (auto simp: phrase_def)
qed

lemma phrase_prefix:
  assumes "phrase y" "separated (W w # s @ [Sp])"
  shows "phrase (W w # s @ [Sp] @ y)"
proof -
  obtain v ys where y: "y = W v # ys" using assms(1) by (auto simp: phrase_def)
  have "separated ((W w # s @ [Sp]) @ y)"
    using assms y by (intro separated_append) (auto simp: phrase_def)
  then show ?thesis using assms(1) y by (simp add: phrase_def)
qed

definition ends_well :: "piece list \<Rightarrow> bool" where
  "ends_well ps \<longleftrightarrow> (\<exists>w. last ps = W w) \<or> last ps = RP"

lemma phrase_comma:
  "\<forall>x\<in>set pss. phrase x \<and> ends_well x \<Longrightarrow> pss \<noteq> [] \<Longrightarrow> phrase (comma_pieces pss) \<and> ends_well (comma_pieces pss)"
proof (induction pss rule: comma_pieces.induct)
  case (3 x y xs)
  then have "phrase (comma_pieces (y # xs)) \<and> ends_well (comma_pieces (y # xs))" by simp
  moreover from this have "comma_pieces (y # xs) \<noteq> []" by (auto simp: phrase_def)
  moreover have "phrase x" "ends_well x" using 3 by auto
  ultimately have "phrase (x @ [CM, Sp] @ comma_pieces (y # xs))"
    by (intro phrase_append) (auto simp: ends_well_def word_ok_def)
  with \<open>phrase (comma_pieces (y # xs)) \<and> ends_well (comma_pieces (y # xs))\<close>
    \<open>comma_pieces (y # xs) \<noteq> []\<close> show ?case by (simp add: ends_well_def)
qed auto

lemma keyword_words:
  "is_word ''reference''" "is_word ''list''" "is_word ''of''" "is_word ''map''" "is_word ''to''"
  "is_word ''channel''" "is_word ''func''" "is_word ''error''"
  by (simp_all add: is_word_def word_char_def isAlphaNumeric_def isAlpha_def)

lemma primitive_words: "list_all is_word primitive_names"
  by (simp add: primitive_names_def is_word_def word_char_def isAlphaNumeric_def isAlpha_def isDigit_def)

lemma phrase_name: "printable_name n \<Longrightarrow> phrase (name_pieces n) \<and> ends_well (name_pieces n)"
proof -
  assume n: "printable_name n"
  show ?thesis
  proof (cases "n = ''error''")
    case True
    then show ?thesis by (simp add: keyword_words ends_well_def)
  next
    case False
    then consider a where "split_char CHR ''.'' n = [a]" "is_name a"
      | a b where "split_char CHR ''.'' n = [a, b]" "is_name a" "is_name b"
      using n by (auto simp: printable_name_def split: list.splits)
    then show ?thesis
    proof cases
      case 1
      then have "n = a" using go_join_split_char [of "CHR ''.''" n] by simp
      with 1 show ?thesis by (simp add: is_name_def ends_well_def)
    next
      case 2
      then show ?thesis
        by (simp add: is_name_def ends_well_def phrase_def word_ok_def)
    qed
  qed
qed

lemma phrase_type: "printable t \<Longrightarrow> phrase (type_pieces t) \<and> ends_well (type_pieces t)"
proof (induction t)
  case (PrimitiveType t n)
  then show ?case using primitive_words by (simp add: list_all_iff ends_well_def)
next
  case (NamedType t n)
  then show ?case using phrase_name by (simp del: name_pieces.simps)
next
  case (ReferenceType t e)
  then show ?case using phrase_prefix [of "type_pieces e" "''reference''" "[]"]
    by (auto simp: keyword_words word_ok_def ends_well_def phrase_def)
next
  case (ListType t e)
  then show ?case using phrase_prefix [of "type_pieces e" "''list''" "[Sp, W ''of'']"]
    by (auto simp: keyword_words word_ok_def ends_well_def phrase_def)
next
  case (ChannelType t e)
  then show ?case using phrase_prefix [of "type_pieces e" "''channel''" "[Sp, W ''of'']"]
    by (auto simp: keyword_words word_ok_def ends_well_def phrase_def)
next
  case (MapType t k v)
  then have kv: "phrase (type_pieces k)" "ends_well (type_pieces k)" "phrase (type_pieces v)"
      "ends_well (type_pieces v)" by auto
  then have "phrase (type_pieces k @ [Sp, W ''to'', Sp] @ type_pieces v)"
    by (intro phrase_append) (auto simp: keyword_words word_ok_def ends_well_def)
  from phrase_prefix [OF this, of "''map''" "[Sp, W ''of'']"] show ?case
    using kv by (auto simp: keyword_words word_ok_def ends_well_def phrase_def)
next
  case (FunctionType t ps rs)
  have ps: "\<forall>x\<in>set (map type_pieces ps). phrase x \<and> ends_well x"
    and rs: "\<forall>x\<in>set (map type_pieces rs). phrase x \<and> ends_well x"
    using FunctionType by (auto simp: list_all_iff)
  let ?a = "[W ''func'', LP] @ comma_pieces (map type_pieces ps) @ [RP]"
  have pp: "separated (s # LP # comma_pieces pss @ [RP])" if "\<forall>x\<in>set pss. phrase x \<and> ends_well x"
    "word_ok s" "junction s LP" for pss s
  proof (cases "pss = []")
    case True
    then show ?thesis using that by (simp add: word_ok_def)
  next
    case False
    then have c: "phrase (comma_pieces pss)" "ends_well (comma_pieces pss)" using phrase_comma that by blast+
    then have "separated (comma_pieces pss @ [RP])"
      by (intro separated_append) (auto simp: phrase_def ends_well_def word_ok_def)
    then have "separated ([s, LP] @ comma_pieces pss @ [RP])"
      using c that by (intro separated_append [of "[s, LP]"]) (auto simp: phrase_def word_ok_def)
    then show ?thesis by simp
  qed
  have a: "separated ?a" using pp [OF ps, of "W ''func''"] by (simp add: word_ok_def keyword_words)
  consider (none) "rs = []" | (one) r where "rs = [r]" | (more) r r' rs' where "rs = r # r' # rs'"
    by (metis neq_Nil_conv)
  then show ?case
  proof cases
    case none
    then show ?thesis using a by (simp add: phrase_def ends_well_def)
  next
    case one
    then have "phrase (type_pieces r)" "ends_well (type_pieces r)" using rs by auto
    moreover from this have "separated ([Sp] @ type_pieces r)"
      by (intro separated_append) (auto simp: phrase_def word_ok_def)
    then have "separated (?a @ [Sp] @ type_pieces r)"
      using a by (intro separated_append [of ?a]) auto
    ultimately show ?thesis using one by (auto simp: phrase_def ends_well_def)
  next
    case more
    have "separated ([Sp, LP] @ comma_pieces (map type_pieces rs) @ [RP])"
      using pp [OF rs, of Sp] by (simp add: word_ok_def)
    then have "separated (?a @ [Sp, LP] @ comma_pieces (map type_pieces rs) @ [RP])"
      using a by (intro separated_append [of ?a]) auto
    then show ?thesis using more by (simp add: phrase_def ends_well_def)
  qed
qed simp

section \<open>Printed annotations are in the grammar\<close>

lemma keyword_types:
  "LookupKeyword ''reference'' = TOKEN_REFERENCE" "LookupKeyword ''list'' = TOKEN_LIST"
  "LookupKeyword ''of'' = TOKEN_OF" "LookupKeyword ''map'' = TOKEN_MAP" "LookupKeyword ''to'' = TOKEN_TO"
  "LookupKeyword ''channel'' = TOKEN_CHANNEL" "LookupKeyword ''func'' = TOKEN_FUNC"
  "LookupKeyword ''error'' = TOKEN_ERROR"
  by (simp_all add: LookupKeyword_def keyword_table_def)

lemma primitive_types: "list_all (\<lambda>n. LookupKeyword n = TOKEN_IDENTIFIER) primitive_names"
  by code_simp

text \<open>\<open>derives ts t\<close>: the tokens are an annotation that differs from \<open>t\<close> in its positions only.\<close>

definition derives :: "token list \<Rightarrow> TypeAnnotation \<Rightarrow> bool" where
  "derives ts t \<longleftrightarrow> (\<exists>t' k. type_syntax ts t' k \<and> erase t' = erase t \<and> (k = NoResult \<longrightarrow> open_end t))"

lemma derivesI: "type_syntax ts t' k \<Longrightarrow> erase t' = erase t \<Longrightarrow> (k = NoResult \<Longrightarrow> open_end t) \<Longrightarrow> derives ts t"
  by (auto simp: derives_def)

lemma fits_sep: "k = NoResult \<longrightarrow> b \<Longrightarrow> \<not> b \<Longrightarrow> tt \<noteq> TOKEN_DOT \<Longrightarrow> fits k tt"
  by (cases k) auto

lemma derives_list:
  assumes "\<And>x ts. x \<in> set xs \<Longrightarrow> map tok_pair ts = pieces_tokens (type_pieces x) \<Longrightarrow> derives ts x"
    and "map tok_pair ts = pieces_tokens (comma_pieces (map type_pieces xs))" "xs \<noteq> []"
  shows "\<exists>t as us vs k. ts = us @ vs \<and> type_syntax us t k \<and> comma_syntax vs as \<and> map erase (t # as) = map erase xs"
  using assms
proof (induction xs arbitrary: ts)
  case (Cons x xs)
  show ?case
  proof (cases xs)
    case Nil
    then have "derives ts x" using Cons.prems(1) [of x ts] Cons.prems(2) by simp
    then obtain t' k where "type_syntax ts t' k" "erase t' = erase x"
      unfolding derives_def by blast
    then show ?thesis using Nil type_syntax_param_syntax_comma_syntax_return_syntax.no_comma
      by (intro exI [of _ t'] exI [of _ "[]"] exI [of _ ts] exI [of _ "[]"] exI [of _ k]) simp
  next
    case (Cons y ys)
    then obtain us c vs where s: "ts = us @ c # vs" "map tok_pair us = pieces_tokens (type_pieces x)"
        "Type c = TOKEN_COMMA" "map tok_pair vs = pieces_tokens (comma_pieces (map type_pieces xs))"
      using Cons.prems(2) by (auto simp: map_eq_append_conv map_eq_Cons_conv)
    obtain t as vs1 vs2 k where v: "vs = vs1 @ vs2" "type_syntax vs1 t k" "comma_syntax vs2 as"
        "map erase (t # as) = map erase xs"
      using Cons.IH [OF _ s(4)] Cons.prems(1) Cons by auto
    obtain t0 k0 where "type_syntax us t0 k0" "erase t0 = erase x"
      using Cons.prems(1) [OF _ s(2)] by (auto simp: derives_def)
    moreover have "comma_syntax (c # vs1 @ vs2) (t # as)" using s(3) v(2,3) by (intro grammar)
    ultimately show ?thesis using s(1) v(1,4) by fastforce
  qed
qed simp

lemma derives_name:
  assumes "printable_name n" "map tok_pair ts = pieces_tokens (name_pieces n)"
  shows "derives ts (NamedType x n)"
proof (cases "n = ''error''")
  case True
  then obtain e where "ts = [e]" "Type e = TOKEN_ERROR"
    using assms(2) by (auto simp: keyword_types)
  then show ?thesis
    using True by (intro derivesI [of ts "NamedType e ''error''" Closed]) (auto intro: grammar)
next
  case False
  then consider a where "split_char CHR ''.'' n = [a]" "is_name a" "a \<notin> set primitive_names"
    | a b where "split_char CHR ''.'' n = [a, b]" "is_name a" "is_name b" "a \<notin> set primitive_names"
    using assms(1) by (auto simp: printable_name_def split: list.splits)
  then show ?thesis
  proof cases
    case 1
    then have "n = a" using go_join_split_char [of "CHR ''.''" n] by simp
    with 1 obtain e where "ts = [e]" "Type e = TOKEN_IDENTIFIER" "Lexeme e = n"
      using assms(2) by (auto simp: is_name_def)
    then show ?thesis
      using 1 \<open>n = a\<close> grammar(10) [of e]
      by (intro derivesI [of ts "NamedType e n" Unqualified]) auto
  next
    case 2
    then obtain e d f where e: "ts = [e, d, f]" "Type e = TOKEN_IDENTIFIER" "Lexeme e = a"
        "Type d = TOKEN_DOT" "Type f = TOKEN_IDENTIFIER" "Lexeme f = b"
      using assms(2) by (auto simp: is_name_def)
    have "n = a @ ''.'' @ b" using go_join_split_char [of "CHR ''.''" n] 2 by simp
    then show ?thesis
      using 2 e grammar(11) [of e d f]
      by (intro derivesI [of ts "NamedType e n" Closed]) auto
  qed
qed

lemma map_erase_cong: "map erase (a # b) = map erase c \<Longrightarrow> length c = Suc (length b)"
  by (metis length_Cons length_map)

lemma derives_type:
  "printable t \<Longrightarrow> map tok_pair ts = pieces_tokens (type_pieces t) \<Longrightarrow> derives ts t"
proof (induction t arbitrary: ts)
  case (PrimitiveType x n)
  then have "LookupKeyword n = TOKEN_IDENTIFIER" using primitive_types by (simp add: list_all_iff)
  with PrimitiveType obtain e where "ts = [e]" "Type e = TOKEN_IDENTIFIER" "Lexeme e = n" by auto
  then show ?case
    using PrimitiveType grammar(9) [of e] by (intro derivesI [of ts "PrimitiveType e n" Closed]) auto
next
  case (NamedType x n)
  then show ?case using derives_name by (simp del: name_pieces.simps)
next
  case (ReferenceType x e)
  then obtain r us where s: "ts = r # us" "Type r = TOKEN_REFERENCE" "map tok_pair us = pieces_tokens (type_pieces e)"
    by (auto simp: keyword_types)
  then obtain t' k where "type_syntax us t' k" "erase t' = erase e" "k = NoResult \<longrightarrow> open_end e"
    using ReferenceType.IH [of us] ReferenceType.prems(1) by (auto simp: derives_def)
  then show ?case using s grammar(2) [of r us t' k]
    by (intro derivesI [of ts "ReferenceType r t'" k]) auto
next
  case (ListType x e)
  then obtain r f us where s: "ts = r # f # us" "Type r = TOKEN_LIST" "Type f = TOKEN_OF"
      "map tok_pair us = pieces_tokens (type_pieces e)"
    by (auto simp: keyword_types)
  then obtain t' k where "type_syntax us t' k" "erase t' = erase e" "k = NoResult \<longrightarrow> open_end e"
    using ListType.IH [of us] ListType.prems(1) by (auto simp: derives_def)
  then show ?case using s grammar(3) [of r f us t' k]
    by (intro derivesI [of ts "ListType r t'" k]) auto
next
  case (ChannelType x e)
  then obtain r f us where s: "ts = r # f # us" "Type r = TOKEN_CHANNEL" "Type f = TOKEN_OF"
      "map tok_pair us = pieces_tokens (type_pieces e)"
    by (auto simp: keyword_types)
  then obtain t' k where "type_syntax us t' k" "erase t' = erase e" "k = NoResult \<longrightarrow> open_end e"
    using ChannelType.IH [of us] ChannelType.prems(1) by (auto simp: derives_def)
  then show ?case using s grammar(6) [of r f us t' k]
    by (intro derivesI [of ts "ChannelType r t'" k]) auto
next
  case (MapType x key val)
  then obtain m f us o' vs where s: "ts = m # f # us @ o' # vs" "Type m = TOKEN_MAP" "Type f = TOKEN_OF"
      "Type o' = TOKEN_TO" "map tok_pair us = pieces_tokens (type_pieces key)"
      "map tok_pair vs = pieces_tokens (type_pieces val)"
    by (auto simp: keyword_types map_eq_append_conv map_eq_Cons_conv)
  obtain t1 k1 where 1: "type_syntax us t1 k1" "erase t1 = erase key" "k1 = NoResult \<longrightarrow> open_end key"
    using MapType.IH(1) [OF _ s(5)] MapType.prems(1) by (auto simp: derives_def)
  obtain t2 k2 where 2: "type_syntax vs t2 k2" "erase t2 = erase val" "k2 = NoResult \<longrightarrow> open_end val"
    using MapType.IH(2) [OF _ s(6)] MapType.prems(1) by (auto simp: derives_def)
  have "fits k1 TOKEN_TO" using 1(3) MapType.prems(1) by (intro fits_sep) auto
  then show ?case using s 1 2 grammar(5) [of m f us t1 k1 o' vs t2 k2]
    by (intro derivesI [of ts "MapType m t1 t2" k2]) auto
next
  case (FunctionType x ps rs)
  let ?P = "comma_pieces (map type_pieces ps)"
  let ?R = "case map type_pieces rs of [] \<Rightarrow> [] | [r] \<Rightarrow> [Sp] @ r | rs' \<Rightarrow> [Sp, LP] @ comma_pieces rs' @ [RP]"
  have "map tok_pair ts = [(TOKEN_FUNC, ''func''), (TOKEN_LPAREN, ''('')] @ pieces_tokens ?P @
      [(TOKEN_RPAREN, '')'')] @ pieces_tokens ?R"
    using FunctionType.prems(2) by (simp add: keyword_types)
  then obtain f lp us rp vs where s: "ts = f # lp # us @ rp # vs" "Type f = TOKEN_FUNC" "Type lp = TOKEN_LPAREN"
      "map tok_pair us = pieces_tokens ?P" "Type rp = TOKEN_RPAREN" "map tok_pair vs = pieces_tokens ?R"
    by (auto simp: map_eq_append_conv map_eq_Cons_conv)
  have ih: "x \<in> set (ps @ rs) \<Longrightarrow> map tok_pair ws = pieces_tokens (type_pieces x) \<Longrightarrow> derives ws x" for x ws
    using FunctionType.IH FunctionType.prems(1) by (auto simp: list_all_iff)
  have p: "\<exists>as. param_syntax us as \<and> map erase as = map erase ps"
  proof (cases "ps = []")
    case True
    then show ?thesis using s(4) by (auto intro: grammar)
  next
    case False
    then obtain t as us1 us2 k where "us = us1 @ us2" "type_syntax us1 t k" "comma_syntax us2 as"
        "map erase (t # as) = map erase ps"
      using derives_list [OF _ s(4)] ih by (metis Un_iff set_append)
    then show ?thesis by (metis grammar(13))
  qed
  have r: "\<exists>as k. return_syntax vs as k \<and> map erase as = map erase rs \<and>
      (k = NoResult \<longrightarrow> open_end (FunctionType x ps rs))"
  proof -
    consider (none) "rs = []" | (one) r where "rs = [r]" | (more) r r' rs' where "rs = r # r' # rs'"
      by (metis neq_Nil_conv)
    then show ?thesis
    proof cases
      case none
      then show ?thesis using s(6) by (auto intro: grammar)
    next
      case one
      then obtain t' k where "type_syntax vs t' k" "erase t' = erase r" "k = NoResult \<longrightarrow> open_end r"
        using ih [of r vs] s(6) by (auto simp: derives_def)
      then show ?thesis using one grammar(17) [of vs t' k]
        by (intro exI [of _ "[t']"] exI [of _ k]) simp
    next
      case more
      then have "map tok_pair vs = (TOKEN_LPAREN, ''('') # pieces_tokens (comma_pieces (map type_pieces rs)) @
          [(TOKEN_RPAREN, '')'')]"
        using s(6) by simp
      then obtain l ws q where w: "vs = l # ws @ [q]" "Type l = TOKEN_LPAREN" "Type q = TOKEN_RPAREN"
          "map tok_pair ws = pieces_tokens (comma_pieces (map type_pieces rs))"
        by (auto simp: map_eq_append_conv map_eq_Cons_conv)
      obtain t as us1 us2 k where "ws = us1 @ us2" "type_syntax us1 t k" "comma_syntax us2 as"
          "map erase (t # as) = map erase rs"
        using derives_list [OF _ w(4)] ih more by (metis Un_iff list.distinct(1) set_append)
      then show ?thesis using w grammar(18) [of l us1 t k us2 as q]
        by (intro exI [of _ "t # as"] exI [of _ Closed]) simp
    qed
  qed
  from p r obtain as bs k where "param_syntax us as" "map erase as = map erase ps" "return_syntax vs bs k"
      "map erase bs = map erase rs" "k = NoResult \<longrightarrow> open_end (FunctionType x ps rs)" by blast
  then show ?case using s grammar(7) [of f lp us as rp vs bs k]
    by (intro derivesI [of ts "FunctionType f as bs" k]) auto
qed simp

section \<open>The round trip\<close>

lemma keyword_ordinary:
  "list_all (\<lambda>(k, tt). tt \<noteq> TOKEN_PIPE \<and> tt \<noteq> TOKEN_COMMENT \<and> tt \<noteq> TOKEN_SEMICOLON \<and> tt \<noteq> TOKEN_DIRECTIVE)
     keyword_table"
  by code_simp

lemma pieces_ordinary:
  "(tt, s) \<in> set (pieces_tokens ps) \<Longrightarrow>
     tt \<noteq> TOKEN_PIPE \<and> tt \<noteq> TOKEN_COMMENT \<and> tt \<noteq> TOKEN_SEMICOLON \<and> tt \<noteq> TOKEN_DIRECTIVE"
proof -
  assume "(tt, s) \<in> set (pieces_tokens ps)"
  then obtain p where p: "(tt, s) \<in> set (piece_token p)" by auto
  show ?thesis
  proof (cases p)
    case (W w)
    then have "tt \<in> insert TOKEN_IDENTIFIER (snd ` set keyword_table)"
      using p LookupKeyword_range [of w] by simp
    then show ?thesis using keyword_ordinary by (auto simp: list_all_iff)
  qed (use p in auto)
qed

lemma type_roundtrip_aux:
  assumes "printable t"
  shows "erase (fst (parseTypeAnnotation (New (typeAnnotationToString t) fname))) = erase t \<and>
    perrors (snd (parseTypeAnnotation (New (typeAnnotationToString t) fname))) = [] \<and>
    next_type (snd (parseTypeAnnotation (New (typeAnnotationToString t) fname))) = TOKEN_EOF"
proof -
  have ph: "phrase (type_pieces t)" using phrase_type [OF assms] by simp
  then obtain w ps where wp: "type_pieces t = W w # ps" by (auto simp: phrase_def)
  then have sp: "spaced (W w # ps)" using ph spaced_separated by (auto simp: phrase_def)
  have np: "list_all (\<lambda>(tt, s). tt \<noteq> TOKEN_PIPE) (pieces_tokens (W w # ps))"
    unfolding list_all_iff using pieces_ordinary by blast
  obtain ts e where sc: "ScanTokens (NewLexer (typeAnnotationToString t) fname) = Inr (ts @ [e])"
      "map tok_pair ts = pieces_tokens (type_pieces t)" "Type e = TOKEN_EOF"
    using ScanTokens_pieces [OF sp np] unfolding type_pieces_text [symmetric] wp by blast
  let ?p = "New (typeAnnotationToString t) fname"
  have "\<not> isIgnored x" if "x \<in> set ts" for x
  proof -
    have "(Type x, Lexeme x) \<in> set (map tok_pair ts)" using that by auto
    then have "(Type x, Lexeme x) \<in> set (pieces_tokens (type_pieces t))" unfolding sc(2) .
    then show ?thesis using pieces_ordinary by (auto simp: isIgnored_def)
  qed
  then have "filter (\<lambda>t. \<not> isIgnored t) ts = ts" by (simp add: filter_id_conv)
  then have v: "view ?p = ts @ [e]" "perrors ?p = []"
    using sc by (simp_all add: New_def NewFromTokens_def view_def ahead_def isIgnored_def)
  obtain t' k where d: "type_syntax ts t' k" "erase t' = erase t"
    using derives_type [OF assms sc(2)] by (auto simp: derives_def)
  have "fits k (first_type [e])" using sc(3) by (cases k) (simp_all add: first_type_def noReturns_def)
  moreover have "reads parseType 1 ts t' (fits k)" using type_reads d(1) by blast
  ultimately obtain q where "parseType (2 * vlen ?p + 1) ?p = Some (t', q)" "clean ?p [e] q"
    using v by (auto elim: readsD [where p = ?p and r = "[e]" and n = "2 * vlen ?p + 1"])
  then have "parseTypeAnnotation ?p = (t', q)" "view q = [e]" "perrors q = []"
    using parseTypeAnnotation_eq [of ?p] v by (simp_all add: clean_def)
  then show ?thesis using d(2) sc(3) by (simp add: next_type_def)
qed

section \<open>Properties\<close>

text \<open>C12: Formatting a type annotation and reading it back is the identity: the text
  \<^verbatim>\<open>typeAnnotationToString\<close> prints for an annotation of the source syntax scans and parses without
  an error, to the end of the input, to the same annotation up to source positions.\<close>

theorem type_format_roundtrip:
  assumes "printable t"
  shows "erase (fst (parseTypeAnnotation (New (typeAnnotationToString t) fname))) = erase t \<and>
    perrors (snd (parseTypeAnnotation (New (typeAnnotationToString t) fname))) = [] \<and>
    next_type (snd (parseTypeAnnotation (New (typeAnnotationToString t) fname))) = TOKEN_EOF"
  using assms by (rule type_roundtrip_aux)

text \<open>The type \<^verbatim>\<open>map of string to func(io.Reader) (int, error)\<close>.\<close>

definition sample_type :: TypeAnnotation where
  "sample_type = MapType zero_token (PrimitiveType zero_token ''string'')
     (FunctionType zero_token [NamedType zero_token ''io.Reader'']
        [PrimitiveType zero_token ''int'', NamedType zero_token ''error''])"

theorem type_format_roundtrip_witness:
  "erase (fst (parseTypeAnnotation (New (typeAnnotationToString sample_type) ''f''))) = erase sample_type"
proof -
  have "printable sample_type"
    by (simp add: sample_type_def primitive_names_def printable_name_def is_name_def is_word_def
        word_char_def isAlphaNumeric_def isAlpha_def isDigit_def LookupKeyword_def keyword_table_def)
  then show ?thesis using type_format_roundtrip by blast
qed

text \<open>C13: The parser accepts its grammar \<open>type_syntax\<close>: where the tokens ahead start with an annotation of that
  grammar, followed by a token that may follow it (\<open>fits\<close>: a dot would extend a plain name, and a token
  that may start a type would be the result of a function type without results), \<^verbatim>\<open>parseTypeAnnotation\<close>
  returns exactly that annotation, consumes exactly its tokens and reports nothing. The grammar is the
  parser's: the documented one also has \<^verbatim>\<open>reference to T\<close>, and a function type without results before \<^verbatim>\<open>to\<close>,
  which the parser does not accept.\<close>

theorem parse_type_complete:
  assumes "type_syntax ts t k" "view p = ts @ r" "fits k (first_type r)"
  shows "fst (parseTypeAnnotation p) = t \<and> view (snd (parseTypeAnnotation p)) = r \<and>
    perrors (snd (parseTypeAnnotation p)) = perrors p"
proof -
  have "reads parseType 1 ts t (fits k)" using type_reads assms(1) by blast
  then obtain q where "parseType (2 * vlen p + 1) p = Some (t, q)" "clean p r q"
    using assms by (auto elim: readsD [where p = p and r = r and n = "2 * vlen p + 1"])
  moreover from this have "parseTypeAnnotation p = (t, q)" using parseTypeAnnotation_eq [of p] by simp
  ultimately show ?thesis by (simp add: clean_def)
qed

theorem parse_type_complete_witness:
  "fst (parseTypeAnnotation (NewFromTokens [zero_token\<lparr>Lexeme := ''int''\<rparr>, eof_token]))
    = PrimitiveType (zero_token\<lparr>Lexeme := ''int''\<rparr>) ''int''"
  using parse_type_complete [OF grammar(9), of "zero_token\<lparr>Lexeme := ''int''\<rparr>"
      "NewFromTokens [zero_token\<lparr>Lexeme := ''int''\<rparr>, eof_token]" "[eof_token]"]
  by (simp add: zero_token_def primitive_names_def NewFromTokens_def view_def ahead_def isIgnored_def eof_token_def)

text \<open>C17: What the parser accepts is in the grammar: if \<^verbatim>\<open>parseTypeAnnotation\<close> reports no error, the
  tokens it consumed are an annotation of the grammar, the one it returned.\<close>

theorem parse_type_sound:
  assumes "perrors (snd (parseTypeAnnotation p)) = perrors p"
  shows "\<exists>ts k. view p = ts @ view (snd (parseTypeAnnotation p)) \<and>
    type_syntax ts (fst (parseTypeAnnotation p)) k \<and> fits k (next_type (snd (parseTypeAnnotation p)))"
proof -
  have "accepts p (snd (parseTypeAnnotation p)) (type_ok (fst (parseTypeAnnotation p)) (snd (parseTypeAnnotation p)))"
    using parse_sound parseTypeAnnotation_eq [of p] by (metis prod.collapse)
  then show ?thesis using assms unfolding accepts_def type_ok_def by blast
qed

theorem parse_type_sound_witness:
  "\<exists>ts k. view (NewFromTokens [zero_token, eof_token]) = ts @ [eof_token] \<and>
    type_syntax ts (NamedType zero_token []) k"
proof -
  have "parseTypeAnnotation (NewFromTokens [zero_token, eof_token]) =
      (NamedType zero_token [], (NewFromTokens [zero_token, eof_token])\<lparr>pos := 1\<rparr>)"
    by code_simp
  then show ?thesis
    using parse_type_sound [of "NewFromTokens [zero_token, eof_token]"]
    by (auto simp: NewFromTokens_def view_def ahead_def isIgnored_def eof_token_def)
qed

text \<open>C27: Parsing a type annotation terminates: the calls are never nested deeper than twice the
  number of tokens ahead, and no token is put back.\<close>

theorem parse_type_terminates:
  "\<exists>t p'. parseType (2 * length (view p) + 1) p = Some (t, p') \<and> length (view p') \<le> length (view p)"
  by (rule parseType_enough) simp

end
