(* ===== verification/Syntax.thy ===== *)
theory Syntax
  imports Ast
begin

text \<open>
  The declarations, statements and expressions of \<^verbatim>\<open>internal/ast/ast.go\<close>. Every node struct is a
  constructor with the struct's fields in their order. The nil values of the interfaces
  \<^verbatim>\<open>Expression\<close> and \<^verbatim>\<open>Statement\<close> are the constructors \<open>NilExpr\<close> and \<open>NilStmt\<close>. A nil pointer stored in an
  interface is not the nil interface: where the parser does that, the type of the pointer has a
  constructor of its own (\<open>NilDeferStmt\<close>, \<open>NilImportDecl\<close> and so on). The structs that are
  no nodes of their own (an argument with a name, a field value, a case of a switch, an \<^verbatim>\<open>onerr\<close>
  clause) are tuples of their fields, and so is a \<^verbatim>\<open>BlockStmt\<close> where it occurs as a pointer; a pointer
  that may be nil is an \<open>option\<close>. The value of a floating-point literal is kept as its source text. A
  string literal has \<^verbatim>\<open>Interpolated\<close> before \<^verbatim>\<open>Raw\<close>.
\<close>

datatype Identifier = Identifier (identToken: token) (identValue: string)

datatype FieldDecl = FieldDecl (fieldName: Identifier) (fieldType: TypeAnnotation) (fieldTag: string)

datatype Receiver = Receiver (receiverName: Identifier) (receiverType: TypeAnnotation)

record TypeDecl =
  tdToken :: token
  tdName :: Identifier
  tdFields :: "FieldDecl list"
  tdAliasType :: TypeAnnotation
  tdIsAlias :: bool
  tdDirectives :: "Directive list"

datatype (plugins only: size code) Expression =
    NilExpr
  | Ident Identifier
  | IntegerLiteral token int
  | FloatLiteral token string
  | StringExpr token string bool bool "(bool \<times> string \<times> Expression) list"
  | BooleanLiteral token bool
  | BinaryExpr token Expression string Expression
  | IsExpr token Expression Identifier "Identifier option"
  | UnaryExpr token string Expression
  | PipeExpr token Expression Expression bool
  | NamedArgumentExpr token Identifier Expression
  | CallExpr token Expression "Expression list" "(token \<times> Identifier \<times> Expression) list" bool
  | MethodCallExpr token Expression Identifier "Expression list" "(token \<times> Identifier \<times> Expression) list" bool
  | FieldAccessExpr token Expression Identifier
  | IndexExpr token Expression Expression
  | SliceExpr token Expression Expression Expression
  | StructLiteralExpr token TypeAnnotation "(Identifier \<times> Expression) list" bool
  | ListLiteralExpr token TypeAnnotation "Expression list" bool
  | MapLiteralExpr token TypeAnnotation TypeAnnotation "(Expression \<times> Expression) list" bool
  | UntypedCompositeLiteral token bool "(Expression \<times> Expression) list" bool TypeAnnotation
  | ReceiveExpr token Expression
  | TypeCastExpr token Expression TypeAnnotation
  | TypeAssertionExpr token Expression TypeAnnotation
  | EmptyExpr token TypeAnnotation
  | DiscardExpr token
  | ErrorExpr token Expression
  | ReturnExpr token "Expression list"
  | OnErrExpr token Expression Expression
  | MakeExpr token TypeAnnotation "Expression list"
  | CloseExpr token Expression
  | PanicExpr token Expression
  | RecoverExpr token
  | FunctionLiteral token "(Identifier \<times> TypeAnnotation \<times> bool \<times> Expression) list" "TypeAnnotation list" "(token \<times> Statement list) option"
  | ArrowLambda token "(Identifier \<times> TypeAnnotation \<times> bool \<times> Expression) list" Expression "(token \<times> Statement list) option"
  | AddressOfExpr token Expression
  | DerefExpr token Expression
  | PipedSwitchExpr token Expression Statement
  | BlockExpr token "(token \<times> Statement list) option"
  | IfExpression token Expression Expression Expression
and Statement =
    NilStmt
  | NilDeferStmt
  | NilGoStmt
  | Block token "Statement list"
  | VarDeclStmt "Identifier list" TypeAnnotation "Expression list" token "(token \<times> Expression \<times> string \<times> bool \<times> bool \<times> bool \<times> string) option"
  | AssignStmt "Expression list" "Expression list" token "(token \<times> Expression \<times> string \<times> bool \<times> bool \<times> bool \<times> string) option"
  | IncDecStmt token Expression string
  | ReturnStmt token "Expression list"
  | ContinueStmt token
  | BreakStmt token
  | IfStmt token Statement Expression "(token \<times> Statement list) option" Statement
  | ElseStmt token "(token \<times> Statement list) option"
  | SwitchStmt token Expression "(token \<times> Expression list \<times> (token \<times> Statement list) option) list" "(token \<times> (token \<times> Statement list) option) option"
  | SelectStmt token "(token \<times> string list \<times> Expression \<times> Statement \<times> (token \<times> Statement list) option) list" "(token \<times> (token \<times> Statement list) option) option"
  | TypeSwitchStmt token Expression "Identifier option" "(token \<times> TypeAnnotation \<times> (token \<times> Statement list) option) list" "(token \<times> (token \<times> Statement list) option) option"
  | ForRangeStmt token "Identifier option" "Identifier option" Expression "(token \<times> Statement list) option"
  | ForNumericStmt token "Identifier option" Expression Expression bool "(token \<times> Statement list) option"
  | ForConditionStmt token Expression "(token \<times> Statement list) option"
  | DeferStmt token Expression "(token \<times> Statement list) option"
  | GoStmt token Expression "(token \<times> Statement list) option"
  | SendStmt token Expression Expression
  | ExpressionStmt Expression "(token \<times> Expression \<times> string \<times> bool \<times> bool \<times> bool \<times> string) option"
  | TypeDeclStmt TypeDecl

text \<open>The names of the structs that are tuples above.\<close>

type_synonym BlockStmt = "token \<times> Statement list"
type_synonym StringInterpolation = "bool \<times> string \<times> Expression"
type_synonym NamedArgument = "token \<times> Identifier \<times> Expression"
type_synonym FieldValue = "Identifier \<times> Expression"
type_synonym KeyValuePair = "Expression \<times> Expression"
type_synonym UntypedEntry = "Expression \<times> Expression"
type_synonym Parameter = "Identifier \<times> TypeAnnotation \<times> bool \<times> Expression"
type_synonym OnErrClause = "token \<times> Expression \<times> string \<times> bool \<times> bool \<times> bool \<times> string"
type_synonym WhenCase = "token \<times> Expression list \<times> BlockStmt option"
type_synonym OtherwiseCase = "token \<times> BlockStmt option"
type_synonym SelectCase = "token \<times> string list \<times> Expression \<times> Statement \<times> BlockStmt option"
type_synonym TypeCase = "token \<times> TypeAnnotation \<times> BlockStmt option"

section \<open>Declarations\<close>

datatype ConstSpec = ConstSpec (specName: Identifier) (specValue: Expression)

datatype EnumCase = EnumCase (caseName: Identifier) (caseValue: Expression) (caseFields: "FieldDecl list")

datatype MethodSignature =
  MethodSignature (sigName: Identifier) (sigParameters: "Parameter list") (sigReturns: "TypeAnnotation list")

datatype Declaration =
    NilImportDecl
  | NilInterfaceDecl
  | PetioleDecl token Identifier
  | SkillDecl token Identifier string string
  | ImportDecl token Expression "Identifier option"
  | ConstDecl token "ConstSpec list"
  | TypeDeclaration TypeDecl
  | EnumDecl token Identifier "EnumCase list" "Directive list"
  | InterfaceDecl token Identifier "MethodSignature list" "Directive list"
  | FunctionDecl token Identifier "Parameter list" "TypeAnnotation list" "BlockStmt option"
      "Receiver option" "Directive list"
  | VarDeclaration Statement

record Program =
  Target :: string
  programPetiole :: "Declaration option"
  programSkill :: "Declaration option"
  programImports :: "Declaration list"
  programDeclarations :: "Declaration list"

definition IsVariant :: "EnumCase list \<Rightarrow> bool" where
  "IsVariant cases \<longleftrightarrow> length cases > 0 \<and> caseValue (cases ! 0) = NilExpr"

section \<open>Tokens and positions\<close>

text \<open>The \<^verbatim>\<open>Token\<close> field of a node; \<^term>\<open>None\<close> is the panic of a method call on nil.\<close>

fun expr_token :: "Expression \<Rightarrow> token option" where
  "expr_token NilExpr = None"
| "expr_token (Ident i) = Some (identToken i)"
| "expr_token (IntegerLiteral t _) = Some t"
| "expr_token (FloatLiteral t _) = Some t"
| "expr_token (StringExpr t _ _ _ _) = Some t"
| "expr_token (BooleanLiteral t _) = Some t"
| "expr_token (BinaryExpr t _ _ _) = Some t"
| "expr_token (IsExpr t _ _ _) = Some t"
| "expr_token (UnaryExpr t _ _) = Some t"
| "expr_token (PipeExpr t _ _ _) = Some t"
| "expr_token (NamedArgumentExpr t _ _) = Some t"
| "expr_token (CallExpr t _ _ _ _) = Some t"
| "expr_token (MethodCallExpr t _ _ _ _ _) = Some t"
| "expr_token (FieldAccessExpr t _ _) = Some t"
| "expr_token (IndexExpr t _ _) = Some t"
| "expr_token (SliceExpr t _ _ _) = Some t"
| "expr_token (StructLiteralExpr t _ _ _) = Some t"
| "expr_token (ListLiteralExpr t _ _ _) = Some t"
| "expr_token (MapLiteralExpr t _ _ _ _) = Some t"
| "expr_token (UntypedCompositeLiteral t _ _ _ _) = Some t"
| "expr_token (ReceiveExpr t _) = Some t"
| "expr_token (TypeCastExpr t _ _) = Some t"
| "expr_token (TypeAssertionExpr t _ _) = Some t"
| "expr_token (EmptyExpr t _) = Some t"
| "expr_token (DiscardExpr t) = Some t"
| "expr_token (ErrorExpr t _) = Some t"
| "expr_token (ReturnExpr t _) = Some t"
| "expr_token (OnErrExpr t _ _) = Some t"
| "expr_token (MakeExpr t _ _) = Some t"
| "expr_token (CloseExpr t _) = Some t"
| "expr_token (PanicExpr t _) = Some t"
| "expr_token (RecoverExpr t) = Some t"
| "expr_token (FunctionLiteral t _ _ _) = Some t"
| "expr_token (ArrowLambda t _ _ _) = Some t"
| "expr_token (AddressOfExpr t _) = Some t"
| "expr_token (DerefExpr t _) = Some t"
| "expr_token (PipedSwitchExpr t _ _) = Some t"
| "expr_token (BlockExpr t _) = Some t"
| "expr_token (IfExpression t _ _ _) = Some t"

fun stmt_token :: "Statement \<Rightarrow> token option" where
  "stmt_token NilStmt = None"
| "stmt_token NilDeferStmt = None"
| "stmt_token NilGoStmt = None"
| "stmt_token (Block t _) = Some t"
| "stmt_token (VarDeclStmt _ _ _ t _) = Some t"
| "stmt_token (AssignStmt _ _ t _) = Some t"
| "stmt_token (IncDecStmt t _ _) = Some t"
| "stmt_token (ReturnStmt t _) = Some t"
| "stmt_token (ContinueStmt t) = Some t"
| "stmt_token (BreakStmt t) = Some t"
| "stmt_token (IfStmt t _ _ _ _) = Some t"
| "stmt_token (ElseStmt t _) = Some t"
| "stmt_token (SwitchStmt t _ _ _) = Some t"
| "stmt_token (SelectStmt t _ _) = Some t"
| "stmt_token (TypeSwitchStmt t _ _ _ _) = Some t"
| "stmt_token (ForRangeStmt t _ _ _ _) = Some t"
| "stmt_token (ForNumericStmt t _ _ _ _ _) = Some t"
| "stmt_token (ForConditionStmt t _ _) = Some t"
| "stmt_token (DeferStmt t _ _) = Some t"
| "stmt_token (GoStmt t _ _) = Some t"
| "stmt_token (SendStmt t _ _) = Some t"
| "stmt_token (ExpressionStmt e _) = expr_token e"
| "stmt_token (TypeDeclStmt d) = Some (tdToken d)"

fun decl_token :: "Declaration \<Rightarrow> token option" where
  "decl_token NilImportDecl = None"
| "decl_token NilInterfaceDecl = None"
| "decl_token (PetioleDecl t _) = Some t"
| "decl_token (SkillDecl t _ _ _) = Some t"
| "decl_token (ImportDecl t _ _) = Some t"
| "decl_token (ConstDecl t _) = Some t"
| "decl_token (TypeDeclaration d) = Some (tdToken d)"
| "decl_token (EnumDecl t _ _ _) = Some t"
| "decl_token (InterfaceDecl t _ _ _) = Some t"
| "decl_token (FunctionDecl t _ _ _ _ _ _) = Some t"
| "decl_token (VarDeclaration s) = stmt_token s"

text \<open>\<^verbatim>\<open>Pos()\<close> and \<^verbatim>\<open>TokenLiteral()\<close> of the three interfaces and of the program.\<close>

definition ExprPos :: "Expression \<Rightarrow> Position option" where "ExprPos e = map_option token_pos (expr_token e)"
definition StmtPos :: "Statement \<Rightarrow> Position option" where "StmtPos s = map_option token_pos (stmt_token s)"
definition DeclPos :: "Declaration \<Rightarrow> Position option" where "DeclPos d = map_option token_pos (decl_token d)"

definition ExprTokenLiteral :: "Expression \<Rightarrow> string option" where
  "ExprTokenLiteral e = map_option Lexeme (expr_token e)"

definition DeclTokenLiteral :: "Declaration \<Rightarrow> string option" where
  "DeclTokenLiteral d = map_option Lexeme (decl_token d)"

definition no_position :: Position where
  "no_position = \<lparr>posLine = 0, posColumn = 0, posFile = []\<rparr>"

definition ProgramPos :: "Program \<Rightarrow> Position option" where
  "ProgramPos p =
     (case programPetiole p of Some d \<Rightarrow> DeclPos d
      | None \<Rightarrow>
          if length (programImports p) > 0 then DeclPos (programImports p ! 0)
          else if length (programDeclarations p) > 0 then DeclPos (programDeclarations p ! 0)
          else Some no_position)"

definition ProgramTokenLiteral :: "Program \<Rightarrow> string option" where
  "ProgramTokenLiteral p =
     (case programPetiole p of Some d \<Rightarrow> DeclTokenLiteral d
      | None \<Rightarrow>
          if length (programImports p) > 0 then DeclTokenLiteral (programImports p ! 0)
          else if length (programDeclarations p) > 0 then DeclTokenLiteral (programDeclarations p ! 0)
          else Some [])"

end
