(* ===== verification/Quoting.thy ===== *)
theory Quoting
  imports FormatString
begin

text \<open>
  What the code generator and the formatter use of Go's string library beyond \<open>GoText\<close>: \<^verbatim>\<open>strconv.Quote\<close>,
  and searching and splitting by a text of several bytes.
\<close>

section \<open>Quoting\<close>

text \<open>\<^verbatim>\<open>%q\<close>, \<^verbatim>\<open>strconv.Quote\<close>: which runes beyond ASCII are printable is a table of Go's library, and the
  parameter \<open>isprint\<close>.\<close>

definition hex_digits :: "nat \<Rightarrow> nat \<Rightarrow> string" where
  "hex_digits n r = map (\<lambda>k. hex_char (r div 16 ^ k mod 16)) (rev [0..<n])"

definition quote_rune :: "(rune \<Rightarrow> bool) \<Rightarrow> rune \<Rightarrow> string" where
  "quote_rune isprint r =
     (if r = 0x22 then [CHR 0x5C, CHR 0x22] else if r = 0x5C then [CHR 0x5C, CHR 0x5C]
      else if r = 0x07 then [CHR 0x5C, CHR ''a''] else if r = 0x08 then [CHR 0x5C, CHR ''b'']
      else if r = 0x0C then [CHR 0x5C, CHR ''f''] else if r = 0x0A then [CHR 0x5C, CHR ''n'']
      else if r = 0x0D then [CHR 0x5C, CHR ''r''] else if r = 0x09 then [CHR 0x5C, CHR ''t'']
      else if r = 0x0B then [CHR 0x5C, CHR ''v'']
      else if r < 0x20 \<or> r = 0x7F then [CHR 0x5C, CHR ''x''] @ hex_digits 2 r
      else if r < 0x7F \<or> isprint r then utf8_encode r
      else if r < 0x10000 then [CHR 0x5C, CHR ''u''] @ hex_digits 4 r
      else [CHR 0x5C, CHR ''U''] @ hex_digits 8 r)"

function quote_bytes :: "(rune \<Rightarrow> bool) \<Rightarrow> nat list \<Rightarrow> string" where
  "quote_bytes isprint bs =
     (if bs = [] then []
      else (let (r, n) = decode_rune bs
            in (if r = 0xFFFD \<and> n = 1 then [CHR 0x5C, CHR ''x''] @ hex_digits 2 (hd bs)
                else quote_rune isprint r) @ quote_bytes isprint (drop (max 1 n) bs)))"
  by pat_completeness auto
termination by (relation "measure (length \<circ> snd)") auto

declare quote_bytes.simps [simp del]

definition Quote :: "(rune \<Rightarrow> bool) \<Rightarrow> string \<Rightarrow> string" where
  "Quote isprint s = [CHR 0x22] @ quote_bytes isprint (map of_char s) @ [CHR 0x22]"

section \<open>Searching and splitting\<close>

text \<open>\<^verbatim>\<open>strings.Contains\<close>, \<^verbatim>\<open>strings.Index\<close> and \<^verbatim>\<open>strings.Split\<close> with a separator that is not empty. \<^verbatim>\<open>ContainsRune\<close> of a
  rune beyond ASCII looks for its bytes.\<close>

fun index_str :: "string \<Rightarrow> string \<Rightarrow> nat option" where
  "index_str [] sub = (if sub = [] then Some 0 else None)"
| "index_str (c # s) sub = (if has_prefix (c # s) sub then Some 0 else map_option Suc (index_str s sub))"

definition contains_str :: "string \<Rightarrow> string \<Rightarrow> bool" where
  "contains_str s sub \<longleftrightarrow> index_str s sub \<noteq> None"

lemma index_str_bound: "index_str s sub = Some k \<Longrightarrow> k + length sub \<le> length s"
proof (induction s arbitrary: k)
  case (Cons c s)
  then show ?case
    by (cases "has_prefix (c # s) sub") (auto simp: has_prefix_def, metis le_cases length_Cons take_all_iff)
qed (auto split: if_splits)

function split_str :: "string \<Rightarrow> string \<Rightarrow> string list" where
  "split_str sep s =
     (case index_str s sep of
        None \<Rightarrow> [s]
      | Some k \<Rightarrow> (if sep = [] then [s] else take k s # split_str sep (drop (k + length sep) s)))"
  by pat_completeness auto
termination
proof (relation "measure (length \<circ> snd)", goal_cases)
  case (2 sep s k)
  then show ?case using index_str_bound [of s sep k] by (cases s) (auto split: if_splits)
qed simp

declare split_str.simps [simp del]

definition contains_rune :: "string \<Rightarrow> rune \<Rightarrow> bool" where
  "contains_rune s r \<longleftrightarrow> contains_str s (utf8_encode r)"

end
