(* ===== verification/PrintExpr.thy ===== *)
theory PrintExpr
  imports FormatType Syntax Quoting
begin

text \<open>
  The expression printer of \<^verbatim>\<open>internal/formatter/printer.go\<close>. A method of \<^verbatim>\<open>Printer\<close> is a function of
  \<^verbatim>\<open>indentLevel\<close> and its node; a method that writes to \<^verbatim>\<open>output\<close> also takes it and returns it. The formatter prints only trees
  that were parsed without an error, which have no nil pointers where the code dereferences one; the
  text printed for a nil block is empty here. The methods that call each other are fields of \<open>printers\<close>.
\<close>

section \<open>The printer\<close>

record printers =
  pPrint :: "rune \<Rightarrow> bool"
  pExpr :: "nat \<Rightarrow> Expression \<Rightarrow> string"
  pStmt :: "nat \<Rightarrow> Statement \<Rightarrow> string \<Rightarrow> string"
  pAlternative :: "nat \<Rightarrow> Statement \<Rightarrow> string \<Rightarrow> string"

definition maxLineWidth :: nat where "maxLineWidth = 100"

definition indentText :: "nat \<Rightarrow> string" where
  "indentText level = str_repeat ''    '' level"

definition printLine :: "nat \<Rightarrow> string \<Rightarrow> string" where
  "printLine level s =
     (if s = [] then [CHR 0x0A]
      else if contains_char s CHR 0x0A then
        indentText level @ s @ (if has_suffix s [CHR 0x0A] then [] else [CHR 0x0A])
      else indentText level @ s @ [CHR 0x0A])"

section \<open>Source lines\<close>

definition expr_line :: "Expression \<Rightarrow> int" where
  "expr_line e = (case expr_token e of Some t \<Rightarrow> Line t | None \<Rightarrow> 0)"

definition stmt_line :: "Statement \<Rightarrow> int" where
  "stmt_line s = (case stmt_token s of Some t \<Rightarrow> Line t | None \<Rightarrow> 0)"

text \<open>\<^verbatim>\<open>if l > 0 && l < line { line = l }\<close>\<close>

definition earlier :: "int \<Rightarrow> int \<Rightarrow> int" where
  "earlier l line0 = (if l > 0 \<and> l < line0 then l else line0)"

fun minExprLine :: "Expression \<Rightarrow> int" where
  "minExprLine (CallExpr t f as ns v) = (if f \<noteq> NilExpr then earlier (minExprLine f) (Line t) else Line t)"
| "minExprLine (MethodCallExpr t ob n as ns v) =
     (if ob \<noteq> NilExpr then earlier (minExprLine ob) (Line t) else Line t)"
| "minExprLine (FieldAccessExpr t ob n) = (if ob \<noteq> NilExpr then earlier (minExprLine ob) (Line t) else Line t)"
| "minExprLine (PipeExpr t l r m) = (if l \<noteq> NilExpr then earlier (minExprLine l) (Line t) else Line t)"
| "minExprLine e = expr_line e"

text \<open>The line after the last of the arguments, which stand between parentheses or braces.\<close>

definition call_end :: "int \<Rightarrow> (int \<times> int) list \<Rightarrow> int" where
  "call_end open args =
     (let last = foldl max open (map fst args)
      in if \<not> list_ex (\<lambda>(m, l). m > l) args \<and> last > open then last + 1 else last)"

definition braces_end :: "int \<Rightarrow> int list \<Rightarrow> int" where
  "braces_end open ms = (let last = foldl max open ms in if last > open then last + 1 else last)"

fun maxExprLine :: "Expression \<Rightarrow> int" and maxStmtLine :: "Statement \<Rightarrow> int" where
  "maxExprLine (PipeExpr t l r m) = max (Line t) (max (maxExprLine r) (maxExprLine l))"
| "maxExprLine (CallExpr t f as ns v) = call_end (Line t) (map (\<lambda>a. (maxExprLine a, expr_line a)) as)"
| "maxExprLine (MethodCallExpr t ob n as ns v) =
     call_end (max (Line t) (maxExprLine ob)) (map (\<lambda>a. (maxExprLine a, expr_line a)) as)"
| "maxExprLine (StructLiteralExpr t ty fs m) = braces_end (Line t) (map (\<lambda>(n, x). maxExprLine x) fs)"
| "maxExprLine (ListLiteralExpr t ty xs m) = braces_end (Line t) (map maxExprLine xs)"
| "maxExprLine (MapLiteralExpr t k v ps m) =
     braces_end (Line t) (concat (map (\<lambda>(k, x). [maxExprLine x, maxExprLine k]) ps))"
| "maxExprLine (UntypedCompositeLiteral t keyed es m ty) =
     braces_end (Line t) (concat (map (\<lambda>(k, x). [maxExprLine k, maxExprLine x]) es))"
| "maxExprLine (ArrowLambda t ps body blk) =
     (let l = max (Line t) (maxExprLine body)
      in case blk of None \<Rightarrow> l
         | Some (b, ss) \<Rightarrow> (if ss = [] then l else max l (last (map maxStmtLine ss))))"
| "maxExprLine (FunctionLiteral t ps rs blk) =
     (case blk of None \<Rightarrow> Line t
      | Some (b, ss) \<Rightarrow> (if ss = [] then Line t else max (Line t) (last (map maxStmtLine ss))))"
| "maxExprLine e = expr_line e"
| "maxStmtLine (VarDeclStmt ns ty vs t oe) = foldl max (Line t) (map maxExprLine vs)"
| "maxStmtLine (AssignStmt ts vs t oe) = foldl max (Line t) (map maxExprLine vs)"
| "maxStmtLine (ExpressionStmt e oe) = max (expr_line e) (maxExprLine e)"
| "maxStmtLine (ReturnStmt t vs) = foldl max (Line t) (map maxExprLine vs)"
| "maxStmtLine s = stmt_line s"

definition stmtStartLine :: "Statement \<Rightarrow> int" where
  "stmtStartLine s =
     foldl (\<lambda>line0 e. earlier (minExprLine e) line0) (stmt_line s)
       (case s of
          ExpressionStmt e oe \<Rightarrow> [e]
        | VarDeclStmt ns ty vs t oe \<Rightarrow> vs
        | AssignStmt ts vs t oe \<Rightarrow> ts @ vs
        | ReturnStmt t vs \<Rightarrow> vs
        | _ \<Rightarrow> [])"

text \<open>The last statement of a block, if it has one, decides where the block ends.\<close>

definition last_end :: "int \<Rightarrow> int list \<Rightarrow> int" where
  "last_end line0 es = (if es = [] then line0 else last es)"

fun estimateEndLine :: "Statement \<Rightarrow> int" where
  "estimateEndLine (IfStmt t i c b a) =
     (if a \<noteq> NilStmt then estimateEndLine a
      else last_end (Line t) (case b of None \<Rightarrow> [] | Some (k, ss) \<Rightarrow> map estimateEndLine ss))"
| "estimateEndLine (ElseStmt t b) =
     last_end (Line t) (case b of None \<Rightarrow> [] | Some (k, ss) \<Rightarrow> map estimateEndLine ss)"
| "estimateEndLine (ForRangeStmt t v i c b) =
     last_end (Line t) (case b of None \<Rightarrow> [] | Some (k, ss) \<Rightarrow> map estimateEndLine ss)"
| "estimateEndLine (ForNumericStmt t v f l th b) =
     last_end (Line t) (case b of None \<Rightarrow> [] | Some (k, ss) \<Rightarrow> map estimateEndLine ss)"
| "estimateEndLine (ForConditionStmt t c b) =
     last_end (Line t) (case b of None \<Rightarrow> [] | Some (k, ss) \<Rightarrow> map estimateEndLine ss)"
| "estimateEndLine (SwitchStmt t e cs oth) =
     (let of_cases = last_end (Line t) (map (\<lambda>(k, vs, b).
            last_end (Line t) (case b of None \<Rightarrow> [] | Some (k, ss) \<Rightarrow> map estimateEndLine ss)) cs)
      in last_end of_cases
           (case oth of None \<Rightarrow> []
            | Some (k, b) \<Rightarrow> (case b of None \<Rightarrow> [] | Some (k, ss) \<Rightarrow> map estimateEndLine ss)))"
| "estimateEndLine s = maxStmtLine s"

section \<open>Blocks\<close>

text \<open>A blank line between two statements is kept.\<close>

definition blank_before :: "int \<Rightarrow> int \<Rightarrow> string" where
  "blank_before prevEnd line0 = (if prevEnd > 0 \<and> line0 > prevEnd + 1 then [CHR 0x0A] else [])"

fun print_statements :: "(Statement \<Rightarrow> string \<Rightarrow> string) \<Rightarrow> int \<Rightarrow> Statement list \<Rightarrow> string \<Rightarrow> string" where
  "print_statements prnt prevEnd [] out = out"
| "print_statements prnt prevEnd (s # ss) out =
     print_statements prnt (estimateEndLine s) ss (prnt s (out @ blank_before prevEnd (stmtStartLine s)))"

definition printBlock :: "printers \<Rightarrow> nat \<Rightarrow> BlockStmt option \<Rightarrow> string \<Rightarrow> string" where
  "printBlock R level b out = (case b of None \<Rightarrow> out | Some (t, ss) \<Rightarrow> print_statements (pStmt R level) 0 ss out)"

section \<open>Operators\<close>

definition operatorPrecedence :: "string \<Rightarrow> nat" where
  "operatorPrecedence op =
     (if op \<in> set [''or'', ''||''] then 1
      else if op \<in> set [''and'', ''&&''] then 2
      else if op = ''|'' then 3
      else if op = ''^'' then 4
      else if op = ''&'' then 5
      else if op \<in> set [''equals'', ''not equals'', ''=='', ''!='', ''isnt''] then 6
      else if op \<in> set [''<'', ''>'', ''<='', ''>='', ''in''] then 7
      else if op \<in> set [''<<'', ''>>''] then 8
      else if op \<in> set [''+'', ''-''] then 9
      else if op \<in> set [''*'', ''/'', ''%''] then 10
      else 0)"

definition parenthesized :: "string \<Rightarrow> string" where
  "parenthesized s = ''('' @ s @ '')''"

definition binaryOperandToString :: "printers \<Rightarrow> nat \<Rightarrow> Expression \<Rightarrow> nat \<Rightarrow> bool \<Rightarrow> string" where
  "binaryOperandToString R level child parentPrec isRight =
     (let s = pExpr R level child
      in case child of
           BinaryExpr t l op r \<Rightarrow>
             (let childPrec = operatorPrecedence op
              in if childPrec < parentPrec \<or> isRight \<and> childPrec = parentPrec then parenthesized s else s)
         | _ \<Rightarrow> s)"

definition typeCastOperandNeedsParens :: "Expression \<Rightarrow> bool" where
  "typeCastOperandNeedsParens e =
     (case e of BinaryExpr t l op r \<Rightarrow> True | UnaryExpr t op r \<Rightarrow> True | IsExpr t v c b \<Rightarrow> True | _ \<Rightarrow> False)"

definition binaryExprToString :: "printers \<Rightarrow> nat \<Rightarrow> Expression \<Rightarrow> string \<Rightarrow> Expression \<Rightarrow> string" where
  "binaryExprToString R level l op r =
     (let prec = operatorPrecedence op
      in binaryOperandToString R level l prec False @ '' '' @ op @ '' '' @
         binaryOperandToString R level r prec True)"

definition isExprToString :: "printers \<Rightarrow> nat \<Rightarrow> Expression \<Rightarrow> Identifier \<Rightarrow> Identifier option \<Rightarrow> string" where
  "isExprToString R level v c b =
     pExpr R level v @ '' is '' @ identValue c @ (case b of None \<Rightarrow> [] | Some i \<Rightarrow> '' as '' @ identValue i)"

definition needsParensAfterNot :: "Expression \<Rightarrow> bool" where
  "needsParensAfterNot e =
     (case e of BinaryExpr t l op r \<Rightarrow> True | PipeExpr t l r m \<Rightarrow> True | IsExpr t v c b \<Rightarrow> True | _ \<Rightarrow> False)"

definition unaryExprToString :: "printers \<Rightarrow> nat \<Rightarrow> string \<Rightarrow> Expression \<Rightarrow> string" where
  "unaryExprToString R level op r =
     (let right = pExpr R level r
      in if op = ''not'' \<or> op = ''!'' then
           (if needsParensAfterNot r then op @ '' ('' @ right @ '')'' else op @ '' '' @ right)
         else op @ right)"

section \<open>Lists of parts on one line or on several\<close>

definition multiline_parts :: "nat \<Rightarrow> string \<Rightarrow> string list \<Rightarrow> string \<Rightarrow> string" where
  "multiline_parts level open entries close =
     open @ [CHR 0x0A] @ concat (map (\<lambda>e. indentText (level + 1) @ e @ '','' @ [CHR 0x0A]) entries) @
     indentText level @ close"

definition multilineBraced :: "nat \<Rightarrow> string \<Rightarrow> string list \<Rightarrow> string" where
  "multilineBraced level pre entries = multiline_parts level (pre @ ''{'') entries ''}''"

definition multilineParenthesized :: "nat \<Rightarrow> string \<Rightarrow> string list \<Rightarrow> string" where
  "multilineParenthesized level pre entries = multiline_parts level (pre @ ''('') entries '')''"

definition multilineBracketed :: "nat \<Rightarrow> string list \<Rightarrow> string" where
  "multilineBracketed level entries = multiline_parts level ''['' entries '']''"

definition fits_line :: "nat \<Rightarrow> string \<Rightarrow> bool" where
  "fits_line level s \<longleftrightarrow> length (indentText level) + length s \<le> maxLineWidth"

definition multiline :: "string \<Rightarrow> bool" where
  "multiline s \<longleftrightarrow> contains_char s CHR 0x0A"

section \<open>Pipes\<close>

fun pipe_stages :: "Expression \<Rightarrow> Expression list" where
  "pipe_stages (PipeExpr t l r m) = pipe_stages l @ [r]"
| "pipe_stages e = [e]"

fun authored_multiline :: "Expression \<Rightarrow> bool" where
  "authored_multiline (PipeExpr t l r m) \<longleftrightarrow> m \<or> authored_multiline l"
| "authored_multiline e \<longleftrightarrow> False"

definition pipeExprToString :: "printers \<Rightarrow> nat \<Rightarrow> Expression \<Rightarrow> string" where
  "pipeExprToString R level e =
     (let formatted = map (pExpr R level) (pipe_stages e);
          singleLine = go_join formatted '' |> ''
      in if list_ex multiline formatted then singleLine
         else if \<not> authored_multiline e \<and> fits_line level singleLine then singleLine
         else hd formatted @
           concat (map (\<lambda>stage. [CHR 0x0A] @ indentText (level + 1) @ ''|> '' @ stage) (tl formatted)))"

section \<open>Calls\<close>

definition canMergeOuterClose :: "string \<Rightarrow> string \<Rightarrow> bool" where
  "canMergeOuterClose joined outerIndent =
     (case last_index_char joined CHR 0x0A of
        None \<Rightarrow> False
      | Some lastNL \<Rightarrow>
          (let rawLast = drop (lastNL + 1) joined; trimmed = trim_space rawLast
           in if trimmed = [] \<or> trim_left (trim_right trimmed '')}]'') '')}]'' \<noteq> [] then False
              else take (length rawLast - length (trim_left rawLast [CHR '' '', CHR 0x09])) rawLast = outerIndent))"

text \<open>The printed arguments; the last one of a variadic call is marked.\<close>

definition argumentStrings :: "printers \<Rightarrow> nat \<Rightarrow> Expression list \<Rightarrow> bool \<Rightarrow> string list" where
  "argumentStrings R level as variadic =
     (let ss = map (pExpr R level) as
      in if variadic \<and> ss \<noteq> [] then butlast ss @ [''many '' @ last ss] else ss)"

definition call_string :: "nat \<Rightarrow> string \<Rightarrow> string list \<Rightarrow> string" where
  "call_string level func args =
     (let joined = go_join args '', ''; singleLine = func @ ''('' @ joined @ '')''
      in if \<not> list_ex multiline args \<and> fits_line level singleLine then singleLine
         else if list_ex multiline args then
           (if canMergeOuterClose joined (indentText level) then singleLine
            else func @ ''('' @ joined @ [CHR 0x0A] @ indentText level @ '')'')
         else multilineParenthesized level func args)"

definition callExprToString :: "printers \<Rightarrow> nat \<Rightarrow> Expression \<Rightarrow> Expression list \<Rightarrow> bool \<Rightarrow> string" where
  "callExprToString R level f as variadic = call_string level (pExpr R level f) (argumentStrings R level as variadic)"

definition methodCallExprToString ::
  "printers \<Rightarrow> nat \<Rightarrow> Expression \<Rightarrow> Identifier \<Rightarrow> Expression list \<Rightarrow> bool \<Rightarrow> string" where
  "methodCallExprToString R level ob name as variadic =
     (let func = pExpr R level ob @ ''.'' @ identValue name
      in if as = [] then func @ ''()'' else call_string level func (argumentStrings R level as variadic))"

definition fieldAccessExprToString :: "printers \<Rightarrow> nat \<Rightarrow> Expression \<Rightarrow> Identifier \<Rightarrow> string" where
  "fieldAccessExprToString R level ob name =
     (case ob of TypeCastExpr t x ty \<Rightarrow> parenthesized (pExpr R level ob) | _ \<Rightarrow> pExpr R level ob) @
     ''.'' @ identValue name"

definition sliceExprToString :: "printers \<Rightarrow> nat \<Rightarrow> Expression \<Rightarrow> Expression \<Rightarrow> Expression \<Rightarrow> string" where
  "sliceExprToString R level l low high =
     pExpr R level l @ ''['' @ (if low \<noteq> NilExpr then pExpr R level low else []) @ '':'' @
     (if high \<noteq> NilExpr then pExpr R level high else []) @ '']''"

section \<open>Literals\<close>

definition stringLiteralToString :: "printers \<Rightarrow> nat \<Rightarrow> string \<Rightarrow> bool \<Rightarrow> bool \<Rightarrow> StringInterpolation list \<Rightarrow> string" where
  "stringLiteralToString R level v interpolated raw parts =
     (if raw then ''`'' @ v @ ''`''
      else if parts \<noteq> [] then
        [CHR 0x22] @
        concat (map (\<lambda>(isLiteral, text, x).
          if isLiteral then escapeStringValue text else ''{'' @ pExpr R level x @ ''}'') parts) @ [CHR 0x22]
      else [CHR 0x22] @ escapeStringValue v @ [CHR 0x22])"

definition literal_string :: "nat \<Rightarrow> bool \<Rightarrow> string \<Rightarrow> string list \<Rightarrow> string" where
  "literal_string level wasMultiline pre entries =
     (let singleLine = pre @ ''{'' @ go_join entries '', '' @ ''}''
      in if \<not> wasMultiline \<and> fits_line level singleLine then singleLine else multilineBraced level pre entries)"

definition structLiteralToString :: "printers \<Rightarrow> nat \<Rightarrow> TypeAnnotation \<Rightarrow> FieldValue list \<Rightarrow> bool \<Rightarrow> string" where
  "structLiteralToString R level ty fs m =
     (let typeName = typeAnnotationToString ty
      in if fs = [] then typeName @ ''{}''
         else literal_string level m typeName (map (\<lambda>(n, x). identValue n @ '': '' @ pExpr R level x) fs))"

definition listLiteralToString :: "printers \<Rightarrow> nat \<Rightarrow> TypeAnnotation \<Rightarrow> Expression list \<Rightarrow> bool \<Rightarrow> string" where
  "listLiteralToString R level ty xs m =
     (if xs = [] then
        (if ty \<noteq> NilType then ''empty list of '' @ typeAnnotationToString ty else ''empty list'')
      else
        (let elements = map (pExpr R level) xs
         in if ty \<noteq> NilType then literal_string level m (''list of '' @ typeAnnotationToString ty) elements
            else (let singleLine = ''['' @ go_join elements '', '' @ '']''
                  in if \<not> m \<and> fits_line level singleLine then singleLine else multilineBracketed level elements)))"

definition mapLiteralToString ::
  "printers \<Rightarrow> nat \<Rightarrow> TypeAnnotation \<Rightarrow> TypeAnnotation \<Rightarrow> KeyValuePair list \<Rightarrow> bool \<Rightarrow> string" where
  "mapLiteralToString R level k v ps m =
     (let types = typeAnnotationToString k @ '' to '' @ typeAnnotationToString v
      in if ps = [] then ''empty map of '' @ types
         else literal_string level m (''map of '' @ types)
           (map (\<lambda>(k, x). pExpr R level k @ '': '' @ pExpr R level x) ps))"

definition untypedCompositeLiteralToString :: "printers \<Rightarrow> nat \<Rightarrow> bool \<Rightarrow> UntypedEntry list \<Rightarrow> bool \<Rightarrow> string" where
  "untypedCompositeLiteralToString R level keyed es m =
     (if es = [] then ''{}''
      else literal_string level m []
        (map (\<lambda>(k, x). if keyed then pExpr R level k @ '': '' @ pExpr R level x else pExpr R level x) es))"

definition makeExprToString :: "printers \<Rightarrow> nat \<Rightarrow> TypeAnnotation \<Rightarrow> Expression list \<Rightarrow> string" where
  "makeExprToString R level ty as =
     ''make('' @ typeAnnotationToString ty @
     (if as = [] then [] else '', '' @ go_join (map (pExpr R level) as) '', '') @ '')''"

section \<open>Functions\<close>

definition parameterToString :: "printers \<Rightarrow> nat \<Rightarrow> Parameter \<Rightarrow> string" where
  "parameterToString R level =
     (\<lambda>(n, ty, variadic, d). (if variadic then ''many '' else []) @ identValue n @ '' '' @ typeAnnotationToString ty @
        (if d \<noteq> NilExpr then '' = '' @ pExpr R level d else []))"

definition parametersToString :: "printers \<Rightarrow> nat \<Rightarrow> Parameter list \<Rightarrow> string" where
  "parametersToString R level ps = go_join (map (parameterToString R level) ps) '', ''"

definition returnTypesToString :: "TypeAnnotation list \<Rightarrow> string" where
  "returnTypesToString rs =
     (case rs of [] \<Rightarrow> [] | [r] \<Rightarrow> typeAnnotationToString r
      | _ \<Rightarrow> parenthesized (go_join (map typeAnnotationToString rs) '', ''))"

definition arrowLambdaToString ::
  "printers \<Rightarrow> nat \<Rightarrow> Parameter list \<Rightarrow> Expression \<Rightarrow> BlockStmt option \<Rightarrow> string" where
  "arrowLambdaToString R level ps body blk =
     (let parts = map (\<lambda>(n, ty, v, d). if ty \<noteq> NilType then identValue n @ '' '' @ typeAnnotationToString ty
                        else identValue n) ps;
          params = (case ps of [(n, NilType, v, d)] \<Rightarrow> identValue n | _ \<Rightarrow> parenthesized (go_join parts '', ''))
      in if body \<noteq> NilExpr then params @ '' => '' @ pExpr R level body
         else params @ '' =>'' @ [CHR 0x0A] @ trim_right (printBlock R (level + 1) blk []) [CHR 0x0A])"

definition functionLiteralToString ::
  "printers \<Rightarrow> nat \<Rightarrow> Parameter list \<Rightarrow> TypeAnnotation list \<Rightarrow> BlockStmt option \<Rightarrow> string" where
  "functionLiteralToString R level ps rs blk =
     (let returns = returnTypesToString rs;
          sig = ''func('' @ parametersToString R level ps @ '')'' @ (if returns \<noteq> [] then '' '' @ returns else [])
      in case blk of None \<Rightarrow> sig
         | Some b \<Rightarrow> sig @ [CHR 0x0A] @ trim_right (printBlock R (level + 1) (Some b) []) [CHR 0x0A])"

section \<open>Expressions\<close>

text \<open>An integer keeps its text if it has a prefix or an underscore.\<close>

definition integer_string :: "token \<Rightarrow> int \<Rightarrow> string" where
  "integer_string t v =
     (let s = Lexeme t
      in if length s > 1 \<and> (s ! 0 = CHR ''0'' \<or> contains_char s CHR ''_'') then s else itoa v)"

definition block_expr_string :: "printers \<Rightarrow> nat \<Rightarrow> BlockStmt option \<Rightarrow> string" where
  "block_expr_string R level b =
     (case b of Some (t, [ExpressionStmt x oe]) \<Rightarrow> pExpr R level x | _ \<Rightarrow> [])"

definition exprToString :: "printers \<Rightarrow> nat \<Rightarrow> Expression \<Rightarrow> string" where
  "exprToString R level e =
     (case e of
        NilExpr \<Rightarrow> []
      | Ident i \<Rightarrow> identValue i
      | IntegerLiteral t v \<Rightarrow> integer_string t v
      | FloatLiteral t v \<Rightarrow> Lexeme t
      | StringExpr t v interpolated raw parts \<Rightarrow> stringLiteralToString R level v interpolated raw parts
      | BooleanLiteral t v \<Rightarrow> if v then ''true'' else ''false''
      | BinaryExpr t l op r \<Rightarrow> binaryExprToString R level l op r
      | IsExpr t v c b \<Rightarrow> isExprToString R level v c b
      | UnaryExpr t op r \<Rightarrow> unaryExprToString R level op r
      | PipeExpr t l r m \<Rightarrow> pipeExprToString R level e
      | NamedArgumentExpr t n x \<Rightarrow> identValue n @ '': '' @ pExpr R level x
      | CallExpr t f as ns v \<Rightarrow> callExprToString R level f as v
      | MethodCallExpr t ob n as ns v \<Rightarrow> methodCallExprToString R level ob n as v
      | FieldAccessExpr t ob n \<Rightarrow> fieldAccessExprToString R level ob n
      | IndexExpr t l i \<Rightarrow> pExpr R level l @ ''['' @ pExpr R level i @ '']''
      | SliceExpr t l low high \<Rightarrow> sliceExprToString R level l low high
      | StructLiteralExpr t ty fs m \<Rightarrow> structLiteralToString R level ty fs m
      | ListLiteralExpr t ty xs m \<Rightarrow> listLiteralToString R level ty xs m
      | MapLiteralExpr t k v ps m \<Rightarrow> mapLiteralToString R level k v ps m
      | UntypedCompositeLiteral t keyed es m ty \<Rightarrow> untypedCompositeLiteralToString R level keyed es m
      | ReceiveExpr t c \<Rightarrow> ''receive from '' @ pExpr R level c
      | TypeCastExpr t x ty \<Rightarrow>
          (let s = pExpr R level x
           in (if typeCastOperandNeedsParens x then parenthesized s else s) @ '' as '' @ typeAnnotationToString ty)
      | TypeAssertionExpr t x ty \<Rightarrow> pExpr R level x @ ''.('' @ typeAnnotationToString ty @ '')''
      | EmptyExpr t ty \<Rightarrow> if ty \<noteq> NilType then ''empty '' @ typeAnnotationToString ty else ''empty''
      | DiscardExpr t \<Rightarrow> ''discard''
      | ErrorExpr t x \<Rightarrow> ''error '' @ pExpr R level x
      | ReturnExpr t vs \<Rightarrow> if vs = [] then ''return'' else ''return '' @ go_join (map (pExpr R level) vs) '', ''
      | OnErrExpr t x d \<Rightarrow> pExpr R level x @ '' onerr '' @ pExpr R level d
      | MakeExpr t ty as \<Rightarrow> makeExprToString R level ty as
      | CloseExpr t c \<Rightarrow> ''close '' @ pExpr R level c
      | PanicExpr t x \<Rightarrow> ''panic '' @ pExpr R level x
      | RecoverExpr t \<Rightarrow> ''recover''
      | FunctionLiteral t ps rs b \<Rightarrow> functionLiteralToString R level ps rs b
      | ArrowLambda t ps body b \<Rightarrow> arrowLambdaToString R level ps body b
      | AddressOfExpr t x \<Rightarrow> ''reference of '' @ pExpr R level x
      | DerefExpr t x \<Rightarrow> ''dereference '' @ pExpr R level x
      | PipedSwitchExpr t l s \<Rightarrow> pExpr R level l @ '' |> switch''
      | BlockExpr t b \<Rightarrow> block_expr_string R level b
      | IfExpression t c x y \<Rightarrow>
          ''if '' @ pExpr R level c @ '' then '' @ pExpr R level x @ '' else '' @ pExpr R level y)"

end
