(* ===== verification/PrintStmt.thy ===== *)
theory PrintStmt
  imports PrintExpr
begin

text \<open>
  The statements and declarations of \<^verbatim>\<open>internal/formatter/printer.go\<close>. A method takes the output written
  so far and returns it with its own text at the end. The printers of compound statements take the
  printer of blocks as an argument; the printer with comments of the sources, which is not modelled, passes its own.
\<close>

type_synonym block_printer = "nat \<Rightarrow> BlockStmt option \<Rightarrow> string \<Rightarrow> string"

definition exprStrings_of :: "printers \<Rightarrow> nat \<Rightarrow> Expression list \<Rightarrow> string" where
  "exprStrings_of R level xs = go_join (map (pExpr R level) xs) '', ''"

definition name_list :: "Identifier list \<Rightarrow> string" where
  "name_list ns = go_join (map identValue ns) '', ''"

definition assign_op :: "token \<Rightarrow> string" where
  "assign_op t = (if Lexeme t = [] then ''='' else Lexeme t)"

definition stmtToString :: "printers \<Rightarrow> nat \<Rightarrow> Statement \<Rightarrow> string" where
  "stmtToString R level s =
     (case s of
        VarDeclStmt ns ty vs t oe \<Rightarrow> name_list ns @ '' := '' @ exprStrings_of R level vs
      | AssignStmt ts vs t oe \<Rightarrow>
          exprStrings_of R level ts @ '' '' @ assign_op t @ '' '' @ exprStrings_of R level vs
      | ExpressionStmt e oe \<Rightarrow> pExpr R level e
      | _ \<Rightarrow> [])"

section \<open>The \<^verbatim>\<open>onerr\<close> clause of a statement\<close>

definition onerr_head :: "string \<Rightarrow> string" where
  "onerr_head alias = (if alias \<noteq> [] then '' onerr as '' @ alias @ '' '' else '' onerr '')"

definition explain_text :: "printers \<Rightarrow> string \<Rightarrow> string" where
  "explain_text R explain = ''explain '' @ Quote (pPrint R) explain"

definition onErrSuffix :: "printers \<Rightarrow> nat \<Rightarrow> OnErrClause option \<Rightarrow> string" where
  "onErrSuffix R level clause =
     (case clause of
        None \<Rightarrow> []
      | Some (t, handler, explain, shReturn, shContinue, shBreak, alias) \<Rightarrow>
          onerr_head alias @
          (if shReturn then ''return''
           else if shContinue then ''continue''
           else if shBreak then ''break''
           else if explain \<noteq> [] \<and> handler = NilExpr then explain_text R explain
           else if handler \<noteq> NilExpr then
             pExpr R level handler @ (if explain \<noteq> [] then '' '' @ explain_text R explain else [])
           else []))"

definition printOnErrBlock :: "printers \<Rightarrow> nat \<Rightarrow> OnErrClause option \<Rightarrow> string \<Rightarrow> string" where
  "printOnErrBlock R level clause out =
     (case clause of
        None \<Rightarrow> out
      | Some (t, handler, explain, shReturn, shContinue, shBreak, alias) \<Rightarrow>
          (case handler of
             BlockExpr k b \<Rightarrow>
               printBlock R (level + 1) b
                 (out @ (if alias \<noteq> [] then '' onerr as '' @ alias else '' onerr'') @ [CHR 0x0A])
           | _ \<Rightarrow> out @ onErrSuffix R level clause @ [CHR 0x0A]))"

definition hasOnErrPipedSwitch :: "OnErrClause option \<Rightarrow> bool" where
  "hasOnErrPipedSwitch clause =
     (case clause of Some (t, PipedSwitchExpr k l s, info) \<Rightarrow> True | _ \<Rightarrow> False)"

definition hasBlockOnErr :: "OnErrClause option \<Rightarrow> bool" where
  "hasBlockOnErr clause = (case clause of Some (t, BlockExpr k b, info) \<Rightarrow> True | _ \<Rightarrow> False)"

text \<open>The cases of a switch: a line and the body, one level deeper.\<close>

definition print_case :: "block_printer \<Rightarrow> nat \<Rightarrow> string \<Rightarrow> BlockStmt option \<Rightarrow> string \<Rightarrow> string" where
  "print_case blk level header b out = blk (level + 2) b (out @ printLine (level + 1) header)"

definition print_otherwise :: "block_printer \<Rightarrow> nat \<Rightarrow> OtherwiseCase option \<Rightarrow> string \<Rightarrow> string" where
  "print_otherwise blk level oth out =
     (case oth of None \<Rightarrow> out | Some (t, b) \<Rightarrow> print_case blk level ''otherwise'' b out)"

definition print_when_cases :: "block_printer \<Rightarrow> printers \<Rightarrow> nat \<Rightarrow> WhenCase list \<Rightarrow> string \<Rightarrow> string" where
  "print_when_cases blk R level cs out =
     fold (\<lambda>(t, vs, b). print_case blk level (''when '' @ exprStrings_of R (level + 1) vs) b) cs out"

definition print_type_cases :: "block_printer \<Rightarrow> nat \<Rightarrow> TypeCase list \<Rightarrow> string \<Rightarrow> string" where
  "print_type_cases blk level cs out =
     fold (\<lambda>(t, ty, b). print_case blk level (''when '' @ typeAnnotationToString ty) b) cs out"

definition printPipedSwitchWithPrefix ::
  "printers \<Rightarrow> nat \<Rightarrow> string \<Rightarrow> Expression \<Rightarrow> Statement \<Rightarrow> string \<Rightarrow> string" where
  "printPipedSwitchWithPrefix R level pre l sw out =
     (let left = pExpr R level l
      in case sw of
           SwitchStmt t e cs oth \<Rightarrow>
             print_otherwise (printBlock R) level oth
               (print_when_cases (printBlock R) R level cs (out @ printLine level (pre @ left @ '' |> switch'')))
         | TypeSwitchStmt t e binding cs oth \<Rightarrow>
             (let b = (case binding of None \<Rightarrow> [] | Some i \<Rightarrow> '' as '' @ identValue i)
              in print_otherwise (printBlock R) level oth
                   (print_type_cases (printBlock R) level cs
                     (out @ printLine level (pre @ left @ '' |> switch'' @ b))))
         | _ \<Rightarrow> out)"

definition printOnErrPipedSwitch :: "printers \<Rightarrow> nat \<Rightarrow> string \<Rightarrow> OnErrClause option \<Rightarrow> string \<Rightarrow> string" where
  "printOnErrPipedSwitch R level pre clause out =
     (case clause of
        Some (t, PipedSwitchExpr k l s, explain, shReturn, shContinue, shBreak, alias) \<Rightarrow>
          printPipedSwitchWithPrefix R level (pre @ onerr_head alias) l s out
      | _ \<Rightarrow> out)"

text \<open>A line with its clause, which may need several lines.\<close>

definition print_with_onerr :: "printers \<Rightarrow> nat \<Rightarrow> string \<Rightarrow> OnErrClause option \<Rightarrow> string \<Rightarrow> string" where
  "print_with_onerr R level text oe out =
     (if hasOnErrPipedSwitch oe then printOnErrPipedSwitch R level text oe out
      else if hasBlockOnErr oe then printOnErrBlock R level oe (out @ indentText level @ text)
      else out @ printLine level (text @ onErrSuffix R level oe))"

section \<open>Simple statements\<close>

definition printTopLevelVarDecl ::
  "printers \<Rightarrow> Identifier list \<Rightarrow> TypeAnnotation \<Rightarrow> Expression list \<Rightarrow> token \<Rightarrow> string \<Rightarrow> string" where
  "printTopLevelVarDecl R ns ty vs t out =
     out @ printLine 0
       ((if Lexeme t = ''variable'' then ''variable'' else ''var'') @ '' '' @ name_list ns @
        (if ty \<noteq> NilType then '' '' @ typeAnnotationToString ty else []) @
        (if vs \<noteq> [] then '' = '' @ exprStrings_of R 0 vs else []))"

definition printVarDeclStmt ::
  "printers \<Rightarrow> nat \<Rightarrow> Identifier list \<Rightarrow> Expression list \<Rightarrow> OnErrClause option \<Rightarrow> string \<Rightarrow> string" where
  "printVarDeclStmt R level ns vs oe out =
     (case vs of
        [PipedSwitchExpr t l s] \<Rightarrow> printPipedSwitchWithPrefix R level (name_list ns @ '' := '') l s out
      | _ \<Rightarrow> print_with_onerr R level (name_list ns @ '' := '' @ exprStrings_of R level vs) oe out)"

definition printAssignStmt ::
  "printers \<Rightarrow> nat \<Rightarrow> Expression list \<Rightarrow> Expression list \<Rightarrow> token \<Rightarrow> OnErrClause option \<Rightarrow> string \<Rightarrow> string" where
  "printAssignStmt R level ts vs k oe out =
     (let targets = exprStrings_of R level ts @ '' '' @ assign_op k @ '' ''
      in case vs of
           [PipedSwitchExpr t l s] \<Rightarrow> printPipedSwitchWithPrefix R level targets l s out
         | _ \<Rightarrow> print_with_onerr R level (targets @ exprStrings_of R level vs) oe out)"

definition printExpressionStmt :: "printers \<Rightarrow> nat \<Rightarrow> Expression \<Rightarrow> OnErrClause option \<Rightarrow> string \<Rightarrow> string" where
  "printExpressionStmt R level e oe out =
     (case e of
        PipedSwitchExpr t l s \<Rightarrow> printPipedSwitchWithPrefix R level [] l s out
      | _ \<Rightarrow> print_with_onerr R level (pExpr R level e) oe out)"

definition printReturnStmt :: "printers \<Rightarrow> nat \<Rightarrow> Expression list \<Rightarrow> string \<Rightarrow> string" where
  "printReturnStmt R level vs out =
     (case vs of
        [] \<Rightarrow> out @ printLine level ''return''
      | [PipedSwitchExpr t l s] \<Rightarrow> printPipedSwitchWithPrefix R level ''return '' l s out
      | _ \<Rightarrow> out @ printLine level (''return '' @ exprStrings_of R level vs))"

section \<open>Compound statements\<close>

definition if_line :: "printers \<Rightarrow> nat \<Rightarrow> Statement \<Rightarrow> Expression \<Rightarrow> string" where
  "if_line R level init c =
     (if init \<noteq> NilStmt then ''if '' @ stmtToString R level init @ ''; '' @ pExpr R level c
      else ''if '' @ pExpr R level c)"

text \<open>What follows the block of an \<^verbatim>\<open>if\<close>; \<open>comment\<close> prints the comments before it.\<close>

definition print_alternative ::
  "(Statement \<Rightarrow> string \<Rightarrow> string) \<Rightarrow> block_printer \<Rightarrow> (nat \<Rightarrow> Statement \<Rightarrow> string \<Rightarrow> string) \<Rightarrow>
     printers \<Rightarrow> nat \<Rightarrow> Statement \<Rightarrow> string \<Rightarrow> string" where
  "print_alternative comment blk again R level a out =
     (case a of
        ElseStmt t b \<Rightarrow> blk (level + 1) b (comment a out @ printLine level ''else'')
      | IfStmt t i c b a2 \<Rightarrow>
          (let out1 = blk (level + 1) b
                 (comment a out @ indentText level @ ''else '' @ if_line R level i c @ [CHR 0x0A])
           in if a2 \<noteq> NilStmt then again level a2 out1 else out1)
      | _ \<Rightarrow> out)"

definition printIfStmtAlternative :: "printers \<Rightarrow> nat \<Rightarrow> Statement \<Rightarrow> string \<Rightarrow> string" where
  "printIfStmtAlternative R = print_alternative (\<lambda>a out. out) (printBlock R) (pAlternative R) R"

definition print_if ::
  "(Statement \<Rightarrow> string \<Rightarrow> string) \<Rightarrow> block_printer \<Rightarrow> (nat \<Rightarrow> Statement \<Rightarrow> string \<Rightarrow> string) \<Rightarrow> printers \<Rightarrow> nat \<Rightarrow>
     Statement \<Rightarrow> Expression \<Rightarrow> BlockStmt option \<Rightarrow> Statement \<Rightarrow> string \<Rightarrow> string" where
  "print_if comment blk again R level init c b a out =
     (let out1 = blk (level + 1) b (out @ printLine level (if_line R level init c))
      in if a \<noteq> NilStmt then print_alternative comment blk again R level a out1 else out1)"

definition printIfStmt ::
  "printers \<Rightarrow> nat \<Rightarrow> Statement \<Rightarrow> Expression \<Rightarrow> BlockStmt option \<Rightarrow> Statement \<Rightarrow> string \<Rightarrow> string" where
  "printIfStmt R = print_if (\<lambda>a out. out) (printBlock R) (pAlternative R) R"

definition opt_name :: "Identifier option \<Rightarrow> string" where
  "opt_name i = (case i of None \<Rightarrow> [] | Some i \<Rightarrow> identValue i)"

definition printForRangeStmt ::
  "block_printer \<Rightarrow> printers \<Rightarrow> nat \<Rightarrow> Identifier option \<Rightarrow> Identifier option \<Rightarrow> Expression \<Rightarrow> BlockStmt option \<Rightarrow>
     string \<Rightarrow> string" where
  "printForRangeStmt blk R level v i c b out =
     (let names = (case i of Some j \<Rightarrow> identValue j @ '', '' @ opt_name v | None \<Rightarrow> opt_name v)
      in blk (level + 1) b (out @ printLine level (''for '' @ names @ '' in '' @ pExpr R level c)))"

definition printForNumericStmt ::
  "block_printer \<Rightarrow> printers \<Rightarrow> nat \<Rightarrow> Identifier option \<Rightarrow> Expression \<Rightarrow> Expression \<Rightarrow> bool \<Rightarrow> BlockStmt option \<Rightarrow>
     string \<Rightarrow> string" where
  "printForNumericStmt blk R level v low high through b out =
     blk (level + 1) b (out @ printLine level
       (''for '' @ opt_name v @ '' from '' @ pExpr R level low @ '' '' @ (if through then ''through'' else ''to'') @
        '' '' @ pExpr R level high))"

definition printForConditionStmt ::
  "block_printer \<Rightarrow> printers \<Rightarrow> nat \<Rightarrow> Expression \<Rightarrow> BlockStmt option \<Rightarrow> string \<Rightarrow> string" where
  "printForConditionStmt blk R level c b out = blk (level + 1) b (out @ printLine level (''for '' @ pExpr R level c))"

definition printSwitchStmt ::
  "block_printer \<Rightarrow> printers \<Rightarrow> nat \<Rightarrow> Expression \<Rightarrow> WhenCase list \<Rightarrow> OtherwiseCase option \<Rightarrow> string \<Rightarrow> string" where
  "printSwitchStmt blk R level e cs oth out =
     print_otherwise blk level oth
       (print_when_cases blk R level cs
         (out @ printLine level (if e \<noteq> NilExpr then ''switch '' @ pExpr R level e else ''switch'')))"

definition printTypeSwitchStmt ::
  "block_printer \<Rightarrow> printers \<Rightarrow> nat \<Rightarrow> Expression \<Rightarrow> Identifier option \<Rightarrow> TypeCase list \<Rightarrow> OtherwiseCase option \<Rightarrow>
     string \<Rightarrow> string" where
  "printTypeSwitchStmt blk R level e binding cs oth out =
     print_otherwise blk level oth
       (print_type_cases blk level cs
         (out @ printLine level (''switch '' @ pExpr R level e @ '' as '' @ opt_name binding)))"

definition select_line :: "printers \<Rightarrow> nat \<Rightarrow> string list \<Rightarrow> Expression \<Rightarrow> Statement \<Rightarrow> string option" where
  "select_line R level bindings recv send =
     (case send of
        SendStmt t v c \<Rightarrow> Some (''when send '' @ pExpr R level v @ '' to '' @ pExpr R level c)
      | _ \<Rightarrow>
          (case recv of
             ReceiveExpr t c \<Rightarrow>
               Some (if bindings \<noteq> [] then ''when '' @ go_join bindings '', '' @ '' := receive from '' @ pExpr R level c
                     else ''when receive from '' @ pExpr R level c)
           | _ \<Rightarrow> None))"

definition printSelectStmt :: "printers \<Rightarrow> nat \<Rightarrow> SelectCase list \<Rightarrow> OtherwiseCase option \<Rightarrow> string \<Rightarrow> string" where
  "printSelectStmt R level cs oth out =
     print_otherwise (printBlock R) level oth
       (fold (\<lambda>(t, bindings, recv, send, b) out.
           printBlock R (level + 2) b
             (case select_line R (level + 1) bindings recv send of
                Some s \<Rightarrow> out @ printLine (level + 1) s | None \<Rightarrow> out)) cs
         (out @ printLine level ''select''))"

text \<open>A type in a block; its fields are printed without tags.\<close>

definition print_local_type :: "nat \<Rightarrow> TypeDecl \<Rightarrow> string \<Rightarrow> string" where
  "print_local_type level d out =
     out @ printLine level (''type '' @ identValue (tdName d)) @
     concat (map (\<lambda>f. printLine (level + 1)
       (identValue (fieldName f) @ '' '' @ typeAnnotationToString (fieldType f))) (tdFields d))"

definition printStatement :: "printers \<Rightarrow> nat \<Rightarrow> Statement \<Rightarrow> string \<Rightarrow> string" where
  "printStatement R level s out =
     (case s of
        VarDeclStmt ns ty vs t oe \<Rightarrow> printVarDeclStmt R level ns vs oe out
      | AssignStmt ts vs t oe \<Rightarrow> printAssignStmt R level ts vs t oe out
      | ReturnStmt t vs \<Rightarrow> printReturnStmt R level vs out
      | IfStmt t i c b a \<Rightarrow> printIfStmt R level i c b a out
      | SwitchStmt t e cs oth \<Rightarrow> printSwitchStmt (printBlock R) R level e cs oth out
      | TypeSwitchStmt t e binding cs oth \<Rightarrow> printTypeSwitchStmt (printBlock R) R level e binding cs oth out
      | ForRangeStmt t v i c b \<Rightarrow> printForRangeStmt (printBlock R) R level v i c b out
      | ForNumericStmt t v f l th b \<Rightarrow> printForNumericStmt (printBlock R) R level v f l th b out
      | ForConditionStmt t c b \<Rightarrow> printForConditionStmt (printBlock R) R level c b out
      | DeferStmt t call b \<Rightarrow>
          (case b of Some k \<Rightarrow> printBlock R (level + 1) b (out @ printLine level ''defer'')
           | None \<Rightarrow> out @ printLine level (''defer '' @ pExpr R level call))
      | GoStmt t call b \<Rightarrow>
          (case b of Some (k, ss) \<Rightarrow> fold (pStmt R (level + 1)) ss (out @ printLine level ''go'')
           | None \<Rightarrow> out @ printLine level (''go '' @ pExpr R level call))
      | SendStmt t v c \<Rightarrow> out @ printLine level (''send '' @ pExpr R level v @ '' to '' @ pExpr R level c)
      | BreakStmt t \<Rightarrow> out @ printLine level ''break''
      | ContinueStmt t \<Rightarrow> out @ printLine level ''continue''
      | IncDecStmt t v op \<Rightarrow> out @ printLine level (pExpr R level v @ op)
      | ExpressionStmt e oe \<Rightarrow> printExpressionStmt R level e oe out
      | TypeDeclStmt d \<Rightarrow> print_local_type level d out
      | SelectStmt t cs oth \<Rightarrow> printSelectStmt R level cs oth out
      | _ \<Rightarrow> out)"

end
