(* ===== verification/PrintDecl.thy ===== *)
theory PrintDecl
  imports PrintStmt
begin

text \<open>
  Declarations, imports and programs of \<^verbatim>\<open>internal/formatter/printer.go\<close>, and the knot of the printers.
  The depth of the recursion is bounded by the size of what is printed; the lemma \<open>printers_agree\<close>
  says that every larger bound prints the same.
\<close>

section \<open>Declarations\<close>

definition formatStructTag :: "string \<Rightarrow> string" where
  "formatStructTag tag =
     (if has_prefix tag (''json:'' @ [CHR 0x22]) \<and> has_suffix tag [CHR 0x22] then
        (let inner = take (length tag - 7) (drop 6 tag)
         in if \<not> contains_char inner CHR '','' then ''as '' @ [CHR 0x22] @ inner @ [CHR 0x22] else tag)
      else tag)"

definition printDirectives :: "printers \<Rightarrow> Directive list \<Rightarrow> string" where
  "printDirectives R ds =
     concat (map (\<lambda>d. printLine 0 (''# kuki:'' @ dirName d @
       (if dirArgs d \<noteq> [] then '' '' @ go_join (map (Quote (pPrint R)) (dirArgs d)) '' '' else []))) ds)"

definition enum_case_lines :: "printers \<Rightarrow> EnumCase \<Rightarrow> string" where
  "enum_case_lines R c =
     (case c of EnumCase n v fs \<Rightarrow>
        if v \<noteq> NilExpr then printLine 1 (identValue n @ '' = '' @ pExpr R 1 v)
        else printLine 1 (identValue n) @
          concat (map (\<lambda>f. printLine 2 (identValue (fieldName f) @ '' '' @ typeAnnotationToString (fieldType f))) fs))"

definition printEnumDecl :: "printers \<Rightarrow> Identifier \<Rightarrow> EnumCase list \<Rightarrow> string \<Rightarrow> string" where
  "printEnumDecl R n cs out = out @ printLine 0 (''enum '' @ identValue n) @ concat (map (enum_case_lines R) cs)"

text \<open>What is printed after the first line of a declaration (its trailing comment), and around the names
  of fields and methods, is \<open>trail\<close> and \<open>comment\<close>: nothing for \<^verbatim>\<open>Printer\<close>, comments for
  \<^verbatim>\<open>PrinterWithComments\<close>.\<close>

definition printConstDecl :: "(string \<Rightarrow> string) \<Rightarrow> printers \<Rightarrow> ConstSpec list \<Rightarrow> string \<Rightarrow> string" where
  "printConstDecl trail R specs out =
     (let text = (\<lambda>level s. identValue (specName s) @ '' = '' @ pExpr R level (specValue s))
      in case specs of
           [s] \<Rightarrow> trail (out @ printLine 0 (''const '' @ text 0 s))
         | _ \<Rightarrow> trail (out @ printLine 0 ''const'') @ concat (map (\<lambda>s. printLine 1 (text 1 s)) specs))"

definition field_line :: "FieldDecl \<Rightarrow> string" where
  "field_line f =
     identValue (fieldName f) @ '' '' @ typeAnnotationToString (fieldType f) @
     (if fieldTag f \<noteq> [] then '' '' @ formatStructTag (fieldTag f) else [])"

definition printTypeDecl ::
  "(string \<Rightarrow> string) \<Rightarrow> (Identifier \<Rightarrow> string \<Rightarrow> string) \<Rightarrow> (Identifier \<Rightarrow> string \<Rightarrow> string) \<Rightarrow> TypeDecl \<Rightarrow>
     string \<Rightarrow> string" where
  "printTypeDecl trail over behind d out =
     (let name = ''type '' @ identValue (tdName d)
      in if tdAliasType d \<noteq> NilType \<and> tdIsAlias d then
           trail (out @ printLine 0 (name @ '' = '' @ typeAnnotationToString (tdAliasType d)))
         else if tdAliasType d \<noteq> NilType then
           trail (out @ printLine 0 (name @ '' '' @ typeAnnotationToString (tdAliasType d)))
         else fold (\<lambda>f out. behind (fieldName f) (over (fieldName f) out @ printLine 1 (field_line f))) (tdFields d)
                (trail (out @ printLine 0 name)))"

definition method_line :: "printers \<Rightarrow> MethodSignature \<Rightarrow> string" where
  "method_line R m =
     (let returns = returnTypesToString (sigReturns m)
      in identValue (sigName m) @ parenthesized (parametersToString R 1 (sigParameters m)) @
         (if returns \<noteq> [] then '' '' @ returns else []))"

definition printInterfaceDecl ::
  "(string \<Rightarrow> string) \<Rightarrow> (Identifier \<Rightarrow> string \<Rightarrow> string) \<Rightarrow> (Identifier \<Rightarrow> string \<Rightarrow> string) \<Rightarrow> printers \<Rightarrow>
     Identifier \<Rightarrow> MethodSignature list \<Rightarrow> string \<Rightarrow> string" where
  "printInterfaceDecl trail over behind R n ms out =
     fold (\<lambda>m out. behind (sigName m) (over (sigName m) out @ printLine 1 (method_line R m))) ms
       (trail (out @ printLine 0 (''interface '' @ identValue n)))"

definition function_line ::
  "printers \<Rightarrow> Identifier \<Rightarrow> Parameter list \<Rightarrow> TypeAnnotation list \<Rightarrow> Receiver option \<Rightarrow> string" where
  "function_line R n ps rs recv =
     (let params = parametersToString R 0 ps; returns = returnTypesToString rs
      in ''func '' @ identValue n @
         (case recv of
            Some r \<Rightarrow>
              '' on '' @ identValue (receiverName r) @ '' '' @ typeAnnotationToString (receiverType r) @
              (if params \<noteq> [] then parenthesized params else [])
          | None \<Rightarrow> parenthesized params) @
         (if returns \<noteq> [] then '' '' @ returns else []))"

definition printFunctionDecl ::
  "(string \<Rightarrow> string) \<Rightarrow> block_printer \<Rightarrow> printers \<Rightarrow> Identifier \<Rightarrow> Parameter list \<Rightarrow> TypeAnnotation list \<Rightarrow>
     BlockStmt option \<Rightarrow> Receiver option \<Rightarrow> Directive list \<Rightarrow> string \<Rightarrow> string" where
  "printFunctionDecl trail blk R n ps rs b recv dirs out =
     (let out1 = trail (out @ printDirectives R dirs @ printLine 0 (function_line R n ps rs recv))
      in case b of None \<Rightarrow> out1 | Some k \<Rightarrow> blk 1 b out1)"

definition printDeclaration :: "printers \<Rightarrow> Declaration \<Rightarrow> string \<Rightarrow> string" where
  "printDeclaration R d out =
     (let keep = (\<lambda>out. out); none = (\<lambda>i out. out)
      in case d of
           TypeDeclaration t \<Rightarrow> printTypeDecl keep none none t out
         | InterfaceDecl t n ms dirs \<Rightarrow> printInterfaceDecl keep none none R n ms out
         | FunctionDecl t n ps rs b recv dirs \<Rightarrow> printFunctionDecl keep (printBlock R) R n ps rs b recv dirs out
         | ConstDecl t specs \<Rightarrow> printConstDecl keep R specs out
         | EnumDecl t n cs dirs \<Rightarrow> printEnumDecl R n cs out
         | VarDeclaration (VarDeclStmt ns ty vs t oe) \<Rightarrow> printTopLevelVarDecl R ns ty vs t out
         | _ \<Rightarrow> out)"

section \<open>Imports\<close>

definition import_path :: "Declaration \<Rightarrow> string" where
  "import_path d = (case d of ImportDecl t (StringExpr k v i r ps) a \<Rightarrow> v | _ \<Rightarrow> [])"

definition printImport :: "Declaration \<Rightarrow> string \<Rightarrow> string" where
  "printImport d out =
     (case d of
        ImportDecl t p a \<Rightarrow>
          out @ printLine 0 (''import '' @ [CHR 0x22] @ import_path d @ [CHR 0x22] @
            (case a of Some i \<Rightarrow> '' as '' @ identValue i | None \<Rightarrow> []))
      | _ \<Rightarrow> out)"

definition importBucket :: "string \<Rightarrow> nat" where
  "importBucket path =
     (let first = (case cut_char path CHR ''/'' of Some (segment, remains) \<Rightarrow> segment | None \<Rightarrow> path)
      in if contains_char first CHR ''.'' then 1 else 0)"

text \<open>Go compares strings byte by byte.\<close>

fun string_less :: "string \<Rightarrow> string \<Rightarrow> bool" where
  "string_less s [] \<longleftrightarrow> False"
| "string_less [] (c # t) \<longleftrightarrow> True"
| "string_less (b # s) (c # t) \<longleftrightarrow> (of_char b :: nat) < of_char c \<or> b = c \<and> string_less s t"

text \<open>\<^verbatim>\<open>sort.SliceStable\<close>: equal elements stay in their order.\<close>

fun insert_stable :: "('a \<Rightarrow> 'a \<Rightarrow> bool) \<Rightarrow> 'a \<Rightarrow> 'a list \<Rightarrow> 'a list" where
  "insert_stable lt x [] = [x]"
| "insert_stable lt x (y # ys) = (if lt y x then y # insert_stable lt x ys else x # y # ys)"

definition sort_stable :: "('a \<Rightarrow> 'a \<Rightarrow> bool) \<Rightarrow> 'a list \<Rightarrow> 'a list" where
  "sort_stable lt xs = foldr (insert_stable lt) xs []"

definition import_buckets :: "Declaration list \<Rightarrow> Declaration list list" where
  "import_buckets is =
     map (\<lambda>b. sort_stable (\<lambda>i j. string_less (import_path i) (import_path j))
            (filter (\<lambda>i. importBucket (import_path i) = b) is)) [0, 1]"

definition print_imports_with :: "(Declaration \<Rightarrow> string \<Rightarrow> string) \<Rightarrow> Declaration list \<Rightarrow> string \<Rightarrow> string" where
  "print_imports_with prnt is out =
     (case filter (\<lambda>b. b \<noteq> []) (import_buckets is) of
        [] \<Rightarrow> out
      | b # bs \<Rightarrow> fold (\<lambda>b out. fold prnt b (out @ printLine 0 [])) bs (fold prnt b out))"

definition printImports :: "Declaration list \<Rightarrow> string \<Rightarrow> string" where
  "printImports = print_imports_with printImport"

section \<open>Programs\<close>

definition skill_lines :: "printers \<Rightarrow> string \<Rightarrow> string \<Rightarrow> string" where
  "skill_lines R description version =
     (if description \<noteq> [] then printLine 1 (''description: '' @ Quote (pPrint R) description) else []) @
     (if version \<noteq> [] then printLine 1 (''version: '' @ Quote (pPrint R) version) else [])"

text \<open>\<open>comment d\<close> and \<open>trail d\<close> print the comments of a declaration, \<open>decl\<close> the declaration itself.\<close>

definition print_program ::
  "(Declaration \<Rightarrow> string \<Rightarrow> string) \<Rightarrow> (Declaration \<Rightarrow> string \<Rightarrow> string) \<Rightarrow> (Declaration \<Rightarrow> string \<Rightarrow> string) \<Rightarrow>
     (Declaration list \<Rightarrow> string \<Rightarrow> string) \<Rightarrow> printers \<Rightarrow> Program \<Rightarrow> string" where
  "print_program comment trail decl imports R p =
     (let out1 = (case programPetiole p of
                    Some (PetioleDecl t n) \<Rightarrow>
                      trail (PetioleDecl t n)
                        (comment (PetioleDecl t n) [] @ printLine 0 (''petiole '' @ identValue n)) @ printLine 0 []
                  | _ \<Rightarrow> []);
          out2 = (case programSkill p of
                    Some (SkillDecl t n description version) \<Rightarrow>
                      trail (SkillDecl t n description version)
                        (comment (SkillDecl t n description version) out1 @
                          printLine 0 (''skill '' @ identValue n) @ skill_lines R description version) @ printLine 0 []
                  | _ \<Rightarrow> out1);
          out3 = imports (programImports p) out2 @ (if programImports p \<noteq> [] then printLine 0 [] else [])
      in case programDeclarations p of
           [] \<Rightarrow> out3
         | d # ds \<Rightarrow> fold (\<lambda>d out. decl d (comment d (out @ printLine 0 []))) ds (decl d (comment d out3)))"

section \<open>The knot\<close>

primrec printers_at :: "(rune \<Rightarrow> bool) \<Rightarrow> nat \<Rightarrow> printers" where
  "printers_at isprint 0 =
     \<lparr>pPrint = isprint, pExpr = (\<lambda>level e. []), pStmt = (\<lambda>level s out. out), pAlternative = (\<lambda>level s out. out)\<rparr>"
| "printers_at isprint (Suc n) =
     (let R = printers_at isprint n
      in \<lparr>pPrint = isprint, pExpr = exprToString R, pStmt = printStatement R,
          pAlternative = printIfStmtAlternative R\<rparr>)"

text \<open>The sizes of the expressions and statements in a declaration.\<close>

abbreviation block_size :: "BlockStmt option \<Rightarrow> nat" where
  "block_size \<equiv> size_option (size_prod (\<lambda>_. 0) (size_list size))"

abbreviation params_size :: "Parameter list \<Rightarrow> nat" where
  "params_size \<equiv> size_list (size_prod (\<lambda>_. 0) (size_prod (\<lambda>_. 0) (size_prod (\<lambda>_. 0) size)))"

fun decl_size :: "Declaration \<Rightarrow> nat" where
  "decl_size (ConstDecl t specs) = size_list (\<lambda>s. size (specValue s)) specs"
| "decl_size (EnumDecl t n cs ds) = size_list (\<lambda>c. size (caseValue c)) cs"
| "decl_size (InterfaceDecl t n ms ds) = size_list (\<lambda>m. params_size (sigParameters m)) ms"
| "decl_size (FunctionDecl t n ps rs b r ds) = params_size ps + block_size b"
| "decl_size (VarDeclaration s) = size s"
| "decl_size d = 0"

definition Print :: "(rune \<Rightarrow> bool) \<Rightarrow> Program \<Rightarrow> string" where
  "Print isprint p =
     (let R = printers_at isprint (Suc (size_list decl_size (programDeclarations p)))
      in print_program (\<lambda>d out. out) (\<lambda>d out. out) (printDeclaration R) printImports R p)"

end
