(* ===== verification/PrintDepth.thy ===== *)
theory PrintDepth
  imports PrintDecl
begin

text \<open>
  The bound on the depth of the printers does not matter once it exceeds the size of the node.
\<close>

section \<open>Sizes\<close>

lemma size_list_member: "x \<in> set xs \<Longrightarrow> f x \<le> size_list f xs"
  by (induction xs) auto

lemma size_member:
  fixes f :: "'a \<Rightarrow> nat"
  assumes "x \<in> set xs" "size_list f xs < k"
  shows "f x < k"
  using size_list_member [of x xs f] assms by simp

definition agree :: "nat \<Rightarrow> printers \<Rightarrow> printers \<Rightarrow> bool" where
  "agree k R R' \<longleftrightarrow> pPrint R = pPrint R' \<and>
     (\<forall>e. size e < k \<longrightarrow> (\<forall>level. pExpr R level e = pExpr R' level e)) \<and>
     (\<forall>s. size s < k \<longrightarrow> (\<forall>level out. pStmt R level s out = pStmt R' level s out)) \<and>
     (\<forall>s. size s < k \<longrightarrow> (\<forall>level out. pAlternative R level s out = pAlternative R' level s out))"

lemma agree_fields:
  assumes "agree k R R'"
  shows "pPrint R = pPrint R'" "size e < k \<Longrightarrow> pExpr R level e = pExpr R' level e"
    "size s < k \<Longrightarrow> pStmt R level s = pStmt R' level s"
    "size s < k \<Longrightarrow> pAlternative R level s = pAlternative R' level s"
  using assms by (auto simp: agree_def)

lemma agree_exprs:
  assumes "agree k R R'" "size_list size xs < k"
  shows "map (pExpr R level) xs = map (pExpr R' level) xs"
proof (rule list.map_cong0)
  fix x assume "x \<in> set xs"
  then show "pExpr R level x = pExpr R' level x"
    by (intro agree_fields(2) [OF assms(1)] size_member [OF _ assms(2)])
qed

lemma agree_strings:
  assumes "agree k R R'" "size_list size xs < k"
  shows "exprStrings_of R level xs = exprStrings_of R' level xs"
  unfolding exprStrings_of_def agree_exprs [OF assms] ..

lemma agree_pairs:
  fixes xs :: "('a \<times> Expression) list"
  assumes "agree k R R'" "size_list (size_prod (\<lambda>_. 0) size) xs < k"
    and "\<And>n x. pExpr R level x = pExpr R' level x \<Longrightarrow> f (n, x) = g (n, x)"
  shows "map f xs = map g xs"
proof (rule list.map_cong0)
  fix y assume "y \<in> set xs"
  then have "size_prod (\<lambda>_. 0) size y < k" using size_member assms(2) by metis
  then show "f y = g y" using assms(1,3) by (cases y) (simp add: agree_fields)
qed

lemma agree_pairs2:
  assumes "agree k R R'" "size_list (size_prod size size) xs < k"
    and "\<And>n x. pExpr R level n = pExpr R' level n \<Longrightarrow> pExpr R level x = pExpr R' level x \<Longrightarrow> f (n, x) = g (n, x)"
  shows "map f xs = map g xs"
proof (rule list.map_cong0)
  fix y assume "y \<in> set xs"
  then have "size_prod size size y < k" using size_member assms(2) by metis
  then show "f y = g y" using assms(1,3) by (cases y) (simp add: agree_fields)
qed

lemma agree_statements:
  assumes "agree k R R'" "size_list size ss < k"
  shows "print_statements (pStmt R level) n ss out = print_statements (pStmt R' level) n ss out"
  using assms(2)
proof (induction ss arbitrary: n out)
  case (Cons s ss)
  then show ?case using agree_fields(3) [OF assms(1), of s level] by simp
qed simp

lemma agree_block:
  assumes "agree k R R'" "size_option (size_prod (\<lambda>_. 0) (size_list size)) b < k"
  shows "printBlock R level b = printBlock R' level b"
  using assms agree_statements [OF assms(1)] by (auto simp: printBlock_def fun_eq_iff split: option.split)

lemma pipe_stages_size: "x \<in> set (pipe_stages e) \<Longrightarrow> size x \<le> size e"
  by (induction e rule: pipe_stages.induct) auto

lemma agree_params:
  assumes "agree k R R'" "params_size ps < k"
  shows "parametersToString R level ps = parametersToString R' level ps"
proof -
  have "parameterToString R level p = parameterToString R' level p" if "p \<in> set ps" for p
  proof -
    have "size_prod (\<lambda>_. 0) (size_prod (\<lambda>_. 0) (size_prod (\<lambda>_. 0) size)) p < k"
      using size_member [OF that assms(2)] .
    then show ?thesis using assms(1) by (cases p) (auto simp: parameterToString_def agree_fields)
  qed
  then show ?thesis by (auto simp: parametersToString_def intro!: arg_cong [where f = "\<lambda>x. go_join x '', ''"])
qed

section \<open>Expressions\<close>

lemma agree_argumentStrings:
  "agree k R R' \<Longrightarrow> size_list size xs < k \<Longrightarrow> argumentStrings R level xs v = argumentStrings R' level xs v"
  by (simp add: argumentStrings_def agree_exprs)

lemma agree_operand:
  "agree k R R' \<Longrightarrow> size x < k \<Longrightarrow> binaryOperandToString R level x n b = binaryOperandToString R' level x n b"
  by (simp add: binaryOperandToString_def agree_fields)

lemma agree_pipe:
  assumes "agree (size (PipeExpr t l r m)) R R'"
  shows "pipeExprToString R level (PipeExpr t l r m) = pipeExprToString R' level (PipeExpr t l r m)"
proof -
  have "map (pExpr R level) (pipe_stages (PipeExpr t l r m)) = map (pExpr R' level) (pipe_stages (PipeExpr t l r m))"
  proof (rule list.map_cong0)
    fix x assume "x \<in> set (pipe_stages (PipeExpr t l r m))"
    then have "size x < size (PipeExpr t l r m)" using pipe_stages_size [of x l] by auto
    then show "pExpr R level x = pExpr R' level x" using assms agree_fields(2) by blast
  qed
  then show ?thesis unfolding pipeExprToString_def by (simp only:)
qed

lemma agree_parts:
  fixes ps :: "StringInterpolation list"
  assumes "agree k R R'" "size_list (size_prod (\<lambda>_. 0) (size_prod (\<lambda>_. 0) size)) ps < k"
  shows "stringLiteralToString R level v i r ps = stringLiteralToString R' level v i r ps"
proof -
  have "(case p of (isLiteral, text, x) \<Rightarrow>
          if isLiteral then escapeStringValue text else ''{'' @ pExpr R level x @ ''}'') =
        (case p of (isLiteral, text, x) \<Rightarrow>
          if isLiteral then escapeStringValue text else ''{'' @ pExpr R' level x @ ''}'')" if "p \<in> set ps" for p
  proof -
    have "size_prod (\<lambda>_. 0) (size_prod (\<lambda>_. 0) size) p < k" using size_member [OF that assms(2)] .
    then show ?thesis using assms(1) by (cases p) (auto simp: agree_fields)
  qed
  then show ?thesis by (simp add: stringLiteralToString_def cong: map_cong)
qed

lemma agree_field_access:
  "agree k R R' \<Longrightarrow> size x < k \<Longrightarrow> fieldAccessExprToString R level x n = fieldAccessExprToString R' level x n"
  unfolding fieldAccessExprToString_def by (simp only: agree_fields(2))

lemma exprToString_agree:
  assumes "agree (size e) R R'" shows "exprToString R level e = exprToString R' level e"
proof (cases e)
  case (BlockExpr t b)
  then show ?thesis using assms
    by (auto simp: exprToString_def block_expr_string_def agree_fields split: option.split list.split Statement.split)
next
  case (StructLiteralExpr t ty fs m)
  then show ?thesis using assms
    by (auto simp: exprToString_def structLiteralToString_def Let_def
        intro!: arg_cong [where f = "literal_string _ _ _"] agree_pairs [where R = R and R' = R' and level = level])
next
  case (MapLiteralExpr t k v ps m)
  then show ?thesis using assms
    by (auto simp: exprToString_def mapLiteralToString_def Let_def
        intro!: arg_cong [where f = "literal_string _ _ _"] agree_pairs2 [where R = R and R' = R' and level = level])
next
  case (UntypedCompositeLiteral t keyed es m ty)
  then show ?thesis using assms
    by (auto simp: exprToString_def untypedCompositeLiteralToString_def
        intro!: arg_cong [where f = "literal_string _ _ _"] agree_pairs2 [where R = R and R' = R' and level = level])
qed (use assms in \<open>auto simp: exprToString_def binaryExprToString_def isExprToString_def unaryExprToString_def
    callExprToString_def methodCallExprToString_def sliceExprToString_def listLiteralToString_def
    makeExprToString_def functionLiteralToString_def arrowLambdaToString_def agree_fields agree_exprs agree_operand
    agree_argumentStrings agree_pipe agree_params agree_block agree_parts agree_field_access Let_def
    split: option.split\<close>)

section \<open>Statements\<close>

abbreviation onerr_size :: "OnErrClause option \<Rightarrow> nat" where
  "onerr_size \<equiv> size_option (size_prod (\<lambda>_. 0) (size_prod size (\<lambda>_. 0)))"

lemma agree_stmt_text: "agree k R R' \<Longrightarrow> size s \<le> k \<Longrightarrow> stmtToString R level s = stmtToString R' level s"
  by (cases s) (simp_all add: stmtToString_def agree_fields agree_strings)

lemma agree_suffix: "agree k R R' \<Longrightarrow> onerr_size oe < k \<Longrightarrow> onErrSuffix R level oe = onErrSuffix R' level oe"
  by (auto simp: onErrSuffix_def explain_text_def agree_fields split: option.split)

lemma agree_otherwise:
  assumes "agree k R R'" "size_option (size_prod (\<lambda>_. 0) block_size) oth < k"
  shows "print_otherwise (printBlock R) level oth = print_otherwise (printBlock R') level oth"
  using assms by (auto simp: print_otherwise_def print_case_def agree_block fun_eq_iff split: option.split)

lemma fold_member_cong:
  "(\<And>x. x \<in> set xs \<Longrightarrow> f x = g x) \<Longrightarrow> fold f xs = fold g xs"
  by (induction xs) simp_all

lemma agree_when_cases:
  assumes "agree k R R'" "size_list (size_prod (\<lambda>_. 0) (size_prod (size_list size) block_size)) cs < k"
  shows "print_when_cases (printBlock R) R level cs = print_when_cases (printBlock R') R' level cs"
proof -
  have "(case c of (t, vs, b) \<Rightarrow> print_case (printBlock R) level (''when '' @ exprStrings_of R (level + 1) vs) b) =
      (case c of (t, vs, b) \<Rightarrow> print_case (printBlock R') level (''when '' @ exprStrings_of R' (level + 1) vs) b)"
    if "c \<in> set cs" for c
  proof -
    have "size_prod (\<lambda>_. 0) (size_prod (size_list size) block_size) c < k" using size_member [OF that assms(2)] .
    then show ?thesis using assms(1)
      by (cases c) (simp add: print_case_def agree_block agree_strings fun_eq_iff)
  qed
  then show ?thesis unfolding print_when_cases_def by (subst fold_member_cong) simp_all
qed

lemma agree_type_cases:
  assumes "agree k R R'" "size_list (size_prod (\<lambda>_. 0) (size_prod (\<lambda>_. 0) block_size)) cs < k"
  shows "print_type_cases (printBlock R) level cs = print_type_cases (printBlock R') level cs"
proof -
  have "(case c of (t, ty, b) \<Rightarrow> print_case (printBlock R) level (''when '' @ typeAnnotationToString ty) b) =
      (case c of (t, ty, b) \<Rightarrow> print_case (printBlock R') level (''when '' @ typeAnnotationToString ty) b)"
    if "c \<in> set cs" for c
  proof -
    have "size_prod (\<lambda>_. 0) (size_prod (\<lambda>_. 0) block_size) c < k" using size_member [OF that assms(2)] .
    then show ?thesis using assms(1) by (cases c) (simp add: print_case_def agree_block fun_eq_iff)
  qed
  then show ?thesis unfolding print_type_cases_def by (subst fold_member_cong) simp_all
qed

lemma agree_select:
  assumes "agree k R R'"
    "size_list (size_prod (\<lambda>_. 0) (size_prod (\<lambda>_. 0) (size_prod size (size_prod size block_size)))) cs < k"
    "size_option (size_prod (\<lambda>_. 0) block_size) oth < k"
  shows "printSelectStmt R level cs oth = printSelectStmt R' level cs oth"
proof -
  have line: "select_line R l bindings recv send = select_line R' l bindings recv send"
    if "size recv < k" "size send < k" for l bindings recv send
    using that by (cases send; cases recv) (simp_all add: select_line_def agree_fields(2) [OF assms(1)])
  have "(case c of (t, bindings, recv, send, b) \<Rightarrow> \<lambda>out. printBlock R (level + 2) b
      (case select_line R (level + 1) bindings recv send of
         Some s \<Rightarrow> out @ printLine (level + 1) s | None \<Rightarrow> out)) =
    (case c of (t, bindings, recv, send, b) \<Rightarrow> \<lambda>out. printBlock R' (level + 2) b
      (case select_line R' (level + 1) bindings recv send of
         Some s \<Rightarrow> out @ printLine (level + 1) s | None \<Rightarrow> out))" if "c \<in> set cs" for c
  proof -
    have "size_prod (\<lambda>_. 0) (size_prod (\<lambda>_. 0) (size_prod size (size_prod size block_size))) c < k"
      using size_member [OF that assms(2)] .
    then show ?thesis by (cases c) (simp add: line agree_block [OF assms(1)])
  qed
  then show ?thesis
    unfolding printSelectStmt_def agree_otherwise [OF assms(1,3)] by (subst fold_member_cong) simp_all
qed

lemma agree_piped_switch:
  assumes "agree k R R'" "size l < k" "size sw \<le> k"
  shows "printPipedSwitchWithPrefix R level pre l sw = printPipedSwitchWithPrefix R' level pre l sw"
  using assms(2,3)
  by (cases sw) (simp_all add: printPipedSwitchWithPrefix_def fun_eq_iff agree_fields(2) [OF assms(1)]
      agree_otherwise [OF assms(1)] agree_when_cases [OF assms(1)] agree_type_cases [OF assms(1)])

lemma agree_with_onerr:
  assumes "agree k R R'" "onerr_size oe < k"
  shows "print_with_onerr R level text oe = print_with_onerr R' level text oe"
proof (cases oe)
  case (Some c)
  obtain t h info where c: "c = (t, h, info)" by (cases c)
  have h: "size h < k" using assms(2) Some c by simp
  have ps: "printOnErrPipedSwitch R level pre (Some c) = printOnErrPipedSwitch R' level pre (Some c)" for pre
    using h agree_piped_switch [OF assms(1)]
    by (cases h; cases info) (simp_all add: c printOnErrPipedSwitch_def fun_eq_iff)
  have blk: "printOnErrBlock R level (Some c) = printOnErrBlock R' level (Some c)"
    using h agree_block [OF assms(1)] agree_suffix [OF assms(1), of "Some c" level] assms(2) Some
    by (cases h; cases info) (simp_all add: c printOnErrBlock_def fun_eq_iff)
  show ?thesis using agree_suffix [OF assms]
    by (simp add: print_with_onerr_def Some ps blk fun_eq_iff)
next
  case None
  then show ?thesis
    by (simp add: print_with_onerr_def hasOnErrPipedSwitch_def hasBlockOnErr_def onErrSuffix_def fun_eq_iff)
qed

lemma agree_piped_values:
  assumes "agree k R R'" "size_list size vs < k" "r = r'"
  shows "(case vs of [PipedSwitchExpr t l s] \<Rightarrow> printPipedSwitchWithPrefix R level pre l s out | _ \<Rightarrow> r) =
    (case vs of [PipedSwitchExpr t l s] \<Rightarrow> printPipedSwitchWithPrefix R' level pre l s out | _ \<Rightarrow> r')"
proof (cases vs)
  case (Cons v ws)
  show ?thesis
    using assms Cons agree_piped_switch [OF assms(1)] by (cases ws; cases v) simp_all
qed (simp add: assms(3))

lemma agree_alternative:
  assumes "agree k R R'" "size a \<le> k"
  shows "print_alternative cm (printBlock R) (pAlternative R) R level a =
    print_alternative cm (printBlock R') (pAlternative R') R' level a"
  using assms(2) agree_stmt_text [OF assms(1)]
  by (cases a) (simp_all add: print_alternative_def if_line_def Let_def fun_eq_iff agree_block [OF assms(1)]
      agree_fields [OF assms(1)])

lemma printIfStmtAlternative_agree:
  "agree (size s) R R' \<Longrightarrow> printIfStmtAlternative R level s = printIfStmtAlternative R' level s"
  by (simp add: printIfStmtAlternative_def agree_alternative)

lemma printStatement_agree:
  assumes "agree (size s) R R'" shows "printStatement R level s = printStatement R' level s"
proof (cases s)
  case (VarDeclStmt ns ty vs t oe)
  let ?k = "size s"
  have k: "size_list size vs < ?k" "onerr_size oe < ?k" using VarDeclStmt by simp_all
  show ?thesis
    by (rule ext) (simp only: VarDeclStmt printStatement_def Statement.case printVarDeclStmt_def,
        rule agree_piped_values [OF assms k(1)], simp add: agree_with_onerr [OF assms k(2)] agree_strings [OF assms k(1)])
next
  case (AssignStmt ts vs t oe)
  let ?k = "size s"
  have k: "size_list size vs < ?k" "onerr_size oe < ?k" "size_list size ts < ?k" using AssignStmt by simp_all
  show ?thesis
    by (rule ext) (simp only: AssignStmt printStatement_def Statement.case printAssignStmt_def Let_def
        agree_strings [OF assms k(3)], rule agree_piped_values [OF assms k(1)],
        simp add: agree_with_onerr [OF assms k(2)] agree_strings [OF assms k(1)])
next
  case (ReturnStmt t vs)
  have k: "size_list size vs < size s" using ReturnStmt by simp
  show ?thesis
  proof (cases vs)
    case (Cons v ws)
    then show ?thesis
      using agree_strings [OF assms k, of level] k agree_piped_switch [OF assms]
      by (cases "tl vs"; cases v)
        (simp_all add: ReturnStmt printStatement_def printReturnStmt_def fun_eq_iff)
  qed (simp add: ReturnStmt printStatement_def printReturnStmt_def fun_eq_iff)
next
  case (ExpressionStmt e oe)
  have k: "onerr_size oe < size s" "size e < size s" using ExpressionStmt by simp_all
  show ?thesis
    using agree_fields(2) [OF assms k(2), of level] agree_piped_switch [OF assms] k(2)
    by (cases e) (simp_all add: ExpressionStmt printStatement_def printExpressionStmt_def fun_eq_iff
        agree_with_onerr [OF assms k(1)])
next
  case (IfStmt t i c b a)
  then show ?thesis using assms agree_stmt_text [of _ R R' i level]
    by (auto simp: printStatement_def printIfStmt_def print_if_def if_line_def Let_def fun_eq_iff agree_block
        agree_fields agree_alternative)
next
  case (GoStmt t call b)
  have "fold (pStmt R (Suc level)) ss = fold (pStmt R' (Suc level)) ss" if "b = Some (k, ss)" for k ss
    using assms GoStmt that
    by (intro fold_member_cong agree_fields(3) [OF assms]) (auto dest!: size_list_member [where f = size])
  then show ?thesis using assms GoStmt
    by (auto simp: printStatement_def fun_eq_iff agree_fields split: option.split)
next
  case (SelectStmt t cs oth)
  then show ?thesis using assms by (simp add: printStatement_def fun_eq_iff agree_select [where R = R and R' = R'])
qed (use assms in \<open>auto simp: printStatement_def printSwitchStmt_def printTypeSwitchStmt_def printForRangeStmt_def
    printForNumericStmt_def printForConditionStmt_def fun_eq_iff agree_fields agree_block agree_otherwise
    agree_when_cases agree_type_cases split: option.split\<close>)

theorem printers_agree: "k \<le> m \<Longrightarrow> k \<le> n \<Longrightarrow> agree k (printers_at isprint m) (printers_at isprint n)"
proof (induction k arbitrary: m n)
  case 0
  then show ?case by (cases m; cases n) (simp_all add: agree_def Let_def)
next
  case (Suc k)
  obtain m' n' where mn: "m = Suc m'" "n = Suc n'" "k \<le> m'" "k \<le> n'"
    using Suc.prems by (cases m; cases n) auto
  have a: "agree j (printers_at isprint m') (printers_at isprint n')" if "j \<le> k" for j
    using Suc.IH [OF mn(3,4)] that by (auto simp: agree_def)
  show ?case
    unfolding agree_def mn printers_at.simps Let_def
    by (auto intro!: exprToString_agree printStatement_agree [THEN fun_cong]
        printIfStmtAlternative_agree [THEN fun_cong] a)
qed

section \<open>Declarations\<close>

lemma printDeclaration_agree:
  assumes "agree k R R'" "decl_size d < k"
  shows "printDeclaration R d = printDeclaration R' d"
proof (cases d)
  case (ConstDecl t specs)
  have "pExpr R n (specValue s) = pExpr R' n (specValue s)" if "s \<in> set specs" for s n
    using size_member [OF that, of "\<lambda>s. size (specValue s)" k] assms ConstDecl by (auto simp: agree_fields)
  then show ?thesis
    by (auto simp: ConstDecl printDeclaration_def printConstDecl_def fun_eq_iff split: list.split cong: map_cong)
next
  case (EnumDecl t n cs ds)
  have "enum_case_lines R c = enum_case_lines R' c" if "c \<in> set cs" for c
    using size_member [OF that, of "\<lambda>c. size (caseValue c)" k] assms EnumDecl
    by (auto simp: enum_case_lines_def agree_fields split: EnumCase.split)
  then show ?thesis by (simp add: EnumDecl printDeclaration_def printEnumDecl_def fun_eq_iff cong: map_cong)
next
  case (InterfaceDecl t n ms ds)
  have "method_line R m = method_line R' m" if "m \<in> set ms" for m
    using size_member [OF that, of "\<lambda>m. params_size (sigParameters m)" k] assms InterfaceDecl
    by (auto simp: method_line_def agree_params)
  then show ?thesis
    by (auto simp: InterfaceDecl printDeclaration_def printInterfaceDecl_def fun_eq_iff
        intro!: fold_member_cong [THEN fun_cong])
next
  case (FunctionDecl t n ps rs b r ds)
  have "pPrint R = pPrint R'" by (rule agree_fields(1) [OF assms(1)])
  then have "printDirectives R ds = printDirectives R' ds" unfolding printDirectives_def by (simp only:)
  moreover have "function_line R n ps rs r = function_line R' n ps rs r"
    using assms FunctionDecl by (simp add: function_line_def agree_params)
  moreover have "printBlock R 1 b = printBlock R' 1 b"
    using assms(2) by (intro agree_block [OF assms(1)]) (simp add: FunctionDecl)
  ultimately show ?thesis
    unfolding FunctionDecl printDeclaration_def printFunctionDecl_def Let_def Declaration.case by (simp only:)
next
  case (VarDeclaration s)
  then show ?thesis using assms
    by (auto simp: printDeclaration_def printTopLevelVarDecl_def fun_eq_iff agree_strings split: Statement.split)
qed (simp_all add: printDeclaration_def fun_eq_iff)

lemma print_program_agree:
  assumes "agree k R R'" "size_list decl_size (programDeclarations p) < k"
  shows "print_program (\<lambda>d out. out) (\<lambda>d out. out) (printDeclaration R) printImports R p =
    print_program (\<lambda>d out. out) (\<lambda>d out. out) (printDeclaration R') printImports R' p"
proof -
  have d: "printDeclaration R d = printDeclaration R' d" if "d \<in> set (programDeclarations p)" for d
    by (rule printDeclaration_agree [OF assms(1) size_member [OF that assms(2)]])
  have s: "skill_lines R = skill_lines R'"
    by (simp add: fun_eq_iff skill_lines_def agree_fields(1) [OF assms(1)])
  show ?thesis
  proof (cases "programDeclarations p")
    case (Cons e es)
    have "fold (\<lambda>d out. printDeclaration R d (out @ printLine 0 [])) es =
        fold (\<lambda>d out. printDeclaration R' d (out @ printLine 0 [])) es"
      using d by (intro fold_member_cong) (simp add: Cons)
    moreover have "printDeclaration R e = printDeclaration R' e" using d by (simp add: Cons)
    ultimately show ?thesis unfolding print_program_def s Let_def Cons by simp
  next
    case Nil
    show ?thesis unfolding print_program_def s Let_def Nil by simp
  qed
qed



end
