(* ===== verification/Numbers.thy ===== *)
theory Numbers
  imports GoText
begin

text \<open>
  What the parser uses of Go's \<^verbatim>\<open>strconv\<close>: \<^verbatim>\<open>ParseInt(s, 0, 64)\<close> and \<^verbatim>\<open>ParseFloat(s, 64)\<close>. A string is a
  sequence of bytes. The value of a floating-point literal stays its source text, so \<open>ParseFloat\<close> only
  says whether there is an error; it knows the shapes the lexer makes, digits and underscores with a
  decimal point. \<^verbatim>\<open>Quote\<close> in an error message leaves a number as it is.
\<close>

datatype num_error = ErrSyntax | ErrRange

definition numErrorString :: "string \<Rightarrow> string \<Rightarrow> num_error \<Rightarrow> string" where
  "numErrorString func s e =
     ''strconv.'' @ func @ '': parsing '' @ [CHR 0x22] @ s @ [CHR 0x22] @ '': '' @
     (case e of ErrSyntax \<Rightarrow> ''invalid syntax'' | ErrRange \<Rightarrow> ''value out of range'')"

definition byte :: "char \<Rightarrow> int" where "byte c = int (of_char c)"

text \<open>\<^verbatim>\<open>lower(c) = c | ('x' - 'X')\<close>\<close>

definition lower :: "char \<Rightarrow> int" where
  "lower c = (let n = byte c in if n mod 64 < 32 then n + 32 else n)"

definition is_dec :: "char \<Rightarrow> bool" where "is_dec c \<longleftrightarrow> byte CHR ''0'' \<le> byte c \<and> byte c \<le> byte CHR ''9''"

text \<open>\<^verbatim>\<open>underscoreOK\<close>: what was seen last is a digit or base prefix, an underscore, or neither.\<close>

datatype saw = SawStart | SawDigit | SawUnderscore | SawOther

fun underscores_ok :: "bool \<Rightarrow> saw \<Rightarrow> string \<Rightarrow> bool" where
  "underscores_ok hex s [] \<longleftrightarrow> s \<noteq> SawUnderscore"
| "underscores_ok hex s (c # cs) \<longleftrightarrow>
     (if is_dec c \<or> hex \<and> byte CHR ''a'' \<le> lower c \<and> lower c \<le> byte CHR ''f'' then underscores_ok hex SawDigit cs
      else if c = CHR ''_'' then s = SawDigit \<and> underscores_ok hex SawUnderscore cs
      else s \<noteq> SawUnderscore \<and> underscores_ok hex SawOther cs)"

definition base_prefix :: "string \<Rightarrow> int option" where
  "base_prefix s =
     (if length s \<ge> 2 \<and> s ! 0 = CHR ''0'' then
        if lower (s ! 1) = byte CHR ''b'' then Some 2 else if lower (s ! 1) = byte CHR ''o'' then Some 8
        else if lower (s ! 1) = byte CHR ''x'' then Some 16 else None
      else None)"

definition underscoreOK :: "string \<Rightarrow> bool" where
  "underscoreOK s =
     (case base_prefix s of Some b \<Rightarrow> underscores_ok (b = 16) SawDigit (drop 2 s)
      | None \<Rightarrow> underscores_ok False SawStart s)"

text \<open>The loop over the digits; every number that does not fit in 64 bits is out of range.\<close>

fun parse_digits :: "int \<Rightarrow> int \<Rightarrow> string \<Rightarrow> num_error + int" where
  "parse_digits base n [] = Inr n"
| "parse_digits base n (c # cs) =
     (if c = CHR ''_'' then parse_digits base n cs
      else if is_dec c \<or> byte CHR ''a'' \<le> lower c \<and> lower c \<le> byte CHR ''z'' then
        (let d = if is_dec c then byte c - byte CHR ''0'' else lower c - byte CHR ''a'' + 10
         in if d \<ge> base then Inl ErrSyntax
            else if n * base + d \<ge> 2 ^ 64 then Inl ErrRange
            else parse_digits base (n * base + d) cs)
      else Inl ErrSyntax)"

definition ParseUint :: "string \<Rightarrow> num_error + int" where
  "ParseUint s =
     (if s = [] then Inl ErrSyntax
      else (let (base, digits) =
              (case base_prefix s of
                 Some b \<Rightarrow> if length s \<ge> 3 then (b, drop 2 s) else (8, drop 1 s)
               | None \<Rightarrow> if hd s = CHR ''0'' then (8, drop 1 s) else (10, s))
            in case parse_digits base 0 digits of
                 Inl e \<Rightarrow> Inl e
               | Inr n \<Rightarrow> if CHR ''_'' \<in> set digits \<and> \<not> underscoreOK s then Inl ErrSyntax else Inr n))"

definition ParseInt :: "string \<Rightarrow> num_error + int" where
  "ParseInt s0 =
     (if s0 = [] then Inl ErrSyntax
      else (let neg = hd s0 = CHR ''-'';
                s = (if hd s0 = CHR ''+'' \<or> neg then tl s0 else s0)
            in case ParseUint s of
                 Inl e \<Rightarrow> Inl e
               | Inr n \<Rightarrow>
                   if \<not> neg \<and> n \<ge> 2 ^ 63 then Inl ErrRange
                   else if neg \<and> n > 2 ^ 63 then Inl ErrRange
                   else Inr (if neg then - n else n)))"

definition ParseFloat_error :: "string \<Rightarrow> num_error option" where
  "ParseFloat_error s =
     (let whole = takeWhile (\<lambda>c. c \<noteq> CHR ''.'') s; frac = drop (length whole + 1) s;
          ds = filter (\<lambda>c. c \<noteq> CHR ''_'') (whole @ frac);
          n = foldl (\<lambda>n c. n * 10 + (byte c - byte CHR ''0'')) 0 ds;
          k = length (filter (\<lambda>c. c \<noteq> CHR ''_'') frac)
      in if ds = [] \<or> \<not> list_all is_dec ds then Some ErrSyntax
         else if CHR ''_'' \<in> set s \<and> \<not> underscoreOK s then Some ErrSyntax
         else if n \<ge> (2 ^ 1024 - 2 ^ 970) * 10 ^ k then Some ErrRange
         else None)"

lemma byte_nonneg: "0 \<le> byte c" "0 \<le> lower c"
  by (simp_all add: byte_def lower_def Let_def)

lemma parse_digits_range:
  "0 \<le> base \<Longrightarrow> 0 \<le> n \<Longrightarrow> n < 2 ^ 64 \<Longrightarrow> parse_digits base n s = Inr m \<Longrightarrow> 0 \<le> m \<and> m < 2 ^ 64"
proof (induction base n s rule: parse_digits.induct)
  case (2 base n c cs)
  let ?d = "if is_dec c then byte c - byte CHR ''0'' else lower c - byte CHR ''a'' + 10"
  have d: "0 \<le> ?d" if "is_dec c \<or> byte CHR ''a'' \<le> lower c \<and> lower c \<le> byte CHR ''z''"
    using that by (auto simp: is_dec_def)
  have "0 \<le> n * base + ?d" if "is_dec c \<or> byte CHR ''a'' \<le> lower c \<and> lower c \<le> byte CHR ''z''"
    using d [OF that] 2(3,4) by simp
  then show ?case
    using 2 unfolding parse_digits.simps Let_def by (cases "c = CHR ''_''") (auto split: if_splits)
qed simp

lemma ParseInt_range:
  assumes "ParseInt s = Inr v" shows "- (2 ^ 63) \<le> v \<and> v < 2 ^ 63"
proof -
  have "0 \<le> n" if "ParseUint u = Inr n" for u n
  proof -
    obtain base ds where b: "(case base_prefix u of
          Some b \<Rightarrow> if length u \<ge> 3 then (b, drop 2 u) else (8, drop 1 u)
        | None \<Rightarrow> if hd u = CHR ''0'' then (8, drop 1 u) else (10, u)) = (base, ds)" by (meson surj_pair)
    then have "0 \<le> base" by (auto simp: base_prefix_def split: if_splits)
    moreover have "parse_digits base 0 ds = Inr n"
      using that unfolding ParseUint_def b by (auto split: if_splits sum.splits)
    ultimately show ?thesis using parse_digits_range [of base 0 ds n] by simp
  qed
  then show ?thesis
    using assms unfolding ParseInt_def Let_def by (fastforce split: if_splits sum.splits)
qed

end
