(* ===== verification/NumberProps.thy ===== *)
theory NumberProps
  imports Numbers
begin

text \<open>
  What \<^verbatim>\<open>ParseInt\<close> makes of numerals: it reads back what \<^verbatim>\<open>%d\<close> prints, and gives the positional value of the
  digits after a base prefix; a value that does not fit in 64 bits is an error.
\<close>

lemma parse_digits_append:
  "parse_digits base n (xs @ ys) = (case parse_digits base n xs of Inl e \<Rightarrow> Inl e | Inr m \<Rightarrow> parse_digits base m ys)"
proof (induction base n xs rule: parse_digits.induct)
  case (2 base n c cs)
  let ?d = "if is_dec c then byte c - byte CHR ''0'' else lower c - byte CHR ''a'' + 10"
  consider "c = CHR ''_''" | "c \<noteq> CHR ''_''" "\<not> (is_dec c \<or> byte CHR ''a'' \<le> lower c \<and> lower c \<le> byte CHR ''z'')"
    | "c \<noteq> CHR ''_''" "is_dec c \<or> byte CHR ''a'' \<le> lower c \<and> lower c \<le> byte CHR ''z''" by blast
  then show ?case
  proof cases
    case 3
    then have eq: "parse_digits base n (c # ys) = (if ?d \<ge> base then Inl ErrSyntax
        else if n * base + ?d \<ge> 2 ^ 64 then Inl ErrRange else parse_digits base (n * base + ?d) ys)" for ys
      by (simp only: parse_digits.simps Let_def if_False if_True)
    show ?thesis
      using 2(2) [OF 3 refl] unfolding append.simps eq by (cases "?d \<ge> base"; cases "n * base + ?d \<ge> 2 ^ 64") simp_all
  next
    case 2
    then have "parse_digits base n (c # ys) = Inl ErrSyntax" for ys by (simp only: parse_digits.simps if_False)
    then show ?thesis by simp
  qed (use 2(1) in simp)
qed simp

lemma digit_is_dec: "d < 10 \<Longrightarrow> is_dec (digit_char d) \<and> byte (digit_char d) = 48 + int d \<and> digit_char d \<noteq> CHR ''_''"
proof -
  assume "d < 10"
  then have b: "byte (digit_char d) = 48 + int d" by (simp add: byte_def digit_char_def)
  moreover have "byte CHR ''_'' = 95" by (simp add: byte_def)
  ultimately have "digit_char d \<noteq> CHR ''_''" using \<open>d < 10\<close> by auto
  then show ?thesis using b \<open>d < 10\<close> by (simp add: is_dec_def) (simp add: byte_def)
qed

lemma parse_digit: "d < 10 \<Longrightarrow> parse_digits 10 n [digit_char d] = (if n * 10 + int d \<ge> 2 ^ 64 then Inl ErrRange else Inr (n * 10 + int d))"
  using digit_is_dec [of d] by (simp add: Let_def) (simp add: byte_def)

lemma parse_digits_utoa: "parse_digits 10 0 (utoa m) = (if int m \<ge> 2 ^ 64 then Inl ErrRange else Inr (int m))"
proof (induction m rule: utoa.induct)
  case (1 m)
  show ?case
  proof (cases "m < 10")
    case True
    then show ?thesis using parse_digit [of m 0] by (subst utoa.simps) simp
  next
    case False
    then have "utoa m = utoa (m div 10) @ [digit_char (m mod 10)]" by (subst utoa.simps) simp
    moreover have "int (m div 10) * 10 + int (m mod 10) = int m" by presburger
    moreover have "parse_digits 10 (int (m div 10)) [digit_char (m mod 10)] =
        (if int m \<ge> 2 ^ 64 then Inl ErrRange else Inr (int m))"
      using calculation(2) by (subst parse_digit) simp_all
    ultimately show ?thesis
      using 1 [OF False] by (auto simp: parse_digits_append simp del: parse_digits.simps)
  qed
qed

lemma hd_utoa: "m > 0 \<Longrightarrow> hd (utoa m) \<noteq> CHR ''0'' \<and> hd (utoa m) \<noteq> CHR ''-'' \<and> hd (utoa m) \<noteq> CHR ''+''"
proof (induction m rule: utoa.induct)
  case (1 m)
  show ?case
  proof (cases "m < 10")
    case True
    then have "byte (hd (utoa m)) = 48 + int m" using digit_is_dec [of m] by (subst utoa.simps) simp
    then show ?thesis using 1(2) by (auto simp: byte_def)
  next
    case False
    then have "hd (utoa m) = hd (utoa (m div 10))" by (subst utoa.simps) simp
    then show ?thesis using 1(1) [OF False] False by simp
  qed
qed

lemma utoa_0: "utoa 0 = ''0''"
  by code_simp

lemma ParseUint_utoa: "ParseUint (utoa m) = (if int m \<ge> 2 ^ 64 then Inl ErrRange else Inr (int m))"
proof (cases "m = 0")
  case True
  then have "utoa m = ''0''" by (simp add: utoa_0)
  then show ?thesis using True by (simp add: ParseUint_def base_prefix_def)
next
  case False
  then have h: "hd (utoa m) \<noteq> CHR ''0''" using hd_utoa by simp
  then have "base_prefix (utoa m) = None"
    by (cases "utoa m") (auto simp: base_prefix_def)
  then show ?thesis
    using h utoa_no_underscore [of m] by (simp add: ParseUint_def parse_digits_utoa)
qed

lemma ParseInt_itoa:
  "ParseInt (itoa i) = (if - (2 ^ 63) \<le> i \<and> i < 2 ^ 63 then Inr i else Inl ErrRange)"
proof (cases "i < 0")
  case True
  then have "ParseInt (itoa i) = (case ParseUint (utoa (nat (- i))) of Inl e \<Rightarrow> Inl e
      | Inr n \<Rightarrow> if n > 2 ^ 63 then Inl ErrRange else Inr (- n))"
    by (simp add: ParseInt_def itoa_def Let_def split: sum.split)
  then show ?thesis using True by (simp add: ParseUint_utoa)
next
  case False
  have "hd (utoa (nat i)) \<noteq> CHR ''-'' \<and> hd (utoa (nat i)) \<noteq> CHR ''+''"
    using hd_utoa [of "nat i"] utoa_0 by (cases "nat i = 0") simp_all
  then have "ParseInt (itoa i) = (case ParseUint (utoa (nat i)) of Inl e \<Rightarrow> Inl e
      | Inr n \<Rightarrow> if n \<ge> 2 ^ 63 then Inl ErrRange else Inr n)"
    using False by (simp add: ParseInt_def itoa_def Let_def split: sum.split)
  then show ?thesis using False by (simp add: ParseUint_utoa)
qed

section \<open>Numerals with a base\<close>

definition digit_value :: "char \<Rightarrow> int" where
  "digit_value c =
     (if c \<in> set ''0123456789'' then int (of_char c) - 48
      else if c \<in> set ''abcdef'' then int (of_char c) - 87
      else if c \<in> set ''ABCDEF'' then int (of_char c) - 55 else 16)"

definition numeral_value :: "int \<Rightarrow> string \<Rightarrow> int" where
  "numeral_value base ds = foldl (\<lambda>n c. n * base + digit_value c) 0 ds"

text \<open>The bases and their prefixes; without a prefix a leading zero is not part of a decimal numeral.\<close>

definition base_prefixes :: "(string \<times> int) list" where
  "base_prefixes = [([], 10), (''0'', 8), (''0o'', 8), (''0O'', 8), (''0x'', 16), (''0X'', 16), (''0b'', 2), (''0B'', 2)]"

definition is_numeral :: "string \<Rightarrow> int \<Rightarrow> string \<Rightarrow> bool" where
  "is_numeral mark base ds \<longleftrightarrow>
     (mark, base) \<in> set base_prefixes \<and> list_all (\<lambda>c. digit_value c < base) ds \<and>
     (if mark = [] then ds \<noteq> [] \<and> hd ds \<noteq> CHR ''0'' else mark = ''0'' \<or> ds \<noteq> [])"

lemma digit_value_char:
  assumes "digit_value c < 16"
  shows "0 \<le> digit_value c" "c \<noteq> CHR ''_''"
    "is_dec c \<or> byte CHR ''a'' \<le> lower c \<and> lower c \<le> byte CHR ''z''"
    "(if is_dec c then byte c - byte CHR ''0'' else lower c - byte CHR ''a'' + 10) = digit_value c"
proof -
  have "c \<in> set ''0123456789abcdefABCDEF''" using assms by (auto simp: digit_value_def split: if_splits)
  then show "0 \<le> digit_value c" "c \<noteq> CHR ''_''"
    "is_dec c \<or> byte CHR ''a'' \<le> lower c \<and> lower c \<le> byte CHR ''z''"
    "(if is_dec c then byte c - byte CHR ''0'' else lower c - byte CHR ''a'' + 10) = digit_value c"
    by (auto simp: digit_value_def is_dec_def lower_def byte_def)
qed

lemma foldl_digits_mono:
  "0 \<le> n \<Longrightarrow> 0 < base \<Longrightarrow> base \<le> 16 \<Longrightarrow> list_all (\<lambda>c. digit_value c < base) ds \<Longrightarrow>
   n \<le> foldl (\<lambda>n c. n * base + digit_value c) n ds"
proof (induction ds arbitrary: n)
  case (Cons c ds)
  have d: "0 \<le> digit_value c" using Cons.prems by (intro digit_value_char) simp
  then have "n \<le> n * base + digit_value c"
    using Cons.prems(1,2) mult_le_cancel_left1 [of n base] by (smt (verit))
  also have "\<dots> \<le> foldl (\<lambda>n c. n * base + digit_value c) (n * base + digit_value c) ds"
    using Cons.prems d by (intro Cons.IH) simp_all
  finally show ?case by simp
qed simp

lemma parse_digits_value:
  "0 \<le> n \<Longrightarrow> n < 2 ^ 64 \<Longrightarrow> 0 < base \<Longrightarrow> base \<le> 16 \<Longrightarrow> list_all (\<lambda>c. digit_value c < base) ds \<Longrightarrow>
   parse_digits base n ds =
     (let v = foldl (\<lambda>n c. n * base + digit_value c) n ds in if v \<ge> 2 ^ 64 then Inl ErrRange else Inr v)"
proof (induction ds arbitrary: n)
  case (Cons c ds)
  let ?d = "digit_value c"
  have lt: "?d < base" "?d < 16" using Cons.prems by simp_all
  note d = digit_value_char [OF lt(2)]
  have step: "parse_digits base n (c # ds) =
      (if n * base + ?d \<ge> 2 ^ 64 then Inl ErrRange else parse_digits base (n * base + ?d) ds)"
    using d(2,3) lt(1) by (simp only: parse_digits.simps d(4) Let_def if_False if_True not_le [symmetric] simp_thms)
  have nn: "0 \<le> n * base + ?d" using Cons.prems d(1) by simp
  show ?case
  proof (cases "n * base + ?d \<ge> 2 ^ 64")
    case True
    have "n * base + ?d \<le> foldl (\<lambda>n c. n * base + digit_value c) (n * base + ?d) ds"
      using Cons.prems nn by (intro foldl_digits_mono) simp_all
    then show ?thesis using True by (simp add: step Let_def del: parse_digits.simps)
  next
    case False
    then have "parse_digits base (n * base + ?d) ds =
      (let v = foldl (\<lambda>n c. n * base + digit_value c) (n * base + ?d) ds in if v \<ge> 2 ^ 64 then Inl ErrRange else Inr v)"
      using Cons.prems nn by (intro Cons.IH) simp_all
    then show ?thesis using False by (simp add: step Let_def del: parse_digits.simps)
  qed
qed simp

lemma ParseInt_numeral:
  assumes "is_numeral mark base ds"
  shows "ParseInt (mark @ ds) = (if numeral_value base ds < 2 ^ 63 then Inr (numeral_value base ds) else Inl ErrRange)"
proof -
  have base: "0 < base" "base \<le> 16" and ds: "list_all (\<lambda>c. digit_value c < base) ds"
    and pb: "(mark, base) \<in> set base_prefixes"
    using assms by (auto simp: is_numeral_def base_prefixes_def)
  note v = parse_digits_value [of 0, OF _ _ base ds, simplified, folded numeral_value_def]
  have digit: "0 \<le> digit_value c" "c \<noteq> CHR ''_''" "digit_value c < base" if "c \<in> set ds" for c
    using that ds base digit_value_char [of c] by (auto simp: list_all_iff)
  have hd: "hd ds \<noteq> CHR ''-'' \<and> hd ds \<noteq> CHR ''+'' \<and> lower (hd ds) \<notin> {byte CHR ''o'', byte CHR ''x''} \<and>
      (base \<le> 10 \<longrightarrow> lower (hd ds) \<noteq> byte CHR ''b'')" if "ds \<noteq> []"
    using digit(3) [of "hd ds"] that base
    by (auto simp: digit_value_def lower_def byte_def split: if_splits)
  have us: "CHR ''_'' \<notin> set ds" using digit(2) by auto
  have u: "ParseUint (mark @ ds) = (if numeral_value base ds < 2 ^ 64 then Inr (numeral_value base ds) else Inl ErrRange)"
    using pb
  proof (unfold base_prefixes_def set_simps insert_iff empty_iff simp_thms, elim disjE)
    assume p: "(mark, base) = ([], 10)"
    then have "ds \<noteq> []" "hd ds \<noteq> CHR ''0''" using assms by (simp_all add: is_numeral_def)
    then have "base_prefix ds = None" by (cases ds) (auto simp: base_prefix_def)
    then show ?thesis using p v us \<open>ds \<noteq> []\<close> \<open>hd ds \<noteq> CHR ''0''\<close> by (simp add: ParseUint_def Let_def)
  next
    assume p: "(mark, base) = (''0'', 8)"
    then have "base_prefix (CHR ''0'' # ds) = None"
      using hd by (cases ds) (auto simp: base_prefix_def)
    then show ?thesis using p v us by (simp add: ParseUint_def Let_def)
  qed (use assms v us in \<open>cases ds; simp add: ParseUint_def base_prefix_def is_numeral_def lower_def byte_def Let_def\<close>)+
  have "hd (mark @ ds) \<noteq> CHR ''-''" "hd (mark @ ds) \<noteq> CHR ''+''" "mark @ ds \<noteq> []"
    using pb hd assms by (auto simp: base_prefixes_def is_numeral_def)
  then show ?thesis by (simp add: ParseInt_def Let_def u)
qed

end
