(* ===== verification/ExprText.thy ===== *)
theory ExprText
  imports FormatType NumberProps
begin

text \<open>
  How the lexer reads a line of words, decimal numbers, operators and brackets: the texts the formatter
  prints for expressions. It extends the words and punctuation of \<open>FormatType\<close>.
\<close>

section \<open>The parts of a line\<close>

datatype lexeme = Word string | Num nat | Sym string | Gap

definition brackets :: "(string \<times> token_type) list" where
  "brackets =
     [(''('', TOKEN_LPAREN), ('')'', TOKEN_RPAREN), (''['', TOKEN_LBRACKET), ('']'', TOKEN_RBRACKET)]"

definition operators :: "(string \<times> token_type) list" where
  "operators =
     [('','', TOKEN_COMMA), (''.'', TOKEN_DOT), (''*'', TOKEN_STAR), (''/'', TOKEN_SLASH), (''%'', TOKEN_PERCENT),
      (''=='', TOKEN_DOUBLE_EQUALS), (''!='', TOKEN_NOT_EQUALS), (''<='', TOKEN_LTE), (''>='', TOKEN_GTE),
      (''&&'', TOKEN_AND_AND), (''||'', TOKEN_OR_OR),
      (''+'', TOKEN_PLUS), (''-'', TOKEN_MINUS), (''<'', TOKEN_LT), (''>'', TOKEN_GT), (''!'', TOKEN_BANG),
      (''|'', TOKEN_BIT_OR), (''&'', TOKEN_BIT_AND)]"

definition symbols :: "(string \<times> token_type) list" where
  "symbols = brackets @ operators"

lemmas symbol_lists = symbols_def brackets_def operators_def

definition sym_type :: "string \<Rightarrow> token_type" where
  "sym_type s = (case map_of symbols s of Some tt \<Rightarrow> tt | None \<Rightarrow> TOKEN_EOF)"

fun lexeme_text :: "lexeme \<Rightarrow> string" where
  "lexeme_text (Word w) = w"
| "lexeme_text (Num n) = utoa n"
| "lexeme_text (Sym s) = s"
| "lexeme_text Gap = '' ''"

fun lexeme_token :: "lexeme \<Rightarrow> (token_type \<times> string) list" where
  "lexeme_token (Word w) = [(LookupKeyword w, w)]"
| "lexeme_token (Num n) = [(TOKEN_INTEGER, utoa n)]"
| "lexeme_token (Sym s) = [(sym_type s, s)]"
| "lexeme_token Gap = []"

abbreviation text_of :: "lexeme list \<Rightarrow> string" where "text_of ls \<equiv> concat (map lexeme_text ls)"

abbreviation tokens_of :: "lexeme list \<Rightarrow> (token_type \<times> string) list" where
  "tokens_of ls \<equiv> concat (map lexeme_token ls)"

text \<open>What may follow a part: nothing that would be read as more of it.\<close>

definition fine_lexeme :: "lexeme \<Rightarrow> bool" where
  "fine_lexeme p = (case p of Word w \<Rightarrow> is_word w | Sym s \<Rightarrow> s \<in> fst ` set symbols | _ \<Rightarrow> True)"

definition joins :: "lexeme \<Rightarrow> lexeme \<Rightarrow> bool" where
  "joins p q =
     (case p of
        Word w \<Rightarrow> q = Gap \<or> (\<exists>s. q = Sym s)
      | Num n \<Rightarrow> q = Gap \<or> (\<exists>s. q = Sym s \<and> s \<noteq> ''.'')
      | Gap \<Rightarrow> q \<noteq> Gap
      | Sym s \<Rightarrow> s \<in> set [''('', '')'', ''['', '']'', '','', ''.''] \<or> q = Gap \<or> (\<exists>w. q = Word w) \<or> (\<exists>n. q = Num n) \<or>
                 q = Sym ''('')"

fun well_joined :: "lexeme list \<Rightarrow> bool" where
  "well_joined [] \<longleftrightarrow> True"
| "well_joined [p] \<longleftrightarrow> fine_lexeme p"
| "well_joined (p # q # ps) \<longleftrightarrow> fine_lexeme p \<and> joins p q \<and> well_joined (q # ps)"

lemma well_joined_append:
  "well_joined x \<Longrightarrow> well_joined y \<Longrightarrow> (x \<noteq> [] \<Longrightarrow> y \<noteq> [] \<Longrightarrow> joins (last x) (hd y)) \<Longrightarrow> well_joined (x @ y)"
proof (induction x rule: well_joined.induct)
  case (2 p)
  then show ?case by (cases y) auto
qed auto

section \<open>Reading the parts\<close>

lemma emits_add:
  assumes "inline m" "tokens m = tokens l" "rest m = X" "current_lexeme m = s"
  shows "emits l [(tt, s)] (addToken tt m) \<and> rest (addToken tt m) = X"
  using assms by (simp add: emits_def addToken_def mkToken_def)

lemma match_rune_rest:
  "rest l = d # ds \<Longrightarrow> match_rune c l = (if d = c then (True, skip l) else (False, l))"
proof -
  assume r: "rest l = d # ds"
  then have "\<not> isAtEnd l" "peek l = d" by (simp_all add: isAtEnd_rest peek_rest)
  then have "source l ! current l = d" by (simp add: peek_def)
  then show ?thesis using \<open>\<not> isAtEnd l\<close> by (simp add: match_rune_def skip_def advance_def)
qed

lemma match_rune_end: "rest l = [] \<Longrightarrow> match_rune c l = (False, l)"
  by (simp add: match_rune_def isAtEnd_rest)

text \<open>The runes \<open>+ - = > | &\<close> would make a longer operator.\<close>

definition plain_next :: "rune list \<Rightarrow> bool" where
  "plain_next X \<longleftrightarrow> X = [] \<or> hd X \<notin> {43, 45, 61, 62, 124, 38}"

lemma match_plain:
  assumes "rest m = X" "plain_next X"
  shows "match_rune 43 m = (False, m)" "match_rune 45 m = (False, m)" "match_rune 61 m = (False, m)"
    "match_rune 62 m = (False, m)" "match_rune 124 m = (False, m)" "match_rune 38 m = (False, m)"
  using assms by (cases X; simp add: match_rune_rest match_rune_end plain_next_def)+

lemma emits_sym:
  assumes l: "quiet l" "start l = current l" "rest l = map of_char s @ X" and s: "(s, tt) \<in> set symbols"
    and X: "s \<in> set [''+'', ''-'', ''<'', ''>'', ''!'', ''|'', ''&''] \<Longrightarrow> plain_next X"
  shows "emits l [(tt, s)] (scanRune l) \<and> rest (scanRune l) = X"
proof -
  let ?m = "(skip l)\<lparr>atLineStart := False\<rparr>"
  have ascii: "(of_char c :: nat) < 128" if "c \<in> set s" for c
    using s that by (auto simp: symbol_lists)
  have len: "length s \<in> {1, 2}" "s \<noteq> []" using s by (auto simp: symbol_lists)
  have sw: "scanRune l = scanSwitch (of_char (hd s)) ?m"
    using l(3) len(2) by (cases s) (simp_all add: scanRune_eq peek_rest)
  have m: "inline ?m" "tokens ?m = tokens l" using l(1) by (simp_all add: inline_def)
  have lex: "current_lexeme ((skip ^^ length s) l) = s"
    using current_lexeme_skips [of "length s" l] l(2,3) go_string_ascii [OF ascii] by simp
  show ?thesis
  proof (cases "length s = 1")
    case True
    then obtain k where k: "s = [k]" by (cases s) auto
    have r: "rest ?m = X" using l(3) k by simp
    have one: "current_lexeme ?m = s" using lex k by (simp add: current_lexeme_def)
    have p: "current_lexeme (?m\<lparr>parenDepth := j\<rparr>) = s" "current_lexeme (?m\<lparr>braceDepth := j\<rparr>) = s" for j
      using one by (simp_all add: current_lexeme_def)
    have add: "emits l [(tt, s)] (addToken tt ?m) \<and> rest (addToken tt ?m) = X"
      "emits l [(tt, s)] (addToken tt (?m\<lparr>parenDepth := j\<rparr>)) \<and> rest (addToken tt (?m\<lparr>parenDepth := j\<rparr>)) = X"
      "emits l [(tt, s)] (addToken tt (?m\<lparr>braceDepth := j\<rparr>)) \<and> rest (addToken tt (?m\<lparr>braceDepth := j\<rparr>)) = X"
      for tt j
      using m r one p by (simp_all add: emits_def addToken_def mkToken_def inline_def quiet_def)
    have "(s, tt) \<in> set brackets \<or> (s, tt) \<in> set operators"
      using s by (simp add: symbols_def)
    then show ?thesis
    proof
      assume "(s, tt) \<in> set brackets"
      then consider "s = ''(''" "tt = TOKEN_LPAREN" | "s = '')''" "tt = TOKEN_RPAREN"
        | "s = ''[''" "tt = TOKEN_LBRACKET" | "s = '']''" "tt = TOKEN_RBRACKET" by (auto simp: brackets_def)
      then show ?thesis
        by cases (use add in \<open>simp_all add: sw scanSwitch_def decBraceDepth_def del: inline_simps\<close>)
    next
      assume s: "(s, tt) \<in> set operators"
      have "scanRune l = addToken tt ?m"
        using s k match_plain [OF r] X True unfolding operators_def
        by (simp only: list.set insert_iff empty_iff prod.inject, elim disjE conjE)
          (simp_all add: sw scanSwitch_def scanOperator_def ifMatch_def)
      then show ?thesis using add by simp
    qed
  next
    case False
    then obtain k j where k: "s = [k, j]" using len by (cases s; cases "tl s") auto
    have r: "rest ?m = of_char j # X" using l(3) k by simp
    have "skip ?m = (skip (skip l))\<lparr>atLineStart := False\<rparr>" by (simp add: skip_def advance_def isAtEnd_def)
    then have two: "current_lexeme (skip ?m) = s" using lex k by (simp add: current_lexeme_def)
    have add: "emits l [(tt, s)] (addToken tt (skip ?m)) \<and> rest (addToken tt (skip ?m)) = X" for tt
      using m r two by (intro emits_add) simp_all
    have "scanRune l = addToken tt (skip ?m)"
      using s k match_rune_rest [OF r] unfolding symbol_lists
      by (simp only: append.simps list.set insert_iff empty_iff prod.inject, elim disjE conjE)
        (simp_all add: sw scanSwitch_def scanOperator_def ifMatch_def)
    then show ?thesis using add by simp
  qed
qed

text \<open>Numbers.\<close>

lemma utoa_runes: "d \<in> set (utoa n) \<Longrightarrow> isDigit (of_char d) \<and> (of_char d :: nat) < 128"
  using utoa_digits [of d n] by (auto simp: isDigit_def digit_char_def of_char_of)

lemma emits_number:
  assumes l: "quiet l" "start l = current l" "rest l = map of_char (utoa n) @ X"
    and X: "X = [] \<or> \<not> isAlphaNumeric (hd X) \<and> hd X \<noteq> rn CHR ''.''"
  shows "emits l [(TOKEN_INTEGER, utoa n)] (scanRune l) \<and> rest (scanRune l) = X"
proof -
  let ?m = "(skip l)\<lparr>atLineStart := False\<rparr>"
  let ?P = "\<lambda>c. isDigit c \<or> c = rn CHR ''_''"
  obtain d ds where w: "utoa n = d # ds" using utoa_nonempty [of n] by (cases "utoa n") auto
  let ?l1 = "(skip ^^ length ds) ?m"
  have r: "rest ?m = map of_char ds @ X" "rest l = of_char d # map of_char ds @ X" using l(3) w by simp_all
  have d: "isDigit (of_char d)" "\<And>c. c \<in> set ds \<Longrightarrow> isDigit (of_char c)"
    using utoa_runes [of _ n] w by auto
  have "\<not> (X \<noteq> [] \<and> ?P (hd X))" using X by (auto simp: isAlphaNumeric_def isAlpha_def)
  then have "takeWhile ?P X = []" by (cases X) auto
  then have tw: "takeWhile ?P (rest ?m) = map of_char ds" using d(2) r(1) by (simp add: takeWhile_append)
  have adv: "advance_while ?P ?m = ?l1"
    by (subst advance_while_skips) (simp_all only: tw length_map, simp add: isDigit_def)
  have k: "length ds \<le> length (rest ?m)" using r(1) by simp
  have l1: "current ?l1 = current ?m + length ds" "rest ?l1 = X" "source ?l1 = source l" "start ?l1 = start l"
      "skips ?m ?l1"
    using current_skips [OF k] r(1) skips_funpow by simp_all
  have pk: "peek ?l1 \<noteq> rn CHR ''.''" using X l1(2) by (cases X) (auto simp: peek_rest)
  have next_rune: "peek ?m \<notin> rn ` set ''xXoObB''"
  proof -
    have "isDigit (peek ?m) \<or> \<not> isAlphaNumeric (peek ?m)"
      using r(1) d(2) X by (cases ds; cases X) (auto simp: peek_rest isAlphaNumeric_def isAlpha_def isDigit_def)
    then show ?thesis by (auto simp: isDigit_def isAlphaNumeric_def isAlpha_def)
  qed
  have "scanRune l = scanNumber ?m"
    using d(1) r(2) by (auto simp: scanRune_eq peek_rest scanSwitch_def scanOperator_def isDigit_def)
  also have "\<dots> = scanDecimal ?m" using next_rune by (simp add: scanNumber_def Let_def)
  also have "\<dots> = addToken TOKEN_INTEGER ?l1" using pk adv by (simp add: scanDecimal_def Let_def)
  finally have s: "scanRune l = addToken TOKEN_INTEGER ?l1" .
  have "current ?m = Suc (current l)" using r(2) by (simp add: skip_def advance_def isAtEnd_rest)
  then have "current_lexeme ?l1 = go_string (take (Suc (length ds)) (rest l))"
    using l1 l(2) by (simp add: current_lexeme_def rest_def)
  also have "\<dots> = utoa n" using r(2) go_string_ascii [of "utoa n"] utoa_runes [of _ n] w by simp
  finally have "current_lexeme ?l1 = utoa n" .
  moreover have "tokens ((skip ^^ j) m) = tokens m" for j m by (induction j) simp_all
  moreover have "inline ?l1" using l(1) by (simp add: inline_funpow) (simp add: inline_def)
  ultimately show ?thesis using emits_add [of ?l1 l X] l1(2) s by (simp del: inline_simps)
qed

section \<open>A whole line\<close>

lemma symbols_distinct: "distinct (map fst symbols)"
  by (simp add: symbol_lists)

lemma sym_type_in: "s \<in> fst ` set symbols \<Longrightarrow> (s, sym_type s) \<in> set symbols"
  using symbols_distinct by (auto simp: sym_type_def split: option.split dest: map_of_SomeD weak_map_of_SomeI)

lemma symbol_text:
  assumes "s \<in> fst ` set symbols"
  shows "s \<noteq> []" "(of_char (hd s) :: nat) \<notin> {32, 9}" "\<not> isAlphaNumeric (of_char (hd s))"
    "s \<noteq> ''.'' \<Longrightarrow> of_char (hd s) \<noteq> (46 :: nat)" "s = ''('' \<or> (of_char (hd s) :: nat) \<noteq> 40" "c \<in> set s \<Longrightarrow> (of_char c :: nat) < 128"
    "(of_char (hd s) :: nat) \<notin> {10, 13, 35}"
  using assms by (auto simp: symbol_lists isAlphaNumeric_def isAlpha_def isDigit_def)

lemma lexeme_text_nonempty: "fine_lexeme p \<Longrightarrow> lexeme_text p \<noteq> []"
  using symbol_text(1) utoa_nonempty by (cases p) (auto simp: fine_lexeme_def is_word_def)

lemma digit_head: "isDigit (of_char (hd (utoa n)))"
  using utoa_runes [of "hd (utoa n)" n] utoa_nonempty [of n] by simp

lemma lexeme_head_all:
  assumes "fine_lexeme q"
  defines "c \<equiv> of_char (hd (lexeme_text q)) :: rune"
  shows "(q \<noteq> Gap \<longrightarrow> \<not> isBlank c) \<and> (q = Gap \<or> (\<exists>s. q = Sym s) \<longrightarrow> \<not> isAlphaNumeric c) \<and>
    (q = Gap \<or> (\<exists>s. q = Sym s \<and> s \<noteq> ''.'') \<longrightarrow> c \<noteq> 46) \<and>
    (q = Gap \<or> (\<exists>w. q = Word w) \<or> (\<exists>n. q = Num n) \<or> q = Sym ''('' \<longrightarrow> c \<notin> {43, 45, 61, 62, 124, 38})"
proof (cases q)
  case (Word w)
  then have "isAlpha c" using assms by (simp add: fine_lexeme_def is_word_def)
  then show ?thesis using Word by (auto simp: isAlpha_def)
next
  case (Num n)
  then have "isDigit c" using digit_head by (simp add: c_def)
  then show ?thesis using Num by (auto simp: isDigit_def)
next
  case (Sym s)
  then have "s \<in> fst ` set symbols" using assms(1) by (simp add: fine_lexeme_def)
  then show ?thesis
    using symbol_text [of s] by (auto simp: Sym c_def)
next
  case Gap
  then show ?thesis by (simp add: c_def isAlphaNumeric_def isAlpha_def isDigit_def)
qed

lemma lexeme_head:
  assumes "fine_lexeme q"
  shows "q \<noteq> Gap \<Longrightarrow> \<not> isBlank (of_char (hd (lexeme_text q)))"
    "q = Gap \<or> (\<exists>s. q = Sym s) \<Longrightarrow> \<not> isAlphaNumeric (of_char (hd (lexeme_text q)))"
    "q = Gap \<or> (\<exists>s. q = Sym s \<and> s \<noteq> ''.'') \<Longrightarrow> of_char (hd (lexeme_text q)) \<noteq> (46 :: rune)"
    "q = Gap \<or> (\<exists>w. q = Word w) \<or> (\<exists>n. q = Num n) \<or> q = Sym ''('' \<Longrightarrow>
       (of_char (hd (lexeme_text q)) :: rune) \<notin> {43, 45, 61, 62, 124, 38}"
  using lexeme_head_all [OF assms] by blast+

lemma emits_lexeme:
  assumes l: "quiet l" "start l = current l" "rest l = map of_char (lexeme_text p) @ X"
    and p: "fine_lexeme p" and X: "X = [] \<and> p \<noteq> Gap \<or> (\<exists>q Y. X = map of_char (lexeme_text q) @ Y \<and> fine_lexeme q \<and> joins p q)"
  shows "emits l (lexeme_token p) (scanRune l) \<and> rest (scanRune l) = X"
proof -
  have h: "X = [] \<and> p \<noteq> Gap \<or> (\<exists>q. fine_lexeme q \<and> joins p q \<and> hd X = of_char (hd (lexeme_text q)))"
  proof (cases "X = [] \<and> p \<noteq> Gap")
    case False
    then obtain q Y where q: "X = map of_char (lexeme_text q) @ Y" "fine_lexeme q" "joins p q" using X by blast
    have "hd X = of_char (hd (lexeme_text q))"
      using q(1) lexeme_text_nonempty [OF q(2)] by (cases "lexeme_text q") simp_all
    then show ?thesis using q by blast
  qed simp
  have X1: "X = [] \<or> \<not> isAlphaNumeric (hd X)" if "p = Word w" for w
  proof (cases "X = []")
    case False
    then obtain q where q: "fine_lexeme q" "joins p q" "hd X = of_char (hd (lexeme_text q))" using h that by blast
    then show ?thesis using lexeme_head(2) [OF q(1)] that unfolding joins_def by simp
  qed simp
  have X2: "X = [] \<or> \<not> isAlphaNumeric (hd X) \<and> hd X \<noteq> 46" if "p = Num n" for n
  proof (cases "X = []")
    case False
    then obtain q where q: "fine_lexeme q" "joins p q" "hd X = of_char (hd (lexeme_text q))" using h that by blast
    then have "q = Gap \<or> (\<exists>s. q = Sym s \<and> s \<noteq> ''.'')" using that unfolding joins_def by simp
    then show ?thesis using lexeme_head(2,3) [OF q(1)] q(3) by metis
  qed simp
  have X3: "plain_next X" if s: "p = Sym s" "s \<in> set [''+'', ''-'', ''<'', ''>'', ''!'', ''|'', ''&'']" for s
  proof (cases "X = []")
    case False
    then obtain q where q: "fine_lexeme q" "joins p q" "hd X = of_char (hd (lexeme_text q))" using h by blast
    have "q = Gap \<or> (\<exists>w. q = Word w) \<or> (\<exists>n. q = Num n) \<or> q = Sym ''(''"
      using q(2) s unfolding joins_def by auto
    then show ?thesis using lexeme_head(4) [OF q(1)] unfolding plain_next_def q(3) by blast
  qed (simp add: plain_next_def)
  have X4: "X = [] \<or> \<not> isBlank (hd X)" if "p = Gap"
  proof (cases "X = []")
    case False
    then obtain q where q: "fine_lexeme q" "joins p q" "hd X = of_char (hd (lexeme_text q))" using h by blast
    then show ?thesis using lexeme_head(1) [OF q(1)] that unfolding joins_def by simp
  qed simp
  show ?thesis
  proof (cases p)
    case (Word w)
    then show ?thesis using emits_word [OF l(1,2), of w X] l(3) p X1 by (simp add: fine_lexeme_def)
  next
    case (Num n)
    then show ?thesis using emits_number [OF l(1,2), of n X] l(3) X2 by simp
  next
    case (Sym s)
    then show ?thesis using emits_sym [OF l(1,2), of s X "sym_type s"] sym_type_in l(3) p X3
      by (simp add: fine_lexeme_def)
  next
    case Gap
    then show ?thesis using emits_space [OF l(1), of X] l(3) X4 by simp
  qed
qed

lemma well_joined_head:
  assumes "well_joined (p # ps)" "last (p # ps) \<noteq> Gap"
  shows "fine_lexeme p" "well_joined ps"
    "map of_char (text_of ps) = [] \<and> p \<noteq> Gap \<or>
      (\<exists>q Y. map of_char (text_of ps) = map of_char (lexeme_text q) @ (Y :: rune list) \<and> fine_lexeme q \<and> joins p q)"
proof -
  show "fine_lexeme p" "well_joined ps" using assms(1) by (cases ps; simp)+
  show "map of_char (text_of ps) = [] \<and> p \<noteq> Gap \<or>
      (\<exists>q Y. map of_char (text_of ps) = map of_char (lexeme_text q) @ (Y :: rune list) \<and> fine_lexeme q \<and> joins p q)"
  proof (cases ps)
    case (Cons q qs)
    then have "fine_lexeme q" "joins p q" using assms(1) by (cases qs; simp)+
    then show ?thesis using Cons by auto
  qed (use assms in auto)
qed

lemma scanLoop_lexemes:
  "inline l \<Longrightarrow> well_joined ps \<Longrightarrow> (ps \<noteq> [] \<Longrightarrow> last ps \<noteq> Gap) \<Longrightarrow> rest l = map of_char (text_of ps) \<Longrightarrow>
     emits l (tokens_of ps) (scanLoop l)"
proof (induction ps arbitrary: l)
  case Nil
  then show ?case by (subst scanLoop.simps) (simp add: isAtEnd_rest emits_def)
next
  case (Cons p ps)
  let ?l = "l\<lparr>start := current l\<rparr>"
  have p: "fine_lexeme p" "well_joined ps" using well_joined_head [OF Cons.prems(2,3)] by simp_all
  have "emits ?l (lexeme_token p) (scanRune ?l) \<and> rest (scanRune ?l) = map of_char (text_of ps)"
    using Cons.prems well_joined_head(3) [OF Cons.prems(2)]
    by (intro emits_lexeme p(1)) (simp_all add: inline_def)
  moreover have "\<not> isAtEnd l" using Cons.prems(4) lexeme_text_nonempty [OF p(1)] by (simp add: isAtEnd_rest)
  then have "scanLoop l = scanLoop (scanRune ?l)"
    using Cons.prems(1) by (subst scanLoop.simps) (simp add: scanToken_inline)
  ultimately show ?case
    using Cons.IH [of "scanRune ?l"] Cons.prems(3) p(2) by (cases ps) (auto simp: emits_def)
qed

lemma lexeme_ascii: "fine_lexeme p \<Longrightarrow> c \<in> set (lexeme_text p) \<Longrightarrow> (of_char c :: nat) < 128"
  using symbol_text(6) utoa_runes word_char_ascii
  by (cases p) (auto simp: fine_lexeme_def is_word_def list_all_iff)

lemma text_ascii: "well_joined ps \<Longrightarrow> c \<in> set (text_of ps) \<Longrightarrow> (of_char c :: nat) < 128"
proof (induction ps rule: well_joined.induct)
  case (3 p q ps)
  then show ?case using lexeme_ascii by auto
qed (use lexeme_ascii in auto)

lemma ScanTokens_lexemes:
  assumes "well_joined (p # ps)" "p \<noteq> Gap" "last (p # ps) \<noteq> Gap" "TOKEN_PIPE \<notin> fst ` set (tokens_of (p # ps))"
  shows "\<exists>ts e. ScanTokens (NewLexer (text_of (p # ps)) fname) = Inr (ts @ [e]) \<and>
    map tok_pair ts = tokens_of (p # ps) \<and> Type e = TOKEN_EOF"
proof -
  let ?L = "NewLexer (text_of (p # ps)) fname"
  let ?h = "?L\<lparr>start := current ?L, indentationHandled := True\<rparr>"
  let ?S = "scanLoop ?L"
  note p = well_joined_head [OF assms(1,3)]
  have r: "rest ?L = map of_char (text_of (p # ps))"
  proof -
    have "go_runes (text_of (p # ps)) = map of_char (text_of (p # ps))"
      by (intro go_runes_ascii text_ascii [OF assms(1)])
    then show ?thesis by (simp add: NewLexer_def rest_def)
  qed
  have fields: "continuationLine ?L = False" "braceBlockDepth ?L = 0" "length (indentStack ?L) = 1"
      "atLineStart ?L" "\<not> indentationHandled ?L" "quiet ?L" "tokens ?L = []"
    by (simp_all add: NewLexer_def quiet_def)
  obtain d ds where t: "lexeme_text p = d # ds" using lexeme_text_nonempty [OF p(1)] by (cases "lexeme_text p") auto
  have "\<not> isBlank (of_char d)" using lexeme_head(1) [OF p(1) assms(2)] t by simp
  moreover have "(of_char d :: nat) \<notin> {10, 13, 35}"
  proof (cases p)
    case (Word w)
    then have "isAlpha (of_char d)" using p(1) t by (simp add: fine_lexeme_def is_word_def)
    then show ?thesis by (auto simp: isAlpha_def)
  next
    case (Num n)
    then have "isDigit (of_char d)" using digit_head [of n] t by simp
    then show ?thesis by (auto simp: isDigit_def)
  next
    case (Sym s)
    then show ?thesis using symbol_text(7) [of s] p(1) t by (simp add: fine_lexeme_def)
  qed (use assms(2) in simp)
  ultimately have pk: "peek (?L\<lparr>start := current ?L\<rparr>) \<notin> {32, 9, 10, 13, 35}"
    using r t by (auto simp: peek_rest)
  have "scanToken (?L\<lparr>start := current ?L\<rparr>) = scanRune ?h"
    using pk fields by (auto simp: scanToken_def skipContinuationIndent_def skipBraceBlockIndent_def Let_def)
  moreover have "\<not> isAtEnd ?L" using r t by (simp add: isAtEnd_rest)
  ultimately have S: "?S = scanLoop (scanRune ?h)" by (subst scanLoop.simps) simp
  have 1: "emits ?h (lexeme_token p) (scanRune ?h) \<and> rest (scanRune ?h) = map of_char (text_of ps)"
    using p(3) fields r by (intro emits_lexeme p(1)) simp_all
  then have "emits (scanRune ?h) (tokens_of ps) ?S"
    unfolding S using p(2) assms(3) by (intro scanLoop_lexemes) (auto simp: emits_def)
  with 1 fields have e: "inline ?S" "map tok_pair (tokens ?S) = tokens_of (p # ps)"
    by (simp_all add: emits_def)
  then have c: "closeIndents ?S = ?S" by (subst closeIndents.simps) (simp add: inline_def quiet_def)
  let ?e = "mkToken TOKEN_EOF (current_lexeme ?S) ?S"
  have "Type t \<noteq> TOKEN_PIPE" if "t \<in> set (tokens ?S)" for t
  proof -
    have "(Type t, Lexeme t) \<in> set (map tok_pair (tokens ?S))" using that by auto
    then have "(Type t, Lexeme t) \<in> set (tokens_of (p # ps))" unfolding e(2) .
    then show ?thesis using assms(4) by force
  qed
  then have "mergeLineContinuations (tokens ?S @ [?e]) = tokens ?S @ [?e]"
    unfolding mergeLineContinuations_def by (intro mergeLoop_no_pipe) auto
  then have "ScanTokens ?L = Inr (tokens ?S @ [?e])"
    using e(1) c by (simp add: ScanTokens_def addToken_def Let_def inline_def quiet_def)
  with e(2) show ?thesis by (intro exI [of _ "tokens ?S"] exI [of _ ?e]) simp
qed

end
