(* ===== verification/ExprFormat.thy ===== *)
theory ExprFormat
  imports PrintDepth ExprText
begin

text \<open>
  The expressions whose printed text is read back: names, decimal integers, booleans, operators, calls,
  fields and indices, printed on one line. \<open>lexemes\<close> are the parts of the text in order.
\<close>

section \<open>Operators\<close>

text \<open>The level of an operator in the parser: \<^verbatim>\<open>parseOrExpr\<close> is 1, \<^verbatim>\<open>parseUnaryExpr\<close> is 9.\<close>

definition op_table :: "(string \<times> nat) list" where
  "op_table =
     [(''or'', 1), (''||'', 1), (''and'', 3), (''&&'', 3), (''|'', 4), (''&'', 5),
      (''equals'', 6), (''not equals'', 6), (''=='', 6), (''!='', 6), (''isnt'', 6), (''<'', 6), (''>'', 6),
      (''<='', 6), (''>='', 6), (''in'', 6), (''not in'', 6), (''+'', 7), (''-'', 7), (''*'', 8), (''/'', 8), (''%'', 8)]"

definition op_level :: "string \<Rightarrow> nat" where
  "op_level op = (case map_of op_table op of Some k \<Rightarrow> k | None \<Rightarrow> 0)"

lemma op_level_table: "0 < op_level op \<Longrightarrow> (op, op_level op) \<in> set op_table"
  by (auto simp: op_level_def split: option.splits dest: map_of_SomeD)

definition op_lexemes :: "string \<Rightarrow> lexeme list" where
  "op_lexemes op =
     (if op = ''not equals'' then [Word ''not'', Gap, Word ''equals'']
      else if op = ''not in'' then [Word ''not'', Gap, Word ''in'']
      else if op \<in> set [''or'', ''and'', ''equals'', ''isnt'', ''in''] then [Word op]
      else [Sym op])"

definition expr_level :: "Expression \<Rightarrow> nat" where
  "expr_level e = (case e of BinaryExpr t l op r \<Rightarrow> op_level op | UnaryExpr t op r \<Rightarrow> 9 | _ \<Rightarrow> 10)"

text \<open>Whether the printer puts an operand in parentheses.\<close>

definition operand_parens :: "nat \<Rightarrow> bool \<Rightarrow> Expression \<Rightarrow> bool" where
  "operand_parens prec isRight e =
     (case e of
        BinaryExpr t l op r \<Rightarrow>
          operatorPrecedence op < prec \<or> isRight \<and> operatorPrecedence op = prec
      | _ \<Rightarrow> False)"

lemma binaryOperand_parens:
  "binaryOperandToString R level e prec isRight =
     (if operand_parens prec isRight e then parenthesized (pExpr R level e) else pExpr R level e)"
  by (simp add: binaryOperandToString_def operand_parens_def Let_def split: Expression.split)

text \<open>The printer's precedences agree with the parser's levels: an operand that is a binary expression is put in
  parentheses or binds tightly enough, but for a comparison as the right operand of an equality and the
  operands of \<^verbatim>\<open>not in\<close>.\<close>

lemma levels_fit_table:
  "\<forall>(a, i)\<in>set op_table. \<forall>(b, j)\<in>set op_table. a \<noteq> ''not in'' \<longrightarrow>
     \<not> (i = 6 \<and> j = 6 \<and> operatorPrecedence a < operatorPrecedence b) \<longrightarrow>
     (operatorPrecedence b < operatorPrecedence a \<or> i \<le> j) \<and> (operatorPrecedence b \<le> operatorPrecedence a \<or> i < j)"
  by code_simp

lemma printer_levels_fit:
  assumes "0 < op_level a" "0 < op_level b" "a \<noteq> ''not in''"
    and "\<not> (op_level a = 6 \<and> op_level b = 6 \<and> operatorPrecedence a < operatorPrecedence b)"
  shows "operand_parens (operatorPrecedence a) False (BinaryExpr t l b r) \<or> op_level a \<le> op_level b"
    and "operand_parens (operatorPrecedence a) True (BinaryExpr t l b r) \<or> op_level a < op_level b"
  using levels_fit_table op_level_table [OF assms(1)] op_level_table [OF assms(2)] assms(3,4)
  by (fastforce simp: operand_parens_def)+

section \<open>The class of expressions\<close>

definition plain_name :: "string \<Rightarrow> bool" where
  "plain_name s \<longleftrightarrow> is_word s \<and> LookupKeyword s = TOKEN_IDENTIFIER"

definition is_field :: "Expression \<Rightarrow> bool" where
  "is_field e = (case e of FieldAccessExpr t x n \<Rightarrow> True | _ \<Rightarrow> False)"

definition chain :: "Expression \<Rightarrow> bool" where
  "chain e =
     (case e of Ident i \<Rightarrow> True | CallExpr t f as ns v \<Rightarrow> True | MethodCallExpr t x n as ns v \<Rightarrow> True
      | FieldAccessExpr t x n \<Rightarrow> True | IndexExpr t x i \<Rightarrow> True | _ \<Rightarrow> False)"

text \<open>
  An operand without parentheses must bind at least as tightly, for the parser, as its place needs. The
  printer has two levels of comparisons where the parser has one, so \<^verbatim>\<open>a == (b < c)\<close> loses its
  parentheses and is not in the class, and it prints no parentheses under a minus, around a receiver or
  around the function of a call.
\<close>

fun plain :: "Expression \<Rightarrow> bool" where
  "plain (Ident i) \<longleftrightarrow> plain_name (identValue i)"
| "plain (IntegerLiteral t v) \<longleftrightarrow> 0 \<le> v \<and> v < 2 ^ 63 \<and> Lexeme t = itoa v"
| "plain (BooleanLiteral t v) \<longleftrightarrow> True"
| "plain (BinaryExpr t l op r) \<longleftrightarrow>
     0 < op_level op \<and> plain l \<and> plain r \<and>
     (operand_parens (operatorPrecedence op) False l \<or> op_level op \<le> expr_level l) \<and>
     (operand_parens (operatorPrecedence op) True r \<or> op_level op < expr_level r)"
| "plain (UnaryExpr t op r) \<longleftrightarrow>
     (op = ''not'' \<or> op = ''!'' \<or> op = ''-'' \<and> expr_level r = 10) \<and> plain r"
| "plain (CallExpr t f as ns v) \<longleftrightarrow>
     chain f \<and> \<not> is_field f \<and> plain f \<and> (\<forall>a\<in>set as. plain a) \<and> ns = [] \<and> \<not> v"
| "plain (MethodCallExpr t x n as ns v) \<longleftrightarrow>
     chain x \<and> plain x \<and> plain_name (identValue n) \<and> (\<forall>a\<in>set as. plain a) \<and> ns = [] \<and> \<not> v"
| "plain (FieldAccessExpr t x n) \<longleftrightarrow> chain x \<and> plain x \<and> plain_name (identValue n)"
| "plain (IndexExpr t x i) \<longleftrightarrow> chain x \<and> plain x \<and> plain i"
| "plain e \<longleftrightarrow> False"

abbreviation in_parens :: "lexeme list \<Rightarrow> lexeme list" where
  "in_parens ls \<equiv> [Sym ''(''] @ ls @ [Sym '')'']"

fun commas :: "lexeme list list \<Rightarrow> lexeme list" where
  "commas [] = []"
| "commas [l] = l"
| "commas (l # k # ls) = l @ [Sym '','', Gap] @ commas (k # ls)"

fun lexemes :: "Expression \<Rightarrow> lexeme list" where
  "lexemes (Ident i) = [Word (identValue i)]"
| "lexemes (IntegerLiteral t v) = [Num (nat v)]"
| "lexemes (BooleanLiteral t v) = [Word (if v then ''true'' else ''false'')]"
| "lexemes (BinaryExpr t l op r) =
     (if operand_parens (operatorPrecedence op) False l then in_parens (lexemes l) else lexemes l) @
     [Gap] @ op_lexemes op @ [Gap] @
     (if operand_parens (operatorPrecedence op) True r then in_parens (lexemes r) else lexemes r)"
| "lexemes (UnaryExpr t op r) =
     (if op = ''not'' then [Word op, Gap] else if op = ''!'' then [Sym op, Gap] else [Sym op]) @
     (if op \<noteq> ''-'' \<and> needsParensAfterNot r then in_parens (lexemes r) else lexemes r)"
| "lexemes (CallExpr t f as ns v) = lexemes f @ in_parens (commas (map lexemes as))"
| "lexemes (MethodCallExpr t x n as ns v) =
     lexemes x @ [Sym ''.'', Word (identValue n)] @ in_parens (commas (map lexemes as))"
| "lexemes (FieldAccessExpr t x n) = lexemes x @ [Sym ''.'', Word (identValue n)]"
| "lexemes (IndexExpr t x i) = lexemes x @ [Sym ''[''] @ lexemes i @ [Sym '']'']"
| "lexemes e = []"

section \<open>The text is the text of the lexemes\<close>

lemma multiline_append [simp]: "multiline (s @ t) \<longleftrightarrow> multiline s \<or> multiline t"
  by (simp add: multiline_def contains_char_def)

lemma multiline_Cons [simp]: "multiline (c # s) \<longleftrightarrow> c = CHR 0x0A \<or> multiline s" "\<not> multiline []"
  by (auto simp: multiline_def contains_char_def)

lemma pExpr_Suc: "pExpr (printers_at isprint (Suc m)) = exprToString (printers_at isprint m)"
  by (simp add: Let_def)

lemma multiline_parts [simp]: "multiline (multiline_parts level a ss b)"
  by (simp add: multiline_parts_def)

lemma multiline_join: "s \<in> set ss \<Longrightarrow> multiline s \<Longrightarrow> multiline (go_join ss sep)"
  by (induction ss sep rule: go_join.induct) auto

lemma call_string_line:
  assumes "\<not> multiline (call_string level f ss)"
  shows "call_string level f ss = f @ ''('' @ go_join ss '', '' @ '')''" "\<not> multiline f" "\<forall>s\<in>set ss. \<not> multiline s"
proof -
  have no: "\<not> list_ex multiline ss"
  proof
    assume "list_ex multiline ss"
    then obtain s where "s \<in> set ss" "multiline s" by (auto simp: list_ex_iff)
    then have "multiline (go_join ss '', '')" by (rule multiline_join)
    then have "multiline (call_string level f ss)"
      using \<open>list_ex multiline ss\<close> by (simp add: call_string_def Let_def)
    then show False using assms by simp
  qed
  then have "fits_line level (f @ ''('' @ go_join ss '', '' @ '')'')"
    using assms by (auto simp: call_string_def multilineParenthesized_def Let_def split: if_splits)
  then show eq: "call_string level f ss = f @ ''('' @ go_join ss '', '' @ '')''"
    using no by (simp add: call_string_def)
  show "\<not> multiline f" using assms unfolding eq by simp
  show "\<forall>s\<in>set ss. \<not> multiline s" using no by (auto simp: list_ex_iff)
qed

lemma text_commas: "text_of (commas (map f as)) = go_join (map (text_of \<circ> f) as) '', ''"
proof (induction as)
  case (Cons a as)
  then show ?case by (cases as) simp_all
qed simp

lemma op_text: "text_of (op_lexemes op) = op"
  by (simp add: op_lexemes_def)

lemma print_lexemes:
  "plain e \<Longrightarrow> size e < n \<Longrightarrow> \<not> multiline (pExpr (printers_at isprint n) level e) \<Longrightarrow>
     pExpr (printers_at isprint n) level e = text_of (lexemes e)"
proof (induction e arbitrary: n rule: plain.induct)
  case (4 t l op r)
  obtain m where n: "n = Suc m" using 4 by (cases n) auto
  let ?R = "printers_at isprint m"
  have e: "pExpr (printers_at isprint n) level (BinaryExpr t l op r) = binaryExprToString ?R level l op r"
    by (simp add: n pExpr_Suc exprToString_def del: printers_at.simps)
  have "\<not> multiline (pExpr ?R level l)" "\<not> multiline (pExpr ?R level r)"
    using 4(5) unfolding e
    by (auto simp: binaryExprToString_def binaryOperand_parens parenthesized_def Let_def split: if_splits)
  then have "pExpr ?R level l = text_of (lexemes l)" "pExpr ?R level r = text_of (lexemes r)"
    using 4 by (auto simp: n)
  then show ?case
    unfolding e binaryExprToString_def binaryOperand_parens
    by (simp add: parenthesized_def op_text [unfolded comp_def])
next
  case (5 t op r)
  obtain m where n: "n = Suc m" using 5 by (cases n) auto
  let ?R = "printers_at isprint m"
  have e: "pExpr (printers_at isprint n) level (UnaryExpr t op r) = unaryExprToString ?R level op r"
    by (simp add: n pExpr_Suc exprToString_def del: printers_at.simps)
  have "\<not> multiline (pExpr ?R level r)"
    using 5(4) unfolding e by (auto simp: unaryExprToString_def Let_def split: if_splits)
  then have "pExpr ?R level r = text_of (lexemes r)" using 5 by (auto simp: n)
  then show ?case using 5(2) unfolding e by (auto simp: unaryExprToString_def)
next
  case (6 t f as ns v)
  obtain m where n: "n = Suc m" using 6 by (cases n) auto
  let ?R = "printers_at isprint m"
  have e: "pExpr (printers_at isprint n) level (CallExpr t f as ns v) =
      call_string level (pExpr ?R level f) (map (pExpr ?R level) as)"
    using 6(3) by (simp add: n pExpr_Suc exprToString_def callExprToString_def argumentStrings_def Let_def)
  note line = call_string_line [OF 6(5) [unfolded e]]
  have "pExpr ?R level f = text_of (lexemes f)" using 6(1,3,4) line(2) by (simp add: n)
  moreover have "pExpr ?R level a = text_of (lexemes a)" if "a \<in> set as" for a
    using 6(2) [OF that, of m] 6(3,4) line(3) that size_list_member [OF that, of size] by (simp add: n)
  then have args: "map (pExpr ?R level) as = map (text_of \<circ> lexemes) as" by simp
  ultimately show ?case using line(1) unfolding e args by (simp add: text_commas)
next
  case (7 t x k as ns v)
  obtain m where n: "n = Suc m" using 7 by (cases n) auto
  let ?R = "printers_at isprint m"
  let ?f = "pExpr ?R level x @ ''.'' @ identValue k"
  have e: "pExpr (printers_at isprint n) level (MethodCallExpr t x k as ns v) =
      (if as = [] then ?f @ ''()'' else call_string level ?f (map (pExpr ?R level) as))"
    using 7(3) by (simp add: n pExpr_Suc exprToString_def methodCallExprToString_def argumentStrings_def Let_def)
  have "\<not> multiline (pExpr ?R level x) \<and> (\<forall>a\<in>set as. \<not> multiline (pExpr ?R level a)) \<and>
      pExpr (printers_at isprint n) level (MethodCallExpr t x k as ns v) =
        ?f @ ''('' @ go_join (map (pExpr ?R level) as) '', '' @ '')''"
  proof (cases "as = []")
    case False
    then have "\<not> multiline (call_string level ?f (map (pExpr ?R level) as))" using 7(5) unfolding e by simp
    from call_string_line [OF this] show ?thesis using False unfolding e by simp
  next
    case True
    then show ?thesis using 7(5) unfolding e by simp
  qed
  then have line: "\<not> multiline (pExpr ?R level x)" "\<And>a. a \<in> set as \<Longrightarrow> \<not> multiline (pExpr ?R level a)"
    and whole: "pExpr (printers_at isprint n) level (MethodCallExpr t x k as ns v) =
      ?f @ ''('' @ go_join (map (pExpr ?R level) as) '', '' @ '')''" by blast+
  have x: "pExpr ?R level x = text_of (lexemes x)" using 7(1,3,4) line(1) by (simp add: n)
  have "pExpr ?R level a = text_of (lexemes a)" if "a \<in> set as" for a
    using 7(2) [OF that, of m] 7(3,4) line(2) [OF that] that size_list_member [OF that, of size] by (simp add: n)
  then have args: "map (pExpr ?R level) as = map (text_of \<circ> lexemes) as" by simp
  show ?case unfolding whole args x by (simp add: text_commas)
next
  case (8 t x k)
  obtain m where n: "n = Suc m" using 8 by (cases n) auto
  have "\<not> (\<exists>s y ty. x = TypeCastExpr s y ty)" using 8(2) by auto
  then have e: "pExpr (printers_at isprint n) level (FieldAccessExpr t x k) =
      pExpr (printers_at isprint m) level x @ ''.'' @ identValue k"
    by (auto simp: n pExpr_Suc exprToString_def fieldAccessExprToString_def simp del: printers_at.simps
        split: Expression.split)
  then show ?case using 8(1) [of m] 8(2-) by (simp add: n)
next
  case (9 t x i)
  obtain m where n: "n = Suc m" using 9 by (cases n) auto
  show ?case using 9(1,2) [of m] 9(3-) by (simp add: n pExpr_Suc exprToString_def del: printers_at.simps)
qed (auto simp: exprToString_def integer_string_def itoa_def Let_def gr0_conv_Suc dest!: less_imp_Suc_add)

end
