(* ===== verification/ParserMonad.thy ===== *)
theory ParserMonad
  imports TypeParser Syntax "HOL-Library.State_Monad"
begin

text \<open>
  The methods of \<^verbatim>\<open>*Parser\<close> as actions of a state monad, so that the parsing routines read as the Go
  methods do. The state is the parser and a flag: the routines call each other with a bound on the
  depth, and a call below the bound sets the flag. \<open>ParserTotal\<close> shows that it is never set.
\<close>

section \<open>Actions\<close>

type_synonym 'a pm = "(parser \<times> bool, 'a) state"

definition lift :: "(parser \<Rightarrow> 'a \<times> parser) \<Rightarrow> 'a pm" where
  "lift f = State (\<lambda>(p, b). case f p of (x, p1) \<Rightarrow> (x, (p1, b)))"

definition stuck :: "'a \<Rightarrow> 'a pm" where
  "stuck d = State (\<lambda>(p, b). (d, (p, True)))"

abbreviation ret :: "'a \<Rightarrow> 'a pm" where "ret \<equiv> State_Monad.return"

definition adv :: "token pm" where "adv = lift p_advance"
definition sees :: "token_type \<Rightarrow> bool pm" where "sees tt = lift (check tt)"
definition accept :: "token_type list \<Rightarrow> bool pm" where "accept tts = lift (match_types tts)"
definition must :: "token_type \<Rightarrow> string \<Rightarrow> token pm" where "must tt m = lift (consume tt m)"
definition peek_tok :: "token pm" where "peek_tok = lift peekToken"
definition peek_next :: "token pm" where "peek_next = lift peekNextToken"
definition peek_at :: "nat \<Rightarrow> token pm" where "peek_at i = lift (peekAt i)"
definition at_end :: "bool pm" where "at_end = lift p_isAtEnd"
definition prev_tok :: "token pm" where "prev_tok = lift (\<lambda>p. (previousToken p, p))"
definition report :: "token \<Rightarrow> string \<Rightarrow> unit pm" where "report t m = lift (\<lambda>p. ((), p_error t m p))"
definition newlines :: "unit pm" where "newlines = lift (\<lambda>p. ((), skipNewlines p))"
definition type_annotation :: "TypeAnnotation pm" where "type_annotation = lift parseTypeAnnotation"
definition identifier_follower :: "bool pm" where "identifier_follower = lift isIdentifierFollower"
definition drain :: "Directive list pm" where "drain = lift drainDirectives"

text \<open>The parser itself, for the routines that read \<^verbatim>\<open>p.tokens\<close> and \<^verbatim>\<open>p.pos\<close>, and \<^verbatim>\<open>p.pos = i\<close>.\<close>

definition get_parser :: "parser pm" where "get_parser = lift (\<lambda>p. (p, p))"
definition set_pos :: "nat \<Rightarrow> unit pm" where "set_pos i = lift (\<lambda>p. ((), p\<lparr>pos := i\<rparr>))"

text \<open>An \<^verbatim>\<open>if\<close> without an \<^verbatim>\<open>else\<close>\<close>

abbreviation only_if :: "bool \<Rightarrow> unit pm \<Rightarrow> unit pm" where
  "only_if b m \<equiv> (if b then m else ret ())"

text \<open>Several checks in a row, \<^verbatim>\<open>p.check(a) || p.check(b)\<close>: the first that succeeds ends them.\<close>

fun sees_any :: "token_type list \<Rightarrow> bool pm" where
  "sees_any [] = ret False"
| "sees_any (tt # tts) = do { b \<leftarrow> sees tt; if b then ret True else sees_any tts }"

text \<open>\<^verbatim>\<open>p.error(p.peekToken(), message)\<close>\<close>

definition report_here :: "string \<Rightarrow> unit pm" where
  "report_here m = do { t \<leftarrow> peek_tok; report t m }"

text \<open>Messages are written with back quotes for the single quotes of the source.\<close>

definition msg :: "string \<Rightarrow> string" where
  "msg s = map (\<lambda>c. if c = CHR 0x60 then CHR 0x27 else c) s"

section \<open>Loops\<close>

text \<open>A loop: its body says whether to go on. The bound is the number of tokens ahead and one more.\<close>

fun ploop_n :: "nat \<Rightarrow> ('s \<Rightarrow> (bool \<times> 's) pm) \<Rightarrow> 's \<Rightarrow> 's pm" where
  "ploop_n 0 body s = stuck s"
| "ploop_n (Suc n) body s = do { r \<leftarrow> body s; if fst r then ploop_n n body (snd r) else ret (snd r) }"

definition ploop :: "('s \<Rightarrow> (bool \<times> 's) pm) \<Rightarrow> 's \<Rightarrow> 's pm" where
  "ploop body s = State (\<lambda>(p, b). run_state (ploop_n (Suc (length (ahead p))) body s) (p, b))"

text \<open>The shapes of loops that occur again and again: \<^verbatim>\<open>for { item; if !p.match(COMMA) { break } }\<close>, the
  same with \<^verbatim>\<open>if p.check(close) { break }\<close> after the comma, \<^verbatim>\<open>for p.match(ops...) { item }\<close>, and
  \<^verbatim>\<open>for !p.check(close) && !p.isAtEnd() { skip(); if p.check(close) { break }; item }\<close>.\<close>

definition comma_list :: "('s \<Rightarrow> 's pm) \<Rightarrow> 's \<Rightarrow> 's pm" where
  "comma_list item = ploop (\<lambda>s. do { s \<leftarrow> item s; b \<leftarrow> accept [TOKEN_COMMA]; ret (b, s) })"

definition comma_list_until :: "token_type \<Rightarrow> ('s \<Rightarrow> 's pm) \<Rightarrow> 's \<Rightarrow> 's pm" where
  "comma_list_until close item =
     ploop (\<lambda>s. do {
         s \<leftarrow> item s;
         b \<leftarrow> accept [TOKEN_COMMA];
         if b then do { c \<leftarrow> sees close; ret (\<not> c, s) } else ret (False, s)
       })"

definition while_accept :: "token_type list \<Rightarrow> ('s \<Rightarrow> 's pm) \<Rightarrow> 's \<Rightarrow> 's pm" where
  "while_accept tts item =
     ploop (\<lambda>s. do { b \<leftarrow> accept tts; if b then do { s \<leftarrow> item s; ret (True, s) } else ret (False, s) })"

definition until_close :: "token_type \<Rightarrow> unit pm \<Rightarrow> ('s \<Rightarrow> 's pm) \<Rightarrow> 's \<Rightarrow> 's pm" where
  "until_close close gap item =
     ploop (\<lambda>s. do {
         d \<leftarrow> sees close;
         if d then ret (False, s) else do {
           e \<leftarrow> at_end;
           if e then ret (False, s) else do {
             gap;
             d \<leftarrow> sees close;
             if d then ret (False, s) else do { s \<leftarrow> item s; ret (True, s) }
           }
         }
       })"

abbreviation indented_loop :: "('s \<Rightarrow> 's pm) \<Rightarrow> 's \<Rightarrow> 's pm" where
  "indented_loop \<equiv> until_close TOKEN_DEDENT newlines"

text \<open>\<^verbatim>\<open>xs = append(xs, item)\<close>\<close>

definition append_item :: "'a pm \<Rightarrow> 'a list \<Rightarrow> 'a list pm" where
  "append_item item xs = do { x \<leftarrow> item; ret (xs @ [x]) }"

text \<open>\<^verbatim>\<open>save := p.pos; ...; p.pos = save\<close>: when the first attempt has no result, the second starts
  where the first did.\<close>

definition or_back :: "'a option pm \<Rightarrow> 'a pm \<Rightarrow> 'a pm" where
  "or_back first second =
     do { p0 \<leftarrow> get_parser; r \<leftarrow> first;
          case r of Some x \<Rightarrow> ret x | None \<Rightarrow> do { set_pos (pos p0); second } }"

text \<open>\<^verbatim>\<open>prev := p.allowInlineOnErr; p.allowInlineOnErr = b; defer func() { p.allowInlineOnErr = prev }()\<close>\<close>

definition with_inline_onerr :: "bool \<Rightarrow> 'a pm \<Rightarrow> 'a pm" where
  "with_inline_onerr a m =
     do { p0 \<leftarrow> get_parser; lift (\<lambda>p. ((), p\<lparr>allowInlineOnErr := a\<rparr>)); x \<leftarrow> m;
          lift (\<lambda>p. ((), p\<lparr>allowInlineOnErr := allowInlineOnErr p0\<rparr>)); ret x }"

end
