(* ===== verification/ExprParser.thy ===== *)
theory ExprParser
  imports ParserMonad Numbers
begin

text \<open>
  \<^verbatim>\<open>internal/parser/parser_expr.go\<close>, and of \<^verbatim>\<open>parser_decl.go\<close> and \<^verbatim>\<open>parser_stmt.go\<close> the routines
  expressions need: parameters, call arguments, the bodies of piped switches. A routine that is called
  again after a token has been consumed is a field of \<open>parsers\<close>, and every method that reaches one
  takes the record as its argument; \<open>parsers_at\<close> in \<open>DeclParser\<close> ties the knot. \<^verbatim>\<open>parseTypeAnnotation\<close>
  is \<open>type_annotation\<close>.
\<close>

record parsers =
  rExpr :: "Expression pm"
  rUnary :: "Expression pm"
  rIfExpr :: "Expression pm"
  rBlock :: "BlockStmt pm"
  rStmt :: "Statement pm"
  rIfStmt :: "Statement pm"

text \<open>The comparisons with nil.\<close>

definition nil_expr :: "Expression \<Rightarrow> bool" where
  "nil_expr x \<longleftrightarrow> (case x of NilExpr \<Rightarrow> True | _ \<Rightarrow> False)"

definition nil_stmt :: "Statement \<Rightarrow> bool" where
  "nil_stmt s \<longleftrightarrow> (case s of NilStmt \<Rightarrow> True | _ \<Rightarrow> False)"

definition nil_type :: "TypeAnnotation \<Rightarrow> bool" where
  "nil_type t \<longleftrightarrow> (case t of NilType \<Rightarrow> True | _ \<Rightarrow> False)"

lemma nil_iff: "nil_expr x \<longleftrightarrow> x = NilExpr" "nil_stmt s \<longleftrightarrow> s = NilStmt" "nil_type t \<longleftrightarrow> t = NilType"
  by (simp_all add: nil_expr_def nil_stmt_def nil_type_def
      split: Expression.split Statement.split TypeAnnotation.split)

section \<open>Identifiers and literals\<close>

definition isIdentifierToken :: "token_type \<Rightarrow> bool" where
  "isIdentifierToken tt \<longleftrightarrow> tt \<in> set
     [TOKEN_IDENTIFIER, TOKEN_EMPTY, TOKEN_ERROR, TOKEN_CLOSE, TOKEN_MAKE, TOKEN_SEND, TOKEN_RECEIVE,
      TOKEN_PANIC, TOKEN_RECOVER, TOKEN_MAP, TOKEN_LIST, TOKEN_CHANNEL, TOKEN_SELECT, TOKEN_TYPE,
      TOKEN_SKILL, TOKEN_ENUM, TOKEN_ON, TOKEN_OF, TOKEN_AS, TOKEN_FROM, TOKEN_TO, TOKEN_IN,
      TOKEN_DEFAULT, TOKEN_DISCARD, TOKEN_MANY]"

definition parseIdentifier :: "Identifier pm" where
  "parseIdentifier =
     do { t \<leftarrow> adv;
          if \<not> isIdentifierToken (Type t) then
            do { report t ''expected identifier''; ret (Identifier t ''_'') }
          else ret (Identifier t (Lexeme t)) }"

definition parseIntegerLiteral :: "Expression pm" where
  "parseIntegerLiteral =
     do { t \<leftarrow> adv;
          case ParseInt (Lexeme t) of
            Inl e \<Rightarrow>
              do { report t (''could not parse integer: '' @ numErrorString ''ParseInt'' (Lexeme t) e);
                   ret (IntegerLiteral t 0) }
          | Inr v \<Rightarrow> ret (IntegerLiteral t v) }"

definition parseFloatLiteral :: "Expression pm" where
  "parseFloatLiteral =
     do { t \<leftarrow> adv;
          case ParseFloat_error (Lexeme t) of
            Some e \<Rightarrow>
              do { report t (''could not parse float: '' @ numErrorString ''ParseFloat'' (Lexeme t) e);
                   ret (FloatLiteral t ''0'') }
          | None \<Rightarrow> ret (FloatLiteral t (Lexeme t)) }"

definition parseStringLiteral :: "Expression pm" where
  "parseStringLiteral = do { t \<leftarrow> adv; ret (StringExpr t (Lexeme t) False False []) }"

definition parseRawStringLiteral :: "Expression pm" where
  "parseRawStringLiteral = do { t \<leftarrow> adv; ret (StringExpr t (Lexeme t) False True []) }"

definition parseBooleanLiteral :: "Expression pm" where
  "parseBooleanLiteral = do { t \<leftarrow> adv; ret (BooleanLiteral t (Type t = TOKEN_TRUE)) }"

text \<open>A literal part is added unless it is empty.\<close>

definition literal_part :: "string \<Rightarrow> StringInterpolation list" where
  "literal_part s = (if s \<noteq> [] then [(True, s, NilExpr)] else [])"

text \<open>The text of the tokens from one position to another, as \<^verbatim>\<open>Value\<close> shows an interpolated expression.\<close>

definition source_text :: "token list \<Rightarrow> nat \<Rightarrow> nat \<Rightarrow> string" where
  "source_text ts from until =
     ''{'' @ concat (map (\<lambda>i. (if i > from then '' '' else []) @ Lexeme (ts ! i)) [from..<until]) @ ''}''"

definition interpolation_step ::
  "parsers \<Rightarrow> string \<times> StringInterpolation list \<Rightarrow> (bool \<times> string \<times> StringInterpolation list) pm" where
  "interpolation_step R s =
     do { e \<leftarrow> at_end;
          if e then ret (False, s) else do {
            p0 \<leftarrow> get_parser;
            x \<leftarrow> rExpr R;
            p1 \<leftarrow> get_parser;
            let text1 = fst s @ source_text (ptokens p1) (pos p0) (pos p1);
            let parts1 = snd s @ [(False, [], x)];
            next \<leftarrow> peek_tok;
            if Type next = TOKEN_STRING_MID then do {
              t \<leftarrow> adv; ret (True, text1 @ Lexeme t, parts1 @ literal_part (Lexeme t)) }
            else if Type next = TOKEN_STRING_TAIL then do {
              t \<leftarrow> adv; ret (False, text1 @ Lexeme t, parts1 @ literal_part (Lexeme t)) }
            else do {
              report next (''expected string continuation or end after interpolation, got '' @
                tokenTypeString (Type next));
              ret (False, text1, parts1) } } }"

definition parseInterpolatedStringLiteral :: "parsers \<Rightarrow> Expression pm" where
  "parseInterpolatedStringLiteral R =
     do { head \<leftarrow> adv;
          s \<leftarrow> ploop (interpolation_step R) (Lexeme head, literal_part (Lexeme head));
          ret (StringExpr head (fst s) True False (snd s)) }"

section \<open>Arguments, parameters, elements of literals\<close>

definition parseExpressionList :: "parsers \<Rightarrow> Expression list pm" where
  "parseExpressionList R =
     do { x \<leftarrow> rExpr R; while_accept [TOKEN_COMMA] (append_item (rExpr R)) [x] }"

type_synonym arguments = "Expression list \<times> NamedArgument list \<times> bool"

definition call_argument :: "parsers \<Rightarrow> arguments \<Rightarrow> arguments pm" where
  "call_argument R a =
     do { let (args, named, variadic) = a;
          many \<leftarrow> accept [TOKEN_MANY];
          let variadic = variadic \<or> many;
          ident \<leftarrow> sees TOKEN_IDENTIFIER;
          colon \<leftarrow> (if ident then do { t \<leftarrow> peek_next; ret (Type t = TOKEN_COLON) } else ret False);
          if colon then do {
            name \<leftarrow> adv;
            _ \<leftarrow> adv;
            value \<leftarrow> rExpr R;
            ret (args, named @ [(name, Identifier name (Lexeme name), value)], variadic) }
          else do {
            only_if (named \<noteq> []) (report_here ''positional argument cannot follow named argument'');
            x \<leftarrow> rExpr R;
            ret (args @ [x], named, variadic) } }"

definition parseCallArguments :: "parsers \<Rightarrow> arguments pm" where
  "parseCallArguments R =
     do { b \<leftarrow> sees TOKEN_RPAREN;
          if b then ret ([], [], False)
          else comma_list_until TOKEN_RPAREN (call_argument R) ([], [], False) }"

definition parameter :: "parsers \<Rightarrow> Parameter list \<times> bool \<Rightarrow> (Parameter list \<times> bool) pm" where
  "parameter R s =
     do { let (params, hasDefault) = s;
          variadic \<leftarrow> sees TOKEN_MANY;
          only_if variadic (do { _ \<leftarrow> adv; ret () });
          name \<leftarrow> parseIdentifier;
          untyped \<leftarrow> sees_any [TOKEN_COMMA, TOKEN_RPAREN, TOKEN_ASSIGN];
          t \<leftarrow> (if untyped then ret NilType else type_annotation);
          t \<leftarrow> (if variadic \<and> nil_type t then do { k \<leftarrow> peek_tok; ret (NamedType k ''interface{}'') } else ret t);
          b \<leftarrow> accept [TOKEN_ASSIGN];
          (default, hasDefault) \<leftarrow>
            (if b then do { x \<leftarrow> rExpr R; ret (x, True) }
             else if hasDefault then do {
               report (identToken name) (msg (''parameter `'' @ identValue name @
                 ''` must have a default value (parameters with defaults must be contiguous at the end)''));
               ret (NilExpr, True) }
             else ret (NilExpr, False));
          only_if (variadic \<and> \<not> nil_expr default)
            (report (identToken name) (msg (''variadic parameter `'' @ identValue name @
              ''` cannot have a default value'')));
          ret (params @ [(name, t, variadic, default)], hasDefault) }"

definition parseParameters :: "parsers \<Rightarrow> Parameter list pm" where
  "parseParameters R =
     do { b \<leftarrow> sees TOKEN_RPAREN;
          if b then ret []
          else do { s \<leftarrow> comma_list (parameter R) ([], False); ret (fst s) } }"

definition parseReturnTypes :: "TypeAnnotation list pm" where
  "parseReturnTypes =
     do { b \<leftarrow> sees TOKEN_LPAREN;
          if b then do {
            _ \<leftarrow> adv;
            rs \<leftarrow> comma_list (append_item type_annotation) [];
            _ \<leftarrow> must TOKEN_RPAREN (msg ''expected `)` after return types'');
            ret rs }
          else do { t \<leftarrow> type_annotation; ret [t] } }"

text \<open>The fields of a braced struct literal, the pairs of a map and the elements of a list.\<close>

definition field_value :: "parsers \<Rightarrow> FieldValue pm" where
  "field_value R =
     do { name \<leftarrow> parseIdentifier;
          _ \<leftarrow> must TOKEN_COLON (msg ''expected `:` after field name'');
          x \<leftarrow> rExpr R;
          ret (name, x) }"

definition map_pair :: "parsers \<Rightarrow> KeyValuePair pm" where
  "map_pair R =
     do { k \<leftarrow> rExpr R;
          _ \<leftarrow> must TOKEN_COLON (msg ''expected `:` after map key'');
          v \<leftarrow> rExpr R;
          ret (k, v) }"

definition elements_until :: "token_type \<Rightarrow> 'a pm \<Rightarrow> 'a list pm" where
  "elements_until close item =
     do { b \<leftarrow> sees close;
          if b then ret [] else comma_list_until close (append_item item) [] }"

section \<open>Switch bodies\<close>

text \<open>One turn of the loop over the branches; the cases have been parsed when \<^verbatim>\<open>when\<close> has been consumed.\<close>

type_synonym 'c branches = "'c list \<times> OtherwiseCase option"

definition switch_branch :: "parsers \<Rightarrow> string \<Rightarrow> (token \<Rightarrow> 'c pm) \<Rightarrow> 'c branches \<Rightarrow> 'c branches pm" where
  "switch_branch R kind branch s =
     do { b \<leftarrow> accept [TOKEN_CASE];
          if b then do {
            t \<leftarrow> prev_tok;
            only_if (snd s \<noteq> None) (report t (msg ''`when` branch after `otherwise` will never execute''));
            c \<leftarrow> branch t;
            ret (fst s @ [c], snd s) }
          else do {
            d \<leftarrow> accept [TOKEN_DEFAULT];
            if d then do {
              t \<leftarrow> prev_tok;
              only_if (snd s \<noteq> None) (report t (kind @ '' can only have one otherwise branch''));
              newlines;
              body \<leftarrow> rBlock R;
              ret (fst s, Some (t, Some body)) }
            else do {
              report_here (msg (''expected `when` or `otherwise` in '' @ kind @ '' block''));
              _ \<leftarrow> adv;
              ret s } } }"

definition switch_branches :: "parsers \<Rightarrow> string \<Rightarrow> (token \<Rightarrow> 'c pm) \<Rightarrow> 'c branches pm" where
  "switch_branches R kind branch =
     do { newlines;
          b \<leftarrow> accept [TOKEN_INDENT];
          if \<not> b then do { report_here (''expected indented block after '' @ kind); ret ([], None) }
          else do {
            s \<leftarrow> indented_loop (switch_branch R kind branch) ([], None);
            _ \<leftarrow> must TOKEN_DEDENT (''expected dedent after '' @ kind @ '' block'');
            newlines;
            ret s } }"

definition when_case :: "parsers \<Rightarrow> token \<Rightarrow> WhenCase pm" where
  "when_case R t =
     do { x \<leftarrow> rExpr R;
          xs \<leftarrow> while_accept [TOKEN_COMMA] (append_item (rExpr R)) [x];
          newlines;
          body \<leftarrow> rBlock R;
          ret (t, xs, Some body) }"

definition type_case :: "parsers \<Rightarrow> token \<Rightarrow> TypeCase pm" where
  "type_case R t =
     do { a \<leftarrow> type_annotation; newlines; body \<leftarrow> rBlock R; ret (t, a, Some body) }"

definition parseSwitchBody :: "parsers \<Rightarrow> token \<Rightarrow> Expression \<Rightarrow> Statement pm" where
  "parseSwitchBody R t x =
     do { s \<leftarrow> switch_branches R ''switch'' (when_case R); ret (SwitchStmt t x (fst s) (snd s)) }"

definition parseTypeSwitchBody :: "parsers \<Rightarrow> token \<Rightarrow> Expression \<Rightarrow> Identifier \<Rightarrow> Statement pm" where
  "parseTypeSwitchBody R t x binding =
     do { s \<leftarrow> switch_branches R ''type switch'' (type_case R);
          ret (TypeSwitchStmt t x (Some binding) (fst s) (snd s)) }"

section \<open>Primary expressions\<close>

definition is_primitive :: "string \<Rightarrow> bool" where
  "is_primitive name \<longleftrightarrow> name \<in> set primitive_names"

definition struct_type :: "Identifier \<Rightarrow> TypeAnnotation" where
  "struct_type i =
     (if is_primitive (identValue i) then PrimitiveType (identToken i) (identValue i)
      else NamedType (identToken i) (identValue i))"

definition indented_field :: "parsers \<Rightarrow> FieldValue list \<Rightarrow> FieldValue list pm" where
  "indented_field R fs =
     do { f \<leftarrow> field_value R;
          b \<leftarrow> sees TOKEN_COMMA;
          only_if b (do { _ \<leftarrow> adv; ret () });
          newlines;
          ret (fs @ [f]) }"

definition parseIdentifierOrStructLiteral :: "parsers \<Rightarrow> Expression pm" where
  "parseIdentifierOrStructLiteral R =
     do { i \<leftarrow> parseIdentifier;
          braced \<leftarrow> sees TOKEN_LBRACE;
          if braced then do {
            _ \<leftarrow> adv;
            fs \<leftarrow> elements_until TOKEN_RBRACE (field_value R);
            close \<leftarrow> must TOKEN_RBRACE (msg ''expected `}` after struct literal'');
            ret (StructLiteralExpr (identToken i) (struct_type i) fs (Line close > Line (identToken i))) }
          else do {
            t0 \<leftarrow> peek_tok;
            t1 \<leftarrow> (if Type t0 = TOKEN_NEWLINE then peek_next else ret t0);
            t2 \<leftarrow> (if Type t0 = TOKEN_NEWLINE \<and> Type t1 = TOKEN_INDENT then peek_at 2 else ret t0);
            t3 \<leftarrow> (if Type t0 = TOKEN_NEWLINE \<and> Type t1 = TOKEN_INDENT \<and> Type t2 = TOKEN_IDENTIFIER
                   then peek_at 3 else ret t0);
            if Type t0 = TOKEN_NEWLINE \<and> Type t1 = TOKEN_INDENT \<and> Type t2 = TOKEN_IDENTIFIER \<and>
               Type t3 = TOKEN_COLON then do {
              _ \<leftarrow> adv;
              _ \<leftarrow> adv;
              fs \<leftarrow> indented_loop (indented_field R) [];
              _ \<leftarrow> must TOKEN_DEDENT ''expected dedent after struct fields'';
              ret (StructLiteralExpr (identToken i) (struct_type i) fs True) }
            else ret (Ident i) } }"

definition parseEmptyExpr :: "Expression pm" where
  "parseEmptyExpr =
     do { t \<leftarrow> adv;
          next \<leftarrow> peek_tok;
          b \<leftarrow> sees_any [TOKEN_NEWLINE, TOKEN_COMMA, TOKEN_RPAREN, TOKEN_AND, TOKEN_OR, TOKEN_NOT_EQUALS,
                 TOKEN_ISNT, TOKEN_DOUBLE_EQUALS, TOKEN_BANG, TOKEN_PIPE];
          e \<leftarrow> (if b then ret True else at_end);
          if \<not> e \<and> Type next \<in> set [TOKEN_IDENTIFIER, TOKEN_MAP, TOKEN_LIST, TOKEN_FUNC, TOKEN_CHANNEL,
               TOKEN_REFERENCE]
          then do { a \<leftarrow> type_annotation; ret (EmptyExpr t a) }
          else ret (EmptyExpr t NilType) }"

definition parseErrorExpr :: "parsers \<Rightarrow> Expression pm" where
  "parseErrorExpr R = do { t \<leftarrow> adv; x \<leftarrow> rExpr R; ret (ErrorExpr t x) }"

definition parseMakeExpr :: "parsers \<Rightarrow> Expression pm" where
  "parseMakeExpr R =
     do { t \<leftarrow> adv;
          _ \<leftarrow> must TOKEN_LPAREN (msg ''expected `(` after `make`'');
          a \<leftarrow> type_annotation;
          b \<leftarrow> accept [TOKEN_COMMA];
          xs \<leftarrow> (if b then comma_list (append_item (rExpr R)) [] else ret []);
          _ \<leftarrow> must TOKEN_RPAREN (msg ''expected `)` after make arguments'');
          ret (MakeExpr t a xs) }"

definition parseCloseExpr :: "parsers \<Rightarrow> Expression pm" where
  "parseCloseExpr R = do { t \<leftarrow> adv; x \<leftarrow> rExpr R; ret (CloseExpr t x) }"

definition parsePanicExpr :: "parsers \<Rightarrow> Expression pm" where
  "parsePanicExpr R = do { t \<leftarrow> adv; x \<leftarrow> rExpr R; ret (PanicExpr t x) }"

definition parseReceiveExpr :: "parsers \<Rightarrow> Expression pm" where
  "parseReceiveExpr R =
     do { t \<leftarrow> adv;
          _ \<leftarrow> must TOKEN_FROM (msg ''expected `from` after `receive`'');
          x \<leftarrow> rExpr R;
          ret (ReceiveExpr t x) }"

definition parseListLiteral :: "parsers \<Rightarrow> Expression pm" where
  "parseListLiteral R =
     do { t \<leftarrow> adv;
          xs \<leftarrow> elements_until TOKEN_RBRACKET (rExpr R);
          close \<leftarrow> must TOKEN_RBRACKET (msg ''expected `]` after list elements'');
          ret (ListLiteralExpr t NilType xs (Line close > Line t)) }"

text \<open>After a list type: the elements in braces, or the typed empty value.\<close>

definition list_body :: "parsers \<Rightarrow> token \<Rightarrow> TypeAnnotation \<Rightarrow> Expression pm" where
  "list_body R t a =
     do { b \<leftarrow> sees TOKEN_LBRACE;
          if \<not> b then ret (EmptyExpr t (ListType t a))
          else do {
            _ \<leftarrow> adv;
            xs \<leftarrow> elements_until TOKEN_RBRACE (rExpr R);
            close \<leftarrow> must TOKEN_RBRACE (msg ''expected `}` after list elements'');
            ret (ListLiteralExpr t a xs (Line close > Line t)) } }"

definition parseTypedListLiteral :: "parsers \<Rightarrow> Expression pm" where
  "parseTypedListLiteral R =
     do { t \<leftarrow> adv;
          _ \<leftarrow> must TOKEN_OF (msg ''expected `of` after `list`'');
          a \<leftarrow> type_annotation;
          list_body R t a }"

definition parseBracketListExpr :: "parsers \<Rightarrow> Expression pm" where
  "parseBracketListExpr R = do { t \<leftarrow> adv; _ \<leftarrow> adv; a \<leftarrow> type_annotation; list_body R t a }"

definition map_body :: "parsers \<Rightarrow> token \<Rightarrow> TypeAnnotation \<Rightarrow> TypeAnnotation \<Rightarrow> Expression pm" where
  "map_body R t key val =
     do { b \<leftarrow> sees TOKEN_LBRACE;
          if \<not> b then ret (EmptyExpr t (MapType t key val))
          else do {
            _ \<leftarrow> adv;
            ps \<leftarrow> elements_until TOKEN_RBRACE (map_pair R);
            close \<leftarrow> must TOKEN_RBRACE (msg ''expected `}` after map literal'');
            ret (MapLiteralExpr t key val ps (Line close > Line t)) } }"

definition parseBracketMapExpr :: "parsers \<Rightarrow> Expression pm" where
  "parseBracketMapExpr R =
     do { t \<leftarrow> adv;
          _ \<leftarrow> adv;
          key \<leftarrow> type_annotation;
          _ \<leftarrow> must TOKEN_RBRACKET (msg ''expected `]` after map key type'');
          val \<leftarrow> type_annotation;
          map_body R t key val }"

definition parseMapLiteral :: "parsers \<Rightarrow> Expression pm" where
  "parseMapLiteral R =
     do { t \<leftarrow> adv;
          _ \<leftarrow> must TOKEN_OF (msg ''expected `of` after `map`'');
          key \<leftarrow> type_annotation;
          _ \<leftarrow> must TOKEN_TO (msg ''expected `to` after key type'');
          val \<leftarrow> type_annotation;
          map_body R t key val }"

text \<open>The entries of an untyped composite literal: whether they are keyed is known after the first.\<close>

definition untyped_entry :: "parsers \<Rightarrow> bool \<Rightarrow> UntypedEntry pm" where
  "untyped_entry R keyed =
     do { x \<leftarrow> rExpr R;
          if keyed then do {
            _ \<leftarrow> must TOKEN_COLON (msg ''expected `:` after key in composite literal'');
            v \<leftarrow> rExpr R;
            ret (x, v) }
          else ret (NilExpr, x) }"

definition untyped_rest :: "parsers \<Rightarrow> bool \<Rightarrow> UntypedEntry list \<Rightarrow> UntypedEntry list pm" where
  "untyped_rest R keyed =
     ploop (\<lambda>es. do {
         b \<leftarrow> accept [TOKEN_COMMA];
         if \<not> b then ret (False, es) else do {
           c \<leftarrow> sees TOKEN_RBRACE;
           if c then ret (False, es) else do { e \<leftarrow> untyped_entry R keyed; ret (True, es @ [e]) } } })"

definition parseUntypedCompositeLiteral :: "parsers \<Rightarrow> Expression pm" where
  "parseUntypedCompositeLiteral R =
     do { t \<leftarrow> adv;
          empty \<leftarrow> sees TOKEN_RBRACE;
          (keyed, es) \<leftarrow>
            (if empty then ret (False, [])
             else do {
               x \<leftarrow> rExpr R;
               keyed \<leftarrow> sees TOKEN_COLON;
               first \<leftarrow> (if keyed then do { _ \<leftarrow> adv; v \<leftarrow> rExpr R; ret (x, v) } else ret (NilExpr, x));
               es \<leftarrow> untyped_rest R keyed [first];
               ret (keyed, es) });
          close \<leftarrow> must TOKEN_RBRACE (msg ''expected `}` after composite literal'');
          ret (UntypedCompositeLiteral t keyed es (Line close > Line t) NilType) }"

definition parseGroupedExpression :: "parsers \<Rightarrow> Expression pm" where
  "parseGroupedExpression R =
     do { _ \<leftarrow> adv;
          x \<leftarrow> rExpr R;
          _ \<leftarrow> must TOKEN_RPAREN (msg ''expected `)` after expression'');
          ret x }"

definition parseFunctionLiteral :: "parsers \<Rightarrow> Expression pm" where
  "parseFunctionLiteral R =
     do { t \<leftarrow> adv;
          _ \<leftarrow> must TOKEN_LPAREN (msg ''expected `(` after `func`'');
          ps \<leftarrow> parseParameters R;
          _ \<leftarrow> must TOKEN_RPAREN (msg ''expected `)` after parameters'');
          b \<leftarrow> sees_any [TOKEN_NEWLINE, TOKEN_INDENT];
          rs \<leftarrow> (if b then ret [] else parseReturnTypes);
          newlines;
          body \<leftarrow> rBlock R;
          ret (FunctionLiteral t ps rs (Some body)) }"

text \<open>\<^verbatim>\<open>isArrowLambda\<close> looks for the parenthesis that closes the first one, and for \<open>=>\<close> after it.\<close>

fun arrow_ahead :: "int \<Rightarrow> token list \<Rightarrow> bool" where
  "arrow_ahead depth [] \<longleftrightarrow> False"
| "arrow_ahead depth (t # ts) \<longleftrightarrow>
     (if Type t = TOKEN_LPAREN then arrow_ahead (depth + 1) ts
      else if Type t = TOKEN_RPAREN then
        (if depth - 1 = 0 then
           (case dropWhile (has_type TOKEN_COMMENT) ts of [] \<Rightarrow> False | u # _ \<Rightarrow> Type u = TOKEN_FAT_ARROW)
         else arrow_ahead (depth - 1) ts)
      else if Type t \<in> set [TOKEN_NEWLINE, TOKEN_EOF, TOKEN_INDENT, TOKEN_DEDENT] then False
      else arrow_ahead depth ts)"

definition isArrowLambda :: "bool pm" where
  "isArrowLambda = do { p \<leftarrow> get_parser; ret (arrow_ahead 0 (ahead p)) }"

definition arrow_parameter :: "parsers \<Rightarrow> Parameter pm" where
  "arrow_parameter R =
     do { name \<leftarrow> parseIdentifier;
          untyped \<leftarrow> sees_any [TOKEN_COMMA, TOKEN_RPAREN, TOKEN_ASSIGN];
          t \<leftarrow> (if untyped then ret NilType else type_annotation);
          b \<leftarrow> accept [TOKEN_ASSIGN];
          default \<leftarrow> (if b then rExpr R else ret NilExpr);
          ret (name, t, False, default) }"

definition parseArrowLambdaParams :: "parsers \<Rightarrow> Parameter list pm" where
  "parseArrowLambdaParams R = comma_list (append_item (arrow_parameter R)) []"

definition arrow_head :: "parsers \<Rightarrow> Parameter list pm" where
  "arrow_head R =
     do { ident \<leftarrow> sees TOKEN_IDENTIFIER;
          arrow \<leftarrow> (if ident then do { t \<leftarrow> peek_next; ret (Type t = TOKEN_FAT_ARROW) } else ret False);
          if arrow then do { t \<leftarrow> adv; ret [(Identifier t (Lexeme t), NilType, False, NilExpr)] }
          else do {
            b \<leftarrow> sees TOKEN_LPAREN;
            if b then do {
              _ \<leftarrow> adv;
              e \<leftarrow> sees TOKEN_RPAREN;
              ps \<leftarrow> (if e then ret [] else parseArrowLambdaParams R);
              _ \<leftarrow> must TOKEN_RPAREN (msg ''expected `)` after arrow lambda parameters'');
              ret ps }
            else ret [] } }"

definition parseArrowLambda :: "parsers \<Rightarrow> Expression pm" where
  "parseArrowLambda R =
     do { ps \<leftarrow> arrow_head R;
          t \<leftarrow> must TOKEN_FAT_ARROW (msg ''expected `=>` in arrow lambda'');
          b \<leftarrow> sees_any [TOKEN_NEWLINE, TOKEN_INDENT];
          block \<leftarrow> (if b then do { newlines; sees TOKEN_INDENT } else ret False);
          if block then do { body \<leftarrow> rBlock R; ret (ArrowLambda t ps NilExpr (Some body)) }
          else do { x \<leftarrow> rExpr R; ret (ArrowLambda t ps x None) } }"

definition parseReturnExpr :: "parsers \<Rightarrow> Expression pm" where
  "parseReturnExpr R =
     do { t \<leftarrow> adv;
          b \<leftarrow> sees_any [TOKEN_NEWLINE, TOKEN_DEDENT, TOKEN_SEMICOLON];
          e \<leftarrow> (if b then ret True else at_end);
          xs \<leftarrow> (if e then ret [] else comma_list (append_item (rExpr R)) []);
          ret (ReturnExpr t xs) }"

definition parseShorthandMethodCall :: "parsers \<Rightarrow> Expression pm" where
  "parseShorthandMethodCall R =
     do { t \<leftarrow> adv;
          name \<leftarrow> parseIdentifier;
          b \<leftarrow> accept [TOKEN_LPAREN];
          if \<not> b then ret (FieldAccessExpr t NilExpr name)
          else do {
            e \<leftarrow> sees TOKEN_RPAREN;
            xs \<leftarrow> (if e then ret [] else parseExpressionList R);
            _ \<leftarrow> must TOKEN_RPAREN (msg ''expected `)` after method arguments'');
            ret (MethodCallExpr t NilExpr name xs [] False) } }"

definition parseIfExpression :: "parsers \<Rightarrow> Expression pm" where
  "parseIfExpression R =
     do { t \<leftarrow> adv;
          c \<leftarrow> rExpr R;
          b \<leftarrow> accept [TOKEN_THEN];
          if \<not> b then do {
            report_here (msg ''expected `then` in if-expression'');
            ret (Ident (Identifier t ''nil'')) }
          else do {
            x \<leftarrow> rExpr R;
            b \<leftarrow> accept [TOKEN_ELSE];
            if \<not> b then do {
              report_here (msg ''if-expression requires `else` branch'');
              ret (Ident (Identifier t ''nil'')) }
            else do {
              chained \<leftarrow> sees TOKEN_IF;
              y \<leftarrow> (if chained then rIfExpr R else rExpr R);
              ret (IfExpression t c x y) } } }"

definition ident_of :: "token \<Rightarrow> Expression" where
  "ident_of t = Ident (Identifier t (Lexeme t))"

text \<open>The tokens after \<^verbatim>\<open>empty\<close> that show that it is a name.\<close>

definition empty_follower :: "token_type \<Rightarrow> bool" where
  "empty_follower tt \<longleftrightarrow> tt \<in> set
     [TOKEN_WALRUS, TOKEN_ASSIGN, TOKEN_BIT_AND, TOKEN_BIT_AND_ASSIGN, TOKEN_DOT, TOKEN_LBRACKET,
      TOKEN_COLON, TOKEN_PIPE, TOKEN_RPAREN, TOKEN_COMMA, TOKEN_STRING_MID, TOKEN_STRING_TAIL]"

definition name_literal :: "Expression pm" where
  "name_literal = do { t \<leftarrow> adv; ret (ident_of t) }"

definition recover_expr :: "Expression pm" where
  "recover_expr =
     do { t \<leftarrow> adv;
          b \<leftarrow> sees TOKEN_LPAREN;
          only_if b (do { _ \<leftarrow> adv; _ \<leftarrow> must TOKEN_RPAREN (msg ''expected `)` after `recover(`''); ret () });
          ret (RecoverExpr t) }"

definition parsePrimaryExpr :: "parsers \<Rightarrow> Expression pm" where
  "parsePrimaryExpr R =
     do { t \<leftarrow> peek_tok;
          let tt = Type t;
          if tt = TOKEN_INTEGER then parseIntegerLiteral
          else if tt = TOKEN_FLOAT then parseFloatLiteral
          else if tt = TOKEN_STRING then parseStringLiteral
          else if tt = TOKEN_STRING_RAW then parseRawStringLiteral
          else if tt = TOKEN_STRING_HEAD then parseInterpolatedStringLiteral R
          else if tt = TOKEN_TRUE \<or> tt = TOKEN_FALSE then parseBooleanLiteral
          else if tt = TOKEN_IDENTIFIER then do {
            next \<leftarrow> peek_next;
            if Type next = TOKEN_FAT_ARROW then parseArrowLambda R else parseIdentifierOrStructLiteral R }
          else if tt = TOKEN_EMPTY then do {
            next \<leftarrow> peek_next;
            if empty_follower (Type next) then name_literal else parseEmptyExpr }
          else if tt = TOKEN_DISCARD then do { t \<leftarrow> adv; ret (DiscardExpr t) }
          else if tt = TOKEN_ERROR then do {
            f \<leftarrow> identifier_follower;
            b \<leftarrow> (if f then ret True else sees_any [TOKEN_RPAREN, TOKEN_COMMA, TOKEN_COLON]);
            if b then name_literal else parseErrorExpr R }
          else if tt = TOKEN_IF then parseIfExpression R
          else if tt = TOKEN_MAKE then parseMakeExpr R
          else if tt = TOKEN_CLOSE then parseCloseExpr R
          else if tt = TOKEN_PANIC then parsePanicExpr R
          else if tt = TOKEN_RECOVER then recover_expr
          else if tt = TOKEN_RECEIVE then parseReceiveExpr R
          else if tt = TOKEN_LIST then do {
            next \<leftarrow> peek_next;
            if Type next = TOKEN_OF then parseTypedListLiteral R else name_literal }
          else if tt = TOKEN_MAP then do {
            next \<leftarrow> peek_next;
            if Type next = TOKEN_OF then parseMapLiteral R
            else if Type next = TOKEN_LBRACKET then parseBracketMapExpr R
            else name_literal }
          else if tt = TOKEN_LBRACKET then do {
            next \<leftarrow> peek_next;
            if Type next = TOKEN_RBRACKET then parseBracketListExpr R else parseListLiteral R }
          else if tt = TOKEN_LPAREN then do {
            b \<leftarrow> isArrowLambda;
            if b then parseArrowLambda R else parseGroupedExpression R }
          else if tt = TOKEN_FUNC then parseFunctionLiteral R
          else if tt = TOKEN_LBRACE then parseUntypedCompositeLiteral R
          else if tt = TOKEN_DOT then parseShorthandMethodCall R
          else if tt = TOKEN_RETURN then parseReturnExpr R
          else do {
            report t (''unexpected token in expression: '' @ tokenTypeString tt);
            _ \<leftarrow> adv;
            ret (Ident (Identifier t ''_'')) } }"

section \<open>Postfix and unary expressions\<close>

definition parse_call :: "parsers \<Rightarrow> arguments pm" where
  "parse_call R =
     do { a \<leftarrow> parseCallArguments R;
          _ \<leftarrow> must TOKEN_RPAREN (msg ''expected `)` after arguments'');
          ret a }"

text \<open>What follows \<^verbatim>\<open>pkg.Type\<close> in braces.\<close>

definition qualified_literal :: "parsers \<Rightarrow> Identifier \<Rightarrow> Identifier \<Rightarrow> Expression pm" where
  "qualified_literal R pkg name =
     do { open \<leftarrow> adv;
          fs \<leftarrow> elements_until TOKEN_RBRACE (field_value R);
          close \<leftarrow> must TOKEN_RBRACE (msg ''expected `}` after struct literal'');
          ret (StructLiteralExpr (identToken pkg)
            (NamedType (identToken pkg) (identValue pkg @ ''.'' @ identValue name)) fs (Line close > Line open)) }"

definition after_dot :: "parsers \<Rightarrow> Expression \<Rightarrow> Expression pm" where
  "after_dot R x =
     do { dot \<leftarrow> prev_tok;
          assertion \<leftarrow> sees TOKEN_LPAREN;
          if assertion then do {
            _ \<leftarrow> adv;
            a \<leftarrow> type_annotation;
            _ \<leftarrow> must TOKEN_RPAREN (msg ''expected `)` after type assertion'');
            ret (TypeAssertionExpr dot x a) }
          else do {
            name \<leftarrow> parseIdentifier;
            call \<leftarrow> sees TOKEN_LPAREN;
            if call then do {
              _ \<leftarrow> adv;
              a \<leftarrow> parse_call R;
              let (args, named, variadic) = a;
              ret (MethodCallExpr dot x name args named variadic) }
            else do {
              brace \<leftarrow> sees TOKEN_LBRACE;
              if brace then
                (case x of
                   Ident pkg \<Rightarrow> qualified_literal R pkg name
                 | _ \<Rightarrow> ret (FieldAccessExpr dot x name))
              else ret (FieldAccessExpr dot x name) } } }"

definition after_bracket :: "parsers \<Rightarrow> Expression \<Rightarrow> Expression pm" where
  "after_bracket R x =
     do { colon \<leftarrow> sees TOKEN_COLON;
          if colon then do {
            _ \<leftarrow> adv;
            high \<leftarrow> rExpr R;
            _ \<leftarrow> must TOKEN_RBRACKET (msg ''expected `]` after slice'');
            t \<leftarrow> prev_tok;
            ret (SliceExpr t x NilExpr high) }
          else do {
            first \<leftarrow> rExpr R;
            slice \<leftarrow> accept [TOKEN_COLON];
            if slice then do {
              close \<leftarrow> sees TOKEN_RBRACKET;
              high \<leftarrow> (if close then ret NilExpr else rExpr R);
              _ \<leftarrow> must TOKEN_RBRACKET (msg ''expected `]` after slice'');
              t \<leftarrow> prev_tok;
              ret (SliceExpr t x first high) }
            else do {
              _ \<leftarrow> must TOKEN_RBRACKET (msg ''expected `]` after index'');
              t \<leftarrow> prev_tok;
              ret (IndexExpr t x first) } } }"

definition postfix_step :: "parsers \<Rightarrow> Expression \<Rightarrow> (bool \<times> Expression) pm" where
  "postfix_step R x =
     do { call \<leftarrow> accept [TOKEN_LPAREN];
          if call then do {
            a \<leftarrow> parse_call R;
            t \<leftarrow> prev_tok;
            let (args, named, variadic) = a;
            ret (True, CallExpr t x args named variadic) }
          else do {
            dot \<leftarrow> accept [TOKEN_DOT];
            if dot then do { y \<leftarrow> after_dot R x; ret (True, y) }
            else do {
              bracket \<leftarrow> accept [TOKEN_LBRACKET];
              if bracket then do { y \<leftarrow> after_bracket R x; ret (True, y) }
              else do {
                cast \<leftarrow> accept [TOKEN_AS];
                if cast then do { t \<leftarrow> prev_tok; a \<leftarrow> type_annotation; ret (True, TypeCastExpr t x a) }
                else ret (False, x) } } } }"

definition parsePostfixExpr :: "parsers \<Rightarrow> Expression pm" where
  "parsePostfixExpr R = do { x \<leftarrow> parsePrimaryExpr R; ploop (postfix_step R) x }"

text \<open>\<^verbatim>\<open>reference of x\<close>; without \<^verbatim>\<open>of\<close> the parser goes back to before \<^verbatim>\<open>reference\<close>.\<close>

definition reference_of :: "parsers \<Rightarrow> Expression option pm" where
  "reference_of R =
     do { p0 \<leftarrow> get_parser;
          b \<leftarrow> accept [TOKEN_REFERENCE];
          if \<not> b then ret None
          else do {
            t \<leftarrow> prev_tok;
            c \<leftarrow> accept [TOKEN_OF];
            if c then do { x \<leftarrow> rUnary R; ret (Some (AddressOfExpr t x)) }
            else do { set_pos (pos p0); ret None } } }"

definition parseUnaryExpr :: "parsers \<Rightarrow> Expression pm" where
  "parseUnaryExpr R =
     do { b \<leftarrow> accept [TOKEN_NOT, TOKEN_BANG, TOKEN_MINUS];
          if b then do { t \<leftarrow> prev_tok; x \<leftarrow> rUnary R; ret (UnaryExpr t (Lexeme t) x) }
          else do {
            b \<leftarrow> accept [TOKEN_BIT_AND];
            if b then do { t \<leftarrow> prev_tok; x \<leftarrow> rUnary R; ret (AddressOfExpr t x) }
            else do {
              r \<leftarrow> reference_of R;
              case r of
                Some x \<Rightarrow> ret x
              | None \<Rightarrow> do {
                  b \<leftarrow> accept [TOKEN_DEREFERENCE];
                  if b then do { t \<leftarrow> prev_tok; x \<leftarrow> rUnary R; ret (DerefExpr t x) }
                  else parsePostfixExpr R } } } }"

section \<open>Operators, from the highest precedence to the lowest\<close>

definition binary_rest :: "token_type list \<Rightarrow> Expression pm \<Rightarrow> Expression \<Rightarrow> Expression pm" where
  "binary_rest ops operand =
     while_accept ops (\<lambda>l. do { t \<leftarrow> prev_tok; r \<leftarrow> operand; ret (BinaryExpr t l (Lexeme t) r) })"

definition parseMultiplicativeExpr :: "parsers \<Rightarrow> Expression pm" where
  "parseMultiplicativeExpr R =
     do { x \<leftarrow> parseUnaryExpr R;
          binary_rest [TOKEN_STAR, TOKEN_SLASH, TOKEN_PERCENT] (parseUnaryExpr R) x }"

definition parseAdditiveExpr :: "parsers \<Rightarrow> Expression pm" where
  "parseAdditiveExpr R =
     do { x \<leftarrow> parseMultiplicativeExpr R;
          binary_rest [TOKEN_PLUS, TOKEN_MINUS] (parseMultiplicativeExpr R) x }"

text \<open>A comparison operator: one token, or \<^verbatim>\<open>not equals\<close> and \<^verbatim>\<open>not in\<close>, which are two.\<close>

definition two_words :: "token_type \<Rightarrow> string \<Rightarrow> token option pm" where
  "two_words tt name =
     do { b \<leftarrow> sees TOKEN_NOT;
          c \<leftarrow> (if b then do { t \<leftarrow> peek_next; ret (Type t = tt) } else ret False);
          if c then do { t \<leftarrow> adv; _ \<leftarrow> adv; ret (Some (t\<lparr>Lexeme := name\<rparr>)) } else ret None }"

definition comparison_operator :: "token option pm" where
  "comparison_operator =
     do { b \<leftarrow> accept [TOKEN_DOUBLE_EQUALS, TOKEN_NOT_EQUALS, TOKEN_LT, TOKEN_GT, TOKEN_LTE, TOKEN_GTE,
                 TOKEN_EQUALS, TOKEN_ISNT];
          if b then do { t \<leftarrow> prev_tok; ret (Some t) }
          else do {
            r \<leftarrow> two_words TOKEN_EQUALS ''not equals'';
            case r of
              Some t \<Rightarrow> ret (Some t)
            | None \<Rightarrow> do {
                b \<leftarrow> accept [TOKEN_IN];
                if b then do { t \<leftarrow> prev_tok; ret (Some t) }
                else two_words TOKEN_IN ''not in'' } } }"

definition comparison_step :: "parsers \<Rightarrow> Expression \<Rightarrow> (bool \<times> Expression) pm" where
  "comparison_step R l =
     do { op \<leftarrow> comparison_operator;
          case op of
            Some t \<Rightarrow> do { r \<leftarrow> parseAdditiveExpr R; ret (True, BinaryExpr t l (Lexeme t) r) }
          | None \<Rightarrow> do {
              b \<leftarrow> accept [TOKEN_IS];
              if b then do {
                t \<leftarrow> prev_tok;
                i \<leftarrow> parseIdentifier;
                c \<leftarrow> accept [TOKEN_AS];
                v \<leftarrow> (if c then do { v \<leftarrow> parseIdentifier; ret (Some v) } else ret None);
                ret (True, IsExpr t l i v) }
              else ret (False, l) } }"

definition parseComparisonExpr :: "parsers \<Rightarrow> Expression pm" where
  "parseComparisonExpr R = do { x \<leftarrow> parseAdditiveExpr R; ploop (comparison_step R) x }"

definition parseBitwiseAndExpr :: "parsers \<Rightarrow> Expression pm" where
  "parseBitwiseAndExpr R =
     do { x \<leftarrow> parseComparisonExpr R; binary_rest [TOKEN_BIT_AND] (parseComparisonExpr R) x }"

definition parseBitwiseOrExpr :: "parsers \<Rightarrow> Expression pm" where
  "parseBitwiseOrExpr R =
     do { x \<leftarrow> parseBitwiseAndExpr R; binary_rest [TOKEN_BIT_OR] (parseBitwiseAndExpr R) x }"

definition parseAndExpr :: "parsers \<Rightarrow> Expression pm" where
  "parseAndExpr R =
     do { x \<leftarrow> parseBitwiseOrExpr R;
          binary_rest [TOKEN_AND, TOKEN_AND_AND] (parseBitwiseOrExpr R) x }"

text \<open>A pipe written on a later line than the token before it makes the rest of the chain multiline.\<close>

definition on_later_line :: "token \<Rightarrow> parser \<Rightarrow> bool" where
  "on_later_line t p \<longleftrightarrow> pos p \<ge> 2 \<and> Line (ptokens p ! (pos p - 2)) < Line t"

definition piped_switch :: "parsers \<Rightarrow> Expression \<Rightarrow> Statement pm" where
  "piped_switch R l =
     do { s \<leftarrow> adv;
          c \<leftarrow> accept [TOKEN_AS];
          if c then do { i \<leftarrow> parseIdentifier; parseTypeSwitchBody R s l i }
          else parseSwitchBody R s NilExpr }"

definition pipe_step :: "parsers \<Rightarrow> Expression \<times> bool \<Rightarrow> (Expression \<times> bool) pm" where
  "pipe_step R s =
     do { t \<leftarrow> prev_tok;
          p \<leftarrow> get_parser;
          let multiline = snd s \<or> on_later_line t p;
          b \<leftarrow> sees TOKEN_SWITCH;
          if b then do { body \<leftarrow> piped_switch R (fst s); ret (PipedSwitchExpr t (fst s) body, multiline) }
          else do { r \<leftarrow> parseAndExpr R; ret (PipeExpr t (fst s) r multiline, multiline) } }"

definition parsePipeExpr :: "parsers \<Rightarrow> Expression pm" where
  "parsePipeExpr R =
     do { x \<leftarrow> parseAndExpr R;
          s \<leftarrow> while_accept [TOKEN_PIPE] (pipe_step R) (x, False);
          ret (fst s) }"

definition parseOrExpr :: "parsers \<Rightarrow> Expression pm" where
  "parseOrExpr R =
     do { x \<leftarrow> parsePipeExpr R; binary_rest [TOKEN_OR, TOKEN_OR_OR] (parsePipeExpr R) x }"

definition parseOnErrExpr :: "parsers \<Rightarrow> Expression pm" where
  "parseOnErrExpr R =
     do { x \<leftarrow> parseOrExpr R;
          b \<leftarrow> accept [TOKEN_ONERR];
          if \<not> b then ret x
          else do { t \<leftarrow> prev_tok; d \<leftarrow> rExpr R; ret (OnErrExpr t x d) } }"

definition parseExpression :: "parsers \<Rightarrow> Expression pm" where
  "parseExpression R =
     do { p \<leftarrow> get_parser; if allowInlineOnErr p then parseOnErrExpr R else parseOrExpr R }"

end
