(* ===== verification/StmtParser.thy ===== *)
theory StmtParser
  imports ExprParser
begin

text \<open>
  \<^verbatim>\<open>internal/parser/parser_stmt.go\<close>: blocks, statements and \<^verbatim>\<open>onerr\<close> clauses. The record \<open>parsers\<close> is
  the one of \<open>ExprParser\<close>.
\<close>

section \<open>Blocks and simple statements\<close>

text \<open>A nil statement is left out; a nil pointer in the interface is not.\<close>

definition block_item :: "parsers \<Rightarrow> Statement list \<Rightarrow> Statement list pm" where
  "block_item R ss = do { s \<leftarrow> rStmt R; ret (if nil_stmt s then ss else ss @ [s]) }"

definition parseBlock :: "parsers \<Rightarrow> BlockStmt pm" where
  "parseBlock R =
     do { t \<leftarrow> peek_tok;
          b \<leftarrow> accept [TOKEN_INDENT];
          if \<not> b then do { report t (msg ''expected indented block or `{`''); ret (t, []) }
          else do {
            ss \<leftarrow> indented_loop (block_item R) [];
            _ \<leftarrow> must TOKEN_DEDENT ''expected dedent after block'';
            ret (t, ss) } }"

definition parseReturnStmt :: "parsers \<Rightarrow> Statement pm" where
  "parseReturnStmt R =
     do { t \<leftarrow> adv;
          b \<leftarrow> sees_any [TOKEN_NEWLINE, TOKEN_DEDENT];
          e \<leftarrow> (if b then ret True else at_end);
          xs \<leftarrow> (if e then ret [] else comma_list (append_item (rExpr R)) []);
          newlines;
          ret (ReturnStmt t xs) }"

definition parseContinueStmt :: "Statement pm" where
  "parseContinueStmt = do { t \<leftarrow> adv; newlines; ret (ContinueStmt t) }"

definition parseBreakStmt :: "Statement pm" where
  "parseBreakStmt = do { t \<leftarrow> adv; newlines; ret (BreakStmt t) }"

definition parseSendStmt :: "parsers \<Rightarrow> Statement pm" where
  "parseSendStmt R =
     do { t \<leftarrow> adv;
          v \<leftarrow> rExpr R;
          _ \<leftarrow> must TOKEN_TO (msg ''expected `to` after value in send statement'');
          c \<leftarrow> rExpr R;
          newlines;
          ret (SendStmt t v c) }"

section \<open>Error clauses\<close>

definition parseStatementExpression :: "parsers \<Rightarrow> Expression pm" where
  "parseStatementExpression R = with_inline_onerr False (parseExpression R)"

definition parseStatementExpressionList :: "parsers \<Rightarrow> Expression list pm" where
  "parseStatementExpressionList R = with_inline_onerr False (parseExpressionList R)"

definition parseExplainString :: "parsers \<Rightarrow> string pm" where
  "parseExplainString R =
     do { t \<leftarrow> peek_tok;
          if Type t = TOKEN_STRING then do { _ \<leftarrow> adv; ret (Lexeme t) }
          else if Type t = TOKEN_STRING_HEAD then do {
            x \<leftarrow> rExpr R;
            ret (case x of StringExpr _ _ _ _ ((True, s, _) # _) \<Rightarrow> s | _ \<Rightarrow> Lexeme t) }
          else do { report t (msg ''expected string literal after `explain`''); ret [] } }"

text \<open>\<^verbatim>\<open>return\<close>, \<^verbatim>\<open>continue\<close> or \<^verbatim>\<open>break\<close> with nothing after it on the line.\<close>

definition bare :: "token_type \<Rightarrow> bool pm" where
  "bare tt =
     do { b \<leftarrow> sees tt;
          c \<leftarrow> (if b then do { t \<leftarrow> peek_next; ret (Type t \<in> {TOKEN_NEWLINE, TOKEN_DEDENT, TOKEN_EOF}) }
               else ret False);
          only_if c (do { _ \<leftarrow> adv; ret () });
          ret c }"

text \<open>A clause is its token, handler, explanation, the three shorthands and the alias.\<close>

definition parseInlineOnErrHandler :: "parsers \<Rightarrow> token \<Rightarrow> OnErrClause pm" where
  "parseInlineOnErrHandler R t =
     do { b \<leftarrow> bare TOKEN_RETURN;
          if b then ret (t, NilExpr, [], True, False, False, [])
          else do {
            b \<leftarrow> bare TOKEN_CONTINUE;
            if b then ret (t, NilExpr, [], False, True, False, [])
            else do {
              b \<leftarrow> bare TOKEN_BREAK;
              if b then ret (t, NilExpr, [], False, False, True, [])
              else do {
                b \<leftarrow> sees TOKEN_EXPLAIN;
                if b then do {
                  _ \<leftarrow> adv; s \<leftarrow> parseExplainString R; ret (t, NilExpr, s, False, False, False, []) }
                else do {
                  x \<leftarrow> rExpr R;
                  b \<leftarrow> sees TOKEN_EXPLAIN;
                  s \<leftarrow> (if b then do { _ \<leftarrow> adv; parseExplainString R } else ret []);
                  ret (t, x, s, False, False, False, []) } } } } }"

definition parseOnErrClause :: "parsers \<Rightarrow> OnErrClause pm" where
  "parseOnErrClause R =
     do { t \<leftarrow> adv;
          b \<leftarrow> sees TOKEN_AS;
          if b then do {
            _ \<leftarrow> adv;
            a \<leftarrow> adv;
            if Type a \<noteq> TOKEN_IDENTIFIER then do {
              report a (msg ''expected identifier after `onerr as`'');
              ret (t, NilExpr, [], False, False, False, []) }
            else do {
              newlines;
              b \<leftarrow> sees TOKEN_INDENT;
              if b then do {
                block \<leftarrow> rBlock R;
                ret (t, BlockExpr (fst block) (Some block), [], False, False, False, Lexeme a) }
              else do {
                c \<leftarrow> parseInlineOnErrHandler R t;
                let (t, x, s, r, co, br, _) = c;
                ret (t, x, s, r, co, br, Lexeme a) } } }
          else do {
            newlines;
            b \<leftarrow> sees TOKEN_INDENT;
            if b then do {
              block \<leftarrow> rBlock R;
              ret (t, BlockExpr (fst block) (Some block), [], False, False, False, []) }
            else parseInlineOnErrHandler R t } }"

definition optional_onerr :: "parsers \<Rightarrow> OnErrClause option pm" where
  "optional_onerr R =
     do { b \<leftarrow> sees TOKEN_ONERR;
          if b then do { c \<leftarrow> parseOnErrClause R; ret (Some c) } else ret None }"

section \<open>Assignments and expression statements\<close>

text \<open>\<^verbatim>\<open>checkMultiValueAssignment\<close> reads the tokens ahead without newlines and comments.\<close>

definition name_like :: "token_type \<Rightarrow> bool" where
  "name_like tt \<longleftrightarrow> tt \<in> {TOKEN_IDENTIFIER, TOKEN_EMPTY, TOKEN_ERROR}"

fun comma_names :: "token_type list \<Rightarrow> bool" where
  "comma_names (c # i # ts) \<longleftrightarrow>
     (if c = TOKEN_COMMA then name_like i \<and> comma_names ts else c = TOKEN_ASSIGN \<or> c = TOKEN_WALRUS)"
| "comma_names [c] \<longleftrightarrow> c = TOKEN_ASSIGN \<or> c = TOKEN_WALRUS"
| "comma_names [] \<longleftrightarrow> False"

definition multi_value_ahead :: "token list \<Rightarrow> bool" where
  "multi_value_ahead ts =
     (case filter (\<lambda>tt. tt \<noteq> TOKEN_NEWLINE \<and> tt \<noteq> TOKEN_COMMENT) (map Type ts) of
        [] \<Rightarrow> False | tt # tts \<Rightarrow> tt = TOKEN_COMMA \<and> comma_names (tt # tts))"

definition checkMultiValueAssignment :: "bool pm" where
  "checkMultiValueAssignment =
     do { t \<leftarrow> peek_tok;
          p \<leftarrow> get_parser;
          ret (name_like (Type t) \<and> multi_value_ahead (drop (pos p + 1) (ptokens p))) }"

definition name_tokens :: "token_type list" where
  "name_tokens = [TOKEN_IDENTIFIER, TOKEN_EMPTY, TOKEN_ERROR]"

text \<open>The names before the operator; \<^term>\<open>None\<close> when one is missing.\<close>

definition more_names :: "Identifier list option \<Rightarrow> Identifier list option pm" where
  "more_names =
     ploop (\<lambda>s. case s of None \<Rightarrow> ret (False, None) | Some is \<Rightarrow> do {
         b \<leftarrow> accept [TOKEN_COMMA];
         if \<not> b then ret (False, Some is) else do {
           b \<leftarrow> accept name_tokens;
           if \<not> b then do {
             report_here ''expected identifier after comma in multi-value assignment''; ret (False, None) }
           else do { t \<leftarrow> prev_tok; ret (True, Some (is @ [Identifier t (Lexeme t)])) } } })"

definition parseMultiValueAssignmentStmt :: "parsers \<Rightarrow> Statement pm" where
  "parseMultiValueAssignmentStmt R =
     do { b \<leftarrow> accept name_tokens;
          if \<not> b then do { report_here ''expected identifier in multi-value assignment''; ret NilStmt }
          else do {
            t \<leftarrow> prev_tok;
            r \<leftarrow> more_names (Some [Identifier t (Lexeme t)]);
            case r of None \<Rightarrow> ret NilStmt | Some names \<Rightarrow> do {
              b \<leftarrow> accept [TOKEN_WALRUS];
              if b then do {
                op \<leftarrow> prev_tok;
                xs \<leftarrow> parseStatementExpressionList R;
                c \<leftarrow> optional_onerr R;
                newlines;
                ret (VarDeclStmt names NilType xs op c) }
              else do {
                b \<leftarrow> accept [TOKEN_ASSIGN];
                if b then do {
                  op \<leftarrow> prev_tok;
                  xs \<leftarrow> parseStatementExpressionList R;
                  c \<leftarrow> optional_onerr R;
                  newlines;
                  ret (AssignStmt (map Ident names) xs op c) }
                else do {
                  report_here ''expected assignment operator (= or :=) in multi-value assignment'';
                  ret NilStmt } } } } }"

definition assignment :: "parsers \<Rightarrow> Expression \<Rightarrow> Statement pm" where
  "assignment R x =
     do { op \<leftarrow> prev_tok;
          xs \<leftarrow> parseStatementExpressionList R;
          newlines;
          b \<leftarrow> sees TOKEN_ONERR;
          c \<leftarrow> (if b then
                 if Type op = TOKEN_BIT_AND_ASSIGN then do {
                   report_here (msg ''onerr is not supported with `&=` assignments'');
                   _ \<leftarrow> parseOnErrClause R;
                   ret None }
                 else do { c \<leftarrow> parseOnErrClause R; ret (Some c) }
               else ret None);
          newlines;
          ret (AssignStmt [x] xs op c) }"

definition walrus :: "parsers \<Rightarrow> Expression \<Rightarrow> Statement pm" where
  "walrus R x =
     do { op \<leftarrow> prev_tok;
          case x of
            Ident i \<Rightarrow> do {
              xs \<leftarrow> parseStatementExpressionList R;
              newlines;
              c \<leftarrow> optional_onerr R;
              newlines;
              ret (VarDeclStmt [i] NilType xs op c) }
          | _ \<Rightarrow> do { report op ''walrus operator can only be used with identifiers''; ret NilStmt } }"

definition parseExpressionOrAssignmentStmt :: "parsers \<Rightarrow> Statement pm" where
  "parseExpressionOrAssignmentStmt R =
     do { multi \<leftarrow> checkMultiValueAssignment;
          if multi then parseMultiValueAssignmentStmt R
          else do {
            x \<leftarrow> parseStatementExpression R;
            b \<leftarrow> accept [TOKEN_PLUS_PLUS, TOKEN_MINUS_MINUS];
            if b then do { t \<leftarrow> prev_tok; newlines; ret (IncDecStmt t x (Lexeme t)) }
            else do {
              b \<leftarrow> accept [TOKEN_ASSIGN, TOKEN_BIT_AND_ASSIGN];
              if b then assignment R x
              else do {
                b \<leftarrow> accept [TOKEN_WALRUS];
                if b then walrus R x
                else do {
                  newlines;
                  c \<leftarrow> optional_onerr R;
                  newlines;
                  ret (ExpressionStmt x c) } } } } }"

section \<open>Conditionals\<close>

text \<open>
  \<^verbatim>\<open>if x := f(); x > 0\<close>: a semicolon before the end of the line and outside parentheses. The token is
  made a newline, so that the first statement ends there.
\<close>

fun semicolon_at :: "int \<Rightarrow> token list \<Rightarrow> nat option" where
  "semicolon_at depth [] = None"
| "semicolon_at depth (t # ts) =
     (if Type t \<in> {TOKEN_NEWLINE, TOKEN_EOF, TOKEN_INDENT, TOKEN_DEDENT} then None
      else if Type t = TOKEN_SEMICOLON \<and> depth = 0 then Some 0
      else map_option Suc (semicolon_at
             (if Type t = TOKEN_LPAREN then depth + 1 else if Type t = TOKEN_RPAREN then depth - 1 else depth) ts))"

definition break_at :: "nat \<Rightarrow> unit pm" where
  "break_at i =
     lift (\<lambda>p. ((), p\<lparr>ptokens := (ptokens p)[pos p + i := (ptokens p ! (pos p + i))\<lparr>Type := TOKEN_NEWLINE\<rparr>]\<rparr>))"

definition pass_newlines :: "unit pm" where
  "pass_newlines = lift (\<lambda>p. ((), p\<lparr>pos := pos p + length (takeWhile (has_type TOKEN_NEWLINE) (ahead p))\<rparr>))"

definition if_init :: "parsers \<Rightarrow> Statement pm" where
  "if_init R =
     do { p \<leftarrow> get_parser;
          case semicolon_at 0 (ahead p) of
            None \<Rightarrow> ret NilStmt
          | Some i \<Rightarrow> do {
              break_at i;
              s \<leftarrow> parseExpressionOrAssignmentStmt R;
              pass_newlines;
              ret s } }"

definition parseIfStmt :: "parsers \<Rightarrow> Statement pm" where
  "parseIfStmt R =
     do { t \<leftarrow> adv;
          init \<leftarrow> if_init R;
          c \<leftarrow> rExpr R;
          newlines;
          body \<leftarrow> rBlock R;
          newlines;
          b \<leftarrow> sees TOKEN_ELSE;
          alternative \<leftarrow>
            (if b then do {
               e \<leftarrow> adv;
               newlines;
               b \<leftarrow> sees TOKEN_IF;
               if b then rIfStmt R else do { block \<leftarrow> rBlock R; ret (ElseStmt e (Some block)) } }
             else ret NilStmt);
          newlines;
          ret (IfStmt t init c (Some body) alternative) }"

section \<open>Switch and select\<close>

definition parseSwitchOrTypeSwitchStmt :: "parsers \<Rightarrow> Statement pm" where
  "parseSwitchOrTypeSwitchStmt R =
     do { t \<leftarrow> adv;
          b \<leftarrow> sees_any [TOKEN_NEWLINE, TOKEN_INDENT];
          e \<leftarrow> (if b then ret True else at_end);
          x \<leftarrow> (if e then ret NilExpr else rExpr R);
          case x of
            TypeCastExpr _ y (NamedType n name) \<Rightarrow> parseTypeSwitchBody R t y (Identifier n name)
          | _ \<Rightarrow> parseSwitchBody R t x }"

definition parseSelectCase :: "parsers \<Rightarrow> token \<Rightarrow> SelectCase pm" where
  "parseSelectCase R t =
     do { b \<leftarrow> sees TOKEN_RECEIVE;
          if b then do {
            x \<leftarrow> parseReceiveExpr R; newlines; body \<leftarrow> rBlock R; ret (t, [], x, NilStmt, Some body) }
          else do {
            b \<leftarrow> sees TOKEN_SEND;
            if b then do { s \<leftarrow> parseSendStmt R; body \<leftarrow> rBlock R; ret (t, [], NilExpr, s, Some body) }
            else do {
              b \<leftarrow> sees TOKEN_IDENTIFIER;
              if b then do {
                i \<leftarrow> adv;
                b \<leftarrow> accept [TOKEN_COMMA];
                js \<leftarrow> (if b then do {
                        j \<leftarrow> must TOKEN_IDENTIFIER (msg ''expected identifier after `,` in select binding'');
                        ret [Lexeme j] } else ret []);
                _ \<leftarrow> must TOKEN_WALRUS (msg ''expected `:=` after binding in select case'');
                x \<leftarrow> parseReceiveExpr R;
                newlines;
                body \<leftarrow> rBlock R;
                ret (t, Lexeme i # js, x, NilStmt, Some body) }
              else do {
                report_here (msg ''expected `receive`, `send`, or binding in select case'');
                newlines;
                body \<leftarrow> rBlock R;
                ret (t, [], NilExpr, NilStmt, Some body) } } } }"

definition parseSelectStmt :: "parsers \<Rightarrow> Statement pm" where
  "parseSelectStmt R =
     do { t \<leftarrow> adv;
          s \<leftarrow> switch_branches R ''select'' (parseSelectCase R);
          ret (SelectStmt t (fst s) (snd s)) }"

section \<open>Loops\<close>

definition for_body :: "parsers \<Rightarrow> BlockStmt option pm" where
  "for_body R = do { newlines; body \<leftarrow> rBlock R; ret (Some body) }"

text \<open>The loops with variables; \<^term>\<open>None\<close> when the tokens do not start one.\<close>

definition for_header :: "parsers \<Rightarrow> token \<Rightarrow> Statement option pm" where
  "for_header R t =
     do { b \<leftarrow> accept [TOKEN_IDENTIFIER];
          if \<not> b then ret None
          else do {
            i \<leftarrow> prev_tok;
            let v = Identifier i (Lexeme i);
            b \<leftarrow> accept [TOKEN_IN];
            if b then do {
              x \<leftarrow> rExpr R; body \<leftarrow> for_body R; ret (Some (ForRangeStmt t None (Some v) x body)) }
            else do {
              b \<leftarrow> accept [TOKEN_COMMA];
              if b then do {
                w \<leftarrow> parseIdentifier;
                _ \<leftarrow> must TOKEN_IN (msg ''expected `in` after variable list'');
                x \<leftarrow> rExpr R;
                body \<leftarrow> for_body R;
                ret (Some (ForRangeStmt t (Some v) (Some w) x body)) }
              else do {
                b \<leftarrow> accept [TOKEN_FROM];
                if b then do {
                  low \<leftarrow> rExpr R;
                  through \<leftarrow> accept [TOKEN_THROUGH];
                  only_if (\<not> through) (do {
                    _ \<leftarrow> must TOKEN_TO (msg ''expected `to` or `through` after start value''); ret () });
                  high \<leftarrow> rExpr R;
                  body \<leftarrow> for_body R;
                  ret (Some (ForNumericStmt t (Some v) low high through body)) }
                else ret None } } } }"

definition parseForStmt :: "parsers \<Rightarrow> Statement pm" where
  "parseForStmt R =
     do { t \<leftarrow> adv;
          b \<leftarrow> sees_any [TOKEN_NEWLINE, TOKEN_INDENT];
          if b then do { body \<leftarrow> for_body R; ret (ForConditionStmt t (BooleanLiteral t True) body) }
          else or_back (for_header R t)
            (do { c \<leftarrow> rExpr R; body \<leftarrow> for_body R; ret (ForConditionStmt t c body) }) }"

section \<open>Defer and go\<close>

text \<open>Only a call can be deferred or started; for anything else the method returns a nil pointer.\<close>

fun is_call :: "Expression \<Rightarrow> bool" where
  "is_call (CallExpr _ _ _ _ _) = True"
| "is_call (MethodCallExpr _ _ _ _ _ _) = True"
| "is_call _ = False"

definition parseDeferStmt :: "parsers \<Rightarrow> Statement pm" where
  "parseDeferStmt R =
     do { t \<leftarrow> adv;
          newlines;
          b \<leftarrow> sees TOKEN_INDENT;
          if b then do { body \<leftarrow> rBlock R; newlines; ret (DeferStmt t NilExpr (Some body)) }
          else do {
            x \<leftarrow> rExpr R;
            if is_call x then do { newlines; ret (DeferStmt t x None) }
            else do { report t ''defer must be followed by a function call''; ret NilDeferStmt } } }"

definition parseGoStmt :: "parsers \<Rightarrow> Statement pm" where
  "parseGoStmt R =
     do { t \<leftarrow> adv;
          b \<leftarrow> sees_any [TOKEN_NEWLINE, TOKEN_INDENT];
          block \<leftarrow> (if b then do { newlines; sees TOKEN_INDENT } else ret False);
          if block then do { body \<leftarrow> rBlock R; newlines; ret (GoStmt t NilExpr (Some body)) }
          else do {
            x \<leftarrow> rExpr R;
            if is_call x then do { newlines; ret (GoStmt t x None) }
            else do {
              report t ''go must be followed by a function call or indented block''; ret NilGoStmt } } }"

section \<open>Type declarations\<close>

definition parseFieldAlias :: "string pm" where
  "parseFieldAlias =
     do { b \<leftarrow> accept [TOKEN_AS];
          if \<not> b then ret []
          else do {
            b \<leftarrow> sees TOKEN_STRING;
            if \<not> b then do {
              report_here (msg ''expected string value after `as` in field alias''); ret [] }
            else do { t \<leftarrow> adv; ret (Lexeme t) } } }"

definition struct_tag :: "string option pm" where
  "struct_tag =
     do { key \<leftarrow> adv;
          b \<leftarrow> sees TOKEN_COLON;
          if \<not> b then ret None
          else do {
            _ \<leftarrow> must TOKEN_COLON (msg ''expected `:` in struct tag'');
            b \<leftarrow> sees TOKEN_STRING;
            if \<not> b then do { report_here ''expected string value in struct tag''; ret (Some []) }
            else do {
              t \<leftarrow> adv;
              ret (Some (Lexeme key @ '':'' @ [CHR 0x22] @ Lexeme t @ [CHR 0x22])) } } }"

definition parseStructTag :: "string pm" where
  "parseStructTag =
     do { b \<leftarrow> sees TOKEN_IDENTIFIER; if \<not> b then ret [] else or_back struct_tag (ret []) }"

definition type_field :: "FieldDecl list \<Rightarrow> FieldDecl list pm" where
  "type_field fs =
     do { name \<leftarrow> parseIdentifier;
          t \<leftarrow> type_annotation;
          alias \<leftarrow> parseFieldAlias;
          tag \<leftarrow> parseStructTag;
          only_if (alias \<noteq> [] \<and> tag \<noteq> [])
            (report_here ''cannot combine field alias and explicit struct tag on the same field'');
          newlines;
          ret (fs @ [FieldDecl name t
            (if alias \<noteq> [] \<and> tag = [] then ''json:'' @ [CHR 0x22] @ alias @ [CHR 0x22] else tag)]) }"

definition type_decl :: "token \<Rightarrow> Identifier \<Rightarrow> FieldDecl list \<Rightarrow> TypeAnnotation \<Rightarrow> bool \<Rightarrow> TypeDecl" where
  "type_decl t name fs a alias =
     \<lparr>tdToken = t, tdName = name, tdFields = fs, tdAliasType = a, tdIsAlias = alias, tdDirectives = []\<rparr>"

definition parseTypeDecl :: "TypeDecl option pm" where
  "parseTypeDecl =
     do { t \<leftarrow> adv;
          newlines;
          name \<leftarrow> parseIdentifier;
          newlines;
          b \<leftarrow> accept [TOKEN_ASSIGN];
          if b then do { a \<leftarrow> type_annotation; newlines; ret (Some (type_decl t name [] a True)) }
          else do {
            b \<leftarrow> sees TOKEN_FUNC;
            if b then do { a \<leftarrow> type_annotation; newlines; ret (Some (type_decl t name [] a False)) }
            else do {
              b \<leftarrow> accept [TOKEN_INDENT];
              if \<not> b then do { report_here ''expected indented block for type fields''; ret None }
              else do {
                fs \<leftarrow> indented_loop type_field [];
                _ \<leftarrow> must TOKEN_DEDENT ''expected dedent after type fields'';
                newlines;
                ret (Some (type_decl t name fs NilType False)) } } } }"

section \<open>Statements\<close>

definition parseStatement :: "parsers \<Rightarrow> Statement pm" where
  "parseStatement R =
     do { newlines;
          t \<leftarrow> peek_tok;
          let tt = Type t;
          if tt = TOKEN_RETURN then parseReturnStmt R
          else if tt = TOKEN_IF then parseIfStmt R
          else if tt = TOKEN_SWITCH then parseSwitchOrTypeSwitchStmt R
          else if tt = TOKEN_SELECT then parseSelectStmt R
          else if tt = TOKEN_FOR then parseForStmt R
          else if tt = TOKEN_DEFER then parseDeferStmt R
          else if tt = TOKEN_GO then parseGoStmt R
          else if tt = TOKEN_SEND then parseSendStmt R
          else if tt = TOKEN_CONTINUE then parseContinueStmt
          else if tt = TOKEN_BREAK then parseBreakStmt
          else if tt = TOKEN_TYPE then do {
            d \<leftarrow> parseTypeDecl;
            ret (case d of None \<Rightarrow> NilStmt | Some d \<Rightarrow> TypeDeclStmt d) }
          else parseExpressionOrAssignmentStmt R }"

end
