(* ===== verification/DeclParser.thy ===== *)
theory DeclParser
  imports StmtParser
begin

text \<open>
  \<^verbatim>\<open>internal/parser/parser_decl.go\<close>, \<^verbatim>\<open>Parse\<close> of \<^verbatim>\<open>parser.go\<close>, and the knot that ties the parsing
  routines together. A call through a nil pointer, which panics in Go, is the left value of a sum.
\<close>

section \<open>Package, skill and imports\<close>

definition parsePetioleDecl :: "Declaration pm" where
  "parsePetioleDecl =
     do { t \<leftarrow> adv; newlines; name \<leftarrow> parseIdentifier; newlines; ret (PetioleDecl t name) }"

text \<open>The description and the version of a skill.\<close>

definition skill_field :: "string \<times> string \<Rightarrow> (string \<times> string) pm" where
  "skill_field s =
     do { f \<leftarrow> adv;
          if Type f \<noteq> TOKEN_IDENTIFIER then do {
            report f (msg (''expected `description` or `version` in skill block, got '' @
              tokenTypeString (Type f)));
            newlines;
            ret s }
          else do {
            _ \<leftarrow> must TOKEN_COLON (msg (''expected `:` after `'' @ Lexeme f @ ''`''));
            v \<leftarrow> adv;
            if Type v \<noteq> TOKEN_STRING then do {
              report v (msg (''expected string value for `'' @ Lexeme f @ ''`'')); newlines; ret s }
            else do {
              let known = Lexeme f = ''description'' \<or> Lexeme f = ''version'';
              only_if (\<not> known) (report f (msg (''unknown skill field `'' @ Lexeme f @
                ''` (expected `description` or `version`)'')));
              newlines;
              ret (if Lexeme f = ''description'' then (Lexeme v, snd s)
                   else if Lexeme f = ''version'' then (fst s, Lexeme v) else s) } } }"

definition parseSkillDecl :: "Declaration pm" where
  "parseSkillDecl =
     do { t \<leftarrow> adv;
          newlines;
          name \<leftarrow> parseIdentifier;
          newlines;
          b \<leftarrow> accept [TOKEN_INDENT];
          if b then do {
            s \<leftarrow> indented_loop skill_field ([], []);
            _ \<leftarrow> must TOKEN_DEDENT ''expected dedent after skill block'';
            newlines;
            ret (SkillDecl t name (fst s) (snd s)) }
          else ret (SkillDecl t name [] []) }"

definition path_literal :: "token \<Rightarrow> Expression" where
  "path_literal t = StringExpr t (Lexeme t) False False []"

definition parseImportSpec :: "token \<Rightarrow> Declaration option pm" where
  "parseImportSpec import_token =
     do { t0 \<leftarrow> peek_tok;
          b \<leftarrow> (if Type t0 = TOKEN_IDENTIFIER then do { t1 \<leftarrow> peek_next; ret (Type t1 = TOKEN_STRING) }
               else ret False);
          if b then do {
            alias \<leftarrow> parseIdentifier;
            path \<leftarrow> adv;
            ret (Some (ImportDecl import_token (path_literal path) (Some alias))) }
          else do {
            path \<leftarrow> adv;
            if Type path \<noteq> TOKEN_STRING then do {
              report path ''expected string literal for import path''; ret None }
            else do {
              b \<leftarrow> accept [TOKEN_AS];
              alias \<leftarrow> (if b then do { i \<leftarrow> parseIdentifier; ret (Some i) } else ret None);
              ret (Some (ImportDecl import_token (path_literal path) alias)) } } }"

definition parseImportDecl :: "Declaration option pm" where
  "parseImportDecl = do { t \<leftarrow> adv; newlines; parseImportSpec t }"

definition skipGroupedImportWhitespace :: "unit pm" where
  "skipGroupedImportWhitespace =
     ploop (\<lambda>_. do {
         t \<leftarrow> peek_tok;
         if Type t \<in> {TOKEN_NEWLINE, TOKEN_INDENT, TOKEN_DEDENT, TOKEN_SEMICOLON}
         then do { _ \<leftarrow> adv; ret (True, ()) } else ret (False, ()) }) ()"

definition grouped_import :: "token \<Rightarrow> Declaration list \<Rightarrow> Declaration list pm" where
  "grouped_import t ds =
     do { d \<leftarrow> parseImportSpec t;
          skipGroupedImportWhitespace;
          ret (case d of None \<Rightarrow> ds | Some d \<Rightarrow> ds @ [d]) }"

definition parseGroupedImports :: "Declaration list pm" where
  "parseGroupedImports =
     do { t \<leftarrow> adv;
          skipGroupedImportWhitespace;
          _ \<leftarrow> must TOKEN_LPAREN (msg ''expected `(` for grouped import'');
          skipGroupedImportWhitespace;
          ds \<leftarrow> until_close TOKEN_RPAREN skipGroupedImportWhitespace (grouped_import t) [];
          _ \<leftarrow> must TOKEN_RPAREN (msg ''expected `)` to close grouped import'');
          newlines;
          ret ds }"

section \<open>Interfaces and functions\<close>

definition method_signature :: "parsers \<Rightarrow> MethodSignature list \<Rightarrow> MethodSignature list pm" where
  "method_signature R ms =
     do { name \<leftarrow> parseIdentifier;
          _ \<leftarrow> must TOKEN_LPAREN (msg ''expected `(` for method parameters'');
          ps \<leftarrow> parseParameters R;
          _ \<leftarrow> must TOKEN_RPAREN (msg ''expected `)` after method parameters'');
          b \<leftarrow> sees_any [TOKEN_NEWLINE, TOKEN_DEDENT];
          rs \<leftarrow> (if b then ret [] else parseReturnTypes);
          newlines;
          ret (ms @ [MethodSignature name ps rs]) }"

text \<open>Without an indented block the method returns a nil pointer.\<close>

definition parseInterfaceDecl :: "parsers \<Rightarrow> Declaration pm" where
  "parseInterfaceDecl R =
     do { t \<leftarrow> adv;
          newlines;
          name \<leftarrow> parseIdentifier;
          newlines;
          b \<leftarrow> accept [TOKEN_INDENT];
          if \<not> b then do {
            report_here ''expected indented block for interface methods''; ret NilInterfaceDecl }
          else do {
            ms \<leftarrow> indented_loop (method_signature R) [];
            _ \<leftarrow> must TOKEN_DEDENT ''expected dedent after interface methods'';
            newlines;
            ret (InterfaceDecl t name ms []) } }"

definition isGoStyleReceiver :: "bool pm" where
  "isGoStyleReceiver = do { t \<leftarrow> peek_at 1; ret (Type t = TOKEN_IDENTIFIER) }"

definition function_name :: "(Identifier \<times> Receiver option) pm" where
  "function_name =
     do { b \<leftarrow> sees TOKEN_LPAREN;
          b \<leftarrow> (if b then isGoStyleReceiver else ret False);
          if b then do {
            _ \<leftarrow> adv;
            r \<leftarrow> parseIdentifier;
            a \<leftarrow> type_annotation;
            _ \<leftarrow> must TOKEN_RPAREN (msg ''expected `)` after receiver'');
            newlines;
            name \<leftarrow> parseIdentifier;
            ret (name, Some (Receiver r a)) }
          else do {
            name \<leftarrow> parseIdentifier;
            b \<leftarrow> accept [TOKEN_ON];
            if b then do {
              r \<leftarrow> parseIdentifier; a \<leftarrow> type_annotation; ret (name, Some (Receiver r a)) }
            else ret (name, None) } }"

definition parseFunctionDecl :: "parsers \<Rightarrow> Declaration pm" where
  "parseFunctionDecl R =
     do { t \<leftarrow> adv;
          newlines;
          (name, receiver) \<leftarrow> function_name;
          b \<leftarrow> sees TOKEN_LPAREN;
          ps \<leftarrow> (if b then do {
                  _ \<leftarrow> adv;
                  ps \<leftarrow> parseParameters R;
                  _ \<leftarrow> must TOKEN_RPAREN (msg ''expected `)` after function parameters'');
                  ret ps }
                else ret []);
          b \<leftarrow> sees_any [TOKEN_NEWLINE, TOKEN_INDENT];
          rs \<leftarrow> (if b then ret [] else parseReturnTypes);
          newlines;
          body \<leftarrow> rBlock R;
          ret (FunctionDecl t name ps rs (Some body) receiver []) }"

section \<open>Constants, variables and enums\<close>

definition parseConstSpec :: "parsers \<Rightarrow> ConstSpec pm" where
  "parseConstSpec R =
     do { name \<leftarrow> parseIdentifier;
          _ \<leftarrow> must TOKEN_ASSIGN (msg (''expected `=` after const name `'' @ identValue name @ ''`''));
          x \<leftarrow> rExpr R;
          ret (ConstSpec name x) }"

definition const_item :: "parsers \<Rightarrow> ConstSpec list \<Rightarrow> ConstSpec list pm" where
  "const_item R cs = do { c \<leftarrow> parseConstSpec R; newlines; ret (cs @ [c]) }"

definition parseConstDecl :: "parsers \<Rightarrow> Declaration option pm" where
  "parseConstDecl R =
     do { t \<leftarrow> adv;
          grouped \<leftarrow> sees_any [TOKEN_NEWLINE, TOKEN_INDENT];
          if grouped then do {
            newlines;
            b \<leftarrow> accept [TOKEN_INDENT];
            if \<not> b then do {
              report_here (msg ''expected indented block or name after `const`''); ret None }
            else do {
              cs \<leftarrow> indented_loop (const_item R) [];
              _ \<leftarrow> must TOKEN_DEDENT ''expected dedent after const block'';
              newlines;
              ret (Some (ConstDecl t cs)) } }
          else do { c \<leftarrow> parseConstSpec R; newlines; ret (Some (ConstDecl t [c])) } }"

definition parseVarDeclaration :: "parsers \<Rightarrow> Declaration pm" where
  "parseVarDeclaration R =
     do { t \<leftarrow> adv;
          newlines;
          i \<leftarrow> parseIdentifier;
          is \<leftarrow> while_accept [TOKEN_COMMA] (append_item parseIdentifier) [i];
          b \<leftarrow> sees TOKEN_ASSIGN;
          a \<leftarrow> (if b then ret NilType else type_annotation);
          b \<leftarrow> accept [TOKEN_ASSIGN];
          xs \<leftarrow> (if b then parseExpressionList R else ret []);
          newlines;
          ret (VarDeclaration (VarDeclStmt is a xs t None)) }"

definition variant_field :: "FieldDecl list \<Rightarrow> FieldDecl list pm" where
  "variant_field fs =
     do { name \<leftarrow> parseIdentifier; a \<leftarrow> type_annotation; newlines; ret (fs @ [FieldDecl name a []]) }"

definition enum_case :: "parsers \<Rightarrow> EnumCase list \<Rightarrow> EnumCase list pm" where
  "enum_case R cs =
     do { name \<leftarrow> parseIdentifier;
          newlines;
          b \<leftarrow> sees TOKEN_ASSIGN;
          c \<leftarrow> (if b then do { _ \<leftarrow> adv; x \<leftarrow> rExpr R; ret (EnumCase name x []) }
               else do {
                 b \<leftarrow> sees TOKEN_INDENT;
                 if b then do {
                   _ \<leftarrow> adv;
                   fs \<leftarrow> indented_loop variant_field [];
                   _ \<leftarrow> must TOKEN_DEDENT ''expected dedent after variant fields'';
                   ret (EnumCase name NilExpr fs) }
                 else ret (EnumCase name NilExpr []) });
          newlines;
          ret (cs @ [c]) }"

definition parseEnumDecl :: "parsers \<Rightarrow> Declaration option pm" where
  "parseEnumDecl R =
     do { t \<leftarrow> adv;
          newlines;
          name \<leftarrow> parseIdentifier;
          newlines;
          b \<leftarrow> accept [TOKEN_INDENT];
          if \<not> b then do { report_here ''expected indented block for enum cases''; ret None }
          else do {
            cs \<leftarrow> indented_loop (enum_case R) [];
            _ \<leftarrow> must TOKEN_DEDENT ''expected dedent after enum cases'';
            newlines;
            ret (Some (EnumDecl t name cs [])) } }"

section \<open>Declarations and programs\<close>

definition decl_body :: "parsers \<Rightarrow> token_type \<Rightarrow> Declaration option pm" where
  "decl_body R tt =
     (if tt = TOKEN_TYPE then do { d \<leftarrow> parseTypeDecl; ret (map_option TypeDeclaration d) }
      else if tt = TOKEN_INTERFACE then do { d \<leftarrow> parseInterfaceDecl R; ret (Some d) }
      else if tt = TOKEN_FUNC then do { d \<leftarrow> parseFunctionDecl R; ret (Some d) }
      else if tt = TOKEN_VAR then do { d \<leftarrow> parseVarDeclaration R; ret (Some d) }
      else if tt = TOKEN_CONST then parseConstDecl R
      else if tt = TOKEN_ENUM then parseEnumDecl R
      else do {
        e \<leftarrow> at_end;
        only_if (\<not> e) (do {
          t \<leftarrow> peek_tok;
          report t (''unexpected token '' @ tokenTypeString (Type t) @ '', expected declaration'');
          _ \<leftarrow> adv;
          ret () });
        ret None })"

text \<open>Directives are stored in the declaration, through its pointer.\<close>

fun attach :: "Directive list \<Rightarrow> Declaration \<Rightarrow> unit + Declaration" where
  "attach dirs (FunctionDecl t n ps rs b r _) = Inr (FunctionDecl t n ps rs b r dirs)"
| "attach dirs (TypeDeclaration d) = Inr (TypeDeclaration (d\<lparr>tdDirectives := dirs\<rparr>))"
| "attach dirs (InterfaceDecl t n ms _) = Inr (InterfaceDecl t n ms dirs)"
| "attach dirs NilInterfaceDecl = Inl ()"
| "attach dirs (EnumDecl t n cs _) = Inr (EnumDecl t n cs dirs)"
| "attach dirs d = Inr d"

definition parseDeclaration :: "parsers \<Rightarrow> (unit + Declaration option) pm" where
  "parseDeclaration R =
     do { newlines;
          dirs \<leftarrow> drain;
          t \<leftarrow> peek_tok;
          d \<leftarrow> decl_body R (Type t);
          ret (case d of None \<Rightarrow> Inr None
               | Some d \<Rightarrow> if dirs \<noteq> [] then map_sum id Some (attach dirs d) else Inr (Some d)) }"

definition parse_imports :: "Declaration list pm" where
  "parse_imports =
     ploop (\<lambda>ds. do {
         t \<leftarrow> peek_tok;
         if Type t \<noteq> TOKEN_IMPORT then ret (False, ds)
         else do {
           n \<leftarrow> peek_next;
           new \<leftarrow> (if Type n = TOKEN_LPAREN then parseGroupedImports
                  else do { d \<leftarrow> parseImportDecl; ret [case d of None \<Rightarrow> NilImportDecl | Some d \<Rightarrow> d] });
           newlines;
           ret (True, ds @ new) } }) []"

definition parse_declarations :: "parsers \<Rightarrow> (unit + Declaration list) pm" where
  "parse_declarations R =
     ploop (\<lambda>s. case s of Inl _ \<Rightarrow> ret (False, s) | Inr ds \<Rightarrow> do {
         e \<leftarrow> at_end;
         if e then ret (False, s)
         else do {
           r \<leftarrow> parseDeclaration R;
           ret (case r of Inl _ \<Rightarrow> (False, Inl ())
                | Inr None \<Rightarrow> (True, s)
                | Inr (Some d) \<Rightarrow> (True, Inr (ds @ [d]))) } }) (Inr [])"

text \<open>The fields the semantic analysis fills in later are empty.\<close>

definition Parse_with :: "parsers \<Rightarrow> (unit + Program) pm" where
  "Parse_with R =
     do { newlines;
          t \<leftarrow> peek_tok;
          petiole \<leftarrow> (if Type t = TOKEN_PETIOLE then do { d \<leftarrow> parsePetioleDecl; ret (Some d) } else ret None);
          newlines;
          t \<leftarrow> peek_tok;
          skill \<leftarrow> (if Type t = TOKEN_SKILL then do { d \<leftarrow> parseSkillDecl; ret (Some d) } else ret None);
          newlines;
          imports \<leftarrow> parse_imports;
          r \<leftarrow> parse_declarations R;
          ret (case r of Inl _ \<Rightarrow> Inl ()
               | Inr ds \<Rightarrow> Inr \<lparr>Target = [], programPetiole = petiole, programSkill = skill,
                   programImports = imports, programDeclarations = ds\<rparr>) }"

section \<open>The knot\<close>

primrec parsers_at :: "nat \<Rightarrow> parsers" where
  "parsers_at 0 =
     \<lparr>rExpr = stuck NilExpr, rUnary = stuck NilExpr, rIfExpr = stuck NilExpr,
      rBlock = stuck (eof_token, []), rStmt = stuck NilStmt, rIfStmt = stuck NilStmt\<rparr>"
| "parsers_at (Suc n) =
     (let R = parsers_at n
      in \<lparr>rExpr = parseExpression R, rUnary = parseUnaryExpr R, rIfExpr = parseIfExpression R,
          rBlock = parseBlock R, rStmt = parseStatement R, rIfStmt = parseIfStmt R\<rparr>)"

text \<open>The bound is the number of tokens ahead and one more. The result is the program, the parser
  afterwards with the errors, and whether a call was too deep.\<close>

definition Parse :: "parser \<Rightarrow> (unit + Program) \<times> parser \<times> bool" where
  "Parse p = run_state (Parse_with (parsers_at (length (ahead p) + 1))) (p, False)"

end
