(* ===== verification/ParserCalculus.thy ===== *)
theory ParserCalculus
  imports ParserMonad
begin

text \<open>
  A calculus for the routines of the parser. It shows that a routine is never stuck, puts no token
  back, and eats one when it has to: the rules follow the text of a routine, one for each action.
\<close>

section \<open>Specifications\<close>

text \<open>The parser looks at two tokens: the types of the next one and of the one after it.\<close>

definition second_type :: "parser \<Rightarrow> token_type" where
  "second_type p = (case view p of _ # t # _ \<Rightarrow> Type t | _ \<Rightarrow> TOKEN_EOF)"

abbreviation left :: "parser \<Rightarrow> nat" where "left p \<equiv> length (ahead p)"

definition frame :: "parser \<Rightarrow> parser \<Rightarrow> bool" where
  "frame p p' \<longleftrightarrow> length (ptokens p') = length (ptokens p) \<and> left p' \<le> left p \<and>
     (\<exists>es. perrors p' = perrors p @ es) \<and> allowInlineOnErr p' = allowInlineOnErr p"

definition same_look :: "parser \<Rightarrow> parser \<Rightarrow> bool" where
  "same_look p p' \<longleftrightarrow> next_type p' = next_type p \<and> second_type p' = second_type p"

text \<open>
  \<open>spec k P E m\<close>: started with fewer than \<open>k\<close> tokens ahead and the next two types in \<open>P\<close>, the action
  is not stuck, reports errors at the end of the list only, leaves \<^verbatim>\<open>allowInlineOnErr\<close> as it was, puts
  no token back, and eats one if its result is in \<open>E\<close>.
\<close>

type_synonym look = "token_type \<Rightarrow> token_type \<Rightarrow> bool"

definition spec :: "nat \<Rightarrow> look \<Rightarrow> ('a \<Rightarrow> bool) \<Rightarrow> 'a pm \<Rightarrow> bool" where
  "spec k P E m \<longleftrightarrow>
     (\<forall>p. left p < k \<longrightarrow> P (next_type p) (second_type p) \<longrightarrow>
        (\<exists>x p'. run_state m (p, False) = (x, (p', False)) \<and> frame p p' \<and> (E x \<longrightarrow> left p' < left p)))"

text \<open>\<open>step k P E R m\<close> says more of a result that is not in \<open>E\<close>: the next tokens are still the same, and the
  result and their types are in \<open>R\<close>.\<close>

definition step :: "nat \<Rightarrow> look \<Rightarrow> ('a \<Rightarrow> bool) \<Rightarrow> ('a \<Rightarrow> look) \<Rightarrow> 'a pm \<Rightarrow> bool" where
  "step k P E R m \<longleftrightarrow>
     (\<forall>p. left p < k \<longrightarrow> P (next_type p) (second_type p) \<longrightarrow>
        (\<exists>x p'. run_state m (p, False) = (x, (p', False)) \<and> frame p p' \<and>
           (if E x then left p' < left p
            else same_look p p' \<and> R x (next_type p) (second_type p))))"

abbreviation anything :: look where "anything \<equiv> (\<lambda>_ _. True)"
abbreviation live :: look where "live \<equiv> (\<lambda>y _. y \<noteq> TOKEN_EOF)"
abbreviation always :: "'a \<Rightarrow> bool" where "always \<equiv> (\<lambda>_. True)"
abbreviation never :: "'a \<Rightarrow> bool" where "never \<equiv> (\<lambda>_. False)"

text \<open>A routine that can be called at any place, and eats a token unless there is none.\<close>

definition eats :: "nat \<Rightarrow> 'a pm \<Rightarrow> bool" where
  "eats k m \<longleftrightarrow> spec k anything never m \<and> spec k live always m"

section \<open>Frames\<close>

lemma frame_refl [simp]: "frame p p"
  by (simp add: frame_def)

lemma frame_trans: "frame p q \<Longrightarrow> frame q r \<Longrightarrow> frame p r"
  by (auto simp: frame_def)

lemma frame_left: "frame p q \<Longrightarrow> left q \<le> left p"
  by (simp add: frame_def)

lemma same_look_refl [simp]: "same_look p p"
  by (simp add: same_look_def)

lemma same_look_trans: "same_look p q \<Longrightarrow> same_look q r \<Longrightarrow> same_look p r"
  by (simp add: same_look_def)

lemma same_look_view: "view q = view p \<Longrightarrow> same_look p q"
  by (simp add: same_look_def next_type_def second_type_def)

lemma run_lift [simp]: "run_state (lift f) (p, b) = (fst (f p), (snd (f p), b))"
  by (simp add: lift_def split_beta)

section \<open>Rules for the control structures\<close>

lemma specI:
  assumes "\<And>p. left p < k \<Longrightarrow> P (next_type p) (second_type p) \<Longrightarrow>
    \<exists>x p'. run_state m (p, False) = (x, (p', False)) \<and> frame p p' \<and> (E x \<longrightarrow> left p' < left p)"
  shows "spec k P E m"
  using assms by (simp add: spec_def)

lemma specE:
  assumes "spec k P E m" "left p < k" "P (next_type p) (second_type p)"
  obtains x p' where "run_state m (p, False) = (x, (p', False))" "frame p p'" "E x \<Longrightarrow> left p' < left p"
  using assms unfolding spec_def by blast

lemma stepE:
  assumes "step k P E R m" "left p < k" "P (next_type p) (second_type p)"
  obtains (eaten) x p' where "run_state m (p, False) = (x, (p', False))" "frame p p'" "E x" "left p' < left p"
    | (same) x p' where "run_state m (p, False) = (x, (p', False))" "frame p p'" "\<not> E x" "same_look p p'"
        "R x (next_type p) (second_type p)"
proof -
  obtain x p' where "run_state m (p, False) = (x, (p', False))" "frame p p'"
    "if E x then left p' < left p else same_look p p' \<and> R x (next_type p) (second_type p)"
    using assms unfolding step_def by blast
  then show ?thesis using eaten same by (cases "E x") auto
qed

lemma spec_weaken:
  "spec k' P' E' m \<Longrightarrow> k \<le> k' \<Longrightarrow> (\<And>y z. P y z \<Longrightarrow> P' y z) \<Longrightarrow> (\<And>x. E x \<Longrightarrow> E' x) \<Longrightarrow> spec k P E m"
  unfolding spec_def by (meson order_less_le_trans)

lemma spec_0 [simp]: "spec 0 P E m"
  by (simp add: spec_def)

lemma spec_ret: "(\<And>y z. P y z \<Longrightarrow> \<not> E x) \<Longrightarrow> spec k P E (ret x)"
  by (rule specI) auto

lemma spec_if: "(b \<Longrightarrow> spec k P E m) \<Longrightarrow> (\<not> b \<Longrightarrow> spec k P E m') \<Longrightarrow> spec k P E (if b then m else m')"
  by simp

lemma spec_let: "(\<And>x. spec k P E (f x)) \<Longrightarrow> spec k P E (let x = a in f x)"
  by simp

lemma spec_case_option:
  "spec k P E m \<Longrightarrow> (\<And>x. spec k P E (f x)) \<Longrightarrow> spec k P E (case a of None \<Rightarrow> m | Some x \<Rightarrow> f x)"
  by (cases a) simp_all

lemma spec_case_prod: "(\<And>x y. spec k P E (f x y)) \<Longrightarrow> spec k P E (case a of (x, y) \<Rightarrow> f x y)"
  by (cases a) simp

text \<open>One action after another: when the first has eaten a token, the bound goes down by one.\<close>

lemma spec_bind:
  assumes m: "spec k P E1 m"
    and less: "\<And>k' x. Suc k' = k \<Longrightarrow> E1 x \<Longrightarrow> spec k' anything never (f x)"
    and same: "\<And>x. \<not> E1 x \<Longrightarrow> spec k anything E (f x)"
  shows "spec k P E (State_Monad.bind m f)"
proof (rule specI)
  fix p assume a: "left p < k" "P (next_type p) (second_type p)"
  obtain x q where q: "run_state m (p, False) = (x, (q, False))" "frame p q" "E1 x \<Longrightarrow> left q < left p"
    using m a unfolding spec_def by blast
  obtain y r where r: "run_state (f x) (q, False) = (y, (r, False))" "frame q r" "E y \<Longrightarrow> left r < left p"
  proof (cases "E1 x")
    case True
    obtain k' where "Suc k' = k" using a(1) by (cases k) auto
    then have "spec k' anything never (f x)" "left q < k'" using less True q(3) a(1) by auto
    then obtain y r where "run_state (f x) (q, False) = (y, (r, False))" "frame q r" by (auto elim: specE)
    then show ?thesis using that q(3) [OF True] frame_left le_less_trans by blast
  next
    case False
    have "left q < k" using a(1) frame_left [OF q(2)] by linarith
    then obtain y r where "run_state (f x) (q, False) = (y, (r, False))" "frame q r" "E y \<Longrightarrow> left r < left q"
      using same [OF False] by (auto elim: specE)
    then show ?thesis using that frame_left [OF q(2)] order_less_le_trans by blast
  qed
  then show "\<exists>x p'. run_state (State_Monad.bind m f) (p, False) = (x, (p', False)) \<and> frame p p' \<and>
      (E x \<longrightarrow> left p' < left p)"
    using frame_trans [OF q(2) r(2)] by (intro exI [of _ y] exI [of _ r]) (simp add: q(1))
qed

lemma spec_step:
  assumes m: "step k P E1 R m"
    and less: "\<And>k' x. Suc k' = k \<Longrightarrow> E1 x \<Longrightarrow> spec k' anything never (f x)"
    and same: "\<And>x. \<not> E1 x \<Longrightarrow> spec k (\<lambda>y z. P y z \<and> R x y z) E (f x)"
  shows "spec k P E (State_Monad.bind m f)"
proof (rule specI)
  fix p assume a: "left p < k" "P (next_type p) (second_type p)"
  obtain x q y r where "run_state m (p, False) = (x, (q, False))" "frame p q"
    "run_state (f x) (q, False) = (y, (r, False))" "frame q r" "E y \<Longrightarrow> left r < left p"
    using m a
  proof (cases rule: stepE)
    case (eaten x q)
    obtain k' where "Suc k' = k" using a(1) by (cases k) auto
    then have "spec k' anything never (f x)" "left q < k'" using less eaten a(1) by auto
    then obtain y r where "run_state (f x) (q, False) = (y, (r, False))" "frame q r" by (auto elim: specE)
    then show ?thesis using that eaten frame_left le_less_trans by blast
  next
    case (same x q)
    have "left q < k" using a(1) frame_left [OF same(2)] by linarith
    moreover have "P (next_type q) (second_type q) \<and> R x (next_type q) (second_type q)"
      using a(2) same(4,5) by (simp add: same_look_def)
    ultimately obtain y r where "run_state (f x) (q, False) = (y, (r, False))" "frame q r" "E y \<Longrightarrow> left r < left q"
      using assms(3) [OF same(3)] by (auto elim: specE)
    then show ?thesis using that same(1,2) frame_left [OF same(2)] order_less_le_trans by blast
  qed
  then show "\<exists>x p'. run_state (State_Monad.bind m f) (p, False) = (x, (p', False)) \<and> frame p p' \<and>
      (E x \<longrightarrow> left p' < left p)"
    using frame_trans by (intro exI [of _ y] exI [of _ r]) simp
qed

lemma eatsI: "spec k anything never m \<Longrightarrow> spec k live always m \<Longrightarrow> eats k m"
  by (simp add: eats_def)

lemma eats_spec: "eats k m \<Longrightarrow> spec k anything never m" "eats k m \<Longrightarrow> spec k live always m"
  by (simp_all add: eats_def)

lemma spec_quiet: "spec k anything never m \<Longrightarrow> spec k P never m"
  by (rule spec_weaken) auto

lemma spec_bind_quiet:
  "spec k anything never m \<Longrightarrow> (\<And>x. spec k anything never (f x)) \<Longrightarrow> spec k P never (State_Monad.bind m f)"
  by (rule spec_bind [where ?E1.0 = never]) (auto intro: spec_quiet)

text \<open>What follows a routine that eats is quiet.\<close>

lemma spec_bind_eaten:
  assumes "spec k P always m" "\<And>k' x. Suc k' = k \<Longrightarrow> spec k' anything never (f x)"
  shows "spec k P E (State_Monad.bind m f)"
  using assms by (rule spec_bind) auto

lemma eats_bind:
  assumes "eats k m" "\<And>x. spec k anything never (f x)"
  shows "eats k (State_Monad.bind m f)"
proof (rule eatsI)
  show "spec k anything never (State_Monad.bind m f)"
    using eats_spec(1) [OF assms(1)] assms(2) by (rule spec_bind_quiet)
  show "spec k live always (State_Monad.bind m f)"
    using eats_spec(2) [OF assms(1)] by (rule spec_bind_eaten) (rule spec_weaken [OF assms(2)], auto)
qed

lemma eats_if: "eats k m \<Longrightarrow> eats k m' \<Longrightarrow> eats k (if b then m else m')"
  by simp

lemma spec_pair: "eats k m \<Longrightarrow> (\<And>y z. P y z \<Longrightarrow> y \<noteq> TOKEN_EOF) \<Longrightarrow> spec k P E m"
  by (rule spec_weaken [OF eats_spec(2)]) auto

section \<open>Rules for the actions\<close>

lemma step_look:
  assumes "\<And>p. view (snd (g p)) = view p" "\<And>p. frame p (snd (g p))"
    "\<And>p. R (fst (g p)) (next_type p) (second_type p)"
  shows "step k P never R (lift g)"
  unfolding step_def using assms by (auto intro!: same_look_view)

lemma left_skipIgnored: "left (skipIgnoredTokens p) \<le> left p"
  by (simp add: ahead_skipIgnored length_dropWhile_le)

lemma frame_skipIgnored [simp]: "frame p (skipIgnoredTokens p)"
  using left_skipIgnored [of p] by (simp add: frame_def) (simp add: skipIgnoredTokens_def Let_def)

lemma frame_peekToken [simp]: "frame p (snd (peekToken p))"
  by (simp add: peekToken_view)

lemma frame_p_isAtEnd [simp]: "frame p (snd (p_isAtEnd p))"
  using frame_peekToken [of p] by (simp add: p_isAtEnd_def case_prod_beta Let_def)

lemma frame_check [simp]: "frame p (snd (check tt p))"
  by (simp add: check_def case_prod_beta Let_def)
    (metis frame_p_isAtEnd frame_peekToken frame_trans)

lemma frame_peekAt [simp]: "frame p (snd (peekAt i p))"
  by (simp add: peekAt_def Let_def)

lemma peekNext_type: "Type (fst (peekNextToken p)) = second_type p"
proof -
  have "filter (\<lambda>t. \<not> isIgnored t) (ahead (skipIgnoredTokens p)) = view p"
    using view_skipIgnored [of p] by (simp add: view_def)
  then show ?thesis
    by (auto simp: peekNextToken_def peekAt_def second_type_def eof_token_def Let_def split: list.split)
qed

lemma view_peekAt [simp]: "view (snd (peekAt i p)) = view p"
  by (simp add: peekAt_def Let_def)

lemma step_sees: "step k P never (\<lambda>b y z. b \<longleftrightarrow> y \<noteq> TOKEN_EOF \<and> y = tt) (sees tt)"
  unfolding sees_def by (rule step_look) auto

lemma step_peek_tok: "step k P never (\<lambda>t y z. Type t = y) peek_tok"
  unfolding peek_tok_def by (rule step_look) auto

lemma step_peek_next: "step k P never (\<lambda>t y z. Type t = z) peek_next"
  unfolding peek_next_def by (rule step_look) (auto simp: peekNext_type, auto simp: peekNextToken_def)

lemma step_peek_at: "step k P never (\<lambda>t. anything) (peek_at i)"
  unfolding peek_at_def by (rule step_look) auto

lemma step_at_end: "step k P never (\<lambda>b y z. b \<longleftrightarrow> y = TOKEN_EOF) at_end"
  unfolding at_end_def by (rule step_look) auto

lemma step_prev_tok: "step k P never (\<lambda>t. anything) prev_tok"
  unfolding prev_tok_def by (rule step_look) auto

lemma step_get_parser: "step k P never (\<lambda>t. anything) get_parser"
  unfolding get_parser_def by (rule step_look) auto

lemma frame_p_error [simp]: "frame p (p_error t m p)"
  by (simp add: frame_def p_error_def ahead_def)

lemma step_report: "step k P never (\<lambda>t. anything) (report t m)"
  unfolding report_def by (rule step_look) auto

lemma step_identifier_follower: "step k P never (\<lambda>t. anything) identifier_follower"
  unfolding identifier_follower_def
  by (rule step_look) (auto simp: isIdentifierFollower_def peekNextToken_def case_prod_beta Let_def)

lemma step_drain: "step k P never (\<lambda>t. anything) drain"
  unfolding drain_def
  by (rule step_look) (auto simp: drainDirectives_def view_def ahead_def frame_def)

lemma frame_p_advance [simp]: "frame p (snd (p_advance p))"
proof -
  let ?q = "snd (p_isAtEnd p)"
  have "frame ?q (?q\<lparr>pos := pos ?q + 1\<rparr>)" by (simp add: frame_def ahead_def)
  then have "frame p (?q\<lparr>pos := pos ?q + 1\<rparr>)" by (rule frame_trans [OF frame_p_isAtEnd])
  then show ?thesis by (simp add: p_advance_def case_prod_beta Let_def)
qed

lemma left_p_advance: "next_type p \<noteq> TOKEN_EOF \<Longrightarrow> left (snd (p_advance p)) < left p"
proof -
  assume a: "next_type p \<noteq> TOKEN_EOF"
  let ?q = "snd (p_isAtEnd p)"
  have "view ?q \<noteq> []" using a p_advance_view(3) by simp
  then have "ahead ?q \<noteq> []" by (auto simp: view_def)
  then have "left (?q\<lparr>pos := pos ?q + 1\<rparr>) < left ?q" by (simp add: ahead_def)
  moreover have "left ?q \<le> left p" using frame_p_isAtEnd by (rule frame_left)
  ultimately show ?thesis using a by (simp add: p_advance_def case_prod_beta Let_def)
qed

lemma step_adv: "(\<And>y z. P y z \<Longrightarrow> y \<noteq> TOKEN_EOF) \<Longrightarrow> step k P always R adv"
  unfolding step_def adv_def using left_p_advance by auto

lemma quiet_adv: "spec k anything never adv"
  by (rule specI) (simp add: adv_def)

lemma match_types_cases:
  "frame p (snd (match_types tts p)) \<and>
   (if fst (match_types tts p) then left (snd (match_types tts p)) < left p
    else view (snd (match_types tts p)) = view p \<and> (next_type p \<in> set tts \<longrightarrow> next_type p = TOKEN_EOF))"
proof (induction tts arbitrary: p)
  case Nil
  then show ?case by (simp add: match_types.simps)
next
  case (Cons tt tts)
  let ?c = "snd (check tt p)"
  show ?case
  proof (cases "fst (check tt p)")
    case True
    have "left (snd (p_advance ?c)) < left ?c" using True by (intro left_p_advance) auto
    moreover have "left ?c \<le> left p" using frame_check by (rule frame_left)
    moreover have "frame p (snd (p_advance ?c))" using frame_check frame_p_advance by (rule frame_trans)
    ultimately show ?thesis using True by (simp add: match_types.simps case_prod_beta Let_def del: check_simps)
  next
    case False
    have m: "match_types (tt # tts) p = match_types tts ?c"
      using False by (simp add: match_types.simps case_prod_beta Let_def del: check_simps)
    have "left ?c \<le> left p" using frame_check by (rule frame_left)
    then show ?thesis
      using Cons [of ?c] False frame_trans [OF frame_check, of tt p] unfolding m by (auto split: if_splits)
  qed
qed

lemma step_accept: "step k P (\<lambda>b. b) (\<lambda>b y z. y \<in> set tts \<longrightarrow> y = TOKEN_EOF) (accept tts)"
  unfolding step_def accept_def
proof (intro allI impI exI conjI)
  fix p show "run_state (lift (match_types tts)) (p, False) =
      (fst (match_types tts p), (snd (match_types tts p), False))" by simp
qed (use match_types_cases [of _ tts] in \<open>auto intro!: same_look_view split: if_splits\<close>)

lemma frame_consume [simp]: "frame p (snd (consume tt m p))"
  by (simp add: consume_def case_prod_beta Let_def del: check_simps)
    (metis frame_check frame_p_advance frame_p_error frame_peekToken frame_trans)

lemma quiet_must: "spec k anything never (must tt m)"
  by (rule specI) (simp add: must_def)

lemma quiet_set_back: "frame p q \<Longrightarrow> frame p (q\<lparr>pos := pos p\<rparr>)"
  by (auto simp: frame_def ahead_def)

lemma frame_skipNewlines:
  "frame p (skipNewlines p) \<and>
   (if next_type p = TOKEN_NEWLINE then left (skipNewlines p) < left p
    else view (skipNewlines p) = view p)"
proof (induction p rule: skipNewlines.induct)
  case (1 p)
  let ?m = "match_types [TOKEN_NEWLINE] p"
  have s: "skipNewlines p = (if fst ?m then skipNewlines (snd ?m) else snd ?m)"
    by (subst skipNewlines.simps) (simp add: case_prod_beta Let_def)
  have f: "frame p (snd ?m)" using match_types_cases [of p "[TOKEN_NEWLINE]"] by simp
  show ?case
  proof (cases "fst ?m")
    case True
    have "frame (snd ?m) (skipNewlines (snd ?m))" using 1 True by (metis prod.collapse)
    moreover have "left (snd ?m) < left p" "next_type p = TOKEN_NEWLINE"
      using match_types_cases [of p "[TOKEN_NEWLINE]"] True by (simp_all add: match_one_simps)
    ultimately show ?thesis using s True f by (auto intro: frame_trans dest: frame_left)
  next
    case False
    then show ?thesis using s f by (auto simp: match_one_simps)
  qed
qed

lemma quiet_newlines: "spec k anything never newlines"
  by (rule specI) (simp add: newlines_def frame_skipNewlines)

lemma spec_newlines:
  assumes "\<And>k'. Suc k' = k \<Longrightarrow> spec k' anything never (f ())"
    and "spec k (\<lambda>y z. P y z \<and> y \<noteq> TOKEN_NEWLINE) E (f ())"
  shows "spec k P E (State_Monad.bind newlines f)"
proof (rule specI)
  fix p assume a: "left p < k" "P (next_type p) (second_type p)"
  let ?q = "skipNewlines p"
  have f: "frame p ?q" using frame_skipNewlines by blast
  show "\<exists>x p'. run_state (State_Monad.bind newlines f) (p, False) = (x, (p', False)) \<and> frame p p' \<and>
      (E x \<longrightarrow> left p' < left p)"
  proof (cases "next_type p = TOKEN_NEWLINE")
    case True
    then have l: "left ?q < left p" using frame_skipNewlines [of p] by simp
    obtain k' where k: "Suc k' = k" using a(1) by (cases k) auto
    then have "left ?q < k'" using a(1) l by linarith
    then obtain y r where "run_state (f ()) (?q, False) = (y, (r, False))" "frame ?q r"
      using assms(1) [OF k] by (auto elim: specE)
    then show ?thesis
      using l frame_trans [OF f] frame_left [of ?q r] by (auto simp: newlines_def)
  next
    case False
    then have v: "same_look p ?q" using frame_skipNewlines [of p] by (intro same_look_view) simp
    have "left ?q < k" using a(1) frame_left [OF f] by linarith
    moreover have "P (next_type ?q) (second_type ?q) \<and> next_type ?q \<noteq> TOKEN_NEWLINE"
      using v a(2) False by (simp add: same_look_def)
    ultimately obtain y r where "run_state (f ()) (?q, False) = (y, (r, False))" "frame ?q r"
      "E y \<Longrightarrow> left r < left ?q"
      using assms(2) by (auto elim: specE)
    then show ?thesis
      using frame_trans [OF f] frame_left [OF f] order_less_le_trans [of "left r" "left ?q" "left p"]
      by (auto simp: newlines_def)
  qed
qed

text \<open>\<^verbatim>\<open>parseTypeAnnotation\<close> keeps the frame: so does each of the actions it is made of.\<close>

definition framed :: "parser \<Rightarrow> ('a \<times> parser) option \<Rightarrow> bool" where
  "framed p r \<longleftrightarrow> (\<forall>a q. r = Some (a, q) \<longrightarrow> frame p q)"

lemma framed_bind: "framed p r \<Longrightarrow> (\<And>a q. frame p q \<Longrightarrow> framed p (g (a, q))) \<Longrightarrow> framed p (Option.bind r g)"
  by (cases r) (auto simp: framed_def)

lemma framed_if: "(b \<Longrightarrow> framed p r) \<Longrightarrow> (\<not> b \<Longrightarrow> framed p r') \<Longrightarrow> framed p (if b then r else r')"
  by simp

lemma framed_Some [simp]: "framed p (Some r) \<longleftrightarrow> frame p (snd r)"
  by (cases r) (simp add: framed_def)

lemma framed_None [simp]: "framed p None"
  by (simp add: framed_def)

lemma frame_steps:
  "frame p q \<Longrightarrow> frame p (snd (p_advance q))" "frame p q \<Longrightarrow> frame p (snd (peekToken q))"
  "frame p q \<Longrightarrow> frame p (snd (check tt q))" "frame p q \<Longrightarrow> frame p (snd (consume tt m q))"
  "frame p q \<Longrightarrow> frame p (p_error t m q)" "frame p q \<Longrightarrow> frame p (snd (match_types tts q))"
  using frame_trans frame_p_advance frame_peekToken frame_check frame_consume frame_p_error
    match_types_cases by blast+

lemma framed_parseType:
  "(\<forall>p q. frame p q \<longrightarrow> framed p (parseType n q)) \<and> (\<forall>p q. frame p q \<longrightarrow> framed p (parseParams n q)) \<and>
   (\<forall>p q. frame p q \<longrightarrow> framed p (parseCommaTypes n q)) \<and>
   (\<forall>p q. frame p q \<longrightarrow> framed p (parseReturns n q)) \<and> (\<forall>p q. frame p q \<longrightarrow> framed p (parseReturnList n q))"
proof (induction n)
  case (Suc n)
  then have IH: "framed p (parseType n q)" "framed p (parseParams n q)" "framed p (parseCommaTypes n q)"
    "framed p (parseReturns n q)" "framed p (parseReturnList n q)" if "frame p q" for p q
    using that by blast+
  have nt: "frame p q \<Longrightarrow> frame p (snd (parseNamedType q))" for p q
    by (simp add: parseNamedType_def case_prod_beta Let_def frame_steps)
  have bt: "frame p q \<Longrightarrow> frame p (snd (badType q))" for p q
    by (simp add: badType_def case_prod_beta Let_def frame_steps)
  note rules = framed_bind framed_if framed_Some [THEN iffD2] IH frame_steps nt bt
  show ?case
    by (intro conjI allI impI;
        simp only: parseType.simps parseParams.simps parseCommaTypes.simps parseReturns.simps
          parseReturnList.simps Let_def case_prod_beta;
        (intro rules | assumption | simp only: prod.case fst_conv snd_conv Let_def case_prod_beta)+)
qed simp

lemma quiet_type_annotation: "spec k anything never type_annotation"
proof (rule specI)
  fix p :: parser
  have "framed p (parseType (2 * vlen p + 1) p)" using framed_parseType frame_refl by blast
  then have "frame p (snd (parseTypeAnnotation p))" unfolding parseTypeAnnotation_eq framed_Some .
  then show "\<exists>x p'. run_state type_annotation (p, False) = (x, (p', False)) \<and> frame p p' \<and> (False \<longrightarrow> left p' < left p)"
    by (simp add: type_annotation_def)
qed

section \<open>One rule for each action in front of a continuation\<close>

lemma spec_look:
  "step k P never R m \<Longrightarrow> (\<And>x. spec k (\<lambda>y z. P y z \<and> R x y z) E (f x)) \<Longrightarrow> spec k P E (State_Monad.bind m f)"
  by (rule spec_step) auto

lemmas spec_looks = step_peek_tok [THEN spec_look] step_peek_next [THEN spec_look] step_peek_at [THEN spec_look]
  step_at_end [THEN spec_look] step_prev_tok [THEN spec_look] step_get_parser [THEN spec_look]
  step_report [THEN spec_look] step_identifier_follower [THEN spec_look] step_drain [THEN spec_look]

lemma spec_sees:
  assumes "tt \<noteq> TOKEN_EOF"
    and "spec k (\<lambda>y z. P y z \<and> y = tt) E (f True)" "spec k (\<lambda>y z. P y z \<and> y \<noteq> tt) E (f False)"
  shows "spec k P E (State_Monad.bind (sees tt) f)"
proof (rule spec_look [OF step_sees])
  fix b
  show "spec k (\<lambda>y z. P y z \<and> b = (y \<noteq> TOKEN_EOF \<and> y = tt)) E (f b)"
    by (cases b) (auto intro: spec_weaken [OF assms(2)] spec_weaken [OF assms(3)] simp: assms(1))
qed

lemma spec_accept:
  assumes "\<And>k'. Suc k' = k \<Longrightarrow> spec k' anything never (f True)"
    and "spec k (\<lambda>y z. P y z \<and> (y \<in> set tts \<longrightarrow> y = TOKEN_EOF)) E (f False)"
  shows "spec k P E (State_Monad.bind (accept tts) f)"
proof (rule spec_step [OF step_accept])
  fix k' b assume "Suc k' = k" "b"
  then show "spec k' anything never (f b)" using assms(1) by simp
next
  fix b assume "\<not> b"
  then show "spec k (\<lambda>y z. P y z \<and> (y \<in> set tts \<longrightarrow> y = TOKEN_EOF)) E (f b)" using assms(2) by simp
qed

lemma spec_adv:
  "(\<And>y z. P y z \<Longrightarrow> y \<noteq> TOKEN_EOF) \<Longrightarrow> (\<And>k' t. Suc k' = k \<Longrightarrow> spec k' anything never (f t)) \<Longrightarrow>
     spec k P E (State_Monad.bind adv f)"
  by (rule spec_step [OF step_adv]) auto

lemma spec_if_True: "spec k P E m \<Longrightarrow> spec k P E (if True then m else m')"
  by simp

lemma spec_if_False: "spec k P E m' \<Longrightarrow> spec k P E (if False then m else m')"
  by simp

lemma spec_sees_any_Nil: "spec k P E (f False) \<Longrightarrow> spec k P E (State_Monad.bind (sees_any []) f)"
  unfolding spec_def by simp

lemma spec_sees_any:
  "tt \<noteq> TOKEN_EOF \<Longrightarrow> spec k (\<lambda>y z. P y z \<and> y = tt) E (f True) \<Longrightarrow>
   spec k (\<lambda>y z. P y z \<and> y \<noteq> tt) E (State_Monad.bind (sees_any tts) f) \<Longrightarrow>
   spec k P E (State_Monad.bind (sees_any (tt # tts)) f)"
proof -
  have "State_Monad.bind (sees_any (tt # tts)) f =
      do { b \<leftarrow> sees tt; if b then f True else State_Monad.bind (sees_any tts) f }"
    by (rule state_ext) (simp split: prod.split)
  then show "tt \<noteq> TOKEN_EOF \<Longrightarrow> spec k (\<lambda>y z. P y z \<and> y = tt) E (f True) \<Longrightarrow>
     spec k (\<lambda>y z. P y z \<and> y \<noteq> tt) E (State_Monad.bind (sees_any tts) f) \<Longrightarrow> ?thesis"
    by (simp add: spec_sees)
qed

lemmas spec_rules = spec_if_True spec_if_False spec_if spec_let spec_case_option spec_case_prod
  spec_looks spec_sees spec_accept spec_newlines spec_sees_any_Nil spec_sees_any

section \<open>Rules for the loops\<close>

lemma quiet_ploop_n:
  assumes "\<And>s. spec k anything fst (body s)" "left p < k" "left p < n"
  shows "\<exists>x p'. run_state (ploop_n n body s) (p, False) = (x, (p', False)) \<and> frame p p'"
  using assms(2,3)
proof (induction n arbitrary: p s)
  case (Suc n)
  obtain r q where r: "run_state (body s) (p, False) = (r, (q, False))" "frame p q" "fst r \<Longrightarrow> left q < left p"
    using assms(1) [of s] Suc.prems(1) unfolding spec_def by blast
  show ?case
  proof (cases "fst r")
    case True
    then obtain x q' where "run_state (ploop_n n body (snd r)) (q, False) = (x, (q', False))" "frame q q'"
      using Suc.IH [of q "snd r"] Suc.prems r(3) by auto
    then show ?thesis using True r(1) frame_trans [OF r(2)] by auto
  next
    case False
    then show ?thesis using r(1,2) by auto
  qed
qed simp

lemma quiet_ploop: "(\<And>s. spec k anything fst (body s)) \<Longrightarrow> spec k anything never (ploop body s)"
proof (rule specI)
  fix p assume b: "\<And>s. spec k anything fst (body s)" "left p < k"
  then have "\<exists>x p'. run_state (ploop_n (Suc (left p)) body s) (p, False) = (x, (p', False)) \<and> frame p p'"
    by (intro quiet_ploop_n) auto
  then show "\<exists>x p'. run_state (ploop body s) (p, False) = (x, (p', False)) \<and> frame p p' \<and>
      (False \<longrightarrow> left p' < left p)"
    by (simp add: ploop_def del: ploop_n.simps)
qed

lemma quiet_accept: "spec k anything never (accept tts)"
  by (rule specI) (simp add: accept_def match_types_cases)

lemma quiet_step: "step k anything never R m \<Longrightarrow> spec k anything never m"
  unfolding step_def spec_def by (simp, meson)

lemmas quiet_looks = step_sees step_peek_tok step_peek_next step_peek_at step_at_end step_prev_tok
  step_get_parser step_report step_identifier_follower step_drain

lemma quiet_while_accept:
  assumes "\<And>k' s. Suc k' = k \<Longrightarrow> spec k' anything never (item s)"
  shows "spec k anything never (while_accept tts item s)"
  unfolding while_accept_def
  by (rule quiet_ploop, rule spec_step [OF step_accept])
    (auto intro!: spec_ret spec_bind_quiet assms)

lemma quiet_comma_list:
  assumes "\<And>s. spec k anything never (item s)"
  shows "spec k anything never (comma_list item s)"
  unfolding comma_list_def
proof (rule quiet_ploop, rule spec_bind [where ?E1.0 = never])
  fix s show "spec k anything never (item s)" by (rule assms)
qed (auto intro!: spec_step [OF step_accept] spec_ret)

lemma quiet_comma_list_until:
  assumes "\<And>s. spec k anything never (item s)"
  shows "spec k anything never (comma_list_until close item s)"
  unfolding comma_list_until_def
proof (rule quiet_ploop, rule spec_bind [where ?E1.0 = never])
  fix s show "spec k anything never (item s)" by (rule assms)
qed (auto intro!: spec_step [OF step_accept] spec_step [OF step_sees] spec_ret spec_if)

text \<open>The gap of a loop over lines eats its tokens or leaves the next one.\<close>

lemma quiet_until_close:
  fixes item :: "'s \<Rightarrow> 's pm"
  assumes item: "\<And>s. eats k (item s)" and close: "close \<noteq> TOKEN_EOF"
    and gap: "\<And>(f :: unit \<Rightarrow> (bool \<times> 's) pm) E P. (\<And>k'. Suc k' = k \<Longrightarrow> spec k' anything never (f ())) \<Longrightarrow>
           spec k P E (f ()) \<Longrightarrow> spec k P E (State_Monad.bind gap f)"
  shows "spec k anything never (until_close close gap item s)"
  unfolding until_close_def
proof (rule quiet_ploop)
  fix s
  let ?r = "do { d \<leftarrow> sees close; if d then ret (False, s) else do { s \<leftarrow> item s; ret (True, s) } }"
  have ret: "spec k' P E (ret (b, s))" if "\<not> E (b, s)" for k' P E b and s :: 's
    using that by (auto intro: spec_ret)
  have quiet: "spec k' anything never ?r" if "Suc k' = k" for k'
    using that spec_weaken [OF eats_spec(1) [OF item [of s]], of k']
    by (auto intro!: quiet_step [OF step_sees] ret spec_bind_quiet)
  have last: "spec k live fst ?r"
  proof (rule spec_sees [OF close])
    show "spec k (\<lambda>y z. y \<noteq> TOKEN_EOF \<and> y \<noteq> close) fst
        (if False then ret (False, s) else do { s \<leftarrow> item s; ret (True, s) })"
      by (rule spec_if_False, rule spec_bind_eaten [OF spec_weaken [OF eats_spec(2) [OF item [of s]]]])
        (auto intro: ret)
  qed (auto intro: ret)
  show "spec k anything fst
      (do { d \<leftarrow> sees close; if d then ret (False, s) else
         do { e \<leftarrow> at_end; if e then ret (False, s) else do { gap; ?r } } })"
  proof (rule spec_sees [OF close])
    show "spec k (\<lambda>y z. True \<and> y \<noteq> close) fst (if False then ret (False, s) else
         do { e \<leftarrow> at_end; if e then ret (False, s) else do { gap; ?r } })"
    proof (rule spec_if_False, rule spec_look [OF step_at_end], rule spec_if)
      fix e assume "\<not> e"
      then show "spec k (\<lambda>y z. (True \<and> y \<noteq> close) \<and> e = (y = TOKEN_EOF)) fst (do { gap; ?r })"
        by (intro gap quiet spec_weaken [OF last]) auto
    qed (auto intro: ret)
  qed (auto intro: ret)
qed

lemma quiet_indented_loop: "(\<And>s. eats k (item s)) \<Longrightarrow> spec k anything never (indented_loop item s)"
  by (rule quiet_until_close) (auto intro: spec_newlines spec_weaken)

lemma quiet_append_item: "spec k anything never m \<Longrightarrow> spec k anything never (append_item m xs)"
  unfolding append_item_def by (auto intro!: spec_bind_quiet spec_ret)

lemma quiet_report_here: "spec k anything never (report_here m)"
  unfolding report_here_def
  by (auto intro!: spec_bind_quiet quiet_step [OF step_peek_tok] quiet_step [OF step_report])

lemma quiet_or_back:
  assumes "spec k anything never m" "spec k anything never m'"
  shows "spec k anything never (or_back m m')"
proof (rule specI)
  fix p assume a: "left p < k" "anything (next_type p) (second_type p)"
  obtain r q where r: "run_state m (p, False) = (r, (q, False))" "frame p q"
    using assms(1) a unfolding spec_def by blast
  have f: "frame p (q\<lparr>pos := pos p\<rparr>)" using r(2) by (rule quiet_set_back)
  then have "left (q\<lparr>pos := pos p\<rparr>) < k" using a(1) frame_left le_less_trans by blast
  then obtain y q' where "run_state m' (q\<lparr>pos := pos p\<rparr>, False) = (y, (q', False))"
    "frame (q\<lparr>pos := pos p\<rparr>) q'"
    using assms(2) unfolding spec_def by blast
  then show "\<exists>x p'. run_state (or_back m m') (p, False) = (x, (p', False)) \<and> frame p p' \<and>
      (False \<longrightarrow> left p' < left p)"
    using r frame_trans [OF f] by (cases r) (auto simp: or_back_def get_parser_def set_pos_def)
qed

lemma frame_inline: "frame (p\<lparr>allowInlineOnErr := a\<rparr>) q \<Longrightarrow> frame p (q\<lparr>allowInlineOnErr := allowInlineOnErr p\<rparr>)"
  by (auto simp: frame_def ahead_def)

lemma spec_with_inline_onerr:
  assumes "spec k P E m" shows "spec k P E (with_inline_onerr a m)"
proof (rule specI)
  fix p assume a: "left p < k" "P (next_type p) (second_type p)"
  let ?p = "p\<lparr>allowInlineOnErr := a\<rparr>"
  have v: "view ?p = view p" "left ?p = left p" by (simp_all add: view_def ahead_def)
  then have "left ?p < k" "P (next_type ?p) (second_type ?p)"
    using a by (simp_all add: next_type_def second_type_def)
  then obtain x q where x: "run_state m (?p, False) = (x, (q, False))" "frame ?p q" "E x \<Longrightarrow> left q < left ?p"
    using assms unfolding spec_def by blast
  have "left (q\<lparr>allowInlineOnErr := allowInlineOnErr p\<rparr>) = left q" by (simp add: ahead_def)
  then show "\<exists>x p'. run_state (with_inline_onerr a m) (p, False) = (x, (p', False)) \<and> frame p p' \<and>
      (E x \<longrightarrow> left p' < left p)"
    using x(1,3) frame_inline [OF x(2)] v(2) by (auto simp: with_inline_onerr_def get_parser_def)
qed

text \<open>A routine that may be called anywhere.\<close>

lemmas quiet_actions = quiet_adv quiet_must quiet_newlines quiet_type_annotation quiet_accept
  quiet_looks [THEN quiet_step] quiet_report_here
lemmas quiet_loops = quiet_while_accept quiet_comma_list quiet_comma_list_until quiet_indented_loop
  quiet_append_item quiet_or_back spec_with_inline_onerr

end
