(* ===== verification/ExprReads.thy ===== *)
theory ExprReads
  imports ExprFormat DeclParser ParserCalculus
begin

text \<open>
  How the expression parser reads the tokens of a printed expression. A parser that only moves forward
  is \<open>fwd p k\<close>; \<open>parses\<close> and \<open>reaches\<close> say what a level of the parser does with the tokens of an
  expression, in front of a token that ends it.
\<close>

section \<open>Actions that only move forward\<close>

definition fwd :: "parser \<Rightarrow> nat \<Rightarrow> parser" where
  "fwd p k = p\<lparr>pos := pos p + k\<rparr>"

lemma fwd_simps [simp]:
  "ahead (fwd p k) = drop k (ahead p)" "fwd (fwd p i) j = fwd p (i + j)" "fwd p 0 = p"
  "perrors (fwd p k) = perrors p" "allowInlineOnErr (fwd p k) = allowInlineOnErr p"
  by (simp_all add: fwd_def ahead_def add.commute)

definition ready :: "parser \<Rightarrow> bool" where
  "ready p \<longleftrightarrow> ahead p \<noteq> [] \<and> \<not> isIgnored (hd (ahead p))"

abbreviation head_type :: "parser \<Rightarrow> token_type" where "head_type p \<equiv> Type (hd (ahead p))"

lemma skip_ready [simp]: "ready p \<Longrightarrow> skipIgnoredTokens p = p"
  by (cases "ahead p") (simp_all add: ready_def skipIgnoredTokens_def Let_def)

lemma peek_ready: "ready p \<Longrightarrow> peekToken p = (hd (ahead p), p)"
  by (auto simp: peekToken_def ready_def ahead_def Let_def hd_drop_conv_nth)

lemma at_end_ready: "ready p \<Longrightarrow> p_isAtEnd p = (head_type p = TOKEN_EOF, p)"
  using peek_ready [of p] by (auto simp: p_isAtEnd_def ready_def ahead_def)

lemma advance_ready: "ready p \<Longrightarrow> head_type p \<noteq> TOKEN_EOF \<Longrightarrow> p_advance p = (hd (ahead p), fwd p 1)"
  using at_end_ready [of p]
  by (auto simp: p_advance_def previousToken_def fwd_def ready_def ahead_def hd_drop_conv_nth)

lemma check_ready: "ready p \<Longrightarrow> check tt p = (head_type p \<noteq> TOKEN_EOF \<and> head_type p = tt, p)"
  using at_end_ready [of p] peek_ready [of p] by (auto simp: check_def)

lemma match_ready:
  "ready p \<Longrightarrow> match_types tts p =
     (if head_type p \<noteq> TOKEN_EOF \<and> head_type p \<in> set tts then (True, fwd p 1) else (False, p))"
  by (induction tts) (auto simp: match_types.simps check_ready advance_ready)

lemma run_ready:
  "ready p \<Longrightarrow> run_state peek_tok (p, b) = (hd (ahead p), (p, b))"
  "ready p \<Longrightarrow> run_state (sees tt) (p, b) = (head_type p \<noteq> TOKEN_EOF \<and> head_type p = tt, (p, b))"
  "ready p \<Longrightarrow> run_state (accept tts) (p, b) =
     (if head_type p \<noteq> TOKEN_EOF \<and> head_type p \<in> set tts then (True, (fwd p 1, b)) else (False, (p, b)))"
  "ready p \<Longrightarrow> head_type p \<noteq> TOKEN_EOF \<Longrightarrow> run_state adv (p, b) = (hd (ahead p), (fwd p 1, b))"
  "ready p \<Longrightarrow> head_type p = tt \<Longrightarrow> tt \<noteq> TOKEN_EOF \<Longrightarrow> run_state (must tt m) (p, b) = (hd (ahead p), (fwd p 1, b))"
  by (simp_all add: peek_tok_def sees_def accept_def adv_def must_def peek_ready check_ready match_ready
      advance_ready consume_def)

lemma run_peek_next:
  "ahead p = t # u # us \<Longrightarrow> \<not> isIgnored t \<Longrightarrow> \<not> isIgnored u \<Longrightarrow> run_state peek_next (p, b) = (u, (p, b))"
  by (simp add: peek_next_def peekNextToken_def peekAt_def ready_def Let_def)

lemma run_prev: "k < length (ahead p) \<Longrightarrow> run_state prev_tok (fwd p (Suc k), b) = (ahead p ! k, (fwd p (Suc k), b))"
  by (simp add: prev_tok_def previousToken_def fwd_def ahead_def)

lemma run_get: "run_state get_parser (p, b) = (p, (p, b))"
  by (simp add: get_parser_def)

section \<open>Loops\<close>

lemma ploop_n_more:
  "run_state (ploop_n j body x) (p, b) = (y, (q, False)) \<Longrightarrow> j \<le> k \<Longrightarrow>
     run_state (ploop_n k body x) (p, b) = (y, (q, False))"
proof (induction j arbitrary: k x p b)
  case 0
  then show ?case by (simp add: stuck_def)
next
  case (Suc j)
  obtain i where k: "k = Suc i" "j \<le> i" using Suc.prems(2) by (cases k) auto
  obtain r q1 c where r: "run_state (body x) (p, b) = (r, (q1, c))" by (metis prod_cases3)
  show ?case
  proof (cases "fst r")
    case True
    then have "run_state (ploop_n j body (snd r)) (q1, c) = (y, (q, False))" using Suc.prems(1) r by simp
    then show ?thesis using Suc.IH k(2) True r by (simp add: k(1))
  qed (use Suc.prems(1) r in \<open>simp add: k(1)\<close>)
qed

lemma run_ploop:
  "run_state (ploop_n j body x) (p, False) = (y, (q, False)) \<Longrightarrow> j \<le> Suc (length (ahead p)) \<Longrightarrow>
     run_state (ploop body x) (p, False) = (y, (q, False))"
  using ploop_n_more [of j body x p False y q "Suc (length (ahead p))"] by (simp add: ploop_def)

section \<open>Tokens\<close>

text \<open>The level that a token can continue; the tokens of level 0 end every expression.\<close>

definition rank :: "token_type \<Rightarrow> nat" where
  "rank tt =
     (if tt \<in> set [TOKEN_EOF, TOKEN_RPAREN, TOKEN_RBRACKET, TOKEN_COMMA] then 0
      else if tt \<in> set [TOKEN_OR, TOKEN_OR_OR] then 1
      else if tt \<in> set [TOKEN_AND, TOKEN_AND_AND] then 3
      else if tt = TOKEN_BIT_OR then 4
      else if tt = TOKEN_BIT_AND then 5
      else if tt \<in> set [TOKEN_DOUBLE_EQUALS, TOKEN_NOT_EQUALS, TOKEN_LT, TOKEN_GT, TOKEN_LTE, TOKEN_GTE,
        TOKEN_EQUALS, TOKEN_ISNT, TOKEN_IN, TOKEN_NOT] then 6
      else if tt \<in> set [TOKEN_PLUS, TOKEN_MINUS] then 7
      else if tt \<in> set [TOKEN_STAR, TOKEN_SLASH, TOKEN_PERCENT] then 8
      else if tt \<in> set [TOKEN_LPAREN, TOKEN_DOT, TOKEN_LBRACKET] then 10
      else 100)"

text \<open>Expressions up to the positions of their tokens.\<close>

fun unplaced :: "Expression \<Rightarrow> Expression" where
  "unplaced (Ident i) = Ident (Identifier eof_token (identValue i))"
| "unplaced (IntegerLiteral t v) = IntegerLiteral (eof_token\<lparr>Lexeme := Lexeme t\<rparr>) v"
| "unplaced (BooleanLiteral t v) = BooleanLiteral eof_token v"
| "unplaced (BinaryExpr t l op r) = BinaryExpr eof_token (unplaced l) op (unplaced r)"
| "unplaced (UnaryExpr t op r) = UnaryExpr eof_token op (unplaced r)"
| "unplaced (CallExpr t f as ns v) = CallExpr eof_token (unplaced f) (map unplaced as) ns v"
| "unplaced (MethodCallExpr t x n as ns v) =
     MethodCallExpr eof_token (unplaced x) (Identifier eof_token (identValue n)) (map unplaced as) ns v"
| "unplaced (FieldAccessExpr t x n) = FieldAccessExpr eof_token (unplaced x) (Identifier eof_token (identValue n))"
| "unplaced (IndexExpr t x i) = IndexExpr eof_token (unplaced x) (unplaced i)"
| "unplaced e = e"

section \<open>Reading an expression\<close>

text \<open>
  \<open>parses m k ps e\<close>: on tokens \<open>ps\<close> before a token of a rank below \<open>k\<close>, the action returns \<open>e\<close> and is
  after them. A call must not follow a field, with which it is a method call.
\<close>

definition ends :: "Expression \<Rightarrow> token \<Rightarrow> bool" where
  "ends e r \<longleftrightarrow> (is_field e \<longrightarrow> Type r \<noteq> TOKEN_LPAREN)"

definition parses :: "Expression pm \<Rightarrow> nat \<Rightarrow> (token_type \<times> string) list \<Rightarrow> Expression \<Rightarrow> bool" where
  "parses m k ps e \<longleftrightarrow>
     (\<forall>p ts r us. ahead p = ts @ r # us \<and> map tok_pair ts = ps \<and> rank (Type r) < k \<and> ends e r \<longrightarrow>
        (\<exists>e'. unplaced e' = unplaced e \<and> run_state m (p, False) = (e', (fwd p (length ts), False))))"

text \<open>\<open>reaches m body k ps e\<close>: the action goes on as the loop does with \<open>e\<close> after the tokens.\<close>

type_synonym 'a loop_body = "'a \<Rightarrow> (bool \<times> 'a) pm"

definition reaches ::
  "Expression pm \<Rightarrow> Expression loop_body \<Rightarrow> nat \<Rightarrow> (token_type \<times> string) list \<Rightarrow> Expression \<Rightarrow> bool" where
  "reaches m body k ps e \<longleftrightarrow>
     (\<forall>p ts r us. ahead p = ts @ r # us \<and> map tok_pair ts = ps \<and> rank (Type r) \<le> k \<and> ends e r \<longrightarrow>
        (\<exists>e'. unplaced e' = unplaced e \<and>
           (\<forall>j y q. j \<le> Suc (Suc (length us)) \<longrightarrow>
              run_state (ploop_n j body e') (fwd p (length ts), False) = (y, (q, False)) \<longrightarrow>
              run_state m (p, False) = (y, (q, False)))))"

text \<open>\<open>steps body k ps x e\<close>: one turn of the loop on the tokens makes \<open>e\<close> of \<open>x\<close>.\<close>

definition steps ::
  "Expression loop_body \<Rightarrow> nat \<Rightarrow> (token_type \<times> string) list \<Rightarrow> Expression \<Rightarrow> Expression \<Rightarrow> bool" where
  "steps body k ps x e \<longleftrightarrow>
     (\<forall>p ts r us x'. ahead p = ts @ r # us \<and> map tok_pair ts = ps \<and> rank (Type r) \<le> k \<and> ends e r \<and>
        unplaced x' = unplaced x \<longrightarrow>
        (\<exists>e'. unplaced e' = unplaced e \<and>
           run_state (body x') (p, False) = ((True, e'), (fwd p (length ts), False))))"

text \<open>\<open>stops body k\<close>: at a token of a rank below \<open>k\<close> the loop ends.\<close>

definition stops :: "Expression loop_body \<Rightarrow> nat \<Rightarrow> bool" where
  "stops body k \<longleftrightarrow>
     (\<forall>p r us x. ahead p = r # us \<and> rank (Type r) < k \<longrightarrow>
        run_state (body x) (p, False) = ((False, x), (p, False)))"

lemma parsesD:
  assumes "parses m k ps e" "ahead p = ts @ r # us" "map tok_pair ts = ps" "rank (Type r) < k" "ends e r"
  shows "\<exists>e'. unplaced e' = unplaced e \<and> run_state m (p, False) = (e', (fwd p (length ts), False))"
  using assms(1) [unfolded parses_def, rule_format, of p ts r us] assms(2-5) by blast

lemma parsesI:
  assumes "\<And>p ts r us. ahead p = ts @ r # us \<Longrightarrow> map tok_pair ts = ps \<Longrightarrow> rank (Type r) < k \<Longrightarrow> ends e r \<Longrightarrow>
    \<exists>e'. unplaced e' = unplaced e \<and> run_state m (p, False) = (e', (fwd p (length ts), False))"
  shows "parses m k ps e"
  unfolding parses_def by (intro allI impI, elim conjE) (rule assms)

lemma parses_weaken: "parses m j ps e \<Longrightarrow> k \<le> j \<Longrightarrow> parses m k ps e"
  by (rule parsesI) (auto dest: parsesD)

definition follows ::
  "Expression pm \<Rightarrow> Expression loop_body \<Rightarrow> Expression \<Rightarrow> parser \<Rightarrow> nat \<Rightarrow> nat \<Rightarrow> bool" where
  "follows m body e p k n \<longleftrightarrow>
     (\<forall>j y q. j \<le> n \<longrightarrow> run_state (ploop_n j body e) (fwd p k, False) = (y, (q, False)) \<longrightarrow>
        run_state m (p, False) = (y, (q, False)))"

lemma reachesD:
  assumes "reaches m body k ps e" "ahead p = ts @ r # us" "map tok_pair ts = ps" "rank (Type r) \<le> k" "ends e r"
  shows "\<exists>e'. unplaced e' = unplaced e \<and> follows m body e' p (length ts) (Suc (Suc (length us)))"
  using assms(1) [unfolded reaches_def, rule_format, of p ts r us] assms(2-5) unfolding follows_def by blast

lemma reachesI:
  assumes "\<And>p ts r us. ahead p = ts @ r # us \<Longrightarrow> map tok_pair ts = ps \<Longrightarrow> rank (Type r) \<le> k \<Longrightarrow> ends e r \<Longrightarrow>
    \<exists>e'. unplaced e' = unplaced e \<and> follows m body e' p (length ts) (Suc (Suc (length us)))"
  shows "reaches m body k ps e"
  unfolding reaches_def by (intro allI impI, elim conjE) (rule assms [unfolded follows_def])

lemma stepsD:
  assumes "steps body k ps x e" "ahead p = ts @ r # us" "map tok_pair ts = ps" "rank (Type r) \<le> k" "ends e r"
    "unplaced x' = unplaced x"
  shows "\<exists>e'. unplaced e' = unplaced e \<and> run_state (body x') (p, False) = ((True, e'), (fwd p (length ts), False))"
  using assms(1) [unfolded steps_def, rule_format, of p ts r us x'] assms(2-6) by blast

lemma stepsI:
  assumes "\<And>p ts r us x'. ahead p = ts @ r # us \<Longrightarrow> map tok_pair ts = ps \<Longrightarrow> rank (Type r) \<le> k \<Longrightarrow> ends e r \<Longrightarrow>
    unplaced x' = unplaced x \<Longrightarrow>
    \<exists>e'. unplaced e' = unplaced e \<and> run_state (body x') (p, False) = ((True, e'), (fwd p (length ts), False))"
  shows "steps body k ps x e"
  unfolding steps_def by (intro allI impI, elim conjE) (rule assms)

lemma parses_reaches:
  assumes "parses m (Suc k) ps e"
  shows "reaches (do { x \<leftarrow> m; ploop body x }) body k ps e"
proof (rule reachesI)
  fix p ts r us
  assume a: "ahead p = ts @ r # us" "map tok_pair ts = ps" "rank (Type r) \<le> k" "ends e r"
  obtain e' where e': "unplaced e' = unplaced e" "run_state m (p, False) = (e', (fwd p (length ts), False))"
    using parsesD [OF assms a(1,2) _ a(4)] a(3) by auto
  have "run_state (do { x \<leftarrow> m; ploop body x }) (p, False) = (y, (q, False))"
    if "j \<le> Suc (Suc (length us))" "run_state (ploop_n j body e') (fwd p (length ts), False) = (y, (q, False))" for j y q
    using run_ploop [OF that(2)] that(1) a(1) e'(2) by simp
  then show "\<exists>e'. unplaced e' = unplaced e \<and>
     follows (do { x \<leftarrow> m; ploop body x }) body e' p (length ts) (Suc (Suc (length us)))"
    using e'(1) unfolding follows_def by blast
qed

lemma reaches_parses:
  assumes "reaches m body k ps e" "stops body k"
  shows "parses m k ps e"
proof (rule parsesI)
  fix p ts r us
  assume a: "ahead p = ts @ r # us" "map tok_pair ts = ps" "rank (Type r) < k" "ends e r"
  obtain e' where e': "unplaced e' = unplaced e" "follows m body e' p (length ts) (Suc (Suc (length us)))"
    using reachesD [OF assms(1) a(1,2) _ a(4)] a(3) by auto
  have "run_state (body e') (fwd p (length ts), False) = ((False, e'), (fwd p (length ts), False))"
    using assms(2) a unfolding stops_def by simp
  then have "run_state (ploop_n 1 body e') (fwd p (length ts), False) = (e', (fwd p (length ts), False))" by simp
  then have "run_state m (p, False) = (e', (fwd p (length ts), False))"
    using e'(2) [unfolded follows_def, rule_format, of 1] by simp
  then show "\<exists>e'. unplaced e' = unplaced e \<and> run_state m (p, False) = (e', (fwd p (length ts), False))"
    using e'(1) by blast
qed

lemma reaches_step:
  assumes x: "reaches m body k ps x" and e: "steps body k qs x e"
    and q: "qs \<noteq> []" "rank (fst (hd qs)) \<le> k" "is_field x \<Longrightarrow> fst (hd qs) \<noteq> TOKEN_LPAREN"
  shows "reaches m body k (ps @ qs) e"
proof (rule reachesI)
  fix p ts r us
  assume a: "ahead p = ts @ r # us" "map tok_pair ts = ps @ qs" "rank (Type r) \<le> k" "ends e r"
  obtain ts1 ts2 where ts: "ts = ts1 @ ts2" "map tok_pair ts1 = ps" "map tok_pair ts2 = qs"
    using a(2) by (auto simp: map_eq_append_conv)
  obtain s ss where s: "ts2 = s # ss" using ts(3) q(1) by (cases ts2) auto
  have "fst (hd qs) = Type s" using ts(3) s by auto
  then have f: "ahead p = ts1 @ s # ss @ r # us" "rank (Type s) \<le> k" "ends x s"
    using q(2,3) a(1) ts(1) s by (auto simp: ends_def)
  obtain x' where x': "unplaced x' = unplaced x"
      "follows m body x' p (length ts1) (Suc (Suc (length (ss @ r # us))))"
    using reachesD [OF x f(1) ts(2) f(2,3)] by blast
  have h: "ahead (fwd p (length ts1)) = ts2 @ r # us" using a(1) ts(1) by simp
  obtain e' where e': "unplaced e' = unplaced e"
      "run_state (body x') (fwd p (length ts1), False) = ((True, e'), (fwd (fwd p (length ts1)) (length ts2), False))"
    using stepsD [OF e h ts(3) a(3,4) x'(1)] by blast
  have "run_state m (p, False) = (y, (q, False))" if "j \<le> Suc (Suc (length us))"
      "run_state (ploop_n j body e') (fwd p (length ts), False) = (y, (q, False))" for j y q
    using x'(2) [unfolded follows_def, rule_format, of "Suc j" y q] e'(2) that ts(1) by simp
  then show "\<exists>e'. unplaced e' = unplaced e \<and> follows m body e' p (length ts) (Suc (Suc (length us)))"
    using e'(1) unfolding follows_def by blast
qed

section \<open>The levels of the parser\<close>

lemma rank_ready: "rank (Type r) \<le> 10 \<Longrightarrow> \<not> isIgnored r"
  by (auto simp: isIgnored_def rank_def)

definition operator_body :: "token_type list \<Rightarrow> Expression pm \<Rightarrow> Expression loop_body" where
  "operator_body ops m = (\<lambda>x. do {
     b \<leftarrow> accept ops;
     if b then do {
       x \<leftarrow> (\<lambda>l. do { t \<leftarrow> prev_tok; r \<leftarrow> m; ret (BinaryExpr t l (Lexeme t) r) }) x;
       ret (True, x) }
     else ret (False, x) })"

definition level_parser :: "parsers \<Rightarrow> nat \<Rightarrow> Expression pm" where
  "level_parser R k =
     (if k = 1 then parseOrExpr R else if k = 2 then parsePipeExpr R else if k = 3 then parseAndExpr R
      else if k = 4 then parseBitwiseOrExpr R else if k = 5 then parseBitwiseAndExpr R
      else if k = 6 then parseComparisonExpr R else if k = 7 then parseAdditiveExpr R
      else if k = 8 then parseMultiplicativeExpr R else if k = 9 then parseUnaryExpr R
      else parsePostfixExpr R)"

definition level_ops :: "nat \<Rightarrow> token_type list" where
  "level_ops k =
     (if k = 1 then [TOKEN_OR, TOKEN_OR_OR] else if k = 3 then [TOKEN_AND, TOKEN_AND_AND]
      else if k = 4 then [TOKEN_BIT_OR] else if k = 5 then [TOKEN_BIT_AND]
      else if k = 7 then [TOKEN_PLUS, TOKEN_MINUS] else [TOKEN_STAR, TOKEN_SLASH, TOKEN_PERCENT])"

definition level_body :: "parsers \<Rightarrow> nat \<Rightarrow> Expression loop_body" where
  "level_body R k =
     (if k = 6 then comparison_step R else operator_body (level_ops k) (level_parser R (Suc k)))"

abbreviation levels :: "nat set" where "levels \<equiv> {1, 3, 4, 5, 6, 7, 8}"

lemma binary_rest_loop: "binary_rest ops m = ploop (operator_body ops m)"
  by (simp only: binary_rest_def while_accept_def operator_body_def)

lemma level_unfold:
  assumes "k \<in> levels"
  shows "level_parser R k = do { x \<leftarrow> level_parser R (Suc k); ploop (level_body R k) x }"
proof -
  consider "k = 1" | "k = 3" | "k = 4" | "k = 5" | "k = 6" | "k = 7" | "k = 8" using assms by auto
  then show ?thesis
  proof cases
    case 1
    then show ?thesis by (simp add: level_parser_def level_body_def level_ops_def parseOrExpr_def binary_rest_loop)
  next
    case 2
    then show ?thesis by (simp add: level_parser_def level_body_def level_ops_def parseAndExpr_def binary_rest_loop)
  next
    case 3
    then show ?thesis by (simp add: level_parser_def level_body_def level_ops_def parseBitwiseOrExpr_def binary_rest_loop)
  next
    case 4
    then show ?thesis by (simp add: level_parser_def level_body_def level_ops_def parseBitwiseAndExpr_def binary_rest_loop)
  next
    case 5
    then show ?thesis by (simp add: level_parser_def level_body_def level_ops_def parseComparisonExpr_def)
  next
    case 6
    then show ?thesis by (simp add: level_parser_def level_body_def level_ops_def parseAdditiveExpr_def binary_rest_loop)
  next
    case 7
    then show ?thesis by (simp add: level_parser_def level_body_def level_ops_def parseMultiplicativeExpr_def binary_rest_loop)
  qed
qed

lemma stops_operator: "\<forall>tt\<in>set ops. k \<le> rank tt \<Longrightarrow> k \<le> 10 \<Longrightarrow> stops (operator_body ops m) k"
  unfolding stops_def
proof (intro allI impI, elim conjE)
  fix p r us x
  assume a: "\<forall>tt\<in>set ops. k \<le> rank tt" "k \<le> 10" "ahead p = r # us" "rank (Type r) < k"
  then have "ready p" using rank_ready [of r] by (simp add: ready_def)
  moreover have "Type r \<notin> set ops" using a(1,4) by (auto simp: not_less [symmetric])
  ultimately show "run_state (operator_body ops m x) (p, False) = ((False, x), (p, False))"
    using a(3) by (simp add: operator_body_def run_ready)
qed

lemma stops_comparison: "stops (comparison_step R) 6"
  unfolding stops_def
proof (intro allI impI, elim conjE)
  fix p r us x
  assume a: "ahead p = r # us" "rank (Type r) < 6"
  then have "ready p" using rank_ready [of r] by (simp add: ready_def)
  moreover have "Type r \<notin> set [TOKEN_DOUBLE_EQUALS, TOKEN_NOT_EQUALS, TOKEN_LT, TOKEN_GT, TOKEN_LTE, TOKEN_GTE,
      TOKEN_EQUALS, TOKEN_ISNT, TOKEN_IN, TOKEN_NOT, TOKEN_IS]"
    using a(2) by (auto simp: rank_def)
  ultimately show "run_state (comparison_step R x) (p, False) = ((False, x), (p, False))"
    using a(1) by (simp add: comparison_step_def comparison_operator_def two_words_def run_ready)
qed

lemma level_stops: "k \<in> levels \<Longrightarrow> stops (level_body R k) k"
  by (cases "k = 6")
    (auto simp: level_body_def stops_comparison rank_def level_ops_def intro!: stops_operator)

lemma steps_operator:
  assumes r: "parses m (Suc k) qs r" and tt: "tt \<in> set ops" "tt \<noteq> TOKEN_EOF" "rank tt \<le> 10" "k \<le> 8"
  shows "steps (operator_body ops m) k ((tt, op) # qs) l (BinaryExpr t l op r)"
proof (rule stepsI)
  fix p ts u us x'
  assume a: "ahead p = ts @ u # us" "map tok_pair ts = (tt, op) # qs" "rank (Type u) \<le> k"
    and x': "unplaced x' = unplaced l"
  obtain s ss where s: "ts = s # ss" "Type s = tt" "Lexeme s = op" "map tok_pair ss = qs" using a(2) by auto
  have "ready p" "head_type p = tt" "0 < length (ahead p)" "ahead p ! 0 = s"
    using a(1) s tt(3) rank_ready [of s] by (simp_all add: ready_def)
  then have "run_state (operator_body ops m x') (p, False) =
      (case run_state m (fwd p 1, False) of (r', c) \<Rightarrow> ((True, BinaryExpr s x' op r'), c))"
    using tt(1,2) run_prev [of 0 p False] s(3) by (simp add: operator_body_def run_ready split: prod.split)
  moreover have "ahead (fwd p 1) = ss @ u # us" "rank (Type u) < Suc k" "ends r u"
    using a(1,3) s(1) tt(4) by (auto simp: ends_def rank_def)
  then obtain r' where "unplaced r' = unplaced r" "run_state m (fwd p 1, False) = (r', (fwd (fwd p 1) (length ss), False))"
    using parsesD [OF r _ s(4)] by fastforce
  ultimately show "\<exists>e'. unplaced e' = unplaced (BinaryExpr t l op r) \<and>
      run_state (operator_body ops m x') (p, False) = ((True, e'), (fwd p (length ts), False))"
    using x' s(1) by (intro exI [of _ "BinaryExpr s x' op r'"]) simp
qed

text \<open>The tokens of an operator.\<close>

definition op_tokens :: "string \<Rightarrow> (token_type \<times> string) list" where
  "op_tokens op = tokens_of (op_lexemes op)"

definition comparisons :: "string list" where
  "comparisons = [''=='', ''!='', ''<'', ''>'', ''<='', ''>='', ''equals'', ''isnt'', ''in'', ''not equals'', ''not in'']"

definition comparison_types :: "token_type list" where
  "comparison_types = [TOKEN_DOUBLE_EQUALS, TOKEN_NOT_EQUALS, TOKEN_LT, TOKEN_GT, TOKEN_LTE, TOKEN_GTE, TOKEN_EQUALS,
     TOKEN_ISNT, TOKEN_IN]"

definition one_token :: "string \<Rightarrow> token_type list \<Rightarrow> bool" where
  "one_token op tts = (case op_tokens op of [(tt, s)] \<Rightarrow> s = op \<and> tt \<in> set tts | _ \<Rightarrow> False)"

definition two_tokens :: "string \<Rightarrow> bool" where
  "two_tokens op =
     (case op_tokens op of
        [(tt, s), (uu, u)] \<Rightarrow> tt = TOKEN_NOT \<and>
          (uu = TOKEN_EQUALS \<and> op = ''not equals'' \<or> uu = TOKEN_IN \<and> op = ''not in'')
      | _ \<Rightarrow> False)"

lemma comparison_tokens: "list_all (\<lambda>op. one_token op comparison_types \<or> two_tokens op) comparisons"
  by code_simp

lemma operator_tokens:
  "list_all (\<lambda>(op, k). k = 6 \<and> op \<in> set comparisons \<or> k \<noteq> 6 \<and> one_token op (level_ops k)) op_table"
  by code_simp

lemma one_token_iff: "one_token op tts \<longleftrightarrow> (\<exists>tt. op_tokens op = [(tt, op)] \<and> tt \<in> set tts)"
  by (auto simp: one_token_def split: list.split)

lemma level_ops_rank: "tt \<in> set (level_ops k) \<Longrightarrow> k \<in> levels - {6} \<Longrightarrow> rank tt = k"
  by (auto simp: level_ops_def rank_def)

lemma op_table_levels: "(op, k) \<in> set op_table \<Longrightarrow> k \<in> levels"
  by (auto simp: op_table_def)

lemma op_cases:
  assumes "0 < op_level op"
  obtains (comparison) "op_level op = 6" "op \<in> set comparisons"
  | (operator) tt where "op_tokens op = [(tt, op)]" "tt \<in> set (level_ops (op_level op))" "rank tt = op_level op"
      "op_level op \<in> levels - {6}"
proof -
  have m: "(op, op_level op) \<in> set op_table" by (rule op_level_table [OF assms])
  then have "op_level op = 6 \<and> op \<in> set comparisons \<or> op_level op \<noteq> 6 \<and> one_token op (level_ops (op_level op))"
    using operator_tokens unfolding list_all_iff by fast
  then show ?thesis
    using comparison operator op_table_levels [OF m] level_ops_rank [of _ "op_level op"] by (auto simp: one_token_iff)
qed

lemma comparison_one:
  assumes "ahead p = s # us" "Type s \<in> set comparison_types"
  shows "run_state comparison_operator (p, False) = (Some s, (fwd p 1, False))"
proof -
  have p: "ready p" "hd (ahead p) = s" "0 < length (ahead p)" "ahead p ! 0 = s"
    using assms by (auto simp: ready_def isIgnored_def comparison_types_def)
  note prev = run_prev [OF p(3), of False, unfolded p(4)]
  show ?thesis
  proof (cases "Type s = TOKEN_IN")
    case True
    then show ?thesis
      using p prev by (simp add: comparison_operator_def two_words_def run_ready)
  next
    case False
    then have "Type s \<in> set [TOKEN_DOUBLE_EQUALS, TOKEN_NOT_EQUALS, TOKEN_LT, TOKEN_GT, TOKEN_LTE,
      TOKEN_GTE, TOKEN_EQUALS, TOKEN_ISNT]" "Type s \<noteq> TOKEN_EOF"
      using assms(2) by (auto simp: comparison_types_def)
    then show ?thesis
      unfolding comparison_operator_def using p prev by (simp add: run_ready del: list.set)
  qed
qed

lemma comparison_two:
  assumes "ahead p = s # u # us" "Type s = TOKEN_NOT" "Type u = TOKEN_EQUALS \<or> Type u = TOKEN_IN"
  shows "\<exists>t. Lexeme t = (if Type u = TOKEN_EQUALS then ''not equals'' else ''not in'') \<and>
    run_state comparison_operator (p, False) = (Some t, (fwd p 2, False))"
proof -
  have p: "ready p" "hd (ahead p) = s" "ready (fwd p 1)" "hd (ahead (fwd p 1)) = u"
    using assms by (auto simp: ready_def isIgnored_def)
  have n: "run_state peek_next (p, False) = (u, (p, False))"
    using assms by (intro run_peek_next) (auto simp: isIgnored_def)
  show ?thesis
    using assms(2,3) p n
    by (auto simp: comparison_operator_def two_words_def run_ready numeral_2_eq_2
        intro!: exI [of _ "s\<lparr>Lexeme := ''not equals''\<rparr>"] exI [of _ "s\<lparr>Lexeme := ''not in''\<rparr>"])
qed

lemma comparison_reads:
  assumes "op \<in> set comparisons" "ahead p = os @ us" "map tok_pair os = op_tokens op"
  shows "\<exists>t. Lexeme t = op \<and> run_state comparison_operator (p, False) = (Some t, (fwd p (length os), False))"
proof -
  have "one_token op comparison_types \<or> two_tokens op"
    using comparison_tokens assms(1) by (simp add: list_all_iff)
  then show ?thesis
  proof
    assume "one_token op comparison_types"
    then obtain s where "os = [s]" "Lexeme s = op" "Type s \<in> set comparison_types"
      using assms(3) by (auto simp: one_token_iff map_eq_Cons_conv)
    then show ?thesis using comparison_one [of p s us] assms(2) by auto
  next
    assume "two_tokens op"
    then obtain s u where "os = [s, u]" "Type s = TOKEN_NOT" "Type u = TOKEN_EQUALS \<or> Type u = TOKEN_IN"
        "op = (if Type u = TOKEN_EQUALS then ''not equals'' else ''not in'')"
      using assms(3) by (auto simp: two_tokens_def map_eq_Cons_conv split: list.splits)
    then show ?thesis using comparison_two [of p s u us] assms(2) by (auto simp: numeral_2_eq_2)
  qed
qed

lemma steps_comparison:
  assumes r: "parses (parseAdditiveExpr R) 7 qs r" and op: "op \<in> set comparisons"
  shows "steps (comparison_step R) 6 (op_tokens op @ qs) l (BinaryExpr t l op r)"
proof (rule stepsI)
  fix p ts u us x'
  assume a: "ahead p = ts @ u # us" "map tok_pair ts = op_tokens op @ qs" "rank (Type u) \<le> 6"
    and x': "unplaced x' = unplaced l"
  obtain os ss where s: "ts = os @ ss" "map tok_pair os = op_tokens op" "map tok_pair ss = qs"
    using a(2) by (auto simp: map_eq_append_conv)
  obtain k where k: "Lexeme k = op" "run_state comparison_operator (p, False) = (Some k, (fwd p (length os), False))"
    using comparison_reads [OF op, of p os "ss @ u # us"] a(1) s by auto
  have "ahead (fwd p (length os)) = ss @ u # us" "rank (Type u) < 7" "ends r u"
    using a(1,3) s(1) by (auto simp: ends_def rank_def)
  then obtain r' where "unplaced r' = unplaced r"
      "run_state (parseAdditiveExpr R) (fwd p (length os), False) = (r', (fwd (fwd p (length os)) (length ss), False))"
    using parsesD [OF r _ s(3)] by blast
  then show "\<exists>e'. unplaced e' = unplaced (BinaryExpr t l op r) \<and>
      run_state (comparison_step R x') (p, False) = ((True, e'), (fwd p (length ts), False))"
    using x' s(1) k by (intro exI [of _ "BinaryExpr k x' op r'"]) (simp add: comparison_step_def)
qed

lemma level_steps:
  assumes k: "op_level op = k" "0 < k" and r: "parses (level_parser R (Suc k)) (Suc k) qs r"
  shows "steps (level_body R k) k (op_tokens op @ qs) l (BinaryExpr t l op r)"
proof (rule op_cases [of op])
  assume "op_level op = 6" "op \<in> set comparisons"
  then show ?thesis using r k(1) steps_comparison by (simp add: level_body_def level_parser_def)
next
  fix tt
  assume o: "op_tokens op = [(tt, op)]" "tt \<in> set (level_ops (op_level op))" "rank tt = op_level op"
    "op_level op \<in> levels - {6}"
  have "tt \<noteq> TOKEN_EOF" "rank tt \<le> 10" "k \<le> 8" using o(3,4) k by (auto simp: rank_def)
  moreover have "level_body R k = operator_body (level_ops k) (level_parser R (Suc k))"
    using o(4) k(1) by (auto simp: level_body_def)
  ultimately show ?thesis using steps_operator [OF r, of tt "level_ops k" op l t] o(1,2) k(1) by simp
qed (use k in simp)

lemma op_tokens_first:
  assumes "0 < op_level op"
  shows "op_tokens op \<noteq> []" "rank (fst (hd (op_tokens op))) = op_level op"
proof -
  have "op_tokens op \<noteq> [] \<and> rank (fst (hd (op_tokens op))) = 6" if "op \<in> set comparisons"
  proof -
    have "one_token op comparison_types \<or> two_tokens op" using comparison_tokens that by (simp add: list_all_iff)
    then show ?thesis
      by (auto simp: one_token_iff two_tokens_def comparison_types_def rank_def split: list.splits)
  qed
  then show "op_tokens op \<noteq> []" "rank (fst (hd (op_tokens op))) = op_level op"
    using op_cases [OF assms] by (metis fst_conv list.discI list.sel(1))+
qed

text \<open>An expression read at one level is read at every level below.\<close>

lemma parses_pipe:
  assumes "parses (parseAndExpr R) 3 ps e"
  shows "parses (parsePipeExpr R) 2 ps e"
proof (rule parsesI)
  fix p ts r us
  assume a: "ahead p = ts @ r # us" "map tok_pair ts = ps" "rank (Type r) < 2" "ends e r"
  obtain e' where e': "unplaced e' = unplaced e" "run_state (parseAndExpr R) (p, False) = (e', (fwd p (length ts), False))"
    using parsesD [OF assms a(1,2) _ a(4)] a(3) by auto
  let ?q = "fwd p (length ts)"
  have q: "ready ?q" "hd (ahead ?q) = r" "Type r \<noteq> TOKEN_PIPE"
    using a rank_ready [of r] by (auto simp: ready_def rank_def)
  define body where "body = (\<lambda>s. do {
    b \<leftarrow> accept [TOKEN_PIPE]; if b then do { s \<leftarrow> pipe_step R s; ret (True, s) } else ret (False, s) })"
  have "run_state (ploop_n 1 body (e', False)) (?q, False) = ((e', False), (?q, False))"
    using q by (simp add: body_def run_ready)
  then have "run_state (ploop body (e', False)) (?q, False) = ((e', False), (?q, False))" by (rule run_ploop) simp
  then show "\<exists>e'. unplaced e' = unplaced e \<and> run_state (parsePipeExpr R) (p, False) = (e', (fwd p (length ts), False))"
    using e' by (intro exI [of _ e']) (simp add: parsePipeExpr_def while_accept_def body_def)
qed

lemma parses_next:
  assumes "parses (level_parser R (Suc k)) (Suc k) ps e" "1 \<le> k" "k \<le> 8"
  shows "parses (level_parser R k) k ps e"
proof (cases "k = 2")
  case True
  then show ?thesis using parses_pipe assms(1) by (simp add: level_parser_def)
next
  case False
  then have k: "k \<in> levels" using assms(2,3) by auto
  show ?thesis
    by (rule reaches_parses [OF _ level_stops [OF k]], subst level_unfold [OF k]) (rule parses_reaches [OF assms(1)])
qed

lemma parses_down: "parses (level_parser R j) j ps e \<Longrightarrow> 1 \<le> k \<Longrightarrow> k \<le> j \<Longrightarrow> j \<le> 9 \<Longrightarrow> parses (level_parser R k) k ps e"
proof (induction "j - k" arbitrary: k)
  case (Suc d)
  have "parses (level_parser R (Suc k)) (Suc k) ps e" by (rule Suc.hyps(1)) (use Suc.hyps(2) Suc.prems in auto)
  then show ?case by (rule parses_next) (use Suc.hyps(2) Suc.prems in auto)
qed simp

lemma parses_level: "parses (level_parser R (Suc k)) (Suc k) ps e \<Longrightarrow> k \<in> levels \<Longrightarrow> reaches (level_parser R k) (level_body R k) k ps e"
  by (subst level_unfold) (auto intro: parses_reaches)

end
