(* ===== verification/ExprTerms.thy ===== *)
theory ExprTerms
  imports ExprReads
begin

text \<open>Primary, postfix and unary expressions, and the arguments of calls.\<close>

section \<open>Primary expressions\<close>

lemma parses_name: "parses (parsePrimaryExpr R) 11 [(TOKEN_IDENTIFIER, s)] (Ident (Identifier k s))"
proof (rule parsesI)
  fix p ts r us
  assume a: "ahead p = ts @ r # us" "map tok_pair ts = [(TOKEN_IDENTIFIER, s)]" "rank (Type r) < 11"
  obtain t where t: "ts = [t]" "Type t = TOKEN_IDENTIFIER" "Lexeme t = s" using a(2) by (auto simp: map_eq_Cons_conv)
  have r: "\<not> isIgnored t" "\<not> isIgnored r" using t(2) a(3) rank_ready [of r] by (auto simp: isIgnored_def)
  have p: "ready p" "hd (ahead p) = t" "ready (fwd p 1)" "hd (ahead (fwd p 1)) = r"
    using a(1) t(1) r by (simp_all add: ready_def)
  have "run_state peek_next (p, False) = (r, (p, False))" using a(1) t(1) r by (simp add: run_peek_next)
  moreover have "Type r \<notin> {TOKEN_FAT_ARROW, TOKEN_LBRACE, TOKEN_NEWLINE}" using a(3) by (auto simp: rank_def)
  ultimately have "run_state (parsePrimaryExpr R) (p, False) = (Ident (Identifier t s), (fwd p 1, False))"
    using p t(2,3)
    by (simp add: parsePrimaryExpr_def parseIdentifierOrStructLiteral_def parseIdentifier_def isIdentifierToken_def
        run_ready Let_def)
  then show "\<exists>e'. unplaced e' = unplaced (Ident (Identifier k s)) \<and>
      run_state (parsePrimaryExpr R) (p, False) = (e', (fwd p (length ts), False))"
    using t(1) by (intro exI [of _ "Ident (Identifier t s)"]) simp
qed

lemma parses_number:
  assumes "0 \<le> v" "v < 2 ^ 63" "Lexeme k = itoa v"
  shows "parses (parsePrimaryExpr R) 11 [(TOKEN_INTEGER, utoa (nat v))] (IntegerLiteral k v)"
proof (rule parsesI)
  fix p ts r us
  assume a: "ahead p = ts @ r # us" "map tok_pair ts = [(TOKEN_INTEGER, utoa (nat v))]"
  obtain t where t: "ts = [t]" "Type t = TOKEN_INTEGER" "Lexeme t = itoa v"
    using a(2) assms(1) by (auto simp: map_eq_Cons_conv itoa_def)
  have "ready p" "hd (ahead p) = t" using a(1) t by (simp_all add: ready_def isIgnored_def)
  then have "run_state (parsePrimaryExpr R) (p, False) = (IntegerLiteral t v, (fwd p 1, False))"
    using t(2,3) assms(1,2) by (simp add: parsePrimaryExpr_def parseIntegerLiteral_def run_ready ParseInt_itoa)
  then show "\<exists>e'. unplaced e' = unplaced (IntegerLiteral k v) \<and>
      run_state (parsePrimaryExpr R) (p, False) = (e', (fwd p (length ts), False))"
    using t(1,3) assms(3) by (intro exI [of _ "IntegerLiteral t v"]) simp
qed

lemma parses_boolean:
  "parses (parsePrimaryExpr R) 11 [(if v then TOKEN_TRUE else TOKEN_FALSE, s)] (BooleanLiteral k v)"
proof (rule parsesI)
  fix p ts r us
  assume a: "ahead p = ts @ r # us" "map tok_pair ts = [(if v then TOKEN_TRUE else TOKEN_FALSE, s)]"
  obtain t where t: "ts = [t]" "Type t = (if v then TOKEN_TRUE else TOKEN_FALSE)"
    using a(2) by (auto simp: map_eq_Cons_conv)
  have "ready p" "hd (ahead p) = t" using a(1) t by (simp_all add: ready_def isIgnored_def)
  then have "run_state (parsePrimaryExpr R) (p, False) = (BooleanLiteral t v, (fwd p 1, False))"
    using t(2) by (cases v) (simp_all add: parsePrimaryExpr_def parseBooleanLiteral_def run_ready)
  then show "\<exists>e'. unplaced e' = unplaced (BooleanLiteral k v) \<and>
      run_state (parsePrimaryExpr R) (p, False) = (e', (fwd p (length ts), False))"
    using t(1) by (intro exI [of _ "BooleanLiteral t v"]) simp
qed

text \<open>Tokens that the search for the arrow of a lambda passes.\<close>

definition passed :: "(token_type \<times> string) list \<Rightarrow> bool" where
  "passed ps \<longleftrightarrow> (\<forall>ts us d. map tok_pair ts = ps \<longrightarrow> 1 \<le> d \<longrightarrow> arrow_ahead d (ts @ us) = arrow_ahead d us)"

lemma passed_nil: "passed []"
  by (simp add: passed_def)

lemma passed_append: "passed ps \<Longrightarrow> passed qs \<Longrightarrow> passed (ps @ qs)"
  unfolding passed_def by (auto simp: map_eq_append_conv)

lemma passed_one:
  "tt \<notin> {TOKEN_LPAREN, TOKEN_RPAREN, TOKEN_NEWLINE, TOKEN_EOF, TOKEN_INDENT, TOKEN_DEDENT} \<Longrightarrow> passed [(tt, s)]"
  by (auto simp: passed_def map_eq_Cons_conv)

lemma passed_parens: "passed ps \<Longrightarrow> passed ((TOKEN_LPAREN, a) # ps @ [(TOKEN_RPAREN, b)])"
  unfolding passed_def
proof (intro allI impI)
  fix ts us and d :: int
  assume ps: "\<forall>ts us d. map tok_pair ts = ps \<longrightarrow> 1 \<le> d \<longrightarrow> arrow_ahead d (ts @ us) = arrow_ahead d us"
    and ts: "map tok_pair ts = (TOKEN_LPAREN, a) # ps @ [(TOKEN_RPAREN, b)]" and d: "1 \<le> d"
  obtain y vs z where v: "ts = y # vs @ [z]" "Type y = TOKEN_LPAREN" "Type z = TOKEN_RPAREN" "map tok_pair vs = ps"
    using ts by (auto simp: map_eq_Cons_conv map_eq_append_conv dest: sym [of TOKEN_RPAREN])
  have "arrow_ahead d (ts @ us) = arrow_ahead (d + 1) (vs @ z # us)" using v(1,2) by simp
  also have "\<dots> = arrow_ahead (d + 1) (z # us)" using ps v(4) d by simp
  also have "\<dots> = arrow_ahead d us" using v(3) d by simp
  finally show "arrow_ahead d (ts @ us) = arrow_ahead d us" .
qed

text \<open>A token that ends every expression.\<close>

lemma end_token:
  assumes "Type r \<in> {TOKEN_RPAREN, TOKEN_RBRACKET, TOKEN_COMMA, TOKEN_EOF}"
  shows "rank (Type r) = 0" "ends e r" "\<not> isIgnored r"
  using assms by (auto simp: rank_def ends_def isIgnored_def)

lemma parses_before:
  assumes "parses m 1 ps e" "ahead p = ts @ r # us" "map tok_pair ts = ps"
    "Type r \<in> {TOKEN_RPAREN, TOKEN_RBRACKET, TOKEN_COMMA, TOKEN_EOF}"
  shows "\<exists>e'. unplaced e' = unplaced e \<and> run_state m (p, False) = (e', (fwd p (length ts), False))"
  using parsesD [OF assms(1-3)] end_token [OF assms(4)] by simp

lemma parses_grouped:
  assumes e: "parses (rExpr R) 1 ps e" and ps: "passed ps"
  shows "parses (parsePrimaryExpr R) 11 ((TOKEN_LPAREN, a) # ps @ [(TOKEN_RPAREN, b)]) e"
proof (rule parsesI)
  fix p ts r us
  assume a: "ahead p = ts @ r # us" "map tok_pair ts = (TOKEN_LPAREN, a) # ps @ [(TOKEN_RPAREN, b)]" "rank (Type r) < 11"
  obtain t ss c where t: "ts = t # ss @ [c]" "Type t = TOKEN_LPAREN" "Type c = TOKEN_RPAREN" "map tok_pair ss = ps"
    using a(2) by (auto simp: map_eq_Cons_conv map_eq_append_conv)
  let ?q = "fwd p (Suc (length ss))"
  have p: "ready p" "hd (ahead p) = t" "ahead (fwd p 1) = ss @ c # r # us" "ready ?q" "hd (ahead ?q) = c"
    using a(1) t by (simp_all add: ready_def isIgnored_def)
  have "arrow_ahead 0 (ahead p) = arrow_ahead 1 (ss @ c # r # us)" using a(1) t by simp
  also have "\<dots> = arrow_ahead 1 (c # r # us)" using ps t(4) unfolding passed_def by auto
  also have "\<dots> = False"
    using t(3) a(3) by (auto simp: rank_def)
  finally have arrow: "\<not> arrow_ahead 0 (ahead p)" by simp
  obtain e' where e': "unplaced e' = unplaced e"
      "run_state (rExpr R) (fwd p 1, False) = (e', (fwd (fwd p 1) (length ss), False))"
    using parses_before [OF e p(3) t(4)] t(3) by auto
  have "run_state (parsePrimaryExpr R) (p, False) = (e', (fwd p (Suc (Suc (length ss))), False))"
    using p(1,2,4,5) t(2,3) arrow e'(2)
    by (simp add: parsePrimaryExpr_def parseGroupedExpression_def isArrowLambda_def run_get run_ready Let_def)
  then show "\<exists>e'. unplaced e' = unplaced e \<and> run_state (parsePrimaryExpr R) (p, False) = (e', (fwd p (length ts), False))"
    using e'(1) t(1) by (intro exI [of _ e']) simp
qed

section \<open>The arguments of a call\<close>

fun comma_tokens :: "(token_type \<times> string) list list \<Rightarrow> (token_type \<times> string) list" where
  "comma_tokens [] = []"
| "comma_tokens [ps] = ps"
| "comma_tokens (ps # qs # pss) = ps @ [(TOKEN_COMMA, '','')] @ comma_tokens (qs # pss)"

definition argument :: "(token_type \<times> string) list \<Rightarrow> bool" where
  "argument ps \<longleftrightarrow> ps \<noteq> [] \<and> fst (hd ps) \<notin> {TOKEN_MANY, TOKEN_RPAREN, TOKEN_EOF} \<and>
     (\<forall>x\<in>set ps. fst x \<notin> {TOKEN_COLON, TOKEN_COMMENT, TOKEN_SEMICOLON, TOKEN_DIRECTIVE})"

definition read_arguments :: "parsers \<Rightarrow> (token_type \<times> string) list list \<Rightarrow> Expression list \<Rightarrow> bool" where
  "read_arguments R = list_all2 (\<lambda>ps a. parses (rExpr R) 1 ps a \<and> argument ps)"

lemma run_argument:
  assumes "parses (rExpr R) 1 ps x" "argument ps" "ahead p = ts @ r # us" "map tok_pair ts = ps"
    "Type r \<in> {TOKEN_RPAREN, TOKEN_RBRACKET, TOKEN_COMMA, TOKEN_EOF}"
  shows "\<exists>x'. unplaced x' = unplaced x \<and>
    run_state (call_argument R (xs, [], False)) (p, False) = ((xs @ [x'], [], False), (fwd p (length ts), False))"
proof -
  obtain t ss where t: "ts = t # ss" using assms(2,4) by (cases ts) (auto simp: argument_def)
  have "\<forall>u\<in>set ts. Type u \<notin> {TOKEN_COLON, TOKEN_COMMENT, TOKEN_SEMICOLON, TOKEN_DIRECTIVE}"
  proof
    fix u assume "u \<in> set ts"
    then have "tok_pair u \<in> set ps" using assms(4) by auto
    then show "Type u \<notin> {TOKEN_COLON, TOKEN_COMMENT, TOKEN_SEMICOLON, TOKEN_DIRECTIVE}"
      using assms(2) unfolding argument_def by (metis fst_conv)
  qed
  moreover have "Type r \<notin> {TOKEN_COLON, TOKEN_COMMENT, TOKEN_SEMICOLON, TOKEN_DIRECTIVE}"
    using assms(5) by auto
  moreover obtain u vs where u: "ss @ r # us = u # vs" "u = r \<or> u \<in> set ts" using t by (cases ss) auto
  ultimately have n: "\<not> isIgnored t" "\<not> isIgnored u" "Type u \<noteq> TOKEN_COLON" using t by (auto simp: isIgnored_def)
  have "ready p" "hd (ahead p) = t" "Type t \<noteq> TOKEN_MANY" "run_state peek_next (p, False) = (u, (p, False))"
    using assms(2-4) t n u(1) by (auto simp: ready_def argument_def run_peek_next)
  moreover obtain x' where "unplaced x' = unplaced x" "run_state (rExpr R) (p, False) = (x', (fwd p (length ts), False))"
    using parses_before [OF assms(1,3-5)] by blast
  ultimately show ?thesis
    using n(3) by (intro exI [of _ x']) (simp add: call_argument_def run_ready Let_def)
qed

definition argument_loop :: "parsers \<Rightarrow> arguments loop_body" where
  "argument_loop R = (\<lambda>s. do {
     s \<leftarrow> call_argument R s;
     b \<leftarrow> accept [TOKEN_COMMA];
     if b then do { c \<leftarrow> sees TOKEN_RPAREN; ret (\<not> c, s) } else ret (False, s) })"

lemma comma_tokens_hd: "qs \<noteq> [] \<Longrightarrow> comma_tokens (qs # pss) \<noteq> [] \<and> hd (comma_tokens (qs # pss)) = hd qs"
  by (cases pss) auto

lemma run_arguments:
  "read_arguments R pss xs \<Longrightarrow> pss \<noteq> [] \<Longrightarrow> ahead p = ts @ r # us \<Longrightarrow> map tok_pair ts = comma_tokens pss \<Longrightarrow>
     Type r = TOKEN_RPAREN \<Longrightarrow>
     \<exists>ys. map unplaced ys = map unplaced xs \<and>
       run_state (ploop_n (length pss) (argument_loop R) (zs, [], False)) (p, False) =
         ((zs @ ys, [], False), (fwd p (length ts), False))"
proof (induction pss arbitrary: xs p ts zs rule: comma_tokens.induct)
  case (2 ps)
  then obtain x where x: "xs = [x]" "parses (rExpr R) 1 ps x" "argument ps"
    by (auto simp: read_arguments_def list_all2_Cons1)
  have q: "ready (fwd p (length ts))" "hd (ahead (fwd p (length ts))) = r"
    using 2(3,5) by (simp_all add: ready_def isIgnored_def)
  have "Type r \<in> {TOKEN_RPAREN, TOKEN_RBRACKET, TOKEN_COMMA, TOKEN_EOF}" using 2(5) by simp
  then obtain x' where "unplaced x' = unplaced x"
      "run_state (call_argument R (zs, [], False)) (p, False) = ((zs @ [x'], [], False), (fwd p (length ts), False))"
    using run_argument [OF x(2,3) 2(3), of zs] 2(4) by auto
  then show ?case using q 2(5) x(1) by (intro exI [of _ "[x']"]) (simp add: argument_loop_def run_ready)
next
  case (3 ps qs pss)
  then obtain x xs' where x: "xs = x # xs'" "parses (rExpr R) 1 ps x" "argument ps" "read_arguments R (qs # pss) xs'"
    by (auto simp: read_arguments_def list_all2_Cons1)
  have qs: "argument qs" using x(4) by (auto simp: read_arguments_def list_all2_Cons1)
  obtain ts1 c ts2 where ts: "ts = ts1 @ c # ts2" "map tok_pair ts1 = ps" "Type c = TOKEN_COMMA"
      "map tok_pair ts2 = comma_tokens (qs # pss)"
    using 3(5) by (auto simp: map_eq_append_conv map_eq_Cons_conv)
  let ?q = "fwd p (Suc (length ts1))"
  obtain d ds where d: "ts2 = d # ds" using comma_tokens_hd [of qs pss] ts(4) qs by (cases ts2) (auto simp: argument_def)
  have "tok_pair d = hd qs" using comma_tokens_hd [of qs pss] ts(4) d qs by (metis argument_def list.sel(1) list.simps(9))
  then have d': "Type d = fst (hd qs)" "hd qs \<in> set qs" using qs by (metis fst_conv, simp add: argument_def)
  then have ready: "ready (fwd p (length ts1))" "hd (ahead (fwd p (length ts1))) = c" "ready ?q" "hd (ahead ?q) = d"
      "Type d \<noteq> TOKEN_RPAREN"
    using 3(4) ts(1,3) d qs by (auto simp: ready_def isIgnored_def argument_def)
  have "Type c \<in> {TOKEN_RPAREN, TOKEN_RBRACKET, TOKEN_COMMA, TOKEN_EOF}" using ts(3) by simp
  then obtain x' where x': "unplaced x' = unplaced x"
      "run_state (call_argument R (zs, [], False)) (p, False) = ((zs @ [x'], [], False), (fwd p (length ts1), False))"
    using run_argument [OF x(2,3), of p ts1 c "ts2 @ r # us" zs] 3(4) ts(1,2) by auto
  have "ahead ?q = ts2 @ r # us" using 3(4) ts(1) by simp
  then obtain ys where ys: "map unplaced ys = map unplaced xs'"
      "run_state (ploop_n (length (qs # pss)) (argument_loop R) (zs @ [x'], [], False)) (?q, False) =
        ((zs @ [x'] @ ys, [], False), (fwd ?q (length ts2), False))"
    using 3(1) [OF x(4), of ?q ts2 "zs @ [x']"] ts(4) 3(6) by auto
  show ?case
    using x' ys ready ts(1,3) x(1) by (intro exI [of _ "x' # ys"]) (simp add: argument_loop_def run_ready)
qed simp

lemma length_comma_tokens: "\<forall>ps\<in>set pss. ps \<noteq> [] \<Longrightarrow> length pss \<le> length (comma_tokens pss)"
proof (induction pss rule: comma_tokens.induct)
  case (2 ps)
  then show ?case by (cases ps) auto
qed auto

lemma run_parse_call:
  assumes "read_arguments R pss xs" "ahead p = ts @ r # us" "map tok_pair ts = comma_tokens pss" "Type r = TOKEN_RPAREN"
  shows "\<exists>ys. map unplaced ys = map unplaced xs \<and>
    run_state (parse_call R) (p, False) = ((ys, [], False), (fwd p (Suc (length ts)), False))"
proof -
  let ?q = "fwd p (length ts)"
  have q: "ready ?q" "hd (ahead ?q) = r" using assms(2,4) by (simp_all add: ready_def isIgnored_def)
  show ?thesis
  proof (cases pss)
    case Nil
    then have "ts = []" "xs = []" using assms(1,3) by (simp_all add: read_arguments_def)
    then show ?thesis using q assms(4) by (simp add: parse_call_def parseCallArguments_def run_ready)
  next
    case (Cons ps pss')
    have arg: "\<forall>ps\<in>set pss. argument ps"
      using assms(1) by (auto simp: read_arguments_def list_all2_conv_all_nth in_set_conv_nth)
    obtain d ds where d: "ts = d # ds" using comma_tokens_hd [of ps pss'] assms(3) arg Cons by (cases ts) (auto simp: argument_def)
    have "argument ps" using arg Cons by simp
    then have "tok_pair d = hd ps"
      using comma_tokens_hd [of ps pss'] assms(3) d Cons by (metis argument_def list.sel(1) list.simps(9))
    then have "Type d = fst (hd ps)" "hd ps \<in> set ps"
      using \<open>argument ps\<close> by (metis fst_conv, simp add: argument_def)
    then have d': "ready p" "hd (ahead p) = d" "Type d \<noteq> TOKEN_RPAREN"
      using \<open>argument ps\<close> assms(2) d by (auto simp: ready_def isIgnored_def argument_def)
    obtain ys where ys: "map unplaced ys = map unplaced xs"
        "run_state (ploop_n (length pss) (argument_loop R) ([], [], False)) (p, False) = ((ys, [], False), (?q, False))"
      using run_arguments [OF assms(1) _ assms(2-4), of "[]"] Cons by auto
    have "length pss \<le> length ts"
      using length_comma_tokens [of pss] arg assms(3) by (metis argument_def length_map)
    then have "run_state (ploop (argument_loop R) ([], [], False)) (p, False) = ((ys, [], False), (?q, False))"
      using assms(2) by (intro run_ploop [OF ys(2)]) simp
    then show ?thesis
      using ys(1) d' q assms(4)
      by (intro exI [of _ ys]) (simp add: parse_call_def parseCallArguments_def comma_list_until_def argument_loop_def run_ready)
  qed
qed

section \<open>Postfix expressions\<close>

lemma run_identifier:
  "ready p \<Longrightarrow> head_type p = TOKEN_IDENTIFIER \<Longrightarrow>
     run_state parseIdentifier (p, False) = (Identifier (hd (ahead p)) (Lexeme (hd (ahead p))), (fwd p 1, False))"
  by (simp add: parseIdentifier_def isIdentifierToken_def run_ready)

lemma stops_postfix: "stops (postfix_step R) 10"
  unfolding stops_def
proof (intro allI impI, elim conjE)
  fix p r us x
  assume a: "ahead p = r # us" "rank (Type r) < 10"
  then have "ready p" using rank_ready [of r] by (simp add: ready_def)
  moreover have "Type r \<notin> {TOKEN_LPAREN, TOKEN_DOT, TOKEN_LBRACKET, TOKEN_AS}" using a(2) by (auto simp: rank_def)
  ultimately show "run_state (postfix_step R x) (p, False) = ((False, x), (p, False))"
    using a(1) by (simp add: postfix_step_def run_ready)
qed

lemma steps_call:
  assumes xs: "read_arguments R pss xs"
  shows "steps (postfix_step R) 10 ((TOKEN_LPAREN, a) # comma_tokens pss @ [(TOKEN_RPAREN, b)]) f (CallExpr t f xs [] False)"
proof (rule stepsI)
  fix p ts r us f'
  assume h: "ahead p = ts @ r # us" "map tok_pair ts = (TOKEN_LPAREN, a) # comma_tokens pss @ [(TOKEN_RPAREN, b)]"
    and f': "unplaced f' = unplaced f"
  obtain y vs z where v: "ts = y # vs @ [z]" "Type y = TOKEN_LPAREN" "Type z = TOKEN_RPAREN" "map tok_pair vs = comma_tokens pss"
    using h(2) by (auto simp: map_eq_Cons_conv map_eq_append_conv dest: sym [of TOKEN_RPAREN])
  have p: "ready p" "hd (ahead p) = y" "ahead (fwd p 1) = vs @ z # r # us"
    using h(1) v by (simp_all add: ready_def isIgnored_def)
  obtain ys where ys: "map unplaced ys = map unplaced xs"
      "run_state (parse_call R) (fwd p 1, False) = ((ys, [], False), (fwd (fwd p 1) (Suc (length vs)), False))"
    using run_parse_call [OF xs p(3) v(4,3)] by blast
  have "run_state prev_tok (fwd p (Suc (Suc (length vs))), False) = (z, (fwd p (Suc (Suc (length vs))), False))"
    using run_prev [of "Suc (length vs)" p False] h(1) v(1) by (simp add: nth_append)
  then show "\<exists>e'. unplaced e' = unplaced (CallExpr t f xs [] False) \<and>
      run_state (postfix_step R f') (p, False) = ((True, e'), (fwd p (length ts), False))"
    using ys p(1,2) v(1,2) f'
    by (intro exI [of _ "CallExpr z f' ys [] False"]) (simp add: postfix_step_def run_ready)
qed

lemma steps_method:
  assumes xs: "read_arguments R pss xs"
  shows "steps (postfix_step R) 10
    ((TOKEN_DOT, d) # (TOKEN_IDENTIFIER, n) # (TOKEN_LPAREN, a) # comma_tokens pss @ [(TOKEN_RPAREN, b)]) x
    (MethodCallExpr t x (Identifier k n) xs [] False)"
proof (rule stepsI)
  fix p ts r us x'
  assume h: "ahead p = ts @ r # us"
    "map tok_pair ts = (TOKEN_DOT, d) # (TOKEN_IDENTIFIER, n) # (TOKEN_LPAREN, a) # comma_tokens pss @ [(TOKEN_RPAREN, b)]"
    and x': "unplaced x' = unplaced x"
  obtain e i y vs z where v: "ts = e # i # y # vs @ [z]" "Type e = TOKEN_DOT" "Type i = TOKEN_IDENTIFIER" "Lexeme i = n"
      "Type y = TOKEN_LPAREN" "Type z = TOKEN_RPAREN" "map tok_pair vs = comma_tokens pss"
    using h(2) by (auto simp: map_eq_Cons_conv map_eq_append_conv dest: sym [of TOKEN_RPAREN])
  have p: "ready p" "hd (ahead p) = e" "ready (fwd p 1)" "hd (ahead (fwd p 1)) = i" "ready (fwd p 2)"
      "hd (ahead (fwd p 2)) = y" "ahead (fwd p 3) = vs @ z # r # us" "0 < length (ahead p)" "ahead p ! 0 = e"
    using h(1) v by (simp_all add: ready_def isIgnored_def)
  obtain ys where ys: "map unplaced ys = map unplaced xs"
      "run_state (parse_call R) (fwd p 3, False) = ((ys, [], False), (fwd (fwd p 3) (Suc (length vs)), False))"
    using run_parse_call [OF xs p(7) v(7,6)] by blast
  have i: "run_state parseIdentifier (fwd p 1, False) = (Identifier i n, (fwd p 2, False))"
    using run_identifier [OF p(3)] p(4) v(3,4) by (simp add: numeral_2_eq_2)
  have "run_state (after_dot R x') (fwd p 1, False) =
      (MethodCallExpr e x' (Identifier i n) ys [] False, (fwd p (Suc (Suc (Suc (Suc (length vs))))), False))"
    using run_prev [OF p(8), of False] p(3-6,9) v(3,5) i ys(2)
    by (simp add: after_dot_def run_ready numeral_2_eq_2 numeral_3_eq_3)
  then show "\<exists>e'. unplaced e' = unplaced (MethodCallExpr t x (Identifier k n) xs [] False) \<and>
      run_state (postfix_step R x') (p, False) = ((True, e'), (fwd p (length ts), False))"
    using ys(1) p(1,2) v(1,2) x'
    by (intro exI [of _ "MethodCallExpr e x' (Identifier i n) ys [] False"]) (simp add: postfix_step_def run_ready)
qed

lemma steps_field:
  "steps (postfix_step R) 10 [(TOKEN_DOT, d), (TOKEN_IDENTIFIER, n)] x (FieldAccessExpr t x (Identifier k n))"
proof (rule stepsI)
  fix p ts r us x'
  assume h: "ahead p = ts @ r # us" "map tok_pair ts = [(TOKEN_DOT, d), (TOKEN_IDENTIFIER, n)]"
    and r: "rank (Type r) \<le> 10" "ends (FieldAccessExpr t x (Identifier k n)) r" and x': "unplaced x' = unplaced x"
  obtain e i where v: "ts = [e, i]" "Type e = TOKEN_DOT" "Type i = TOKEN_IDENTIFIER" "Lexeme i = n"
    using h(2) by (auto simp: map_eq_Cons_conv)
  have p: "ready p" "hd (ahead p) = e" "ready (fwd p 1)" "hd (ahead (fwd p 1)) = i" "ready (fwd p 2)"
      "hd (ahead (fwd p 2)) = r" "0 < length (ahead p)" "ahead p ! 0 = e"
    using h(1) v rank_ready [OF r(1)] by (simp_all add: ready_def isIgnored_def)
  have i: "run_state parseIdentifier (fwd p 1, False) = (Identifier i n, (fwd p 2, False))"
    using run_identifier [OF p(3)] p(4) v(3,4) by (simp add: numeral_2_eq_2)
  have "Type r \<notin> {TOKEN_LPAREN, TOKEN_LBRACE}" using r by (auto simp: ends_def is_field_def rank_def)
  then have "run_state (after_dot R x') (fwd p 1, False) =
      (FieldAccessExpr e x' (Identifier i n), (fwd p 2, False))"
    using run_prev [OF p(7), of False] p(3-6,8) v(3) i by (simp add: after_dot_def run_ready)
  then show "\<exists>e'. unplaced e' = unplaced (FieldAccessExpr t x (Identifier k n)) \<and>
      run_state (postfix_step R x') (p, False) = ((True, e'), (fwd p (length ts), False))"
    using p(1,2) v(1,2) x'
    by (intro exI [of _ "FieldAccessExpr e x' (Identifier i n)"])
      (simp add: postfix_step_def run_ready numeral_2_eq_2)
qed

lemma steps_index:
  assumes i: "parses (rExpr R) 1 ps i" "argument ps"
  shows "steps (postfix_step R) 10 ((TOKEN_LBRACKET, a) # ps @ [(TOKEN_RBRACKET, b)]) x (IndexExpr t x i)"
proof (rule stepsI)
  fix p ts r us x'
  assume h: "ahead p = ts @ r # us" "map tok_pair ts = (TOKEN_LBRACKET, a) # ps @ [(TOKEN_RBRACKET, b)]"
    and x': "unplaced x' = unplaced x"
  obtain y vs z where v: "ts = y # vs @ [z]" "Type y = TOKEN_LBRACKET" "Type z = TOKEN_RBRACKET" "map tok_pair vs = ps"
    using h(2) by (auto simp: map_eq_Cons_conv map_eq_append_conv dest: sym [of TOKEN_RBRACKET])
  obtain w ws where w: "vs = w # ws" using v(4) i(2) by (cases vs) (auto simp: argument_def)
  have "(Type w, Lexeme w) \<in> set ps" using v(4) w by auto
  then have "Type w \<notin> {TOKEN_COLON, TOKEN_COMMENT, TOKEN_SEMICOLON, TOKEN_DIRECTIVE}"
    using i(2) unfolding argument_def by (metis fst_conv)
  then have p: "ready p" "hd (ahead p) = y" "ready (fwd p 1)" "hd (ahead (fwd p 1)) = w" "Type w \<noteq> TOKEN_COLON"
      "ready (fwd p (Suc (length vs)))" "hd (ahead (fwd p (Suc (length vs)))) = z" "ahead (fwd p 1) = vs @ z # r # us"
    using h(1) v w by (auto simp: ready_def isIgnored_def)
  obtain i' where i': "unplaced i' = unplaced i"
      "run_state (rExpr R) (fwd p 1, False) = (i', (fwd (fwd p 1) (length vs), False))"
    using parses_before [OF i(1) p(8) v(4)] v(3) by auto
  have "run_state prev_tok (fwd p (Suc (Suc (length vs))), False) = (z, (fwd p (Suc (Suc (length vs))), False))"
    using run_prev [of "Suc (length vs)" p False] h(1) v(1) by (simp add: nth_append)
  then have "run_state (after_bracket R x') (fwd p 1, False) = (IndexExpr z x' i', (fwd p (length ts), False))"
    using i'(2) p(3-7) v(1,3) by (simp add: after_bracket_def run_ready)
  then show "\<exists>e'. unplaced e' = unplaced (IndexExpr t x i) \<and>
      run_state (postfix_step R x') (p, False) = ((True, e'), (fwd p (length ts), False))"
    using i'(1) p(1,2) v(2) x' by (intro exI [of _ "IndexExpr z x' i'"]) (simp add: postfix_step_def run_ready)
qed

section \<open>Unary expressions\<close>

lemma parses_unary:
  assumes r: "parses (rUnary R) 9 ps r" and tt: "tt \<in> {TOKEN_NOT, TOKEN_BANG, TOKEN_MINUS}"
  shows "parses (parseUnaryExpr R) 9 ((tt, op) # ps) (UnaryExpr t op r)"
proof (rule parsesI)
  fix p ts s us
  assume h: "ahead p = ts @ s # us" "map tok_pair ts = (tt, op) # ps" "rank (Type s) < 9"
  obtain y vs where v: "ts = y # vs" "Type y = tt" "Lexeme y = op" "map tok_pair vs = ps" using h(2) by auto
  have p: "ready p" "hd (ahead p) = y" "ahead (fwd p 1) = vs @ s # us" "0 < length (ahead p)" "ahead p ! 0 = y"
    using h(1) v(1,2) tt by (auto simp: ready_def isIgnored_def)
  have "ends r s" using h(3) by (auto simp: ends_def rank_def)
  then obtain r' where r': "unplaced r' = unplaced r"
      "run_state (rUnary R) (fwd p 1, False) = (r', (fwd (fwd p 1) (length vs), False))"
    using parsesD [OF r p(3) v(4) h(3)] by blast
  have "head_type p \<noteq> TOKEN_EOF" "head_type p \<in> set [TOKEN_NOT, TOKEN_BANG, TOKEN_MINUS]" using p(2) v(2) tt by auto
  then show "\<exists>e'. unplaced e' = unplaced (UnaryExpr t op r) \<and>
      run_state (parseUnaryExpr R) (p, False) = (e', (fwd p (length ts), False))"
    using r' p(1,5) run_prev [OF p(4), of False] v(1,3)
    by (intro exI [of _ "UnaryExpr y op r'"]) (simp add: parseUnaryExpr_def run_ready del: list.set)
qed

definition starters :: "token_type list" where
  "starters = [TOKEN_IDENTIFIER, TOKEN_INTEGER, TOKEN_TRUE, TOKEN_FALSE, TOKEN_LPAREN]"

lemma parses_plain_unary:
  assumes e: "parses (parsePostfixExpr R) 10 ps e" and ps: "ps \<noteq> []" "fst (hd ps) \<in> set starters"
  shows "parses (parseUnaryExpr R) 9 ps e"
proof (rule parsesI)
  fix p ts s us
  assume h: "ahead p = ts @ s # us" "map tok_pair ts = ps" "rank (Type s) < 9" "ends e s"
  obtain y vs where v: "ts = y # vs" using h(2) ps(1) by (cases ts) auto
  have y: "Type y \<in> set starters" using h(2) ps(2) v by auto
  have p: "ready p" "hd (ahead p) = y" using h(1) v y by (auto simp: ready_def isIgnored_def starters_def)
  have "Type y \<notin> set [TOKEN_NOT, TOKEN_BANG, TOKEN_MINUS, TOKEN_BIT_AND, TOKEN_REFERENCE, TOKEN_DEREFERENCE]"
    using y by (auto simp: starters_def)
  then have "run_state (parseUnaryExpr R) (p, False) = run_state (parsePostfixExpr R) (p, False)"
    using p by (simp add: parseUnaryExpr_def reference_of_def run_ready run_get)
  then show "\<exists>e'. unplaced e' = unplaced e \<and>
      run_state (parseUnaryExpr R) (p, False) = (e', (fwd p (length ts), False))"
    using parsesD [OF e h(1,2) _ h(4)] h(3) by simp
qed

lemma parses_expression:
  assumes e: "parses (parseOrExpr R) 1 ps e"
  shows "parses (parseExpression R) 1 ps e"
proof (rule parsesI)
  fix p ts s us
  assume h: "ahead p = ts @ s # us" "map tok_pair ts = ps" "rank (Type s) < 1" "ends e s"
  obtain e' where e': "unplaced e' = unplaced e" "run_state (parseOrExpr R) (p, False) = (e', (fwd p (length ts), False))"
    using parsesD [OF e h] by blast
  have "\<not> isIgnored s" using rank_ready [of s] h(3) by simp
  moreover have "Type s \<noteq> TOKEN_ONERR" using h(3) by (auto simp: rank_def)
  ultimately have "run_state (accept [TOKEN_ONERR]) (fwd p (length ts), False) = (False, (fwd p (length ts), False))"
    using h(1) by (simp add: run_ready ready_def)
  then show "\<exists>e'. unplaced e' = unplaced e \<and>
      run_state (parseExpression R) (p, False) = (e', (fwd p (length ts), False))"
    using e' by (intro exI [of _ e']) (simp add: parseExpression_def parseOnErrExpr_def run_get)
qed

end
