(* ===== verification/ExprRoundtrip.thy ===== *)
theory ExprRoundtrip
  imports ExprTerms
begin

text \<open>
  Formatting an expression and parsing the text gives the expression back: the printer's parentheses
  agree with the levels of the parser.
\<close>

section \<open>The parts of the text fit together\<close>

definition ender :: "lexeme \<Rightarrow> bool" where
  "ender p \<longleftrightarrow> (\<exists>w. p = Word w) \<or> (\<exists>n. p = Num n) \<or> p = Sym '')'' \<or> p = Sym '']''"

definition good :: "lexeme list \<Rightarrow> bool" where
  "good ls \<longleftrightarrow> ls \<noteq> [] \<and> well_joined ls \<and> hd ls \<noteq> Gap \<and> ender (last ls)"

lemma joins_ender: "ender p \<Longrightarrow> joins p Gap" "ender p \<Longrightarrow> s \<noteq> ''.'' \<Longrightarrow> joins p (Sym s)"
  by (auto simp: ender_def joins_def)

lemma good_join:
  assumes "good a" "good b" "well_joined m" "m \<noteq> []" "joins (last a) (hd m)" "joins (last m) (hd b)"
  shows "good (a @ m @ b)"
proof -
  have "well_joined (m @ b)" using assms by (intro well_joined_append) (auto simp: good_def)
  then have "well_joined (a @ m @ b)" using assms by (intro well_joined_append) (auto simp: good_def)
  then show ?thesis using assms by (simp add: good_def)
qed

lemma good_parens:
  assumes "good ls" shows "good (in_parens ls)"
proof -
  have "well_joined (ls @ [Sym '')''])"
    using assms by (intro well_joined_append) (auto simp: good_def joins_ender fine_lexeme_def symbol_lists)
  from well_joined_append [OF _ this, of "[Sym ''('']"] have "well_joined ([Sym ''(''] @ ls @ [Sym '')''])"
    by (simp add: fine_lexeme_def symbol_lists joins_def)
  then show ?thesis by (simp add: good_def ender_def)
qed

lemma good_commas: "ls \<noteq> [] \<Longrightarrow> \<forall>l\<in>set ls. good l \<Longrightarrow> good (commas ls)"
proof (induction ls rule: commas.induct)
  case (3 l k ls)
  have m: "well_joined [Sym '','', Gap]" by (simp add: fine_lexeme_def symbol_lists joins_def)
  have "good (l @ [Sym '','', Gap] @ commas (k # ls))"
    using 3 m by (intro good_join) (auto simp: good_def joins_ender, auto simp: joins_def)
  then show ?case by simp
qed auto

lemma good_arguments:
  assumes "\<forall>l\<in>set ls. good l" shows "good (in_parens (commas ls))"
proof (cases "ls = []")
  case True
  then show ?thesis by (simp add: good_def fine_lexeme_def symbol_lists joins_def ender_def)
next
  case False
  then show ?thesis by (rule good_parens [OF good_commas [OF _ assms]])
qed

lemma op_joined: "(op, k) \<in> set op_table \<Longrightarrow> well_joined ([Gap] @ op_lexemes op @ [Gap])"
  by (auto simp: op_table_def op_lexemes_def fine_lexeme_def joins_def symbol_lists is_word_def isAlpha_def
      word_char_def isAlphaNumeric_def isDigit_def)

lemma good_append:
  assumes "good a" "good b" "joins (last a) (hd b)"
  shows "good (a @ b)"
  using assms well_joined_append [of a b] by (auto simp: good_def)

text \<open>Where an expression starts and ends.\<close>

definition atom :: "lexeme \<Rightarrow> bool" where
  "atom p \<longleftrightarrow> (\<exists>w. p = Word w \<and> (LookupKeyword w = TOKEN_IDENTIFIER \<or> w = ''true'' \<or> w = ''false'')) \<or> (\<exists>n. p = Num n)"

lemma hd_lexemes: "plain e \<Longrightarrow> expr_level e = 10 \<Longrightarrow> atom (hd (lexemes e)) \<and> lexemes e \<noteq> []"
proof (induction e rule: plain.induct)
  case (4 t l op r)
  then have "(op, 10) \<in> set op_table" using op_level_table [of op] by (simp add: expr_level_def)
  then show ?case by (auto simp: op_table_def)
next
  case (6 t f as ns v)
  then have "expr_level f = 10" by (auto simp: chain_def expr_level_def split: Expression.splits)
  then show ?case using 6 by auto
next
  case (7 t x n as ns v)
  then have "expr_level x = 10" by (auto simp: chain_def expr_level_def split: Expression.splits)
  then show ?case using 7 by auto
next
  case (8 t x n)
  then have "expr_level x = 10" by (auto simp: chain_def expr_level_def split: Expression.splits)
  then show ?case using 8 by auto
next
  case (9 t x i)
  then have "expr_level x = 10" by (auto simp: chain_def expr_level_def split: Expression.splits)
  then show ?case using 9 by auto
qed (auto simp: expr_level_def atom_def plain_name_def)

lemma last_chain: "plain e \<Longrightarrow> chain e \<Longrightarrow> \<nexists>n. last (lexemes e) = Num n"
  by (cases e) (auto simp: chain_def)

lemma good_lexemes: "plain e \<Longrightarrow> good (lexemes e)"
proof (induction e rule: plain.induct)
  case (1 i)
  then show ?case by (simp add: good_def ender_def fine_lexeme_def plain_name_def)
next
  case (2 t v)
  then show ?case by (simp add: good_def ender_def fine_lexeme_def)
next
  case (3 t v)
  then show ?case
    by (simp add: good_def ender_def fine_lexeme_def is_word_def isAlpha_def word_char_def isAlphaNumeric_def)
next
  case (4 t l op r)
  let ?l = "if operand_parens (operatorPrecedence op) False l then in_parens (lexemes l) else lexemes l"
  let ?r = "if operand_parens (operatorPrecedence op) True r then in_parens (lexemes r) else lexemes r"
  have "good ?l" "good ?r" using 4 good_parens by auto
  moreover have "well_joined ([Gap] @ op_lexemes op @ [Gap])" using op_joined op_level_table 4(3) by auto
  ultimately have "good (?l @ ([Gap] @ op_lexemes op @ [Gap]) @ ?r)"
    by (intro good_join) (auto simp: good_def joins_ender, auto simp: joins_def)
  then show ?case by simp
next
  case (5 t op r)
  let ?r = "if op \<noteq> ''-'' \<and> needsParensAfterNot r then in_parens (lexemes r) else lexemes r"
  have r: "good ?r" using 5 good_parens by auto
  consider "op = ''not''" | "op = ''!''" | "op = ''-''" "expr_level r = 10" using 5(2) by auto
  then show ?case
  proof cases
    case 1
    have "well_joined ([Word ''not'', Gap] @ ?r)"
      using r by (intro well_joined_append)
        (auto simp: good_def fine_lexeme_def is_word_def isAlpha_def word_char_def isAlphaNumeric_def joins_def)
    then show ?thesis using r 1 by (simp add: good_def)
  next
    case 2
    have "well_joined ([Sym ''!'', Gap] @ ?r)"
      using r by (intro well_joined_append) (auto simp: good_def fine_lexeme_def symbol_lists joins_def)
    then show ?thesis using r 2 by (simp add: good_def)
  next
    case 3
    have "atom (hd (lexemes r))" using hd_lexemes 3(2) 5(2) by simp
    then have "well_joined ([Sym ''-''] @ ?r)"
      using r 3 by (intro well_joined_append) (auto simp: good_def fine_lexeme_def symbol_lists joins_def atom_def)
    then show ?thesis using r 3 by (simp add: good_def)
  qed
next
  case (6 t f as ns v)
  have "good (lexemes f)" using 6 by simp
  moreover have "good (in_parens (commas (map lexemes as)))" by (rule good_arguments) (use 6 in auto)
  ultimately show ?case using good_append [of "lexemes f"] by (simp add: good_def joins_ender)
next
  case (7 t x n as ns v)
  have f: "good (lexemes x)" using 7 by simp
  have a: "good (in_parens (commas (map lexemes as)))" by (rule good_arguments) (use 7 in auto)
  have "well_joined [Sym ''.'', Word (identValue n)]"
    using 7(3) by (simp add: fine_lexeme_def symbol_lists joins_def plain_name_def)
  moreover have "joins (last (lexemes x)) (Sym ''.'')"
    using last_chain [of x] 7(3) f by (auto simp: good_def ender_def joins_def)
  ultimately have "good (lexemes x @ [Sym ''.'', Word (identValue n)] @ in_parens (commas (map lexemes as)))"
    by (intro good_join [OF f a]) (simp_all add: joins_def)
  then show ?case by simp
next
  case (8 t x n)
  have f: "good (lexemes x)" using 8 by simp
  have "joins (last (lexemes x)) (Sym ''.'')"
    using last_chain [of x] 8(2) f by (auto simp: good_def ender_def joins_def)
  moreover have "well_joined [Sym ''.'', Word (identValue n)]"
    using 8(2) by (simp add: fine_lexeme_def symbol_lists joins_def plain_name_def)
  ultimately show ?case
    using f well_joined_append [of "lexemes x" "[Sym ''.'', Word (identValue n)]"] by (simp add: good_def ender_def)
next
  case (9 t x i)
  have f: "good (lexemes x)" "good (lexemes i)" using 9 by simp_all
  have "well_joined (lexemes i @ [Sym '']''])"
    using f(2) by (intro well_joined_append) (auto simp: good_def joins_ender fine_lexeme_def symbol_lists)
  from well_joined_append [OF _ this, of "[Sym ''['']"] have i: "well_joined ([Sym ''[''] @ lexemes i @ [Sym '']''])"
    by (simp add: fine_lexeme_def symbol_lists joins_def)
  have "well_joined (lexemes x @ [Sym ''[''] @ lexemes i @ [Sym '']''])"
    by (rule well_joined_append [OF _ i]) (use f(1) in \<open>auto simp: good_def joins_ender\<close>)
  then show ?case using f by (simp add: good_def ender_def)
qed simp_all

section \<open>The parser reads the tokens back\<close>

definition toks :: "Expression \<Rightarrow> (token_type \<times> string) list" where
  "toks e = tokens_of (lexemes e)"

definition wrap :: "(token_type \<times> string) list \<Rightarrow> (token_type \<times> string) list" where
  "wrap ps = (TOKEN_LPAREN, ''('') # ps @ [(TOKEN_RPAREN, '')'')]"

definition unary_token :: "string \<Rightarrow> token_type" where
  "unary_token op = (if op = ''not'' then TOKEN_NOT else if op = ''!'' then TOKEN_BANG else TOKEN_MINUS)"

lemma symbol_types:
  "sym_type ''('' = TOKEN_LPAREN" "sym_type '')'' = TOKEN_RPAREN" "sym_type ''['' = TOKEN_LBRACKET"
  "sym_type '']'' = TOKEN_RBRACKET" "sym_type '','' = TOKEN_COMMA" "sym_type ''.'' = TOKEN_DOT"
  "sym_type ''!'' = TOKEN_BANG" "sym_type ''-'' = TOKEN_MINUS" "LookupKeyword ''not'' = TOKEN_NOT"
  "LookupKeyword ''true'' = TOKEN_TRUE" "LookupKeyword ''false'' = TOKEN_FALSE"
  by (code_simp, code_simp, code_simp, code_simp, code_simp, code_simp, code_simp, code_simp, code_simp, code_simp,
      code_simp)

lemma tokens_commas: "tokens_of (commas ls) = comma_tokens (map tokens_of ls)"
proof (induction ls rule: commas.induct)
  case (3 l k ls)
  then show ?case by (simp add: symbol_types)
qed simp_all

lemma toks_simps:
  "toks (Ident i) = [(LookupKeyword (identValue i), identValue i)]"
  "toks (IntegerLiteral t z) = [(TOKEN_INTEGER, utoa (nat z))]"
  "toks (BooleanLiteral t b) = [(if b then TOKEN_TRUE else TOKEN_FALSE, if b then ''true'' else ''false'')]"
  "toks (BinaryExpr t l op r) =
     (if operand_parens (operatorPrecedence op) False l then wrap (toks l) else toks l) @ op_tokens op @
     (if operand_parens (operatorPrecedence op) True r then wrap (toks r) else toks r)"
  "op = ''not'' \<or> op = ''!'' \<or> op = ''-'' \<Longrightarrow> toks (UnaryExpr t op r) =
     (unary_token op, op) # (if op \<noteq> ''-'' \<and> needsParensAfterNot r then wrap (toks r) else toks r)"
  "toks (CallExpr t f as ns v) = toks f @ wrap (comma_tokens (map toks as))"
  "toks (MethodCallExpr t x n as ns v) =
     toks x @ [(TOKEN_DOT, ''.''), (LookupKeyword (identValue n), identValue n)] @ wrap (comma_tokens (map toks as))"
  "toks (FieldAccessExpr t x n) = toks x @ [(TOKEN_DOT, ''.''), (LookupKeyword (identValue n), identValue n)]"
  "toks (IndexExpr t x y) = toks x @ (TOKEN_LBRACKET, ''['') # toks y @ [(TOKEN_RBRACKET, '']'')]"
proof -
  have m: "map tokens_of (map lexemes as) = map toks as" for as by (simp add: toks_def)
  show "toks (CallExpr t f as ns v) = toks f @ wrap (comma_tokens (map toks as))"
    "toks (MethodCallExpr t x n as ns v) =
       toks x @ [(TOKEN_DOT, ''.''), (LookupKeyword (identValue n), identValue n)] @ wrap (comma_tokens (map toks as))"
    using tokens_commas [of "map lexemes as", unfolded m] by (simp_all add: toks_def wrap_def symbol_types)
  show "op = ''not'' \<or> op = ''!'' \<or> op = ''-'' \<Longrightarrow> toks (UnaryExpr t op r) =
     (unary_token op, op) # (if op \<noteq> ''-'' \<and> needsParensAfterNot r then wrap (toks r) else toks r)"
    by (elim disjE) (simp_all add: toks_def wrap_def symbol_types unary_token_def)
qed (simp_all add: toks_def wrap_def symbol_types op_tokens_def)

text \<open>The kinds of tokens in an expression.\<close>

definition expr_type :: "token_type \<Rightarrow> bool" where
  "expr_type tt \<longleftrightarrow> rank tt \<le> 10 \<and> tt \<noteq> TOKEN_EOF \<or>
     tt \<in> {TOKEN_IDENTIFIER, TOKEN_INTEGER, TOKEN_TRUE, TOKEN_FALSE, TOKEN_BANG}"

lemma expr_type_facts:
  "expr_type TOKEN_LPAREN" "expr_type TOKEN_RPAREN" "expr_type TOKEN_LBRACKET" "expr_type TOKEN_RBRACKET"
  "expr_type TOKEN_COMMA" "expr_type TOKEN_DOT" "expr_type TOKEN_IDENTIFIER" "expr_type TOKEN_INTEGER"
  "expr_type TOKEN_TRUE" "expr_type TOKEN_FALSE" "expr_type (unary_token op)"
  by (simp_all add: expr_type_def rank_def unary_token_def)

lemma rank_type: "rank tt \<in> {1..<9} \<Longrightarrow> expr_type tt"
proof -
  have "rank TOKEN_EOF = 0" by (simp add: rank_def)
  then show "rank tt \<in> {1..<9} \<Longrightarrow> expr_type tt" by (auto simp: expr_type_def)
qed

lemma op_types: "list_all (\<lambda>(op, k). list_all (\<lambda>(tt, s). rank tt \<in> set [1..<9]) (op_tokens op)) op_table"
  by code_simp

lemma op_token_types:
  assumes "0 < op_level op" "x \<in> set (op_tokens op)" shows "rank (fst x) \<in> {1..<9}"
proof -
  have "list_all (\<lambda>(tt, s). rank tt \<in> set [1..<9]) (op_tokens op)"
    using op_types op_level_table [OF assms(1)] unfolding list_all_iff by fast
  then show ?thesis using assms(2) by (auto simp: list_all_iff)
qed

definition expr_types :: "(token_type \<times> string) list \<Rightarrow> bool" where
  "expr_types ps \<longleftrightarrow> (\<forall>x\<in>set ps. expr_type (fst x))"

lemma expr_types_simps [simp]:
  "expr_types []" "expr_types (x # ps) \<longleftrightarrow> expr_type (fst x) \<and> expr_types ps"
  "expr_types (ps @ qs) \<longleftrightarrow> expr_types ps \<and> expr_types qs" "expr_types (wrap ps) \<longleftrightarrow> expr_types ps"
  by (auto simp: expr_types_def wrap_def expr_type_facts)

lemma expr_types_commas: "\<forall>ps\<in>set pss. expr_types ps \<Longrightarrow> expr_types (comma_tokens pss)"
  by (induction pss rule: comma_tokens.induct) (auto simp: expr_type_facts)

lemma toks_types: "plain e \<Longrightarrow> expr_types (toks e)"
proof (induction e rule: plain.induct)
  case (4 t l op r)
  have "0 < op_level op" using 4(3) by simp
  then have "expr_types (op_tokens op)"
    unfolding expr_types_def using op_token_types rank_type by blast
  then show ?case using 4 by (simp add: toks_simps)
next
  case (5 t op r)
  then have "op = ''not'' \<or> op = ''!'' \<or> op = ''-''" by auto
  then show ?case using 5 toks_simps(5) [of op] by (simp add: expr_type_facts)
next
  case (6 t f as ns v)
  have "expr_types (comma_tokens (map toks as))" by (rule expr_types_commas) (use 6 in auto)
  then show ?case using 6 by (simp add: toks_simps)
next
  case (7 t x n as ns v)
  have "expr_types (comma_tokens (map toks as))" by (rule expr_types_commas) (use 7 in auto)
  then show ?case using 7 by (simp add: toks_simps expr_type_facts plain_name_def)
qed (simp_all add: toks_simps expr_type_facts plain_name_def del: One_nat_def)

text \<open>What an expression starts with: a minus or a negation, or what can start an operand.\<close>

definition lead_type :: "(token_type \<times> string) list \<Rightarrow> token_type" where
  "lead_type ps = fst (hd ps)"

lemma toks_first:
  "plain e \<Longrightarrow> toks e \<noteq> [] \<and>
     (lead_type (toks e) \<in> set starters \<or>
      expr_level e < 10 \<and> lead_type (toks e) \<in> {TOKEN_NOT, TOKEN_BANG, TOKEN_MINUS})"
proof (induction e rule: plain.induct)
  case (4 t l op r)
  have "expr_level (BinaryExpr t l op r) < 10"
    using op_level_table [of op] 4(3) by (auto simp: expr_level_def op_table_def)
  then show ?case using 4 by (auto simp: toks_simps wrap_def lead_type_def starters_def)
next
  case (5 t op r)
  then have "op = ''not'' \<or> op = ''!'' \<or> op = ''-''" by auto
  then show ?case using toks_simps(5) [of op] by (simp add: lead_type_def unary_token_def expr_level_def)
next
  case (6 t f as ns v)
  then have "expr_level f = 10" by (auto simp: chain_def expr_level_def split: Expression.splits)
  then show ?case using 6 by (auto simp: toks_simps lead_type_def)
next
  case (7 t x n as ns v)
  then have "expr_level x = 10" by (auto simp: chain_def expr_level_def split: Expression.splits)
  then show ?case using 7 by (auto simp: toks_simps lead_type_def)
next
  case (8 t x n)
  then have "expr_level x = 10" by (auto simp: chain_def expr_level_def split: Expression.splits)
  then show ?case using 8 by (auto simp: toks_simps lead_type_def)
next
  case (9 t x i)
  then have "expr_level x = 10" by (auto simp: chain_def expr_level_def split: Expression.splits)
  then show ?case using 9 by (auto simp: toks_simps lead_type_def)
qed (auto simp: toks_simps lead_type_def starters_def plain_name_def)

lemma argument_toks: "plain e \<Longrightarrow> argument (toks e)"
  using toks_first [of e] toks_types [of e]
  by (auto simp: argument_def lead_type_def starters_def expr_types_def expr_type_def rank_def)

text \<open>The search for an arrow passes an expression.\<close>

lemma passed_cons:
  "tt \<notin> {TOKEN_LPAREN, TOKEN_RPAREN, TOKEN_NEWLINE, TOKEN_EOF, TOKEN_INDENT, TOKEN_DEDENT} \<Longrightarrow> passed ps \<Longrightarrow>
     passed ((tt, s) # ps)"
  using passed_append [OF passed_one] by (metis append_Cons append_Nil)

lemma passed_wrap: "passed ps \<Longrightarrow> passed (wrap ps)"
  unfolding wrap_def by (rule passed_parens)

lemma passed_commas: "\<forall>ps\<in>set pss. passed ps \<Longrightarrow> passed (comma_tokens pss)"
  by (induction pss rule: comma_tokens.induct) (auto simp: passed_nil intro!: passed_append passed_cons)

lemma passed_ranked: "\<forall>x\<in>set ps. rank (fst x) \<in> {1..<9} \<Longrightarrow> passed ps"
proof (induction ps)
  case (Cons x ps)
  then have "fst x \<notin> {TOKEN_LPAREN, TOKEN_RPAREN, TOKEN_NEWLINE, TOKEN_EOF, TOKEN_INDENT, TOKEN_DEDENT}"
    by (auto simp: rank_def)
  then show ?case using Cons passed_cons [of "fst x" ps "snd x"] by simp
qed (simp add: passed_nil)

lemma passed_toks: "plain e \<Longrightarrow> passed (toks e)"
proof (induction e rule: plain.induct)
  case (4 t l op r)
  have "passed (op_tokens op)" using op_token_types 4(3) by (intro passed_ranked) auto
  then show ?case using 4 by (auto simp: toks_simps intro!: passed_append passed_wrap)
next
  case (5 t op r)
  then have op: "op = ''not'' \<or> op = ''!'' \<or> op = ''-''" by auto
  show ?case
    using 5 unfolding toks_simps(5) [OF op] by (intro passed_cons) (auto simp: unary_token_def intro: passed_wrap)
next
  case (6 t f as ns v)
  have "passed (comma_tokens (map toks as))" by (rule passed_commas) (use 6 in auto)
  then show ?case using 6 by (auto simp: toks_simps intro!: passed_append passed_wrap)
next
  case (7 t x n as ns v)
  have "passed (comma_tokens (map toks as))" by (rule passed_commas) (use 7 in auto)
  then show ?case using 7 by (auto simp: toks_simps plain_name_def intro!: passed_append passed_wrap passed_cons)
qed (auto simp: toks_simps plain_name_def passed_nil intro!: passed_append passed_cons)

section \<open>Every level reads every expression of its strength\<close>

definition reads_well :: "nat \<Rightarrow> (token_type \<times> string) list \<Rightarrow> nat \<Rightarrow> Expression \<Rightarrow> bool" where
  "reads_well n ps j e \<longleftrightarrow>
     (\<forall>k. 1 \<le> k \<and> k \<le> j \<and> k \<le> 9 \<longrightarrow> parses (level_parser (parsers_at n) k) k ps e) \<and>
     (\<forall>k\<in>levels. k \<le> j \<longrightarrow> reaches (level_parser (parsers_at n) k) (level_body (parsers_at n) k) k ps e) \<and>
     (j = 10 \<longrightarrow> reaches (parsePostfixExpr (parsers_at n)) (postfix_step (parsers_at n)) 10 ps e)"

lemma reads_well_levels:
  assumes "parses (level_parser (parsers_at n) j) j ps e" "j \<le> 9"
  shows "1 \<le> k \<Longrightarrow> k \<le> j \<Longrightarrow> parses (level_parser (parsers_at n) k) k ps e"
    "k \<in> levels \<Longrightarrow> k < j \<Longrightarrow> reaches (level_parser (parsers_at n) k) (level_body (parsers_at n) k) k ps e"
  using parses_down [OF assms(1)] assms(2) by (simp, auto intro!: parses_level)

lemma reads_well_unary:
  assumes "parses (parseUnaryExpr (parsers_at n)) 9 ps e"
  shows "reads_well n ps 9 e"
proof -
  have u: "parses (level_parser (parsers_at n) 9) 9 ps e" using assms by (simp add: level_parser_def)
  show ?thesis unfolding reads_well_def
    using reads_well_levels [OF u] by auto
qed

lemma reads_well_chain:
  assumes c: "reaches (parsePostfixExpr (parsers_at n)) (postfix_step (parsers_at n)) 10 ps e"
    and ps: "ps \<noteq> []" "lead_type ps \<in> set starters"
  shows "reads_well n ps 10 e"
proof -
  have "parses (parsePostfixExpr (parsers_at n)) 10 ps e" by (rule reaches_parses [OF c stops_postfix])
  then have "reads_well n ps 9 e"
    using ps unfolding lead_type_def by (intro reads_well_unary parses_plain_unary)
  then show ?thesis using c unfolding reads_well_def by auto
qed

lemma reads_well_primary:
  assumes "parses (parsePrimaryExpr (parsers_at n)) 11 ps e" "ps \<noteq> []" "lead_type ps \<in> set starters"
  shows "reads_well n ps 10 e"
  using assms parses_reaches [of "parsePrimaryExpr (parsers_at n)" 10 ps e "postfix_step (parsers_at n)"]
  by (intro reads_well_chain) (simp_all add: parsePostfixExpr_def)

lemma knot: "rExpr (parsers_at (Suc n)) = parseExpression (parsers_at n)"
  "rUnary (parsers_at (Suc n)) = parseUnaryExpr (parsers_at n)"
  by (simp_all add: Let_def)

lemma reads_well_expression:
  assumes "reads_well n ps j e" "1 \<le> j"
  shows "parses (rExpr (parsers_at (Suc n))) 1 ps e"
  unfolding knot
proof (rule parses_expression)
  show "parses (parseOrExpr (parsers_at n)) 1 ps e"
    using assms unfolding reads_well_def by (auto simp: level_parser_def dest!: spec [of _ 1])
qed

lemma reads_well_wrap:
  assumes "reads_well n ps j e" "1 \<le> j" "passed ps"
  shows "reads_well (Suc n) (wrap ps) 10 e"
proof (rule reads_well_primary)
  show "parses (parsePrimaryExpr (parsers_at (Suc n))) 11 (wrap ps) e"
    unfolding wrap_def using reads_well_expression [OF assms(1,2)] assms(3) by (rule parses_grouped)
qed (simp_all add: wrap_def lead_type_def starters_def)

lemma op_level_bounds: "0 < op_level op \<Longrightarrow> op_level op \<in> levels"
  using op_level_table op_table_levels by blast

lemma expr_level_bounds: "plain e \<Longrightarrow> 1 \<le> expr_level e \<and> expr_level e \<le> 10"
proof (cases e)
  case (BinaryExpr t l op r)
  then show "plain e \<Longrightarrow> ?thesis" using op_level_bounds [of op] by (auto simp: expr_level_def)
qed (simp_all add: expr_level_def)

lemma reads_well_binary:
  assumes op: "0 < op_level op"
    and l: "reads_well n ps jl l" "op_level op \<le> jl" "jl \<le> 10" and r: "reads_well n qs jr r" "op_level op < jr"
  shows "reads_well n (ps @ op_tokens op @ qs) (op_level op) (BinaryExpr t l op r)"
proof -
  let ?k = "op_level op" and ?R = "parsers_at n" and ?e = "BinaryExpr t l op r"
  have k: "?k \<in> levels" by (rule op_level_bounds [OF op])
  have x: "reaches (level_parser ?R ?k) (level_body ?R ?k) ?k ps l" using l k unfolding reads_well_def by blast
  have "1 \<le> Suc ?k" "Suc ?k \<le> jr" "Suc ?k \<le> 9" using r(2) k by auto
  then have "parses (level_parser ?R (Suc ?k)) (Suc ?k) qs r" using r(1) unfolding reads_well_def by blast
  then have s: "steps (level_body ?R ?k) ?k (op_tokens op @ qs) l ?e" by (rule level_steps [OF HOL.refl op])
  have "fst (hd (op_tokens op @ qs)) \<noteq> TOKEN_LPAREN"
  proof
    assume "fst (hd (op_tokens op @ qs)) = TOKEN_LPAREN"
    then have "rank TOKEN_LPAREN = ?k" using op_tokens_first [OF op] by simp
    then show False using k by (auto simp: rank_def)
  qed
  then have c: "reaches (level_parser ?R ?k) (level_body ?R ?k) ?k (ps @ op_tokens op @ qs) ?e"
    using op_tokens_first [OF op] by (intro reaches_step [OF x s]) simp_all
  then have "parses (level_parser ?R ?k) ?k (ps @ op_tokens op @ qs) ?e" by (rule reaches_parses [OF _ level_stops [OF k]])
  note levels = reads_well_levels [OF this]
  have "?k \<le> 9" using k by auto
  note levels = levels(1) [OF this] levels(2) [OF this]
  show ?thesis
    unfolding reads_well_def
  proof (intro conjI allI ballI impI)
    fix j assume "j \<in> levels" "j \<le> ?k"
    then show "reaches (level_parser ?R j) (level_body ?R j) j (ps @ op_tokens op @ qs) ?e"
      using levels(2) c by (cases "j = ?k") auto
  qed (use levels(1) \<open>?k \<le> 9\<close> in auto)
qed

text \<open>The arguments of a call.\<close>

lemma length_comma_member: "ps \<in> set pss \<Longrightarrow> length ps \<le> length (comma_tokens pss)"
  by (induction pss rule: comma_tokens.induct) auto

lemma reads_arguments:
  assumes "\<And>a. a \<in> set xs \<Longrightarrow> plain a \<and> reads_well n (toks a) (expr_level a) a"
  shows "read_arguments (parsers_at (Suc n)) (map toks xs) xs"
  unfolding read_arguments_def list_all2_map1 list_all2_same
proof
  fix a assume "a \<in> set xs"
  then show "parses (rExpr (parsers_at (Suc n))) 1 (toks a) a \<and> argument (toks a)"
    using assms reads_well_expression expr_level_bounds argument_toks by blast
qed

lemma reads_well_step:
  assumes x: "reads_well n ps 10 x" and s: "steps (postfix_step (parsers_at n)) 10 qs x e"
    and ps: "ps \<noteq> []" "lead_type ps \<in> set starters"
    and qs: "qs \<noteq> []" "lead_type qs \<in> {TOKEN_LPAREN, TOKEN_DOT, TOKEN_LBRACKET}" "is_field x \<Longrightarrow> lead_type qs \<noteq> TOKEN_LPAREN"
  shows "reads_well n (ps @ qs) 10 e"
proof (rule reads_well_chain)
  have "rank (lead_type qs) \<le> 10" using qs(2) by (auto simp: rank_def)
  then show "reaches (parsePostfixExpr (parsers_at n)) (postfix_step (parsers_at n)) 10 (ps @ qs) e"
    using x qs(1,3) unfolding reads_well_def lead_type_def by (intro reaches_step [OF _ s]) auto
qed (use ps in \<open>simp_all add: lead_type_def\<close>)

lemma chain_level: "chain e \<Longrightarrow> expr_level e = 10"
  by (auto simp: chain_def expr_level_def split: Expression.splits)

lemma chain_first: "plain e \<Longrightarrow> chain e \<Longrightarrow> toks e \<noteq> [] \<and> lead_type (toks e) \<in> set starters"
  using toks_first [of e] chain_level [of e] by auto

text \<open>The depth of the recursion is less than the number of tokens.\<close>

lemma toks_read_well: "plain e \<Longrightarrow> length (toks e) \<le> n \<Longrightarrow> reads_well n (toks e) (expr_level e) e"
proof (induction e arbitrary: n rule: plain.induct)
  case (1 i)
  have "parses (parsePrimaryExpr (parsers_at n)) 11 (toks (Ident i)) (Ident i)"
    using parses_name [of _ "identValue i" "identToken i"] 1(1) by (cases i) (simp add: toks_simps plain_name_def)
  then have "reads_well n (toks (Ident i)) 10 (Ident i)"
    by (rule reads_well_primary) (use 1(1) in \<open>simp_all add: toks_simps lead_type_def starters_def plain_name_def\<close>)
  then show ?case by (simp add: expr_level_def)
next
  case (2 t v)
  have "parses (parsePrimaryExpr (parsers_at n)) 11 (toks (IntegerLiteral t v)) (IntegerLiteral t v)"
    unfolding toks_simps by (rule parses_number) (use 2(1) in auto)
  then have "reads_well n (toks (IntegerLiteral t v)) 10 (IntegerLiteral t v)"
    by (rule reads_well_primary) (simp_all add: toks_simps lead_type_def starters_def)
  then show ?case by (simp add: expr_level_def)
next
  case (3 t v)
  have "parses (parsePrimaryExpr (parsers_at n)) 11 (toks (BooleanLiteral t v)) (BooleanLiteral t v)"
    unfolding toks_simps by (rule parses_boolean)
  then have "reads_well n (toks (BooleanLiteral t v)) 10 (BooleanLiteral t v)"
    by (rule reads_well_primary) (simp_all add: toks_simps lead_type_def starters_def)
  then show ?case by (simp add: expr_level_def)
next
  case (4 t l op r)
  let ?p = "operatorPrecedence op"
  have pl: "plain l" "plain r" "0 < op_level op" using 4(3) by simp_all
  have wrapped: "reads_well n (wrap (toks x)) 10 x"
    if x: "plain x" "\<And>i. length (toks x) \<le> i \<Longrightarrow> reads_well i (toks x) (expr_level x) x" "length (wrap (toks x)) \<le> n"
    for x
  proof -
    obtain i where "n = Suc i" "length (toks x) \<le> i" using x(3) by (cases n) (auto simp: wrap_def)
    then show ?thesis
      using reads_well_wrap [OF x(2) _ passed_toks [OF x(1)]] expr_level_bounds [OF x(1)] by simp
  qed
  have k: "op_level op \<in> levels" by (rule op_level_bounds [OF pl(3)])
  obtain jl where l: "reads_well n (if operand_parens ?p False l then wrap (toks l) else toks l) jl l"
      "op_level op \<le> jl" "jl \<le> 10"
  proof (cases "operand_parens ?p False l")
    case True
    then have "reads_well n (wrap (toks l)) 10 l" using wrapped [OF pl(1) 4(1)] pl 4(4) by (simp add: toks_simps)
    then show ?thesis using that [of 10] True k by auto
  next
    case False
    then have "reads_well n (toks l) (expr_level l) l" "op_level op \<le> expr_level l" using 4 by (auto simp: toks_simps)
    then show ?thesis using that False expr_level_bounds [OF pl(1)] by simp
  qed
  obtain jr where r: "reads_well n (if operand_parens ?p True r then wrap (toks r) else toks r) jr r" "op_level op < jr"
  proof (cases "operand_parens ?p True r")
    case True
    then have "reads_well n (wrap (toks r)) 10 r" using wrapped [OF pl(2) 4(2)] pl 4(4) by (simp add: toks_simps)
    then show ?thesis using that [of 10] True k by auto
  next
    case False
    then have "reads_well n (toks r) (expr_level r) r" "op_level op < expr_level r" using 4 by (auto simp: toks_simps)
    then show ?thesis using that False by simp
  qed
  show ?case using reads_well_binary [OF pl(3) l r, of t] by (simp add: toks_simps expr_level_def)
next
  case (5 t op r)
  have op: "op = ''not'' \<or> op = ''!'' \<or> op = ''-''" and r: "plain r" using 5(2) by auto
  obtain m where n: "n = Suc m" using 5(3) unfolding toks_simps(5) [OF op] by (cases n) auto
  let ?ps = "if op \<noteq> ''-'' \<and> needsParensAfterNot r then wrap (toks r) else toks r"
  have len: "length ?ps \<le> m" using 5(3) unfolding toks_simps(5) [OF op] n by simp
  obtain j where j: "reads_well m ?ps j r" "9 \<le> j"
  proof (cases "op \<noteq> ''-'' \<and> needsParensAfterNot r")
    case True
    then obtain i where m: "m = Suc i" "length (toks r) \<le> i" using len by (cases m) (auto simp: wrap_def)
    have "reads_well m (wrap (toks r)) 10 r"
      using reads_well_wrap [OF 5(1) [OF r m(2)] _ passed_toks [OF r]] expr_level_bounds [OF r] m(1) by simp
    then show ?thesis using that [of 10] True by simp
  next
    case False
    then have "9 \<le> expr_level r" using 5(2) r by (cases r) (auto simp: needsParensAfterNot_def expr_level_def)
    moreover have "reads_well m (toks r) (expr_level r) r" using 5(1) r len False by auto
    ultimately show ?thesis using that False by auto
  qed
  have "parses (level_parser (parsers_at m) 9) 9 ?ps r" using j unfolding reads_well_def by simp
  then have "parses (rUnary (parsers_at n)) 9 ?ps r" unfolding n knot by (simp add: level_parser_def)
  then have "parses (parseUnaryExpr (parsers_at n)) 9 ((unary_token op, op) # ?ps) (UnaryExpr t op r)"
    by (rule parses_unary) (simp add: unary_token_def)
  then have "reads_well n (toks (UnaryExpr t op r)) 9 (UnaryExpr t op r)"
    unfolding toks_simps(5) [OF op] by (rule reads_well_unary)
  then show ?case by (simp add: expr_level_def)
next
  case (6 t f as ns v)
  obtain m where n: "n = Suc m" using 6(4) by (cases n) (auto simp: toks_simps wrap_def)
  have p: "plain f" "chain f" "\<not> is_field f" "ns = []" "\<not> v" using 6(3) by auto
  have "reads_well n (toks f) 10 f" using 6(1,4) p chain_level [OF p(2)] by (auto simp: toks_simps)
  moreover have "read_arguments (parsers_at n) (map toks as) as"
    unfolding n
  proof (rule reads_arguments)
    fix a assume a: "a \<in> set as"
    then have "length (toks a) \<le> m"
      using 6(4) length_comma_member [of "toks a" "map toks as"] n by (auto simp: toks_simps wrap_def)
    then show "plain a \<and> reads_well m (toks a) (expr_level a) a" using 6(2) [OF a] 6(3) a by auto
  qed
  then have "steps (postfix_step (parsers_at n)) 10 (wrap (comma_tokens (map toks as))) f (CallExpr t f as ns v)"
    using p(4,5) unfolding wrap_def by (auto intro: steps_call)
  ultimately have "reads_well n (toks (CallExpr t f as ns v)) 10 (CallExpr t f as ns v)"
    unfolding toks_simps using chain_first [OF p(1,2)] p(3)
    by (intro reads_well_step) (auto simp: wrap_def lead_type_def)
  then show ?case by (simp add: expr_level_def)
next
  case (7 t x k as ns v)
  obtain m where n: "n = Suc m" using 7(4) by (cases n) (auto simp: toks_simps wrap_def)
  have p: "plain x" "chain x" "plain_name (identValue k)" "ns = []" "\<not> v" using 7(3) by auto
  have "reads_well n (toks x) 10 x" using 7(1,4) p chain_level [OF p(2)] by (auto simp: toks_simps)
  moreover have "read_arguments (parsers_at n) (map toks as) as"
    unfolding n
  proof (rule reads_arguments)
    fix a assume a: "a \<in> set as"
    then have "length (toks a) \<le> m"
      using 7(4) length_comma_member [of "toks a" "map toks as"] n by (auto simp: toks_simps wrap_def)
    then show "plain a \<and> reads_well m (toks a) (expr_level a) a" using 7(2) [OF a] 7(3) a by auto
  qed
  then have "steps (postfix_step (parsers_at n)) 10
      ([(TOKEN_DOT, ''.''), (LookupKeyword (identValue k), identValue k)] @ wrap (comma_tokens (map toks as))) x
      (MethodCallExpr t x k as ns v)"
    using p(3-5) steps_method [of "parsers_at n" "map toks as" as "''.''" "identValue k" "''(''" "'')''" x t "identToken k"]
    unfolding wrap_def plain_name_def by simp
  ultimately have "reads_well n (toks (MethodCallExpr t x k as ns v)) 10 (MethodCallExpr t x k as ns v)"
    unfolding toks_simps using chain_first [OF p(1,2)]
    by (intro reads_well_step) (auto simp: lead_type_def)
  then show ?case by (simp add: expr_level_def)
next
  case (8 t x k)
  have p: "plain x" "chain x" "plain_name (identValue k)" using 8(2) by auto
  have "reads_well n (toks x) 10 x" using 8(1,3) p chain_level [OF p(2)] by (auto simp: toks_simps)
  moreover have "steps (postfix_step (parsers_at n)) 10
      [(TOKEN_DOT, ''.''), (LookupKeyword (identValue k), identValue k)] x (FieldAccessExpr t x k)"
    using p(3) steps_field [of "parsers_at n" "''.''" "identValue k" x t "identToken k"] unfolding plain_name_def by simp
  ultimately have "reads_well n (toks (FieldAccessExpr t x k)) 10 (FieldAccessExpr t x k)"
    unfolding toks_simps using chain_first [OF p(1,2)] by (intro reads_well_step) (auto simp: lead_type_def)
  then show ?case by (simp add: expr_level_def)
next
  case (9 t x y)
  obtain m where n: "n = Suc m" using 9(4) by (cases n) (auto simp: toks_simps)
  have p: "plain x" "chain x" "plain y" using 9(3) by auto
  have "reads_well n (toks x) 10 x" using 9(1,4) p chain_level [OF p(2)] by (auto simp: toks_simps)
  moreover have "parses (rExpr (parsers_at n)) 1 (toks y) y"
    unfolding n
  proof (rule reads_well_expression)
    show "reads_well m (toks y) (expr_level y) y" using 9(4) n by (intro 9(2) p(3)) (simp add: toks_simps)
  qed (use expr_level_bounds [OF p(3)] in simp)
  then have "steps (postfix_step (parsers_at n)) 10 ((TOKEN_LBRACKET, ''['') # toks y @ [(TOKEN_RBRACKET, '']'')]) x
      (IndexExpr t x y)"
    using argument_toks [OF p(3)] by (rule steps_index)
  ultimately have "reads_well n (toks (IndexExpr t x y)) 10 (IndexExpr t x y)"
    unfolding toks_simps using chain_first [OF p(1,2)] by (intro reads_well_step) (auto simp: lead_type_def)
  then show ?case by (simp add: expr_level_def)
qed simp_all

section \<open>Printing what was read\<close>

text \<open>The text of an expression does not depend on the positions of its tokens.\<close>

lemma unplaced_kinds:
  "operand_parens k b (unplaced e) = operand_parens k b e" "needsParensAfterNot (unplaced e) = needsParensAfterNot e"
  by (cases e; simp add: operand_parens_def needsParensAfterNot_def)+

lemma unplaced_cast: "unplaced e' = unplaced e \<Longrightarrow> chain e \<Longrightarrow> \<nexists>t x ty. e' = TypeCastExpr t x ty"
  by (cases e) (auto simp: chain_def)

lemma map_unplaced:
  assumes "map unplaced as' = map unplaced as" "\<And>a b. a \<in> set as \<Longrightarrow> unplaced b = unplaced a \<Longrightarrow> P b = P a"
  shows "map P as' = map P as"
  using assms
proof (induction as arbitrary: as')
  case (Cons a as)
  obtain b bs where b: "as' = b # bs" "unplaced b = unplaced a" "map unplaced bs = map unplaced as"
    using Cons.prems(1) by (cases as') auto
  have "map P bs = map P as" by (rule Cons.IH [OF b(3)]) (simp add: Cons.prems(2))
  then show ?case using b(1) Cons.prems(2) [OF _ b(2)] by simp
qed simp

lemma print_unplaced:
  "plain e \<Longrightarrow> unplaced e' = unplaced e \<Longrightarrow>
     pExpr (printers_at isprint n) level e' = pExpr (printers_at isprint n) level e"
proof (induction e arbitrary: e' n rule: plain.induct)
  case (1 i)
  then show ?case by (cases e'; cases n) (auto simp: pExpr_Suc exprToString_def simp del: printers_at.simps(2))
next
  case (2 t v)
  then obtain t' where e': "e' = IntegerLiteral t' v"
      and t': "eof_token\<lparr>Lexeme := Lexeme t'\<rparr> = eof_token\<lparr>Lexeme := Lexeme t\<rparr>"
    by (cases e') auto
  moreover have "Lexeme t' = Lexeme t" using arg_cong [OF t', of Lexeme] by simp
  ultimately show ?case by (cases n) (auto simp: pExpr_Suc exprToString_def integer_string_def simp del: printers_at.simps(2))
next
  case (3 t v)
  then show ?case by (cases e'; cases n) (auto simp: pExpr_Suc exprToString_def simp del: printers_at.simps(2))
next
  case (4 t l op r)
  then obtain t' l' r' where e': "e' = BinaryExpr t' l' op r'" "unplaced l' = unplaced l" "unplaced r' = unplaced r"
    by (cases e') auto
  have "operand_parens k b l' = operand_parens k b l" "operand_parens k b r' = operand_parens k b r" for k b
    using unplaced_kinds(1) e'(2,3) by metis+
  moreover have "pExpr (printers_at isprint m) level l' = pExpr (printers_at isprint m) level l"
      "pExpr (printers_at isprint m) level r' = pExpr (printers_at isprint m) level r" for m
    by (rule 4(1) 4(2); use 4(3) e' in simp)+
  ultimately show ?case
    using e'(1) by (cases n) (simp_all add: pExpr_Suc exprToString_def binaryExprToString_def binaryOperand_parens Let_def
        Let_def del: printers_at.simps(2))
next
  case (5 t op r)
  then obtain t' r' where e': "e' = UnaryExpr t' op r'" "unplaced r' = unplaced r" by (cases e') auto
  have "needsParensAfterNot r' = needsParensAfterNot r" using unplaced_kinds(2) e'(2) by metis
  moreover have "pExpr (printers_at isprint m) level r' = pExpr (printers_at isprint m) level r" for m
    by (rule 5(1); use 5(2) e' in simp)+
  ultimately show ?case
    using e'(1) by (cases n) (simp_all add: pExpr_Suc exprToString_def unaryExprToString_def Let_def del: printers_at.simps(2))
next
  case (6 t f as ns v)
  then obtain t' f' as' where e': "e' = CallExpr t' f' as' ns v" "unplaced f' = unplaced f" "map unplaced as' = map unplaced as"
    by (cases e') auto
  have "map (pExpr (printers_at isprint m) level) as' = map (pExpr (printers_at isprint m) level) as" for m
    by (rule map_unplaced [OF e'(3)], rule 6(2)) (use 6(3) in auto)
  moreover have "pExpr (printers_at isprint m) level f' = pExpr (printers_at isprint m) level f" for m
    by (rule 6(1); use 6(3) e' in simp)+
  ultimately show ?case
    using 6(3) e'(1) by (cases n) (simp_all add: pExpr_Suc exprToString_def callExprToString_def argumentStrings_def
        Let_def del: printers_at.simps(2))
next
  case (7 t x k as ns v)
  then obtain t' x' k' as' where e': "e' = MethodCallExpr t' x' k' as' ns v" "unplaced x' = unplaced x"
      "identValue k' = identValue k" "map unplaced as' = map unplaced as"
    by (cases e') auto
  have "map (pExpr (printers_at isprint m) level) as' = map (pExpr (printers_at isprint m) level) as" for m
    by (rule map_unplaced [OF e'(4)], rule 7(2)) (use 7(3) in auto)
  moreover have "as' = [] \<longleftrightarrow> as = []" using e'(4) by auto
  moreover have "pExpr (printers_at isprint m) level x' = pExpr (printers_at isprint m) level x" for m
    by (rule 7(1); use 7(3) e' in simp)+
  ultimately show ?case
    using 7(3) e'(1,3) by (cases n) (simp_all add: pExpr_Suc exprToString_def methodCallExprToString_def argumentStrings_def
        Let_def del: printers_at.simps(2))
next
  case (8 t x k)
  then obtain t' x' k' where e': "e' = FieldAccessExpr t' x' k'" "unplaced x' = unplaced x" "identValue k' = identValue k"
    by (cases e') auto
  have "\<nexists>t x0 ty. x = TypeCastExpr t x0 ty" "\<nexists>t x0 ty. x' = TypeCastExpr t x0 ty"
    using unplaced_cast [of x x] unplaced_cast [OF e'(2)] 8(2) by auto
  then have "fieldAccessExprToString R level y k = pExpr R level y @ ''.'' @ identValue k" if "y = x \<or> y = x'" for R y k
    using that by (auto simp: fieldAccessExprToString_def split: Expression.split)
  moreover have "pExpr (printers_at isprint m) level x' = pExpr (printers_at isprint m) level x" for m
    by (rule 8(1); use 8(2) e' in simp)+
  ultimately show ?case
    using e'(1,3) by (cases n) (simp_all add: pExpr_Suc exprToString_def Let_def del: printers_at.simps(2))
next
  case (9 t x y)
  then obtain t' x' y' where e': "e' = IndexExpr t' x' y'" "unplaced x' = unplaced x" "unplaced y' = unplaced y"
    by (cases e') auto
  moreover have "pExpr (printers_at isprint m) level x' = pExpr (printers_at isprint m) level x"
      "pExpr (printers_at isprint m) level y' = pExpr (printers_at isprint m) level y" for m
    by (rule 9(1) 9(2); use 9(3) e' in simp)+
  ultimately show ?case
    using e'(1) by (cases n) (simp_all add: pExpr_Suc exprToString_def Let_def del: printers_at.simps(2))
qed simp_all


section \<open>The round trip\<close>

text \<open>Reading a text that is one expression, with the parser's own bound on the depth of its calls.\<close>

definition readExpression :: "string \<Rightarrow> string \<Rightarrow> Expression \<times> parser \<times> bool" where
  "readExpression src fname =
     (let p = New src fname in run_state (parseExpression (parsers_at (length (ahead p) + 1))) (p, False))"

lemma New_lexemes:
  assumes "plain e"
  shows "\<exists>ts u. ahead (New (text_of (lexemes e)) fname) = ts @ [u] \<and> map tok_pair ts = toks e \<and> Type u = TOKEN_EOF \<and>
    perrors (New (text_of (lexemes e)) fname) = []"
proof -
  obtain p ps where ps: "lexemes e = p # ps" "well_joined (p # ps)" "p \<noteq> Gap" "ender (last (p # ps))"
    using good_lexemes [OF assms] by (cases "lexemes e") (auto simp: good_def)
  have "last (p # ps) \<noteq> Gap" using ps(4) by (auto simp: ender_def)
  moreover have et: "expr_type tt" if "tt \<in> fst ` set (toks e)" for tt
    using toks_types [OF assms] that by (auto simp: expr_types_def)
  then have "TOKEN_PIPE \<notin> fst ` set (tokens_of (p # ps))"
    unfolding toks_def [symmetric] ps(1) [symmetric] using et [of TOKEN_PIPE] by (auto simp: expr_type_def rank_def)
  ultimately obtain ts u where sc: "ScanTokens (NewLexer (text_of (lexemes e)) fname) = Inr (ts @ [u])"
      "map tok_pair ts = toks e" "Type u = TOKEN_EOF"
    using ScanTokens_lexemes [OF ps(2,3), of fname] ps(1) unfolding toks_def by auto
  then show ?thesis by (auto simp: New_def NewFromTokens_def ahead_def)
qed


text \<open>The expression \<^verbatim>\<open>not (a or f(x.y - (2 - b[0])))\<close>.\<close>

lemma pExpr_numeral: "pExpr (printers_at isprint (numeral k)) = exprToString (printers_at isprint (pred_numeral k))"
  by (simp add: numeral_eq_Suc pExpr_Suc del: printers_at.simps)

definition sample_name :: "string \<Rightarrow> Expression" where
  "sample_name s = Ident (Identifier eof_token s)"

definition sample_expr :: Expression where
  "sample_expr = UnaryExpr eof_token ''not'' (BinaryExpr eof_token (sample_name ''a'') ''or''
     (CallExpr eof_token (sample_name ''f'')
        [BinaryExpr eof_token (FieldAccessExpr eof_token (sample_name ''x'') (Identifier eof_token ''y'')) ''-''
           (BinaryExpr eof_token (IntegerLiteral (eof_token\<lparr>Lexeme := ''2''\<rparr>) 2) ''-''
              (IndexExpr eof_token (sample_name ''b'') (IntegerLiteral (eof_token\<lparr>Lexeme := ''0''\<rparr>) 0)))] [] False))"


end
