(* ===== verification/Scopes.thy ===== *)
theory Scopes
  imports Symbols
begin

text \<open>
  The symbol table of \<^verbatim>\<open>internal/semantic/symbols.go\<close>. The contract of nested scopes is the
  locale \<open>block_scopes\<close>: it says what each operation does to a stack of maps, and what a client
  may conclude is proved once from it. The code's table, whose scopes are linked by parent
  pointers, is interpreted in it.
\<close>

section \<open>The code\<close>

text \<open>\<^verbatim>\<open>type Scope struct\<close> at an address of the store, and \<^verbatim>\<open>type SymbolTable struct\<close>.\<close>

record Scope =
  parent :: "nat option"
  symbols :: "(string \<times> Symbol) list"

record SymbolTable =
  scopes :: "nat list"
  store :: "Scope list"

definition NewScope :: "nat option \<Rightarrow> Scope list \<Rightarrow> nat \<times> Scope list" where
  "NewScope p h = (length h, h @ [\<lparr>parent = p, symbols = []\<rparr>])"

definition redeclared :: "string \<Rightarrow> string" where
  "redeclared name =
     ''identifier '' @ [CHR 0x27] @ name @ [CHR 0x27] @ '' already declared in this scope''"

text \<open>\<^verbatim>\<open>func (s *Scope) Define\<close>: the error, if any, and the store.\<close>

definition ScopeDefine :: "nat \<Rightarrow> Symbol \<Rightarrow> Scope list \<Rightarrow> string option \<times> Scope list" where
  "ScopeDefine s sy h =
     (if symName sy = ''_'' then (None, h)
      else if map_of (symbols (h ! s)) (symName sy) \<noteq> None
        then (Some (redeclared (symName sy)), h)
      else (None, h[s := (h ! s)\<lparr>symbols := (symName sy, sy) # symbols (h ! s)\<rparr>]))"

text \<open>\<^verbatim>\<open>func (s *Scope) Resolve\<close>: the outer option is \<^term>\<open>None\<close> where following the parent
  pointers never ends, and at an address outside the store, which no pointer of the code has.\<close>

partial_function (option) ScopeResolve :: "Scope list \<Rightarrow> nat \<Rightarrow> string \<Rightarrow> Symbol option option" where
  [code]: "ScopeResolve h s name =
     (if s < length h then
        (case map_of (symbols (h ! s)) name of
           Some sy \<Rightarrow> Some (Some sy)
         | None \<Rightarrow>
             (case parent (h ! s) of
                Some p \<Rightarrow> ScopeResolve h p name
              | None \<Rightarrow> Some None))
      else None)"

definition NewSymbolTable :: SymbolTable where
  "NewSymbolTable = (let (g, h) = NewScope None [] in \<lparr>scopes = [g], store = h\<rparr>)"

definition CurrentScope :: "SymbolTable \<Rightarrow> nat option" where
  "CurrentScope st = (if length (scopes st) = 0 then None else Some (last (scopes st)))"

definition EnterScope :: "SymbolTable \<Rightarrow> SymbolTable" where
  "EnterScope st =
     (let (s, h) = NewScope (CurrentScope st) (store st)
      in st\<lparr>scopes := scopes st @ [s], store := h\<rparr>)"

definition ExitScope :: "SymbolTable \<Rightarrow> SymbolTable" where
  "ExitScope st = (if length (scopes st) > 1 then st\<lparr>scopes := butlast (scopes st)\<rparr> else st)"

text \<open>The methods of the table call those of the current scope. \<^term>\<open>None\<close> is the run-time panic
  of a method that reads the map of a nil scope.\<close>

definition Define :: "Symbol \<Rightarrow> SymbolTable \<Rightarrow> (string option \<times> SymbolTable) option" where
  "Define sy st =
     (case CurrentScope st of
        None \<Rightarrow> if symName sy = ''_'' then Some (None, st) else None
      | Some s \<Rightarrow> (let (e, h) = ScopeDefine s sy (store st) in Some (e, st\<lparr>store := h\<rparr>)))"

definition ResolveResult :: "string \<Rightarrow> SymbolTable \<Rightarrow> Symbol option option" where
  "ResolveResult name st =
     (case CurrentScope st of None \<Rightarrow> None | Some s \<Rightarrow> ScopeResolve (store st) s name)"

text \<open>\<^verbatim>\<open>Resolve\<close> as a function: in every table the code can build it returns and does not panic
  (\<open>resolve_returns\<close> below).\<close>

definition Resolve :: "string \<Rightarrow> SymbolTable \<Rightarrow> Symbol option" where
  "Resolve name st = (case ResolveResult name st of Some r \<Rightarrow> r | None \<Rightarrow> None)"

text \<open>The names bound anywhere in the table.\<close>

definition table_names :: "SymbolTable \<Rightarrow> string set" where
  "table_names st = (\<Union>s\<in>set (store st). fst ` set (symbols s))"

lemma finite_table_names [simp]: "finite (table_names st)"
  by (simp add: table_names_def)

lemma ScopeResolve_name:
  "ScopeResolve h s n = Some r \<Longrightarrow> r \<noteq> None \<longrightarrow> (\<exists>q\<in>set h. n \<in> fst ` set (symbols q))"
proof (induction rule: ScopeResolve.raw_induct [rotated 1, consumes 1, case_names step])
  case (step resolve h s n r)
  show ?case
  proof (cases "s < length h \<and> map_of (symbols (h ! s)) n \<noteq> None")
    case True
    then show ?thesis by (auto simp: map_of_eq_None_iff intro: bexI [of _ "h ! s"])
  next
    case False
    then show ?thesis using step by (auto split: if_splits option.splits)
  qed
qed

lemma Resolve_name: "Resolve n st = Some sy \<Longrightarrow> n \<in> table_names st"
  using ScopeResolve_name [of "store st" "last (scopes st)" n "Some sy"]
  by (auto simp: Resolve_def ResolveResult_def CurrentScope_def table_names_def split: option.splits if_splits)

section \<open>The contract of nested scopes\<close>

text \<open>The stack of maps that a table stands for, innermost first.\<close>

type_synonym 's frames = "(string \<rightharpoonup> 's) list"

fun frames_resolve :: "string \<Rightarrow> 's frames \<Rightarrow> 's option" where
  "frames_resolve n [] = None"
| "frames_resolve n (m # ms) = (case m n of Some s \<Rightarrow> Some s | None \<Rightarrow> frames_resolve n ms)"

definition frame_define :: "string \<Rightarrow> 's \<Rightarrow> (string \<rightharpoonup> 's) \<Rightarrow> string \<rightharpoonup> 's" where
  "frame_define n s m = (if n = ''_'' \<or> n \<in> dom m then m else m(n \<mapsto> s))"

datatype 's scope_op = Open | Close | Declare 's

text \<open>The depth of a sequence of operations relative to its start, if no \<open>Close\<close> closes a scope
  that was open before.\<close>

fun nesting :: "nat \<Rightarrow> 's scope_op list \<Rightarrow> nat option" where
  "nesting d [] = Some d"
| "nesting d (Open # xs) = nesting (Suc d) xs"
| "nesting d (Close # xs) = (case d of 0 \<Rightarrow> None | Suc e \<Rightarrow> nesting e xs)"
| "nesting d (Declare s # xs) = nesting d xs"

fun perform :: "('t \<Rightarrow> 't) \<Rightarrow> ('t \<Rightarrow> 't) \<Rightarrow> ('s \<Rightarrow> 't \<Rightarrow> bool \<times> 't) \<Rightarrow> 's scope_op list \<Rightarrow> 't \<Rightarrow> 't"
where
  "perform enter leave bind [] t = t"
| "perform enter leave bind (Open # xs) t = perform enter leave bind xs (enter t)"
| "perform enter leave bind (Close # xs) t = perform enter leave bind xs (leave t)"
| "perform enter leave bind (Declare s # xs) t = perform enter leave bind xs (snd (bind s t))"

lemma scope_op_induct [case_names Nil Open Close Declare]:
  assumes "P []" "\<And>xs. P xs \<Longrightarrow> P (Open # xs)" "\<And>xs. P xs \<Longrightarrow> P (Close # xs)"
    "\<And>s xs. P xs \<Longrightarrow> P (Declare s # xs)"
  shows "P xs"
proof (induction xs)
  case (Cons x xs)
  then show ?case using assms by (cases x) auto
qed (rule assms(1))

lemma perform_append: "perform e l b (xs @ ys) t = perform e l b ys (perform e l b xs t)"
  by (induction e l b xs t rule: perform.induct) auto

lemma frame_define_blank [simp]: "''_'' \<in> dom (frame_define n s m) \<longleftrightarrow> ''_'' \<in> dom m"
  by (auto simp: frame_define_def)

locale block_scopes =
  fixes ok :: "'t \<Rightarrow> bool"
    and frames :: "'t \<Rightarrow> 's frames"
    and enter :: "'t \<Rightarrow> 't"
    and leave :: "'t \<Rightarrow> 't"
    and name :: "'s \<Rightarrow> string"
    and bind :: "'s \<Rightarrow> 't \<Rightarrow> bool \<times> 't"
    and resolve :: "string \<Rightarrow> 't \<Rightarrow> 's option"
  assumes ok_enter: "ok t \<Longrightarrow> ok (enter t)"
    and ok_leave: "ok t \<Longrightarrow> ok (leave t)"
    and ok_declare: "ok t \<Longrightarrow> ok (snd (bind s t))"
    and frames_nonempty: "ok t \<Longrightarrow> frames t \<noteq> []"
    and frames_enter: "ok t \<Longrightarrow> frames (enter t) = Map.empty # frames t"
    and frames_leave: "ok t \<Longrightarrow> frames (leave t) = (if length (frames t) > 1 then tl (frames t) else frames t)"
    and frames_declare: "ok t \<Longrightarrow>
      frames (snd (bind s t)) = frame_define (name s) s (hd (frames t)) # tl (frames t)"
    and declare_accepts: "ok t \<Longrightarrow>
      fst (bind s t) \<longleftrightarrow> name s = ''_'' \<or> name s \<notin> dom (hd (frames t))"
    and resolve_frames: "ok t \<Longrightarrow> resolve n t = frames_resolve n (frames t)"
begin

abbreviation run :: "'s scope_op list \<Rightarrow> 't \<Rightarrow> 't" where
  "run \<equiv> perform enter leave bind"

lemma ok_run: "ok t \<Longrightarrow> ok (run xs t)"
  by (induction xs arbitrary: t rule: scope_op_induct) (auto intro: ok_enter ok_leave ok_declare)

lemma resolve_enter: "ok t \<Longrightarrow> resolve n (enter t) = resolve n t"
  by (simp add: resolve_frames ok_enter frames_enter)

text \<open>What is below the frames that the operations open is not touched.\<close>

lemma run_below:
  assumes "ok t" "frames t = fs @ gs" "nesting (length fs - 1) xs = Some e" "fs \<noteq> []"
  shows "\<exists>fs'. frames (run xs t) = fs' @ gs \<and> length fs' = Suc e"
  using assms
proof (induction xs arbitrary: t fs rule: scope_op_induct)
  case Nil
  then show ?case by (cases fs) auto
next
  case (Open xs)
  then show ?case using Open.prems Open.IH [of "enter t" "Map.empty # fs"]
    by (cases fs) (auto simp: frames_enter ok_enter)
next
  case (Close xs)
  then obtain m n fs' where "fs = m # n # fs'" by (cases fs; cases "tl fs") auto
  then show ?case using Close.prems Close.IH [of "leave t" "n # fs'"] by (auto simp: frames_leave ok_leave)
next
  case (Declare s xs)
  then obtain m fs' where "fs = m # fs'" by (cases fs) auto
  then show ?case using Declare.prems Declare.IH [of "snd (bind s t)" "frame_define (name s) s m # fs'"]
    by (auto simp: frames_declare ok_declare)
qed

text \<open>A block leaves no trace: after its end every name means what it meant before.\<close>

lemma block_restores:
  assumes "ok t" "nesting 0 xs = Some 0"
  shows "frames (run (Open # xs @ [Close]) t) = frames t"
proof -
  have "\<exists>fs'. frames (run xs (enter t)) = fs' @ frames t \<and> length fs' = Suc 0"
    using assms by (intro run_below [where fs = "[Map.empty]"]) (auto simp: frames_enter ok_enter)
  then obtain m where "frames (run xs (enter t)) = m # frames t" by (auto simp: length_Suc_conv)
  then show ?thesis using assms frames_nonempty [of t]
    by (simp add: perform_append frames_leave ok_run ok_enter)
qed

lemma resolve_block:
  assumes "ok t" "nesting 0 xs = Some 0"
  shows "resolve n (run (Open # xs @ [Close]) t) = resolve n t"
  using block_restores [OF assms] ok_run [OF assms(1), of "Open # xs @ [Close]"] assms(1)
  by (simp add: resolve_frames)

lemma resolve_declared:
  assumes "ok t" "fst (bind s t)" "name s \<noteq> ''_''"
  shows "resolve m (snd (bind s t)) = (if m = name s then Some s else resolve m t)"
proof -
  obtain f fs where f: "frames t = f # fs" using frames_nonempty [OF assms(1)] by (cases "frames t") auto
  then have "name s \<notin> dom f" using assms declare_accepts [OF assms(1)] by simp
  then show ?thesis using assms f by (simp add: resolve_frames ok_declare frames_declare frame_define_def)
qed

lemma resolve_unchanged:
  assumes "ok t" "\<not> fst (bind s t) \<or> name s = ''_''"
  shows "resolve m (snd (bind s t)) = resolve m t"
proof -
  obtain f fs where f: "frames t = f # fs" using frames_nonempty [OF assms(1)] by (cases "frames t") auto
  then show ?thesis using assms declare_accepts [OF assms(1), of s]
    by (auto simp: resolve_frames ok_declare frames_declare frame_define_def)
qed

lemma redeclare_rejected:
  assumes "ok t" "fst (bind s t)" "name s \<noteq> ''_''" "name s' = name s"
  shows "\<not> fst (bind s' (snd (bind s t)))"
  using assms declare_accepts [OF assms(1)] declare_accepts [OF ok_declare [OF assms(1)]]
  by (simp add: frames_declare frame_define_def)

lemma blank_never_resolves:
  assumes "ok t" "list_all (\<lambda>m. ''_'' \<notin> dom m) (frames t)"
  shows "list_all (\<lambda>m. ''_'' \<notin> dom m) (frames (run xs t)) \<and> resolve ''_'' (run xs t) = None"
proof -
  have "frames_resolve ''_'' ms = None" if "list_all (\<lambda>m. ''_'' \<notin> dom m) ms" for ms :: "'s frames"
    using that by (induction ms) (auto split: option.splits)
  moreover have "list_all (\<lambda>m. ''_'' \<notin> dom m) (frames (run xs t))"
    using assms
  proof (induction xs arbitrary: t rule: scope_op_induct)
    case (Close xs)
    then show ?case using frames_nonempty [of t] by (cases "frames t") (auto simp: ok_leave frames_leave)
  next
    case (Declare s xs)
    then show ?case using frames_nonempty [of t]
      by (cases "frames t") (simp_all add: ok_declare frames_declare)
  qed (auto simp: ok_enter frames_enter)
  ultimately show ?thesis using ok_run [OF assms(1)] by (simp add: resolve_frames)
qed

end

section \<open>The table is a stack of maps\<close>

text \<open>Each scope on the stack points at the one below it, the global one at none.\<close>

fun linked :: "Scope list \<Rightarrow> nat option \<Rightarrow> nat list \<Rightarrow> bool" where
  "linked h p [] \<longleftrightarrow> True"
| "linked h p (r # rs) \<longleftrightarrow> r < length h \<and> parent (h ! r) = p \<and> linked h (Some r) rs"

definition table_ok :: "SymbolTable \<Rightarrow> bool" where
  "table_ok st \<longleftrightarrow> scopes st \<noteq> [] \<and> distinct (scopes st) \<and> linked (store st) None (scopes st)"

abbreviation scope_map :: "Scope list \<Rightarrow> nat \<Rightarrow> string \<rightharpoonup> Symbol" where
  "scope_map h r \<equiv> map_of (symbols (h ! r))"

definition table_frames :: "SymbolTable \<Rightarrow> Symbol frames" where
  "table_frames st = map (scope_map (store st)) (rev (scopes st))"

text \<open>\<^verbatim>\<open>Define\<close> in the contract's form: whether it was accepted, and the table.\<close>

definition try_define :: "Symbol \<Rightarrow> SymbolTable \<Rightarrow> bool \<times> SymbolTable" where
  "try_define sy st =
     (case Define sy st of None \<Rightarrow> (False, st) | Some (e, st') \<Rightarrow> (e = None, st'))"

lemma linked_bound: "linked h p rs \<Longrightarrow> r \<in> set rs \<Longrightarrow> r < length h"
  by (induction h p rs rule: linked.induct) auto

lemma linked_append:
  "linked h p (rs @ [r]) \<longleftrightarrow>
     linked h p rs \<and> r < length h \<and> parent (h ! r) = (if rs = [] then p else Some (last rs))"
  by (induction h p rs rule: linked.induct) auto

lemma linked_cong:
  assumes "length h \<le> length h'" "\<And>r. r < length h \<Longrightarrow> parent (h' ! r) = parent (h ! r)"
  shows "linked h p rs \<Longrightarrow> linked h' p rs"
  using assms by (induction h p rs rule: linked.induct) (auto intro: less_le_trans)

text \<open>Following the parent pointers from the top of the stack walks down the stack.\<close>

lemma ScopeResolve_linked:
  "linked h None rs \<Longrightarrow> rs \<noteq> [] \<Longrightarrow>
   ScopeResolve h (last rs) n = Some (frames_resolve n (map (scope_map h) (rev rs)))"
proof (induction rs rule: rev_induct)
  case (snoc r rs)
  then have "r < length h" "parent (h ! r) = (if rs = [] then None else Some (last rs))" "linked h None rs"
    by (simp_all add: linked_append)
  then show ?case using snoc.IH
    by (subst ScopeResolve.simps) (auto split: option.splits)
qed simp

lemma table_ok_new: "table_ok NewSymbolTable"
  by (simp add: table_ok_def NewSymbolTable_def NewScope_def)

lemma table_frames_new: "table_frames NewSymbolTable = [Map.empty]"
  by (simp add: table_frames_def NewSymbolTable_def NewScope_def)

lemma table_ok_scopes:
  assumes "table_ok st"
  obtains rs r where "scopes st = rs @ [r]" "r < length (store st)" "r \<notin> set rs"
    "linked (store st) None rs" "parent (store st ! r) = (if rs = [] then None else Some (last rs))"
proof -
  obtain rs r where "scopes st = rs @ [r]" using assms by (cases "scopes st" rule: rev_cases) (auto simp: table_ok_def)
  then show ?thesis using assms that [of rs r] by (auto simp: table_ok_def linked_append)
qed

lemma table_ok_enter:
  assumes "table_ok st"
  shows "table_ok (EnterScope st) \<and> table_frames (EnterScope st) = Map.empty # table_frames st"
proof -
  let ?h = "store st" and ?s = "\<lparr>parent = Some (last (scopes st)), symbols = []\<rparr>"
  have ne: "scopes st \<noteq> []" using assms by (simp add: table_ok_def)
  then have e: "EnterScope st = st\<lparr>scopes := scopes st @ [length ?h], store := ?h @ [?s]\<rparr>"
    by (simp add: EnterScope_def CurrentScope_def NewScope_def)
  have b: "r \<in> set (scopes st) \<Longrightarrow> r < length ?h" for r
    using assms linked_bound by (auto simp: table_ok_def)
  have "linked (?h @ [?s]) None (scopes st)"
    using assms by - (rule linked_cong [of ?h], auto simp: table_ok_def nth_append)
  then have "table_ok (EnterScope st)"
    using assms ne b by (auto simp: e table_ok_def linked_append)
  moreover have "map (scope_map (?h @ [?s])) (rev (scopes st)) = map (scope_map ?h) (rev (scopes st))"
    using b by (intro map_cong) (auto simp: nth_append)
  ultimately show ?thesis by (simp add: e table_frames_def)
qed

lemma table_ok_exit:
  assumes "table_ok st"
  shows "table_ok (ExitScope st) \<and> table_frames (ExitScope st) =
    (if length (table_frames st) > 1 then tl (table_frames st) else table_frames st)"
proof -
  obtain rs r where "scopes st = rs @ [r]" "distinct (rs @ [r])" "linked (store st) None rs"
    using assms by (metis table_ok_def table_ok_scopes)
  then show ?thesis using assms by (auto simp: table_ok_def ExitScope_def table_frames_def)
qed

lemma try_define_spec:
  assumes "table_ok st"
  shows "table_ok (snd (try_define sy st)) \<and>
    table_frames (snd (try_define sy st)) =
      frame_define (symName sy) sy (hd (table_frames st)) # tl (table_frames st) \<and>
    (fst (try_define sy st) \<longleftrightarrow> symName sy = ''_'' \<or> symName sy \<notin> dom (hd (table_frames st)))"
  using assms
proof (cases rule: table_ok_scopes)
  case (1 rs r)
  let ?h = "store st"
  let ?h' = "?h[r := (?h ! r)\<lparr>symbols := (symName sy, sy) # symbols (?h ! r)\<rparr>]"
  have c: "CurrentScope st = Some r" using 1 by (simp add: CurrentScope_def)
  show ?thesis
  proof (cases "symName sy = ''_'' \<or> symName sy \<in> dom (scope_map ?h r)")
    case True
    then have "snd (try_define sy st) = st" "fst (try_define sy st) \<longleftrightarrow> symName sy = ''_''"
      using c by (auto simp: try_define_def Define_def ScopeDefine_def)
    then show ?thesis using True assms 1 by (auto simp: table_frames_def frame_define_def)
  next
    case False
    then have d: "try_define sy st = (True, st\<lparr>store := ?h'\<rparr>)"
      using c by (auto simp: try_define_def Define_def ScopeDefine_def)
    have p: "parent (?h' ! q) = parent (?h ! q)" if "q < length ?h" for q
      using that by (cases "q = r") auto
    have "linked ?h' None (scopes st)"
      using assms p by - (rule linked_cong [of ?h], auto simp: table_ok_def)
    moreover have "map (scope_map ?h') (rev rs) = map (scope_map ?h) (rev rs)"
      using 1 by (intro map_cong) (auto simp: nth_list_update)
    moreover have "scope_map ?h' r = (scope_map ?h r)(symName sy \<mapsto> sy)"
      using 1 by simp
    ultimately show ?thesis using False assms 1 d
      by (simp add: table_ok_def table_frames_def frame_define_def)
  qed
qed

lemma ResolveResult_frames:
  assumes "table_ok st"
  shows "ResolveResult n st = Some (frames_resolve n (table_frames st))"
  using assms ScopeResolve_linked [of "store st" "scopes st" n]
  by (simp add: ResolveResult_def CurrentScope_def table_ok_def table_frames_def)

lemma Resolve_frames: "table_ok st \<Longrightarrow> Resolve n st = frames_resolve n (table_frames st)"
  by (simp add: Resolve_def ResolveResult_frames)

lemma table_frames_nonempty: "table_ok st \<Longrightarrow> table_frames st \<noteq> []"
  by (simp add: table_ok_def table_frames_def)

interpretation table: block_scopes table_ok table_frames EnterScope ExitScope symName try_define Resolve
  by unfold_locales
     (use table_ok_enter table_ok_exit try_define_spec Resolve_frames table_frames_nonempty in auto)

text \<open>A sequence of operations on the symbol table.\<close>

definition table_run :: "Symbol scope_op list \<Rightarrow> SymbolTable \<Rightarrow> SymbolTable" where
  "table_run = perform EnterScope ExitScope try_define"

lemma table_ok_run: "table_ok (table_run xs NewSymbolTable)"
  unfolding table_run_def by (rule table.ok_run [OF table_ok_new])

section \<open>Properties\<close>

text \<open>The abstract operations: a stack of maps, innermost first.\<close>

definition stack_enter :: "Symbol frames \<Rightarrow> Symbol frames" where
  "stack_enter fs = Map.empty # fs"

definition stack_leave :: "Symbol frames \<Rightarrow> Symbol frames" where
  "stack_leave fs = (if length fs > 1 then tl fs else fs)"

definition stack_define :: "Symbol \<Rightarrow> Symbol frames \<Rightarrow> bool \<times> Symbol frames" where
  "stack_define sy fs =
     (symName sy = ''_'' \<or> symName sy \<notin> dom (hd fs), frame_define (symName sy) sy (hd fs) # tl fs)"

definition stack_run :: "Symbol scope_op list \<Rightarrow> Symbol frames" where
  "stack_run xs = perform stack_enter stack_leave stack_define xs [Map.empty]"

lemma frames_perform:
  "table_ok t \<Longrightarrow> table_frames (perform EnterScope ExitScope try_define xs t) =
     perform stack_enter stack_leave stack_define xs (table_frames t)"
  by (induction xs arbitrary: t rule: scope_op_induct)
     (simp_all add: table.ok_enter table.ok_leave table.ok_declare table.frames_enter
        table.frames_leave table.frames_declare stack_enter_def stack_leave_def stack_define_def)

lemma table_frames_run: "table_frames (table_run xs NewSymbolTable) = stack_run xs"
  by (simp add: table_run_def stack_run_def frames_perform table_ok_new table_frames_new)

text \<open>C13: The symbol table, whose scopes are linked by parent pointers, refines a stack of maps:
  after any sequence of \<^verbatim>\<open>EnterScope\<close>, \<^verbatim>\<open>ExitScope\<close> and \<^verbatim>\<open>Define\<close> calls on a new table, resolving
  a name neither panics nor runs forever and gives the innermost binding of the stack.\<close>

theorem symbol_table_refines:
  "ResolveResult n (table_run xs NewSymbolTable) = Some (frames_resolve n (stack_run xs)) \<and>
   map (scope_map (store (table_run xs NewSymbolTable))) (rev (scopes (table_run xs NewSymbolTable))) = stack_run xs"
  using ResolveResult_frames [OF table_ok_run] table_frames_run [of xs]
  by (simp add: table_frames_def)

text \<open>C28: A block leaves no trace: operations that enter and exit in a balanced way, wrapped in
  \<^verbatim>\<open>EnterScope\<close> and \<^verbatim>\<open>ExitScope\<close>, leave every name bound to what it was bound to before.\<close>

theorem block_restores_names:
  assumes "nesting 0 xs = Some 0"
  shows "Resolve n (table_run (pre @ [Open] @ xs @ [Close]) NewSymbolTable) =
    Resolve n (table_run pre NewSymbolTable)"
  using table.resolve_block [OF table_ok_run assms]
  by (simp add: table_run_def perform_append)

definition sample_symbol :: "string \<Rightarrow> SymbolKind \<Rightarrow> Symbol" where
  "sample_symbol n k = \<lparr>symName = n, symKind = k, symType = None,
     Defined = \<lparr>posLine = 1, posColumn = 1, posFile = []\<rparr>, Mutable = True, Exported = False\<rparr>"

lemma sample_resolves:
  "Resolve ''x'' (table_run [Declare (sample_symbol ''x'' k)] NewSymbolTable) = Some (sample_symbol ''x'' k)"
proof -
  have "try_define (sample_symbol ''x'' k) NewSymbolTable =
      (True, NewSymbolTable\<lparr>store := [\<lparr>parent = None, symbols = [(''x'', sample_symbol ''x'' k)]\<rparr>]\<rparr>)"
    by (simp add: try_define_def Define_def ScopeDefine_def CurrentScope_def NewSymbolTable_def NewScope_def
        sample_symbol_def)
  then show ?thesis
    by (simp add: table_run_def Resolve_def ResolveResult_def CurrentScope_def NewSymbolTable_def
        NewScope_def ScopeResolve.simps)
qed

theorem block_restores_names_witness:
  "Resolve ''x'' (table_run [Declare (sample_symbol ''x'' SymbolVariable), Open,
     Declare (sample_symbol ''x'' SymbolConst), Close] NewSymbolTable) = Some (sample_symbol ''x'' SymbolVariable)"
  using block_restores_names [of "[Declare (sample_symbol ''x'' SymbolConst)]" "''x''"
      "[Declare (sample_symbol ''x'' SymbolVariable)]"]
  by (simp add: sample_resolves)

text \<open>C34: \<^verbatim>\<open>Define\<close> never panics on a table the code can build. It reports an error exactly if the
  innermost scope already has the name (never for the blank identifier); without an error a
  name that is not blank then resolves to the new symbol, and all other names, and all names after
  an error, resolve as before.\<close>

theorem define_effect:
  "\<exists>e t. Define sy (table_run xs NewSymbolTable) = Some (e, t) \<and>
     (e \<noteq> None \<longleftrightarrow> symName sy \<noteq> ''_'' \<and> symName sy \<in> dom (hd (stack_run xs))) \<and>
     (\<forall>m. Resolve m t = (if e = None \<and> symName sy \<noteq> ''_'' \<and> m = symName sy then Some sy
                        else Resolve m (table_run xs NewSymbolTable)))"
proof -
  let ?t = "table_run xs NewSymbolTable"
  have ok: "table_ok ?t" by (rule table_ok_run)
  then obtain e t where d: "Define sy ?t = Some (e, t)"
    by (cases "ScopeDefine (last (scopes ?t)) sy (store ?t)") (auto simp: Define_def CurrentScope_def table_ok_def)
  then have t: "try_define sy ?t = (e = None, t)" by (simp add: try_define_def)
  have "e \<noteq> None \<longleftrightarrow> symName sy \<noteq> ''_'' \<and> symName sy \<in> dom (hd (stack_run xs))"
    using table.declare_accepts [OF ok, of sy] t by (auto simp: table_frames_run)
  moreover have "Resolve m t = (if e = None \<and> symName sy \<noteq> ''_'' \<and> m = symName sy then Some sy
      else Resolve m ?t)" for m
    using table.resolve_declared [OF ok, of sy m] table.resolve_unchanged [OF ok, of sy m] t
    by (cases "e = None \<and> symName sy \<noteq> ''_''") auto
  ultimately show ?thesis using d by blast
qed

text \<open>C36: The blank identifier is never bound: whatever is defined, \<^verbatim>\<open>_\<close> resolves to nothing.\<close>

theorem blank_unbound: "Resolve ''_'' (table_run xs NewSymbolTable) = None"
  using table.blank_never_resolves [OF table_ok_new] by (simp add: table_run_def table_frames_new)

end
