(* ===== verification/SemTypes.thy ===== *)
theory SemTypes
  imports Scopes Lexer
begin

text \<open>
  \<^verbatim>\<open>internal/semantic/semantic_types.go\<close> and \<^verbatim>\<open>semantic_helpers.go\<close>: the conversions between type
  annotations and types, the check of an annotation against the symbol table, the test whether a
  type can be nil, and the compatibility of two types.
\<close>

section \<open>Names\<close>

definition isValidIdentifier :: "string \<Rightarrow> bool" where
  "isValidIdentifier name \<longleftrightarrow>
     (case go_runes name of [] \<Rightarrow> False
      | r # rs \<Rightarrow> isAlpha r \<and> list_all isAlphaNumeric rs)"

definition isExported :: "string \<Rightarrow> bool" where
  "isExported name \<longleftrightarrow>
     (if length name = 0 then False
      else of_char CHR ''A'' \<le> (of_char (name ! 0) :: nat) \<and> (of_char (name ! 0) :: nat) \<le> of_char CHR ''Z'')"

definition isNumericType :: "TypeInfo option \<Rightarrow> bool" where
  "isNumericType t =
     (case t of None \<Rightarrow> False
      | Some ti \<Rightarrow> tiKind ti = TypeKindInt \<or> tiKind ti = TypeKindFloat \<or> tiKind ti = TypeKindUnknown)"

definition primitiveTypeFromString :: "string \<Rightarrow> TypeInfo" where
  "primitiveTypeFromString name =
     basicType
       (if name \<in> set [''int'', ''int8'', ''int16'', ''int32'', ''int64'',
           ''uint'', ''uint8'', ''uint16'', ''uint32'', ''uint64''] then TypeKindInt
        else if name \<in> set [''float32'', ''float64''] then TypeKindFloat
        else if name = ''string'' then TypeKindString
        else if name = ''bool'' then TypeKindBool
        else if name = ''byte'' then TypeKindInt
        else if name = ''rune'' then TypeKindInt
        else TypeKindUnknown)"

text \<open>\<^verbatim>\<open>unqualifiedName\<close>: what follows the last dot.\<close>

definition unqualifiedName :: "string \<Rightarrow> string" where
  "unqualifiedName name =
     (case last_index_char name CHR ''.'' of Some i \<Rightarrow> drop (i + 1) name | None \<Rightarrow> name)"

definition isPlaceholderType :: "TypeInfo \<Rightarrow> bool" where
  "isPlaceholderType ti \<longleftrightarrow> tiKind ti = TypeKindNamed \<and>
     (tiName ti = ''any'' \<or> tiName ti = ''any2'' \<or> tiName ti = ''ordered'' \<or> tiName ti = ''result'')"

text \<open>The registry of interface types of the Go standard library; the one of Kukicha's own library,
  \<^verbatim>\<open>generatedStdlibInterfaces\<close>, is empty.\<close>

definition generatedGoInterfaces :: "string list" where
  "generatedGoInterfaces =
     [''context.Context'', ''fmt.Formatter'', ''fmt.GoStringer'', ''fmt.ScanState'',
      ''fmt.Scanner'', ''fmt.State'', ''fmt.Stringer'', ''http.CloseNotifier'',
      ''http.CookieJar'', ''http.File'', ''http.FileSystem'', ''http.Flusher'',
      ''http.Handler'', ''http.Hijacker'', ''http.Pusher'', ''http.ResponseWriter'',
      ''http.RoundTripper'', ''io.ByteReader'', ''io.ByteScanner'', ''io.ByteWriter'',
      ''io.Closer'', ''io.ReadCloser'', ''io.ReadSeekCloser'', ''io.ReadSeeker'',
      ''io.ReadWriteCloser'', ''io.ReadWriteSeeker'', ''io.ReadWriter'', ''io.Reader'',
      ''io.ReaderAt'', ''io.ReaderFrom'', ''io.RuneReader'', ''io.RuneScanner'',
      ''io.Seeker'', ''io.StringWriter'', ''io.WriteCloser'', ''io.WriteSeeker'',
      ''io.Writer'', ''io.WriterAt'', ''io.WriterTo'', ''json.Marshaler'',
      ''json.Token'', ''json.Unmarshaler'', ''net.Addr'', ''net.Conn'',
      ''net.Error'', ''net.Listener'', ''net.PacketConn'', ''os.DirEntry'',
      ''os.FileInfo'', ''os.Signal'', ''sort.Interface'', ''sync.Locker'']"

definition IsKnownInterface :: "string \<Rightarrow> bool" where
  "IsKnownInterface qualifiedName \<longleftrightarrow> qualifiedName \<in> set generatedGoInterfaces"

section \<open>The analyzer\<close>

text \<open>The part of \<^verbatim>\<open>type Analyzer struct\<close> that these operations read and write. An error or a
  warning is its text; \<^verbatim>\<open>directives.DeprecatedTypes\<close> is an association list, and so is
  \<^verbatim>\<open>importAliases\<close>, whose nil map is \<^term>\<open>None\<close>.\<close>

datatype LintKind = LintDeprecation | LintPanic | LintOnerr | LintPipe | LintEnum
  | LintTypeMismatch | LintSecurity | LintTodo

record LintCandidate =
  lintKind :: LintKind
  lintPos :: Position
  lintMessage :: string

record analyzer =
  symbolTable :: SymbolTable
  semErrors :: "string list"
  semWarnings :: "string list"
  DeprecatedTypes :: "(string \<times> string) list"
  importAliases :: "(string \<times> string) list option"
  lintCandidates :: "LintCandidate list"

definition positioned :: "Position \<Rightarrow> string \<Rightarrow> string" where
  "positioned p message =
     posFile p @ '':'' @ itoa (posLine p) @ '':'' @ itoa (posColumn p) @ '': '' @ message"

definition sem_error :: "Position \<Rightarrow> string \<Rightarrow> analyzer \<Rightarrow> analyzer" where
  "sem_error p message a = a\<lparr>semErrors := semErrors a @ [positioned p message]\<rparr>"

definition sem_warn :: "Position \<Rightarrow> string \<Rightarrow> analyzer \<Rightarrow> analyzer" where
  "sem_warn p message a = a\<lparr>semWarnings := semWarnings a @ [positioned p message]\<rparr>"

definition recordLint :: "LintKind \<Rightarrow> Position \<Rightarrow> string \<Rightarrow> analyzer \<Rightarrow> analyzer" where
  "recordLint k p message a = a\<lparr>lintCandidates := lintCandidates a @
     [\<lparr>lintKind = k, lintPos = p, lintMessage = message\<rparr>]\<rparr>"

definition emitLintWarnings :: "analyzer \<Rightarrow> analyzer" where
  "emitLintWarnings a = fold (\<lambda>lc. sem_warn (lintPos lc) (lintMessage lc)) (lintCandidates a) a"

definition resolveQualifiedName :: "string \<Rightarrow> analyzer \<Rightarrow> string" where
  "resolveQualifiedName qualName a =
     (case importAliases a of None \<Rightarrow> qualName
      | Some aliases \<Rightarrow>
          (case index_char qualName CHR ''.'' of None \<Rightarrow> qualName
           | Some dotIdx \<Rightarrow>
               (case map_of aliases (take dotIdx qualName) of
                  Some baseName \<Rightarrow> baseName @ drop dotIdx qualName
                | None \<Rightarrow> qualName)))"

section \<open>Annotations\<close>

definition builtInTypes :: "string list" where
  "builtInTypes = [''interface{}'', ''any'', ''any2'', ''ordered'', ''result'', ''error'', ''byte'', ''rune'']"

definition squoted :: "string \<Rightarrow> string" where
  "squoted s = [CHR 0x27] @ s @ [CHR 0x27]"

text \<open>The case of a named type.\<close>

definition validateNamedType :: "token \<Rightarrow> string \<Rightarrow> analyzer \<Rightarrow> analyzer" where
  "validateNamedType t name a =
     (if name \<in> set builtInTypes then a
      else if contains_char name CHR ''.'' then
        (let parts = split_char CHR ''.'' name
         in if length parts \<noteq> 2 then
              sem_error (token_pos t) (''invalid qualified type '' @ squoted name) a
            else if Resolve (parts ! 0) (symbolTable a) = None then
              sem_error (token_pos t) (''package '' @ squoted (parts ! 0) @ '' not imported (for type ''
                @ squoted name @ '')'') a
            else a)
      else
        (let a1 =
           (case Resolve name (symbolTable a) of
              None \<Rightarrow> sem_error (token_pos t) (''undefined type '' @ squoted name) a
            | Some sy \<Rightarrow>
                if symKind sy \<noteq> SymbolType \<and> symKind sy \<noteq> SymbolInterface
                then sem_error (token_pos t) (''undefined type '' @ squoted name) a
                else a)
         in case map_of (DeprecatedTypes a1) name of
              Some msg \<Rightarrow> recordLint LintDeprecation (token_pos t)
                            (squoted name @ '' is deprecated: '' @ msg) a1
            | None \<Rightarrow> a1))"

fun validateTypeAnnotation :: "TypeAnnotation \<Rightarrow> analyzer \<Rightarrow> analyzer" where
  "validateTypeAnnotation NilType a = a"
| "validateTypeAnnotation (PrimitiveType t n) a = a"
| "validateTypeAnnotation (NamedType t n) a = validateNamedType t n a"
| "validateTypeAnnotation (ReferenceType t e) a = validateTypeAnnotation e a"
| "validateTypeAnnotation (ListType t e) a = validateTypeAnnotation e a"
| "validateTypeAnnotation (MapType t k v) a = validateTypeAnnotation v (validateTypeAnnotation k a)"
| "validateTypeAnnotation (ChannelType t e) a = validateTypeAnnotation e a"
| "validateTypeAnnotation (FunctionType t ps rs) a =
     fold validateTypeAnnotation rs (fold validateTypeAnnotation ps a)"

fun typeAnnotationToTypeInfo :: "SymbolTable \<Rightarrow> TypeAnnotation \<Rightarrow> TypeInfo" where
  "typeAnnotationToTypeInfo st NilType = basicType TypeKindUnknown"
| "typeAnnotationToTypeInfo st (PrimitiveType t n) = primitiveTypeFromString n"
| "typeAnnotationToTypeInfo st (NamedType t n) =
     (if (case Resolve n st of Some sy \<Rightarrow> symKind sy = SymbolInterface | None \<Rightarrow> False)
      then namedType TypeKindInterface n
      else if IsKnownInterface n then namedType TypeKindInterface n
      else namedType TypeKindNamed n)"
| "typeAnnotationToTypeInfo st (ReferenceType t e) =
     elemType TypeKindReference (Some (typeAnnotationToTypeInfo st e))"
| "typeAnnotationToTypeInfo st (ListType t e) =
     elemType TypeKindList (Some (typeAnnotationToTypeInfo st e))"
| "typeAnnotationToTypeInfo st (MapType t k v) =
     mapType (Some (typeAnnotationToTypeInfo st k)) (Some (typeAnnotationToTypeInfo st v))"
| "typeAnnotationToTypeInfo st (ChannelType t e) =
     elemType TypeKindChannel (Some (typeAnnotationToTypeInfo st e))"
| "typeAnnotationToTypeInfo st (FunctionType t ps rs) =
     funcType (map (\<lambda>p. Some (typeAnnotationToTypeInfo st p)) ps)
              (map (\<lambda>r. Some (typeAnnotationToTypeInfo st r)) rs)"

text \<open>The names that stand for an interface.\<close>

definition is_interface :: "SymbolTable \<Rightarrow> string \<Rightarrow> bool" where
  "is_interface st n \<longleftrightarrow>
     IsKnownInterface n \<or> (case Resolve n st of None \<Rightarrow> False | Some sy \<Rightarrow> symKind sy = SymbolInterface)"

lemma named_type_kind:
  "typeAnnotationToTypeInfo st (NamedType t n) =
     namedType (if is_interface st n then TypeKindInterface else TypeKindNamed) n"
  by (simp add: is_interface_def split: option.splits)

text \<open>The nodes that \<^verbatim>\<open>typeInfoToTypeAnnotation\<close> builds carry the zero token.\<close>

definition no_token :: token where
  "no_token = \<lparr>Type = TokenType 0, Lexeme = [], Line = 0, Column = 0, File = []\<rparr>"

fun typeInfoToTypeAnnotation :: "TypeInfo option \<Rightarrow> TypeAnnotation" where
  "typeInfoToTypeAnnotation None = NilType"
| "typeInfoToTypeAnnotation (Some (TypeInfo k n e kt vt _ _ _ _ _ _ _ _ _ _ _)) =
     (case k of
        TypeKindNamed \<Rightarrow> NamedType no_token n
      | TypeKindStruct \<Rightarrow> NamedType no_token n
      | TypeKindList \<Rightarrow>
          (let elem = typeInfoToTypeAnnotation e
           in if elem = NilType then NilType else ListType no_token elem)
      | TypeKindMap \<Rightarrow>
          (let key = typeInfoToTypeAnnotation kt; val = typeInfoToTypeAnnotation vt
           in if key = NilType \<or> val = NilType then NilType else MapType no_token key val)
      | TypeKindReference \<Rightarrow>
          (let elem = typeInfoToTypeAnnotation e
           in if elem = NilType then NilType else ReferenceType no_token elem)
      | TypeKindChannel \<Rightarrow>
          (let elem = typeInfoToTypeAnnotation e
           in if elem = NilType then NilType else ChannelType no_token elem)
      | _ \<Rightarrow> if n \<noteq> [] then PrimitiveType no_token n else NilType)"

section \<open>Nil-able types\<close>

text \<open>\<^verbatim>\<open>isReferenceTypeWithVisited\<close>: the set of visited names grows with every alias that is
  followed and holds only names of the symbol table, so the recursion ends.\<close>

lemma card_visit: "x \<in> A \<Longrightarrow> x \<notin> B \<Longrightarrow> finite A \<Longrightarrow> card (A - insert x B) < card (A - B)"
  by (intro psubset_card_mono) auto

function isReferenceTypeWithVisited :: "SymbolTable \<Rightarrow> TypeInfo option \<Rightarrow> string list \<Rightarrow> bool" where
  "isReferenceTypeWithVisited st None visited = False"
| "isReferenceTypeWithVisited st (Some t) visited =
     (if tiKind t \<in> {TypeKindReference, TypeKindList, TypeKindMap, TypeKindChannel, TypeKindFunction,
          TypeKindInterface} then True
      else if tiKind t = TypeKindNamed then
        (if tiName t = ''any'' \<or> tiName t = ''any2'' \<or> tiName t = ''ordered'' \<or> tiName t = ''result''
            \<or> tiName t = ''error'' \<or> tiName t = ''interface{}'' then True
         else if contains_char (tiName t) CHR ''.'' then True
         else
           (case Resolve (tiName t) st of
              None \<Rightarrow> False
            | Some sy \<Rightarrow>
                if symKind sy = SymbolInterface then True
                else if symKind sy = SymbolType then
                  (if tiName t \<in> set visited then False
                   else isReferenceTypeWithVisited st (symType sy) (tiName t # visited))
                else False))
      else if tiKind t = TypeKindUnknown then True
      else False)"
  by pat_completeness auto
termination
proof (relation "measure (\<lambda>(st, t, visited). card (table_names st - set visited))", goal_cases)
  case (2 st t visited sy)
  then have "tiName t \<in> table_names st" "tiName t \<notin> set visited" by (simp_all add: Resolve_name)
  then show ?case using card_visit [of "tiName t" "table_names st" "set visited"] by simp
qed simp

declare isReferenceTypeWithVisited.simps [simp del]

definition isReferenceType :: "SymbolTable \<Rightarrow> TypeInfo option \<Rightarrow> bool" where
  "isReferenceType st t = isReferenceTypeWithVisited st t []"

section \<open>Compatibility\<close>

definition isVariantCaseOf :: "string \<Rightarrow> string \<Rightarrow> SymbolTable \<Rightarrow> bool" where
  "isVariantCaseOf caseName parentName st =
     (case Resolve parentName st of None \<Rightarrow> False
      | Some sy \<Rightarrow>
          (case symType sy of None \<Rightarrow> False
           | Some t \<Rightarrow> tiKind t = TypeKindVariant \<and> map_of (VariantCases t) caseName \<noteq> None))"

text \<open>The part before the kinds are compared: types that accept anything, the \<^verbatim>\<open>error\<close> interface and
  \<^verbatim>\<open>time.Duration\<close>.\<close>

abbreviation is_named :: "TypeInfo \<Rightarrow> string \<Rightarrow> bool" where
  "is_named t n \<equiv> tiKind t = TypeKindNamed \<and> tiName t = n"

definition acceptsAny :: "TypeInfo \<Rightarrow> TypeInfo \<Rightarrow> bool" where
  "acceptsAny t1 t2 \<longleftrightarrow>
     tiKind t1 = TypeKindUnknown \<or> tiKind t2 = TypeKindUnknown
     \<or> (tiKind t1 = TypeKindNamed \<and> (tiName t1 = ''interface{}'' \<or> tiName t1 = ''any''))
     \<or> (tiKind t2 = TypeKindNamed \<and> (tiName t2 = ''interface{}'' \<or> tiName t2 = ''any''))
     \<or> (isPlaceholderType t1 \<or> isPlaceholderType t2)
     \<or> (is_named t1 ''error'' \<and> tiKind t2 \<in> {TypeKindStruct, TypeKindNamed, TypeKindReference})
     \<or> (is_named t2 ''error'' \<and> tiKind t1 \<in> {TypeKindStruct, TypeKindNamed, TypeKindReference})
     \<or> ((is_named t1 ''time.Duration'' \<and> tiKind t2 = TypeKindInt)
        \<or> (is_named t2 ''time.Duration'' \<and> tiKind t1 = TypeKindInt))"

text \<open>The case of different kinds.\<close>

definition kindsCompatible :: "analyzer \<Rightarrow> TypeInfo \<Rightarrow> TypeInfo \<Rightarrow> bool" where
  "kindsCompatible a t1 t2 =
     (let k1 = tiKind t1; k2 = tiKind t2; n1 = tiName t1; n2 = tiName t2; st = symbolTable a
      in if k1 = TypeKindNil then isReferenceType st (Some t2)
         else if k2 = TypeKindNil then isReferenceType st (Some t1)
         else if (k1 = TypeKindEnum \<and> k2 = TypeKindNamed \<and> n1 = n2)
              \<or> (k2 = TypeKindEnum \<and> k1 = TypeKindNamed \<and> n1 = n2) then True
         else if k1 = TypeKindVariant \<and> (k2 = TypeKindNamed \<or> k2 = TypeKindStruct)
              \<and> map_of (VariantCases t1) n2 \<noteq> None then True
         else if k2 = TypeKindVariant \<and> (k1 = TypeKindNamed \<or> k1 = TypeKindStruct)
              \<and> map_of (VariantCases t2) n1 \<noteq> None then True
         else if k1 = TypeKindNamed \<and> k2 = TypeKindNamed \<and> n1 \<noteq> n2
              \<and> (isVariantCaseOf n2 n1 st \<or> isVariantCaseOf n1 n2 st) then True
         else if k1 = TypeKindStruct \<and> k2 = TypeKindNamed \<and> isVariantCaseOf n1 n2 st then True
         else if k2 = TypeKindStruct \<and> k1 = TypeKindNamed \<and> isVariantCaseOf n2 n1 st then True
         else if k1 = TypeKindInterface \<or> k2 = TypeKindInterface then True
         else if (k1 = TypeKindNamed \<and> contains_char n1 CHR ''.'')
              \<or> (k2 = TypeKindNamed \<and> contains_char n2 CHR ''.'') then True
         else False)"

text \<open>Two named types or two enums.\<close>

definition namesCompatible :: "analyzer \<Rightarrow> string \<Rightarrow> string \<Rightarrow> bool" where
  "namesCompatible a n1 n2 =
     (if n1 = n2 then True
      else if (\<not> contains_char n1 CHR ''.'' \<or> \<not> contains_char n2 CHR ''.'')
           \<and> unqualifiedName n1 = unqualifiedName n2 then True
      else if resolveQualifiedName n1 a = resolveQualifiedName n2 a then True
      else if isVariantCaseOf n2 n1 (symbolTable a) \<or> isVariantCaseOf n1 n2 (symbolTable a) then True
      else False)"

text \<open>The pointer of a component is smaller than the type, for the recursion below.\<close>

lemma size_component:
  "size_option size (ElementType t) < Suc (size t)"
  "size_option size (KeyType t) < Suc (size t)"
  "size_option size (ValueType t) < Suc (size t)"
  by (cases t, simp)+

function typesCompatible :: "analyzer \<Rightarrow> TypeInfo option \<Rightarrow> TypeInfo option \<Rightarrow> bool" where
  "typesCompatible a (Some t1) (Some t2) =
     (if acceptsAny t1 t2 then True
      else if tiKind t1 \<noteq> tiKind t2 then kindsCompatible a t1 t2
      else if tiKind t1 \<in> {TypeKindList, TypeKindChannel, TypeKindReference} then
        (case (ElementType t1, ElementType t2) of
           (Some e1, Some e2) \<Rightarrow> typesCompatible a (Some e1) (Some e2)
         | _ \<Rightarrow> True)
      else if tiKind t1 = TypeKindMap then
        (case (KeyType t1, KeyType t2, ValueType t1, ValueType t2) of
           (Some k1, Some k2, Some v1, Some v2) \<Rightarrow>
             typesCompatible a (Some k1) (Some k2) \<and> typesCompatible a (Some v1) (Some v2)
         | _ \<Rightarrow> True)
      else if tiKind t1 = TypeKindNamed \<or> tiKind t1 = TypeKindEnum then
        namesCompatible a (tiName t1) (tiName t2)
      else True)"
| "typesCompatible a None t2 = False"
| "typesCompatible a (Some t1) None = False"
  by pat_completeness auto
termination
  by (relation "measure (\<lambda>(a, t1, t2). size_option size t1)") (auto simp: size_component)

declare typesCompatible.simps(1) [simp del]

end
