(* ===== verification/SemProps.thy ===== *)
theory SemProps
  imports SemTypes
begin

text \<open>
  What the type operations of the analyzer promise: compatibility is reflexive and symmetric and on
  types without wildcards it is equality of structure; an annotation is accepted exactly if all the
  names in it are declared; converting an annotation to a type and back loses exactly the primitives.
\<close>

section \<open>Compatibility\<close>

lemma kindsCompatible_iff:
  "kindsCompatible a t1 t2 \<longleftrightarrow>
     (if tiKind t1 = TypeKindNil then isReferenceType (symbolTable a) (Some t2)
      else if tiKind t2 = TypeKindNil then isReferenceType (symbolTable a) (Some t1)
      else (tiKind t1 = TypeKindEnum \<and> tiKind t2 = TypeKindNamed \<and> tiName t1 = tiName t2)
         \<or> (tiKind t2 = TypeKindEnum \<and> tiKind t1 = TypeKindNamed \<and> tiName t1 = tiName t2)
         \<or> (tiKind t1 = TypeKindVariant \<and> tiKind t2 \<in> {TypeKindNamed, TypeKindStruct}
            \<and> map_of (VariantCases t1) (tiName t2) \<noteq> None)
         \<or> (tiKind t2 = TypeKindVariant \<and> tiKind t1 \<in> {TypeKindNamed, TypeKindStruct}
            \<and> map_of (VariantCases t2) (tiName t1) \<noteq> None)
         \<or> (tiKind t1 = TypeKindNamed \<and> tiKind t2 = TypeKindNamed \<and> tiName t1 \<noteq> tiName t2
            \<and> (isVariantCaseOf (tiName t2) (tiName t1) (symbolTable a)
               \<or> isVariantCaseOf (tiName t1) (tiName t2) (symbolTable a)))
         \<or> (tiKind t1 = TypeKindStruct \<and> tiKind t2 = TypeKindNamed
            \<and> isVariantCaseOf (tiName t1) (tiName t2) (symbolTable a))
         \<or> (tiKind t2 = TypeKindStruct \<and> tiKind t1 = TypeKindNamed
            \<and> isVariantCaseOf (tiName t2) (tiName t1) (symbolTable a))
         \<or> (tiKind t1 = TypeKindInterface \<or> tiKind t2 = TypeKindInterface)
         \<or> (tiKind t1 = TypeKindNamed \<and> contains_char (tiName t1) CHR ''.'')
         \<or> (tiKind t2 = TypeKindNamed \<and> contains_char (tiName t2) CHR ''.''))"
  by (auto simp: kindsCompatible_def Let_def)

lemma kindsCompatible_sym:
  "tiKind t1 \<noteq> tiKind t2 \<Longrightarrow> kindsCompatible a t1 t2 \<longleftrightarrow> kindsCompatible a t2 t1"
  unfolding kindsCompatible_iff by (auto simp: eq_commute)

lemma acceptsAny_sym: "acceptsAny t1 t2 \<longleftrightarrow> acceptsAny t2 t1"
  unfolding acceptsAny_def by blast

lemma namesCompatible_sym: "namesCompatible a n1 n2 \<longleftrightarrow> namesCompatible a n2 n1"
  unfolding namesCompatible_def by (auto simp: eq_commute)

lemmas typesCompatible_Some = typesCompatible.simps(1)

lemma typesCompatible_sym: "typesCompatible a t1 t2 \<longleftrightarrow> typesCompatible a t2 t1"
proof (induction a t1 t2 rule: typesCompatible.induct)
  case (1 a t1 t2)
  show ?case
  proof (cases "tiKind t1 = tiKind t2")
    case True
    then show ?thesis
      unfolding typesCompatible_Some [of a t1] typesCompatible_Some [of a t2]
      using 1 acceptsAny_sym [of t1 t2] namesCompatible_sym [of a "tiName t1" "tiName t2"]
      by (auto split: option.splits)
  next
    case False
    then show ?thesis using acceptsAny_sym [of t1 t2] kindsCompatible_sym [of t1 t2 a]
      by (simp add: typesCompatible_Some)
  qed
next
  case (2 a t2)
  then show ?case by (cases t2) simp_all
qed simp

lemma typesCompatible_refl: "typesCompatible a (Some t) (Some t)"
proof (induction "size t" arbitrary: t rule: less_induct)
  case less
  have c: "typesCompatible a (Some e) (Some e)"
    if "ElementType t = Some e \<or> KeyType t = Some e \<or> ValueType t = Some e" for e
    using that less size_component [of t] by auto
  then show ?case
    by (subst typesCompatible_Some) (auto simp: namesCompatible_def split: option.splits)
qed

section \<open>Types without wildcards\<close>

text \<open>A name that stands for one type only: not qualified, not a wildcard and neither an interface nor
  a variant in the symbol table.\<close>

definition plain_type_name :: "SymbolTable \<Rightarrow> string \<Rightarrow> bool" where
  "plain_type_name st n \<longleftrightarrow> \<not> contains_char n CHR ''.'' \<and>
     n \<notin> set [''any'', ''any2'', ''ordered'', ''result'', ''error'', ''interface{}''] \<and>
     (case Resolve n st of None \<Rightarrow> True
      | Some sy \<Rightarrow> symKind sy \<noteq> SymbolInterface \<and>
          (case symType sy of None \<Rightarrow> True | Some t \<Rightarrow> tiKind t \<noteq> TypeKindVariant))"

fun rigid :: "SymbolTable \<Rightarrow> TypeAnnotation \<Rightarrow> bool" where
  "rigid st (PrimitiveType _ n) \<longleftrightarrow> tiKind (primitiveTypeFromString n) \<noteq> TypeKindUnknown"
| "rigid st (NamedType _ n) \<longleftrightarrow> plain_type_name st n"
| "rigid st (ReferenceType _ e) \<longleftrightarrow> rigid st e"
| "rigid st (ListType _ e) \<longleftrightarrow> rigid st e"
| "rigid st (ChannelType _ e) \<longleftrightarrow> rigid st e"
| "rigid st (MapType _ k v) \<longleftrightarrow> rigid st k \<and> rigid st v"
| "rigid st _ \<longleftrightarrow> False"

fun same_structure :: "TypeAnnotation \<Rightarrow> TypeAnnotation \<Rightarrow> bool" where
  "same_structure (PrimitiveType _ n) (PrimitiveType _ m) \<longleftrightarrow>
     tiKind (primitiveTypeFromString n) = tiKind (primitiveTypeFromString m)"
| "same_structure (NamedType _ n) (NamedType _ m) \<longleftrightarrow> n = m"
| "same_structure (ReferenceType _ e) (ReferenceType _ f) \<longleftrightarrow> same_structure e f"
| "same_structure (ListType _ e) (ListType _ f) \<longleftrightarrow> same_structure e f"
| "same_structure (ChannelType _ e) (ChannelType _ f) \<longleftrightarrow> same_structure e f"
| "same_structure (MapType _ k v) (MapType _ l w) \<longleftrightarrow> same_structure k l \<and> same_structure v w"
| "same_structure _ _ \<longleftrightarrow> False"

lemma known_interfaces_qualified: "IsKnownInterface n \<Longrightarrow> contains_char n CHR ''.''"
proof -
  have "list_all (\<lambda>n. contains_char n CHR ''.'') generatedGoInterfaces" by code_simp
  then show "IsKnownInterface n \<Longrightarrow> contains_char n CHR ''.''"
    by (simp add: IsKnownInterface_def list_all_iff)
qed

declare typeAnnotationToTypeInfo.simps(3) [simp del]

lemma plain_info [simp]:
  "plain_type_name st n \<Longrightarrow> typeAnnotationToTypeInfo st (NamedType t n) = namedType TypeKindNamed n"
  using known_interfaces_qualified [of n]
  by (auto simp: plain_type_name_def typeAnnotationToTypeInfo.simps(3) split: option.splits)

lemma plain_not_special:
  "plain_type_name st n \<Longrightarrow> n \<noteq> ''any'' \<and> n \<noteq> ''any2'' \<and> n \<noteq> ''ordered'' \<and> n \<noteq> ''result'' \<and>
     n \<noteq> ''error'' \<and> n \<noteq> ''interface{}'' \<and> n \<noteq> ''time.Duration'' \<and> \<not> contains_char n CHR ''.''"
proof -
  have "contains_char ''time.Duration'' CHR ''.''" by (simp add: contains_char_def)
  then show "plain_type_name st n \<Longrightarrow> ?thesis" unfolding plain_type_name_def by force
qed

lemma index_char_absent: "\<not> contains_char s c \<Longrightarrow> index_char s c = None"
proof -
  assume "\<not> contains_char s c"
  then have "takeWhile (\<lambda>x. x \<noteq> c) s = s"
    unfolding contains_char_def by (simp only: takeWhile_eq_all_conv) blast
  then have "length (takeWhile (\<lambda>x. x \<noteq> c) s) = length s" by (rule arg_cong)
  then show ?thesis by (simp add: index_char_def)
qed

lemma unqualified_plain: "\<not> contains_char n CHR ''.'' \<Longrightarrow> unqualifiedName n = n"
  using index_char_absent [of "rev n"]
  by (simp add: unqualifiedName_def last_index_char_def contains_char_def)

lemma resolve_unqualified: "\<not> contains_char n CHR ''.'' \<Longrightarrow> resolveQualifiedName n a = n"
  by (simp add: resolveQualifiedName_def index_char_absent split: option.splits)

lemma names_plain:
  assumes "plain_type_name (symbolTable a) n" "plain_type_name (symbolTable a) m"
  shows "namesCompatible a n m \<longleftrightarrow> n = m"
proof -
  have "\<not> isVariantCaseOf c p (symbolTable a)" if "plain_type_name (symbolTable a) p" for c p
    using that by (auto simp: isVariantCaseOf_def plain_type_name_def split: option.splits)
  then show ?thesis using assms plain_not_special [OF assms(1)] plain_not_special [OF assms(2)]
    by (simp add: namesCompatible_def unqualified_plain resolve_unqualified)
qed

text \<open>A rigid type is of an ordinary kind and its name, if it has one, is plain.\<close>

definition ordinary :: "SymbolTable \<Rightarrow> TypeInfo \<Rightarrow> bool" where
  "ordinary st ti \<longleftrightarrow>
     tiKind ti \<notin> {TypeKindUnknown, TypeKindNil, TypeKindEnum, TypeKindVariant, TypeKindStruct, TypeKindInterface}
     \<and> (tiKind ti = TypeKindNamed \<longrightarrow> plain_type_name st (tiName ti))"

lemma primitive_kind:
  "tiKind (primitiveTypeFromString n) = TypeKindInt \<or> tiKind (primitiveTypeFromString n) = TypeKindFloat \<or>
   tiKind (primitiveTypeFromString n) = TypeKindString \<or> tiKind (primitiveTypeFromString n) = TypeKindBool \<or>
   tiKind (primitiveTypeFromString n) = TypeKindUnknown"
  by (simp add: primitiveTypeFromString_def)

lemma rigid_ordinary: "rigid st t \<Longrightarrow> ordinary st (typeAnnotationToTypeInfo st t)"
proof (cases t)
  case (PrimitiveType s n)
  then show "rigid st t \<Longrightarrow> ?thesis" using primitive_kind [of n] by (auto simp: ordinary_def)
qed (simp_all add: ordinary_def)

lemma ordinary_accepts: "ordinary st t1 \<Longrightarrow> ordinary st t2 \<Longrightarrow> \<not> acceptsAny t1 t2"
  using plain_not_special [of st "tiName t1"] plain_not_special [of st "tiName t2"]
  unfolding acceptsAny_def isPlaceholderType_def ordinary_def by blast

lemma ordinary_mismatch:
  assumes "ordinary (symbolTable a) t1" "ordinary (symbolTable a) t2" "tiKind t1 \<noteq> tiKind t2"
  shows "\<not> typesCompatible a (Some t1) (Some t2)"
proof -
  have "tiKind t = TypeKindNamed \<longrightarrow> \<not> contains_char (tiName t) CHR ''.''" if "ordinary (symbolTable a) t" for t
    using that plain_not_special by (auto simp: ordinary_def)
  then have "\<not> kindsCompatible a t1 t2"
    using assms unfolding kindsCompatible_iff ordinary_def by auto
  then show ?thesis using assms ordinary_accepts by (simp add: typesCompatible_Some)
qed

lemma ordinary_same:
  assumes "ordinary (symbolTable a) t1" "ordinary (symbolTable a) t2" "tiKind t1 = tiKind t2"
  shows "typesCompatible a (Some t1) (Some t2) \<longleftrightarrow>
     (if tiKind t1 \<in> {TypeKindList, TypeKindChannel, TypeKindReference} then
        ElementType t1 = None \<or> ElementType t2 = None \<or> typesCompatible a (ElementType t1) (ElementType t2)
      else if tiKind t1 = TypeKindMap then
        KeyType t1 = None \<or> KeyType t2 = None \<or> ValueType t1 = None \<or> ValueType t2 = None \<or>
        (typesCompatible a (KeyType t1) (KeyType t2) \<and> typesCompatible a (ValueType t1) (ValueType t2))
      else tiKind t1 = TypeKindNamed \<longrightarrow> tiName t1 = tiName t2)"
proof (cases "tiKind t1 = TypeKindNamed")
  case True
  then have "plain_type_name (symbolTable a) (tiName t1)" "plain_type_name (symbolTable a) (tiName t2)"
    using assms by (simp_all add: ordinary_def)
  then show ?thesis using True assms(3) ordinary_accepts [OF assms(1,2)]
    by (simp add: typesCompatible_Some names_plain)
next
  case False
  moreover have "tiKind t1 \<noteq> TypeKindEnum" using assms(1) by (simp add: ordinary_def)
  ultimately show ?thesis using assms(3) ordinary_accepts [OF assms(1,2)]
    by (subst typesCompatible_Some) (simp split: option.split)
qed

text \<open>The first constructors of two annotations agree in kind exactly as their types do.\<close>

fun head_kind :: "TypeAnnotation \<Rightarrow> TypeKind" where
  "head_kind (PrimitiveType _ n) = tiKind (primitiveTypeFromString n)"
| "head_kind (NamedType _ n) = TypeKindNamed"
| "head_kind (ReferenceType _ e) = TypeKindReference"
| "head_kind (ListType _ e) = TypeKindList"
| "head_kind (ChannelType _ e) = TypeKindChannel"
| "head_kind (MapType _ k v) = TypeKindMap"
| "head_kind _ = TypeKindUnknown"

lemma rigid_head: "rigid st t \<Longrightarrow> tiKind (typeAnnotationToTypeInfo st t) = head_kind t"
  by (cases t) simp_all

lemma same_structure_head: "same_structure t1 t2 \<Longrightarrow> head_kind t1 = head_kind t2"
  by (induction t1 t2 rule: same_structure.induct) simp_all

lemma compat_head:
  assumes "rigid (symbolTable a) t1" "rigid (symbolTable a) t2"
    and "typesCompatible a (Some (typeAnnotationToTypeInfo (symbolTable a) t1))
      (Some (typeAnnotationToTypeInfo (symbolTable a) t2))"
  shows "head_kind t1 = head_kind t2"
  using ordinary_mismatch [OF rigid_ordinary [OF assms(1)] rigid_ordinary [OF assms(2)]] assms
  by (auto simp: rigid_head)

lemma primitive_kind_not:
  "tiKind (primitiveTypeFromString n) \<noteq> TypeKindNamed"
  "tiKind (primitiveTypeFromString n) \<noteq> TypeKindReference"
  "tiKind (primitiveTypeFromString n) \<noteq> TypeKindList"
  "tiKind (primitiveTypeFromString n) \<noteq> TypeKindChannel"
  "tiKind (primitiveTypeFromString n) \<noteq> TypeKindMap"
  by (simp_all add: primitiveTypeFromString_def)

lemma head_kind_inv:
  "head_kind t = TypeKindNamed \<Longrightarrow> \<exists>s n. t = NamedType s n"
  "head_kind t = TypeKindReference \<Longrightarrow> \<exists>s e. t = ReferenceType s e"
  "head_kind t = TypeKindList \<Longrightarrow> \<exists>s e. t = ListType s e"
  "head_kind t = TypeKindChannel \<Longrightarrow> \<exists>s e. t = ChannelType s e"
  "head_kind t = TypeKindMap \<Longrightarrow> \<exists>s k v. t = MapType s k v"
  "head_kind t = tiKind (primitiveTypeFromString m) \<Longrightarrow> rigid st t \<Longrightarrow> \<exists>s n. t = PrimitiveType s n"
  by (cases t; simp add: primitive_kind_not primitive_kind_not [symmetric])+

text \<open>The result for two rigid annotations, with the recursive results still to be filled in.\<close>

abbreviation compat_types :: "analyzer \<Rightarrow> TypeAnnotation \<Rightarrow> TypeAnnotation \<Rightarrow> bool" where
  "compat_types a t1 t2 \<equiv> typesCompatible a (Some (typeAnnotationToTypeInfo (symbolTable a) t1))
     (Some (typeAnnotationToTypeInfo (symbolTable a) t2))"

lemma compat_other_head:
  assumes "rigid (symbolTable a) t1" "rigid (symbolTable a) t2" "head_kind t1 \<noteq> head_kind t2"
  shows "\<not> compat_types a t1 t2 \<and> \<not> same_structure t1 t2"
  using compat_head [OF assms(1,2)] same_structure_head [of t1 t2] assms(3) by auto

lemmas compat_same = ordinary_same [OF rigid_ordinary rigid_ordinary]

lemma compat_rigid:
  "rigid (symbolTable a) t1 \<Longrightarrow> rigid (symbolTable a) t2 \<Longrightarrow> compat_types a t1 t2 \<longleftrightarrow> same_structure t1 t2"
proof (induction t1 arbitrary: t2)
  case (PrimitiveType s n)
  show ?case
  proof (cases "head_kind (PrimitiveType s n) = head_kind t2")
    case True
    then obtain r m where "t2 = PrimitiveType r m" using head_kind_inv(6) [of t2 n] PrimitiveType by fastforce
    then show ?thesis using True compat_same [of a "PrimitiveType s n" t2] PrimitiveType
      by (simp add: primitive_kind_not)
  qed (use compat_other_head PrimitiveType in blast)
next
  case (NamedType s n)
  show ?case
  proof (cases "head_kind (NamedType s n) = head_kind t2")
    case True
    then obtain r m where "t2 = NamedType r m" using head_kind_inv(1) [of t2] by auto
    then show ?thesis using compat_same [of a "NamedType s n" t2] NamedType by simp
  qed (use compat_other_head NamedType in blast)
next
  case (ReferenceType s e)
  show ?case
  proof (cases "head_kind (ReferenceType s e) = head_kind t2")
    case True
    then obtain r f where "t2 = ReferenceType r f" using head_kind_inv(2) [of t2] by auto
    then show ?thesis using compat_same [of a "ReferenceType s e" t2] ReferenceType by simp
  qed (use compat_other_head ReferenceType in blast)
next
  case (ListType s e)
  show ?case
  proof (cases "head_kind (ListType s e) = head_kind t2")
    case True
    then obtain r f where "t2 = ListType r f" using head_kind_inv(3) [of t2] by auto
    then show ?thesis using compat_same [of a "ListType s e" t2] ListType by simp
  qed (use compat_other_head ListType in blast)
next
  case (ChannelType s e)
  show ?case
  proof (cases "head_kind (ChannelType s e) = head_kind t2")
    case True
    then obtain r f where "t2 = ChannelType r f" using head_kind_inv(4) [of t2] by auto
    then show ?thesis using compat_same [of a "ChannelType s e" t2] ChannelType by simp
  qed (use compat_other_head ChannelType in blast)
next
  case (MapType s k v)
  show ?case
  proof (cases "head_kind (MapType s k v) = head_kind t2")
    case True
    then obtain r l w where "t2 = MapType r l w" using head_kind_inv(5) [of t2] by auto
    then show ?thesis using compat_same [of a "MapType s k v" t2] MapType by simp
  qed (use compat_other_head MapType in blast)
qed simp_all

section \<open>Validation\<close>

text \<open>The named types of an annotation in the order of their check, and what the check says of one.\<close>

fun named_in :: "TypeAnnotation \<Rightarrow> (token \<times> string) list" where
  "named_in (NamedType t n) = [(t, n)]"
| "named_in (ReferenceType _ e) = named_in e"
| "named_in (ListType _ e) = named_in e"
| "named_in (ChannelType _ e) = named_in e"
| "named_in (MapType _ k v) = named_in k @ named_in v"
| "named_in (FunctionType _ ps rs) = concat (map named_in ps) @ concat (map named_in rs)"
| "named_in _ = []"

definition type_complaint :: "SymbolTable \<Rightarrow> string \<Rightarrow> string option" where
  "type_complaint st n =
     (if n \<in> set builtInTypes then None
      else if contains_char n CHR ''.'' then
        (if length (split_char CHR ''.'' n) \<noteq> 2 then Some (''invalid qualified type '' @ squoted n)
         else if Resolve (hd (split_char CHR ''.'' n)) st = None then
           Some (''package '' @ squoted (hd (split_char CHR ''.'' n)) @ '' not imported (for type '' @ squoted n @ '')'')
         else None)
      else if \<exists>sy. Resolve n st = Some sy \<and> symKind sy \<in> {SymbolType, SymbolInterface} then None
      else Some (''undefined type '' @ squoted n))"

definition type_error :: "SymbolTable \<Rightarrow> token \<times> string \<Rightarrow> string option" where
  "type_error st x = map_option (positioned (token_pos (fst x))) (type_complaint st (snd x))"

definition option_list :: "'a option \<Rightarrow> 'a list" where
  "option_list x = (case x of None \<Rightarrow> [] | Some y \<Rightarrow> [y])"

lemma sem_error_fields [simp]:
  "symbolTable (sem_error p m a) = symbolTable a" "semErrors (sem_error p m a) = semErrors a @ [positioned p m]"
  by (simp_all add: sem_error_def)

lemma recordLint_fields [simp]:
  "symbolTable (recordLint k p m a) = symbolTable a" "semErrors (recordLint k p m a) = semErrors a"
  by (simp_all add: recordLint_def)

lemma validateNamedType_spec:
  "symbolTable (validateNamedType t n a) = symbolTable a \<and>
   semErrors (validateNamedType t n a) = semErrors a @ option_list (type_error (symbolTable a) (t, n))"
proof -
  have h: "hd xs = xs ! 0" if "length xs = 2" for xs :: "string list"
    using that by (cases xs) auto
  show ?thesis
    by (auto simp: validateNamedType_def type_error_def type_complaint_def option_list_def Let_def h
        split: option.splits)
qed

lemma validate_fold:
  "validateTypeAnnotation t a = fold (\<lambda>(t, n). validateNamedType t n) (named_in t) a"
proof (induction t arbitrary: a)
  case (FunctionType s ps rs)
  have "fold validateTypeAnnotation ts b = fold (\<lambda>(t, n). validateNamedType t n) (concat (map named_in ts)) b"
    if "\<And>t a. t \<in> set ts \<Longrightarrow> validateTypeAnnotation t a = fold (\<lambda>(t, n). validateNamedType t n) (named_in t) a"
    for ts b
    using that by (induction ts arbitrary: b) auto
  then show ?case using FunctionType by simp
qed simp_all

lemma validate_names:
  "symbolTable (fold (\<lambda>(t, n). validateNamedType t n) xs a) = symbolTable a \<and>
   semErrors (fold (\<lambda>(t, n). validateNamedType t n) xs a) =
     semErrors a @ concat (map (\<lambda>x. option_list (type_error (symbolTable a) x)) xs)"
  by (induction xs arbitrary: a) (auto simp: validateNamedType_spec)

section \<open>Properties\<close>

text \<open>C22: Compatibility of types does not depend on the order of the two types, and every type that is
  present is compatible with itself.\<close>

theorem compat_reflexive_symmetric:
  "(typesCompatible a t1 t2 \<longleftrightarrow> typesCompatible a t2 t1) \<and> typesCompatible a (Some t) (Some t)"
  using typesCompatible_sym typesCompatible_refl by blast

text \<open>C18: Without wildcards compatibility is equality of structure: for annotations built from
  primitives, plain names, lists, maps, channels and references, \<^verbatim>\<open>typesCompatible\<close> on the
  converted types holds exactly if the annotations have the same shape, with equal names and
  primitives of the same kind.\<close>

theorem compat_decides_structure:
  assumes "rigid (symbolTable a) t1" "rigid (symbolTable a) t2"
  shows "typesCompatible a (Some (typeAnnotationToTypeInfo (symbolTable a) t1))
    (Some (typeAnnotationToTypeInfo (symbolTable a) t2)) \<longleftrightarrow> same_structure t1 t2"
  using assms by (rule compat_rigid)

definition sample_analyzer :: analyzer where
  "sample_analyzer = \<lparr>symbolTable = NewSymbolTable, semErrors = [], semWarnings = [],
     DeprecatedTypes = [], importAliases = None, lintCandidates = []\<rparr>"

lemma Resolve_new [simp]: "Resolve n NewSymbolTable = None"
  using Resolve_frames [OF table_ok_new] by (simp add: table_frames_new)

theorem compat_decides_structure_witness:
  "\<not> typesCompatible sample_analyzer
     (Some (typeAnnotationToTypeInfo NewSymbolTable (ListType no_token (PrimitiveType no_token ''int''))))
     (Some (typeAnnotationToTypeInfo NewSymbolTable (ListType no_token (NamedType no_token ''User''))))"
  using compat_decides_structure [of sample_analyzer "ListType no_token (PrimitiveType no_token ''int'')"
      "ListType no_token (NamedType no_token ''User'')"]
  by (simp add: sample_analyzer_def plain_type_name_def contains_char_def primitiveTypeFromString_def)

text \<open>C29: Validating an annotation reports exactly the named types in it that are not declared, each
  at its position and in order, and leaves the symbol table alone: an annotation is accepted if and
  only if every name in it is built in, qualified by an imported package, or a declared type or
  interface.\<close>

theorem validate_reports_undeclared:
  "semErrors (validateTypeAnnotation t a) =
     semErrors a @ concat (map (\<lambda>x. option_list (type_error (symbolTable a) x)) (named_in t)) \<and>
   symbolTable (validateTypeAnnotation t a) = symbolTable a"
  by (simp add: validate_fold validate_names)

fun only_named :: "SymbolTable \<Rightarrow> TypeAnnotation \<Rightarrow> bool" where
  "only_named st (NamedType _ n) \<longleftrightarrow> is_interface st n \<longrightarrow> n \<noteq> []"
| "only_named st (ReferenceType _ e) \<longleftrightarrow> only_named st e"
| "only_named st (ListType _ e) \<longleftrightarrow> only_named st e"
| "only_named st (ChannelType _ e) \<longleftrightarrow> only_named st e"
| "only_named st (MapType _ k v) \<longleftrightarrow> only_named st k \<and> only_named st v"
| "only_named st _ \<longleftrightarrow> False"

text \<open>The names of interfaces as primitives.\<close>

fun interfaces_primitive :: "SymbolTable \<Rightarrow> TypeAnnotation \<Rightarrow> TypeAnnotation" where
  "interfaces_primitive st (NamedType s n) = (if is_interface st n then PrimitiveType s n else NamedType s n)"
| "interfaces_primitive st (ReferenceType s e) = ReferenceType s (interfaces_primitive st e)"
| "interfaces_primitive st (ListType s e) = ListType s (interfaces_primitive st e)"
| "interfaces_primitive st (ChannelType s e) = ChannelType s (interfaces_primitive st e)"
| "interfaces_primitive st (MapType s k v) = MapType s (interfaces_primitive st k) (interfaces_primitive st v)"
| "interfaces_primitive st t = t"

lemma erase_Nil: "erase t = NilType \<longleftrightarrow> t = NilType" "NilType = erase t \<longleftrightarrow> t = NilType"
  by (cases t; simp)+

lemma interfaces_primitive_Nil: "interfaces_primitive st t = NilType \<longleftrightarrow> t = NilType"
  by (cases t) simp_all

lemma annotation_recovered_aux:
  "erase (typeInfoToTypeAnnotation (Some (typeAnnotationToTypeInfo st t))) =
     (if only_named st t then erase (interfaces_primitive st t) else NilType)"
proof (induction t)
  case (PrimitiveType s n)
  then show ?case by (simp add: primitiveTypeFromString_def)
next
  case (NamedType s n)
  show ?case by (auto simp: named_type_kind simp del: typeAnnotationToTypeInfo.simps)
qed (auto simp: Let_def erase_Nil interfaces_primitive_Nil split: if_splits)

text \<open>C30: Converting an annotation to a type and back gives the annotation, except for its source
  positions and that the name of an interface comes back as a primitive, if it is built from
  (not empty) names by references, lists, channels and maps only; as soon as a primitive or a function
  type occurs in it the result is the nil annotation, because a primitive's type keeps no name.\<close>

theorem annotation_recovered:
  "erase (typeInfoToTypeAnnotation (Some (typeAnnotationToTypeInfo st t))) =
    (if only_named st t then erase (interfaces_primitive st t) else NilType)"
  by (rule annotation_recovered_aux)

end
