(* ===== verification/Ir.thy ===== *)
theory Ir
  imports GoText
begin

text \<open>
  \<^verbatim>\<open>internal/ir/ir.go\<close>: the nodes into which pipes and \<^verbatim>\<open>onerr\<close> are lowered. A \<^verbatim>\<open>*Block\<close> is an optional
  list of nodes, \<^term>\<open>None\<close> the nil pointer. The constructors whose names the syntax tree uses too
  have the prefix \<open>Ir\<close>.
\<close>

record SourcePos =
  srcLine :: int
  srcFile :: string

definition no_pos :: SourcePos where
  "no_pos = \<lparr>srcLine = 0, srcFile = []\<rparr>"

datatype Node =
    IrBlock "Node list"
  | Assign (assignNames: "string list") (assignExpr: string) (Walrus: bool) SourcePos
  | VarDecl string string string SourcePos
  | IfErrCheck string "Node list option" SourcePos
  | Goto string
  | Label string
  | ScopedBlock "Node list option"
  | RawStmt string SourcePos
  | IrReturnStmt "string list" SourcePos
  | IrExprStmt string SourcePos
  | IrComment string

type_synonym Block = "Node list"

text \<open>\<^verbatim>\<open>func (b *Block) Add\<close> and \<^verbatim>\<open>AddAll\<close>.\<close>

definition Add :: "Block \<Rightarrow> Node \<Rightarrow> Block" where
  "Add b n = b @ [n]"

definition AddAll :: "Block \<Rightarrow> Block option \<Rightarrow> Block" where
  "AddAll b other = (case other of None \<Rightarrow> b | Some ns \<Rightarrow> b @ ns)"

end
