(* ===== verification/Generator.thy ===== *)
theory Generator
  imports Ir Syntax SemTypes
begin

text \<open>
  The state of \<^verbatim>\<open>internal/codegen\<close> and what every part of it uses: writing lines, warnings, imports,
  fresh names, \<^verbatim>\<open>//line\<close> directives, and what is known about the results of an expression.
\<close>

section \<open>Paths\<close>

text \<open>\<^verbatim>\<open>filepath.Clean\<close> and \<^verbatim>\<open>filepath.Rel\<close> on Unix, on the elements of a path. A cleaned path is
  rooted or not, and its elements are not empty, not \<^verbatim>\<open>.\<close>, and \<^verbatim>\<open>..\<close> only at the front of a path
  that is not rooted.\<close>

fun clean_elems :: "bool \<Rightarrow> string list \<Rightarrow> string list \<Rightarrow> string list" where
  "clean_elems rooted acc [] = rev acc"
| "clean_elems rooted acc (e # es) =
     (if e = [] \<or> e = ''.'' then clean_elems rooted acc es
      else if e = ''..'' then
        (if acc \<noteq> [] \<and> hd acc \<noteq> ''..'' then clean_elems rooted (tl acc) es
         else if rooted then clean_elems rooted acc es
         else clean_elems rooted (e # acc) es)
      else clean_elems rooted (e # acc) es)"

definition path_elems :: "string \<Rightarrow> bool \<times> string list" where
  "path_elems p =
     (let rooted = has_prefix p ''/''
      in (rooted, clean_elems rooted [] (split_char CHR ''/'' p)))"

fun rel_elems :: "string list \<Rightarrow> string list \<Rightarrow> string list option" where
  "rel_elems (b # bs) (t # ts) =
     (if b = t then rel_elems bs ts
      else if b = ''..'' then None
      else Some (replicate (length (b # bs)) ''..'' @ t # ts))"
| "rel_elems [] ts = Some ts"
| "rel_elems (b # bs) [] = (if b = ''..'' then None else Some (replicate (length (b # bs)) ''..''))"

definition filepath_Rel :: "string \<Rightarrow> string \<Rightarrow> string option" where
  "filepath_Rel basepath targpath =
     (let (rb, bs) = path_elems basepath; (rt, ts) = path_elems targpath
      in if rb = rt \<and> bs = ts then Some ''.''
         else if rb \<noteq> rt then None
         else map_option (\<lambda>es. go_join es ''/'') (rel_elems bs ts))"

section \<open>The generator\<close>

text \<open>\<^verbatim>\<open>type FuncDefaults struct\<close>; a missing default value is \<open>NilExpr\<close>.\<close>

record FuncDefaults =
  fdNames :: "string list"
  fdValues :: "Expression list"
  fdVariadic :: bool

text \<open>\<^verbatim>\<open>type Generator struct\<close>. A Go map is an association list whose first entry for a key counts
  (a set of names a list), and a map that may be nil is optional. The two maps of the analysis
  are keyed by nodes of the tree; two nodes with equal fields, source positions included, are
  identified. The last field is none of the struct: it is set where the code panics, and nothing that a
  generator holds after that has a meaning.\<close>

record generator =
  program :: Program
  genOutput :: string
  indent :: int
  placeholderMap :: "(string \<times> string) list option"
  autoImports :: "string list"
  pkgAliases :: "(string \<times> string) list"
  funcDefaults :: "(string \<times> FuncDefaults) list"
  isStdlibIter :: bool
  sourceFile :: string
  currentFuncName :: string
  currentReturnTypes :: "TypeAnnotation list"
  processingReturnType :: bool
  tempCounter :: nat
  exprReturnCounts :: "(Expression \<times> int) list option"
  exprTypes :: "(Expression \<times> TypeInfo option) list option"
  mcpTarget :: bool
  currentOnErrVar :: string
  currentOnErrAlias :: string
  currentReturnIndex :: int
  stdlibModuleBase :: string
  reservedNames :: "string list"
  varMap :: "(string \<times> string) list option"
  warnings :: "string list"
  enumTypes :: "string list"
  variantCaseTypes :: "(string \<times> string) list"
  stripLineDirectives :: bool
  projectDir :: string
  panicked :: bool

definition New_generator :: "Program \<Rightarrow> generator" where
  "New_generator p = \<lparr>program = p, genOutput = [], indent = 0, placeholderMap = None, autoImports = [],
     pkgAliases = [], funcDefaults = [], isStdlibIter = False, sourceFile = [], currentFuncName = [],
     currentReturnTypes = [],
     processingReturnType = False, tempCounter = 0, exprReturnCounts = None, exprTypes = None,
     mcpTarget = False, currentOnErrVar = [], currentOnErrAlias = [], currentReturnIndex = - 1,
     stdlibModuleBase = ''github.com/kukichalang/kukicha'', reservedNames = [], varMap = Some [],
     warnings = [], enumTypes = [], variantCaseTypes = [], stripLineDirectives = False, projectDir = [],
     panicked = False\<rparr>"

text \<open>\<^verbatim>\<open>childGenerator\<close>. In Go the child shares the map of automatic imports with its parent; here it starts with
  the parent's, and \<open>in_child\<close> of the theory \<open>GenMonad\<close>, the only use, hands it back.\<close>

definition childGenerator :: "int \<Rightarrow> generator \<Rightarrow> generator" where
  "childGenerator extraIndent g = \<lparr>program = program g, genOutput = [], indent = indent g + extraIndent,
     placeholderMap = placeholderMap g, autoImports = autoImports g, pkgAliases = pkgAliases g,
     funcDefaults = funcDefaults g, isStdlibIter = isStdlibIter g, sourceFile = sourceFile g, currentFuncName = [],
     currentReturnTypes = [],
     processingReturnType = False, tempCounter = 0, exprReturnCounts = exprReturnCounts g,
     exprTypes = exprTypes g, mcpTarget = False, currentOnErrVar = [], currentOnErrAlias = [],
     currentReturnIndex = - 1, stdlibModuleBase = stdlibModuleBase g, reservedNames = reservedNames g,
     varMap = None, warnings = [], enumTypes = enumTypes g, variantCaseTypes = [],
     stripLineDirectives = stripLineDirectives g, projectDir = projectDir g,
     panicked = panicked g\<rparr>"

definition gen_warn :: "Position \<Rightarrow> string \<Rightarrow> generator \<Rightarrow> generator" where
  "gen_warn p message g =
     g\<lparr>warnings := warnings g @ [if posFile p \<noteq> [] \<and> posLine p > 0 then positioned p message else message]\<rparr>"

definition addImport :: "string \<Rightarrow> generator \<Rightarrow> generator" where
  "addImport path g = g\<lparr>autoImports := path # autoImports g\<rparr>"

section \<open>Output\<close>

text \<open>\<^verbatim>\<open>strings.Repeat\<close> panics on a negative count; \<open>nat\<close> makes it the empty string, and
  emission leaves the indent as it found it (\<open>Emit.emission_is_rendering\<close>).\<close>

definition indentStr :: "generator \<Rightarrow> string" where
  "indentStr g = str_repeat [CHR 0x09] (nat (indent g))"

definition gen_write :: "string \<Rightarrow> generator \<Rightarrow> generator" where
  "gen_write s g = g\<lparr>genOutput := genOutput g @ s\<rparr>"

definition writeLine :: "string \<Rightarrow> generator \<Rightarrow> generator" where
  "writeLine s g =
     (let g1 = (if s \<noteq> [] then gen_write (indentStr g @ s) g else g)
      in gen_write [CHR 0x0A] g1)"

definition line_directive :: "string \<Rightarrow> int \<Rightarrow> generator \<Rightarrow> string" where
  "line_directive fname n g =
     (if \<not> stripLineDirectives g \<and> n > 0 \<and> fname \<noteq> [] then
        (let shown = (if projectDir g \<noteq> []
                      then (case filepath_Rel (projectDir g) fname of Some r \<Rightarrow> r | None \<Rightarrow> fname)
                      else fname)
         in ''//line '' @ shown @ '':'' @ itoa n @ [CHR 0x0A])
      else [])"

definition emitLineDirective :: "Position \<Rightarrow> generator \<Rightarrow> generator" where
  "emitLineDirective p g = gen_write (line_directive (posFile p) (posLine p) g) g"

section \<open>Fresh names\<close>

definition temp_name :: "string \<Rightarrow> nat \<Rightarrow> string" where
  "temp_name pre n = pre @ ''_'' @ utoa n"

lemma temp_name_suffix:
  "takeWhile (\<lambda>c. c \<noteq> CHR ''_'') (rev (temp_name p n)) = rev (utoa n)"
proof -
  have "rev (temp_name p n) = rev (utoa n) @ CHR ''_'' # rev p" by (simp add: temp_name_def)
  then show ?thesis using utoa_no_underscore [of n] by (auto simp: takeWhile_append)
qed

lemma temp_name_inj: "temp_name p m = temp_name q n \<Longrightarrow> p = q \<and> m = n"
proof -
  assume eq: "temp_name p m = temp_name q n"
  then have "rev (utoa m) = rev (utoa n)" using temp_name_suffix by metis
  then have "m = n" by (simp add: utoa_inj)
  then show ?thesis using eq by (simp add: temp_name_def)
qed

text \<open>\<^verbatim>\<open>uniqueId\<close> counts until the name is not reserved. Different numbers give different names, so
  only finitely many candidates are reserved.\<close>

definition reserved_after :: "string \<Rightarrow> generator \<Rightarrow> nat set" where
  "reserved_after pre g = {n. tempCounter g < n \<and> temp_name pre n \<in> set (reservedNames g)}"

lemma finite_reserved_after: "finite (reserved_after pre g)"
proof -
  have "inj_on (temp_name pre) (reserved_after pre g)"
    using temp_name_inj by (auto intro: inj_onI)
  moreover have "temp_name pre ` reserved_after pre g \<subseteq> set (reservedNames g)"
    by (auto simp: reserved_after_def)
  ultimately show ?thesis using finite_subset finite_imageD by blast
qed

function uniqueId :: "string \<Rightarrow> generator \<Rightarrow> string \<times> generator" where
  "uniqueId pre g =
     (let g1 = g\<lparr>tempCounter := tempCounter g + 1\<rparr>;
          name = temp_name pre (tempCounter g1)
      in if name \<in> set (reservedNames g1) then uniqueId pre g1 else (name, g1))"
  by pat_completeness auto
termination
proof (relation "measure (\<lambda>(pre, g). card (reserved_after pre g))", goal_cases)
  case (2 pre g g1 name)
  then have "reserved_after pre g1 \<subset> reserved_after pre g"
    by (auto simp: reserved_after_def)
  then show ?case by (simp add: psubset_card_mono finite_reserved_after)
qed simp

declare uniqueId.simps [simp del]

text \<open>What a call of \<^verbatim>\<open>uniqueId\<close> leaves: a name that is not reserved, made from a number above the
  counter before and equal to the counter after; nothing else changes.\<close>

lemma uniqueId_spec:
  obtains n where "uniqueId pre g = (temp_name pre n, g\<lparr>tempCounter := n\<rparr>)" "tempCounter g < n"
    "temp_name pre n \<notin> set (reservedNames g)"
proof (induction pre g arbitrary: thesis rule: uniqueId.induct)
  case (1 pre g)
  let ?g = "g\<lparr>tempCounter := tempCounter g + 1\<rparr>"
  show ?case
  proof (cases "temp_name pre (tempCounter ?g) \<in> set (reservedNames ?g)")
    case True
    then have "uniqueId pre g = uniqueId pre ?g"
      by (subst uniqueId.simps) (simp add: Let_def)
    moreover obtain n where "uniqueId pre ?g = (temp_name pre n, ?g\<lparr>tempCounter := n\<rparr>)"
      "tempCounter ?g < n" "temp_name pre n \<notin> set (reservedNames ?g)"
      using 1(1) [OF refl refl] True by blast
    ultimately show ?thesis using 1(2) [of n] by simp
  next
    case False
    then have "uniqueId pre g = (temp_name pre (tempCounter g + 1), ?g)"
      by (subst uniqueId.simps) (simp add: Let_def)
    then show ?thesis using False 1(2) [of "tempCounter g + 1"] by simp
  qed
qed

text \<open>A sequence of requests for fresh names.\<close>

fun drawIds :: "string list \<Rightarrow> generator \<Rightarrow> string list \<times> generator" where
  "drawIds [] g = ([], g)"
| "drawIds (p # ps) g = (let (x, g1) = uniqueId p g; (xs, g2) = drawIds ps g1 in (x # xs, g2))"

lemma drawIds_above:
  "drawIds ps g = (xs, g') \<Longrightarrow> x \<in> set xs \<Longrightarrow>
   x \<notin> set (reservedNames g) \<and> (\<exists>p n. x = temp_name p n \<and> tempCounter g < n)"
proof (induction ps arbitrary: g xs)
  case (Cons p ps)
  obtain n where n: "uniqueId p g = (temp_name p n, g\<lparr>tempCounter := n\<rparr>)" "tempCounter g < n"
    "temp_name p n \<notin> set (reservedNames g)"
    by (rule uniqueId_spec)
  obtain ys where ys: "drawIds ps (g\<lparr>tempCounter := n\<rparr>) = (ys, g')" "xs = temp_name p n # ys"
    using Cons.prems(1) n(1) by (auto split: prod.splits)
  show ?case
  proof (cases "x = temp_name p n")
    case True then show ?thesis using n by blast
  next
    case False
    then show ?thesis using Cons.IH [OF ys(1)] Cons.prems(2) ys(2) n(2) by fastforce
  qed
qed simp

text \<open>
  Claim C26. Fresh names are fresh: whatever names a generator is asked for, and in whatever order the
  prefixes come, the names it gives are pairwise different and none of them is a name that the user's
  program reserves.
\<close>

theorem fresh_names_distinct:
  "distinct (fst (drawIds ps g)) \<and> set (fst (drawIds ps g)) \<inter> set (reservedNames g) = {}"
proof (induction ps arbitrary: g)
  case (Cons p ps)
  obtain n where n: "uniqueId p g = (temp_name p n, g\<lparr>tempCounter := n\<rparr>)" "tempCounter g < n"
    "temp_name p n \<notin> set (reservedNames g)"
    by (rule uniqueId_spec)
  obtain ys g' where ys: "drawIds ps (g\<lparr>tempCounter := n\<rparr>) = (ys, g')" by fastforce
  have "temp_name p n \<notin> set ys"
    using drawIds_above [OF ys] temp_name_inj by fastforce
  then show ?case using Cons.IH [of "g\<lparr>tempCounter := n\<rparr>"] n ys by simp
qed simp

section \<open>What is known about a result\<close>

text \<open>\<^verbatim>\<open>returnCountForFunctionName\<close>: the first function of the program with the name and without a
  receiver.\<close>

fun returnCountForFunctionName :: "string \<Rightarrow> Declaration list \<Rightarrow> int option" where
  "returnCountForFunctionName name [] = None"
| "returnCountForFunctionName name (FunctionDecl t n ps rs b None ds # decls) =
     (if identValue n = name then Some (int (length rs)) else returnCountForFunctionName name decls)"
| "returnCountForFunctionName name (_ # decls) = returnCountForFunctionName name decls"

fun inferFromShape :: "Declaration list \<Rightarrow> (Expression \<Rightarrow> int option) \<Rightarrow> Expression \<Rightarrow> int option" where
  "inferFromShape decls counts e =
     (case counts e of Some c \<Rightarrow> Some c
      | None \<Rightarrow>
          (case e of
             PipeExpr t l r m \<Rightarrow> inferFromShape decls counts r
           | CallExpr t f as ns v \<Rightarrow>
               (case f of Ident i \<Rightarrow> returnCountForFunctionName (identValue i) decls | _ \<Rightarrow> None)
           | FieldAccessExpr t ob i \<Rightarrow> Some 1
           | OnErrExpr t x d \<Rightarrow> Some 1
           | _ \<Rightarrow> None))"

declare inferFromShape.simps [simp del]

definition inferReturnCount :: "Expression \<Rightarrow> generator \<Rightarrow> int option" where
  "inferReturnCount e g =
     inferFromShape (programDeclarations (program g))
       (case exprReturnCounts g of None \<Rightarrow> (\<lambda>_. None) | Some m \<Rightarrow> map_of m) e"

definition isErrorOnlyReturn :: "Expression \<Rightarrow> generator \<Rightarrow> bool" where
  "isErrorOnlyReturn e g =
     (if inferReturnCount e g \<noteq> Some 1 then False
      else (case exprTypes g of None \<Rightarrow> False
            | Some m \<Rightarrow>
                (case map_of m e of
                   Some (Some ti) \<Rightarrow> tiKind ti = TypeKindNamed \<and> tiName ti = ''error''
                 | _ \<Rightarrow> False)))"

definition isUnknownSingleReturn :: "Expression \<Rightarrow> generator \<Rightarrow> bool" where
  "isUnknownSingleReturn e g =
     (if inferReturnCount e g \<noteq> Some 1 then False
      else (case exprTypes g of None \<Rightarrow> True
            | Some m \<Rightarrow>
                (case map_of m e of
                   Some (Some ti) \<Rightarrow> tiKind ti = TypeKindUnknown
                 | _ \<Rightarrow> True)))"

end
