(* ===== verification/TypeGen.thy ===== *)
theory TypeGen
  imports Generator
begin

text \<open>
  Types as Go text: \<^verbatim>\<open>generateTypeAnnotation\<close> (\<^verbatim>\<open>codegen_decl.go\<close>), \<^verbatim>\<open>typeInfoToGoString\<close>
  (\<^verbatim>\<open>codegen_types.go\<close>), and the zero values of \<^verbatim>\<open>codegen_stdlib.go\<close> and \<^verbatim>\<open>codegen_stmt.go\<close>.
\<close>

section \<open>Annotations\<close>

text \<open>Qualified names whose package was given an alias; the package part must not be empty.\<close>

definition aliased :: "(string \<times> string) list \<Rightarrow> string \<Rightarrow> string option" where
  "aliased aliases name =
     (case index_char name CHR ''.'' of
        Some dotIdx \<Rightarrow>
          (if dotIdx > 0 then
             map_option (\<lambda>alias. alias @ drop dotIdx name) (map_of aliases (take dotIdx name))
           else None)
      | None \<Rightarrow> None)"

definition isIterSeqName :: "string \<Rightarrow> generator \<Rightarrow> bool" where
  "isIterSeqName name g \<longleftrightarrow> name = ''iter.Seq'' \<or> (isStdlibIter g \<and> name = ''Seq'')"

text \<open>The special cases of \<^verbatim>\<open>iter.Seq\<close> and its variants when the iterator library is compiled.\<close>

definition iterType :: "string \<Rightarrow> (string \<times> string) list \<Rightarrow> generator \<Rightarrow> string option" where
  "iterType name placeholders g =
     (if isIterSeqName name g \<and> map_of placeholders ''any'' \<noteq> None then
        Some (''iter.Seq['' @
          (if processingReturnType g \<and> map_of placeholders ''any2'' \<noteq> None then ''U'' else ''T'') @ '']'')
      else if name = ''iter.SeqU'' then Some ''iter.Seq[U]''
      else if name = ''iter.Seq2Int'' then Some ''iter.Seq2[int, T]''
      else if name = ''iter.Seq2'' then
        Some (if map_of placeholders ''any2'' \<noteq> None then ''iter.Seq2[T, U]'' else ''iter.Seq2[T, T]'')
      else if name = ''iter.SeqSlice'' then Some ''iter.Seq[[]T]''
      else None)"

definition generateNamedType :: "string \<Rightarrow> generator \<Rightarrow> string" where
  "generateNamedType name g =
     (case (case placeholderMap g of None \<Rightarrow> None | Some m \<Rightarrow> map_of m name) of
        Some typeParam \<Rightarrow> typeParam
      | None \<Rightarrow>
          (case aliased (pkgAliases g) name of
             Some s \<Rightarrow> s
           | None \<Rightarrow>
               (case placeholderMap g of
                  Some m \<Rightarrow>
                    (if isStdlibIter g
                     then (case iterType name m g of Some s \<Rightarrow> s | None \<Rightarrow> name) else name)
                | None \<Rightarrow> name)))"

fun generateTypeAnnotation :: "generator \<Rightarrow> TypeAnnotation \<Rightarrow> string" where
  "generateTypeAnnotation g NilType = []"
| "generateTypeAnnotation g (PrimitiveType t n) =
     (case (case placeholderMap g of None \<Rightarrow> None | Some m \<Rightarrow> map_of m n) of
        Some typeParam \<Rightarrow> typeParam | None \<Rightarrow> n)"
| "generateTypeAnnotation g (NamedType t n) = generateNamedType n g"
| "generateTypeAnnotation g (ReferenceType t e) = ''*'' @ generateTypeAnnotation g e"
| "generateTypeAnnotation g (ListType t e) = ''[]'' @ generateTypeAnnotation g e"
| "generateTypeAnnotation g (MapType t k v) =
     ''map['' @ generateTypeAnnotation g k @ '']'' @ generateTypeAnnotation g v"
| "generateTypeAnnotation g (ChannelType t e) = ''chan '' @ generateTypeAnnotation g e"
| "generateTypeAnnotation g (FunctionType t ps rs) =
     ''func('' @ go_join (map (generateTypeAnnotation g) ps) '', '' @ '')'' @
     (let returns = map (generateTypeAnnotation g) rs
      in if length rs = 1 then '' '' @ returns ! 0
         else if length rs > 1 then '' ('' @ go_join returns '', '' @ '')''
         else [])"

definition generateReturnTypes :: "generator \<Rightarrow> TypeAnnotation list \<Rightarrow> string" where
  "generateReturnTypes g returns =
     (if length returns = 0 then []
      else if length returns = 1 then generateTypeAnnotation g (returns ! 0)
      else ''('' @ go_join (map (generateTypeAnnotation g) returns) '', '' @ '')'')"

text \<open>\<^verbatim>\<open>typeContainsPlaceholder\<close>\<close>

fun typeContainsPlaceholder :: "TypeAnnotation \<Rightarrow> string \<Rightarrow> bool" where
  "typeContainsPlaceholder NilType p = False"
| "typeContainsPlaceholder (PrimitiveType t n) p = (n = p)"
| "typeContainsPlaceholder (NamedType t n) p = (n = p)"
| "typeContainsPlaceholder (ListType t e) p = typeContainsPlaceholder e p"
| "typeContainsPlaceholder (MapType t k v) p = (typeContainsPlaceholder k p \<or> typeContainsPlaceholder v p)"
| "typeContainsPlaceholder (ChannelType t e) p = typeContainsPlaceholder e p"
| "typeContainsPlaceholder (ReferenceType t e) p = typeContainsPlaceholder e p"
| "typeContainsPlaceholder (FunctionType t ps rs) p =
     (list_ex (\<lambda>x. typeContainsPlaceholder x p) ps \<or> list_ex (\<lambda>x. typeContainsPlaceholder x p) rs)"

section \<open>Types of the analysis\<close>

fun typeInfoToGoString :: "generator \<Rightarrow> TypeInfo option \<Rightarrow> string" where
  "typeInfoToGoString g None = ''any''"
| "typeInfoToGoString g (Some (TypeInfo k n e kt vt ps rs _ _ _ _ _ _ _ _ _)) =
     (case k of
        TypeKindInt \<Rightarrow> ''int''
      | TypeKindFloat \<Rightarrow> ''float64''
      | TypeKindString \<Rightarrow> ''string''
      | TypeKindBool \<Rightarrow> ''bool''
      | TypeKindList \<Rightarrow> ''[]'' @ typeInfoToGoString g e
      | TypeKindMap \<Rightarrow> ''map['' @ typeInfoToGoString g kt @ '']'' @ typeInfoToGoString g vt
      | TypeKindChannel \<Rightarrow> ''chan '' @ typeInfoToGoString g e
      | TypeKindReference \<Rightarrow> ''*'' @ typeInfoToGoString g e
      | TypeKindNamed \<Rightarrow> (case aliased (pkgAliases g) n of Some s \<Rightarrow> s | None \<Rightarrow> n)
      | TypeKindFunction \<Rightarrow>
          ''func('' @ go_join (map (typeInfoToGoString g) ps) '', '' @ '')'' @
          (let returns = map (typeInfoToGoString g) rs
           in if length returns = 1 then '' '' @ returns ! 0
              else if length returns > 1 then '' ('' @ go_join returns '', '' @ '')'' else [])
      | _ \<Rightarrow> ''any'')"

section \<open>Zero values\<close>

fun declares_interface :: "string \<Rightarrow> Declaration \<Rightarrow> bool" where
  "declares_interface n (InterfaceDecl t i ms ds) \<longleftrightarrow> identValue i = n"
| "declares_interface n _ \<longleftrightarrow> False"

definition isLikelyInterfaceType :: "string \<Rightarrow> generator \<Rightarrow> bool" where
  "isLikelyInterfaceType typeName g \<longleftrightarrow>
     (if typeName = ''error'' then True
      else if list_ex (declares_interface typeName) (programDeclarations (program g)) then True
      else IsKnownInterface typeName)"

fun zeroValueForType :: "generator \<Rightarrow> TypeAnnotation \<Rightarrow> string" where
  "zeroValueForType g (PrimitiveType t n) =
     (if n = ''string'' then [CHR 0x22, CHR 0x22] else if n = ''bool'' then ''false'' else ''0'')"
| "zeroValueForType g (ListType t e) = generateTypeAnnotation g (ListType t e) @ ''{}''"
| "zeroValueForType g (MapType t k v) = generateTypeAnnotation g (MapType t k v) @ ''{}''"
| "zeroValueForType g (NamedType t n) =
     (let typeName = generateTypeAnnotation g (NamedType t n)
      in if isLikelyInterfaceType typeName g then ''nil'' else ''*new('' @ typeName @ '')'')"
| "zeroValueForType g _ = ''nil''"

text \<open>\<^verbatim>\<open>replaceGenericZeroExprs\<close>: the declarations \<^verbatim>\<open>var _zeroN T\<close> and the expressions after the
  replacement; \<open>i\<close> is the index of the first expression of the list.\<close>

definition zero_type :: "string \<Rightarrow> string option" where
  "zero_type e =
     (if has_prefix e ''*new('' \<and> has_suffix e '')'' then Some (take (length e - 1 - 5) (drop 5 e)) else None)"

fun replaceZeros :: "nat \<Rightarrow> string list \<Rightarrow> string list \<times> string list" where
  "replaceZeros i [] = ([], [])"
| "replaceZeros i (e # es) =
     (let (preDecls, replaced) = replaceZeros (i + 1) es
      in case zero_type e of
           Some typeParam \<Rightarrow>
             ((''var '' @ ''_zero'' @ utoa i @ '' '' @ typeParam) # preDecls, (''_zero'' @ utoa i) # replaced)
         | None \<Rightarrow> (preDecls, e # replaced))"

definition replaceGenericZeroExprs :: "string list \<Rightarrow> string list \<times> string list" where
  "replaceGenericZeroExprs exprs = replaceZeros 0 exprs"

section \<open>The two renderings agree\<close>

text \<open>The annotation that a type of the analysis stands for: the analysis forgets the width of a number, the
  name of an interface and every primitive it does not know.\<close>

fun widened :: "SymbolTable \<Rightarrow> TypeAnnotation \<Rightarrow> TypeAnnotation" where
  "widened st NilType = PrimitiveType no_token ''any''"
| "widened st (PrimitiveType s n) = PrimitiveType s
     (if n \<in> {''int'', ''int8'', ''int16'', ''int32'', ''int64'', ''uint'', ''uint8'', ''uint16'', ''uint32'', ''uint64'',
        ''byte'', ''rune''} then ''int''
      else if n = ''float32'' then ''float64''
      else if n \<in> {''float64'', ''string'', ''bool''} then n else ''any'')"
| "widened st (NamedType s n) = (if is_interface st n then PrimitiveType s ''any'' else NamedType s n)"
| "widened st (ReferenceType s e) = ReferenceType s (widened st e)"
| "widened st (ListType s e) = ListType s (widened st e)"
| "widened st (MapType s k v) = MapType s (widened st k) (widened st v)"
| "widened st (ChannelType s e) = ChannelType s (widened st e)"
| "widened st (FunctionType s ps rs) = FunctionType s (map (widened st) ps) (map (widened st) rs)"

text \<open>Where the analysis keeps the whole annotation.\<close>

fun kept :: "SymbolTable \<Rightarrow> TypeAnnotation \<Rightarrow> bool" where
  "kept st (PrimitiveType _ n) \<longleftrightarrow> n \<in> {''int'', ''float64'', ''string'', ''bool'', ''any''}"
| "kept st (NamedType _ n) \<longleftrightarrow> \<not> is_interface st n"
| "kept st (ReferenceType _ e) \<longleftrightarrow> kept st e"
| "kept st (ListType _ e) \<longleftrightarrow> kept st e"
| "kept st (ChannelType _ e) \<longleftrightarrow> kept st e"
| "kept st (MapType _ k v) \<longleftrightarrow> kept st k \<and> kept st v"
| "kept st (FunctionType _ ps rs) \<longleftrightarrow> (\<forall>p\<in>set ps. kept st p) \<and> (\<forall>r\<in>set rs. kept st r)"
| "kept st NilType \<longleftrightarrow> False"

lemma widened_kept: "widened st t = t \<longleftrightarrow> kept st t"
proof (induction t)
  case (FunctionType s ps rs)
  have "map f xs = xs \<longleftrightarrow> (\<forall>x\<in>set xs. f x = x)" for f :: "TypeAnnotation \<Rightarrow> TypeAnnotation" and xs
    by (induction xs) auto
  then show ?case using FunctionType by simp
qed auto

lemma rendered_as_widened:
  "placeholderMap g = None \<Longrightarrow>
   typeInfoToGoString g (Some (typeAnnotationToTypeInfo st t)) = generateTypeAnnotation g (widened st t)"
proof (induction t)
  case (PrimitiveType s n)
  then show ?case by (simp add: primitiveTypeFromString_def)
next
  case (NamedType s n)
  then show ?case
    by (simp add: named_type_kind generateNamedType_def del: typeAnnotationToTypeInfo.simps split: option.splits)
next
  case (FunctionType s ps rs)
  then have "\<forall>x\<in>set ps \<union> set rs. typeInfoToGoString g (Some (typeAnnotationToTypeInfo st x)) =
      generateTypeAnnotation g (widened st x)"
    by auto
  then show ?case by (simp add: o_def Let_def cong: map_cong)
qed simp_all

text \<open>
  Claim C25. The code generator has two renderings of a type: one of the annotation in the source
  and one of the type that the analysis computed for it. Outside generic code the second is the first
  of a widened annotation: integers of every width, \<^verbatim>\<open>byte\<close> and \<^verbatim>\<open>rune\<close> become \<^verbatim>\<open>int\<close>, \<^verbatim>\<open>float32\<close> becomes \<^verbatim>\<open>float64\<close>,
  interfaces and unknown primitives become \<^verbatim>\<open>any\<close>, at any depth. The annotation itself is kept, so that a
  declaration with a written type and one with the inferred type agree, exactly if it has no such part.
\<close>

theorem type_renderings_agree:
  assumes "placeholderMap g = None"
  shows "typeInfoToGoString g (Some (typeAnnotationToTypeInfo st t)) = generateTypeAnnotation g (widened st t) \<and>
    (widened st t = t \<longleftrightarrow> kept st t)"
  using rendered_as_widened [OF assms] widened_kept by blast

definition empty_program :: Program where
  "empty_program = \<lparr>Target = [], programPetiole = None, programSkill = None, programImports = [],
     programDeclarations = []\<rparr>"

definition sample_annotation :: TypeAnnotation where
  "sample_annotation =
     MapType no_token (PrimitiveType no_token ''string'')
       (ListType no_token (FunctionType no_token [PrimitiveType no_token ''int64'']
         [ReferenceType no_token (NamedType no_token ''Node''), NamedType no_token ''io.Reader'']))"

lemma type_renderings_agree_witness:
  "typeInfoToGoString (New_generator empty_program) (Some (typeAnnotationToTypeInfo NewSymbolTable sample_annotation)) =
     ''map[string][]func(int) (*Node, any)'' \<and>
   generateTypeAnnotation (New_generator empty_program) sample_annotation = ''map[string][]func(int64) (*Node, io.Reader)''"
proof -
  have "placeholderMap (New_generator empty_program) = None" by (simp add: New_generator_def)
  from type_renderings_agree [OF this, of NewSymbolTable sample_annotation]
  have "typeInfoToGoString (New_generator empty_program) (Some (typeAnnotationToTypeInfo NewSymbolTable sample_annotation)) =
      generateTypeAnnotation (New_generator empty_program) (widened NewSymbolTable sample_annotation)" by blast
  moreover have "generateTypeAnnotation (New_generator empty_program) (widened NewSymbolTable sample_annotation) =
      ''map[string][]func(int) (*Node, any)''"
    by code_simp
  moreover have "generateTypeAnnotation (New_generator empty_program) sample_annotation =
      ''map[string][]func(int64) (*Node, io.Reader)''"
    by code_simp
  ultimately show ?thesis by simp
qed

end
