(* ===== verification/Emit.thy ===== *)
theory Emit
  imports Generator
begin

text \<open>
  \<^verbatim>\<open>internal/codegen/emit.go\<close>: writing the nodes of the intermediate representation as Go text.
\<close>

definition emitIRPos :: "SourcePos \<Rightarrow> generator \<Rightarrow> generator" where
  "emitIRPos p g = gen_write (line_directive (srcFile p) (srcLine p) g) g"

fun emitIRNode :: "Node \<Rightarrow> generator \<Rightarrow> generator" where
  "emitIRNode (Assign names e walrus p) g =
     writeLine (go_join names '', '' @ '' '' @ (if walrus then '':='' else ''='') @ '' '' @ e) (emitIRPos p g)"
| "emitIRNode (VarDecl name ty value p) g =
     (if value \<noteq> [] then writeLine (''var '' @ name @ '' '' @ ty @ '' = '' @ value) (emitIRPos p g)
      else writeLine (''var '' @ name @ '' '' @ ty) (emitIRPos p g))"
| "emitIRNode (IfErrCheck errVar body p) g =
     (let g1 = writeLine (''if '' @ errVar @ '' != nil {'') (emitIRPos p g);
          g2 = g1\<lparr>indent := indent g1 + 1\<rparr>;
          g3 = (case body of None \<Rightarrow> g2 | Some ns \<Rightarrow> fold emitIRNode ns g2);
          g4 = g3\<lparr>indent := indent g3 - 1\<rparr>
      in writeLine ''}'' g4)"
| "emitIRNode (Goto label) g = writeLine (''goto '' @ label) g"
| "emitIRNode (Label name) g = writeLine (name @ '':'') g"
| "emitIRNode (ScopedBlock body) g =
     (let g1 = writeLine ''{'' g;
          g2 = g1\<lparr>indent := indent g1 + 1\<rparr>;
          g3 = (case body of None \<Rightarrow> g2 | Some ns \<Rightarrow> fold emitIRNode ns g2);
          g4 = g3\<lparr>indent := indent g3 - 1\<rparr>
      in writeLine ''}'' g4)"
| "emitIRNode (RawStmt code p) g =
     (if contains_char code CHR 0x0A
      then fold writeLine (split_char CHR 0x0A code) (emitIRPos p g)
      else writeLine code (emitIRPos p g))"
| "emitIRNode (IrReturnStmt values p) g =
     (if length values = 0 then writeLine ''return'' (emitIRPos p g)
      else writeLine (''return '' @ go_join values '', '') (emitIRPos p g))"
| "emitIRNode (IrExprStmt e p) g = writeLine e (emitIRPos p g)"
| "emitIRNode (IrComment t) g = writeLine (''// '' @ t) g"
| "emitIRNode (IrBlock ns) g = fold emitIRNode ns g"

definition emitIR :: "Block option \<Rightarrow> generator \<Rightarrow> generator" where
  "emitIR block g = (case block of None \<Rightarrow> g | Some ns \<Rightarrow> fold emitIRNode ns g)"

section \<open>Emission only writes\<close>

text \<open>The text of a node as a function of its depth: \<open>D\<close> renders a directive, and the text that a
  directive renders does not depend on the output or the indent.\<close>

definition line_text :: "int \<Rightarrow> string \<Rightarrow> string" where
  "line_text d s = (if s = [] then [] else str_repeat [CHR 0x09] (nat d) @ s) @ [CHR 0x0A]"

fun node_text :: "(SourcePos \<Rightarrow> string) \<Rightarrow> int \<Rightarrow> Node \<Rightarrow> string" where
  "node_text D d (Assign names e walrus p) =
     D p @ line_text d (go_join names '', '' @ '' '' @ (if walrus then '':='' else ''='') @ '' '' @ e)"
| "node_text D d (VarDecl name ty value p) =
     D p @ line_text d (''var '' @ name @ '' '' @ ty @ (if value = [] then [] else '' = '' @ value))"
| "node_text D d (IfErrCheck errVar body p) =
     D p @ line_text d (''if '' @ errVar @ '' != nil {'') @
     (case body of None \<Rightarrow> [] | Some ns \<Rightarrow> concat (map (node_text D (d + 1)) ns)) @ line_text d ''}''"
| "node_text D d (Goto label) = line_text d (''goto '' @ label)"
| "node_text D d (Label name) = line_text d (name @ '':'')"
| "node_text D d (ScopedBlock body) =
     line_text d ''{'' @
     (case body of None \<Rightarrow> [] | Some ns \<Rightarrow> concat (map (node_text D (d + 1)) ns)) @ line_text d ''}''"
| "node_text D d (RawStmt code p) = D p @ concat (map (line_text d) (split_char CHR 0x0A code))"
| "node_text D d (IrReturnStmt values p) =
     D p @ line_text d (if values = [] then ''return'' else ''return '' @ go_join values '', '')"
| "node_text D d (IrExprStmt e p) = D p @ line_text d e"
| "node_text D d (IrComment t) = line_text d (''// '' @ t)"
| "node_text D d (IrBlock ns) = concat (map (node_text D d) ns)"

abbreviation directive :: "generator \<Rightarrow> SourcePos \<Rightarrow> string" where
  "directive g p \<equiv> line_directive (srcFile p) (srcLine p) g"

lemma line_directive_frame [simp]:
  "line_directive f n (g\<lparr>genOutput := out\<rparr>) = line_directive f n g"
  "line_directive f n (g\<lparr>indent := d\<rparr>) = line_directive f n g"
  by (simp_all add: line_directive_def)

lemma gen_write_twice [simp]: "gen_write s (gen_write t g) = gen_write (t @ s) g"
  by (simp add: gen_write_def)

lemma gen_write_fields [simp]:
  "indent (gen_write s g) = indent g" "(gen_write s g)\<lparr>indent := d\<rparr> = gen_write s (g\<lparr>indent := d\<rparr>)"
  "line_directive f n (gen_write s g) = line_directive f n g"
  by (simp_all add: gen_write_def)

lemma gen_write_Nil [simp]: "gen_write [] g = g"
  by (simp add: gen_write_def)

lemma writeLine_text: "writeLine s g = gen_write (line_text (indent g) s) g"
  by (simp add: writeLine_def line_text_def indentStr_def Let_def)

lemma fold_writeLine:
  "fold writeLine ss g = gen_write (concat (map (line_text (indent g)) ss)) g"
  by (induction ss arbitrary: g) (simp_all add: writeLine_text)

lemma fold_emit:
  assumes "\<And>n g. n \<in> set ns \<Longrightarrow> emitIRNode n g = gen_write (node_text (directive g) (indent g) n) g"
  shows "fold emitIRNode ns g = gen_write (concat (map (node_text (directive g) (indent g)) ns)) g"
  using assms by (induction ns arbitrary: g) simp_all

lemma split_char_single: "\<not> contains_char s c \<Longrightarrow> split_char c s = [s]"
  by (induction s) (auto simp: contains_char_def)

lemma emitIRNode_text: "emitIRNode n g = gen_write (node_text (directive g) (indent g) n) g"
proof (induction n arbitrary: g)
  case (IrBlock ns)
  then show ?case by (simp add: fold_emit)
next
  case (IfErrCheck v body p)
  then show ?case
    by (cases body) (simp_all add: fold_emit emitIRPos_def writeLine_text Let_def)
next
  case (ScopedBlock body)
  then show ?case
    by (cases body) (simp_all add: fold_emit writeLine_text Let_def)
next
  case (RawStmt code p)
  then show ?case by (simp add: fold_writeLine emitIRPos_def writeLine_text split_char_single)
qed (simp_all add: emitIRPos_def writeLine_text)

lemma emitIR_text:
  "emitIR (Some ns) g = gen_write (concat (map (node_text (directive g) (indent g)) ns)) g"
  by (simp add: emitIR_def fold_emit emitIRNode_text)

text \<open>
  Claim C23. Emission only writes: for every block and every generator, emitting the block appends
  the text that the pure renderer gives for it at the current depth, and changes nothing else of
  the generator. In particular the indent is restored after every check and every scoped block, and
  every line of a nested block is one tab deeper than the line that opens it.
\<close>

theorem emission_is_rendering:
  "emitIR (Some ns) g =
     g\<lparr>genOutput := genOutput g @
         concat (map (node_text (\<lambda>p. line_directive (srcFile p) (srcLine p) g) (indent g)) ns)\<rparr>"
  by (simp add: emitIR_text gen_write_def)

end
