(* ===== verification/Lower.thy ===== *)
theory Lower
  imports Emit TypeGen
begin

text \<open>
  \<^verbatim>\<open>internal/codegen/lower.go\<close> and \<^verbatim>\<open>codegen_onerr.go\<close>: pipes and \<^verbatim>\<open>onerr\<close> clauses as intermediate
  code. The rendering of expressions and statements (\<^verbatim>\<open>codegen_expr.go\<close>, \<^verbatim>\<open>codegen_stmt.go\<close>) is a
  parameter: a record of the functions that the lowering calls, each of which may change the
  generator (record an import, count a temporary name).
\<close>

record renderer =
  exprToString :: "Expression \<Rightarrow> generator \<Rightarrow> string \<times> generator"
  generateFieldAccessExpr :: "Expression \<Rightarrow> generator \<Rightarrow> string \<times> generator"
  generateErrorExpr :: "Expression \<Rightarrow> generator \<Rightarrow> string \<times> generator"
  generateBlock :: "BlockStmt option \<Rightarrow> generator \<Rightarrow> generator"
  generateSwitch :: "Statement \<Rightarrow> generator \<Rightarrow> generator"
  generatePipedSwitchExpr :: "Expression \<Rightarrow> generator \<Rightarrow> string \<times> generator"
  inferExprReturnType :: "Expression \<Rightarrow> generator \<Rightarrow> string"
  pipedSwitchReturnType :: "Expression \<Rightarrow> generator \<Rightarrow> string"

section \<open>Positions and descriptions\<close>

definition posOf :: "Expression \<Rightarrow> SourcePos" where
  "posOf e = (case expr_token e of Some t \<Rightarrow> \<lparr>srcLine = Line t, srcFile = File t\<rparr> | None \<Rightarrow> no_pos)"

definition clausePos :: "OnErrClause option \<Rightarrow> SourcePos" where
  "clausePos clause =
     (case clause of None \<Rightarrow> no_pos | Some (t, _) \<Rightarrow> \<lparr>srcLine = Line t, srcFile = File t\<rparr>)"

fun summarizeExpr :: "Expression \<Rightarrow> string" where
  "summarizeExpr (CallExpr t f as ns v) = summarizeExpr f @ ''(...)''"
| "summarizeExpr (MethodCallExpr t ob m as ns v) =
     (if ob \<noteq> NilExpr then summarizeExpr ob @ ''.'' @ identValue m @ ''(...)''
      else identValue m @ ''(...)'')"
| "summarizeExpr (Ident i) = identValue i"
| "summarizeExpr (FieldAccessExpr t ob f) =
     (if ob \<noteq> NilExpr then summarizeExpr ob @ ''.'' @ identValue f else identValue f)"
| "summarizeExpr (PipeExpr t l r m) = summarizeExpr l @ '' |> '' @ summarizeExpr r"
| "summarizeExpr _ = []"

definition recordVar :: "string \<Rightarrow> Expression \<Rightarrow> generator \<Rightarrow> generator" where
  "recordVar name e g =
     (case varMap g of None \<Rightarrow> g
      | Some m \<Rightarrow>
          (let ln = (case expr_token e of Some t \<Rightarrow> Line t | None \<Rightarrow> 0); desc = summarizeExpr e
           in if ln > 0
              then g\<lparr>varMap := Some ((name, ''line '' @ itoa ln @ '': '' @ desc) # m)\<rparr>
              else if desc \<noteq> [] then g\<lparr>varMap := Some ((name, desc) # m)\<rparr>
              else g))"

section \<open>Pipe chains\<close>

text \<open>\<^verbatim>\<open>flattenPipeChain\<close>: the leftmost operand and the steps from left to right.\<close>

fun pipe_walk :: "Expression \<Rightarrow> Expression \<times> Expression list" where
  "pipe_walk (PipeExpr t l r m) = (let (base, steps) = pipe_walk l in (base, steps @ [r]))"
| "pipe_walk e = (e, [])"

definition flattenPipeChain :: "Expression \<Rightarrow> (Expression \<times> Expression list) option" where
  "flattenPipeChain e = (case e of PipeExpr t l r m \<Rightarrow> Some (pipe_walk e) | _ \<Rightarrow> None)"

text \<open>Rendering a list of expressions from left to right.\<close>

fun exprStrings :: "renderer \<Rightarrow> Expression list \<Rightarrow> generator \<Rightarrow> string list \<times> generator" where
  "exprStrings R [] g = ([], g)"
| "exprStrings R (e # es) g =
     (let (s, g1) = exprToString R e g; (ss, g2) = exprStrings R es g1 in (s # ss, g2))"

text \<open>\<^verbatim>\<open>buildPipeArgs\<close>: the placeholder is the first argument that is \<^verbatim>\<open>_\<close> or \<^verbatim>\<open>discard\<close>.\<close>

fun is_placeholder :: "Expression \<Rightarrow> bool" where
  "is_placeholder (Ident i) \<longleftrightarrow> identValue i = ''_''"
| "is_placeholder (DiscardExpr t) \<longleftrightarrow> True"
| "is_placeholder _ \<longleftrightarrow> False"

fun fill_placeholder :: "renderer \<Rightarrow> string \<Rightarrow> Expression list \<Rightarrow> generator \<Rightarrow> string list \<times> generator" where
  "fill_placeholder R left [] g = ([], g)"
| "fill_placeholder R left (a # as) g =
     (if is_placeholder a then (let (ss, g1) = exprStrings R as g in (left # ss, g1))
      else (let (s, g1) = exprToString R a g; (ss, g2) = fill_placeholder R left as g1 in (s # ss, g2)))"

definition buildPipeArgs :: "renderer \<Rightarrow> string \<Rightarrow> Expression list \<Rightarrow> generator \<Rightarrow> string list \<times> generator" where
  "buildPipeArgs R left arguments g =
     (if list_ex is_placeholder arguments then fill_placeholder R left arguments g
      else (let (ss, g1) = exprStrings R arguments g in (left # ss, g1)))"

definition call_text :: "string \<Rightarrow> string list \<Rightarrow> bool \<Rightarrow> string" where
  "call_text f args variadic = f @ ''('' @ go_join args '', '' @ (if variadic then ''...)'' else '')'')"

text \<open>The Go type name of a node, as \<^verbatim>\<open>%T\<close> prints it, is a parameter of the warning.\<close>

definition generatePipedStepCall ::
  "renderer \<Rightarrow> (Expression \<Rightarrow> string) \<Rightarrow> Expression \<Rightarrow> string \<Rightarrow> generator \<Rightarrow> string option \<times> generator" where
  "generatePipedStepCall R typeName right left g =
     (case right of
        CallExpr t f as ns v \<Rightarrow>
          (let (fn, g1) = exprToString R f g; (args, g2) = buildPipeArgs R left as g1
           in (Some (call_text fn args v), g2))
      | MethodCallExpr t ob m as ns v \<Rightarrow>
          (let (objStr, g1) = exprToString R ob g;
               objStr' = (case map_of (pkgAliases g1) objStr of Some a \<Rightarrow> a | None \<Rightarrow> objStr);
               fn = (if ob = NilExpr then left else objStr') @ ''.'' @ identValue m;
               (args, g2) = buildPipeArgs R left as g1
           in (Some (call_text fn args v), g2))
      | FieldAccessExpr t ob f \<Rightarrow>
          (if ob = NilExpr then (Some (left @ ''.'' @ identValue f), g)
           else (let (s, g1) = generateFieldAccessExpr R right g in (Some s, g1)))
      | Ident i \<Rightarrow>
          (if identValue i = ''print'' then
             (if mcpTarget g
              then (Some (''fmt.Fprintln(os.Stderr, '' @ left @ '')''), addImport ''fmt'' (addImport ''os'' g))
              else (Some (''fmt.Println('' @ left @ '')''), addImport ''fmt'' g))
           else (Some (identValue i @ ''('' @ left @ '')''), g))
      | _ \<Rightarrow>
          (None, gen_warn (case ExprPos right of Some p \<Rightarrow> p | None \<Rightarrow> no_position)
             (''unsupported pipe target type '' @ typeName right @ '' in onerr chain; wrap in a call: f()'') g))"

text \<open>A step with several results is wrapped in a function that keeps the first.\<close>

definition first_of_many :: "renderer \<Rightarrow> Expression \<Rightarrow> string \<Rightarrow> generator \<Rightarrow> string" where
  "first_of_many R e call g =
     (case inferReturnCount e g of
        Some count \<Rightarrow>
          (if count \<ge> 2 then
             (let blanks = replicate (nat (count - 1)) ''_'';
                  inferred = inferExprReturnType R e g;
                  retType = (if inferred = [] then ''any'' else inferred)
              in ''func() '' @ retType @ '' { val, '' @ go_join blanks '', '' @ '' := '' @ call @ ''; return val }()'')
           else call)
      | None \<Rightarrow> call)"

fun pipeSteps :: "renderer \<Rightarrow> (Expression \<Rightarrow> string) \<Rightarrow> Expression list \<Rightarrow> string \<Rightarrow> Block \<Rightarrow> generator \<Rightarrow>
    (Block \<times> string) option \<times> generator" where
  "pipeSteps R T [] cur block g = (Some (block, cur), g)"
| "pipeSteps R T (step # steps) cur block g =
     (let (call, g1) = generatePipedStepCall R T step cur g
      in case call of None \<Rightarrow> (None, g1)
         | Some callExpr \<Rightarrow>
             (let (nxt, g2) = uniqueId ''pipe'' g1;
                  callExpr' = first_of_many R step callExpr g2;
                  g3 = recordVar nxt step g2
              in pipeSteps R T steps nxt (Add block (Assign [nxt] callExpr' True (posOf step))) g3))"

definition lowerPipeChain ::
  "renderer \<Rightarrow> (Expression \<Rightarrow> string) \<Rightarrow> Expression \<Rightarrow> generator \<Rightarrow> (Block \<times> string) option \<times> generator" where
  "lowerPipeChain R T pipe g =
     (case flattenPipeChain pipe of None \<Rightarrow> (None, g)
      | Some (base, steps) \<Rightarrow>
          (if base = NilExpr \<or> steps = [] then (None, g)
           else
             (let (cur, g1) = uniqueId ''pipe'' g;
                  (baseExpr, g2) = exprToString R base g1;
                  baseExpr' = first_of_many R base baseExpr g2;
                  g3 = recordVar cur base g2
              in pipeSteps R T steps cur [Assign [cur] baseExpr' True (posOf base)] g3)))"

section \<open>Handlers\<close>

text \<open>\<^verbatim>\<open>strings.SplitN(s, " ", 3)\<close>\<close>

fun split_n :: "char \<Rightarrow> nat \<Rightarrow> string \<Rightarrow> string list" where
  "split_n c 0 s = []"
| "split_n c (Suc 0) s = [s]"
| "split_n c (Suc (Suc n)) s =
     (case index_char s c of None \<Rightarrow> [s] | Some k \<Rightarrow> take k s # split_n c (Suc n) (drop (k + 1) s))"

text \<open>The result list of a function that returns its zero values and an error last.\<close>

definition zero_results :: "string \<Rightarrow> generator \<Rightarrow> string list" where
  "zero_results err g =
     map (zeroValueForType g) (butlast (currentReturnTypes g)) @ [err]"

definition buildReturnNode :: "string \<Rightarrow> SourcePos \<Rightarrow> generator \<Rightarrow> Block" where
  "buildReturnNode errVar p g =
     (if currentReturnTypes g = [] then Add [] (IrReturnStmt [errVar] p)
      else
        (let (preDecls, parts) = replaceGenericZeroExprs (zero_results errVar g);
             decls = map (\<lambda>d. VarDecl (split_n CHR '' '' 3 d ! 1) (split_n CHR '' '' 3 d ! 2) [] no_pos) preDecls
         in Add decls (IrReturnStmt parts p)))"

definition errorValueExpr :: "renderer \<Rightarrow> Expression \<Rightarrow> string \<Rightarrow> generator \<Rightarrow> string \<times> generator" where
  "errorValueExpr R e errVar g =
     (if (case e of Ident i \<Rightarrow> identValue i = ''error'' | _ \<Rightarrow> False) then (errVar, g)
      else case e of
        StringExpr t v r ip ps \<Rightarrow> generateErrorExpr R e g
      | _ \<Rightarrow> (let (s, g1) = exprToString R e (addImport ''errors'' g) in (''errors.New('' @ s @ '')'', g1)))"

fun handlerValues :: "renderer \<Rightarrow> string \<Rightarrow> Expression list \<Rightarrow> generator \<Rightarrow> string list \<times> generator" where
  "handlerValues R errVar [] g = ([], g)"
| "handlerValues R errVar (v # vs) g =
     (let (s, g1) =
        (case v of
           Ident i \<Rightarrow> if identValue i = ''error'' then (errVar, g) else exprToString R v g
         | ErrorExpr t m \<Rightarrow> errorValueExpr R m errVar g
         | _ \<Rightarrow> exprToString R v g);
        (ss, g2) = handlerValues R errVar vs g1
      in (s # ss, g2))"

definition generateOnErrHandler :: "renderer \<Rightarrow> string list \<Rightarrow> Expression \<Rightarrow> string \<Rightarrow> generator \<Rightarrow> generator" where
  "generateOnErrHandler R names handler errVar g =
     (case handler of
        NilExpr \<Rightarrow> g
      | PanicExpr t m \<Rightarrow> (let (s, g1) = exprToString R m g in writeLine (''panic('' @ s @ '')'') g1)
      | ErrorExpr t m \<Rightarrow>
          (let (errExpr, g1) = errorValueExpr R m errVar g
           in if length (currentReturnTypes g1) > 2 then
                (let (preDecls, parts) = replaceGenericZeroExprs (zero_results errExpr g1)
                 in writeLine (''return '' @ go_join parts '', '') (fold writeLine preDecls g1))
              else if length names > 0 then writeLine (''return '' @ names ! 0 @ '', '' @ errExpr) g1
              else writeLine (''return '' @ errExpr) g1)
      | ReturnExpr t vs \<Rightarrow>
          (let (ss, g1) = handlerValues R errVar vs g in writeLine (''return '' @ go_join ss '', '') g1)
      | BlockExpr t b \<Rightarrow> generateBlock R b g
      | EmptyExpr t ty \<Rightarrow> writeLine ''return'' g
      | _ \<Rightarrow>
          (let (s, g1) = exprToString R handler g
           in case handler of
                CallExpr t f as ns v \<Rightarrow> writeLine s g1
              | MethodCallExpr t ob m as ns v \<Rightarrow> writeLine s g1
              | _ \<Rightarrow> if length names > 0 then writeLine (names ! 0 @ '' = '' @ s) g1 else g1))"

text \<open>\<^verbatim>\<open>renderHandler\<close> captures what the handler writes; the output, the indent and the two names of
  the caught error are restored.\<close>

definition renderHandler :: "renderer \<Rightarrow> OnErrClause \<Rightarrow> string list \<Rightarrow> string \<Rightarrow> generator \<Rightarrow> string \<times> generator" where
  "renderHandler R clause names errVar g =
     (case clause of (t, handler, explain, sr, sc, sb, alias) \<Rightarrow>
        (let g1 = g\<lparr>genOutput := [], indent := 0, currentOnErrVar := errVar, currentOnErrAlias := alias\<rparr>;
             g2 = generateOnErrHandler R names handler errVar g1
         in (trim_right (genOutput g2) [CHR 0x0A],
             g2\<lparr>genOutput := genOutput g, indent := indent g, currentOnErrVar := currentOnErrVar g,
                currentOnErrAlias := currentOnErrAlias g\<rparr>)))"

definition lowerOnErrHandler :: "renderer \<Rightarrow> OnErrClause \<Rightarrow> string list \<Rightarrow> string \<Rightarrow> generator \<Rightarrow> Block \<times> generator" where
  "lowerOnErrHandler R clause names errVar g =
     (case clause of (t, handler, explain, shorthandReturn, shorthandContinue, shorthandBreak, alias) \<Rightarrow>
        (let cp = clausePos (Some clause)
         in if shorthandReturn then (AddAll [] (Some (buildReturnNode errVar cp g)), g)
            else if shorthandContinue then (Add [] (IrExprStmt ''continue'' cp), g)
            else if shorthandBreak then (Add [] (IrExprStmt ''break'' cp), g)
            else
              (let (body, g1) =
                 (if explain \<noteq> [] then
                    (Add [] (Assign [errVar] (''fmt.Errorf('' @ [CHR 0x22] @ explain @ '': %w'' @ [CHR 0x22] @ '', ''
                       @ errVar @ '')'') False cp), addImport ''fmt'' g)
                  else ([], g))
               in if handler = NilExpr then
                    (if explain \<noteq> [] then (AddAll body (Some (buildReturnNode errVar cp g1)), g1)
                     else (body, g1))
                  else
                    (let (code, g2) = renderHandler R clause names errVar g1
                     in (Add body (RawStmt code cp), g2)))))"

end
