(* ===== verification/LowerChain.thy ===== *)
theory LowerChain
  imports Lower
begin

text \<open>
  \<^verbatim>\<open>lower.go\<close> and \<^verbatim>\<open>codegen_onerr.go\<close>, second part: \<^verbatim>\<open>onerr\<close> on single expressions, on pipe chains and
  on piped switches, and the functions that emit the lowered code.
\<close>

section \<open>Single expressions\<close>

definition lowerOnErr ::
  "renderer \<Rightarrow> string \<Rightarrow> OnErrClause \<Rightarrow> string list \<Rightarrow> bool \<Rightarrow> generator \<Rightarrow> Block \<times> generator" where
  "lowerOnErr R expr clause names walrus g =
     (let (errVar, g1) = uniqueId ''err'' g;
          lhs = names @ [errVar];
          start = (if walrus then [Assign lhs expr True no_pos]
                   else [VarDecl errVar ''error'' [] no_pos, Assign lhs expr False no_pos]);
          (handlerBlock, g2) = lowerOnErrHandler R clause names errVar g1
      in (Add start (IfErrCheck errVar (Some handlerBlock) (clausePos (Some clause))), g2))"

definition lowerOnErrStmt ::
  "renderer \<Rightarrow> string \<Rightarrow> Expression \<Rightarrow> OnErrClause \<Rightarrow> generator \<Rightarrow> Block \<times> generator" where
  "lowerOnErrStmt R exprStr e clause g =
     (let (errVar, g1) = uniqueId ''err'' g;
          (start, blanks) =
            (case inferReturnCount e g1 of
               Some count \<Rightarrow> ([], if count > 1 then replicate (nat (count - 1)) ''_'' else [])
             | None \<Rightarrow>
                 ([IrComment ''kukicha: could not infer return count; use explicit capture if incorrect''], []));
          block = Add start (Assign (blanks @ [errVar]) exprStr True (posOf e));
          (handlerBlock, g2) = lowerOnErrHandler R clause [] errVar g1
      in (Add block (IfErrCheck errVar (Some handlerBlock) (clausePos (Some clause))), g2))"

text \<open>\<^verbatim>\<open>nameStrs\<close> is not empty; its last name is the error variable unless it is blank.\<close>

definition lowerOnErrWithExplicitErr ::
  "renderer \<Rightarrow> string list \<Rightarrow> string \<Rightarrow> OnErrClause \<Rightarrow> bool \<Rightarrow> generator \<Rightarrow> Block \<times> generator" where
  "lowerOnErrWithExplicitErr R nameStrs expr clause walrus g =
     (let (errVar, g1) = (if last nameStrs = ''_'' then uniqueId ''err'' g else (last nameStrs, g));
          names = butlast nameStrs;
          (handlerBlock, g2) = lowerOnErrHandler R clause names errVar g1
      in ([Assign (names @ [errVar]) expr walrus no_pos,
           IfErrCheck errVar (Some handlerBlock) (clausePos (Some clause))], g2))"

section \<open>Pipe chains with an error check per step\<close>

text \<open>\<^verbatim>\<open>addStepComment\<close>: \<open>n\<close> counts the commented steps before.\<close>

definition stepComment :: "nat \<Rightarrow> Expression \<Rightarrow> Node" where
  "stepComment n e = IrComment (''pipe step '' @ utoa (n + 1) @ '': '' @ summarizeExpr e)"

text \<open>How an error is checked: the names the handler may assign to, the error variable, and the node
  with the check.\<close>

type_synonym checker = "string list \<Rightarrow> string \<Rightarrow> generator \<Rightarrow> Node \<times> generator"

definition handlerCheck :: "renderer \<Rightarrow> OnErrClause \<Rightarrow> checker" where
  "handlerCheck R clause names errVar g =
     (let (handlerBlock, g1) = lowerOnErrHandler R clause names errVar g
      in (IfErrCheck errVar (Some handlerBlock) (clausePos (Some clause)), g1))"

definition gotoCheck :: "string \<Rightarrow> string \<Rightarrow> checker" where
  "gotoCheck onErrLabel pipeErrVar names errVar g =
     (IfErrCheck errVar (Some [Assign [pipeErrVar] errVar False no_pos, Goto onErrLabel]) no_pos, g)"

definition returnsError :: "Expression \<Rightarrow> generator \<Rightarrow> bool" where
  "returnsError e g = (case inferReturnCount e g of Some count \<Rightarrow> count \<ge> 2 | None \<Rightarrow> False)"

definition handlerNames :: "string list \<Rightarrow> string \<Rightarrow> string \<Rightarrow> string list" where
  "handlerNames names var targetName =
     (if length names = 0 \<and> var = targetName \<and> targetName \<noteq> [] then [targetName] else names)"

definition warnUnknown :: "Expression \<Rightarrow> generator \<Rightarrow> generator" where
  "warnUnknown step g =
     (if isUnknownSingleReturn step g
      then gen_warn (case ExprPos step of Some p \<Rightarrow> p | None \<Rightarrow> no_position)
             (''return type of '' @ squoted (summarizeExpr step) @
              '' is unknown; if it returns error, that error is unchecked in this pipe chain'') g
      else g)"

text \<open>The loop over the steps. \<open>lastErr\<close> is the index of the step whose result goes to the target,
  \<open>i\<close> the index of the first step of the list and \<open>n\<close> the number of comments so far.\<close>

fun chainSteps :: "renderer \<Rightarrow> (Expression \<Rightarrow> string) \<Rightarrow> checker \<Rightarrow> string list \<Rightarrow> string \<Rightarrow> int \<Rightarrow> int \<Rightarrow> nat \<Rightarrow>
    Expression list \<Rightarrow> string \<Rightarrow> Block \<Rightarrow> generator \<Rightarrow> (Block \<times> string) option \<times> generator" where
  "chainSteps R T chk names targetName lastErr i n [] cur block g = (Some (block, cur), g)"
| "chainSteps R T chk names targetName lastErr i n (step # steps) cur block g =
     (let (call, g1) = generatePipedStepCall R T step cur g
      in case call of None \<Rightarrow> (None, g1)
         | Some callExpr \<Rightarrow>
             if returnsError step g1 then
               (let (fresh, g2) = uniqueId ''pipe'' g1;
                    nxt = (if targetName \<noteq> [] \<and> i = lastErr then targetName else fresh);
                    (errVar, g3) = uniqueId ''err'' g2;
                    g4 = recordVar nxt step g3;
                    block1 = Add (Add block (stepComment n step)) (Assign [nxt, errVar] callExpr True (posOf step));
                    (c, g5) = chk (handlerNames names nxt targetName) errVar g4
                in chainSteps R T chk names targetName lastErr (i + 1) (n + 1) steps nxt (Add block1 c) g5)
             else if isErrorOnlyReturn step g1 then
               (let (errVar, g2) = uniqueId ''err'' g1;
                    block1 = Add (Add block (stepComment n step)) (Assign [errVar] callExpr True (posOf step));
                    (c, g3) = chk names errVar g2
                in chainSteps R T chk names targetName lastErr (i + 1) (n + 1) steps cur (Add block1 c) g3)
             else chainSteps R T chk names targetName lastErr (i + 1) n steps callExpr block (warnUnknown step g1))"

text \<open>The base: it becomes a variable only if it returns an error too.\<close>

definition chainBase :: "renderer \<Rightarrow> checker \<Rightarrow> string list \<Rightarrow> string \<Rightarrow> bool \<Rightarrow> Expression \<Rightarrow> generator \<Rightarrow>
    nat \<times> string \<times> Block \<times> generator" where
  "chainBase R chk names targetName toTarget base g =
     (let (cur, g1) = exprToString R base g
      in if returnsError base g1 then
           (let (fresh, g2) = uniqueId ''pipe'' g1;
                tempVar = (if toTarget then targetName else fresh);
                (errVar, g3) = uniqueId ''err'' g2;
                g4 = recordVar tempVar base g3;
                block = [stepComment 0 base, Assign [tempVar, errVar] cur True (posOf base)];
                (c, g5) = chk (handlerNames names tempVar targetName) errVar g4
            in (1, tempVar, Add block c, g5))
         else (0, cur, [], g1))"

text \<open>The pre-scan: the index of the last step that returns an error, \<open>-1\<close> if there is none.\<close>

fun lastErrIndex :: "Expression list \<Rightarrow> int \<Rightarrow> int \<Rightarrow> generator \<Rightarrow> int" where
  "lastErrIndex [] i found g = found"
| "lastErrIndex (s # ss) i found g = lastErrIndex ss (i + 1) (if returnsError s g then i else found) g"

definition lowerOnErrPipeChain :: "renderer \<Rightarrow> (Expression \<Rightarrow> string) \<Rightarrow> Expression \<Rightarrow> OnErrClause \<Rightarrow> string list \<Rightarrow>
    string \<Rightarrow> generator \<Rightarrow> (Block \<times> string) option \<times> generator" where
  "lowerOnErrPipeChain R T pipe clause names targetName g =
     (case flattenPipeChain pipe of None \<Rightarrow> (None, g)
      | Some (base, steps) \<Rightarrow>
          (if base = NilExpr \<or> steps = [] then (None, g)
           else
             (let lastErr = (if targetName \<noteq> [] then lastErrIndex steps 0 (- 1) g else - 1);
                  toTarget = (targetName \<noteq> [] \<and> lastErr = - 1 \<and> list_all (\<lambda>s. isErrorOnlyReturn s g) steps);
                  (n, cur, block, g1) = chainBase R (handlerCheck R clause) names targetName toTarget base g
              in chainSteps R T (handlerCheck R clause) names targetName lastErr 0 n steps cur block g1)))"

definition lowerOnErrPipeChainWithLabels :: "renderer \<Rightarrow> (Expression \<Rightarrow> string) \<Rightarrow> Expression \<Rightarrow> string \<Rightarrow> string \<Rightarrow>
    generator \<Rightarrow> (Block \<times> string) option \<times> generator" where
  "lowerOnErrPipeChainWithLabels R T pipe onErrLabel pipeErrVar g =
     (case flattenPipeChain pipe of None \<Rightarrow> (None, g)
      | Some (base, steps) \<Rightarrow>
          (let (n, cur, block, g1) = chainBase R (gotoCheck onErrLabel pipeErrVar) [] [] False base g
           in chainSteps R T (gotoCheck onErrLabel pipeErrVar) [] [] (- 1) 0 n steps cur block g1))"

section \<open>Piped switches\<close>

text \<open>The value that is switched on: a lowered chain, or a base with one error check, or an
  expression.\<close>

definition pipedSwitchValue :: "renderer \<Rightarrow> (Expression \<Rightarrow> string) \<Rightarrow> Expression \<Rightarrow> string \<Rightarrow> string \<Rightarrow> generator \<Rightarrow>
    (Block \<times> string) option \<times> generator" where
  "pipedSwitchValue R T left onErrLabel pipeErrVar g =
     (case left of
        PipeExpr t l r m \<Rightarrow> lowerOnErrPipeChainWithLabels R T left onErrLabel pipeErrVar g
      | _ \<Rightarrow>
          (let (baseExpr, g1) = exprToString R left g
           in if returnsError left g1 then
                (let (tempVar, g2) = uniqueId ''pipe'' g1; (errVar, g3) = uniqueId ''err'' g2;
                     g4 = recordVar tempVar left g3
                 in (Some ([Assign [tempVar, errVar] baseExpr True (posOf left),
                            IfErrCheck errVar (Some [Assign [pipeErrVar] errVar False no_pos, Goto onErrLabel]) no_pos],
                           tempVar), g4))
              else (Some ([], baseExpr), g1)))"

definition name_expr :: "string \<Rightarrow> Expression" where
  "name_expr n = Ident (Identifier no_token n)"

definition extractDefaultValue :: "renderer \<Rightarrow> OnErrClause \<Rightarrow> generator \<Rightarrow> string \<times> generator" where
  "extractDefaultValue R clause g =
     (case clause of (t, handler, _) \<Rightarrow>
        (case handler of
           StringExpr _ _ _ _ _ \<Rightarrow> exprToString R handler g
         | IntegerLiteral _ _ \<Rightarrow> exprToString R handler g
         | FloatLiteral _ _ \<Rightarrow> exprToString R handler g
         | BooleanLiteral _ _ \<Rightarrow> exprToString R handler g
         | EmptyExpr _ _ \<Rightarrow> (''nil'', g)
         | _ \<Rightarrow> ([], g)))"

text \<open>Go puts a name in place of the piped expression by changing the node of the switch, which stays the key of
  the type that the analysis recorded for it: while the changed node is rendered, the type of the old one
  counts for it.\<close>

definition retype :: "Expression \<Rightarrow> Expression \<Rightarrow> generator \<Rightarrow> generator" where
  "retype old new g =
     g\<lparr>exprTypes := map_option (\<lambda>m.
         case map_of m old of Some ti \<Rightarrow> (new, ti) # m | None \<Rightarrow> filter (\<lambda>(e, ti). e \<noteq> new) m) (exprTypes g)\<rparr>"

text \<open>The switch as an expression is rendered one level deeper, with the value in place of the piped
  expression.\<close>

definition lowerPipedSwitchVarDecl :: "renderer \<Rightarrow> (Expression \<Rightarrow> string) \<Rightarrow> string \<Rightarrow> token \<Rightarrow> Expression \<Rightarrow> Statement \<Rightarrow>
    OnErrClause \<Rightarrow> string list \<Rightarrow> generator \<Rightarrow> Block option \<times> generator" where
  "lowerPipedSwitchVarDecl R T varName t left sw clause names g =
     (let inferred = pipedSwitchReturnType R (PipedSwitchExpr t left sw) g;
          g1 = (if inferred = [] then gen_warn (token_pos t)
                  (''piped switch return type could not be inferred; generated as '' @ squoted ''any'' @ '' '' @
                   utf8_encode 0x2014 @ '' ensure all branches return the same type'') g
                else g);
          returnType = (if inferred = [] then ''any'' else inferred);
          (onErrLabel, g2) = uniqueId ''onerr'' g1;
          (endLabel, g3) = uniqueId ''end'' g2;
          (pipeErrVar, g4) = uniqueId ''pipeErr'' g3;
          (handlerDefault, g5) = extractDefaultValue R clause g4;
          start = [VarDecl pipeErrVar ''error'' [] no_pos, VarDecl varName returnType handlerDefault (posOf left)];
          (v, g6) = pipedSwitchValue R T left onErrLabel pipeErrVar g5
      in case v of None \<Rightarrow> (None, g6)
         | Some (inner, value) \<Rightarrow>
             (let changed = PipedSwitchExpr t (name_expr value) sw;
                  (switchStr, g7) = generatePipedSwitchExpr R changed
                    (retype (PipedSwitchExpr t left sw) changed (g6\<lparr>indent := indent g6 + 1\<rparr>));
                  g8 = g7\<lparr>indent := indent g6, exprTypes := exprTypes g6\<rparr>;
                  body = inner @ [Assign [varName] switchStr False no_pos, Goto endLabel];
                  (handlerBlock, g9) =
                    (if handlerDefault = [] then lowerOnErrHandler R clause names pipeErrVar g8 else ([], g8))
              in (Some (start @ [ScopedBlock (Some body), Label onErrLabel] @ handlerBlock @ [Label endLabel]), g9)))"

text \<open>\<^verbatim>\<open>renderSwitchStmt\<close>\<close>

definition replaceSubject :: "string \<Rightarrow> Statement \<Rightarrow> Statement" where
  "replaceSubject value sw =
     (case sw of
        SwitchStmt t e cs ow \<Rightarrow> SwitchStmt t (name_expr value) cs ow
      | TypeSwitchStmt t e b cs ow \<Rightarrow> TypeSwitchStmt t (name_expr value) b cs ow
      | _ \<Rightarrow> sw)"

definition renderSwitchStmt :: "renderer \<Rightarrow> Statement \<Rightarrow> string \<Rightarrow> generator \<Rightarrow> string \<times> generator" where
  "renderSwitchStmt R sw value g =
     (let g1 = g\<lparr>genOutput := [], indent := 0\<rparr>;
          g2 = (case sw of
                  SwitchStmt t e cs ow \<Rightarrow> generateSwitch R (replaceSubject value sw) g1
                | TypeSwitchStmt t e b cs ow \<Rightarrow> generateSwitch R (replaceSubject value sw) g1
                | _ \<Rightarrow> g1)
      in (trim_right (genOutput g2) [CHR 0x0A], g2\<lparr>genOutput := genOutput g, indent := indent g\<rparr>))"

definition lowerPipedSwitchStmt :: "renderer \<Rightarrow> (Expression \<Rightarrow> string) \<Rightarrow> Expression \<Rightarrow> Statement \<Rightarrow> OnErrClause \<Rightarrow>
    generator \<Rightarrow> Block option \<times> generator" where
  "lowerPipedSwitchStmt R T left sw clause g =
     (let (onErrLabel, g1) = uniqueId ''onerr'' g;
          (endLabel, g2) = uniqueId ''end'' g1;
          (pipeErrVar, g3) = uniqueId ''pipeErr'' g2;
          (v, g4) = pipedSwitchValue R T left onErrLabel pipeErrVar g3
      in case v of None \<Rightarrow> (None, g4)
         | Some (inner, value) \<Rightarrow>
             (let (switchStr, g5) = renderSwitchStmt R sw value g4;
                  body = inner @ [RawStmt switchStr no_pos, Goto endLabel];
                  (handlerBlock, g6) = lowerOnErrHandler R clause [value] pipeErrVar g5
              in (Some ([VarDecl pipeErrVar ''error'' [] no_pos, ScopedBlock (Some body), Label onErrLabel] @
                        handlerBlock @ [Label endLabel]), g6)))"

section \<open>The statements\<close>

definition is_discard :: "OnErrClause \<Rightarrow> bool" where
  "is_discard clause = (case clause of (t, DiscardExpr d, _) \<Rightarrow> True | _ \<Rightarrow> False)"

text \<open>\<^verbatim>\<open>emitOnErrDiscard\<close>; \<^term>\<open>None\<close> is the result \<^verbatim>\<open>false\<close>. At statement level there are no targets.\<close>

definition emitOnErrDiscard :: "renderer \<Rightarrow> OnErrClause \<Rightarrow> string list option \<Rightarrow> string \<Rightarrow> string \<Rightarrow> bool \<Rightarrow> Expression \<Rightarrow>
    generator \<Rightarrow> generator option" where
  "emitOnErrDiscard R clause lhsParts op valueExpr isMultiReturn e g =
     (if \<not> is_discard clause then None
      else Some
        (case lhsParts of
           None \<Rightarrow>
             (let (s, g1) = exprToString R e g
              in case inferReturnCount e g of
                   None \<Rightarrow> writeLine s g1
                 | Some count \<Rightarrow>
                     if count = 0 then writeLine s g1
                     else writeLine (go_join (replicate (nat count) ''_'') '', '' @ '' = '' @ s) g1)
         | Some lhs \<Rightarrow>
             if isMultiReturn then writeLine (go_join lhs '', '' @ '' '' @ op @ '' '' @ valueExpr) g
             else writeLine (go_join (lhs @ [''_'']) '', '' @ '' '' @ op @ '' '' @ valueExpr) g))"

text \<open>\<^verbatim>\<open>generateOnErrPipeChain\<close>: the final expression, if the chain could be lowered.\<close>

definition generateOnErrPipeChain :: "renderer \<Rightarrow> (Expression \<Rightarrow> string) \<Rightarrow> Expression \<Rightarrow> OnErrClause \<Rightarrow> string list \<Rightarrow>
    string \<Rightarrow> generator \<Rightarrow> string option \<times> generator" where
  "generateOnErrPipeChain R T pipe clause names targetName g =
     (case lowerOnErrPipeChain R T pipe clause names targetName g of
        (None, g1) \<Rightarrow> (None, g1)
      | (Some (block, finalVar), g1) \<Rightarrow> (Some finalVar, emitIR (Some block) g1))"

definition is_pipe :: "Expression \<Rightarrow> bool" where
  "is_pipe e = (case e of PipeExpr t l r m \<Rightarrow> True | _ \<Rightarrow> False)"

text \<open>The part of \<^verbatim>\<open>generateOnErrVarDecl\<close> and \<^verbatim>\<open>generateOnErrAssign\<close> for a value that is no pipe.\<close>

definition generateOnErrValue :: "renderer \<Rightarrow> string list \<Rightarrow> nat \<Rightarrow> string \<Rightarrow> OnErrClause \<Rightarrow> bool \<Rightarrow> generator \<Rightarrow> generator" where
  "generateOnErrValue R lhs valueCount valueExpr clause walrus g =
     (let many = (length lhs > 1 \<and> valueCount = 1)
      in case emitOnErrDiscard R clause (Some lhs) (if walrus then '':='' else ''='') valueExpr many NilExpr g of
           Some g1 \<Rightarrow> g1
         | None \<Rightarrow>
             (let (block, g1) = (if many then lowerOnErrWithExplicitErr R lhs valueExpr clause walrus g
                                 else lowerOnErr R valueExpr clause lhs walrus g)
              in emitIR (Some block) g1))"

definition generateOnErrVarDecl :: "renderer \<Rightarrow> (Expression \<Rightarrow> string) \<Rightarrow> string list \<Rightarrow> Expression list \<Rightarrow> OnErrClause \<Rightarrow>
    generator \<Rightarrow> generator" where
  "generateOnErrVarDecl R T names values clause g =
     (let (ss, g1) = exprStrings R values g; valueExpr = go_join ss '', ''
      in if length names = 1 \<and> length values = 1 then
           (case values ! 0 of
              PipeExpr t l r m \<Rightarrow>
                (case generateOnErrPipeChain R T (values ! 0) clause [] (names ! 0) g1 of
                   (Some finalVar, g2) \<Rightarrow>
                     if finalVar \<noteq> names ! 0 then writeLine (names ! 0 @ '' := '' @ finalVar) g2 else g2
                 | (None, g2) \<Rightarrow> generateOnErrValue R names 1 valueExpr clause True g2)
            | PipedSwitchExpr t left sw \<Rightarrow>
                (case lowerPipedSwitchVarDecl R T (names ! 0) t left sw clause names g1 of
                   (Some block, g2) \<Rightarrow> emitIR (Some block) g2
                 | (None, g2) \<Rightarrow> generateOnErrValue R names 1 valueExpr clause True g2)
            | _ \<Rightarrow> generateOnErrValue R names 1 valueExpr clause True g1)
         else generateOnErrValue R names (length values) valueExpr clause True g1)"

definition generateOnErrStmt :: "renderer \<Rightarrow> (Expression \<Rightarrow> string) \<Rightarrow> Expression \<Rightarrow> OnErrClause \<Rightarrow> generator \<Rightarrow> generator" where
  "generateOnErrStmt R T e clause g =
     (let single = (\<lambda>g. case emitOnErrDiscard R clause None [] [] False e g of
            Some g1 \<Rightarrow> g1
          | None \<Rightarrow>
              (let (s, g1) = exprToString R e g; (block, g2) = lowerOnErrStmt R s e clause g1
               in emitIR (Some block) g2))
      in case e of
           PipeExpr t l r m \<Rightarrow>
             (case generateOnErrPipeChain R T e clause [] [] g of
                (Some finalVar, g1) \<Rightarrow> writeLine (''_ = '' @ finalVar) g1
              | (None, g1) \<Rightarrow> single g1)
         | PipedSwitchExpr t left sw \<Rightarrow>
             (case lowerPipedSwitchStmt R T left sw clause g of
                (Some block, g1) \<Rightarrow> emitIR (Some block) g1
              | (None, g1) \<Rightarrow> g1)
         | _ \<Rightarrow> single g)"

fun ident_names :: "Expression list \<Rightarrow> string list" where
  "ident_names [] = []"
| "ident_names (Ident i # es) = identValue i # ident_names es"
| "ident_names (_ # es) = ident_names es"

definition generateOnErrAssign :: "renderer \<Rightarrow> (Expression \<Rightarrow> string) \<Rightarrow> Expression list \<Rightarrow> Expression list \<Rightarrow> OnErrClause \<Rightarrow>
    generator \<Rightarrow> generator" where
  "generateOnErrAssign R T targets values clause g =
     (let (ss, g1) = exprStrings R values g; valueExpr = go_join ss '', '';
          plain = (\<lambda>g. let (lhs, g2) = exprStrings R targets g
                       in generateOnErrValue R lhs (length values) valueExpr clause False g2)
      in if length targets = 1 \<and> length values = 1 \<and> is_pipe (values ! 0) then
           (case generateOnErrPipeChain R T (values ! 0) clause (ident_names targets) [] g1 of
              (Some finalVar, g2) \<Rightarrow>
                (let (targetStr, g3) = exprToString R (targets ! 0) g2
                 in if targetStr \<noteq> ''_'' \<or> \<not> contains_char finalVar CHR ''(''
                    then writeLine (targetStr @ '' = '' @ finalVar) g3 else g3)
            | (None, g2) \<Rightarrow> plain g2)
         else plain g1)"

end
