(* ===== verification/IrSem.thy ===== *)
theory IrSem
  imports Ir
begin

text \<open>
  What lowered code does: a semantics of the statements of \<^verbatim>\<open>ir/ir.go\<close> as the Go statements that
  \<^verbatim>\<open>emit.go\<close> writes for them. The meaning of the expressions and raw statements in them, which are Go
  text, is a parameter. Variables are identified by their names; the temporaries of the lowering are
  fresh (\<open>Generator.fresh_names_distinct\<close>).
\<close>

datatype 'v outcome = Normal | Jump string | Returned "'v list" | Left string

type_synonym 'v env = "string \<Rightarrow> 'v"

record ('v, 'w) go =
  evalExpr :: "string \<Rightarrow> 'v env \<Rightarrow> 'w \<Rightarrow> 'v list \<times> 'w"
  runRaw :: "string \<Rightarrow> 'v env \<Rightarrow> 'w \<Rightarrow> 'v outcome \<times> 'v env \<times> 'w"
  isNil :: "'v \<Rightarrow> bool"
  zeroOf :: "string \<Rightarrow> 'v"

text \<open>Assignment to a list of names; the blank name takes no value.\<close>

fun assign_all :: "string list \<Rightarrow> 'v list \<Rightarrow> 'v env \<Rightarrow> 'v env" where
  "assign_all (x # xs) (v # vs) env = assign_all xs vs (if x = ''_'' then env else env(x := v))"
| "assign_all _ _ env = env"

text \<open>The values of a list of expressions, from left to right.\<close>

fun eval_all :: "('v, 'w) go \<Rightarrow> string list \<Rightarrow> 'v env \<Rightarrow> 'w \<Rightarrow> 'v list \<times> 'w" where
  "eval_all G [] env w = ([], w)"
| "eval_all G (e # es) env w =
     (let (vs, w1) = evalExpr G e env w; (us, w2) = eval_all G es env w1 in (vs @ us, w2))"

text \<open>All jumps of lowered code go forward: a jump resumes after its label in the same list, or leaves
  the list.\<close>

definition after_label :: "string \<Rightarrow> Block \<Rightarrow> Block option" where
  "after_label l ns = (case dropWhile (\<lambda>n. n \<noteq> Label l) ns of [] \<Rightarrow> None | _ # ms \<Rightarrow> Some ms)"

lemma after_label_shorter: "after_label l ns = Some ms \<Longrightarrow> size_list size ms \<le> size_list size ns"
  by (induction ns) (auto simp: after_label_def split: list.splits if_splits)

function (sequential)
  exec_node :: "('v, 'w) go \<Rightarrow> Node \<Rightarrow> 'v env \<times> 'w \<Rightarrow> 'v outcome \<times> 'v env \<times> 'w"
and exec :: "('v, 'w) go \<Rightarrow> Block \<Rightarrow> 'v env \<times> 'w \<Rightarrow> 'v outcome \<times> 'v env \<times> 'w"
where
  "exec_node G (Assign names e walrus p) (env, w) =
     (let (vs, w1) = evalExpr G e env w in (Normal, assign_all names vs env, w1))"
| "exec_node G (VarDecl name ty value p) (env, w) =
     (if value = [] then (Normal, env(name := zeroOf G ty), w)
      else (let (vs, w1) = evalExpr G value env w in (Normal, assign_all [name] vs env, w1)))"
| "exec_node G (IfErrCheck v body p) (env, w) =
     (if isNil G (env v) then (Normal, env, w)
      else (case body of None \<Rightarrow> (Normal, env, w) | Some ns \<Rightarrow> exec G ns (env, w)))"
| "exec_node G (Goto l) (env, w) = (Jump l, env, w)"
| "exec_node G (Label l) (env, w) = (Normal, env, w)"
| "exec_node G (ScopedBlock body) (env, w) =
     (case body of None \<Rightarrow> (Normal, env, w) | Some ns \<Rightarrow> exec G ns (env, w))"
| "exec_node G (RawStmt code p) (env, w) = runRaw G code env w"
| "exec_node G (IrReturnStmt values p) (env, w) =
     (let (vs, w1) = eval_all G values env w in (Returned vs, env, w1))"
| "exec_node G (IrExprStmt e p) (env, w) = runRaw G e env w"
| "exec_node G (IrComment t) (env, w) = (Normal, env, w)"
| "exec_node G (IrBlock ns) (env, w) = exec G ns (env, w)"
| "exec G [] s = (Normal, s)"
| "exec G (n # ns) s =
     (case exec_node G n s of
        (Normal, s1) \<Rightarrow> exec G ns s1
      | (Jump l, s1) \<Rightarrow> (case after_label l ns of None \<Rightarrow> (Jump l, s1) | Some ms \<Rightarrow> exec G ms s1)
      | (r, s1) \<Rightarrow> (r, s1))"
  by pat_completeness auto
termination
  by (relation "measure (\<lambda>x. case x of Inl (_, n, _) \<Rightarrow> size n | Inr (_, ns, _) \<Rightarrow> size_list size ns)")
    (auto dest: after_label_shorter)

section \<open>Straight-line code\<close>

definition no_labels :: "Block \<Rightarrow> bool" where
  "no_labels ns \<longleftrightarrow> (\<forall>l. Label l \<notin> set ns)"

lemma no_labels_simps [simp]:
  "no_labels []" "no_labels (n # ns) \<longleftrightarrow> (\<forall>l. n \<noteq> Label l) \<and> no_labels ns"
  "no_labels (ms @ ns) \<longleftrightarrow> no_labels ms \<and> no_labels ns"
  by (auto simp: no_labels_def)

lemma after_label_none: "no_labels ns \<Longrightarrow> after_label l ns = None"
  by (induction ns) (auto simp: after_label_def)

lemma exec_step:
  "no_labels ns \<Longrightarrow> exec G (n # ns) s =
     (case exec_node G n s of (r, s1) \<Rightarrow> if r = Normal then exec G ns s1 else (r, s1))"
  by (auto simp: after_label_none split: outcome.splits prod.splits)

lemma exec_append:
  "no_labels ms \<Longrightarrow> no_labels ns \<Longrightarrow> exec G (ms @ ns) s =
     (case exec G ms s of (r, s1) \<Rightarrow> if r = Normal then exec G ns s1 else (r, s1))"
proof (induction ms arbitrary: s)
  case (Cons m ms)
  then show ?case
    by (simp add: exec_step del: exec.simps(2) split: prod.splits)
qed simp

text \<open>A block that never falls through.\<close>

definition diverts :: "('v, 'w) go \<Rightarrow> Block \<Rightarrow> bool" where
  "diverts G ns \<longleftrightarrow> (\<forall>s. fst (exec G ns s) \<noteq> Normal)"

end
