(* ===== verification/ChainSem.thy ===== *)
theory ChainSem
  imports LowerChain IrSem
begin

text \<open>
  The contract of \<^verbatim>\<open>onerr\<close> on a pipe chain, and what lowering relies on to meet it: the reference
  run of a chain, the assumptions on the rendering of expressions and on the meaning of Go text, and
  what every part of the lowering leaves unchanged in the generator.
\<close>

section \<open>What lowering keeps\<close>

text \<open>What the generator knows while it works on a function: the declarations, what the analysis found, the
  result types, the placeholders, names and aliases. What it writes, counts and collects is left out, and so
  are the indent and the caught error, which handlers set and restore.\<close>

definition facts :: "generator \<Rightarrow> (Program \<times> (Expression \<times> int) list option \<times>
    (Expression \<times> TypeInfo option) list option \<times> string list \<times> TypeAnnotation list) \<times>
    (string \<times> string) list option \<times> (string \<times> string) list \<times> (string \<times> FuncDefaults) list \<times>
    string list \<times> (string \<times> string) list \<times> bool \<times> string" where
  "facts g = ((program g, exprReturnCounts g, exprTypes g, reservedNames g, currentReturnTypes g),
     placeholderMap g, pkgAliases g, funcDefaults g, enumTypes g, variantCaseTypes g, mcpTarget g, stdlibModuleBase g)"

lemma facts_fields:
  assumes "facts h = facts g"
  shows "program h = program g" "exprReturnCounts h = exprReturnCounts g" "exprTypes h = exprTypes g"
    "reservedNames h = reservedNames g" "currentReturnTypes h = currentReturnTypes g"
    "placeholderMap h = placeholderMap g"
  using assms by (simp_all add: facts_def)

definition stable_renderer :: "renderer \<Rightarrow> bool" where
  "stable_renderer R \<longleftrightarrow>
     (\<forall>e g. facts (snd (exprToString R e g)) = facts g \<and> facts (snd (generateFieldAccessExpr R e g)) = facts g \<and>
            facts (snd (generateErrorExpr R e g)) = facts g) \<and>
     (\<forall>b g. facts (generateBlock R b g) = facts g)"

lemma facts_updates [simp]:
  "facts (g\<lparr>genOutput := s\<rparr>) = facts g" "facts (g\<lparr>indent := i\<rparr>) = facts g"
  "facts (g\<lparr>currentOnErrVar := s\<rparr>) = facts g" "facts (g\<lparr>currentOnErrAlias := s\<rparr>) = facts g"
  "facts (g\<lparr>varMap := vm\<rparr>) = facts g" "facts (g\<lparr>warnings := ws\<rparr>) = facts g"
  "facts (g\<lparr>autoImports := is\<rparr>) = facts g" "facts (g\<lparr>tempCounter := k\<rparr>) = facts g"
  by (simp_all add: facts_def)

lemma facts_helpers [simp]:
  "facts (addImport p g) = facts g" "facts (gen_warn q m g) = facts g" "facts (recordVar x e g) = facts g"
  "facts (warnUnknown e g) = facts g" "facts (gen_write s g) = facts g" "facts (writeLine s g) = facts g"
  "facts (snd (uniqueId pre g)) = facts g"
proof -
  show "facts (snd (uniqueId pre g)) = facts g"
    by (rule uniqueId_spec [of pre g]) simp
qed (simp_all add: addImport_def gen_warn_def recordVar_def warnUnknown_def writeLine_def gen_write_def
    Let_def split: option.splits)

lemma facts_writeLines [simp]: "facts (fold writeLine ss g) = facts g"
  by (induction ss arbitrary: g) simp_all

lemma known_results:
  assumes "facts g = facts h"
  shows "returnsError e g = returnsError e h" "isErrorOnlyReturn e g = isErrorOnlyReturn e h"
  using facts_fields [OF assms] by (simp_all add: returnsError_def isErrorOnlyReturn_def inferReturnCount_def)

lemma facts_exprToString: "stable_renderer R \<Longrightarrow> facts (snd (exprToString R e g)) = facts g"
  by (simp add: stable_renderer_def)

lemma facts_exprStrings: "stable_renderer R \<Longrightarrow> facts (snd (exprStrings R es g)) = facts g"
  by (induction es arbitrary: g) (auto simp: split_beta Let_def facts_exprToString)

lemma facts_fill: "stable_renderer R \<Longrightarrow> facts (snd (fill_placeholder R l es g)) = facts g"
  by (induction es arbitrary: g) (auto simp: split_beta Let_def facts_exprToString facts_exprStrings)

lemma facts_buildPipeArgs: "stable_renderer R \<Longrightarrow> facts (snd (buildPipeArgs R l es g)) = facts g"
  by (simp add: buildPipeArgs_def split_beta Let_def facts_fill facts_exprStrings)

lemma facts_stepCall: "stable_renderer R \<Longrightarrow> facts (snd (generatePipedStepCall R T e cur g)) = facts g"
  by (cases e) (simp_all add: generatePipedStepCall_def split_beta Let_def facts_buildPipeArgs
      facts_exprToString stable_renderer_def)

lemma facts_errorValueExpr: "stable_renderer R \<Longrightarrow> facts (snd (errorValueExpr R e v g)) = facts g"
  by (cases e) (simp_all add: errorValueExpr_def split_beta Let_def stable_renderer_def)

lemma facts_handlerValues: "stable_renderer R \<Longrightarrow> facts (snd (handlerValues R v es g)) = facts g"
proof (induction es arbitrary: g)
  case (Cons e es)
  then show ?case
    by (cases e) (simp_all add: split_beta Let_def facts_exprToString facts_errorValueExpr)
qed simp

lemma facts_handler: "stable_renderer R \<Longrightarrow> facts (generateOnErrHandler R names h v g) = facts g"
  by (cases h) (simp_all add: generateOnErrHandler_def split_beta Let_def facts_exprToString
      facts_errorValueExpr facts_handlerValues stable_renderer_def)

lemma facts_lowerOnErrHandler:
  "stable_renderer R \<Longrightarrow> facts (snd (lowerOnErrHandler R clause names v g)) = facts g"
  by (cases clause) (simp add: lowerOnErrHandler_def renderHandler_def split_beta Let_def facts_handler)

section \<open>The reference run\<close>

text \<open>The meaning of a step: from the piped value, the variables and the world to its results and
  the new world. A step that returns an error gives the value and the error, an error-only step the
  error, any other step the value. The run stops at the first error; an error-only step passes its
  input on.\<close>

type_synonym ('v, 'w) step_sem = "Expression \<Rightarrow> 'v \<Rightarrow> 'v env \<Rightarrow> 'w \<Rightarrow> 'v list \<times> 'w"

fun run_steps :: "('v \<Rightarrow> bool) \<Rightarrow> ('v, 'w) step_sem \<Rightarrow> generator \<Rightarrow> 'v env \<Rightarrow> Expression list \<Rightarrow>
    'v \<times> 'w \<Rightarrow> ('v \<times> 'w) + ('v \<times> 'w)" where
  "run_steps nl sem g env [] (v, w) = Inr (v, w)"
| "run_steps nl sem g env (s # ss) (v, w) =
     (let (vs, w1) = sem s v env w
      in if returnsError s g then
           (if nl (vs ! 1) then run_steps nl sem g env ss (vs ! 0, w1) else Inl (vs ! 1, w1))
         else if isErrorOnlyReturn s g then
           (if nl (vs ! 0) then run_steps nl sem g env ss (v, w1) else Inl (vs ! 0, w1))
         else run_steps nl sem g env ss (vs ! 0, w1))"

definition run_pipe :: "('v \<Rightarrow> bool) \<Rightarrow> ('v env \<Rightarrow> 'w \<Rightarrow> 'v list \<times> 'w) \<Rightarrow> ('v, 'w) step_sem \<Rightarrow> generator \<Rightarrow> 'v env \<Rightarrow>
    Expression \<Rightarrow> Expression list \<Rightarrow> 'w \<Rightarrow> ('v \<times> 'w) + ('v \<times> 'w)" where
  "run_pipe nl base_sem sem g env base steps w =
     (let (vs, w1) = base_sem env w
      in if returnsError base g \<and> \<not> nl (vs ! 1) then Inl (vs ! 1, w1)
         else run_steps nl sem g env steps (vs ! 0, w1))"

text \<open>The lowering keeps the value before an error-only step as text, so that step must come where
  the text is a variable: no call may be pending.\<close>

fun no_pending_call :: "generator \<Rightarrow> bool \<Rightarrow> Expression list \<Rightarrow> bool" where
  "no_pending_call g ready [] = True"
| "no_pending_call g ready (s # ss) =
     (if returnsError s g then no_pending_call g True ss
      else if isErrorOnlyReturn s g then ready \<and> no_pending_call g ready ss
      else no_pending_call g False ss)"

section \<open>The meaning of Go text\<close>

definition generated_name :: "string list \<Rightarrow> string \<Rightarrow> bool" where
  "generated_name rs x \<longleftrightarrow> x \<notin> set rs \<and> (\<exists>p n. x = temp_name p n)"

text \<open>The variables of the program have their values, whatever the temporaries hold.\<close>

definition user_agree :: "string list \<Rightarrow> 'v env \<Rightarrow> 'v env \<Rightarrow> bool" where
  "user_agree rs env env' \<longleftrightarrow> (\<forall>x. \<not> generated_name rs x \<longrightarrow> env' x = env x)"

text \<open>The text of a step's call means: evaluate the text of the piped value, then run the step. The
  step reads the variables of the program only and has the number of results that is known of it.\<close>

definition step_rendered :: "('v, 'w) go \<Rightarrow> renderer \<Rightarrow> (Expression \<Rightarrow> string) \<Rightarrow> ('v, 'w) step_sem \<Rightarrow> generator \<Rightarrow>
    Expression \<Rightarrow> bool" where
  "step_rendered G R T sem g s \<longleftrightarrow>
     (\<forall>cur h c h1 env w v w1. generatePipedStepCall R T s cur h = (Some c, h1) \<longrightarrow>
        evalExpr G cur env w = ([v], w1) \<longrightarrow> evalExpr G c env w = sem s v env w1) \<and>
     (\<forall>v env env' w. user_agree (reservedNames g) env env' \<longrightarrow> sem s v env' w = sem s v env w) \<and>
     (\<forall>v env w. length (fst (sem s v env w)) = (if returnsError s g then 2 else 1))"

definition base_rendered :: "('v, 'w) go \<Rightarrow> renderer \<Rightarrow> ('v env \<Rightarrow> 'w \<Rightarrow> 'v list \<times> 'w) \<Rightarrow> generator \<Rightarrow> Expression \<Rightarrow> bool" where
  "base_rendered G R base_sem g base \<longleftrightarrow>
     (\<forall>env w. evalExpr G (fst (exprToString R base g)) env w = base_sem env w) \<and>
     (\<forall>env env' w. user_agree (reservedNames g) env env' \<longrightarrow> base_sem env' w = base_sem env w) \<and>
     (\<forall>env w. length (fst (base_sem env w)) = (if returnsError base g then 2 else 1))"

text \<open>A temporary as an expression is its value.\<close>

definition reads_temporaries :: "('v, 'w) go \<Rightarrow> bool" where
  "reads_temporaries G \<longleftrightarrow>
     (\<forall>p\<in>{''pipe'', ''err''}. \<forall>n env w. evalExpr G (temp_name p n) env w = ([env (temp_name p n)], w))"

end
