(* ===== verification/ChainCorrect.thy ===== *)
theory ChainCorrect
  imports ChainSem
begin

text \<open>
  Lowered \<^verbatim>\<open>onerr\<close> chains meet their contract: running the block that \<^verbatim>\<open>lowerOnErrPipeChain\<close> builds runs the
  steps in order up to the first error and then the handler, and nothing else.
\<close>

section \<open>The block of a chain\<close>

lemma chainSteps_prefix:
  "chainSteps R T chk names target le i n steps cur (pre @ block) g =
     (case chainSteps R T chk names target le i n steps cur block g of
        (r, g1) \<Rightarrow> (map_option (\<lambda>(b, c). (pre @ b, c)) r, g1))"
proof (induction steps arbitrary: i n cur block g)
  case (Cons s ss)
  show ?case
    by (simp add: Let_def split_beta Add_def Cons.IH split: option.splits)
qed simp

text \<open>A checker builds a check whose handler never falls through, in every state with the same facts.\<close>

definition check_ok :: "('v, 'w) go \<Rightarrow> checker \<Rightarrow> string list \<Rightarrow> generator \<Rightarrow> (string \<Rightarrow> Block \<Rightarrow> bool) \<Rightarrow> bool" where
  "check_ok G chk names g H \<longleftrightarrow>
     (\<forall>e h. facts h = facts g \<longrightarrow> (\<exists>b p h1. chk names e h = (IfErrCheck e (Some b) p, h1) \<and>
        facts h1 = facts g \<and> diverts G b \<and> H e b))"

lemma check_okE:
  assumes "check_ok G chk names g H" "facts h = facts g"
  obtains b p h1 where "chk names e h = (IfErrCheck e (Some b) p, h1)" "facts h1 = facts g" "diverts G b" "H e b"
  using assms unfolding check_ok_def by blast

lemma fresh_idE:
  assumes "facts h = facts g"
  obtains k where "uniqueId pre h = (temp_name pre k, h\<lparr>tempCounter := k\<rparr>)"
    "temp_name pre k \<notin> set (reservedNames g)"
proof -
  have "reservedNames h = reservedNames g" using facts_fields(4) [OF assms] .
  then show ?thesis by (metis that uniqueId_spec [of pre h])
qed

abbreviation pipe_var :: "nat \<Rightarrow> string" where "pipe_var k \<equiv> temp_name ''pipe'' k"
abbreviation err_var :: "nat \<Rightarrow> string" where "err_var k \<equiv> temp_name ''err'' k"

text \<open>The nodes of a checked step, and the whole block when the first step is checked.\<close>

definition checked :: "nat \<Rightarrow> Expression \<Rightarrow> string list \<Rightarrow> string \<Rightarrow> string \<Rightarrow> Block \<Rightarrow> SourcePos \<Rightarrow> Block" where
  "checked n s names c e b p = [stepComment n s, Assign names c True (posOf s), IfErrCheck e (Some b) p]"

lemma chain_error_step:
  assumes chk: "check_ok G chk names g H" and "facts h1 = facts g" and "returnsError s h1"
    and call: "generatePipedStepCall R T s cur h = (Some c, h1)"
    and chain: "chainSteps R T chk names [] le i n (s # ss) cur [] h = (Some (new, cur'), h')"
  obtains k j b p h2 new' where
    "new = checked n s [pipe_var k, err_var j] c (err_var j) b p @ new'"
    "chainSteps R T chk names [] le (i + 1) (n + 1) ss (pipe_var k) [] h2 = (Some (new', cur'), h')"
    "facts h2 = facts g" "diverts G b" "H (err_var j) b"
    "pipe_var k \<notin> set (reservedNames g)" "err_var j \<notin> set (reservedNames g)"
proof -
  obtain k where k: "uniqueId ''pipe'' h1 = (pipe_var k, h1\<lparr>tempCounter := k\<rparr>)"
    "pipe_var k \<notin> set (reservedNames g)"
    using assms(2) by (rule fresh_idE)
  obtain j where j: "uniqueId ''err'' (h1\<lparr>tempCounter := k\<rparr>) = (err_var j, h1\<lparr>tempCounter := j\<rparr>)"
    "err_var j \<notin> set (reservedNames g)"
    by (rule fresh_idE [of "h1\<lparr>tempCounter := k\<rparr>" g "''err''"]) (simp_all add: assms(2))
  obtain b p h2 where c: "chk names (err_var j) (recordVar (pipe_var k) s (h1\<lparr>tempCounter := j\<rparr>)) =
      (IfErrCheck (err_var j) (Some b) p, h2)" "facts h2 = facts g" "diverts G b" "H (err_var j) b"
    using check_okE [OF chk, of "recordVar (pipe_var k) s (h1\<lparr>tempCounter := j\<rparr>)" "err_var j"] assms(2)
    by (metis facts_helpers(3) facts_updates(8))
  let ?pre = "checked n s [pipe_var k, err_var j] c (err_var j) b p"
  have "chainSteps R T chk names [] le (i + 1) (n + 1) ss (pipe_var k) (?pre @ []) h2 = (Some (new, cur'), h')"
    using chain assms(3) by (simp add: call k(1) j(1) c(1) handlerNames_def checked_def Add_def)
  then obtain new' where "new = ?pre @ new'"
    "chainSteps R T chk names [] le (i + 1) (n + 1) ss (pipe_var k) [] h2 = (Some (new', cur'), h')"
    unfolding chainSteps_prefix by (auto split: prod.splits)
  then show ?thesis using that k(2) j(2) c(2-4) assms(2) by metis
qed

lemma chain_error_only_step:
  assumes chk: "check_ok G chk names g H" and "facts h1 = facts g" and "\<not> returnsError s h1" "isErrorOnlyReturn s h1"
    and call: "generatePipedStepCall R T s cur h = (Some c, h1)"
    and chain: "chainSteps R T chk names [] le i n (s # ss) cur [] h = (Some (new, cur'), h')"
  obtains j b p h2 new' where
    "new = checked n s [err_var j] c (err_var j) b p @ new'"
    "chainSteps R T chk names [] le (i + 1) (n + 1) ss cur [] h2 = (Some (new', cur'), h')"
    "facts h2 = facts g" "diverts G b" "H (err_var j) b" "err_var j \<notin> set (reservedNames g)"
proof -
  obtain j where j: "uniqueId ''err'' h1 = (err_var j, h1\<lparr>tempCounter := j\<rparr>)"
    "err_var j \<notin> set (reservedNames g)"
    using assms(2) by (rule fresh_idE)
  obtain b p h2 where c: "chk names (err_var j) (h1\<lparr>tempCounter := j\<rparr>) =
      (IfErrCheck (err_var j) (Some b) p, h2)" "facts h2 = facts g" "diverts G b" "H (err_var j) b"
    using check_okE [OF chk, of "h1\<lparr>tempCounter := j\<rparr>" "err_var j"] assms(2) by (metis facts_updates(8))
  let ?pre = "checked n s [err_var j] c (err_var j) b p"
  have "chainSteps R T chk names [] le (i + 1) (n + 1) ss cur (?pre @ []) h2 = (Some (new, cur'), h')"
    using chain assms(3,4) by (simp add: call j(1) c(1) checked_def Add_def)
  then obtain new' where "new = ?pre @ new'"
    "chainSteps R T chk names [] le (i + 1) (n + 1) ss cur [] h2 = (Some (new', cur'), h')"
    unfolding chainSteps_prefix by (auto split: prod.splits)
  then show ?thesis using that j(2) c(2-4) assms(2) by metis
qed

section \<open>Running the block\<close>

lemma temp_name_prefix: "temp_name p k = temp_name q j \<longleftrightarrow> p = q \<and> k = j"
  using temp_name_inj by blast

lemma temp_not_blank [simp]: "pipe_var k \<noteq> ''_''" "err_var k \<noteq> ''_''"
  by (simp_all add: temp_name_def)

lemma generated_temp [simp]: "temp_name p k \<notin> set rs \<Longrightarrow> generated_name rs (temp_name p k)"
  by (auto simp: generated_name_def)

lemma user_agree_refl [simp]: "user_agree rs env env"
  by (simp add: user_agree_def)

lemma user_agree_update: "user_agree rs env env' \<Longrightarrow> generated_name rs x \<Longrightarrow> user_agree rs env (env'(x := u))"
  by (simp add: user_agree_def)

text \<open>What the text of the piped value means while only error variables are assigned.\<close>

definition err_agree :: "string list \<Rightarrow> 'v env \<Rightarrow> 'v env \<Rightarrow> bool" where
  "err_agree rs env env' \<longleftrightarrow> (\<forall>x. \<not> (x \<notin> set rs \<and> (\<exists>k. x = err_var k)) \<longrightarrow> env' x = env x)"

definition denotes :: "('v, 'w) go \<Rightarrow> string list \<Rightarrow> string \<Rightarrow> 'v env \<Rightarrow> ('w \<Rightarrow> 'v \<times> 'w) \<Rightarrow> bool" where
  "denotes G rs cur env m \<longleftrightarrow>
     (\<forall>env'. err_agree rs env env' \<longrightarrow> (\<forall>w. evalExpr G cur env' w = ([fst (m w)], snd (m w))))"

lemma err_agree_user: "user_agree rs env0 env \<Longrightarrow> err_agree rs env env' \<Longrightarrow> user_agree rs env0 env'"
  unfolding user_agree_def err_agree_def generated_name_def by metis

lemma denotes_eval: "denotes G rs cur env m \<Longrightarrow> evalExpr G cur env w = ([fst (m w)], snd (m w))"
  unfolding denotes_def err_agree_def by blast

lemma denotes_temp: "reads_temporaries G \<Longrightarrow> denotes G rs (pipe_var k) env (\<lambda>w. (env (pipe_var k), w))"
  by (simp add: denotes_def reads_temporaries_def err_agree_def temp_name_prefix)

lemma denotes_err_update:
  "denotes G rs cur env m \<Longrightarrow> err_var j \<notin> set rs \<Longrightarrow> denotes G rs cur (env(err_var j := u)) m"
proof -
  assume d: "denotes G rs cur env m" and j: "err_var j \<notin> set rs"
  have "err_agree rs env env'" if "err_agree rs (env(err_var j := u)) env'" for env'
    unfolding err_agree_def
  proof (intro allI impI)
    fix x assume x: "\<not> (x \<notin> set rs \<and> (\<exists>k. x = err_var k))"
    then have "x \<noteq> err_var j" using j by blast
    then show "env' x = env x" using that [unfolded err_agree_def, rule_format, OF x] by simp
  qed
  then show ?thesis using d by (simp add: denotes_def)
qed

lemma step_eval:
  assumes "step_rendered G R T sem g s" "denotes G (reservedNames g) cur env m"
    "user_agree (reservedNames g) env0 env" "generatePipedStepCall R T s cur h = (Some c, h1)"
    "err_agree (reservedNames g) env env'"
  shows "evalExpr G c env' w = sem s (fst (m w)) env0 (snd (m w))"
proof -
  have "evalExpr G cur env' w = ([fst (m w)], snd (m w))"
    using assms(2,5) by (simp add: denotes_def)
  then have "evalExpr G c env' w = sem s (fst (m w)) env' (snd (m w))"
    using assms(1,4) unfolding step_rendered_def by blast
  also have "\<dots> = sem s (fst (m w)) env0 (snd (m w))"
    using assms(1) err_agree_user [OF assms(3,5)] unfolding step_rendered_def by blast
  finally show ?thesis .
qed

lemma denotes_call:
  assumes "step_rendered G R T sem g s" "denotes G (reservedNames g) cur env m"
    "user_agree (reservedNames g) env0 env" "generatePipedStepCall R T s cur h = (Some c, h1)"
    "\<not> returnsError s g"
  shows "denotes G (reservedNames g) c env
    (\<lambda>w. case sem s (fst (m w)) env0 (snd (m w)) of (vs, w1) \<Rightarrow> (vs ! 0, w1))"
proof -
  have "length (fst (sem s v env0 w)) = 1" for v w
    using assms(1,5) by (simp add: step_rendered_def)
  moreover have "xs = [xs ! 0]" if "length xs = 1" for xs :: "'a list"
    using that by (cases xs) simp_all
  ultimately have "fst (sem s v env0 w) = [fst (sem s v env0 w) ! 0]" for v w by blast
  then show ?thesis
    unfolding denotes_def using step_eval [OF assms(1-4)]
    by (auto simp: prod_eq_iff split_beta)
qed

lemma exec_checked:
  assumes "evalExpr G c env w = (vs, w1)" "diverts G b" "no_labels new"
  shows "exec G (checked n s ns c e b p @ new) (env, w) =
    (let env1 = assign_all ns vs env in if isNil G (env1 e) then exec G new (env1, w1) else exec G b (env1, w1))"
proof -
  have "fst (exec G b (assign_all ns vs env, w1)) \<noteq> Normal"
    using assms(2) by (simp add: diverts_def)
  then show ?thesis
    using assms(1,3) by (simp add: checked_def stepComment_def exec_step Let_def del: exec.simps(2))
      (auto split: prod.splits)
qed

text \<open>What a run of the block is to show for a run of the chain.\<close>

definition meets :: "('v, 'w) go \<Rightarrow> (string \<Rightarrow> Block \<Rightarrow> bool) \<Rightarrow> string list \<Rightarrow> 'v env \<Rightarrow>
    ('v \<times> 'w) + ('v \<times> 'w) \<Rightarrow> Block \<Rightarrow> string \<Rightarrow> 'v env \<times> 'w \<Rightarrow> bool" where
  "meets G H rs env0 run block cur s \<longleftrightarrow>
     (case run of
        Inr (v, w') \<Rightarrow> \<exists>env' w1. exec G block s = (Normal, env', w1) \<and> evalExpr G cur env' w1 = ([v], w') \<and>
          user_agree rs env0 env'
      | Inl (x, w') \<Rightarrow> \<exists>j b env'. H (err_var j) b \<and> exec G block s = exec G b (env', w') \<and>
          env' (err_var j) = x \<and> user_agree rs env0 env')"

lemma chain_no_labels:
  assumes R: "stable_renderer R" and chk: "check_ok G chk names g H"
  shows "facts h = facts g \<Longrightarrow> chainSteps R T chk names [] le i n ss cur [] h = (Some (new, cur'), h') \<Longrightarrow>
    no_labels new"
proof (induction ss arbitrary: i n cur h new)
  case (Cons s ss)
  obtain c h1 where call: "generatePipedStepCall R T s cur h = (Some c, h1)"
    using Cons.prems(2) by (cases "generatePipedStepCall R T s cur h") (auto split: option.splits)
  have h1: "facts h1 = facts g"
    using facts_stepCall [OF R, of T s cur h] Cons.prems(1) by (simp add: call)
  consider "returnsError s h1" | "\<not> returnsError s h1" "isErrorOnlyReturn s h1"
    | "\<not> returnsError s h1" "\<not> isErrorOnlyReturn s h1" by blast
  then show ?case
  proof cases
    case 1
    show ?thesis
      by (rule chain_error_step [OF chk h1 1 call Cons.prems(2)])
        (simp add: checked_def stepComment_def Cons.IH)
  next
    case 2
    show ?thesis
      by (rule chain_error_only_step [OF chk h1 2 call Cons.prems(2)])
        (simp add: checked_def stepComment_def Cons.IH)
  next
    case 3
    then show ?thesis using Cons.IH [of "warnUnknown s h1"] Cons.prems(2) call h1 by simp
  qed
qed simp

lemma no_pending_ready: "no_pending_call g False ss \<Longrightarrow> no_pending_call g True ss"
  by (induction ss) (auto split: if_splits)

lemma meets_cong:
  "exec G block s = exec G block' s' \<Longrightarrow>
   meets G H rs env0 run block cur s = meets G H rs env0 run block' cur s'"
  by (simp only: meets_def)

lemma meets_checked:
  assumes "evalExpr G c env w = (vs, w1)" "diverts G b" "no_labels new"
    and "env1 = assign_all ns vs env" "env1 (err_var j) = x" "H (err_var j) b" "user_agree rs env0 env1"
    and "isNil G x \<Longrightarrow> meets G H rs env0 run new cur (env1, w1)"
  shows "meets G H rs env0 (if isNil G x then run else Inl (x, w1))
     (checked n s ns c (err_var j) b p @ new) cur (env, w)"
proof (cases "isNil G x")
  case True
  then have "exec G (checked n s ns c (err_var j) b p @ new) (env, w) = exec G new (env1, w1)"
    using exec_checked [OF assms(1-3)] assms(4,5) by (simp add: Let_def)
  from meets_cong [OF this] show ?thesis using assms(8) True by simp
next
  case False
  then show ?thesis using exec_checked [OF assms(1-3)] assms(4-7)
    by (auto simp: meets_def Let_def)
qed

lemma assign_values:
  "length vs = 2 \<Longrightarrow> assign_all [pipe_var k, err_var j] vs env = env(pipe_var k := vs ! 0, err_var j := vs ! 1)"
  "length vs = 1 \<Longrightarrow> assign_all [err_var j] vs env = env(err_var j := vs ! 0)"
  by (auto simp: length_Suc_conv numeral_2_eq_2)

lemma chain_steps_meet:
  assumes R: "stable_renderer R" and G: "reads_temporaries G" and chk: "check_ok G chk names g H"
    and rs: "rs = reservedNames g"
  shows "\<lbrakk>\<forall>s\<in>set ss. step_rendered G R T sem g s; facts h = facts g; no_pending_call g ready ss;
     ready \<Longrightarrow> \<exists>v. \<forall>w. m w = (v, w); denotes G rs cur env m; user_agree rs env0 env;
     chainSteps R T chk names [] le i n ss cur [] h = (Some (new, cur'), h')\<rbrakk>
   \<Longrightarrow> meets G H rs env0 (run_steps (isNil G) sem g env0 ss (m w)) new cur' (env, w)"
proof (induction ss arbitrary: i n cur h new ready m env w)
  case Nil
  then show ?case
    using denotes_eval [OF Nil.prems(5)] Nil.prems(6) by (cases "m w") (auto simp: meets_def)
next
  case (Cons s ss)
  have s: "step_rendered G R T sem g s" and ss: "\<forall>s\<in>set ss. step_rendered G R T sem g s"
    using Cons.prems(1) by simp_all
  obtain c h1 where call: "generatePipedStepCall R T s cur h = (Some c, h1)"
    using Cons.prems(7) by (cases "generatePipedStepCall R T s cur h") (auto split: option.splits)
  have h1: "facts h1 = facts g"
    using facts_stepCall [OF R, of T s cur h] Cons.prems(2) by (simp add: call)
  note known = known_results [OF h1]
  note cur = Cons.prems(5) [unfolded rs] Cons.prems(6) [unfolded rs] call
  obtain v0 w0 where m: "m w = (v0, w0)" by fastforce
  obtain vs w1 where sem: "sem s v0 env0 w0 = (vs, w1)" by fastforce
  have ev: "evalExpr G c env w = (vs, w1)"
    using step_eval [OF s cur, of env w] by (simp add: err_agree_def m sem)
  have len: "length vs = (if returnsError s g then 2 else 1)"
    using s unfolding step_rendered_def by (metis fst_conv sem)
  consider (err) "returnsError s h1" | (only) "\<not> returnsError s h1" "isErrorOnlyReturn s h1"
    | (val) "\<not> returnsError s h1" "\<not> isErrorOnlyReturn s h1" by blast
  then show ?case
  proof cases
    case err
    show ?thesis
    proof (rule chain_error_step [OF chk h1 err call Cons.prems(7)])
      fix k j b p h2 new'
      assume new: "new = checked n s [pipe_var k, err_var j] c (err_var j) b p @ new'"
        and rest': "chainSteps R T chk names [] le (i + 1) (n + 1) ss (pipe_var k) [] h2 = (Some (new', cur'), h')"
        and b: "facts h2 = facts g" "diverts G b" "H (err_var j) b"
        and fresh: "pipe_var k \<notin> set (reservedNames g)" "err_var j \<notin> set (reservedNames g)"
      define env1 where "env1 = assign_all [pipe_var k, err_var j] vs env"
      have e1: "env1 = env(pipe_var k := vs ! 0, err_var j := vs ! 1)"
        unfolding env1_def by (rule assign_values) (use len err known in simp)
      have agree: "user_agree rs env0 env1"
        unfolding e1 using fresh Cons.prems(6) by (simp add: user_agree_update rs)
      have pv: "env1 (pipe_var k) = vs ! 0" by (simp add: e1 temp_name_prefix)
      have nxt: "meets G H rs env0 (run_steps (isNil G) sem g env0 ss (vs ! 0, w1)) new' cur' (env1, w1)"
        using Cons.IH [OF ss b(1) _ _ denotes_temp [OF G] agree rest', of True] Cons.prems(3) err known
        by (simp add: pv)
      have run: "run_steps (isNil G) sem g env0 (s # ss) (m w) =
          (if isNil G (vs ! 1) then run_steps (isNil G) sem g env0 ss (vs ! 0, w1) else Inl (vs ! 1, w1))"
        using err known by (simp add: m sem)
      have x: "env1 (err_var j) = vs ! 1" by (simp add: e1)
      show ?thesis
        unfolding new run
        by (rule meets_checked [OF ev b(2) chain_no_labels [OF R chk b(1) rest'] env1_def x b(3) agree nxt])
    qed
  next
    case only
    show ?thesis
    proof (rule chain_error_only_step [OF chk h1 only call Cons.prems(7)])
      fix j b p h2 new'
      assume new: "new = checked n s [err_var j] c (err_var j) b p @ new'"
        and rest': "chainSteps R T chk names [] le (i + 1) (n + 1) ss cur [] h2 = (Some (new', cur'), h')"
        and b: "facts h2 = facts g" "diverts G b" "H (err_var j) b" "err_var j \<notin> set (reservedNames g)"
      define env1 where "env1 = assign_all [err_var j] vs env"
      have e1: "env1 = env(err_var j := vs ! 0)"
        unfolding env1_def by (rule assign_values) (use len only known in simp)
      have agree: "user_agree rs env0 env1"
        unfolding e1 using b(4) Cons.prems(6) by (simp add: user_agree_update rs)
      have ready: ready "no_pending_call g ready ss" using Cons.prems(3) only known by auto
      then have mw1: "m w1 = (v0, w1)" using Cons.prems(4) m by (metis fst_conv)
      have "denotes G rs cur env1 m"
        unfolding e1 using Cons.prems(5) b(4) by (simp add: denotes_err_update rs)
      from Cons.IH [OF ss b(1) ready(2) Cons.prems(4) this agree rest', of w1]
      have nxt: "meets G H rs env0 (run_steps (isNil G) sem g env0 ss (v0, w1)) new' cur' (env1, w1)"
        by (simp add: mw1)
      have run: "run_steps (isNil G) sem g env0 (s # ss) (m w) =
          (if isNil G (vs ! 0) then run_steps (isNil G) sem g env0 ss (v0, w1) else Inl (vs ! 0, w1))"
        using only known by (simp add: m sem)
      have x: "env1 (err_var j) = vs ! 0" by (simp add: e1)
      show ?thesis
        unfolding new run
        by (rule meets_checked [OF ev b(2) chain_no_labels [OF R chk b(1) rest'] env1_def x b(3) agree nxt])
    qed
  next
    case val
    let ?m = "\<lambda>w. case sem s (fst (m w)) env0 (snd (m w)) of (vs, w1) \<Rightarrow> (vs ! 0, w1)"
    have d: "denotes G rs c env ?m"
      using denotes_call [OF s cur] val known by (simp add: rs)
    have rest': "chainSteps R T chk names [] le (i + 1) n ss c [] (warnUnknown s h1) = (Some (new, cur'), h')"
      using Cons.prems(7) val by (simp add: call)
    have "meets G H rs env0 (run_steps (isNil G) sem g env0 ss (?m w)) new cur' (env, w)"
      by (rule Cons.IH [OF ss _ _ _ d Cons.prems(6) rest', of False])
        (use Cons.prems(3) val known h1 in simp_all)
    then show ?thesis using val known by (simp add: m sem)
  qed
qed

lemma chain_meets:
  assumes R: "stable_renderer R" and G: "reads_temporaries G" and chk: "check_ok G chk names g H"
    and base: "base_rendered G R bs g base" and steps: "\<forall>s\<in>set ss. step_rendered G R T sem g s"
    and ready: "no_pending_call g ready ss" "ready \<Longrightarrow> returnsError base g \<or> (\<exists>v. \<forall>w. bs env0 w = ([v], w))"
    and block: "chainBase R chk names [] False base g = (n, cur, pre, g1)"
    and chain: "chainSteps R T chk names [] le i n ss cur pre g1 = (Some (block, cur'), g')"
  shows "meets G H (reservedNames g) env0 (run_pipe (isNil G) bs sem g env0 base ss w) block cur' (env0, w)"
proof -
  let ?rs = "reservedNames g"
  obtain c h1 where c: "exprToString R base g = (c, h1)" by fastforce
  have h1: "facts h1 = facts g" using facts_exprToString [OF R, of base g] by (simp add: c)
  obtain vs w1 where vs: "bs env0 w = (vs, w1)" by fastforce
  have ev: "evalExpr G c env' w' = bs env0 w'" if "user_agree ?rs env0 env'" for env' w'
    using base that unfolding base_rendered_def by (simp add: c)
  have len: "length (fst (bs env0 w')) = (if returnsError base g then 2 else 1)" for w'
    using base unfolding base_rendered_def by blast
  show ?thesis
  proof (cases "returnsError base g")
    case True
    then have t: "returnsError base h1" using known_results [OF h1] by simp
    obtain k where k: "uniqueId ''pipe'' h1 = (pipe_var k, h1\<lparr>tempCounter := k\<rparr>)" "pipe_var k \<notin> set ?rs"
      using h1 by (rule fresh_idE)
    obtain j where j: "uniqueId ''err'' (h1\<lparr>tempCounter := k\<rparr>) = (err_var j, h1\<lparr>tempCounter := j\<rparr>)"
      "err_var j \<notin> set ?rs"
      by (rule fresh_idE [of "h1\<lparr>tempCounter := k\<rparr>" g "''err''"]) (simp_all add: h1)
    obtain b p h2 where b: "chk names (err_var j) (recordVar (pipe_var k) base (h1\<lparr>tempCounter := j\<rparr>)) =
        (IfErrCheck (err_var j) (Some b) p, h2)" "facts h2 = facts g" "diverts G b" "H (err_var j) b"
      using check_okE [OF chk, of "recordVar (pipe_var k) base (h1\<lparr>tempCounter := j\<rparr>)" "err_var j"] h1
      by (metis facts_helpers(3) facts_updates(8))
    let ?pre = "checked 0 base [pipe_var k, err_var j] c (err_var j) b p"
    have pre: "n = 1" "cur = pipe_var k" "pre = ?pre @ []" "g1 = h2"
      using block t by (auto simp: chainBase_def c k(1) j(1) b(1) handlerNames_def checked_def Add_def)
    obtain new where new: "block = ?pre @ new"
      "chainSteps R T chk names [] le i 1 ss (pipe_var k) [] h2 = (Some (new, cur'), g')"
      using chain unfolding pre chainSteps_prefix by (auto split: prod.splits)
    define env1 where "env1 = assign_all [pipe_var k, err_var j] vs env0"
    have e1: "env1 = env0(pipe_var k := vs ! 0, err_var j := vs ! 1)"
      unfolding env1_def by (rule assign_values) (use len [of w] True vs in simp)
    have agree: "user_agree ?rs env0 env1"
      unfolding e1 using k(2) j(2) by (simp add: user_agree_update)
    have x: "env1 (err_var j) = vs ! 1" "env1 (pipe_var k) = vs ! 0" by (simp_all add: e1 temp_name_prefix)
    have "no_pending_call g True ss" using ready(1) by (cases ready) (simp_all add: no_pending_ready)
    from chain_steps_meet [OF R G chk refl steps _ this _ denotes_temp [OF G] agree new(2), of w1]
    have nxt: "meets G H ?rs env0 (run_steps (isNil G) sem g env0 ss (vs ! 0, w1)) new cur' (env1, w1)"
      using b(2) h1 by (simp add: x)
    have run: "run_pipe (isNil G) bs sem g env0 base ss w =
        (if isNil G (vs ! 1) then run_steps (isNil G) sem g env0 ss (vs ! 0, w1) else Inl (vs ! 1, w1))"
      using True by (simp add: run_pipe_def vs)
    show ?thesis
      unfolding new(1) run
      by (rule meets_checked [OF _ b(3) chain_no_labels [OF R chk b(2) new(2)] env1_def x(1) b(4) agree nxt])
        (simp add: ev vs)
  next
    case False
    then have f: "\<not> returnsError base h1" using known_results [OF h1] by simp
    then have pre: "n = 0" "cur = c" "pre = []" "g1 = h1"
      using block by (simp_all add: chainBase_def c)
    let ?m = "\<lambda>w. (fst (bs env0 w) ! 0, snd (bs env0 w))"
    have one: "xs = [xs ! 0]" if "length xs = 1" for xs :: "'a list"
      using that by (cases xs) simp_all
    have val: "bs env0 w' = ([fst (bs env0 w') ! 0], snd (bs env0 w'))" for w'
      using one [of "fst (bs env0 w')"] len [of w'] False by (simp add: prod_eq_iff)
    have "denotes G ?rs c env0 ?m"
      unfolding denotes_def using ev err_agree_user [OF user_agree_refl] val by (metis fst_conv snd_conv)
    from chain_steps_meet [OF R G chk refl steps h1 ready(1) _ this user_agree_refl chain [unfolded pre], of w]
    moreover have "\<exists>v. \<forall>w. (fst (bs env0 w) ! 0, snd (bs env0 w)) = (v, w)" if ready
      using ready(2) [OF that] False by auto
    ultimately show ?thesis using False by (simp add: run_pipe_def vs)
  qed
qed

section \<open>Both lowerings\<close>

definition handler_block :: "renderer \<Rightarrow> OnErrClause \<Rightarrow> string list \<Rightarrow> generator \<Rightarrow> string \<Rightarrow> Block \<Rightarrow> bool" where
  "handler_block R clause names g e b \<longleftrightarrow>
     (\<exists>h. facts h = facts g \<and> b = fst (lowerOnErrHandler R clause names e h))"

lemma handler_check_ok:
  assumes "stable_renderer R"
    and "\<And>e h. facts h = facts g \<Longrightarrow> diverts G (fst (lowerOnErrHandler R clause names e h))"
  shows "check_ok G (handlerCheck R clause) names g (handler_block R clause names g)"
  unfolding check_ok_def
proof (intro allI impI)
  fix e h assume h: "facts h = facts g"
  obtain b h1 where "lowerOnErrHandler R clause names e h = (b, h1)" by fastforce
  then have b: "b = fst (lowerOnErrHandler R clause names e h)" "h1 = snd (lowerOnErrHandler R clause names e h)"
    by simp_all
  then have "handlerCheck R clause names e h = (IfErrCheck e (Some b) (clausePos (Some clause)), h1)"
    by (simp add: handlerCheck_def split_beta)
  moreover have "facts h1 = facts g" using facts_lowerOnErrHandler [OF assms(1)] b(2) h by simp
  moreover have "handler_block R clause names g e b" using b(1) h by (auto simp: handler_block_def)
  ultimately show "\<exists>b p h1. handlerCheck R clause names e h = (IfErrCheck e (Some b) p, h1) \<and> facts h1 = facts g \<and>
      diverts G b \<and> handler_block R clause names g e b"
    using assms(2) [OF h] b(1) by blast
qed

lemma goto_check_ok:
  "check_ok G (gotoCheck l pe) names g (\<lambda>e b. b = [Assign [pe] e False no_pos, Goto l])"
  by (auto simp: check_ok_def gotoCheck_def diverts_def after_label_def split: prod.splits)

text \<open>\<^verbatim>\<open>onerr return\<close> always leaves the function, and so does \<^verbatim>\<open>onerr explain\<close> without a handler.\<close>

lemma return_node_diverts:
  "ns = xs @ [IrReturnStmt vs p] \<Longrightarrow> (\<And>n. n \<in> set xs \<Longrightarrow> \<exists>x t. n = VarDecl x t [] no_pos) \<Longrightarrow> diverts G ns"
proof (induction xs arbitrary: ns)
  case Nil
  then show ?case by (auto simp: diverts_def split: prod.splits)
next
  case (Cons x xs)
  then obtain v t where "x = VarDecl v t [] no_pos" by (metis list.set_intros(1))
  moreover have "diverts G (xs @ [IrReturnStmt vs p])" using Cons by simp
  ultimately show ?case using Cons.prems(1) by (auto simp: diverts_def)
qed

lemma buildReturnNode_diverts: "diverts G (buildReturnNode e p g)"
proof (cases "currentReturnTypes g = []")
  case True
  then show ?thesis
    by (auto simp: buildReturnNode_def Add_def intro!: return_node_diverts [of _ "[]"])
next
  case False
  obtain decls parts where "replaceGenericZeroExprs (zero_results e g) = (decls, parts)" by fastforce
  then show ?thesis
    using False by (auto simp: buildReturnNode_def Add_def intro!: return_node_diverts)
qed

lemma onerr_return_diverts:
  "clause = (t, handler, explain, True, sc, sb, alias) \<Longrightarrow> diverts G (fst (lowerOnErrHandler R clause names e h))"
  by (simp add: lowerOnErrHandler_def AddAll_def buildReturnNode_diverts)

text \<open>
  Claim C1. A pipe chain under \<^verbatim>\<open>onerr\<close> that stands for itself (no variable is declared from it, so the target
  name is empty) is lowered correctly if its handler leaves the statement (return, panic, continue,
  break; a default value does not) and no call is pending before an error-only step. Let the rendered call
  of every step mean \<open>evaluate the piped text, then run the step\<close>. Then the block that
  \<^verbatim>\<open>lowerOnErrPipeChain\<close> emits behaves as the chain: if the base and all steps succeed, in order, the block
  falls through, and evaluating the final expression after it gives the value of the chain in its final
  world; if one of them fails, the block does what the lowered handler does, rendered with the result types,
  declarations and names of the generator, in the world right after the failing step, with the error
  in the error variable the handler is lowered for. The variables of the program are not touched.
\<close>

theorem onerr_chain_correct:
  assumes "stable_renderer R" and "reads_temporaries G"
    and "base_rendered G R base_sem g base" and "\<forall>s\<in>set steps. step_rendered G R T sem g s"
    and "no_pending_call g ready steps"
    and "ready \<Longrightarrow> returnsError base g \<or> (\<exists>v. \<forall>w. base_sem env w = ([v], w))"
    and "\<forall>e h. facts h = facts g \<longrightarrow> diverts G (fst (lowerOnErrHandler R clause names e h))"
    and "flattenPipeChain pipe = Some (base, steps)"
    and "lowerOnErrPipeChain R T pipe clause names [] g = (Some (block, cur), g')"
  shows "case run_pipe (isNil G) base_sem sem g env base steps w of
      Inr (v, w') \<Rightarrow> \<exists>env' w1. exec G block (env, w) = (Normal, env', w1) \<and>
        evalExpr G cur env' w1 = ([v], w') \<and> user_agree (reservedNames g) env env'
    | Inl (x, w') \<Rightarrow> \<exists>j h env'. facts h = facts g \<and>
        exec G block (env, w) = exec G (fst (lowerOnErrHandler R clause names (err_var j) h)) (env', w') \<and>
        env' (err_var j) = x \<and> user_agree (reservedNames g) env env'"
proof -
  obtain n c pre g1 where b: "chainBase R (handlerCheck R clause) names [] False base g = (n, c, pre, g1)"
    by (cases "chainBase R (handlerCheck R clause) names [] False base g") auto
  have c: "chainSteps R T (handlerCheck R clause) names [] (- 1) 0 n steps c pre g1 = (Some (block, cur), g')"
    using assms(8,9) by (auto simp: lowerOnErrPipeChain_def b split: if_splits)
  have ok: "check_ok G (handlerCheck R clause) names g (handler_block R clause names g)"
    by (rule handler_check_ok) (use assms(1,7) in blast)+
  from chain_meets [OF assms(1,2) ok assms(3-6) b c, of w]
  show ?thesis unfolding meets_def handler_block_def by (auto split: sum.splits)
qed

text \<open>
  Claim C15. Under a piped switch the chain jumps instead: if a step fails, the block jumps to the
  error label with the error in the shared error variable, in the world right after the failing
  step; otherwise it falls through and the final expression has the chain's value.
\<close>

theorem labelled_chain_correct:
  assumes "stable_renderer R" and "reads_temporaries G"
    and "base_rendered G R base_sem g base" and "\<forall>s\<in>set steps. step_rendered G R T sem g s"
    and "no_pending_call g ready steps"
    and "ready \<Longrightarrow> returnsError base g \<or> (\<exists>v. \<forall>w. base_sem env w = ([v], w))"
    and "flattenPipeChain pipe = Some (base, steps)"
    and "pipeErr = temp_name ''pipeErr'' k" and "pipeErr \<notin> set (reservedNames g)"
    and "lowerOnErrPipeChainWithLabels R T pipe label pipeErr g = (Some (block, cur), g')"
  shows "case run_pipe (isNil G) base_sem sem g env base steps w of
      Inr (v, w') \<Rightarrow> \<exists>env' w1. exec G block (env, w) = (Normal, env', w1) \<and>
        evalExpr G cur env' w1 = ([v], w') \<and> user_agree (reservedNames g) env env'
    | Inl (x, w') \<Rightarrow> \<exists>env'. exec G block (env, w) = (Jump label, env', w') \<and> env' pipeErr = x \<and>
        user_agree (reservedNames g) env env'"
proof -
  obtain n c pre g1 where b: "chainBase R (gotoCheck label pipeErr) [] [] False base g = (n, c, pre, g1)"
    by (cases "chainBase R (gotoCheck label pipeErr) [] [] False base g") auto
  have c: "chainSteps R T (gotoCheck label pipeErr) [] [] (- 1) 0 n steps c pre g1 = (Some (block, cur), g')"
    using assms(7,10) by (auto simp: lowerOnErrPipeChainWithLabels_def b)
  have nb: "pipeErr \<noteq> ''_''" by (simp add: assms(8) temp_name_def)
  have jump: "exec G [Assign [pipeErr] (err_var j) False no_pos, Goto label] (env', w') =
      (Jump label, env'(pipeErr := env' (err_var j)), w')" for j env' w'
    using assms(2) nb by (simp add: reads_temporaries_def after_label_def)
  from chain_meets [OF assms(1,2) goto_check_ok assms(3-6) b c, of w]
  moreover have "generated_name (reservedNames g) pipeErr" using assms(8,9) by simp
  ultimately show ?thesis unfolding meets_def
    by (auto simp: jump user_agree_update simp del: exec.simps(2) split: sum.splits)
qed

end
