(* ===== verification/SwitchGotos.thy ===== *)
theory SwitchGotos
  imports ChainCorrect
begin

text \<open>
  Go forbids a jump over a variable declaration of the label's block. This theory states that rule for
  lowered code and decides it for the jumps of a piped switch under \<^verbatim>\<open>onerr\<close>.
\<close>

section \<open>The rule of Go\<close>

text \<open>Whether a node declares a variable in its block; for raw Go text that is a parameter.\<close>

fun declares :: "(string \<Rightarrow> bool) \<Rightarrow> Node \<Rightarrow> bool" where
  "declares raw (VarDecl x t v p) \<longleftrightarrow> True"
| "declares raw (Assign xs e walrus p) \<longleftrightarrow> walrus"
| "declares raw (RawStmt code p) \<longleftrightarrow> raw code"
| "declares raw _ \<longleftrightarrow> False"

fun gotos :: "Node \<Rightarrow> string list" where
  "gotos (Goto l) = [l]"
| "gotos (IfErrCheck v (Some ns) p) = concat (map gotos ns)"
| "gotos (ScopedBlock (Some ns)) = concat (map gotos ns)"
| "gotos (IrBlock ns) = concat (map gotos ns)"
| "gotos _ = []"

text \<open>The nodes between a jump and its label, if the label follows in the list.\<close>

definition before_label :: "string \<Rightarrow> Block \<Rightarrow> Block option" where
  "before_label l ns = (if Label l \<in> set ns then Some (takeWhile (\<lambda>n. n \<noteq> Label l) ns) else None)"

fun forward_ok :: "(string \<Rightarrow> bool) \<Rightarrow> Block \<Rightarrow> bool" where
  "forward_ok raw [] = True"
| "forward_ok raw (n # ns) =
     (list_all (\<lambda>l. case before_label l ns of None \<Rightarrow> True | Some ms \<Rightarrow> \<not> list_ex (declares raw) ms) (gotos n) \<and>
      forward_ok raw ns)"

fun inner_ok :: "(string \<Rightarrow> bool) \<Rightarrow> Node \<Rightarrow> bool" where
  "inner_ok raw (IfErrCheck v (Some ns) p) \<longleftrightarrow> forward_ok raw ns \<and> (\<forall>n\<in>set ns. inner_ok raw n)"
| "inner_ok raw (ScopedBlock (Some ns)) \<longleftrightarrow> forward_ok raw ns \<and> (\<forall>n\<in>set ns. inner_ok raw n)"
| "inner_ok raw (IrBlock ns) \<longleftrightarrow> forward_ok raw ns \<and> (\<forall>n\<in>set ns. inner_ok raw n)"
| "inner_ok raw _ \<longleftrightarrow> True"

definition legal_gotos :: "(string \<Rightarrow> bool) \<Rightarrow> Block \<Rightarrow> bool" where
  "legal_gotos raw ns \<longleftrightarrow> forward_ok raw ns \<and> (\<forall>n\<in>set ns. inner_ok raw n)"

section \<open>The nodes of a piped switch\<close>

text \<open>Nodes without jumps, labels and blocks, and the nodes of a chain that jumps to one label.\<close>

fun plain :: "Node \<Rightarrow> bool" where
  "plain (Assign _ _ _ _) \<longleftrightarrow> True" | "plain (VarDecl _ _ _ _) \<longleftrightarrow> True" | "plain (RawStmt _ _) \<longleftrightarrow> True"
| "plain (IrReturnStmt _ _) \<longleftrightarrow> True" | "plain (IrExprStmt _ _) \<longleftrightarrow> True" | "plain (IrComment _) \<longleftrightarrow> True"
| "plain _ \<longleftrightarrow> False"

lemma plain_props:
  "plain n \<Longrightarrow> gotos n = []" "plain n \<Longrightarrow> inner_ok raw n" "plain n \<Longrightarrow> n \<noteq> Label l" "plain n \<Longrightarrow> n \<noteq> Goto l"
  by (cases n; simp)+

definition chain_node :: "string \<Rightarrow> Node \<Rightarrow> bool" where
  "chain_node l n \<longleftrightarrow> plain n \<or> (\<exists>v x e p q. n = IfErrCheck v (Some [Assign x e False p, Goto l]) q)"

lemma chain_node_props:
  assumes "chain_node l n"
  shows "set (gotos n) \<subseteq> {l}" "inner_ok raw n" "n \<noteq> Label l'"
  using assms by (auto simp: chain_node_def plain_props before_label_def)

lemma forward_no_labels: "no_labels ns \<Longrightarrow> forward_ok raw ns"
  by (induction ns) (auto simp: before_label_def no_labels_def list_all_iff)

lemma chain_no_label: "\<forall>n\<in>set ns. chain_node l n \<Longrightarrow> no_labels ns"
  unfolding no_labels_def using chain_node_props(3) by blast

lemma plain_no_label: "\<forall>n\<in>set ns. plain n \<Longrightarrow> no_labels ns"
  unfolding no_labels_def using plain_props(3) by blast

lemma forward_plain_prefix:
  "\<forall>n\<in>set ms. plain n \<Longrightarrow> forward_ok raw (ms @ ns) = forward_ok raw ns"
  by (induction ms) (auto simp: plain_props)

lemma takeWhile_labels: "no_labels ms \<Longrightarrow> takeWhile (\<lambda>n. n \<noteq> Label l) (ms @ Label l # ns) = ms"
  by (induction ms) auto

lemma chain_gotos: "\<forall>n\<in>set ns. chain_node l n \<Longrightarrow> set (concat (map gotos ns)) \<subseteq> {l}"
  using chain_node_props(1) by (induction ns) auto

text \<open>The shape of both forms of the piped switch.\<close>

lemma switch_shape:
  assumes decls: "\<forall>n\<in>set decls. plain n" and inner: "\<forall>n\<in>set inner. chain_node l n" and "plain stmt"
    and handler: "\<forall>n\<in>set handler. plain n" and "l \<noteq> e"
  shows "legal_gotos raw (decls @ [ScopedBlock (Some (inner @ [stmt, Goto e])), Label l] @ handler @ [Label e])
    \<longleftrightarrow> \<not> list_ex (declares raw) handler"
proof -
  let ?body = "inner @ [stmt, Goto e]"
  have labels: "no_labels handler" "no_labels ?body"
    using handler inner plain_props(3) [OF assms(3)] by (auto intro: plain_no_label chain_no_label)
  have set: "set (gotos (ScopedBlock (Some ?body))) = insert e (set (concat (map gotos inner)))"
    using assms(3) by (auto simp: plain_props)
  have "before_label l (Label l # handler @ [Label e]) = Some []" by (simp add: before_label_def)
  moreover have "before_label e (Label l # handler @ [Label e]) = Some (Label l # handler)"
    using takeWhile_labels [OF labels(1)] \<open>l \<noteq> e\<close> by (simp add: before_label_def)
  moreover have "forward_ok raw (Label l # handler @ [Label e])"
    by (simp add: forward_plain_prefix [OF handler])
  moreover have "\<forall>n\<in>set ?body. inner_ok raw n" "forward_ok raw ?body"
    using inner chain_node_props(2) plain_props(2) [OF assms(3)] forward_no_labels [OF labels(2)] by auto
  moreover have "\<forall>n\<in>set decls \<union> set handler. inner_ok raw n" using decls handler plain_props(2) by auto
  ultimately show ?thesis
    using chain_gotos [OF inner] set
    by (auto simp: legal_gotos_def forward_plain_prefix [OF decls] list_all_iff simp del: gotos.simps)
qed

lemma return_plain: "\<forall>n\<in>set (buildReturnNode e p g). plain n"
  by (auto simp: buildReturnNode_def Add_def split: prod.splits)

lemma handler_plain: "\<forall>n\<in>set (fst (lowerOnErrHandler R clause names e g)). plain n"
  using return_plain
  by (cases clause) (auto simp: lowerOnErrHandler_def AddAll_def Add_def Let_def split_beta split: if_splits)

lemma chain_steps_nodes:
  "chainSteps R T (gotoCheck l pe) [] [] le i n ss cur block g = (Some (new, cur'), g') \<Longrightarrow>
   \<forall>x\<in>set block. chain_node l x \<Longrightarrow> \<forall>x\<in>set new. chain_node l x"
proof (induction ss arbitrary: i n cur block g)
  case (Cons s ss)
  obtain c h1 where call: "generatePipedStepCall R T s cur g = (Some c, h1)"
    using Cons.prems(1) by (cases "generatePipedStepCall R T s cur g") (auto split: option.splits)
  have nodes: "chain_node l (stepComment n s)" "chain_node l (Assign xs e w p)"
    "chain_node l (IfErrCheck v (Some [Assign [pe] v False no_pos, Goto l]) q)" for xs e w p v q
    by (auto simp: chain_node_def stepComment_def)
  have chk: "fst (gotoCheck l pe xs v h) = IfErrCheck v (Some [Assign [pe] v False no_pos, Goto l]) no_pos"
    "snd (gotoCheck l pe xs v h) = h" for xs v h
    by (simp_all add: gotoCheck_def)
  show ?case
  proof (cases "returnsError s h1 \<or> isErrorOnlyReturn s h1")
    case True
    then show ?thesis using Cons.prems call nodes
      by (auto simp: Let_def split_beta chk Add_def split: if_splits dest!: Cons.IH)
  next
    case False
    then show ?thesis using Cons.IH Cons.prems call by simp
  qed
qed simp

lemma switch_value_nodes:
  assumes "pipedSwitchValue R T left l pe g = (Some (inner, value), g')"
  shows "\<forall>x\<in>set inner. chain_node l x"
proof (cases "\<exists>t a b m. left = PipeExpr t a b m")
  case True
  then obtain base steps where f: "flattenPipeChain left = Some (base, steps)"
    by (auto simp: flattenPipeChain_def prod_eq_iff)
  obtain n cur pre g1 where b: "chainBase R (gotoCheck l pe) [] [] False base g = (n, cur, pre, g1)"
    by (cases "chainBase R (gotoCheck l pe) [] [] False base g") auto
  then have "\<forall>x\<in>set pre. chain_node l x"
    by (auto simp: chainBase_def chain_node_def gotoCheck_def Let_def split_beta Add_def stepComment_def
        split: if_splits)
  moreover have "chainSteps R T (gotoCheck l pe) [] [] (- 1) 0 n steps cur pre g1 = (Some (inner, value), g')"
    using assms True f b by (auto simp: pipedSwitchValue_def lowerOnErrPipeChainWithLabels_def)
  ultimately show ?thesis using chain_steps_nodes by blast
next
  case False
  then show ?thesis using assms
    by (cases left) (auto simp: pipedSwitchValue_def chain_node_def Let_def split_beta split: if_splits)
qed

lemma label_names: "fst (uniqueId ''onerr'' g) \<noteq> fst (uniqueId ''end'' h)"
proof -
  obtain m n where "fst (uniqueId ''onerr'' g) = temp_name ''onerr'' m" "fst (uniqueId ''end'' h) = temp_name ''end'' n"
    by (metis fst_conv uniqueId_spec)
  then show ?thesis by (simp add: temp_name_prefix)
qed

text \<open>
  Claim C19. The jumps of a lowered piped switch statement are legal Go exactly if the \<^verbatim>\<open>onerr\<close> handler
  declares no variable at its top level: the jump to the error label never crosses a declaration,
  and the jump to the end crosses the handler and nothing else. A handler that declares one (a block
  with a local variable, or \<^verbatim>\<open>onerr return\<close> in a function with a generic result) gives code that the Go
  compiler refuses.
\<close>

theorem piped_switch_gotos:
  assumes "lowerPipedSwitchStmt R T left sw clause g = (Some block, g')"
  shows "\<exists>decls onErr fin v0 e h. block = decls @ [Label onErr] @ fst (lowerOnErrHandler R clause [v0] e h) @ [Label fin] \<and>
    (legal_gotos raw block \<longleftrightarrow> \<not> list_ex (declares raw) (fst (lowerOnErrHandler R clause [v0] e h)))"
proof -
  obtain l g1 where l: "uniqueId ''onerr'' g = (l, g1)" by fastforce
  obtain d g2 where d: "uniqueId ''end'' g1 = (d, g2)" by fastforce
  obtain pe g3 where pe: "uniqueId ''pipeErr'' g2 = (pe, g3)" by fastforce
  obtain inner v0 g4 where v: "pipedSwitchValue R T left l pe g3 = (Some (inner, v0), g4)"
    using assms by (auto simp: lowerPipedSwitchStmt_def l d pe split: prod.splits option.splits)
  obtain code g5 where sw: "renderSwitchStmt R sw v0 g4 = (code, g5)" by fastforce
  let ?h = "fst (lowerOnErrHandler R clause [v0] pe g5)"
  have "block = ([VarDecl pe ''error'' [] no_pos] @
      [ScopedBlock (Some (inner @ [RawStmt code no_pos, Goto d])), Label l] @ ?h @ [Label d])"
    using assms by (auto simp: lowerPipedSwitchStmt_def l d pe v sw split: prod.splits)
  moreover have "legal_gotos raw \<dots> \<longleftrightarrow> \<not> list_ex (declares raw) ?h"
    using label_names [of g g1] l d
    by (intro switch_shape switch_value_nodes [OF v] handler_plain) simp_all
  ultimately show ?thesis
    by (intro exI [of _ "[VarDecl pe ''error'' [] no_pos, ScopedBlock (Some (inner @ [RawStmt code no_pos, Goto d]))]"]
        exI [of _ l] exI [of _ d] exI [of _ v0] exI [of _ pe] exI [of _ g5]) simp
qed

end
