(* ===== verification/ChainExamples.thy ===== *)
theory ChainExamples
  imports SwitchGotos
begin

text \<open>
  The theorems on lowered chains at a concrete instance, and the behaviours outside their
  assumptions: a call that runs twice, a default value that is dropped.
\<close>

section \<open>An instance\<close>

text \<open>A concrete meaning of Go text: variables and calls of one argument, over numbers, where \<open>0\<close> is nil;
  the world is the trace of the calls. \<open>load\<close> fails on 0, \<open>check\<close> reports numbers above 9.\<close>

definition sample_call :: "string \<Rightarrow> nat \<Rightarrow> nat list" where
  "sample_call f v =
     (if f = ''load'' then (if v = 0 then [0, 7] else [v + 1, 0])
      else if f = ''check'' then [if v > 9 then 3 else 0]
      else [2 * v])"

function eval_text :: "string \<Rightarrow> nat env \<Rightarrow> string list \<Rightarrow> nat list \<times> string list" where
  "eval_text t env w =
     (if CHR ''('' \<in> set t then
        (let f = takeWhile (\<lambda>c. c \<noteq> CHR ''('') t;
             (vs, w1) = eval_text (butlast (drop (length f + 1) t)) env w
         in (sample_call f (hd vs), w1 @ [f]))
      else ([env t], w))"
  by pat_completeness auto
termination
  by (relation "measure (\<lambda>(t, _). length t)") (auto simp: in_set_conv_nth)

declare eval_text.simps [simp del]

lemma eval_text_call:
  "CHR ''('' \<notin> set f \<Longrightarrow> eval_text (f @ CHR ''('' # cur @ '')'') env w =
     (case eval_text cur env w of (vs, w1) \<Rightarrow> (sample_call f (hd vs), w1 @ [f]))"
proof -
  assume "CHR ''('' \<notin> set f"
  then have f: "takeWhile (\<lambda>c. c \<noteq> CHR ''('') (f @ CHR ''('' # cur @ '')'') = f"
    by (subst takeWhile_append2) auto
  show ?thesis by (subst eval_text.simps) (simp only: f, simp add: Let_def)
qed

lemma eval_text_var: "CHR ''('' \<notin> set x \<Longrightarrow> eval_text x env w = ([env x], w)"
  by (subst eval_text.simps) simp

definition sample_go :: "(nat, string list) go" where
  "sample_go = \<lparr>evalExpr = eval_text, runRaw = (\<lambda>c env w. (Left c, env, w)), isNil = (\<lambda>v. v = 0), zeroOf = (\<lambda>_. 0)\<rparr>"

fun sample_text :: "Expression \<Rightarrow> string" where
  "sample_text (Ident i) = identValue i"
| "sample_text (IntegerLiteral t n) = itoa n"
| "sample_text _ = []"

definition sample_renderer :: renderer where
  "sample_renderer = \<lparr>exprToString = (\<lambda>e g. (sample_text e, g)), generateFieldAccessExpr = (\<lambda>e g. (sample_text e, g)),
     generateErrorExpr = (\<lambda>e g. (sample_text e, g)), generateBlock = (\<lambda>b g. g), generateSwitch = (\<lambda>s g. g),
     generatePipedSwitchExpr = (\<lambda>e g. (sample_text e, g)), inferExprReturnType = (\<lambda>e g. []),
     pipedSwitchReturnType = (\<lambda>e g. [])\<rparr>"

definition call_step :: "string \<Rightarrow> Expression" where
  "call_step f = CallExpr no_token (name_expr f) [] [] False"

definition sample_sem :: "(nat, string list) step_sem" where
  "sample_sem s v env w =
     (case s of CallExpr t f as ns b \<Rightarrow> (sample_call (sample_text f) v, w @ [sample_text f]) | _ \<Rightarrow> ([0], w))"

fun chain_of :: "Expression \<Rightarrow> string list \<Rightarrow> Expression" where
  "chain_of e [] = e"
| "chain_of e (f # fs) = chain_of (PipeExpr no_token e (call_step f) False) fs"

definition sample_generator :: generator where
  "sample_generator = (New_generator empty_program)
     \<lparr>exprReturnCounts := Some [(call_step ''load'', 2), (call_step ''check'', 1), (call_step ''trim'', 1)],
      exprTypes := Some [(call_step ''check'', Some (namedType TypeKindNamed ''error'')),
                         (call_step ''trim'', Some (basicType TypeKindInt))]\<rparr>"

definition return_clause :: OnErrClause where
  "return_clause = (no_token, NilExpr, [], True, False, False, [])"

lemma sample_stable: "stable_renderer sample_renderer"
  by (simp add: stable_renderer_def sample_renderer_def)

lemma sample_reads: "reads_temporaries sample_go"
proof -
  have "CHR ''('' \<notin> set (utoa n)" for n
  proof
    assume "CHR ''('' \<in> set (utoa n)"
    then obtain d where "CHR ''('' = digit_char d" "d < 10" using utoa_digits by blast
    then have "of_char (CHR ''('') = 48 + d" by (simp add: digit_char_def)
    then show False by simp
  qed
  then show ?thesis
    by (auto simp: reads_temporaries_def sample_go_def temp_name_def intro!: eval_text_var)
qed

lemma sample_step:
  assumes "CHR ''('' \<notin> set f" and "\<And>v. length (sample_call f v) = (if returnsError (call_step f) g then 2 else 1)"
  shows "step_rendered sample_go sample_renderer T sample_sem g (call_step f)"
proof -
  have "generatePipedStepCall sample_renderer T (call_step f) cur h = (Some (f @ CHR ''('' # cur @ '')''), h)" for cur h
    by (simp add: generatePipedStepCall_def call_step_def buildPipeArgs_def sample_renderer_def name_expr_def
        call_text_def)
  then show ?thesis
    using assms by (auto simp: step_rendered_def sample_go_def eval_text_call sample_sem_def call_step_def name_expr_def)
qed

definition sample_chain :: "string list \<Rightarrow> Expression" where
  "sample_chain fs = chain_of (name_expr ''x'') fs"

definition sample_lowering :: "string list \<Rightarrow> (Block \<times> string) option" where
  "sample_lowering fs =
     fst (lowerOnErrPipeChain sample_renderer (\<lambda>_. []) (sample_chain fs) return_clause [] [] sample_generator)"

definition sample_base :: "nat env \<Rightarrow> string list \<Rightarrow> nat list \<times> string list" where
  "sample_base env w = ([env ''x''], w)"

lemma sample_base_rendered:
  "\<not> returnsError (name_expr ''x'') g \<Longrightarrow>
   base_rendered sample_go sample_renderer sample_base g (name_expr ''x'')"
proof -
  assume e: "\<not> returnsError (name_expr ''x'') g"
  have "temp_name p n \<noteq> ''x''" for p n
    by (cases p) (simp_all add: temp_name_def)
  then have "\<not> generated_name rs ''x''" for rs
    by (metis generated_name_def)
  then show ?thesis using e
    by (simp add: base_rendered_def sample_go_def sample_renderer_def name_expr_def eval_text_var sample_base_def
        user_agree_def)
qed

lemma sample_results:
  "returnsError (call_step ''load'') sample_generator" "\<not> returnsError (call_step ''check'') sample_generator"
  "\<not> returnsError (call_step ''trim'') sample_generator" "\<not> returnsError (name_expr ''x'') sample_generator"
  "isErrorOnlyReturn (call_step ''check'') sample_generator" "\<not> isErrorOnlyReturn (call_step ''trim'') sample_generator"
  by code_simp+

lemma sample_steps:
  "set fs \<subseteq> {''load'', ''check'', ''trim''} \<Longrightarrow>
   \<forall>s\<in>set (map call_step fs). step_rendered sample_go sample_renderer T sample_sem sample_generator s"
proof (intro ballI)
  fix s assume "set fs \<subseteq> {''load'', ''check'', ''trim''}" "s \<in> set (map call_step fs)"
  then obtain f where f: "s = call_step f" "f = ''load'' \<or> f = ''check'' \<or> f = ''trim''" by auto
  show "step_rendered sample_go sample_renderer T sample_sem sample_generator s"
    unfolding f(1)
  proof (rule sample_step)
    show "CHR ''('' \<notin> set f" using f(2) by auto
    show "length (sample_call f v) = (if returnsError (call_step f) sample_generator then 2 else 1)" for v
      using f(2) sample_results by (auto simp: sample_call_def)
  qed
qed

lemma sample_walk: "pipe_walk (chain_of e fs) = (fst (pipe_walk e), snd (pipe_walk e) @ map call_step fs)"
  by (induction fs arbitrary: e) (simp_all add: split_beta)

lemma sample_flatten:
  "fs \<noteq> [] \<Longrightarrow> flattenPipeChain (sample_chain fs) = Some (name_expr ''x'', map call_step fs)"
proof -
  assume "fs \<noteq> []"
  then obtain f fs' where fs: "fs = f # fs'" by (cases fs) auto
  have "\<exists>t l r m. chain_of (PipeExpr t' l' r' m') gs = PipeExpr t l r m" for t' l' r' m' gs
    by (induction gs arbitrary: t' l' r' m') simp_all
  then obtain t l r m where "sample_chain fs = PipeExpr t l r m"
    unfolding fs sample_chain_def by fastforce
  then show ?thesis
    using sample_walk [of "name_expr ''x''" fs]
    by (simp add: flattenPipeChain_def sample_chain_def name_expr_def)
qed

lemma onerr_chain_correct_witness:
  "\<exists>block cur g' env' w1.
     lowerOnErrPipeChain sample_renderer (\<lambda>_. []) (sample_chain [''load'', ''check'', ''trim'', ''load''])
       return_clause [] [] sample_generator = (Some (block, cur), g') \<and>
     exec sample_go block (\<lambda>_. 3, []) = (Normal, env', w1) \<and>
     evalExpr sample_go cur env' w1 = ([9], [''load'', ''check'', ''trim'', ''load''])"
proof -
  let ?fs = "[''load'', ''check'', ''trim'', ''load'']"
  have "sample_lowering ?fs \<noteq> None" by code_simp
  then obtain block cur g' where low: "lowerOnErrPipeChain sample_renderer (\<lambda>_. []) (sample_chain ?fs)
      return_clause [] [] sample_generator = (Some (block, cur), g')"
    unfolding sample_lowering_def
    by (cases "lowerOnErrPipeChain sample_renderer (\<lambda>_. []) (sample_chain ?fs) return_clause [] [] sample_generator")
      auto
  have run: "run_pipe (isNil sample_go) sample_base sample_sem sample_generator (\<lambda>_. 3) (name_expr ''x'')
      (map call_step ?fs) [] = Inr (9, ?fs)"
    by code_simp
  have "no_pending_call sample_generator True (map call_step ?fs)" by code_simp
  from onerr_chain_correct [OF sample_stable sample_reads sample_base_rendered sample_steps this _ _
      sample_flatten low, where w = "[]" and env = "\<lambda>_. 3"]
  show ?thesis using low sample_results
    by (auto simp: run [unfolded list.map] sample_base_def return_clause_def onerr_return_diverts)
qed

lemma labelled_chain_correct_witness:
  "\<exists>block cur g' env'.
     lowerOnErrPipeChainWithLabels sample_renderer (\<lambda>_. []) (sample_chain [''trim'', ''load'', ''load''])
       ''onerr_1'' (temp_name ''pipeErr'' 3) sample_generator = (Some (block, cur), g') \<and>
     exec sample_go block (\<lambda>_. 0, []) = (Jump ''onerr_1'', env', [''trim'', ''load'']) \<and>
     env' (temp_name ''pipeErr'' 3) = 7"
proof -
  let ?fs = "[''trim'', ''load'', ''load'']"
  let ?low = "lowerOnErrPipeChainWithLabels sample_renderer (\<lambda>_. []) (sample_chain ?fs)
      ''onerr_1'' (temp_name ''pipeErr'' 3) sample_generator"
  have "fst ?low \<noteq> None" by code_simp
  then obtain block cur g' where low: "?low = (Some (block, cur), g')" by (cases ?low) auto
  have run: "run_pipe (isNil sample_go) sample_base sample_sem sample_generator (\<lambda>_. 0) (name_expr ''x'')
      (map call_step ?fs) [] = Inl (7, [''trim'', ''load''])"
    by code_simp
  have fresh: "temp_name ''pipeErr'' 3 \<notin> set (reservedNames sample_generator)" by code_simp
  have "no_pending_call sample_generator True (map call_step ?fs)" by code_simp
  from labelled_chain_correct [OF sample_stable sample_reads sample_base_rendered sample_steps this _
      sample_flatten refl fresh low, where w = "[]" and env = "\<lambda>_. 0"]
  show ?thesis using low sample_results
    by (auto simp: run [unfolded list.map] sample_base_def)
qed

lemma piped_switch_gotos_witness:
  "\<exists>block g'.
     lowerPipedSwitchStmt sample_renderer (\<lambda>_. []) (sample_chain [''load'']) (SwitchStmt no_token NilExpr [] None)
       (no_token, NilExpr, [], False, True, False, []) sample_generator = (Some block, g') \<and>
     legal_gotos (\<lambda>_. False) block"
proof -
  let ?clause = "(no_token, NilExpr, [], False, True, False, []) :: OnErrClause"
  let ?low = "lowerPipedSwitchStmt sample_renderer (\<lambda>_. []) (sample_chain [''load''])
    (SwitchStmt no_token NilExpr [] None) ?clause sample_generator"
  have "fst ?low \<noteq> None" by code_simp
  then obtain block g' where low: "?low = (Some block, g')" by (cases ?low) auto
  have "\<not> list_ex (declares (\<lambda>_. False)) (fst (lowerOnErrHandler R ?clause names e h))" for R names e h
    by (simp add: lowerOnErrHandler_def Add_def)
  then show ?thesis using piped_switch_gotos [OF low, of "\<lambda>_. False"] low by auto
qed

section \<open>Outside the assumptions\<close>

text \<open>A call that is pending before an error-only step is run again after it.\<close>

lemma pending_call_runs_twice:
  "case sample_lowering [''trim'', ''check''] of
     Some (block, cur) \<Rightarrow>
       (case exec sample_go block (\<lambda>_. 3, []) of
          (r, env, w) \<Rightarrow> snd (evalExpr sample_go cur env w) = [''trim'', ''check'', ''trim''])"
  by code_simp

text \<open>A default value for a chain is used only at the last checked step: at the steps before it the
  handler is empty and the chain goes on. A step after the last checked one makes the final
  declaration \<^verbatim>\<open>port := trim(port)\<close>, although \<^verbatim>\<open>port\<close> was declared by the checked step.\<close>

definition default_clause :: OnErrClause where
  "default_clause = (no_token, IntegerLiteral no_token 8, [], False, False, False, [])"

definition sample_declaration :: "string list \<Rightarrow> Block \<times> string" where
  "sample_declaration fs =
     (case fst (lowerOnErrPipeChain sample_renderer (\<lambda>_. []) (sample_chain fs) default_clause [] ''port''
        sample_generator) of Some r \<Rightarrow> r | None \<Rightarrow> ([], []))"

lemma default_dropped:
  "case fst (sample_declaration [''load'', ''load'']) ! 2 of
     IfErrCheck e (Some [RawStmt code q]) p \<Rightarrow> e = ''err_2'' \<and> code = [] | _ \<Rightarrow> False"
  by code_simp

lemma target_declared_twice:
  "(case fst (sample_declaration [''load'', ''trim'']) ! 1 of
      Assign names e walrus p \<Rightarrow> names = [''port'', ''err_2''] \<and> e = ''load(x)'' \<and> walrus | _ \<Rightarrow> False) \<and>
   snd (sample_declaration [''load'', ''trim'']) = ''trim(port)''"
  by code_simp

end
