(* ===== verification/ParserTotal.thy ===== *)
theory ParserTotal
  imports ParserCalculus DeclParser
begin

text \<open>
  The parser is total: on any list of tokens \<^verbatim>\<open>Parse\<close> returns, whatever the tokens are, with every token
  consumed. The locale \<open>parsers_ok\<close> says what the routines rely on when they call each other: with
  fewer than \<open>n\<close> tokens ahead the calls do not get stuck, and a statement eats at least one token.
  Tying the knot once more gives the contract for \<open>n + 1\<close>.
\<close>

section \<open>Quiet routines\<close>

named_theorems quiet

lemmas [quiet] = spec_bind_quiet spec_if spec_let spec_case_option spec_case_prod quiet_actions
  quiet_while_accept quiet_comma_list quiet_comma_list_until quiet_append_item quiet_or_back spec_with_inline_onerr

lemma quiet_ret [quiet]: "spec k P never (ret x)"
  by (rule spec_ret) simp

lemma quiet_sees_any [quiet]: "spec k anything never (sees_any tts)"
  by (induction tts) (auto intro: quiet)

lemma quiet_case_sum [quiet]:
  "(\<And>x. spec k P E (f x)) \<Longrightarrow> (\<And>x. spec k P E (g x)) \<Longrightarrow> spec k P E (case a of Inl x \<Rightarrow> f x | Inr x \<Rightarrow> g x)"
  by (cases a) simp_all

lemma quiet_elements_until [quiet]: "spec k anything never item \<Longrightarrow> spec k anything never (elements_until close item)"
  unfolding elements_until_def by (intro quiet)

text \<open>A loop over lines whose items eat.\<close>

lemma eats_adv_bind: "(\<And>t. spec k anything never (f t)) \<Longrightarrow> eats k (State_Monad.bind adv f)"
proof (rule eatsI)
  assume f: "\<And>t. spec k anything never (f t)"
  then show "spec k anything never (State_Monad.bind adv f)" by (intro quiet)
  show "spec k live always (State_Monad.bind adv f)"
    by (rule spec_adv) (simp, rule spec_weaken [OF f], auto)
qed

lemma spec_bind_same:
  "spec k anything never m \<Longrightarrow> (\<And>x. spec k anything E (f x)) \<Longrightarrow> spec k P E (State_Monad.bind m f)"
  by (rule spec_bind [where ?E1.0 = never]) (auto intro: spec_quiet)

lemma spec_impossible: "(\<And>y z. \<not> P y z) \<Longrightarrow> spec k P E m"
  by (simp add: spec_def)

text \<open>Rules for routines that eat in one of several ways.\<close>

lemma spec_bind_if:
  "(b \<Longrightarrow> spec k P E (State_Monad.bind m f)) \<Longrightarrow> (\<not> b \<Longrightarrow> spec k P E (State_Monad.bind m' f)) \<Longrightarrow>
     spec k P E (State_Monad.bind (if b then m else m') f)"
  by simp

lemma parseIdentifier_eats: "eats k parseIdentifier"
  unfolding parseIdentifier_def by (rule eats_adv_bind) (intro quiet)

lemmas [quiet] = parseIdentifier_eats [THEN eats_spec(1)]

lemma simple_quiet [quiet]:
  "spec k anything never parseIntegerLiteral" "spec k anything never parseFloatLiteral"
  "spec k anything never parseStringLiteral" "spec k anything never parseRawStringLiteral"
  "spec k anything never parseBooleanLiteral" "spec k anything never parseReturnTypes"
  "spec k anything never parseEmptyExpr" "spec k anything never isArrowLambda"
  "spec k anything never name_literal" "spec k anything never recover_expr"
  unfolding parseIntegerLiteral_def parseFloatLiteral_def parseStringLiteral_def parseRawStringLiteral_def
    parseBooleanLiteral_def parseReturnTypes_def parseEmptyExpr_def isArrowLambda_def name_literal_def
    recover_expr_def
  by (intro quiet)+

lemma ptokens_match: "ptokens (snd (match_types tts p)) = ptokens p"
proof -
  have peek: "ptokens (snd (peekToken q)) = ptokens q" for q by (simp add: peekToken_view)
  have isend: "ptokens (snd (p_isAtEnd q)) = ptokens q" for q
    by (simp add: p_isAtEnd_def case_prod_beta Let_def peek)
  have "ptokens (snd (check tt q)) = ptokens q" "ptokens (snd (p_advance q)) = ptokens q" for tt q
    by (simp_all add: check_def p_advance_def case_prod_beta Let_def peek isend)
  then show ?thesis
    by (induction tts arbitrary: p) (simp_all add: match_types.simps case_prod_beta Let_def)
qed

section \<open>The contract of the recursive calls\<close>

locale parsers_ok =
  fixes R :: parsers and n :: nat
  assumes rExpr: "spec n anything never (rExpr R)"
    and rUnary: "spec n anything never (rUnary R)"
    and rIfExpr: "spec n live never (rIfExpr R)"
    and rBlock: "spec n anything never (rBlock R)"
    and rStmt: "eats n (rStmt R)"
    and rIfStmt: "spec n live never (rIfStmt R)"
begin

lemma calls [quiet]:
  "k \<le> n \<Longrightarrow> spec k anything never (rExpr R)" "k \<le> n \<Longrightarrow> spec k anything never (rUnary R)"
  "k \<le> n \<Longrightarrow> spec k anything never (rBlock R)"
  by (rule spec_weaken [OF rExpr] spec_weaken [OF rUnary] spec_weaken [OF rBlock]; simp)+

lemma quiet_expressions [quiet]:
  assumes k: "k \<le> n"
  shows "spec k anything never (parseExpressionList R)" "spec k anything never (call_argument R a)"
    "spec k anything never (parameter R s)" "spec k anything never (field_value R)"
    "spec k anything never (map_pair R)" "spec k anything never (when_case R t)"
    "spec k anything never (type_case R t)" "spec k anything never (untyped_entry R keyed)"
    "spec k anything never (arrow_parameter R)"
proof -
  show "spec k anything never (parseExpressionList R)"
    unfolding parseExpressionList_def by (intro quiet) (use k in simp_all)
  show "spec k anything never (call_argument R a)"
    unfolding call_argument_def by (intro quiet) (use k in simp_all)
  show "spec k anything never (parameter R s)"
    unfolding parameter_def by (intro quiet) (use k in simp_all)
  show "spec k anything never (field_value R)"
    unfolding field_value_def by (intro quiet) (use k in simp_all)
  show "spec k anything never (map_pair R)"
    unfolding map_pair_def by (intro quiet) (use k in simp_all)
  show "spec k anything never (when_case R t)"
    unfolding when_case_def by (intro quiet) (use k in simp_all)
  show "spec k anything never (type_case R t)"
    unfolding type_case_def by (intro quiet) (use k in simp_all)
  show "spec k anything never (untyped_entry R keyed)"
    unfolding untyped_entry_def by (intro quiet) (use k in simp_all)
  show "spec k anything never (arrow_parameter R)"
    unfolding arrow_parameter_def by (intro quiet) (use k in simp_all)
qed

lemma head_adv:
  assumes "\<And>y z. P y z \<Longrightarrow> y \<noteq> TOKEN_EOF" "k \<le> Suc n"
    "\<And>k' t. k' \<le> n \<Longrightarrow> spec k' anything never (f t)"
  shows "spec k P E (State_Monad.bind adv f)"
  by (rule spec_adv) (use assms in auto)

lemma quiet_interpolation [quiet]:
  assumes "k \<le> n" shows "spec k anything never (ploop (interpolation_step R) s)"
proof (rule quiet_ploop)
  fix s
  show "spec k anything fst (interpolation_step R s)"
    unfolding interpolation_step_def Let_def
    by (rule spec_rules spec_bind_same [OF calls(1) [OF assms]] spec_adv spec_ret | simp)+
qed

lemma switch_branch_eats:
  assumes k: "k \<le> n" and branch: "\<And>t k. k \<le> n \<Longrightarrow> spec k anything never (branch t)"
  shows "eats k (switch_branch R kind branch s)"
proof (rule eatsI)
  show "spec k anything never (switch_branch R kind branch s)"
    unfolding switch_branch_def by (intro quiet branch) (use k in simp_all)
  show "spec k live always (switch_branch R kind branch s)"
    unfolding switch_branch_def report_here_def
    by (rule spec_accept spec_if_True spec_if_False spec_adv spec_ret spec_look [OF step_peek_tok]
          spec_look [OF step_report] | intro quiet branch | use k in simp)+
qed

lemma quiet_switch_branches [quiet]:
  assumes "k \<le> n" "\<And>t k. k \<le> n \<Longrightarrow> spec k anything never (branch t)"
  shows "spec k anything never (switch_branches R kind branch)"
  unfolding switch_branches_def by (intro quiet quiet_indented_loop switch_branch_eats assms) (use assms in simp_all)

lemma quiet_switch_bodies [quiet]:
  assumes k: "k \<le> n"
  shows "spec k anything never (parseSwitchBody R t x)" "spec k anything never (parseTypeSwitchBody R t x i)"
  unfolding parseSwitchBody_def parseTypeSwitchBody_def by (intro quiet; use k in simp)+

text \<open>The routines that start with the keyword or bracket they are called for.\<close>

lemma quiet_indented_fields [quiet]:
  assumes k: "k \<le> n" shows "spec k anything never (indented_loop (indented_field R) fs)"
proof (rule quiet_indented_loop)
  fix fs show "eats k (indented_field R fs)"
    unfolding indented_field_def field_value_def bind_assoc
    by (rule eats_bind [OF parseIdentifier_eats]) (intro quiet; use k in simp)
qed

lemma quiet_bodies [quiet]:
  assumes k: "k \<le> n"
  shows "spec k anything never (list_body R t a)" "spec k anything never (map_body R t key val)"
    "spec k anything never (untyped_rest R keyed es)" "spec k anything never (parseParameters R)"
    "spec k anything never (parseArrowLambdaParams R)"
proof -
  show "spec k anything never (list_body R t a)" "spec k anything never (map_body R t key val)"
    "spec k anything never (parseParameters R)" "spec k anything never (parseArrowLambdaParams R)"
    unfolding list_body_def map_body_def parseParameters_def parseArrowLambdaParams_def
    by (intro quiet; use k in simp)+
  show "spec k anything never (untyped_rest R keyed es)"
    unfolding untyped_rest_def
  proof (rule quiet_ploop)
    fix es
    show "spec k anything fst (do {
         b \<leftarrow> accept [TOKEN_COMMA];
         if \<not> b then ret (False, es) else do {
           c \<leftarrow> sees TOKEN_RBRACE;
           if c then ret (False, es) else do { e \<leftarrow> untyped_entry R keyed; ret (True, es @ [e]) } } })"
      by (rule spec_accept) (use k in \<open>simp_all, (intro quiet; simp)+, intro spec_ret, simp\<close>)
  qed
qed

lemma heads:
  assumes k: "k \<le> Suc n" and live: "\<And>y z. P y z \<Longrightarrow> y \<noteq> TOKEN_EOF"
  shows "spec k P E (parseInterpolatedStringLiteral R)" "spec k P E (parseErrorExpr R)"
    "spec k P E (parseMakeExpr R)" "spec k P E (parseCloseExpr R)" "spec k P E (parsePanicExpr R)"
    "spec k P E (parseReceiveExpr R)" "spec k P E (parseListLiteral R)" "spec k P E (parseTypedListLiteral R)"
    "spec k P E (parseBracketListExpr R)" "spec k P E (parseBracketMapExpr R)" "spec k P E (parseMapLiteral R)"
    "spec k P E (parseUntypedCompositeLiteral R)" "spec k P E (parseGroupedExpression R)"
    "spec k P E (parseFunctionLiteral R)" "spec k P E (parseReturnExpr R)" "spec k P E (parseShorthandMethodCall R)"
    "spec k P E parseIntegerLiteral" "spec k P E parseFloatLiteral" "spec k P E parseStringLiteral"
    "spec k P E parseRawStringLiteral" "spec k P E parseBooleanLiteral" "spec k P E name_literal"
    "spec k P E recover_expr" "spec k P E parseEmptyExpr"
  unfolding parseInterpolatedStringLiteral_def parseErrorExpr_def parseMakeExpr_def parseCloseExpr_def
    parsePanicExpr_def parseReceiveExpr_def parseListLiteral_def parseTypedListLiteral_def
    parseBracketListExpr_def parseBracketMapExpr_def parseMapLiteral_def parseUntypedCompositeLiteral_def
    parseGroupedExpression_def parseFunctionLiteral_def parseReturnExpr_def parseShorthandMethodCall_def
    parseIntegerLiteral_def parseFloatLiteral_def parseStringLiteral_def parseRawStringLiteral_def
    parseBooleanLiteral_def name_literal_def recover_expr_def parseEmptyExpr_def
  by (rule head_adv [OF live k]; (intro quiet | assumption)+)+

lemma parseIfExpression_head:
  assumes k: "k \<le> Suc n" and live: "\<And>y z. P y z \<Longrightarrow> y \<noteq> TOKEN_EOF"
  shows "spec k P E (parseIfExpression R)"
proof -
  have branch: "spec k' anything never (do { b \<leftarrow> sees TOKEN_IF; y \<leftarrow> (if b then rIfExpr R else rExpr R); ret (g y) })"
    if k': "k' \<le> n" for k' and g :: "Expression \<Rightarrow> Expression"
  proof (rule spec_sees)
    show "spec k' (\<lambda>y z. True \<and> y = TOKEN_IF) never (do { y \<leftarrow> (if True then rIfExpr R else rExpr R); ret (g y) })"
      using spec_weaken [OF rIfExpr k', of "\<lambda>y z. True \<and> y = TOKEN_IF"]
      by (intro spec_bind [where ?E1.0 = never]) (auto intro: quiet)
  qed (use k' in \<open>simp_all, intro quiet, simp\<close>)
  show ?thesis
    unfolding parseIfExpression_def
    by (rule head_adv [OF live k]; (intro quiet branch | assumption)+)
qed

lemma struct_literal_head:
  assumes k: "k \<le> Suc n" and live: "\<And>y z. P y z \<Longrightarrow> y \<noteq> TOKEN_EOF"
  shows "spec k P E (parseIdentifierOrStructLiteral R)"
  unfolding parseIdentifierOrStructLiteral_def
proof (rule spec_bind_eaten)
  show "spec k P always parseIdentifier" by (rule spec_pair [OF parseIdentifier_eats live])
qed (intro quiet; use k in simp)

lemma parseArrowLambda_head:
  assumes k: "k \<le> Suc n" and start: "\<And>y z. P y z \<Longrightarrow> y = TOKEN_IDENTIFIER \<and> z = TOKEN_FAT_ARROW \<or> y = TOKEN_LPAREN"
  shows "spec k P E (parseArrowLambda R)"
proof -
  let ?parens = "do {
      b \<leftarrow> sees TOKEN_LPAREN;
      if b then do {
        _ \<leftarrow> adv;
        e \<leftarrow> sees TOKEN_RPAREN;
        ps \<leftarrow> (if e then ret [] else parseArrowLambdaParams R);
        _ \<leftarrow> must TOKEN_RPAREN (msg ''expected `)` after arrow lambda parameters'');
        ret ps }
      else ret [] }"
  have "spec k P always (arrow_head R)"
    unfolding arrow_head_def
  proof (rule spec_sees)
    show "spec k (\<lambda>y z. P y z \<and> y = TOKEN_IDENTIFIER) always (do {
        arrow \<leftarrow> (if True then do { t \<leftarrow> peek_next; ret (Type t = TOKEN_FAT_ARROW) } else ret False);
        if arrow then do { t \<leftarrow> adv; ret [(Identifier t (Lexeme t), NilType, False, NilExpr)] } else ?parens })"
      unfolding if_True bind_assoc bind_left_identity
      by (rule spec_looks, rule spec_if)
        (rule spec_adv, simp, rule quiet, rule spec_impossible, use start in fastforce)
    show "spec k (\<lambda>y z. P y z \<and> y \<noteq> TOKEN_IDENTIFIER) always (do {
        arrow \<leftarrow> (if False then do { t \<leftarrow> peek_next; ret (Type t = TOKEN_FAT_ARROW) } else ret False);
        if arrow then do { t \<leftarrow> adv; ret [(Identifier t (Lexeme t), NilType, False, NilExpr)] } else ?parens })"
      unfolding if_False bind_left_identity
      by (rule spec_sees, simp, unfold if_True if_False)
        (rule spec_adv, simp, intro quiet, use k in simp_all, rule spec_impossible, use start in fastforce)
  qed simp
  then show ?thesis
    unfolding parseArrowLambda_def
    by (rule spec_bind_eaten) (intro quiet; use k in simp)
qed

section \<open>Expressions\<close>

lemma parsePrimaryExpr_spec:
  assumes k: "k \<le> Suc n"
    and last: "\<And>t m x. spec k (\<lambda>y z. P y z \<and> Type t = y) E (do { report t m; _ \<leftarrow> adv; ret x })"
  shows "spec k P E (parsePrimaryExpr R)"
proof -
  have lambda: "spec k Q E (do { b \<leftarrow> isArrowLambda; if b then parseArrowLambda R else parseGroupedExpression R })"
    if "\<And>y z. Q y z \<Longrightarrow> y = TOKEN_LPAREN" for Q
    unfolding isArrowLambda_def bind_assoc bind_left_identity
    by (rule spec_looks, rule spec_if, rule parseArrowLambda_head [OF k], use that in blast,
        rule heads [OF k], use that in fastforce)
  note branches = heads [OF k] parseIfExpression_head [OF k] struct_literal_head [OF k]
    parseArrowLambda_head [OF k] spec_adv spec_look [OF step_peek_next] spec_look [OF step_identifier_follower]
    lambda last quiet_ret spec_bind_if spec_sees_any spec_sees_any_Nil
  show ?thesis
    unfolding parsePrimaryExpr_def Let_def
    by (rule spec_look [OF step_peek_tok])
      ((rule spec_if_True spec_if_False spec_if | rule branches | simp only: bind_left_identity if_True | simp; fail | auto; fail)+)
qed

lemma parsePrimaryExpr_eats:
  assumes k: "k \<le> Suc n" shows "eats k (parsePrimaryExpr R)"
proof (rule eatsI; rule parsePrimaryExpr_spec [OF k])
  fix t m and x :: Expression
  show "spec k (\<lambda>y z. True \<and> Type t = y) never (do { report t m; _ \<leftarrow> adv; ret x })"
    by (rule spec_quiet) (intro quiet)
  show "spec k (\<lambda>y z. y \<noteq> TOKEN_EOF \<and> Type t = y) always (do { report t m; _ \<leftarrow> adv; ret x })"
    by (rule spec_look [OF step_report], rule spec_adv) (auto intro: quiet)
qed

lemma quiet_after_bracket [quiet]: "k \<le> n \<Longrightarrow> spec k anything never (after_bracket R x)"
  unfolding after_bracket_def by (intro quiet; simp)

lemma quiet_parse_call [quiet]: "k \<le> n \<Longrightarrow> spec k anything never (parse_call R)"
  unfolding parse_call_def parseCallArguments_def by (intro quiet; simp)

lemma quiet_qualified [quiet]: "k \<le> n \<Longrightarrow> spec k anything never (qualified_literal R i j)"
  unfolding qualified_literal_def by (intro quiet; simp)

lemma quiet_after_dot [quiet]:
  assumes k: "k \<le> n" shows "spec k anything never (after_dot R x)"
proof -
  have "spec k anything never (case x of Ident pkg \<Rightarrow> qualified_literal R pkg name
      | _ \<Rightarrow> ret (FieldAccessExpr dot x name))" for name dot
    using k by (cases x) (simp_all add: quiet)
  then show ?thesis unfolding after_dot_def by (intro quiet; use k in simp)
qed

lemma quiet_postfix [quiet]:
  assumes k: "k \<le> Suc n" shows "spec k anything never (ploop (postfix_step R) x)"
proof (rule quiet_ploop)
  fix x show "spec k anything fst (postfix_step R x)"
    unfolding postfix_step_def
    by (rule spec_accept spec_if_True spec_if_False spec_ret | simp; fail | intro quiet; use k in simp)+
qed

lemma parsePostfixExpr_eats: "k \<le> Suc n \<Longrightarrow> eats k (parsePostfixExpr R)"
  unfolding parsePostfixExpr_def by (rule eats_bind [OF parsePrimaryExpr_eats]) (auto intro: quiet)

lemma spec_reference_of:
  assumes k: "k \<le> Suc n" and none: "spec k P E (f None)"
    and some: "\<And>k' x. Suc k' = k \<Longrightarrow> spec k' anything never (f (Some x))"
  shows "spec k P E (State_Monad.bind (reference_of R) f)"
proof (rule spec_step [where ?E1.0 = "\<lambda>r. r \<noteq> None" and R = "\<lambda>_. anything"])
  show "step k P (\<lambda>r. r \<noteq> None) (\<lambda>_. anything) (reference_of R)"
    unfolding step_def
  proof (intro allI impI)
    fix p assume a: "left p < k" "P (next_type p) (second_type p)"
    let ?m = "match_types [TOKEN_REFERENCE] p"
    let ?q = "snd ?m"
    let ?c = "match_types [TOKEN_OF] ?q"
    let ?r = "snd ?c"
    have m: "frame p ?q" "fst ?m \<Longrightarrow> left ?q < left p" "\<not> fst ?m \<Longrightarrow> same_look p ?q"
      using match_types_cases [of p "[TOKEN_REFERENCE]"] by (auto intro: same_look_view)
    have c: "frame ?q ?r" using match_types_cases [of ?q "[TOKEN_OF]"] by simp
    consider "\<not> fst ?m" | "fst ?m" "\<not> fst ?c" | "fst ?m" "fst ?c" by blast
    then show "\<exists>x p'. run_state (reference_of R) (p, False) = (x, (p', False)) \<and> frame p p' \<and>
        (if x \<noteq> None then left p' < left p else same_look p p' \<and> True)"
    proof cases
      case 1
      then show ?thesis using m by (simp add: reference_of_def get_parser_def accept_def)
    next
      case 2
      let ?b = "?r\<lparr>pos := pos p\<rparr>"
      have "ptokens ?b = ptokens p" by (simp add: ptokens_match)
      then have "same_look p ?b" by (intro same_look_view) (simp add: view_def ahead_def)
      moreover have "frame p ?b" using frame_trans [OF m(1) c] by (rule quiet_set_back)
      ultimately show ?thesis
        using 2 by (simp add: reference_of_def get_parser_def accept_def prev_tok_def set_pos_def)
    next
      case 3
      have l: "left ?r < left p" using m(2) 3(1) frame_left [OF c] by linarith
      then have "left ?r < n" using a(1) k by linarith
      then obtain x s where "run_state (rUnary R) (?r, False) = (x, (s, False))" "frame ?r s"
        using rUnary unfolding spec_def by blast
      then show ?thesis
        using 3 l frame_left [of ?r s] frame_trans [OF frame_trans [OF m(1) c], of s]
        by (simp add: reference_of_def get_parser_def accept_def prev_tok_def)
    qed
  qed
qed (use none some in auto)

lemma parseUnaryExpr_eats:
  assumes k: "k \<le> Suc n" shows "eats k (parseUnaryExpr R)"
proof -
  have main: "spec k P E (parseUnaryExpr R)" if last: "spec k P E (parsePostfixExpr R)" for P E
    unfolding parseUnaryExpr_def
    by (rule spec_accept spec_if_True spec_if_False spec_reference_of [OF k] | simp only: option.case
        | rule spec_weaken [OF last]; simp; fail | intro quiet; use k in simp)+
  show ?thesis
    using parsePostfixExpr_eats [OF k] main unfolding eats_def by blast
qed

lemma quiet_binary_rest:
  assumes "k \<le> Suc n" "\<And>k. k \<le> Suc n \<Longrightarrow> eats k operand"
  shows "spec k anything never (binary_rest ops operand x)"
  unfolding binary_rest_def by (intro quiet eats_spec assms; use assms(1) in simp)

lemma spec_two_words:
  assumes some: "\<And>k' t. Suc k' = k \<Longrightarrow> spec k' anything never (f (Some t))" and none: "spec k P E (f None)"
  shows "spec k P E (State_Monad.bind (two_words tt name) f)"
proof -
  have rest: "spec k' anything never (do { _ \<leftarrow> adv; f (Some (t\<lparr>Lexeme := name\<rparr>)) })" if "Suc k' = k" for k' and t :: token
    using some [OF that] by (intro quiet)
  show ?thesis
    unfolding two_words_def
    by (simp only: if_True if_False bind_assoc bind_left_identity
        | rule spec_sees spec_bind_if spec_looks spec_adv rest | rule spec_weaken [OF none]; simp; fail | simp; fail)+
qed

lemma spec_comparison_operator:
  assumes some: "\<And>k' t. Suc k' = k \<Longrightarrow> spec k' anything never (f (Some t))" and none: "spec k P E (f None)"
  shows "spec k P E (State_Monad.bind comparison_operator f)"
  unfolding comparison_operator_def
  by (simp only: if_True if_False bind_assoc bind_left_identity option.case
      | rule spec_accept spec_bind_if spec_two_words spec_looks some [THEN spec_quiet]
      | rule spec_weaken [OF none]; simp; fail | simp; fail)+

lemma quiet_comparisons:
  assumes k: "k \<le> Suc n" and additive: "\<And>k. k \<le> Suc n \<Longrightarrow> eats k (parseAdditiveExpr R)"
  shows "spec k anything never (ploop (comparison_step R) x)"
proof (rule quiet_ploop)
  fix x show "spec k anything fst (comparison_step R x)"
    unfolding comparison_step_def
    by (rule spec_comparison_operator spec_accept spec_if_True spec_if_False spec_ret | simp only: option.case
        | simp; fail | intro quiet eats_spec(1) [OF additive]; use k in simp)+
qed

lemma operators_eat:
  assumes k: "k \<le> Suc n"
  shows "eats k (parseMultiplicativeExpr R)" "eats k (parseAdditiveExpr R)" "eats k (parseComparisonExpr R)"
    "eats k (parseBitwiseAndExpr R)" "eats k (parseBitwiseOrExpr R)" "eats k (parseAndExpr R)"
proof -
  have mul: "eats k (parseMultiplicativeExpr R)" if "k \<le> Suc n" for k
    unfolding parseMultiplicativeExpr_def by (intro eats_bind parseUnaryExpr_eats quiet_binary_rest that)
  have add: "eats k (parseAdditiveExpr R)" if "k \<le> Suc n" for k
    unfolding parseAdditiveExpr_def by (intro eats_bind mul quiet_binary_rest that)
  have cmp: "eats k (parseComparisonExpr R)" if "k \<le> Suc n" for k
    unfolding parseComparisonExpr_def by (intro eats_bind add quiet_comparisons that)
  have bit_and: "eats k (parseBitwiseAndExpr R)" if "k \<le> Suc n" for k
    unfolding parseBitwiseAndExpr_def by (intro eats_bind cmp quiet_binary_rest that)
  have bit_or: "eats k (parseBitwiseOrExpr R)" if "k \<le> Suc n" for k
    unfolding parseBitwiseOrExpr_def by (intro eats_bind bit_and quiet_binary_rest that)
  have "eats k (parseAndExpr R)" if "k \<le> Suc n" for k
    unfolding parseAndExpr_def by (intro eats_bind bit_or quiet_binary_rest that)
  then show "eats k (parseMultiplicativeExpr R)" "eats k (parseAdditiveExpr R)" "eats k (parseComparisonExpr R)"
    "eats k (parseBitwiseAndExpr R)" "eats k (parseBitwiseOrExpr R)" "eats k (parseAndExpr R)"
    using mul add cmp bit_and bit_or k by blast+
qed

lemma parsePipeExpr_eats:
  assumes k: "k \<le> Suc n" shows "eats k (parsePipeExpr R)"
proof -
  have "spec k' anything never (pipe_step R s)" if "Suc k' = k" for k' s
    unfolding pipe_step_def piped_switch_def
    by (intro quiet eats_spec(1) [OF operators_eat(6)]; use that k in simp)
  then have "spec k anything never (while_accept [TOKEN_PIPE] (pipe_step R) s)" for s by (rule quiet_while_accept)
  then show ?thesis
    unfolding parsePipeExpr_def by (intro eats_bind operators_eat(6) k spec_bind_quiet quiet_ret)
qed

lemma parseOrExpr_eats: "k \<le> Suc n \<Longrightarrow> eats k (parseOrExpr R)"
  unfolding parseOrExpr_def by (intro eats_bind parsePipeExpr_eats quiet_binary_rest)

lemma parseOnErrExpr_eats:
  assumes k: "k \<le> Suc n" shows "eats k (parseOnErrExpr R)"
  unfolding parseOnErrExpr_def
proof (rule eats_bind [OF parseOrExpr_eats [OF k]])
  fix x
  show "spec k anything never (do { b \<leftarrow> accept [TOKEN_ONERR]; if \<not> b then ret x
      else do { t \<leftarrow> prev_tok; d \<leftarrow> rExpr R; ret (OnErrExpr t x d) } })"
    by (rule spec_accept; simp) (intro quiet; use k in simp)+
qed

lemma parseExpression_eats:
  assumes k: "k \<le> Suc n" shows "eats k (parseExpression R)"
  unfolding parseExpression_def
proof (rule eatsI; rule spec_looks)
  fix p :: parser
  show "spec k (\<lambda>y z. True \<and> True) never (if allowInlineOnErr p then parseOnErrExpr R else parseOrExpr R)"
    by (auto intro!: spec_if spec_quiet eats_spec(1) parseOnErrExpr_eats parseOrExpr_eats k)
  show "spec k (\<lambda>y z. y \<noteq> TOKEN_EOF \<and> True) always (if allowInlineOnErr p then parseOnErrExpr R else parseOrExpr R)"
    by (auto intro!: spec_if spec_pair parseOnErrExpr_eats parseOrExpr_eats k)
qed

end

end
