(* ===== verification/StmtTotal.thy ===== *)
theory StmtTotal
  imports ParserTotal
begin

text \<open>The contract of \<open>ParserTotal\<close> for blocks, statements and \<^verbatim>\<open>onerr\<close> clauses.\<close>

lemma quiet_break_at: "spec k anything never (break_at i)"
  by (rule specI) (simp add: break_at_def frame_def ahead_def)

lemma quiet_pass_newlines: "spec k anything never pass_newlines"
  by (rule specI) (simp add: pass_newlines_def frame_def ahead_def)

lemma quiet_bare: "spec k anything never (bare tt)"
  unfolding bare_def by (intro quiet)

lemma quiet_type_decl_parts:
  "spec k anything never parseFieldAlias" "spec k anything never struct_tag" "spec k anything never parseStructTag"
proof -
  show "spec k anything never parseFieldAlias" "spec k anything never struct_tag"
    unfolding parseFieldAlias_def struct_tag_def by (intro quiet)+
  then show "spec k anything never parseStructTag"
    unfolding parseStructTag_def by (intro spec_bind_quiet spec_if quiet_or_back quiet)
qed

lemmas [quiet] = quiet_break_at quiet_pass_newlines quiet_bare quiet_type_decl_parts

lemma quiet_type_fields [quiet]: "spec k anything never (indented_loop type_field fs)"
proof (rule quiet_indented_loop)
  fix fs show "eats k (type_field fs)"
    unfolding type_field_def by (rule eats_bind [OF parseIdentifier_eats]) (intro quiet)
qed

lemma parseTypeDecl_eats: "eats k parseTypeDecl"
  unfolding parseTypeDecl_def by (rule eats_adv_bind) (intro quiet)

context parsers_ok
begin

lemma parseBlock_quiet:
  assumes k: "k \<le> Suc n" shows "spec k anything never (parseBlock R)"
proof -
  have item: "eats k (block_item R ss)" if "k \<le> n" for k ss
    unfolding block_item_def
    by (rule eats_bind) (use rStmt spec_weaken that in \<open>auto simp: eats_def intro: quiet\<close>)
  show ?thesis
    unfolding parseBlock_def
    by (rule spec_looks, rule spec_accept)
      (simp, intro quiet quiet_indented_loop item, use k in simp, simp, intro quiet quiet_step [OF step_report])
qed

lemma quiet_stmt_parts [quiet]:
  assumes k: "k \<le> n"
  shows "spec k anything never (parseReceiveExpr R)" "spec k anything never (parseSendStmt R)"
    "spec k anything never (for_body R)" "spec k anything never (parseExplainString R)"
    "spec k anything never (parseStatementExpressionList R)"
  unfolding parseReceiveExpr_def parseSendStmt_def for_body_def parseExplainString_def
    parseStatementExpressionList_def
  by (intro quiet; use k in simp)+

lemma quiet_handlers [quiet]:
  assumes k: "k \<le> n"
  shows "spec k anything never (parseInlineOnErrHandler R t)" "spec k anything never (parseSelectCase R t)"
    "spec k anything never (for_header R t)"
  unfolding parseInlineOnErrHandler_def parseSelectCase_def for_header_def
  by (intro quiet; use k in simp)+

lemma parseOnErrClause_head:
  assumes k: "k \<le> Suc n" and live: "\<And>y z. P y z \<Longrightarrow> y \<noteq> TOKEN_EOF"
  shows "spec k P E (parseOnErrClause R)"
  unfolding parseOnErrClause_def by (rule head_adv [OF live k]; (intro quiet | assumption)+)

lemma quiet_onerr [quiet]:
  assumes k: "k \<le> Suc n" shows "spec k anything never (optional_onerr R)"
  unfolding optional_onerr_def
proof (rule spec_sees)
  show "spec k (\<lambda>y z. True \<and> y = TOKEN_ONERR) never
      (if True then do { c \<leftarrow> parseOnErrClause R; ret (Some c) } else ret None)"
    unfolding if_True by (rule spec_bind_eaten [OF parseOnErrClause_head [OF k]]) (auto intro: quiet)
qed (simp_all add: quiet)

lemma stmt_heads:
  assumes k: "k \<le> Suc n" and live: "\<And>y z. P y z \<Longrightarrow> y \<noteq> TOKEN_EOF"
  shows "spec k P E (parseReturnStmt R)" "spec k P E parseContinueStmt" "spec k P E parseBreakStmt"
    "spec k P E (parseSendStmt R)" "spec k P E (parseSelectStmt R)"
    "spec k P E (parseForStmt R)" "spec k P E (parseDeferStmt R)" "spec k P E (parseGoStmt R)"
  unfolding parseReturnStmt_def parseContinueStmt_def parseBreakStmt_def parseSendStmt_def parseSelectStmt_def
    parseForStmt_def parseDeferStmt_def parseGoStmt_def
  by (rule head_adv [OF live k]; (intro quiet | assumption)+)+

lemma parseSwitch_head:
  assumes k: "k \<le> Suc n" and live: "\<And>y z. P y z \<Longrightarrow> y \<noteq> TOKEN_EOF"
  shows "spec k P E (parseSwitchOrTypeSwitchStmt R)"
proof -
  have "spec k anything never (case x of
      TypeCastExpr _ y (NamedType m name) \<Rightarrow> parseTypeSwitchBody R t y (Identifier m name)
    | _ \<Rightarrow> parseSwitchBody R t x)" if "k \<le> n" for k x t
    using that by (cases x) (auto intro: quiet split: TypeAnnotation.split)
  then show ?thesis
    unfolding parseSwitchOrTypeSwitchStmt_def by (intro head_adv [OF live k]) (intro quiet | assumption)+
qed

lemma parseStatementExpression_eats: "k \<le> Suc n \<Longrightarrow> eats k (parseStatementExpression R)"
  using parseExpression_eats [of k] unfolding parseStatementExpression_def eats_def
  by (auto intro: spec_with_inline_onerr)

lemma quiet_assignments [quiet]:
  assumes k: "k \<le> n"
  shows "spec k anything never (assignment R x)" "spec k anything never (walrus R x)"
proof -
  have clause: "spec k' anything never (parseOnErrClause R)" if "k' \<le> n" for k'
    unfolding parseOnErrClause_def using that by (intro quiet; simp)
  show "spec k anything never (assignment R x)"
    unfolding assignment_def by (intro quiet clause; use k in simp)
  show "spec k anything never (walrus R x)"
    unfolding walrus_def using k by (cases x) (auto intro!: quiet)
qed

lemma more_names_quiet: "spec k anything never (more_names is)"
  unfolding more_names_def
proof (rule quiet_ploop)
  fix s
  show "spec k anything fst (case s of None \<Rightarrow> ret (False, None) | Some is \<Rightarrow> do {
         b \<leftarrow> accept [TOKEN_COMMA];
         if \<not> b then ret (False, Some is) else do {
           b \<leftarrow> accept name_tokens;
           if \<not> b then do {
             report_here ''expected identifier after comma in multi-value assignment''; ret (False, None) }
           else do { t \<leftarrow> prev_tok; ret (True, Some (is @ [Identifier t (Lexeme t)])) } } })"
  proof (cases s)
    case None
    then show ?thesis by (simp add: spec_ret)
  next
    case (Some ns)
    then show ?thesis
      by (simp only: option.case, intro spec_accept)
        (simp_all add: spec_ret, rule spec_bind_quiet, auto intro: quiet)
  qed
qed

lemma parseMultiValue_head:
  assumes k: "k \<le> Suc n" and names: "\<And>y z. P y z \<Longrightarrow> name_like y"
  shows "spec k P E (parseMultiValueAssignmentStmt R)"
  unfolding parseMultiValueAssignmentStmt_def
proof (rule spec_accept, goal_cases)
  case (1 k')
  then show ?case unfolding not_True_eq_False if_False by (intro quiet more_names_quiet; use k in simp)
next
  case 2
  then show ?case by (rule spec_impossible) (use names in \<open>fastforce simp: name_like_def name_tokens_def\<close>)
qed

lemma parseExpressionOrAssignmentStmt_eats:
  assumes k: "k \<le> Suc n" shows "eats k (parseExpressionOrAssignmentStmt R)"
proof -
  let ?other = "do {
      x \<leftarrow> parseStatementExpression R;
      b \<leftarrow> accept [TOKEN_PLUS_PLUS, TOKEN_MINUS_MINUS];
      if b then do { t \<leftarrow> prev_tok; newlines; ret (IncDecStmt t x (Lexeme t)) }
      else do {
        b \<leftarrow> accept [TOKEN_ASSIGN, TOKEN_BIT_AND_ASSIGN];
        if b then assignment R x
        else do {
          b \<leftarrow> accept [TOKEN_WALRUS];
          if b then walrus R x
          else do { newlines; c \<leftarrow> optional_onerr R; newlines; ret (ExpressionStmt x c) } } } }"
  have other: "eats k ?other"
    by (rule eats_bind [OF parseStatementExpression_eats [OF k]])
      (rule spec_accept spec_if_True spec_if_False | intro quiet; use k in simp; fail
        | rule spec_quiet, intro quiet; use k in simp)+
  have "spec k P E (parseExpressionOrAssignmentStmt R)" if "spec k P E ?other" for P E
    unfolding parseExpressionOrAssignmentStmt_def checkMultiValueAssignment_def bind_assoc bind_left_identity
    by (rule spec_looks, rule spec_looks, rule spec_if)
      (rule parseMultiValue_head [OF k], fastforce, rule spec_weaken [OF that], auto)
  then show ?thesis using other unfolding eats_def by blast
qed

lemma parseIfStmt_head:
  assumes k: "k \<le> Suc n" and live: "\<And>y z. P y z \<Longrightarrow> y \<noteq> TOKEN_EOF"
  shows "spec k P E (parseIfStmt R)"
proof -
  have init: "spec k' anything never (if_init R)" if "k' \<le> n" for k'
    unfolding if_init_def
    by (intro quiet eats_spec(1) [OF parseExpressionOrAssignmentStmt_eats]) (use that in simp)
  have alternative: "spec k' anything never (do {
      b \<leftarrow> sees TOKEN_IF;
      if b then rIfStmt R else do { block \<leftarrow> rBlock R; ret (ElseStmt e (Some block)) } })"
    if k': "k' \<le> n" for k' e
  proof (rule spec_sees)
    show "spec k' (\<lambda>y z. True \<and> y = TOKEN_IF) never
        (if True then rIfStmt R else do { block \<leftarrow> rBlock R; ret (ElseStmt e (Some block)) })"
      by (rule spec_if_True, rule spec_weaken [OF rIfStmt k']) simp_all
  qed (simp, rule spec_if_False, use k' in \<open>intro quiet\<close>)
  show ?thesis
    unfolding parseIfStmt_def
    by (rule head_adv [OF live k]; (intro init alternative quiet | assumption)+)
qed

lemma parseStatement_eats:
  assumes k: "k \<le> Suc n" shows "eats k (parseStatement R)"
proof -
  let ?dispatch = "do {
      t \<leftarrow> peek_tok;
      if Type t = TOKEN_RETURN then parseReturnStmt R
      else if Type t = TOKEN_IF then parseIfStmt R
      else if Type t = TOKEN_SWITCH then parseSwitchOrTypeSwitchStmt R
      else if Type t = TOKEN_SELECT then parseSelectStmt R
      else if Type t = TOKEN_FOR then parseForStmt R
      else if Type t = TOKEN_DEFER then parseDeferStmt R
      else if Type t = TOKEN_GO then parseGoStmt R
      else if Type t = TOKEN_SEND then parseSendStmt R
      else if Type t = TOKEN_CONTINUE then parseContinueStmt
      else if Type t = TOKEN_BREAK then parseBreakStmt
      else if Type t = TOKEN_TYPE then do {
        d \<leftarrow> parseTypeDecl;
        ret (case d of None \<Rightarrow> NilStmt | Some d \<Rightarrow> TypeDeclStmt d) }
      else parseExpressionOrAssignmentStmt R }"
  have dispatch: "spec k P E ?dispatch"
    if k: "k \<le> Suc n" and last: "spec k P E (parseExpressionOrAssignmentStmt R)" for k P E
  proof -
    note heads = stmt_heads [OF k] parseIfStmt_head [OF k] parseSwitch_head [OF k]
      spec_bind_eaten [OF spec_pair [OF parseTypeDecl_eats]] spec_weaken [OF last]
    show ?thesis
      by (rule spec_look [OF step_peek_tok]) (rule spec_if | rule heads | rule quiet_ret | simp; fail | auto; fail)+
  qed
  have main: "spec k P E (parseStatement R)" if last: "spec k P E (parseExpressionOrAssignmentStmt R)" for P E
    unfolding parseStatement_def Let_def
  proof (rule spec_newlines)
    fix k' assume "Suc k' = k"
    with k have "k' \<le> Suc n" by simp
    then show "spec k' anything never ?dispatch"
      by (intro dispatch eats_spec(1) [OF parseExpressionOrAssignmentStmt_eats])
  next
    show "spec k (\<lambda>y z. P y z \<and> y \<noteq> TOKEN_NEWLINE) E ?dispatch"
      by (rule spec_weaken [OF dispatch [OF k last]]) auto
  qed
  show ?thesis
    using parseExpressionOrAssignmentStmt_eats [OF k] main unfolding eats_def by blast
qed

end

end
