(* ===== verification/ParseProps.thy ===== *)
theory ParseProps
  imports StmtTotal NumberProps
begin

text \<open>
  The contract of \<open>ParserTotal\<close> for declarations and programs, the knot, and what follows for
  \<^verbatim>\<open>Parse\<close>: it returns on every list of tokens.
\<close>

section \<open>Declarations\<close>

lemma quiet_skill [quiet]: "spec k anything never (indented_loop skill_field s)"
proof (rule quiet_indented_loop)
  fix s show "eats k (skill_field s)"
    unfolding skill_field_def by (rule eats_adv_bind) (intro quiet)
qed

lemma quiet_variant_fields [quiet]: "spec k anything never (indented_loop variant_field fs)"
proof (rule quiet_indented_loop)
  fix fs show "eats k (variant_field fs)"
    unfolding variant_field_def by (rule eats_bind [OF parseIdentifier_eats]) (intro quiet)
qed

lemma parseImportSpec_eats: "eats k (parseImportSpec t)"
proof -
  let ?path = "do {
      path \<leftarrow> adv;
      if Type path \<noteq> TOKEN_STRING then do { report path ''expected string literal for import path''; ret None }
      else do {
        b \<leftarrow> accept [TOKEN_AS];
        other \<leftarrow> (if b then do { i \<leftarrow> parseIdentifier; ret (Some i) } else ret None);
        ret (Some (ImportDecl t (path_literal path) other)) } }"
  let ?other = "do {
      other \<leftarrow> parseIdentifier; path \<leftarrow> adv; ret (Some (ImportDecl t (path_literal path) (Some other))) }"
  have path: "eats k ?path" by (rule eats_adv_bind) (intro quiet)
  have named: "eats k ?other" by (rule eats_bind [OF parseIdentifier_eats]) (intro quiet)
  have "spec k P E (parseImportSpec t)"
    if "spec k P E ?path" "spec k P E ?other" for P E
    unfolding parseImportSpec_def
    by (rule spec_look [OF step_peek_tok], rule spec_bind_if)
      (simp_all only: bind_assoc bind_left_identity if_False,
        rule spec_look [OF step_peek_next], rule spec_if, auto intro: spec_weaken [OF that(1)] spec_weaken [OF that(2)])
  then show ?thesis using path named unfolding eats_def by blast
qed

text \<open>The gap between grouped imports eats or leaves the next token.\<close>

definition gap_action :: "unit pm \<Rightarrow> bool" where
  "gap_action m \<longleftrightarrow> (\<forall>p. \<exists>p'. run_state m (p, False) = ((), (p', False)) \<and> frame p p' \<and>
     (left p' < left p \<or> same_look p p'))"

lemma spec_gap:
  assumes "gap_action m" "\<And>k'. Suc k' = k \<Longrightarrow> spec k' anything never (f ())" "spec k P E (f ())"
  shows "spec k P E (State_Monad.bind m f)"
proof (rule specI)
  fix p assume a: "left p < k" "P (next_type p) (second_type p)"
  obtain q where q: "run_state m (p, False) = ((), (q, False))" "frame p q" "left q < left p \<or> same_look p q"
    using assms(1) unfolding gap_action_def by blast
  obtain y r where r: "run_state (f ()) (q, False) = (y, (r, False))" "frame q r" "E y \<Longrightarrow> left r < left p"
  proof (cases "left q < left p")
    case True
    obtain k' where k: "Suc k' = k" using a(1) by (cases k) auto
    then have "left q < k'" using True a(1) by linarith
    then obtain y r where "run_state (f ()) (q, False) = (y, (r, False))" "frame q r"
      using assms(2) [OF k] unfolding spec_def by blast
    then show ?thesis using that True frame_left le_less_trans by blast
  next
    case False
    then have "same_look p q" using q(3) by blast
    then have "left q < k" "P (next_type q) (second_type q)"
      using a frame_left [OF q(2)] by (auto simp: same_look_def)
    then obtain y r where "run_state (f ()) (q, False) = (y, (r, False))" "frame q r" "E y \<Longrightarrow> left r < left q"
      using assms(3) unfolding spec_def by blast
    then show ?thesis using that frame_left [OF q(2)] order_less_le_trans by blast
  qed
  then show "\<exists>x p'. run_state (State_Monad.bind m f) (p, False) = (x, (p', False)) \<and> frame p p' \<and>
      (E x \<longrightarrow> left p' < left p)"
    using frame_trans [OF q(2) r(2)] by (intro exI [of _ y] exI [of _ r]) (simp add: q(1))
qed

lemma ploop_gap:
  assumes "\<And>k u. step k anything fst (\<lambda>_. anything) (body u)"
  shows "left p < m \<Longrightarrow> \<exists>p'. run_state (ploop_n m body ()) (p, False) = ((), (p', False)) \<and> frame p p' \<and>
    (left p' < left p \<or> same_look p p')"
proof (induction m arbitrary: p)
  case (Suc m)
  obtain r q where r: "run_state (body ()) (p, False) = (r, (q, False))" "frame p q"
    "if fst r then left q < left p else same_look p q"
    using assms [of "Suc (left p)" "()"] unfolding step_def by (meson lessI)
  show ?case
  proof (cases "fst r")
    case True
    then have "left q < m" using Suc.prems r(3) by simp
    then obtain q' where q': "run_state (ploop_n m body ()) (q, False) = ((), (q', False))" "frame q q'"
      using Suc.IH by blast
    have "left q' < left p" using True r(3) frame_left [OF q'(2)] by simp
    then show ?thesis using True r(1) q'(1) frame_trans [OF r(2) q'(2)] by simp
  next
    case False
    then show ?thesis using r by simp
  qed
qed simp

lemma gap_skip: "gap_action skipGroupedImportWhitespace"
  unfolding gap_action_def
proof
  fix p
  define body where "body = (\<lambda>_ :: unit. do {
      t \<leftarrow> peek_tok;
      if Type t \<in> {TOKEN_NEWLINE, TOKEN_INDENT, TOKEN_DEDENT, TOKEN_SEMICOLON}
      then do { _ \<leftarrow> adv; ret (True, ()) } else ret (False, ()) })"
  have "step k anything fst (\<lambda>_. anything) (body u)" for k u
    unfolding step_def body_def
  proof (intro allI impI)
    fix p
    let ?q = "snd (peekToken p)"
    have q: "frame p ?q" "same_look p ?q" by (auto intro: same_look_view)
    have "next_type p \<noteq> TOKEN_EOF \<Longrightarrow> left (snd (p_advance ?q)) < left p"
      using left_p_advance [of ?q] frame_left [OF q(1)] by simp
    then show "\<exists>x p'. run_state (do {
      t \<leftarrow> peek_tok;
      if Type t \<in> {TOKEN_NEWLINE, TOKEN_INDENT, TOKEN_DEDENT, TOKEN_SEMICOLON}
      then do { _ \<leftarrow> adv; ret (True, ()) } else ret (False, ()) }) (p, False) = (x, p', False) \<and> frame p p' \<and>
        (if fst x then left p' < left p else same_look p p' \<and> True)"
      using q frame_trans [OF q(1) frame_p_advance] by (auto simp: peek_tok_def adv_def)
  qed
  from ploop_gap [OF this, of p "Suc (left p)"]
  show "\<exists>p'. run_state skipGroupedImportWhitespace (p, False) = ((), (p', False)) \<and> frame p p' \<and>
      (left p' < left p \<or> same_look p p')"
    by (simp add: skipGroupedImportWhitespace_def ploop_def body_def del: ploop_n.simps)
qed

lemma quiet_skip [quiet]: "spec k anything never skipGroupedImportWhitespace"
  using gap_skip unfolding gap_action_def spec_def by blast

lemma parseGroupedImports_eats: "eats k parseGroupedImports"
proof -
  have "eats k (grouped_import t ds)" for k t ds
    unfolding grouped_import_def by (rule eats_bind [OF parseImportSpec_eats]) (intro quiet)
  then have "spec k anything never (until_close TOKEN_RPAREN skipGroupedImportWhitespace (grouped_import t) ds)" for k t ds
    by (intro quiet_until_close spec_gap [OF gap_skip]) auto
  then show ?thesis
    unfolding parseGroupedImports_def by (intro eats_adv_bind spec_bind_quiet quiet)
qed

lemma parseImportDecl_eats: "eats k parseImportDecl"
  unfolding parseImportDecl_def
  by (intro eats_adv_bind spec_bind_quiet quiet_newlines eats_spec(1) [OF parseImportSpec_eats])

lemma quiet_parse_imports [quiet]: "spec k anything never parse_imports"
  unfolding parse_imports_def
proof (rule quiet_ploop)
  fix ds
  let ?item = "\<lambda>n. if Type n = TOKEN_LPAREN then parseGroupedImports
      else do { d \<leftarrow> parseImportDecl; ret [case d of None \<Rightarrow> NilImportDecl | Some d \<Rightarrow> d] }"
  have item: "spec k (\<lambda>y z. y = TOKEN_IMPORT) always (?item n)" for n
    by (auto intro!: spec_pair eats_bind parseGroupedImports_eats parseImportDecl_eats quiet)
  show "spec k anything fst (do {
      t \<leftarrow> peek_tok;
      if Type t \<noteq> TOKEN_IMPORT then ret (False, ds)
      else do {
        n \<leftarrow> peek_next; new \<leftarrow> ?item n; newlines; ret (True, ds @ new) } })"
    by (rule spec_look [OF step_peek_tok], rule spec_if, intro spec_ret, simp,
        rule spec_look [OF step_peek_next], rule spec_bind_eaten, rule spec_weaken [OF item], auto intro: quiet)
qed

context parsers_ok
begin

lemma quiet_decl_loops [quiet]:
  assumes k: "k \<le> n"
  shows "spec k anything never (indented_loop (method_signature R) ms)"
    "spec k anything never (indented_loop (const_item R) cs)"
    "spec k anything never (indented_loop (enum_case R) es)"
    "spec k anything never (parseConstSpec R)"
proof -
  have "eats k (method_signature R ms)" for ms
    unfolding method_signature_def by (rule eats_bind [OF parseIdentifier_eats]) (intro quiet; use k in simp)
  then show "spec k anything never (indented_loop (method_signature R) ms)" by (rule quiet_indented_loop)
  have "eats k (const_item R cs)" for cs
    unfolding const_item_def parseConstSpec_def bind_assoc
    by (rule eats_bind [OF parseIdentifier_eats]) (intro quiet; use k in simp)
  then show "spec k anything never (indented_loop (const_item R) cs)" by (rule quiet_indented_loop)
  have "eats k (enum_case R es)" for es
    unfolding enum_case_def by (rule eats_bind [OF parseIdentifier_eats]) (intro quiet; use k in simp)
  then show "spec k anything never (indented_loop (enum_case R) es)" by (rule quiet_indented_loop)
  show "spec k anything never (parseConstSpec R)"
    unfolding parseConstSpec_def by (intro quiet; use k in simp)
qed

lemma decls_eat:
  assumes k: "k \<le> n"
  shows "eats k (parseInterfaceDecl R)" "eats k (parseFunctionDecl R)" "eats k (parseVarDeclaration R)"
    "eats k (parseConstDecl R)" "eats k (parseEnumDecl R)" "eats k parsePetioleDecl" "eats k parseSkillDecl"
proof -
  have name: "spec k anything never function_name" for k
    unfolding function_name_def isGoStyleReceiver_def by (intro quiet)
  show "eats k (parseInterfaceDecl R)" "eats k (parseFunctionDecl R)" "eats k (parseVarDeclaration R)"
    "eats k (parseConstDecl R)" "eats k (parseEnumDecl R)" "eats k parsePetioleDecl" "eats k parseSkillDecl"
    unfolding parseInterfaceDecl_def parseFunctionDecl_def parseVarDeclaration_def parseConstDecl_def
      parseEnumDecl_def parsePetioleDecl_def parseSkillDecl_def
    by (rule eats_adv_bind; intro name quiet; use k in simp)+
qed

lemma parseDeclaration_eats:
  assumes k: "k \<le> n" shows "eats k (parseDeclaration R)"
proof -
  let ?other = "do {
      e \<leftarrow> at_end;
      only_if (\<not> e) (do {
        t \<leftarrow> peek_tok;
        report t (''unexpected token '' @ tokenTypeString (Type t) @ '', expected declaration'');
        _ \<leftarrow> adv;
        ret () });
      ret None }"
  have known: "eats k' (do { d \<leftarrow> parseTypeDecl; ret (map_option TypeDeclaration d) })"
    "eats k' (do { d \<leftarrow> parseInterfaceDecl R; ret (Some d) })" "eats k' (do { d \<leftarrow> parseFunctionDecl R; ret (Some d) })"
    "eats k' (do { d \<leftarrow> parseVarDeclaration R; ret (Some d) })" "eats k' (parseConstDecl R)" "eats k' (parseEnumDecl R)"
    if "k' \<le> n" for k'
    by (intro eats_bind parseTypeDecl_eats decls_eat quiet_ret that)+
  have other: "eats k' ?other" for k'
  proof (rule eatsI)
    show "spec k' anything never ?other" by (intro quiet)
    show "spec k' live always ?other"
      by (rule spec_look [OF step_at_end], rule spec_bind_if, unfold bind_assoc bind_left_identity,
          rule spec_looks, rule spec_looks, rule spec_adv, simp, intro quiet, rule spec_impossible, simp)
  qed
  have body: "eats k' (decl_body R tt)" if "k' \<le> n" for k' tt
    unfolding decl_body_def by (intro eats_if known other that)
  have tail: "eats k' (do { t \<leftarrow> peek_tok; d \<leftarrow> decl_body R (Type t); ret (g t d) })" if "k' \<le> n"
    for k' and g :: "token \<Rightarrow> Declaration option \<Rightarrow> unit + Declaration option"
    using eats_bind [OF body [OF that] quiet_ret] unfolding eats_def
    by (auto intro!: spec_look [OF step_peek_tok] intro: spec_weaken)
  show ?thesis
  proof (rule eatsI)
    show "spec k anything never (parseDeclaration R)"
      unfolding parseDeclaration_def by (intro quiet eats_spec(1) [OF body] k)
    show "spec k live always (parseDeclaration R)"
      unfolding parseDeclaration_def
    proof (rule spec_newlines)
      fix k' assume "Suc k' = k"
      then show "spec k' anything never (do {
          dirs \<leftarrow> drain; t \<leftarrow> peek_tok; d \<leftarrow> decl_body R (Type t);
          ret (case d of None \<Rightarrow> Inr None
               | Some d \<Rightarrow> if dirs \<noteq> [] then map_sum id Some (attach dirs d) else Inr (Some d)) })"
        using k by (intro quiet eats_spec(1) [OF body]) simp
    next
      show "spec k (\<lambda>y z. y \<noteq> TOKEN_EOF \<and> y \<noteq> TOKEN_NEWLINE) always (do {
          dirs \<leftarrow> drain; t \<leftarrow> peek_tok; d \<leftarrow> decl_body R (Type t);
          ret (case d of None \<Rightarrow> Inr None
               | Some d \<Rightarrow> if dirs \<noteq> [] then map_sum id Some (attach dirs d) else Inr (Some d)) })"
        by (rule spec_look [OF step_drain], rule spec_pair [OF tail [OF k]]) simp
    qed
  qed
qed

lemma parse_declarations_quiet:
  assumes k: "k \<le> n" shows "spec k anything never (parse_declarations R)"
  unfolding parse_declarations_def
proof (rule quiet_ploop)
  fix s :: "unit + Declaration list"
  show "spec k anything fst (case s of Inl _ \<Rightarrow> ret (False, s) | Inr ds \<Rightarrow> do {
         e \<leftarrow> at_end;
         if e then ret (False, s)
         else do {
           r \<leftarrow> parseDeclaration R;
           ret (case r of Inl _ \<Rightarrow> (False, Inl ())
                | Inr None \<Rightarrow> (True, s)
                | Inr (Some d) \<Rightarrow> (True, Inr (ds @ [d]))) } })"
  proof (cases s)
    case (Inl u)
    then show ?thesis by (simp add: spec_ret)
  next
    case (Inr ds)
    show ?thesis
      unfolding Inr sum.case
      by (rule spec_look [OF step_at_end], rule spec_if, intro spec_ret, simp,
          rule spec_bind_eaten [OF spec_pair [OF parseDeclaration_eats [OF k]]], auto intro: quiet)
  qed
qed

lemma Parse_with_quiet: "k \<le> n \<Longrightarrow> spec k anything never (Parse_with R)"
  unfolding Parse_with_def
  by (intro quiet parse_declarations_quiet eats_spec(1) [OF decls_eat(6)] eats_spec(1) [OF decls_eat(7)])

end

section \<open>The knot\<close>

lemma parsers_ok_step: "parsers_ok (parsers_at n) n \<Longrightarrow> parsers_ok (parsers_at (Suc n)) (Suc n)"
  by (simp add: Let_def parsers_ok.intro eats_spec(1) parsers_ok.parseExpression_eats parsers_ok.parseUnaryExpr_eats
      parsers_ok.parseBlock_quiet parsers_ok.parseStatement_eats parsers_ok.parseIfExpression_head
      parsers_ok.parseIfStmt_head)

interpretation tied: parsers_ok "parsers_at n" n for n
proof (induction n)
  case 0
  show ?case by unfold_locales (simp_all add: eats_def)
qed (rule parsers_ok_step)

section \<open>Parsing a program\<close>

text \<open>The last turn of a loop that was never stuck said not to go on.\<close>

lemma ploop_n_last:
  "run_state (ploop_n m body s) (p, b) = (x, (p', False)) \<Longrightarrow>
     \<exists>s1 q b1. run_state (body s1) (q, b1) = ((False, x), (p', False))"
proof (induction m arbitrary: s p b)
  case (Suc m)
  obtain r q c where r: "run_state (body s) (p, b) = (r, (q, c))" by (metis prod_cases3)
  show ?case
  proof (cases "fst r")
    case True
    then have "run_state (ploop_n m body (snd r)) (q, c) = (x, (p', False))" using Suc.prems r by simp
    then show ?thesis by (rule Suc.IH)
  next
    case False
    then have "run_state (body s) (p, b) = ((False, x), (p', False))" using Suc.prems r by (cases r) simp
    then show ?thesis by blast
  qed
qed (simp add: stuck_def)

lemma parse_declarations_end:
  assumes "run_state (parse_declarations R) (p, b) = (r, (p', False))"
  shows "r = Inl () \<or> next_type p' = TOKEN_EOF"
proof -
  define body where "body = (\<lambda>s :: unit + Declaration list. case s of Inl _ \<Rightarrow> ret (False, s) | Inr ds \<Rightarrow> do {
      e \<leftarrow> at_end;
      if e then ret (False, s)
      else do {
        r \<leftarrow> parseDeclaration R;
        ret (case r of Inl _ \<Rightarrow> (False, Inl ())
             | Inr None \<Rightarrow> (True, s)
             | Inr (Some d) \<Rightarrow> (True, Inr (ds @ [d]))) } })"
  have "run_state (ploop_n (Suc (left p)) body (Inr [])) (p, b) = (r, (p', False))"
    using assms by (simp add: parse_declarations_def ploop_def body_def del: ploop_n.simps)
  from ploop_n_last [OF this] obtain s q b where last: "run_state (body s) (q, b) = ((False, r), (p', False))"
    by blast
  show ?thesis
  proof (cases s)
    case (Inl u)
    then show ?thesis using last by (auto simp: body_def)
  next
    case (Inr ds)
    then show ?thesis
      using last by (auto simp: body_def at_end_def split: prod.splits sum.splits option.splits if_splits)
  qed
qed

lemma run_bindE:
  assumes "run_state (State_Monad.bind m f) s = (x, s')"
  obtains y s1 where "run_state m s = (y, s1)" "run_state (f y) s1 = (x, s')"
  using assms by (cases "run_state m s") auto

lemma Parse_with_end:
  assumes "run_state (Parse_with R) (p, b) = (r, (p', False))"
  shows "r = Inl () \<or> next_type p' = TOKEN_EOF"
  using assms unfolding Parse_with_def
  by (elim run_bindE) (auto dest!: parse_declarations_end split: sum.splits)

lemma Parse_total:
  "\<exists>r p'. Parse p = (r, (p', False)) \<and> frame p p' \<and> (r = Inl () \<or> next_type p' = TOKEN_EOF)"
proof -
  let ?R = "parsers_at (left p + 1)"
  obtain r p' where r: "run_state (Parse_with ?R) (p, False) = (r, (p', False))" "frame p p'"
    using tied.Parse_with_quiet [of "left p + 1" "left p + 1"] unfolding spec_def by force
  have "r = Inl () \<or> next_type p' = TOKEN_EOF" using r(1) by (rule Parse_with_end)
  then show ?thesis using r by (auto simp: Parse_def)
qed

section \<open>Properties\<close>

text \<open>Claim C2: \<^verbatim>\<open>Parse\<close> returns on every list of tokens, no matter whether it is a program: no routine
  calls another at the depth the bound forbids, the errors found before are kept and new ones come
  after them, \<^verbatim>\<open>allowInlineOnErr\<close> is as it was, and unless a nil pointer was dereferenced every token
  has been consumed.\<close>

theorem parse_returns:
  "\<exists>r p' es. Parse p = (r, (p', False)) \<and> perrors p' = perrors p @ es \<and>
     allowInlineOnErr p' = allowInlineOnErr p \<and> (r = Inl () \<or> next_type p' = TOKEN_EOF)"
  using Parse_total [of p] by (auto simp: frame_def)

text \<open>Claim C10: an integer literal has its positional value: where the next token is an integer whose text
  is a base prefix and digits of that base, without underscores, \<^verbatim>\<open>parseIntegerLiteral\<close> takes that token only
  and returns the value of the digits. If the value does not fit in an \<^verbatim>\<open>int64\<close> the literal is 0 and exactly
  one error, a range error at the token, is added.\<close>

theorem integer_literal_value:
  assumes "view p = t # r" "Type t = TOKEN_INTEGER" "Lexeme t = mark @ ds" "is_numeral mark base ds"
  shows "let v = numeral_value base ds; (e, (q, c)) = run_state parseIntegerLiteral (p, b) in
     e = IntegerLiteral t (if v < 2 ^ 63 then v else 0) \<and> view q = r \<and> c = b \<and>
     perrors q = perrors p @ (if v < 2 ^ 63 then [] else
       [Inr \<lparr>pFile = File t, pLine = Line t, pColumn = Column t,
          pMessage = ''could not parse integer: '' @ numErrorString ''ParseInt'' (Lexeme t) ErrRange\<rparr>])"
proof -
  have "next_type p \<noteq> TOKEN_EOF" using assms(1,2) by (simp add: next_type_def)
  then have "fst (p_advance p) = t" "view (snd (p_advance p)) = r"
    using p_advance_view [of p] assms(1) by simp_all
  then have "run_state adv (p, b) = (t, (snd (p_advance p), b))"
    by (simp add: adv_def lift_def case_prod_beta)
  then show ?thesis
    using \<open>view (snd (p_advance p)) = r\<close> ParseInt_numeral [OF assms(4)] assms(3)
    by (simp add: parseIntegerLiteral_def report_def lift_def p_error_def view_def ahead_def Let_def)
qed

theorem integer_literal_value_witness:
  "\<exists>q. run_state parseIntegerLiteral (NewFromTokens [zero_token\<lparr>Type := TOKEN_INTEGER, Lexeme := ''0xFF''\<rparr>, eof_token], False) =
     (IntegerLiteral (zero_token\<lparr>Type := TOKEN_INTEGER, Lexeme := ''0xFF''\<rparr>) 255, (q, False)) \<and> perrors q = []"
proof -
  let ?t = "zero_token\<lparr>Type := TOKEN_INTEGER, Lexeme := ''0xFF''\<rparr>" and ?p = "NewFromTokens [zero_token\<lparr>Type := TOKEN_INTEGER, Lexeme := ''0xFF''\<rparr>, eof_token]"
  have "view ?p = [?t, eof_token]"
    by (simp add: NewFromTokens_def view_def ahead_def isIgnored_def eof_token_def)
  moreover have "is_numeral ''0x'' 16 ''FF''" "numeral_value 16 ''FF'' = 255"
    by (simp_all add: is_numeral_def base_prefixes_def digit_value_def numeral_value_def)
  ultimately show ?thesis
    using integer_literal_value [of ?p ?t "[eof_token]" "''0x''" "''FF''" 16 False]
    by (auto simp: NewFromTokens_def split: prod.splits)
qed

text \<open>What \<^verbatim>\<open>parseInterfaceDecl\<close> reads before it decides between a declaration and a nil pointer.\<close>

definition interface_head :: "bool pm" where
  "interface_head = do { _ \<leftarrow> adv; newlines; _ \<leftarrow> parseIdentifier; newlines; accept [TOKEN_INDENT] }"

lemma parseInterfaceDecl_nil:
  "fst (run_state (parseInterfaceDecl R) s) = NilInterfaceDecl \<longleftrightarrow> \<not> fst (run_state interface_head s)"
  unfolding parseInterfaceDecl_def interface_head_def by (simp split: prod.split)

lemma decl_body_nil:
  "fst (run_state (decl_body R tt) s) = Some NilInterfaceDecl \<longleftrightarrow>
     tt = TOKEN_INTERFACE \<and> \<not> fst (run_state interface_head s)"
proof -
  have f: "fst (run_state (parseFunctionDecl R) s) \<noteq> NilInterfaceDecl" for s
    unfolding parseFunctionDecl_def by (simp split: prod.split)
  have v: "fst (run_state (parseVarDeclaration R) s) \<noteq> NilInterfaceDecl" for s
    unfolding parseVarDeclaration_def by (simp split: prod.split)
  have c: "fst (run_state (parseConstDecl R) s) \<noteq> Some NilInterfaceDecl" for s
    unfolding parseConstDecl_def by (simp split: prod.split)
  have e: "fst (run_state (parseEnumDecl R) s) \<noteq> Some NilInterfaceDecl" for s
    unfolding parseEnumDecl_def by (simp split: prod.split)
  show ?thesis
  proof (cases "tt = TOKEN_INTERFACE")
    case True
    then show ?thesis
      using parseInterfaceDecl_nil [of R s] by (simp add: decl_body_def case_prod_beta)
  next
    case False
    then show ?thesis
      using f [of s] v [of s] c [of s] e [of s]
      by (auto simp: decl_body_def split: prod.splits option.splits)
  qed
qed

text \<open>Claim C38: a directive in front of an interface that has no indented block makes the parser
  dereference a nil pointer, and nothing else does: \<^verbatim>\<open>parseDeclaration\<close> panics exactly when directives
  are pending, the declaration is an interface, and no block follows its name.\<close>

theorem declaration_panics:
  "fst (run_state (parseDeclaration R) (p, b)) = Inl () \<longleftrightarrow>
     (let q = skipNewlines p
      in pendingDirectives q \<noteq> [] \<and> next_type q = TOKEN_INTERFACE \<and>
         \<not> fst (run_state interface_head (snd (peekToken (q\<lparr>pendingDirectives := []\<rparr>)), b)))"
proof -
  let ?q = "skipNewlines p"
  let ?q1 = "?q\<lparr>pendingDirectives := []\<rparr>"
  have t: "next_type ?q1 = next_type ?q" by (simp add: next_type_def view_def ahead_def)
  let ?d = "fst (run_state (decl_body R (next_type ?q)) (snd (peekToken ?q1), b))"
  have r: "fst (run_state (parseDeclaration R) (p, b)) =
      (case ?d of None \<Rightarrow> Inr None
       | Some d \<Rightarrow> if pendingDirectives ?q \<noteq> [] then map_sum id Some (attach (pendingDirectives ?q) d) else Inr (Some d))"
    by (simp add: parseDeclaration_def newlines_def drain_def drainDirectives_def peek_tok_def t case_prod_beta
        cong: option.case_cong if_cong)
  have panic: "attach dirs d = Inl () \<longleftrightarrow> d = NilInterfaceDecl" for dirs d by (cases d) simp_all
  show ?thesis
    unfolding r Let_def using decl_body_nil [of R "next_type ?q" "(snd (peekToken ?q1), b)"] panic
    by (auto split: option.splits sum.splits simp: map_sum_def)
qed

end
