(* ===== verification/GenMonad.thy ===== *)
theory GenMonad
  imports LowerChain Quoting "HOL-Library.State_Monad" "HOL-Library.AList"
begin

text \<open>
  The methods of \<^verbatim>\<open>*Generator\<close> that render expressions and statements, as actions of a state monad over
  the generator. Where the code dereferences a nil pointer or panics, the action crashes: it sets the
  flag of the generator and goes on with a value without meaning.
\<close>

type_synonym 'a gen = "(generator, 'a) state"

abbreviation give :: "'a \<Rightarrow> 'a gen" where "give \<equiv> State_Monad.return"

definition asks :: "(generator \<Rightarrow> 'a) \<Rightarrow> 'a gen" where "asks f = State (\<lambda>g. (f g, g))"
definition update :: "(generator \<Rightarrow> generator) \<Rightarrow> unit gen" where "update f = State (\<lambda>g. ((), f g))"
definition via :: "(generator \<Rightarrow> 'a \<times> generator) \<Rightarrow> 'a gen" where "via f = State f"
definition crash :: "'a \<Rightarrow> 'a gen" where "crash d = State (\<lambda>g. (d, g\<lparr>panicked := True\<rparr>))"

definition put_line :: "string \<Rightarrow> unit gen" where "put_line s = update (writeLine s)"
definition put_text :: "string \<Rightarrow> unit gen" where "put_text s = update (gen_write s)"
definition use_import :: "string \<Rightarrow> unit gen" where "use_import p = update (addImport p)"
definition fresh :: "string \<Rightarrow> string gen" where "fresh p = via (uniqueId p)"

text \<open>\<^verbatim>\<open>g.indent++ ... g.indent--\<close>\<close>

definition indented :: "unit gen \<Rightarrow> unit gen" where
  "indented m = do {
     update (\<lambda>g. g\<lparr>indent := indent g + 1\<rparr>);
     m;
     update (\<lambda>g. g\<lparr>indent := indent g - 1\<rparr>) }"

text \<open>A loop over a list, with the results in order.\<close>

fun each :: "('a \<Rightarrow> 'b gen) \<Rightarrow> 'a list \<Rightarrow> 'b list gen" where
  "each f [] = give []"
| "each f (x # xs) = do { y \<leftarrow> f x; ys \<leftarrow> each f xs; give (y # ys) }"

fun each_do :: "('a \<Rightarrow> unit gen) \<Rightarrow> 'a list \<Rightarrow> unit gen" where
  "each_do f [] = give ()"
| "each_do f (x # xs) = do { f x; each_do f xs }"

definition rendered :: "renderer \<Rightarrow> Expression \<Rightarrow> string gen" where
  "rendered R e = via (exprToString R e)"

text \<open>A child generator (\<^verbatim>\<open>childGenerator\<close>): its output is the result. It shares the map of automatic
  imports with its parent.\<close>

definition in_child :: "int \<Rightarrow> (generator \<Rightarrow> generator) \<Rightarrow> unit gen \<Rightarrow> string gen" where
  "in_child extraIndent prepare m = State (\<lambda>g.
     (let c = snd (run_state m (prepare (childGenerator extraIndent g)))
      in (genOutput c, g\<lparr>autoImports := autoImports c, panicked := panicked c\<rparr>)))"

text \<open>What the analysis knows of the type of an expression: a nil type is a type that is recorded.\<close>

definition typeOf :: "Expression \<Rightarrow> generator \<Rightarrow> TypeInfo option option" where
  "typeOf e g = (case exprTypes g of None \<Rightarrow> None | Some m \<Rightarrow> map_of m e)"

text \<open>The Go type of a node, as \<^verbatim>\<open>%T\<close> prints it.\<close>

definition goTypeName :: "Expression \<Rightarrow> string" where
  "goTypeName e =
     (case e of
        NilExpr \<Rightarrow> ''<nil>'' | Ident _ \<Rightarrow> ''*ast.Identifier'' | IntegerLiteral _ _ \<Rightarrow> ''*ast.IntegerLiteral''
      | FloatLiteral _ _ \<Rightarrow> ''*ast.FloatLiteral'' | StringExpr _ _ _ _ _ \<Rightarrow> ''*ast.StringLiteral''
      | BooleanLiteral _ _ \<Rightarrow> ''*ast.BooleanLiteral'' | BinaryExpr _ _ _ _ \<Rightarrow> ''*ast.BinaryExpr''
      | IsExpr _ _ _ _ \<Rightarrow> ''*ast.IsExpr'' | UnaryExpr _ _ _ \<Rightarrow> ''*ast.UnaryExpr'' | PipeExpr _ _ _ _ \<Rightarrow> ''*ast.PipeExpr''
      | NamedArgumentExpr _ _ _ \<Rightarrow> ''*ast.NamedArgument'' | CallExpr _ _ _ _ _ \<Rightarrow> ''*ast.CallExpr''
      | MethodCallExpr _ _ _ _ _ _ \<Rightarrow> ''*ast.MethodCallExpr'' | FieldAccessExpr _ _ _ \<Rightarrow> ''*ast.FieldAccessExpr''
      | IndexExpr _ _ _ \<Rightarrow> ''*ast.IndexExpr'' | SliceExpr _ _ _ _ \<Rightarrow> ''*ast.SliceExpr''
      | StructLiteralExpr _ _ _ _ \<Rightarrow> ''*ast.StructLiteralExpr'' | ListLiteralExpr _ _ _ _ \<Rightarrow> ''*ast.ListLiteralExpr''
      | MapLiteralExpr _ _ _ _ _ \<Rightarrow> ''*ast.MapLiteralExpr''
      | UntypedCompositeLiteral _ _ _ _ _ \<Rightarrow> ''*ast.UntypedCompositeLiteral'' | ReceiveExpr _ _ \<Rightarrow> ''*ast.ReceiveExpr''
      | TypeCastExpr _ _ _ \<Rightarrow> ''*ast.TypeCastExpr'' | TypeAssertionExpr _ _ _ \<Rightarrow> ''*ast.TypeAssertionExpr''
      | EmptyExpr _ _ \<Rightarrow> ''*ast.EmptyExpr'' | DiscardExpr _ \<Rightarrow> ''*ast.DiscardExpr'' | ErrorExpr _ _ \<Rightarrow> ''*ast.ErrorExpr''
      | ReturnExpr _ _ \<Rightarrow> ''*ast.ReturnExpr'' | OnErrExpr _ _ _ \<Rightarrow> ''*ast.OnErrExpr'' | MakeExpr _ _ _ \<Rightarrow> ''*ast.MakeExpr''
      | CloseExpr _ _ \<Rightarrow> ''*ast.CloseExpr'' | PanicExpr _ _ \<Rightarrow> ''*ast.PanicExpr'' | RecoverExpr _ \<Rightarrow> ''*ast.RecoverExpr''
      | FunctionLiteral _ _ _ _ \<Rightarrow> ''*ast.FunctionLiteral'' | ArrowLambda _ _ _ _ \<Rightarrow> ''*ast.ArrowLambda''
      | AddressOfExpr _ _ \<Rightarrow> ''*ast.AddressOfExpr'' | DerefExpr _ _ \<Rightarrow> ''*ast.DerefExpr''
      | PipedSwitchExpr _ _ _ \<Rightarrow> ''*ast.PipedSwitchExpr'' | BlockExpr _ _ \<Rightarrow> ''*ast.BlockExpr''
      | IfExpression _ _ _ _ \<Rightarrow> ''*ast.IfExpression'')"

end
