(* ===== verification/GoExpr.thy ===== *)
theory GoExpr
  imports GenMonad
begin

text \<open>
  \<^verbatim>\<open>internal/codegen/codegen_expr.go\<close>: expressions as Go text. A call of \<^verbatim>\<open>exprToString\<close>, of \<^verbatim>\<open>generateBlock\<close> and of
  the renderers of a switch goes through the record of the functions that the lowering uses; \<open>GoKnot\<close>
  closes it with the definitions of this theory and of \<open>GoStmt\<close>.
\<close>

section \<open>Strings\<close>

abbreviation dq :: string where "dq \<equiv> [CHR 0x22]"

definition sep_sentinel :: rune where "sep_sentinel = 0xE002"

definition has_sep :: "string \<Rightarrow> bool" where "has_sep s \<longleftrightarrow> contains_rune s sep_sentinel"

definition escape_go_rune :: "rune \<Rightarrow> string" where
  "escape_go_rune r =
     (if r = 0x0A then [CHR 0x5C, CHR ''n''] else if r = 0x09 then [CHR 0x5C, CHR ''t'']
      else if r = 0x0D then [CHR 0x5C, CHR ''r''] else if r = 0x5C then [CHR 0x5C, CHR 0x5C]
      else if r = 0x22 then [CHR 0x5C, CHR 0x22] else if r = 0 then [CHR 0x5C] @ ''x00''
      else if r = 0xE000 then ''{'' else if r = 0xE001 then ''}''
      else if r < 0x20 \<or> r = 0x7F then [CHR 0x5C, CHR ''x''] @ hex_digits 2 r
      else utf8_encode r)"

definition escapeString :: "string \<Rightarrow> string" where
  "escapeString s = concat (map escape_go_rune (go_runes s))"

definition stringToRuneLiteral :: "string \<Rightarrow> string" where
  "stringToRuneLiteral s =
     (case go_runes s of
        [r] \<Rightarrow>
          [CHR 0x27] @
          (if r = 0x0A then [CHR 0x5C, CHR ''n''] else if r = 0x09 then [CHR 0x5C, CHR ''t'']
           else if r = 0x0D then [CHR 0x5C, CHR ''r''] else if r = 0 then [CHR 0x5C] @ ''x00''
           else if r = 0x5C then [CHR 0x5C, CHR 0x5C] else if r = 0x27 then [CHR 0x5C, CHR 0x27]
           else utf8_encode r) @ [CHR 0x27]
      | _ \<Rightarrow> [])"

definition dquoted :: "string \<Rightarrow> string" where "dquoted s = dq @ s @ dq"

text \<open>The name that a caught error has in a handler, \<^verbatim>\<open>error\<close> or its alias, stands for its variable.\<close>

definition caught :: "string \<Rightarrow> generator \<Rightarrow> string option" where
  "caught name g =
     (if currentOnErrVar g \<noteq> [] \<and>
         (name = ''error'' \<or> currentOnErrAlias g \<noteq> [] \<and> name = currentOnErrAlias g)
      then Some (currentOnErrVar g) else None)"

text \<open>The parts of an interpolated string: the format and its arguments. \<^verbatim>\<open>generateStringFromParts\<close> and
  \<^verbatim>\<open>parseStringPartsOrInterpolation\<close> are the same loop.\<close>

definition separators :: "string \<Rightarrow> string \<times> string list" where
  "separators literal =
     (let segments = split_str (utf8_encode sep_sentinel) literal
      in (go_join (map escapeString segments) ''%v'',
          replicate (length segments - 1) ''string(filepath.Separator)''))"

definition string_part :: "renderer \<Rightarrow> StringInterpolation \<Rightarrow> (string \<times> string list) gen" where
  "string_part R part =
     (case part of (isLiteral, literal, e) \<Rightarrow>
        if isLiteral then
          (if has_sep literal then do { use_import ''path/filepath''; give (separators literal) }
           else give (escapeString literal, []))
        else do {
          c \<leftarrow> asks (\<lambda>g. case e of Ident i \<Rightarrow> caught (identValue i) g | _ \<Rightarrow> None);
          s \<leftarrow> (case c of Some v \<Rightarrow> give v | None \<Rightarrow> rendered R e);
          give (''%v'', [s]) })"

definition parseStringPartsOrInterpolation ::
  "renderer \<Rightarrow> StringInterpolation list \<Rightarrow> (string \<times> string list) gen" where
  "parseStringPartsOrInterpolation R parts = do {
     rs \<leftarrow> each (string_part R) parts;
     give (concat (map fst rs), concat (map snd rs)) }"

definition sprintf_text :: "string \<times> string list \<Rightarrow> string" where
  "sprintf_text r =
     (case r of (format, args) \<Rightarrow>
        if args = [] then dquoted format
        else ''fmt.Sprintf('' @ dquoted format @ '', '' @ go_join args '', '' @ '')'')"

definition generateStringFromParts :: "renderer \<Rightarrow> StringInterpolation list \<Rightarrow> string gen" where
  "generateStringFromParts R parts = do { r \<leftarrow> parseStringPartsOrInterpolation R parts; give (sprintf_text r) }"

definition generateSepOnlyString :: "string \<Rightarrow> string gen" where
  "generateSepOnlyString v = do {
     use_import ''path/filepath'';
     give (if split_str (utf8_encode sep_sentinel) v = [[], []] then ''string(filepath.Separator)''
           else sprintf_text (separators v)) }"

definition generateStringLiteral :: "renderer \<Rightarrow> string \<Rightarrow> bool \<Rightarrow> bool \<Rightarrow> StringInterpolation list \<Rightarrow> string gen" where
  "generateStringLiteral R v interpolated raw parts =
     (if raw then give (CHR 0x60 # v @ [CHR 0x60])
      else if \<not> interpolated \<and> \<not> has_sep v then give (dquoted (escapeString v))
      else if parts = [] then generateSepOnlyString v
      else generateStringFromParts R parts)"

text \<open>\<^verbatim>\<open>generateErrorExpr\<close> is called on string literals only.\<close>

definition generateErrorExpr_of :: "renderer \<Rightarrow> Expression \<Rightarrow> string gen" where
  "generateErrorExpr_of R e =
     (case e of
        StringExpr t v interpolated raw parts \<Rightarrow>
          (if \<not> (interpolated \<or> has_sep v) then do {
             use_import ''errors'';
             give (''errors.New('' @ dquoted (escapeString v) @ '')'') }
           else if parts = [] then do {
             use_import ''errors'';
             s \<leftarrow> generateStringLiteral R v interpolated raw parts;
             give (''errors.New('' @ s @ '')'') }
           else do {
             r \<leftarrow> parseStringPartsOrInterpolation R parts;
             use_import ''fmt'';
             give (case r of (format, args) \<Rightarrow>
               if args = [] then ''fmt.Errorf('' @ dquoted format @ '')''
               else ''fmt.Errorf('' @ dquoted format @ '', '' @ go_join args '', '' @ '')'') })
      | _ \<Rightarrow> crash [])"

section \<open>Zero values of type parameters\<close>

definition from_stdlib :: "string \<Rightarrow> generator \<Rightarrow> bool" where
  "from_stdlib pkg g \<longleftrightarrow>
     contains_str (sourceFile g) (''stdlib/'' @ pkg @ ''/'') \<or>
     contains_str (sourceFile g) (''stdlib'' @ [CHR 0x5C] @ pkg @ [CHR 0x5C])"

definition isStdlibSlice :: "generator \<Rightarrow> bool" where "isStdlibSlice g \<longleftrightarrow> from_stdlib ''slice'' g"
definition isStdlibSort :: "generator \<Rightarrow> bool" where "isStdlibSort g \<longleftrightarrow> from_stdlib ''sort'' g"

text \<open>The zero value of \<^verbatim>\<open>empty\<close> in a generic library function: of the placeholder that the return type
  at the position mentions, or outside a return of the first placeholder there is.\<close>

definition genericZero :: "generator \<Rightarrow> string option" where
  "genericZero g =
     (if \<not> (isStdlibIter g \<or> isStdlibSlice g \<or> isStdlibSort g) then None
      else case placeholderMap g of None \<Rightarrow> None
      | Some m \<Rightarrow>
          (let has = (\<lambda>p. map_of m p \<noteq> None);
               fits = (if currentReturnIndex g \<ge> 0 \<and> currentReturnIndex g < int (length (currentReturnTypes g))
                       then (\<lambda>p. has p \<and>
                              typeContainsPlaceholder (currentReturnTypes g ! nat (currentReturnIndex g)) p)
                       else has)
           in if fits ''any'' then Some ''*new(T)''
              else if fits ''any2'' then Some ''*new(K)''
              else if fits ''ordered'' then Some ''*new(K)''
              else None))"

definition emptyText :: "TypeAnnotation \<Rightarrow> generator \<Rightarrow> string" where
  "emptyText ty g =
     (if ty \<noteq> NilType then
        (let targetType = generateTypeAnnotation g ty
         in if (case placeholderMap g of None \<Rightarrow> False | Some m \<Rightarrow> targetType \<in> set (map snd m))
            then ''*new('' @ targetType @ '')'' else zeroValueForType g ty)
      else (case genericZero g of Some z \<Rightarrow> z | None \<Rightarrow> ''nil''))"

text \<open>An identifier: the caught error, \<^verbatim>\<open>empty\<close> where the analysis takes it for nil, or its name.\<close>

definition identifierText :: "Expression \<Rightarrow> string \<Rightarrow> string gen" where
  "identifierText e name = do {
     c \<leftarrow> asks (caught name);
     t \<leftarrow> asks (typeOf e);
     (case c of Some v \<Rightarrow> give v
      | None \<Rightarrow>
          (if name = ''empty'' then
             (case t of
                None \<Rightarrow> give ''empty''
              | Some None \<Rightarrow> crash []
              | Some (Some ti) \<Rightarrow>
                  (if tiKind ti = TypeKindNil
                   then asks (\<lambda>g. case genericZero g of Some z \<Rightarrow> z | None \<Rightarrow> ''nil'')
                   else give ''empty''))
           else give name)) }"

section \<open>Operators\<close>

definition goOperator :: "string \<Rightarrow> string" where
  "goOperator op =
     (if op = ''and'' then ''&&'' else if op = ''or'' then ''||'' else if op = ''equals'' then ''==''
      else if op = ''not equals'' \<or> op = ''isnt'' then ''!='' else op)"

definition generateBinaryExpr :: "renderer \<Rightarrow> Expression \<Rightarrow> string \<Rightarrow> Expression \<Rightarrow> string gen" where
  "generateBinaryExpr R l op r = do {
     left \<leftarrow> rendered R l;
     right \<leftarrow> rendered R r;
     give (''('' @ left @ '' '' @ goOperator op @ '' '' @ right @ '')'') }"

definition generateIsExpr :: "renderer \<Rightarrow> Expression \<Rightarrow> Identifier \<Rightarrow> string gen" where
  "generateIsExpr R e caseIdent = do {
     v \<leftarrow> rendered R e;
     give (''func() bool { _, _isOk := '' @ v @ ''.('' @ identValue caseIdent @ ''); return _isOk }()'') }"

definition generateUnaryExpr :: "renderer \<Rightarrow> string \<Rightarrow> Expression \<Rightarrow> string gen" where
  "generateUnaryExpr R op r = do {
     right \<leftarrow> rendered R r;
     give ((if op = ''not'' then ''!'' else op) @ right) }"

definition isNonAddressable :: "Expression \<Rightarrow> bool" where
  "isNonAddressable e = (case e of CallExpr _ _ _ _ _ \<Rightarrow> True | MethodCallExpr _ _ _ _ _ _ \<Rightarrow> True | _ \<Rightarrow> False)"

definition generateAddressOfExpr :: "renderer \<Rightarrow> Expression \<Rightarrow> string gen" where
  "generateAddressOfExpr R e = do {
     operand \<leftarrow> rendered R e;
     give (if isNonAddressable e then ''new('' @ operand @ '')'' else ''&'' @ operand) }"

definition generateDerefExpr :: "renderer \<Rightarrow> Expression \<Rightarrow> string gen" where
  "generateDerefExpr R e = do { operand \<leftarrow> rendered R e; give (''*'' @ operand) }"

definition isNegativeExpr :: "Expression \<Rightarrow> Expression option" where
  "isNegativeExpr e = (case e of UnaryExpr t op r \<Rightarrow> if op = ''-'' then Some r else None | _ \<Rightarrow> None)"

text \<open>An index that may count from the end.\<close>

definition indexText :: "renderer \<Rightarrow> string \<Rightarrow> Expression \<Rightarrow> string gen" where
  "indexText R left i =
     (case isNegativeExpr i of
        Some r \<Rightarrow> do { absIndex \<leftarrow> rendered R r; give (''len('' @ left @ '')-'' @ absIndex) }
      | None \<Rightarrow> rendered R i)"

definition generateIndexExpr :: "renderer \<Rightarrow> Expression \<Rightarrow> Expression \<Rightarrow> string gen" where
  "generateIndexExpr R l i = do {
     left \<leftarrow> rendered R l;
     index \<leftarrow> indexText R left i;
     give (left @ ''['' @ index @ '']'') }"

definition generateSliceExpr :: "renderer \<Rightarrow> Expression \<Rightarrow> Expression \<Rightarrow> Expression \<Rightarrow> string gen" where
  "generateSliceExpr R l a b = do {
     left \<leftarrow> rendered R l;
     low \<leftarrow> (if a \<noteq> NilExpr then indexText R left a else give []);
     high \<leftarrow> (if b \<noteq> NilExpr then indexText R left b else give []);
     give (left @ ''['' @ low @ '':'' @ high @ '']'') }"

end
