(* ===== verification/GoCall.thy ===== *)
theory GoCall
  imports GoExpr
begin

text \<open>
  \<^verbatim>\<open>codegen_expr.go\<close>, second part: pipes, calls with default and named arguments, composite literals and
  the inline form of \<^verbatim>\<open>onerr\<close>.
\<close>

section \<open>Packages\<close>

definition trim_quotes :: "string \<Rightarrow> string" where "trim_quotes s = trim_left (trim_right s dq) dq"

definition cut_version :: "string \<Rightarrow> string" where
  "cut_version n = (case index_str n ''.v'' of Some k \<Rightarrow> take k n | None \<Rightarrow> n)"

definition is_version :: "string \<Rightarrow> bool" where
  "is_version n \<longleftrightarrow> length n \<ge> 2 \<and> n ! 0 = CHR ''v'' \<and> n ! 1 \<in> set ''0123456789''"

definition extractPkgName :: "string \<Rightarrow> string" where
  "extractPkgName importPath =
     (let parts = split_char CHR ''/'' importPath; name = cut_version (last parts)
      in if length parts \<ge> 2 \<and> is_version name then cut_version (parts ! (length parts - 2)) else name)"

text \<open>The text of the string literal of an import.\<close>

definition import_value :: "Expression \<Rightarrow> string" where
  "import_value e = (case e of StringExpr t v i r ps \<Rightarrow> v | _ \<Rightarrow> [])"

fun resolveImport :: "string \<Rightarrow> Declaration list \<Rightarrow> string" where
  "resolveImport localName [] = localName"
| "resolveImport localName (ImportDecl t p (Some a) # ds) =
     (if identValue a = localName then extractPkgName (trim_quotes (import_value p)) else resolveImport localName ds)"
| "resolveImport localName (_ # ds) = resolveImport localName ds"

definition resolveImportAlias :: "string \<Rightarrow> generator \<Rightarrow> string" where
  "resolveImportAlias localName g = resolveImport localName (programImports (program g))"

definition package_alias :: "string \<Rightarrow> generator \<Rightarrow> string" where
  "package_alias objectText g = (case map_of (pkgAliases g) objectText of Some a \<Rightarrow> a | None \<Rightarrow> objectText)"

section \<open>Default arguments of the library\<close>

text \<open>The entries of \<^verbatim>\<open>generatedStdlibRegistry\<close> with default values: parameter names and defaults. The
  lookup of any other name adds nothing to the arguments. Whether the Go name is in the registry
  decides if the Kukicha name is looked up instead; both names end in the same function name, and the
  names of these two functions occur in no other package.\<close>

definition stdlibDefaults :: "(string \<times> string list \<times> string list) list" where
  "stdlibDefaults =
     [(''string.PadLeft'', [''s'', ''width'', ''padChar''], [[], [], dq @ '' '' @ dq]),
      (''string.PadRight'', [''s'', ''width'', ''padChar''], [[], [], dq @ '' '' @ dq])]"

fun fill_from :: "string list \<Rightarrow> string list \<Rightarrow> string list \<Rightarrow> string list" where
  "fill_from args [] defaults = args"
| "fill_from args (n # names) defaults =
     (if length args < length defaults \<and> defaults ! length args \<noteq> []
      then fill_from (args @ [defaults ! length args]) names defaults else args)"

text \<open>The Kukicha name of the function that a call node names.\<close>

definition kukichaName :: "Expression \<Rightarrow> generator \<Rightarrow> string option" where
  "kukichaName node g =
     (let qualified = (\<lambda>ob f. case ob of
            Ident i \<Rightarrow> Some (resolveImportAlias (identValue i) g @ ''.'' @ identValue f) | _ \<Rightarrow> None)
      in case node of
           MethodCallExpr t ob m as ns v \<Rightarrow> qualified ob m
         | CallExpr t f as ns v \<Rightarrow>
             (case f of
                MethodCallExpr t2 ob m as2 ns2 v2 \<Rightarrow> qualified ob m
              | FieldAccessExpr t2 ob fld \<Rightarrow> qualified ob fld
              | _ \<Rightarrow> None)
         | _ \<Rightarrow> None)"

definition fillStdlibDefaults :: "string \<Rightarrow> Expression \<Rightarrow> string list \<Rightarrow> generator \<Rightarrow> string list" where
  "fillStdlibDefaults goName node args g =
     (let entry = (case map_of stdlibDefaults goName of
            Some e \<Rightarrow> Some e
          | None \<Rightarrow> (case kukichaName node g of Some n \<Rightarrow> map_of stdlibDefaults n | None \<Rightarrow> None))
      in case entry of None \<Rightarrow> args
         | Some (names, defaults) \<Rightarrow> fill_from args (drop (length args) names) defaults)"

section \<open>Pipes\<close>

definition is_print :: "Expression \<Rightarrow> bool" where
  "is_print f = (case f of Ident i \<Rightarrow> identValue i = ''print'' | _ \<Rightarrow> False)"

definition printName :: "generator \<Rightarrow> string" where
  "printName g = (if mcpTarget g then ''fmt.Fprintln'' else ''fmt.Println'')"

text \<open>\<^verbatim>\<open>inferExprType\<close>\<close>

definition inferExprType :: "Expression \<Rightarrow> generator \<Rightarrow> string" where
  "inferExprType e g =
     (case typeOf e g of
        Some (Some ti) \<Rightarrow> typeInfoToGoString g (Some ti)
      | _ \<Rightarrow>
          (case e of
             StringExpr _ _ _ _ _ \<Rightarrow> ''string'' | IntegerLiteral _ _ \<Rightarrow> ''int''
           | FloatLiteral _ _ \<Rightarrow> ''float64'' | BooleanLiteral _ _ \<Rightarrow> ''bool'' | _ \<Rightarrow> []))"

definition piped_value :: "renderer \<Rightarrow> Expression \<Rightarrow> string gen" where
  "piped_value R l = do {
     left \<leftarrow> rendered R l;
     count \<leftarrow> asks (inferReturnCount l);
     retType \<leftarrow> asks (inferExprType l);
     give (case count of
         Some n \<Rightarrow>
           (if n \<ge> 2 then ''func() '' @ (if retType = [] then ''any'' else retType) @ '' { val, '' @
              go_join (replicate (nat (n - 1)) ''_'') '', '' @ '' := '' @ left @ ''; return val }()''
            else left)
       | None \<Rightarrow> left) }"

definition pipe_call :: "renderer \<Rightarrow> string \<Rightarrow> string \<Rightarrow> Expression \<Rightarrow> Expression list \<Rightarrow> bool \<Rightarrow> string gen" where
  "pipe_call R left funcName node arguments variadic = do {
     args \<leftarrow> via (buildPipeArgs R left arguments);
     args \<leftarrow> asks (fillStdlibDefaults funcName node args);
     mcp \<leftarrow> asks mcpTarget;
     give (call_text funcName (if mcp \<and> funcName = ''fmt.Fprintln'' then ''os.Stderr'' # args else args) variadic) }"

definition generatePipeExpr :: "renderer \<Rightarrow> Expression \<Rightarrow> Expression \<Rightarrow> string gen" where
  "generatePipeExpr R l r = do {
     left \<leftarrow> piped_value R l;
     (case r of
        CallExpr t f as ns v \<Rightarrow> do {
          rendering \<leftarrow> rendered R f;
          pr \<leftarrow> asks printName;
          pipe_call R left (if is_print f then pr else rendering) r as v }
      | MethodCallExpr t ob m as ns v \<Rightarrow> do {
          objStr \<leftarrow> rendered R ob;
          objStr \<leftarrow> asks (package_alias objStr);
          (if ob = NilExpr then do {
             args \<leftarrow> each (rendered R) as;
             give (call_text (left @ ''.'' @ identValue m) args v) }
           else pipe_call R left (objStr @ ''.'' @ identValue m) r as v) }
      | FieldAccessExpr t ob f \<Rightarrow>
          (if ob = NilExpr then give (left @ ''.'' @ identValue f)
           else do {
             objStr \<leftarrow> rendered R ob;
             objStr \<leftarrow> asks (package_alias objStr);
             give (objStr @ ''.'' @ identValue f @ ''('' @ left @ '')'') })
      | Ident i \<Rightarrow> do {
          mcp \<leftarrow> asks mcpTarget;
          give (if identValue i = ''print'' then
                  (if mcp then ''fmt.Fprintln(os.Stderr, '' @ left @ '')'' else ''fmt.Println('' @ left @ '')'')
                else identValue i @ ''('' @ left @ '')'') }
      | _ \<Rightarrow>
          (case ExprPos r of
             None \<Rightarrow> crash left
           | Some p \<Rightarrow> do {
               update (gen_warn p (''unsupported pipe target type '' @ goTypeName r @ ''; wrap in a call: f()''));
               give left })) }"

section \<open>Calls\<close>

text \<open>The arguments of a call in the order of the parameters: positional ones first, then by name, then
  the default values. A missing last variadic parameter ends the list. A Go map keeps the last value
  that was stored for a name.\<close>

definition missing_argument :: string where "missing_argument = ''/* missing argument */''"

fun ordered_arguments ::
  "renderer \<Rightarrow> (string \<times> Expression) list \<Rightarrow> bool \<Rightarrow> Expression list \<Rightarrow> (string \<times> Expression) list \<Rightarrow> string list gen" where
  "ordered_arguments R named variadic positional [] = give []"
| "ordered_arguments R named variadic positional ((p, d) # params) =
     (case positional of
        a # as \<Rightarrow> do {
          s \<leftarrow> rendered R a;
          ss \<leftarrow> ordered_arguments R named variadic as params;
          give (s # ss) }
      | [] \<Rightarrow>
          (case map_of named p of
             Some e \<Rightarrow> do {
               s \<leftarrow> rendered R e;
               ss \<leftarrow> ordered_arguments R named variadic [] params;
               give (s # ss) }
           | None \<Rightarrow>
               (if d \<noteq> NilExpr then do {
                  s \<leftarrow> rendered R d;
                  ss \<leftarrow> ordered_arguments R named variadic [] params;
                  give (s # ss) }
                else if params = [] \<and> variadic then give []
                else do {
                  ss \<leftarrow> ordered_arguments R named variadic [] params;
                  give (missing_argument # ss) })))"

definition named_value :: "NamedArgument \<Rightarrow> Expression" where "named_value n = snd (snd n)"

definition named_table :: "NamedArgument list \<Rightarrow> (string \<times> Expression) list" where
  "named_table ns = rev (map (\<lambda>(t, i, e). (identValue i, e)) ns)"

definition generateCallExpr :: "renderer \<Rightarrow> Expression \<Rightarrow> Expression list \<Rightarrow> NamedArgument list \<Rightarrow> bool \<Rightarrow> string gen" where
  "generateCallExpr R f as ns variadic = do {
     rendering \<leftarrow> rendered R f;
     pr \<leftarrow> asks printName;
     mcp \<leftarrow> asks mcpTarget;
     funcDef \<leftarrow> asks (\<lambda>g. case f of Ident i \<Rightarrow> map_of (funcDefaults g) (identValue i) | _ \<Rightarrow> None);
     let funcName = (if is_print f then pr else rendering);
     let needsDefaults = (case funcDef of Some fd \<Rightarrow> length as < length (fdNames fd) | None \<Rightarrow> False);
     (if ns = [] \<and> \<not> needsDefaults then do {
        args \<leftarrow> each (rendered R) as;
        give (call_text funcName (if mcp \<and> is_print f then ''os.Stderr'' # args else args) variadic) }
      else case funcDef of
        None \<Rightarrow> do {
          args \<leftarrow> each (rendered R) as;
          named \<leftarrow> each (rendered R \<circ> named_value) ns;
          give (call_text funcName (args @ named) variadic) }
      | Some fd \<Rightarrow> do {
          args \<leftarrow> ordered_arguments R (named_table ns) (fdVariadic fd) as (zip (fdNames fd) (fdValues fd));
          give (call_text funcName args variadic) }) }"

text \<open>The tables of functions that take a format.\<close>

definition printfPackageFuncs :: "(string \<times> string list) list" where
  "printfPackageFuncs =
     [(''fmt'', [''Printf'', ''Sprintf'', ''Fprintf'', ''Errorf'']), (''log'', [''Printf'', ''Fatalf'', ''Panicf''])]"

definition printfReceiverMethods :: "string list" where
  "printfReceiverMethods =
     [''Errorf'', ''Fatalf'', ''Logf'', ''Skipf'', ''Printf'', ''Warnf'', ''Infof'', ''Debugf'']"

definition knownPackages :: "string list" where
  "knownPackages =
     [''fmt'', ''log'', ''os'', ''io'', ''strings'', ''strconv'', ''math'', ''sync'', ''time'', ''testing'', ''http'',
      ''json'', ''bytes'']"

text \<open>Every alias is \<^verbatim>\<open>kuki\<close> and the package, so at most one package has it.\<close>

definition isPrintfStyleCall :: "string \<Rightarrow> string \<Rightarrow> generator \<Rightarrow> bool" where
  "isPrintfStyleCall objectText m g \<longleftrightarrow>
     (let pkg = (case map_of (map (\<lambda>(orig, alias). (alias, orig)) (pkgAliases g)) objectText of
                   Some orig \<Rightarrow> orig | None \<Rightarrow> objectText)
      in if pkg \<in> set knownPackages
         then (case map_of printfPackageFuncs pkg of Some fns \<Rightarrow> m \<in> set fns | None \<Rightarrow> False)
         else m \<in> set printfReceiverMethods)"

definition method_call ::
  "renderer \<Rightarrow> Expression \<Rightarrow> string \<Rightarrow> string \<Rightarrow> Expression list \<Rightarrow> NamedArgument list \<Rightarrow> bool \<Rightarrow> string gen" where
  "method_call R node objectText m as ns variadic = do {
     args \<leftarrow> each (rendered R) as;
     named \<leftarrow> each (rendered R \<circ> named_value) ns;
     all \<leftarrow> asks (fillStdlibDefaults (objectText @ ''.'' @ m) node (args @ named));
     give (call_text (objectText @ ''.'' @ m) all variadic) }"

definition generateMethodCallExpr ::
  "renderer \<Rightarrow> Expression \<Rightarrow> Expression \<Rightarrow> Identifier \<Rightarrow> Expression list \<Rightarrow> NamedArgument list \<Rightarrow> bool \<Rightarrow> string gen" where
  "generateMethodCallExpr R node ob m as ns variadic = do {
     objectText \<leftarrow> rendered R ob;
     objectText \<leftarrow> asks (package_alias objectText);
     printf \<leftarrow> asks (isPrintfStyleCall objectText (identValue m));
     (case as of
        StringExpr t v interpolated raw parts # follow \<Rightarrow>
          (if printf then do {
             r \<leftarrow> parseStringPartsOrInterpolation R parts;
             (if snd r \<noteq> [] then do {
                others \<leftarrow> each (rendered R) follow;
                give (call_text (objectText @ ''.'' @ identValue m)
                        (dquoted (fst r) # snd r @ others) variadic) }
              else method_call R node objectText (identValue m) as ns variadic) }
           else method_call R node objectText (identValue m) as ns variadic)
      | _ \<Rightarrow> method_call R node objectText (identValue m) as ns variadic) }"

definition generateFieldAccess :: "renderer \<Rightarrow> Expression \<Rightarrow> Identifier \<Rightarrow> string gen" where
  "generateFieldAccess R ob f = do {
     objectText \<leftarrow> rendered R ob;
     isEnum \<leftarrow> asks (\<lambda>g. objectText \<in> set (enumTypes g));
     alias \<leftarrow> asks (package_alias objectText);
     give (if isEnum then objectText @ identValue f else alias @ ''.'' @ identValue f) }"

section \<open>Literals\<close>

definition generateStructLiteral :: "renderer \<Rightarrow> TypeAnnotation \<Rightarrow> FieldValue list \<Rightarrow> string gen" where
  "generateStructLiteral R ty fs = do {
     typeName \<leftarrow> asks (\<lambda>g. generateTypeAnnotation g ty);
     fields \<leftarrow> each (\<lambda>(i, e). do { v \<leftarrow> rendered R e; give (identValue i @ '': '' @ v) }) fs;
     give (typeName @ ''{'' @ go_join fields '', '' @ ''}'') }"

definition generateListLiteral :: "renderer \<Rightarrow> TypeAnnotation \<Rightarrow> Expression list \<Rightarrow> string gen" where
  "generateListLiteral R ty es = do {
     elemType \<leftarrow> asks (\<lambda>g. if ty \<noteq> NilType then generateTypeAnnotation g ty else ''any'');
     elements \<leftarrow> each (rendered R) es;
     give (''[]'' @ elemType @ ''{'' @ go_join elements '', '' @ ''}'') }"

definition key_value :: "renderer \<Rightarrow> KeyValuePair \<Rightarrow> string gen" where
  "key_value R kv = do { k \<leftarrow> rendered R (fst kv); v \<leftarrow> rendered R (snd kv); give (k @ '': '' @ v) }"

definition generateMapLiteral :: "renderer \<Rightarrow> TypeAnnotation \<Rightarrow> TypeAnnotation \<Rightarrow> KeyValuePair list \<Rightarrow> string gen" where
  "generateMapLiteral R kt vt ps = do {
     keyType \<leftarrow> asks (\<lambda>g. if kt \<noteq> NilType then generateTypeAnnotation g kt else ''any'');
     valType \<leftarrow> asks (\<lambda>g. if vt \<noteq> NilType then generateTypeAnnotation g vt else ''any'');
     pairs \<leftarrow> each (key_value R) ps;
     give (''map['' @ keyType @ '']'' @ valType @ ''{'' @ go_join pairs '', '' @ ''}'') }"

definition field_entry :: "renderer \<Rightarrow> UntypedEntry \<Rightarrow> string gen" where
  "field_entry R kv = do {
     k \<leftarrow> (case fst kv of Ident i \<Rightarrow> give (identValue i) | _ \<Rightarrow> rendered R (fst kv));
     v \<leftarrow> rendered R (snd kv);
     give (k @ '': '' @ v) }"

definition braced :: "string \<Rightarrow> string list \<Rightarrow> string" where
  "braced typeName items = typeName @ ''{'' @ go_join items '', '' @ ''}''"

text \<open>Without entries every form is the type and empty braces.\<close>

definition generateResolvedCompositeLiteral :: "renderer \<Rightarrow> bool \<Rightarrow> UntypedEntry list \<Rightarrow> TypeAnnotation \<Rightarrow> string gen" where
  "generateResolvedCompositeLiteral R keyed entries ty = do {
     typeName \<leftarrow> asks (\<lambda>g. generateTypeAnnotation g ty);
     (case ty of
        NamedType t n \<Rightarrow> do { fs \<leftarrow> each (field_entry R) entries; give (braced typeName fs) }
      | ListType t e \<Rightarrow> do { es \<leftarrow> each (rendered R \<circ> snd) entries; give (braced typeName es) }
      | PrimitiveType t n \<Rightarrow> do { es \<leftarrow> each (rendered R \<circ> snd) entries; give (braced (''[]'' @ typeName) es) }
      | MapType t k v \<Rightarrow> do { ps \<leftarrow> each (key_value R) entries; give (braced typeName ps) }
      | _ \<Rightarrow>
          (if keyed then do { ps \<leftarrow> each (key_value R) entries; give (braced typeName ps) }
           else do { es \<leftarrow> each (rendered R \<circ> snd) entries; give (braced typeName es) })) }"

definition generateUntypedCompositeLiteral :: "renderer \<Rightarrow> bool \<Rightarrow> UntypedEntry list \<Rightarrow> TypeAnnotation \<Rightarrow> string gen" where
  "generateUntypedCompositeLiteral R keyed entries ty =
     (if ty \<noteq> NilType then generateResolvedCompositeLiteral R keyed entries ty
      else if entries = [] then give ''map[any]any{}''
      else if keyed then do { ps \<leftarrow> each (key_value R) entries; give (braced ''map[any]any'' ps) }
      else do { es \<leftarrow> each (rendered R \<circ> snd) entries; give (braced ''[]any'' es) })"

definition generateMakeExpr :: "renderer \<Rightarrow> TypeAnnotation \<Rightarrow> Expression list \<Rightarrow> string gen" where
  "generateMakeExpr R ty as = do {
     targetType \<leftarrow> asks (\<lambda>g. generateTypeAnnotation g ty);
     args \<leftarrow> each (rendered R) as;
     give (if as = [] then
             (if has_prefix targetType ''[]'' then ''make('' @ targetType @ '', 0)'' else ''make('' @ targetType @ '')'')
           else ''make('' @ targetType @ '', '' @ go_join args '', '' @ '')'') }"

section \<open>Return and onerr as expressions\<close>

definition generateReturnExpr :: "renderer \<Rightarrow> Expression list \<Rightarrow> string gen" where
  "generateReturnExpr R vs = do { ss \<leftarrow> each (rendered R) vs; give (''return '' @ go_join ss '', '') }"

definition known_type :: "Expression \<Rightarrow> generator \<Rightarrow> TypeInfo option" where
  "known_type e g =
     (case typeOf e g of Some (Some ti) \<Rightarrow> if tiKind ti \<noteq> TypeKindUnknown then Some ti else None | _ \<Rightarrow> None)"

definition inlineOnErrType :: "Expression \<Rightarrow> Expression \<Rightarrow> generator \<Rightarrow> string" where
  "inlineOnErrType node e g =
     (case known_type node g of
        Some ti \<Rightarrow> typeInfoToGoString g (Some ti)
      | None \<Rightarrow>
          (case known_type e g of
             Some ti \<Rightarrow> typeInfoToGoString g (Some ti)
           | None \<Rightarrow>
               (if currentReturnIndex g \<ge> 0 \<and> currentReturnIndex g < int (length (currentReturnTypes g))
                then generateTypeAnnotation g (currentReturnTypes g ! nat (currentReturnIndex g))
                else ''any'')))"

definition generateInlineOnErrExpr :: "renderer \<Rightarrow> Expression \<Rightarrow> Expression \<Rightarrow> Expression \<Rightarrow> string gen" where
  "generateInlineOnErrExpr R node e d = do {
     valueVar \<leftarrow> fresh ''onerrVal'';
     errVar \<leftarrow> fresh ''err'';
     valueType \<leftarrow> asks (inlineOnErrType node e);
     ind \<leftarrow> asks indentStr;
     v \<leftarrow> rendered R e;
     alt \<leftarrow> rendered R d;
     (let nl = [CHR 0x0A]; tab = [CHR 0x09]
      in give (''func() '' @ valueType @ '' {'' @ nl @
           ind @ tab @ valueVar @ '', '' @ errVar @ '' := '' @ v @ nl @
           ind @ tab @ ''if '' @ errVar @ '' != nil {'' @ nl @
           ind @ tab @ tab @ ''return '' @ alt @ nl @
           ind @ tab @ ''}'' @ nl @
           ind @ tab @ ''return '' @ valueVar @ nl @
           ind @ ''}()'')) }"

end
