(* ===== verification/GoLambda.thy ===== *)
theory GoLambda
  imports GoCall
begin

text \<open>
  The rest of \<^verbatim>\<open>codegen_expr.go\<close>, and the parts of \<^verbatim>\<open>codegen_decl.go\<close> and \<^verbatim>\<open>codegen_stdlib.go\<close> that expressions use:
  functions as values, type parameters, \<^verbatim>\<open>if\<close> and piped switches as expressions, and the dispatch
  \<^verbatim>\<open>exprToString\<close>.
\<close>

section \<open>Type parameters\<close>

text \<open>\<^verbatim>\<open>type TypeParameter struct\<close>: name, placeholder, constraint.\<close>

record TypeParameter =
  tpName :: string
  tpPlaceholder :: string
  tpConstraint :: string

definition type_param :: "string \<Rightarrow> string \<Rightarrow> string \<Rightarrow> TypeParameter" where
  "type_param n p c = \<lparr>tpName = n, tpPlaceholder = p, tpConstraint = c\<rparr>"

definition isIterSeqType :: "TypeAnnotation \<Rightarrow> generator \<Rightarrow> bool" where
  "isIterSeqType ty g = (case ty of NamedType t n \<Rightarrow> isIterSeqName n g | _ \<Rightarrow> False)"

abbreviation paramType :: "Parameter \<Rightarrow> TypeAnnotation" where "paramType p \<equiv> fst (snd p)"

definition inferStdlibTypeParameters :: "Parameter list \<Rightarrow> TypeAnnotation list \<Rightarrow> generator \<Rightarrow> TypeParameter list" where
  "inferStdlibTypeParameters params returns g =
     (let types = map paramType params @ returns;
          usesIterSeq = list_ex (\<lambda>ty. isIterSeqType ty g) types;
          needsTwoTypes = list_ex (\<lambda>ty. typeContainsPlaceholder ty ''any2'') types
      in if usesIterSeq then
           type_param ''T'' ''any'' ''any'' # (if needsTwoTypes then [type_param ''U'' ''any2'' ''any''] else [])
         else [])"

definition typeParamsFromClass :: "string \<Rightarrow> TypeParameter list" where
  "typeParamsFromClass cls =
     (if CHR ''T'' \<in> set cls then [type_param ''T'' ''any'' ''any''] else []) @
     (if CHR ''K'' \<in> set cls then [type_param ''K'' ''any2'' ''comparable''] else []) @
     (if CHR ''O'' \<in> set cls then [type_param ''K'' ''ordered'' ''cmp.Ordered''] else []) @
     (if CHR ''R'' \<in> set cls then [type_param ''R'' ''result'' ''any''] else [])"

text \<open>The placeholders of a function are added to a map.\<close>

definition add_placeholders :: "TypeParameter list \<Rightarrow> (string \<times> string) list \<Rightarrow> (string \<times> string) list" where
  "add_placeholders tps m = fold (\<lambda>tp. AList.update (tpPlaceholder tp) (tpName tp)) tps m"

definition generateTypeParameters :: "TypeParameter list \<Rightarrow> string gen" where
  "generateTypeParameters tps =
     (if tps = [] then give []
      else do {
        (if list_ex (\<lambda>tp. tpConstraint tp = ''cmp.Ordered'') tps then use_import ''cmp'' else give ());
        give (''['' @ go_join (map (\<lambda>tp. tpName tp @ '' '' @ tpConstraint tp) tps) '', '' @ '']'') })"

definition parameter_text :: "generator \<Rightarrow> Parameter \<Rightarrow> string" where
  "parameter_text g p =
     (case p of (i, ty, variadic, d) \<Rightarrow>
        identValue i @ (if variadic then '' ...'' else '' '') @ generateTypeAnnotation g ty)"

definition generateFunctionParameters :: "generator \<Rightarrow> Parameter list \<Rightarrow> string" where
  "generateFunctionParameters g params = go_join (map (parameter_text g) params) '', ''"

section \<open>Result types\<close>

definition boolMethods :: "string list" where
  "boolMethods = [''Contains'', ''HasPrefix'', ''HasSuffix'', ''EqualFold'']"

definition bool_operators :: "string list" where
  "bool_operators =
     [''=='', ''!='', ''<'', ''>'', ''<='', ''>='', ''equals'', ''not equals'', ''isnt'', ''and'', ''or'', ''&&'', ''||'',
      ''in'', ''not in'']"

fun returnTypeIn :: "generator \<Rightarrow> string \<Rightarrow> Declaration list \<Rightarrow> string" where
  "returnTypeIn g name [] = []"
| "returnTypeIn g name (FunctionDecl t n ps (r # rs) b None ds # decls) =
     (if identValue n = name then generateTypeAnnotation g r else returnTypeIn g name decls)"
| "returnTypeIn g name (_ # decls) = returnTypeIn g name decls"

definition returnTypeForFunctionName :: "string \<Rightarrow> generator \<Rightarrow> string" where
  "returnTypeForFunctionName name g = returnTypeIn g name (programDeclarations (program g))"

text \<open>\<^verbatim>\<open>inferExprReturnType\<close>\<close>

fun inferReturnType :: "generator \<Rightarrow> Expression \<Rightarrow> string" where
  "inferReturnType g e =
     (case known_type e g of
        Some ti \<Rightarrow> typeInfoToGoString g (Some ti)
      | None \<Rightarrow>
          (case e of
             BinaryExpr t l op r \<Rightarrow>
               (if op \<in> set bool_operators then ''bool''
                else if op \<in> set [''+'', ''-'', ''*'', ''/'', ''%''] then
                  (let leftType = inferReturnType g l
                   in if leftType \<noteq> [] then leftType else inferReturnType g r)
                else [])
           | UnaryExpr t op r \<Rightarrow> (if op = ''not'' \<or> op = ''!'' then ''bool'' else [])
           | IsExpr _ _ _ _ \<Rightarrow> ''bool''
           | BooleanLiteral _ _ \<Rightarrow> ''bool''
           | IntegerLiteral _ _ \<Rightarrow> ''int''
           | FloatLiteral _ _ \<Rightarrow> ''float64''
           | StringExpr _ _ _ _ _ \<Rightarrow> ''string''
           | PipeExpr t l r m \<Rightarrow> inferReturnType g r
           | MethodCallExpr t ob m as ns v \<Rightarrow> (if identValue m \<in> set boolMethods then ''bool'' else [])
           | CallExpr t f as ns v \<Rightarrow>
               (case f of Ident i \<Rightarrow> returnTypeForFunctionName (identValue i) g | _ \<Rightarrow> [])
           | _ \<Rightarrow> []))"

declare inferReturnType.simps [simp del]

fun inferBlockReturnType :: "generator \<Rightarrow> Statement list \<Rightarrow> string" where
  "inferBlockReturnType g [] = []"
| "inferBlockReturnType g (ReturnStmt t [v] # ss) = inferReturnType g v"
| "inferBlockReturnType g (_ # ss) = inferBlockReturnType g ss"

section \<open>Piped switches\<close>

text \<open>The first values of the return statements of a block.\<close>

definition returned :: "BlockStmt option \<Rightarrow> Expression list" where
  "returned b =
     (case b of None \<Rightarrow> []
      | Some (t, ss) \<Rightarrow> concat (map (\<lambda>s. case s of ReturnStmt rt (v # vs) \<Rightarrow> [v] | _ \<Rightarrow> []) ss))"

definition otherwise_body :: "OtherwiseCase option \<Rightarrow> BlockStmt option" where
  "otherwise_body ow = (case ow of None \<Rightarrow> None | Some (t, b) \<Rightarrow> b)"

definition common_type :: "string list \<Rightarrow> string" where
  "common_type ts =
     (case ts of [] \<Rightarrow> [] | t # rs \<Rightarrow> if t \<noteq> [] \<and> list_all (\<lambda>r. r = t) rs then t else ''any'')"

definition inferTypedReturn :: "generator \<Rightarrow> Identifier option \<Rightarrow> TypeAnnotation \<Rightarrow> Expression \<Rightarrow> string" where
  "inferTypedReturn g binding ty e =
     (case e of
        Ident i \<Rightarrow>
          (if Some (identValue i) = map_option identValue binding \<and> ty \<noteq> NilType
           then generateTypeAnnotation g ty else inferExprType e g)
      | _ \<Rightarrow> inferExprType e g)"

definition inferPipedSwitchReturnType :: "generator \<Rightarrow> Statement \<Rightarrow> string" where
  "inferPipedSwitchReturnType g sw =
     (case sw of
        SwitchStmt t e cs ow \<Rightarrow>
          common_type (map (\<lambda>x. inferExprType x g)
            (concat (map (\<lambda>(ct, vs, b). returned b) cs) @ returned (otherwise_body ow)))
      | TypeSwitchStmt t e binding cs ow \<Rightarrow>
          common_type (concat (map (\<lambda>(ct, ty, b). map (inferTypedReturn g binding ty) (returned b)) cs) @
            map (inferTypedReturn g binding NilType) (returned (otherwise_body ow)))
      | _ \<Rightarrow> [])"

definition pipedSwitchReturnType_of :: "Expression \<Rightarrow> generator \<Rightarrow> string" where
  "pipedSwitchReturnType_of e g =
     (case known_type e g of
        Some ti \<Rightarrow> typeInfoToGoString g (Some ti)
      | None \<Rightarrow> (case e of PipedSwitchExpr t l sw \<Rightarrow> inferPipedSwitchReturnType g sw | _ \<Rightarrow> []))"

definition is_switch :: "Statement \<Rightarrow> bool" where
  "is_switch sw = (case sw of SwitchStmt _ _ _ _ \<Rightarrow> True | TypeSwitchStmt _ _ _ _ _ \<Rightarrow> True | _ \<Rightarrow> False)"

definition has_otherwise :: "Statement \<Rightarrow> bool" where
  "has_otherwise sw =
     (case sw of SwitchStmt _ _ _ ow \<Rightarrow> ow \<noteq> None | TypeSwitchStmt _ _ _ _ ow \<Rightarrow> ow \<noteq> None | _ \<Rightarrow> False)"

definition tabs :: "int \<Rightarrow> string" where "tabs n = replicate (nat n) (CHR 0x09)"

definition generatePipedSwitchExpr_of :: "renderer \<Rightarrow> Expression \<Rightarrow> string gen" where
  "generatePipedSwitchExpr_of R e =
     (case e of
        PipedSwitchExpr t l sw \<Rightarrow> do {
          left \<leftarrow> rendered R l;
          fn \<leftarrow> asks currentFuncName;
          rts \<leftarrow> asks currentReturnTypes;
          (if \<not> is_switch sw then give []
           else do {
             body \<leftarrow> in_child 1 (\<lambda>c. c\<lparr>currentFuncName := fn, currentReturnTypes := rts\<rparr>)
                        (update (generateSwitch R (replaceSubject left sw)));
             returnType \<leftarrow> asks (pipedSwitchReturnType_of e);
             ind \<leftarrow> asks indent;
             give ((if returnType \<noteq> [] then ''func() '' @ returnType @ '' {'' else ''func() {'') @ [CHR 0x0A] @ body @
               (if returnType \<noteq> [] \<and> \<not> has_otherwise sw
                then tabs (ind + 1) @ ''panic('' @ dquoted ''unreachable'' @ '')'' @ [CHR 0x0A] else []) @
               tabs ind @ ''}()'') }) }
      | _ \<Rightarrow> crash [])"

section \<open>If-expressions\<close>

fun buildIfExprElseChain :: "renderer \<Rightarrow> Expression \<Rightarrow> string \<Rightarrow> string \<Rightarrow> string gen" where
  "buildIfExprElseChain R (IfExpression t c a b) cond thenVal = do {
     elseCode \<leftarrow> (case b of
         IfExpression t2 c2 a2 b2 \<Rightarrow> do {
           elseCond \<leftarrow> rendered R c2;
           elseThen \<leftarrow> rendered R a2;
           buildIfExprElseChain R b elseCond elseThen }
       | _ \<Rightarrow> do { elseVal \<leftarrow> rendered R b; give (''{ return '' @ elseVal @ '' }'') });
     give (''if '' @ cond @ '' { return '' @ thenVal @ '' } else '' @ elseCode) }"
| "buildIfExprElseChain R _ cond thenVal = give []"

definition ifResultType :: "Expression \<Rightarrow> Expression \<Rightarrow> generator \<Rightarrow> string" where
  "ifResultType node thenExpr g =
     (let t1 = inferExprType node g; t2 = (if t1 = [] then inferExprType thenExpr g else t1)
      in if t2 = [] then ''any'' else t2)"

definition generateIfExpression :: "renderer \<Rightarrow> Expression \<Rightarrow> Expression \<Rightarrow> Expression \<Rightarrow> Expression \<Rightarrow> string gen" where
  "generateIfExpression R node c a b = do {
     retType \<leftarrow> asks (ifResultType node a);
     cond \<leftarrow> rendered R c;
     thenVal \<leftarrow> rendered R a;
     chain \<leftarrow> buildIfExprElseChain R node cond thenVal;
     give (''func() '' @ retType @ '' { '' @ chain @ '' }()'') }"

section \<open>Functions as values\<close>

text \<open>The statements of a body in a child generator one level deeper.\<close>

definition child_body :: "renderer \<Rightarrow> BlockStmt \<Rightarrow> string gen" where
  "child_body R b = in_child 1 (\<lambda>c. c) (update (generateBlock R (Some b)))"

definition generateFunctionLiteral ::
  "renderer \<Rightarrow> Parameter list \<Rightarrow> TypeAnnotation list \<Rightarrow> BlockStmt option \<Rightarrow> string gen" where
  "generateFunctionLiteral R params returns body = do {
     old \<leftarrow> asks placeholderMap;
     isIter \<leftarrow> asks isStdlibIter;
     inferred \<leftarrow> asks (inferStdlibTypeParameters params returns);
     let typeParams = (if isIter then inferred else []);
     update (\<lambda>g. g\<lparr>placeholderMap := Some (add_placeholders typeParams (case old of None \<Rightarrow> [] | Some m \<Rightarrow> m))\<rparr>);
     tps \<leftarrow> generateTypeParameters typeParams;
     ps \<leftarrow> asks (\<lambda>g. generateFunctionParameters g params);
     rs \<leftarrow> asks (\<lambda>g. generateReturnTypes g returns);
     code \<leftarrow> (case body of Some b \<Rightarrow> child_body R b | None \<Rightarrow> give []);
     ind \<leftarrow> asks indent;
     update (\<lambda>g. g\<lparr>placeholderMap := old\<rparr>);
     give (''func'' @ tps @ ''('' @ ps @ '')'' @ (if rs \<noteq> [] then '' '' @ rs else []) @ '' {'' @ [CHR 0x0A] @ code @
       tabs ind @ ''}'') }"

definition lambda_parameter :: "generator \<Rightarrow> Parameter \<Rightarrow> string" where
  "lambda_parameter g p =
     (case p of (i, ty, variadic, d) \<Rightarrow>
        identValue i @
        (if ty \<noteq> NilType then '' '' @ generateTypeAnnotation g ty
         else case known_type (Ident i) g of
           Some ti \<Rightarrow> (if tiKind ti \<noteq> TypeKindNil then '' '' @ typeInfoToGoString g (Some ti) else [])
         | None \<Rightarrow> []))"

definition resultList :: "string list \<Rightarrow> string" where
  "resultList rs = (if length rs = 1 then rs ! 0 else ''('' @ go_join rs '', '' @ '')'')"

definition blockReturnType :: "Expression \<Rightarrow> Statement list \<Rightarrow> generator \<Rightarrow> string" where
  "blockReturnType node ss g =
     (let recorded = (case typeOf node g of
            Some (Some ti) \<Rightarrow>
              (if tiKind ti = TypeKindFunction \<and> length (Returns ti) > 0
               then resultList (map (typeInfoToGoString g) (Returns ti)) else [])
          | _ \<Rightarrow> [])
      in if recorded = [] then inferBlockReturnType g ss else recorded)"

definition generateArrowLambda ::
  "renderer \<Rightarrow> Expression \<Rightarrow> Parameter list \<Rightarrow> Expression \<Rightarrow> BlockStmt option \<Rightarrow> string gen" where
  "generateArrowLambda R node params body blk = do {
     ps \<leftarrow> asks (\<lambda>g. go_join (map (lambda_parameter g) params) '', '');
     (if body \<noteq> NilExpr then do {
        bodyStr \<leftarrow> rendered R body;
        returnType \<leftarrow> asks (\<lambda>g. inferReturnType g body);
        count \<leftarrow> asks (inferReturnCount body);
        give (''func('' @ ps @ '')'' @
          (if count = Some 0 then '' { '' @ bodyStr @ '' }''
           else (if returnType \<noteq> [] then '' '' @ returnType else '' any'') @ '' { return '' @ bodyStr @ '' }'')) }
      else case blk of
        Some b \<Rightarrow> do {
          returnType \<leftarrow> asks (blockReturnType node (snd b));
          code \<leftarrow> child_body R b;
          ind \<leftarrow> asks indent;
          give (''func('' @ ps @ '')'' @ (if returnType \<noteq> [] then '' '' @ returnType else []) @ '' {'' @ [CHR 0x0A] @
            code @ tabs ind @ ''}'') }
      | None \<Rightarrow> give (''func('' @ ps @ '') {}'')) }"

section \<open>The dispatch\<close>

definition integerText :: "token \<Rightarrow> int \<Rightarrow> string" where
  "integerText t v =
     (let lexeme = Lexeme t
      in if length lexeme > 1 \<and> (lexeme ! 0 = CHR ''0'' \<or> contains_char lexeme CHR ''_'') then lexeme else itoa v)"

definition generateTypeCast :: "renderer \<Rightarrow> Expression \<Rightarrow> TypeAnnotation \<Rightarrow> string gen" where
  "generateTypeCast R e ty = do {
     targetType \<leftarrow> asks (\<lambda>g. generateTypeAnnotation g ty);
     let literal = (case e of
         StringExpr t v interpolated raw parts \<Rightarrow>
           (if targetType = ''byte'' \<and> \<not> interpolated then stringToRuneLiteral v else [])
       | _ \<Rightarrow> []);
     (if literal \<noteq> [] then give literal
      else do {
        s \<leftarrow> rendered R e;
        isInterface \<leftarrow> asks (isLikelyInterfaceType targetType);
        give (if isInterface then s @ ''.('' @ targetType @ '')'' else targetType @ ''('' @ s @ '')'') }) }"

definition exprToString_of :: "renderer \<Rightarrow> Expression \<Rightarrow> string gen" where
  "exprToString_of R e =
     (case e of
        NilExpr \<Rightarrow> give []
      | Ident i \<Rightarrow> identifierText e (identValue i)
      | IntegerLiteral t v \<Rightarrow> give (integerText t v)
      | FloatLiteral t v \<Rightarrow> give (Lexeme t)
      | StringExpr t v interpolated raw parts \<Rightarrow> generateStringLiteral R v interpolated raw parts
      | BooleanLiteral t b \<Rightarrow> give (if b then ''true'' else ''false'')
      | BinaryExpr t l op r \<Rightarrow> generateBinaryExpr R l op r
      | IsExpr t v c b \<Rightarrow> generateIsExpr R v c
      | UnaryExpr t op r \<Rightarrow> generateUnaryExpr R op r
      | PipeExpr t l r m \<Rightarrow> generatePipeExpr R l r
      | CallExpr t f as ns v \<Rightarrow> generateCallExpr R f as ns v
      | MethodCallExpr t ob m as ns v \<Rightarrow> generateMethodCallExpr R e ob m as ns v
      | FieldAccessExpr t ob f \<Rightarrow> generateFieldAccess R ob f
      | IndexExpr t l i \<Rightarrow> generateIndexExpr R l i
      | SliceExpr t l a b \<Rightarrow> generateSliceExpr R l a b
      | StructLiteralExpr t ty fs m \<Rightarrow> generateStructLiteral R ty fs
      | ListLiteralExpr t ty es m \<Rightarrow> generateListLiteral R ty es
      | MapLiteralExpr t kt vt ps m \<Rightarrow> generateMapLiteral R kt vt ps
      | UntypedCompositeLiteral t keyed entries m ty \<Rightarrow> generateUntypedCompositeLiteral R keyed entries ty
      | ReceiveExpr t c \<Rightarrow> do { s \<leftarrow> rendered R c; give (''<-'' @ s) }
      | TypeCastExpr t x ty \<Rightarrow> generateTypeCast R x ty
      | EmptyExpr t ty \<Rightarrow> asks (emptyText ty)
      | DiscardExpr t \<Rightarrow> give ''_''
      | ErrorExpr t m \<Rightarrow>
          (case m of
             StringExpr _ _ _ _ _ \<Rightarrow> generateErrorExpr_of R m
           | _ \<Rightarrow> do { use_import ''errors''; s \<leftarrow> rendered R m; give (''errors.New('' @ s @ '')'') })
      | ReturnExpr t vs \<Rightarrow> generateReturnExpr R vs
      | OnErrExpr t x d \<Rightarrow> generateInlineOnErrExpr R e x d
      | MakeExpr t ty as \<Rightarrow> generateMakeExpr R ty as
      | CloseExpr t c \<Rightarrow> do { s \<leftarrow> rendered R c; give (''close('' @ s @ '')'') }
      | PanicExpr t m \<Rightarrow> do { s \<leftarrow> rendered R m; give (''panic('' @ s @ '')'') }
      | RecoverExpr t \<Rightarrow> give ''recover()''
      | FunctionLiteral t ps rs b \<Rightarrow> generateFunctionLiteral R ps rs b
      | ArrowLambda t ps x b \<Rightarrow> generateArrowLambda R e ps x b
      | AddressOfExpr t x \<Rightarrow> generateAddressOfExpr R x
      | DerefExpr t x \<Rightarrow> generateDerefExpr R x
      | TypeAssertionExpr t x ty \<Rightarrow> do {
          targetType \<leftarrow> asks (\<lambda>g. generateTypeAnnotation g ty);
          s \<leftarrow> rendered R x;
          give (s @ ''.('' @ targetType @ '')'') }
      | PipedSwitchExpr t l sw \<Rightarrow> generatePipedSwitchExpr_of R e
      | IfExpression t c a b \<Rightarrow> generateIfExpression R e c a b
      | _ \<Rightarrow> crash [])"

end
