(* ===== verification/GoStmt.thy ===== *)
theory GoStmt
  imports GoLambda Parser
begin

text \<open>
  \<^verbatim>\<open>internal/codegen/codegen_stmt.go\<close>: statements as lines of Go.
\<close>

section \<open>Parts\<close>

definition name_texts :: "Identifier list \<Rightarrow> string" where
  "name_texts ns = go_join (map identValue ns) '', ''"

text \<open>A block: nil crashes, since \<^verbatim>\<open>block.Statements\<close> is read.\<close>

definition block :: "renderer \<Rightarrow> BlockStmt option \<Rightarrow> unit gen" where
  "block R b = update (generateBlock R b)"

text \<open>The values of a declaration or an assignment; \<^verbatim>\<open>a, ok := x as T\<close> is a type assertion.\<close>

definition value_texts :: "renderer \<Rightarrow> nat \<Rightarrow> Expression list \<Rightarrow> string gen" where
  "value_texts R targets vs = do {
     ss \<leftarrow> each (\<lambda>v. case v of
         TypeCastExpr t x ty \<Rightarrow>
           (if targets = 2 \<and> length vs = 1 then do {
              targetType \<leftarrow> asks (\<lambda>g. generateTypeAnnotation g ty);
              s \<leftarrow> rendered R x;
              give (s @ ''.('' @ targetType @ '')'') }
            else rendered R v)
       | _ \<Rightarrow> rendered R v) vs;
     give (go_join ss '', '') }"

text \<open>\<^verbatim>\<open>x := empty T\<close> for a type whose zero value is nil, and \<^verbatim>\<open>x := empty\<close>: a declaration with \<^verbatim>\<open>var\<close>.\<close>

definition empty_declaration :: "Identifier list \<Rightarrow> Expression list \<Rightarrow> generator \<Rightarrow> string option" where
  "empty_declaration names vs g =
     (case (names, vs) of
        ([n], [EmptyExpr t ty]) \<Rightarrow>
          (if ty = NilType then Some (''var '' @ identValue n @ '' any'')
           else if zeroValueForType g ty = ''nil''
           then Some (''var '' @ identValue n @ '' '' @ generateTypeAnnotation g ty) else None)
      | _ \<Rightarrow> None)"

definition generateVarDeclStmt ::
  "renderer \<Rightarrow> Identifier list \<Rightarrow> TypeAnnotation \<Rightarrow> Expression list \<Rightarrow> OnErrClause option \<Rightarrow> unit gen" where
  "generateVarDeclStmt R names ty vs onerr =
     (case onerr of
        Some clause \<Rightarrow> update (generateOnErrVarDecl R goTypeName (map identValue names) vs clause)
      | None \<Rightarrow> do {
          special \<leftarrow> asks (empty_declaration names vs);
          (case special of
             Some l \<Rightarrow> put_line l
           | None \<Rightarrow> do {
               valuesStr \<leftarrow> value_texts R (length names) vs;
               varType \<leftarrow> asks (\<lambda>g. generateTypeAnnotation g ty);
               put_line (if ty \<noteq> NilType then ''var '' @ name_texts names @ '' '' @ varType @ '' = '' @ valuesStr
                         else name_texts names @ '' := '' @ valuesStr) }) })"

definition generateAssignStmt ::
  "renderer \<Rightarrow> Expression list \<Rightarrow> Expression list \<Rightarrow> token \<Rightarrow> OnErrClause option \<Rightarrow> unit gen" where
  "generateAssignStmt R targets vs t onerr =
     (case onerr of
        Some clause \<Rightarrow> update (generateOnErrAssign R goTypeName targets vs clause)
      | None \<Rightarrow> do {
          ts \<leftarrow> each (rendered R) targets;
          valuesStr \<leftarrow> value_texts R (length targets) vs;
          put_line (go_join ts '', '' @ '' '' @ (if Lexeme t = [] then ''='' else Lexeme t) @ '' '' @ valuesStr) })"

section \<open>Return\<close>

definition coerceReturnValue :: "generator \<Rightarrow> string \<Rightarrow> Expression \<Rightarrow> TypeAnnotation \<Rightarrow> string" where
  "coerceReturnValue g valStr e returnType =
     (case returnType of
        NamedType t n \<Rightarrow>
          (let typeName = generateTypeAnnotation g returnType
           in case e of
                TypeCastExpr ct x ty \<Rightarrow> valStr
              | BinaryExpr bt l op r \<Rightarrow>
                  (if contains_char n CHR ''.'' then typeName @ ''('' @ valStr @ '')'' else valStr)
              | _ \<Rightarrow> valStr)
      | _ \<Rightarrow> valStr)"

fun returnValues :: "renderer \<Rightarrow> nat \<Rightarrow> Expression list \<Rightarrow> string list gen" where
  "returnValues R i [] = give []"
| "returnValues R i (v # vs) = do {
     update (\<lambda>g. g\<lparr>currentReturnIndex := int i\<rparr>);
     s \<leftarrow> rendered R v;
     s \<leftarrow> asks (\<lambda>g. if i < length (currentReturnTypes g) then coerceReturnValue g s v (currentReturnTypes g ! i) else s);
     ss \<leftarrow> returnValues R (i + 1) vs;
     give (s # ss) }"

definition generateReturnStmt :: "renderer \<Rightarrow> Expression list \<Rightarrow> unit gen" where
  "generateReturnStmt R vs =
     (if vs = [] then put_line ''return''
      else do {
        ss \<leftarrow> returnValues R 0 vs;
        update (\<lambda>g. g\<lparr>currentReturnIndex := - 1\<rparr>);
        (case replaceGenericZeroExprs ss of (preDecls, values) \<Rightarrow> do {
           each_do put_line preDecls;
           put_line (''return '' @ go_join values '', '') }) })"

section \<open>If\<close>

definition isExprBindingHeader :: "renderer \<Rightarrow> Expression \<Rightarrow> Identifier \<Rightarrow> Identifier option \<Rightarrow> string gen" where
  "isExprBindingHeader R v caseIdent binding = do {
     s \<leftarrow> rendered R v;
     give (''if '' @ (case binding of Some b \<Rightarrow> identValue b | None \<Rightarrow> ''_'') @ '', _isOk := '' @ s @ ''.('' @
       identValue caseIdent @ ''); _isOk {'') }"

text \<open>The init statement of an \<^verbatim>\<open>if\<close> is rendered by a child generator without indentation.\<close>

definition initText :: "renderer \<Rightarrow> Statement \<Rightarrow> string gen" where
  "initText R s = do {
     code \<leftarrow> in_child 0 (\<lambda>c. c\<lparr>indent := 0\<rparr>) (block R (Some (no_token, [s])));
     give (trim_space code) }"

text \<open>The header of an \<^verbatim>\<open>if\<close>; \<open>pad\<close> is the indentation that \<^verbatim>\<open>writeLine\<close> puts before a header in one piece, and
  after the condition where there is an init statement.\<close>

definition ifHeader :: "renderer \<Rightarrow> (string \<Rightarrow> unit gen) \<Rightarrow> Statement \<Rightarrow> Expression \<Rightarrow> unit gen" where
  "ifHeader R ends init c =
     (if init \<noteq> NilStmt then do {
        put_text ''if '';
        initStr \<leftarrow> initText R init;
        put_text initStr;
        put_text ''; '';
        cond \<leftarrow> rendered R c;
        put_text cond;
        ends '' {'' }
      else case c of
        IsExpr t v i (Some b) \<Rightarrow> do { h \<leftarrow> isExprBindingHeader R v i (Some b); ends h }
      | _ \<Rightarrow> do { cond \<leftarrow> rendered R c; ends (''if '' @ cond @ '' {'') })"

definition ifBody :: "renderer \<Rightarrow> BlockStmt option \<Rightarrow> unit gen" where
  "ifBody R b = indented (block R b)"

definition elsePart :: "renderer \<Rightarrow> BlockStmt option \<Rightarrow> unit gen" where
  "elsePart R b = do { put_line ''} else {''; indented (block R b); put_line ''}'' }"

definition put_open_else :: "unit gen" where
  "put_open_else = do { ind \<leftarrow> asks indentStr; put_text (ind @ ''} else '') }"

fun generateIfStmtContinued :: "renderer \<Rightarrow> Statement \<Rightarrow> unit gen" where
  "generateIfStmtContinued R (IfStmt t init c b alt) = do {
     ifHeader R (\<lambda>s. put_text (s @ [CHR 0x0A])) init c;
     ifBody R b;
     (case alt of
        NilStmt \<Rightarrow> put_line ''}''
      | ElseStmt et eb \<Rightarrow> elsePart R eb
      | IfStmt t2 i2 c2 b2 a2 \<Rightarrow> do { put_open_else; generateIfStmtContinued R alt }
      | _ \<Rightarrow> give ()) }"
| "generateIfStmtContinued R _ = give ()"

definition generateIfStmt :: "renderer \<Rightarrow> Statement \<Rightarrow> Expression \<Rightarrow> BlockStmt option \<Rightarrow> Statement \<Rightarrow> unit gen" where
  "generateIfStmt R init c b alt = do {
     ifHeader R put_line init c;
     ifBody R b;
     (case alt of
        NilStmt \<Rightarrow> put_line ''}''
      | ElseStmt et eb \<Rightarrow> elsePart R eb
      | IfStmt t2 i2 c2 b2 a2 \<Rightarrow> do { put_open_else; generateIfStmtContinued R alt }
      | _ \<Rightarrow> give ()) }"

section \<open>Switch and select\<close>

definition generateOtherwise :: "renderer \<Rightarrow> OtherwiseCase option \<Rightarrow> unit gen" where
  "generateOtherwise R ow =
     (case ow of None \<Rightarrow> give ()
      | Some (t, b) \<Rightarrow> do { put_line ''default:''; indented (block R b) })"

definition generateSwitchStmt :: "renderer \<Rightarrow> Expression \<Rightarrow> WhenCase list \<Rightarrow> OtherwiseCase option \<Rightarrow> unit gen" where
  "generateSwitchStmt R e cs ow = do {
     (if e \<noteq> NilExpr then do { s \<leftarrow> rendered R e; put_line (''switch '' @ s @ '' {'') } else put_line ''switch {'');
     indented (do {
       each_do (\<lambda>(t, vs, b). do {
         ss \<leftarrow> each (rendered R) vs;
         put_line (''case '' @ go_join ss '', '' @ '':'');
         indented (block R b) }) cs;
       generateOtherwise R ow });
     put_line ''}'' }"

definition select_comm :: "renderer \<Rightarrow> string list \<Rightarrow> Expression \<Rightarrow> Statement \<Rightarrow> string gen" where
  "select_comm R bindings recv send =
     (case recv of
        ReceiveExpr rt channel \<Rightarrow> do {
          ch \<leftarrow> rendered R channel;
          give (case bindings of
              [] \<Rightarrow> ''case <-'' @ ch @ '':''
            | [a] \<Rightarrow> ''case '' @ a @ '' := <-'' @ ch @ '':''
            | [a, b] \<Rightarrow> ''case '' @ a @ '', '' @ b @ '' := <-'' @ ch @ '':''
            | _ \<Rightarrow> []) }
      | _ \<Rightarrow>
          (case send of
             SendStmt st v channel \<Rightarrow> do {
               ch \<leftarrow> rendered R channel;
               s \<leftarrow> rendered R v;
               give (''case '' @ ch @ '' <- '' @ s @ '':'') }
           | _ \<Rightarrow> give []))"

definition generateSelectStmt :: "renderer \<Rightarrow> SelectCase list \<Rightarrow> OtherwiseCase option \<Rightarrow> unit gen" where
  "generateSelectStmt R cs ow = do {
     put_line ''select {'';
     indented (do {
       each_do (\<lambda>(t, bindings, recv, send, b). do {
         comm \<leftarrow> select_comm R bindings recv send;
         put_line comm;
         indented (block R b) }) cs;
       generateOtherwise R ow });
     put_line ''}'' }"

definition generateTypeSwitchStmt ::
  "renderer \<Rightarrow> Expression \<Rightarrow> Identifier option \<Rightarrow> TypeCase list \<Rightarrow> OtherwiseCase option \<Rightarrow> unit gen" where
  "generateTypeSwitchStmt R e binding cs ow = do {
     s \<leftarrow> rendered R e;
     b \<leftarrow> (case binding of Some i \<Rightarrow> give (identValue i) | None \<Rightarrow> crash []);
     put_line (''switch '' @ b @ '' := '' @ s @ ''.(type) {'');
     indented (do {
       each_do (\<lambda>(t, ty, body). do {
         typeStr \<leftarrow> asks (\<lambda>g. generateTypeAnnotation g ty);
         put_line (''case '' @ typeStr @ '':'');
         indented (block R body) }) cs;
       generateOtherwise R ow });
     put_line ''}'' }"

definition generateSwitch_of :: "renderer \<Rightarrow> Statement \<Rightarrow> unit gen" where
  "generateSwitch_of R sw =
     (case sw of
        SwitchStmt t e cs ow \<Rightarrow> generateSwitchStmt R e cs ow
      | TypeSwitchStmt t e b cs ow \<Rightarrow> generateTypeSwitchStmt R e b cs ow
      | _ \<Rightarrow> give ())"

text \<open>\<^verbatim>\<open>generatePipedSwitchStmt\<close>: the piped expression takes the place of the subject.\<close>

definition generatePipedSwitchStmt :: "renderer \<Rightarrow> Expression \<Rightarrow> Statement \<Rightarrow> unit gen" where
  "generatePipedSwitchStmt R left sw =
     (case sw of
        SwitchStmt t e cs ow \<Rightarrow> generateSwitchStmt R left cs ow
      | TypeSwitchStmt t e b cs ow \<Rightarrow> generateTypeSwitchStmt R left b cs ow
      | _ \<Rightarrow> give ())"

section \<open>Loops\<close>

definition collectionIsIterator :: "Expression \<Rightarrow> generator \<Rightarrow> bool" where
  "collectionIsIterator e g =
     (case typeOf e g of Some (Some ti) \<Rightarrow> tiKind ti = TypeKindFunction | _ \<Rightarrow> False)"

definition name_of :: "Identifier option \<Rightarrow> string gen" where
  "name_of i = (case i of Some n \<Rightarrow> give (identValue n) | None \<Rightarrow> crash [])"

definition generateForRangeStmt ::
  "renderer \<Rightarrow> Identifier option \<Rightarrow> Identifier option \<Rightarrow> Expression \<Rightarrow> BlockStmt option \<Rightarrow> unit gen" where
  "generateForRangeStmt R variable index collection b = do {
     c \<leftarrow> rendered R collection;
     isIterator \<leftarrow> asks (\<lambda>g. isStdlibIter g \<or> collectionIsIterator collection g);
     v \<leftarrow> name_of variable;
     put_line (case index of
         Some i \<Rightarrow>
           (if v = ''_'' then ''for '' @ identValue i @ '' := range '' @ c @ '' {''
            else ''for '' @ identValue i @ '', '' @ v @ '' := range '' @ c @ '' {'')
       | None \<Rightarrow>
           (if isIterator then ''for '' @ v @ '' := range '' @ c @ '' {''
            else ''for _, '' @ v @ '' := range '' @ c @ '' {''));
     indented (block R b);
     put_line ''}'' }"

text \<open>The header of the loop with a step: it runs to the end, or through it.\<close>

definition stepHeader :: "bool \<Rightarrow> string \<Rightarrow> string \<Rightarrow> string \<Rightarrow> string \<Rightarrow> string" where
  "stepHeader through i startVar endVar stepVar =
     ''for '' @ i @ '' := '' @ startVar @ ''; '' @ i @ '' != '' @ endVar @ (if through then ''+'' @ stepVar else []) @
     ''; '' @ i @ '' += '' @ stepVar @ '' {''"

definition generateForNumericStmt ::
  "renderer \<Rightarrow> Identifier option \<Rightarrow> Expression \<Rightarrow> Expression \<Rightarrow> bool \<Rightarrow> BlockStmt option \<Rightarrow> unit gen" where
  "generateForNumericStmt R variable a z through b = do {
     v \<leftarrow> name_of variable;
     low \<leftarrow> rendered R a;
     high \<leftarrow> rendered R z;
     (if \<not> through \<and> low = ''0'' then do {
        put_line (if v = ''_'' then ''for range '' @ high @ '' {'' else ''for '' @ v @ '' := range '' @ high @ '' {'');
        indented (block R b);
        put_line ''}'' }
      else do {
        startVar \<leftarrow> (if v = ''_'' then fresh ''_start'' else give (''_'' @ v @ ''Start''));
        endVar \<leftarrow> (if v = ''_'' then fresh ''_end'' else give (''_'' @ v @ ''End''));
        stepVar \<leftarrow> (if v = ''_'' then fresh ''_step'' else give (''_'' @ v @ ''Step''));
        loopVar \<leftarrow> (if v = ''_'' then fresh ''_i'' else give v);
        put_line ''{'';
        indented (do {
          put_line (startVar @ '', '' @ endVar @ '', '' @ stepVar @ '' := '' @ low @ '', '' @ high @ '', 1'');
          put_line (''if '' @ startVar @ '' > '' @ endVar @ '' {'');
          indented (put_line (stepVar @ '' = -1''));
          put_line ''}'';
          put_line (stepHeader through loopVar startVar endVar stepVar);
          indented (block R b);
          put_line ''}'' });
        put_line ''}'' }) }"

definition generateForConditionStmt :: "renderer \<Rightarrow> Expression \<Rightarrow> BlockStmt option \<Rightarrow> unit gen" where
  "generateForConditionStmt R c b = do {
     cond \<leftarrow> rendered R c;
     put_line (if cond = ''true'' then ''for {'' else ''for '' @ cond @ '' {'');
     indented (block R b);
     put_line ''}'' }"

section \<open>The dispatch\<close>

definition lineDirective :: "Position option \<Rightarrow> unit gen" where
  "lineDirective p = (case p of Some q \<Rightarrow> update (emitLineDirective q) | None \<Rightarrow> crash ())"

text \<open>\<^verbatim>\<open>defer\<close> and \<^verbatim>\<open>go\<close>: a block as a function that is called at once, or a call.\<close>

definition generateDeferred :: "renderer \<Rightarrow> string \<Rightarrow> Expression \<Rightarrow> BlockStmt option \<Rightarrow> unit gen" where
  "generateDeferred R kw call b =
     (case b of
        Some blk \<Rightarrow> do {
          put_line (kw @ '' func() {'');
          indented (block R (Some blk));
          put_line ''}()'' }
      | None \<Rightarrow> do { s \<leftarrow> rendered R call; put_line (kw @ '' '' @ s) })"

definition generateExpressionStmt :: "renderer \<Rightarrow> Expression \<Rightarrow> OnErrClause option \<Rightarrow> unit gen" where
  "generateExpressionStmt R e onerr =
     (case onerr of
        Some clause \<Rightarrow> update (generateOnErrStmt R goTypeName e clause)
      | None \<Rightarrow>
          (case e of
             PipedSwitchExpr t l sw \<Rightarrow> generatePipedSwitchStmt R l sw
           | _ \<Rightarrow> do { s \<leftarrow> rendered R e; put_line s }))"

definition generateStatement :: "renderer \<Rightarrow> Statement \<Rightarrow> unit gen" where
  "generateStatement R s = do {
     lineDirective (StmtPos s);
     (case s of
        VarDeclStmt names ty vs t onerr \<Rightarrow> generateVarDeclStmt R names ty vs onerr
      | AssignStmt targets vs t onerr \<Rightarrow> generateAssignStmt R targets vs t onerr
      | IncDecStmt t v op \<Rightarrow> do { x \<leftarrow> rendered R v; put_line (x @ op) }
      | ReturnStmt t vs \<Rightarrow> generateReturnStmt R vs
      | IfStmt t init c b alt \<Rightarrow> generateIfStmt R init c b alt
      | SwitchStmt t e cs ow \<Rightarrow> generateSwitchStmt R e cs ow
      | SelectStmt t cs ow \<Rightarrow> generateSelectStmt R cs ow
      | TypeSwitchStmt t e b cs ow \<Rightarrow> generateTypeSwitchStmt R e b cs ow
      | ForRangeStmt t v i c b \<Rightarrow> generateForRangeStmt R v i c b
      | ForNumericStmt t v a z through b \<Rightarrow> generateForNumericStmt R v a z through b
      | ForConditionStmt t c b \<Rightarrow> generateForConditionStmt R c b
      | DeferStmt t call b \<Rightarrow> generateDeferred R ''defer'' call b
      | GoStmt t call b \<Rightarrow> generateDeferred R ''go'' call b
      | SendStmt t v c \<Rightarrow> do {
          channel \<leftarrow> rendered R c;
          x \<leftarrow> rendered R v;
          put_line (channel @ '' <- '' @ x) }
      | ContinueStmt t \<Rightarrow> put_line ''continue''
      | BreakStmt t \<Rightarrow> put_line ''break''
      | ExpressionStmt e onerr \<Rightarrow> generateExpressionStmt R e onerr
      | _ \<Rightarrow> give ()) }"

definition generateBlock_of :: "renderer \<Rightarrow> BlockStmt option \<Rightarrow> unit gen" where
  "generateBlock_of R b =
     (case b of None \<Rightarrow> crash () | Some (t, ss) \<Rightarrow> each_do (generateStatement R) ss)"

end
