(* ===== verification/GoKnot.thy ===== *)
theory GoKnot
  imports GoStmt
begin

text \<open>
  The methods that render expressions and statements call each other: the record of these methods, closed
  with a bound on the depth of the calls. A call below the bound crashes.
\<close>

definition stuck_renderer :: renderer where
  "stuck_renderer =
     \<lparr>exprToString = (\<lambda>e. run_state (crash [])),
      generateFieldAccessExpr = (\<lambda>e. run_state (crash [])),
      generateErrorExpr = (\<lambda>e. run_state (crash [])),
      generateBlock = (\<lambda>b g. snd (run_state (crash ()) g)),
      generateSwitch = (\<lambda>s g. snd (run_state (crash ()) g)),
      generatePipedSwitchExpr = (\<lambda>e. run_state (crash [])),
      inferExprReturnType = (\<lambda>e g. inferReturnType g e),
      pipedSwitchReturnType = pipedSwitchReturnType_of\<rparr>"

definition generateFieldAccessExpr_of :: "renderer \<Rightarrow> Expression \<Rightarrow> string gen" where
  "generateFieldAccessExpr_of R e =
     (case e of FieldAccessExpr t ob f \<Rightarrow> generateFieldAccess R ob f | _ \<Rightarrow> crash [])"

definition deeper :: "renderer \<Rightarrow> renderer" where
  "deeper R =
     \<lparr>exprToString = (\<lambda>e. run_state (exprToString_of R e)),
      generateFieldAccessExpr = (\<lambda>e. run_state (generateFieldAccessExpr_of R e)),
      generateErrorExpr = (\<lambda>e. run_state (generateErrorExpr_of R e)),
      generateBlock = (\<lambda>b g. snd (run_state (generateBlock_of R b) g)),
      generateSwitch = (\<lambda>s g. snd (run_state (generateSwitch_of R s) g)),
      generatePipedSwitchExpr = (\<lambda>e. run_state (generatePipedSwitchExpr_of R e)),
      inferExprReturnType = (\<lambda>e g. inferReturnType g e),
      pipedSwitchReturnType = pipedSwitchReturnType_of\<rparr>"

definition renderer_at :: "nat \<Rightarrow> renderer" where
  "renderer_at n = (deeper ^^ n) stuck_renderer"

lemma renderer_at_simps [simp]:
  "renderer_at 0 = stuck_renderer" "renderer_at (Suc n) = deeper (renderer_at n)"
  by (simp_all add: renderer_at_def)

end
