(* ===== verification/GoFrame.thy ===== *)
theory GoFrame
  imports GoKnot ChainSem "HOL-Library.Sublist"
begin

text \<open>
  What the rendering of expressions and statements leaves unchanged in the generator: everything but the
  output, the warnings and imports, which only grow, the counter of temporaries, the variable map and the
  position among the results of a return. One rule per combinator and per operation, collected in
  \<open>gframes\<close> for functions that take and return the generator and in \<open>steadies\<close> for actions.
\<close>

named_theorems gframes
named_theorems steadies

section \<open>The frame\<close>

text \<open>The generator without the parts that rendering may change.\<close>

definition settings :: "generator \<Rightarrow> generator" where
  "settings g = g\<lparr>genOutput := [], autoImports := [], tempCounter := 0, currentReturnIndex := 0, varMap := None,
     warnings := [], panicked := False\<rparr>"

definition gframe :: "generator \<Rightarrow> generator \<Rightarrow> bool" where
  "gframe g h \<longleftrightarrow>
     settings h = settings g \<and> prefix (genOutput g) (genOutput h) \<and> prefix (warnings g) (warnings h) \<and>
     set (autoImports g) \<subseteq> set (autoImports h) \<and> tempCounter g \<le> tempCounter h \<and> (panicked g \<longrightarrow> panicked h)"

lemma gframe_refl [gframes, simp]: "gframe g g"
  by (simp add: gframe_def)

lemma gframe_trans: "gframe g h \<Longrightarrow> gframe h k \<Longrightarrow> gframe g k"
  by (auto simp: gframe_def intro: prefix_order.order_trans)

lemma settings_fields:
  assumes "settings h = settings g"
  shows "indent h = indent g" "placeholderMap h = placeholderMap g" "pkgAliases h = pkgAliases g"
    "funcDefaults h = funcDefaults g" "reservedNames h = reservedNames g" "program h = program g"
    "exprTypes h = exprTypes g" "exprReturnCounts h = exprReturnCounts g" "enumTypes h = enumTypes g"
    "currentReturnTypes h = currentReturnTypes g" "mcpTarget h = mcpTarget g"
  using assms by (cases g; cases h; simp add: settings_def)+

lemma gframe_fields:
  assumes "gframe g h"
  shows "indent h = indent g" "placeholderMap h = placeholderMap g" "facts h = facts g"
proof -
  have "facts (settings k) = facts k" for k :: generator by (simp add: facts_def settings_def)
  then show "facts h = facts g" using assms unfolding gframe_def by metis
qed (use assms settings_fields [of h g] in \<open>simp_all add: gframe_def\<close>)

lemma gframe_updates [gframes]:
  "gframe g h \<Longrightarrow> gframe g (h\<lparr>panicked := True\<rparr>)" "gframe g h \<Longrightarrow> gframe g (h\<lparr>currentReturnIndex := i\<rparr>)"
  "gframe g h \<Longrightarrow> gframe g (h\<lparr>varMap := vm\<rparr>)"
  by (simp_all add: gframe_def settings_def)

lemma gframe_gen_write [gframes]: "gframe g h \<Longrightarrow> gframe g (gen_write s h)"
  by (auto simp: gframe_def settings_def gen_write_def)

lemma gframe_writeLine [gframes]: "gframe g h \<Longrightarrow> gframe g (writeLine s h)"
  by (simp add: writeLine_text gframe_gen_write)

lemma gframe_writeLines [gframes]: "gframe g h \<Longrightarrow> gframe g (fold writeLine ss h)"
  by (simp add: fold_writeLine gframe_gen_write)

lemma gframe_emitLineDirective [gframes]: "gframe g h \<Longrightarrow> gframe g (emitLineDirective p h)"
  by (simp add: emitLineDirective_def gframe_gen_write)

lemma gframe_emitIR [gframes]: "gframe g h \<Longrightarrow> gframe g (emitIR b h)"
  by (cases b) (simp_all add: emitIR_text gframe_gen_write, simp add: emitIR_def)

lemma gframe_addImport [gframes]: "gframe g h \<Longrightarrow> gframe g (addImport p h)"
  by (auto simp: gframe_def settings_def addImport_def)

lemma gframe_gen_warn [gframes]: "gframe g h \<Longrightarrow> gframe g (gen_warn p m h)"
  by (auto simp: gframe_def settings_def gen_warn_def)

lemma gframe_warnUnknown [gframes]: "gframe g h \<Longrightarrow> gframe g (warnUnknown e h)"
  by (simp add: warnUnknown_def gframe_gen_warn)

lemma gframe_recordVar [gframes]: "gframe g h \<Longrightarrow> gframe g (recordVar x e h)"
  by (auto simp: recordVar_def Let_def intro: gframe_updates split: option.splits)

lemma gframe_uniqueId [gframes]: "gframe g h \<Longrightarrow> gframe g (snd (uniqueId pre h))"
  by (rule uniqueId_spec [of pre h]) (auto simp: gframe_def settings_def)

lemma gframe_ifs:
  "gframe g h \<Longrightarrow> gframe g k \<Longrightarrow> gframe g (if c then h else k)"
  "gframe g (snd a) \<Longrightarrow> gframe g (snd b) \<Longrightarrow> gframe g (snd (if c then a else b))"
  by simp_all

text \<open>Restoring what was changed for a nested rendering.\<close>

lemma gframe_captured:
  "gframe (g\<lparr>genOutput := [], indent := i, currentOnErrVar := v, currentOnErrAlias := a\<rparr>) h \<Longrightarrow>
   gframe g (h\<lparr>genOutput := genOutput g, indent := indent g, currentOnErrVar := currentOnErrVar g,
     currentOnErrAlias := currentOnErrAlias g\<rparr>)"
  by (cases g; cases h) (simp add: gframe_def settings_def)

lemma gframe_captured_output:
  "gframe (g\<lparr>genOutput := [], indent := i\<rparr>) h \<Longrightarrow> gframe g (h\<lparr>genOutput := genOutput g, indent := indent g\<rparr>)"
  by (cases g; cases h) (simp add: gframe_def settings_def)

lemma gframe_indent: "gframe (g\<lparr>indent := i\<rparr>) h \<Longrightarrow> gframe g (h\<lparr>indent := indent g\<rparr>)"
  by (cases g; cases h) (simp add: gframe_def settings_def)

lemma gframe_indent_back:
  "gframe g0 g \<Longrightarrow> gframe (g\<lparr>indent := indent g + 1\<rparr>) h \<Longrightarrow> gframe g0 (h\<lparr>indent := indent h - 1\<rparr>)"
proof -
  assume g: "gframe g0 g" and h: "gframe (g\<lparr>indent := indent g + 1\<rparr>) h"
  have "indent h - 1 = indent g" using gframe_fields(1) [OF h] by simp
  then show ?thesis using gframe_indent [OF h] gframe_trans [OF g] by simp
qed

section \<open>Lowering keeps the frame\<close>

locale steady_rendering =
  fixes R :: renderer
  assumes exprToString: "gframe g (snd (exprToString R e g))"
    and generateFieldAccessExpr: "gframe g (snd (generateFieldAccessExpr R e g))"
    and generateErrorExpr: "gframe g (snd (generateErrorExpr R e g))"
    and generateBlock: "gframe g (generateBlock R b g)"
    and generateSwitch: "gframe g (generateSwitch R s g)"
    and generatePipedSwitchExpr: "gframe g (snd (generatePipedSwitchExpr R e g))"
begin

lemma fields [gframes]:
  "gframe g h \<Longrightarrow> gframe g (snd (exprToString R e h))"
  "gframe g h \<Longrightarrow> gframe g (snd (generateFieldAccessExpr R e h))"
  "gframe g h \<Longrightarrow> gframe g (snd (generateErrorExpr R e h))"
  "gframe g h \<Longrightarrow> gframe g (generateBlock R b h)"
  "gframe g h \<Longrightarrow> gframe g (generateSwitch R s h)"
  "gframe g h \<Longrightarrow> gframe g (snd (generatePipedSwitchExpr R e h))"
  using exprToString generateFieldAccessExpr generateErrorExpr generateBlock generateSwitch
    generatePipedSwitchExpr gframe_trans by blast+

lemma gframe_exprStrings [gframes]: "gframe g h \<Longrightarrow> gframe g (snd (exprStrings R es h))"
  by (induction es arbitrary: h) (auto simp: split_beta Let_def intro: gframes)

lemma gframe_fill [gframes]: "gframe g h \<Longrightarrow> gframe g (snd (fill_placeholder R l es h))"
  by (induction es arbitrary: h) (auto simp: split_beta Let_def intro: gframes)

lemma gframe_buildPipeArgs [gframes]: "gframe g h \<Longrightarrow> gframe g (snd (buildPipeArgs R l es h))"
  by (auto simp: buildPipeArgs_def split_beta Let_def intro: gframes)

lemma gframe_stepCall [gframes]: "gframe g h \<Longrightarrow> gframe g (snd (generatePipedStepCall R T e cur h))"
  by (cases e) (auto simp: generatePipedStepCall_def split_beta Let_def intro!: gframes)

lemma gframe_errorValueExpr [gframes]: "gframe g h \<Longrightarrow> gframe g (snd (errorValueExpr R e v h))"
  by (cases e) (auto simp: errorValueExpr_def split_beta Let_def intro!: gframes)

lemma gframe_handlerValues [gframes]: "gframe g h \<Longrightarrow> gframe g (snd (handlerValues R v es h))"
proof (induction es arbitrary: h)
  case (Cons e es)
  then show ?case by (cases e) (simp_all add: split_beta Let_def gframes)
qed simp

lemma gframe_handler [gframes]: "gframe g h \<Longrightarrow> gframe g (generateOnErrHandler R names e v h)"
  by (cases e) (simp_all add: generateOnErrHandler_def split_beta Let_def gframes)

lemma gframe_renderHandler [gframes]: "gframe g h \<Longrightarrow> gframe g (snd (renderHandler R clause names v h))"
  by (cases clause) (auto simp: renderHandler_def Let_def intro!: gframes gframe_captured elim: gframe_trans)

lemma gframe_lowerOnErrHandler [gframes]:
  "gframe g h \<Longrightarrow> gframe g (snd (lowerOnErrHandler R clause names v h))"
  by (cases clause) (auto simp: lowerOnErrHandler_def split_beta Let_def intro!: gframes)

lemma gframe_lowerOnErr [gframes]: "gframe g h \<Longrightarrow> gframe g (snd (lowerOnErr R s clause names w h))"
  by (auto simp: lowerOnErr_def split_beta Let_def intro!: gframes)

lemma gframe_lowerOnErrStmt [gframes]: "gframe g h \<Longrightarrow> gframe g (snd (lowerOnErrStmt R s e clause h))"
  by (auto simp: lowerOnErrStmt_def split_beta Let_def intro!: gframes)

lemma gframe_lowerOnErrWithExplicitErr [gframes]:
  "gframe g h \<Longrightarrow> gframe g (snd (lowerOnErrWithExplicitErr R names s clause w h))"
  by (auto simp: lowerOnErrWithExplicitErr_def split_beta Let_def intro!: gframes)

text \<open>A check of a chain is steady if it keeps the frame.\<close>

definition steady_check :: "checker \<Rightarrow> bool" where
  "steady_check chk \<longleftrightarrow> (\<forall>g h names v. gframe g h \<longrightarrow> gframe g (snd (chk names v h)))"

lemma steady_checks [simp]: "steady_check (handlerCheck R clause)" "steady_check (gotoCheck l v)"
  by (auto simp: steady_check_def handlerCheck_def gotoCheck_def split_beta Let_def intro!: gframes)

lemma steady_checkD: "steady_check chk \<Longrightarrow> gframe g h \<Longrightarrow> gframe g (snd (chk names v h))"
  by (simp add: steady_check_def)

lemma gframe_chainSteps [gframes]:
  assumes chk: "steady_check chk"
  shows "gframe g h \<Longrightarrow> gframe g (snd (chainSteps R T chk names target k i n steps cur b h))"
proof (induction steps arbitrary: i n cur b h target names k)
  case (Cons s steps)
  note check = steady_checkD [OF chk]
  show ?case
    by (auto simp: split_beta Let_def intro!: Cons gframes check split: option.splits)
qed simp

lemma gframe_chainBase:
  assumes chk: "steady_check chk" and "gframe g h"
  shows "gframe g (snd (snd (snd (chainBase R chk names target to base h))))"
  using assms(2) by (auto simp: chainBase_def split_beta Let_def intro!: gframes steady_checkD [OF chk])

lemma gframe_lowerOnErrPipeChain [gframes]:
  "gframe g h \<Longrightarrow> gframe g (snd (lowerOnErrPipeChain R T pipe clause names target h))"
  by (auto simp: lowerOnErrPipeChain_def split_beta Let_def intro!: gframe_chainSteps gframe_chainBase
      split: option.splits)

lemma gframe_lowerOnErrPipeChainWithLabels [gframes]:
  "gframe g h \<Longrightarrow> gframe g (snd (lowerOnErrPipeChainWithLabels R T pipe l v h))"
  by (auto simp: lowerOnErrPipeChainWithLabels_def split_beta Let_def intro!: gframe_chainSteps gframe_chainBase
      split: option.splits)

lemma gframe_pipedSwitchValue [gframes]: "gframe g h \<Longrightarrow> gframe g (snd (pipedSwitchValue R T left l v h))"
  by (cases left) (auto simp: pipedSwitchValue_def split_beta Let_def intro!: gframes)

lemma gframe_extractDefaultValue [gframes]: "gframe g h \<Longrightarrow> gframe g (snd (extractDefaultValue R clause h))"
  by (cases clause; cases "fst (snd clause)") (simp_all add: extractDefaultValue_def fields)

lemma gframe_renderSwitchStmt [gframes]: "gframe g h \<Longrightarrow> gframe g (snd (renderSwitchStmt R sw v h))"
  by (cases sw) (auto simp: renderSwitchStmt_def Let_def intro!: gframes gframe_captured_output elim: gframe_trans)

lemma gframe_switch_retyped:
  assumes "gframe g h"
  shows "gframe g (snd (generatePipedSwitchExpr R e (retype old new (h\<lparr>indent := indent h + 1\<rparr>)))
     \<lparr>indent := indent h, exprTypes := exprTypes h\<rparr>)"
proof -
  have "gframe h (k\<lparr>indent := indent h, exprTypes := exprTypes h\<rparr>)"
    if "gframe (h\<lparr>indent := i, exprTypes := m\<rparr>) k" for i m k
    using that by (cases h; cases k) (simp add: gframe_def settings_def)
  from this [OF generatePipedSwitchExpr] show ?thesis
    unfolding retype_def by (auto intro: gframe_trans [OF assms])
qed

lemma gframe_lowerPipedSwitchVarDecl [gframes]:
  "gframe g h \<Longrightarrow> gframe g (snd (lowerPipedSwitchVarDecl R T x t left sw clause names h))"
  by (simp add: lowerPipedSwitchVarDecl_def split_beta Let_def gframes gframe_ifs gframe_switch_retyped
      split: option.split split del: if_split)

lemma gframe_lowerPipedSwitchStmt [gframes]:
  "gframe g h \<Longrightarrow> gframe g (snd (lowerPipedSwitchStmt R T left sw clause h))"
  by (auto simp: lowerPipedSwitchStmt_def split_beta Let_def intro!: gframes split: option.splits)

lemma gframe_generateOnErrPipeChain [gframes]:
  "gframe g h \<Longrightarrow> gframe g (snd (generateOnErrPipeChain R T pipe clause names target h))"
  using gframe_lowerOnErrPipeChain [of g h T pipe clause names target]
  by (auto simp: generateOnErrPipeChain_def intro!: gframe_emitIR split: prod.splits option.splits)

lemma gframe_emitOnErrDiscard:
  "gframe g h \<Longrightarrow> emitOnErrDiscard R clause lhs op v multi e h = Some k \<Longrightarrow> gframe g k"
  by (auto simp: emitOnErrDiscard_def split_beta Let_def intro!: gframes split: if_splits option.splits)

lemma gframe_generateOnErrValue [gframes]:
  "gframe g h \<Longrightarrow> gframe g (generateOnErrValue R lhs k v clause w h)"
  by (auto simp: generateOnErrValue_def split_beta Let_def intro!: gframe_emitIR gframe_lowerOnErr
      gframe_lowerOnErrWithExplicitErr intro: gframe_emitOnErrDiscard split: option.splits)

text \<open>The statements, as far as they go through the lowering.\<close>

lemma gframe_OnErrVarDecl_pipe:
  assumes "gframe g h"
  shows "gframe g (case generateOnErrPipeChain R T e clause names x h of
      (Some v, k) \<Rightarrow> if v \<noteq> y then writeLine (f v) k else k
    | (None, k) \<Rightarrow> generateOnErrValue R lhs n vs clause w k)"
  using gframe_generateOnErrPipeChain [OF assms, of T e clause names x]
  by (auto intro: gframe_writeLine gframe_generateOnErrValue split: prod.splits option.splits)

lemma gframe_OnErrVarDecl_switch:
  assumes "gframe g h"
  shows "gframe g (case lowerPipedSwitchVarDecl R T x t left sw clause names h of
      (Some code, k) \<Rightarrow> emitIR (Some code) k | (None, k) \<Rightarrow> generateOnErrValue R lhs n vs clause w k)"
  using gframe_lowerPipedSwitchVarDecl [OF assms, of T x t left sw clause names]
  by (auto intro: gframe_emitIR gframe_generateOnErrValue split: prod.splits option.splits)

lemma gframe_generateOnErrVarDecl [gframes]:
  "gframe g h \<Longrightarrow> gframe g (generateOnErrVarDecl R T names vs clause h)"
  by (cases "vs ! 0") (simp_all add: generateOnErrVarDecl_def split_beta Let_def gframes
      gframe_OnErrVarDecl_pipe [unfolded split_beta] gframe_OnErrVarDecl_switch [unfolded split_beta])

definition single_onerr :: "(Expression \<Rightarrow> string) \<Rightarrow> Expression \<Rightarrow> OnErrClause \<Rightarrow> generator \<Rightarrow> generator" where
  "single_onerr T e clause g =
     (case emitOnErrDiscard R clause None [] [] False e g of
        Some g1 \<Rightarrow> g1
      | None \<Rightarrow>
          (let (s, g1) = exprToString R e g; (code, g2) = lowerOnErrStmt R s e clause g1
           in emitIR (Some code) g2))"

lemma gframe_single_onerr: "gframe g h \<Longrightarrow> gframe g (single_onerr T e clause h)"
  by (auto simp: single_onerr_def split_beta Let_def intro!: gframe_emitIR gframe_lowerOnErrStmt fields
      intro: gframe_emitOnErrDiscard split: option.splits)

lemma gframe_generateOnErrStmt [gframes]: "gframe g h \<Longrightarrow> gframe g (generateOnErrStmt R T e clause h)"
proof -
  assume h: "gframe g h"
  note chain = gframe_generateOnErrPipeChain [OF h, of T e clause "[]" "[]"]
  note switch = gframe_lowerPipedSwitchStmt [OF h]
  have eq: "generateOnErrStmt R T e clause h =
      (case e of
         PipeExpr t l r m \<Rightarrow>
           (case generateOnErrPipeChain R T e clause [] [] h of
              (Some v, k) \<Rightarrow> writeLine (''_ = '' @ v) k | (None, k) \<Rightarrow> single_onerr T e clause k)
       | PipedSwitchExpr t left sw \<Rightarrow>
           (case lowerPipedSwitchStmt R T left sw clause h of
              (Some code, k) \<Rightarrow> emitIR (Some code) k | (None, k) \<Rightarrow> k)
       | _ \<Rightarrow> single_onerr T e clause h)"
    by (simp only: generateOnErrStmt_def single_onerr_def Let_def)
  show ?thesis
  proof (cases e)
    case (PipeExpr t l r m)
    then show ?thesis using chain
      by (subst eq) (auto intro: gframe_writeLine gframe_single_onerr split: prod.splits option.splits)
  next
    case (PipedSwitchExpr t l sw)
    then show ?thesis using switch [of T l sw clause]
      by (subst eq) (auto intro: gframe_emitIR split: prod.splits option.splits)
  qed (subst eq, simp add: gframe_single_onerr h)+
qed

lemma gframe_plain_assign:
  "gframe g h \<Longrightarrow>
   gframe g (let (lhs, k) = exprStrings R targets h in generateOnErrValue R lhs n v clause False k)"
  by (simp add: split_beta Let_def gframes)

lemma gframe_generateOnErrAssign [gframes]:
  "gframe g h \<Longrightarrow> gframe g (generateOnErrAssign R T targets vs clause h)"
proof -
  assume h: "gframe g h"
  define h1 where "h1 = snd (exprStrings R vs h)"
  have h1: "gframe g h1" using h by (simp add: h1_def gframes)
  note gframe_generateOnErrPipeChain [OF h1, of T "vs ! 0" clause "ident_names targets" "[]"]
  then show ?thesis using gframe_plain_assign h1
    by (auto simp: generateOnErrAssign_def split_beta Let_def h1_def intro!: gframe_writeLine fields
        gframe_generateOnErrValue gframe_exprStrings split: option.splits)
qed

end

end
