(* ===== verification/GoSteady.thy ===== *)
theory GoSteady
  imports GoFrame
begin

text \<open>
  The actions of code generation keep the frame: one rule per combinator, one lemma per method. The
  renderer that the methods are closed with is steady at every depth.
\<close>

section \<open>Actions\<close>

definition steady :: "'a gen \<Rightarrow> bool" where
  "steady m \<longleftrightarrow> (\<forall>g. gframe g (snd (run_state m g)))"

lemma steady_gframe [gframes]: "steady m \<Longrightarrow> gframe g h \<Longrightarrow> gframe g (snd (run_state m h))"
  using gframe_trans by (auto simp: steady_def)

lemma steady_give [steadies]: "steady (give x)"
  by (simp add: steady_def State_Monad.return_def)

lemma steady_bind [steadies]: "steady m \<Longrightarrow> (\<And>x. steady (f x)) \<Longrightarrow> steady (State_Monad.bind m f)"
  by (auto simp: steady_def State_Monad.bind_def split_beta intro: gframe_trans)

lemma steady_asks [steadies]: "steady (asks f)"
  by (simp add: steady_def asks_def)

lemma steady_crash [steadies]: "steady (crash x)"
  by (auto simp: steady_def crash_def intro: gframes)

lemma steady_update: "(\<And>g. gframe g (f g)) \<Longrightarrow> steady (update f)"
  by (simp add: steady_def update_def)

lemma steady_via: "(\<And>g. gframe g (snd (f g))) \<Longrightarrow> steady (via f)"
  by (simp add: steady_def via_def)

lemma steady_puts [steadies]: "steady (put_line s)" "steady (put_text s)" "steady (use_import p)" "steady (fresh p)"
  by (auto simp: put_line_def put_text_def use_import_def fresh_def intro!: steady_update steady_via gframes)

lemma steady_updates [steadies]:
  "steady (update (\<lambda>g. g\<lparr>currentReturnIndex := i\<rparr>))" "steady (update (gen_warn p m))"
  "steady (update (emitLineDirective q))"
  by (auto intro!: steady_update gframes)

lemma steady_if [steadies]: "(c \<Longrightarrow> steady a) \<Longrightarrow> (\<not> c \<Longrightarrow> steady b) \<Longrightarrow> steady (if c then a else b)"
  by simp

lemma steady_case_option [steadies]:
  "steady a \<Longrightarrow> (\<And>y. x = Some y \<Longrightarrow> steady (f y)) \<Longrightarrow> steady (case x of None \<Rightarrow> a | Some y \<Rightarrow> f y)"
  by (cases x) simp_all

lemma steady_case_list [steadies]:
  "steady a \<Longrightarrow> (\<And>y ys. steady (f y ys)) \<Longrightarrow> steady (case x of [] \<Rightarrow> a | y # ys \<Rightarrow> f y ys)"
  by (cases x) simp_all

lemma steady_case_prod [steadies]: "(\<And>a b. steady (f a b)) \<Longrightarrow> steady (case x of (a, b) \<Rightarrow> f a b)"
  by (cases x) simp

lemma steady_each [steadies]: "(\<And>x. steady (f x)) \<Longrightarrow> steady (each f xs)"
  by (induction xs) (auto intro!: steadies)

lemma steady_each_do [steadies]: "(\<And>x. steady (f x)) \<Longrightarrow> steady (each_do f xs)"
  by (induction xs) (auto intro!: steadies)

lemma steady_indented [steadies]:
  assumes "steady m"
  shows "steady (indented m)"
proof -
  have "gframe g (snd (run_state (indented m) g))" for g
  proof -
    have "gframe (g\<lparr>indent := indent g + 1\<rparr>) (snd (run_state m (g\<lparr>indent := indent g + 1\<rparr>)))"
      using assms by (simp add: steady_def)
    from gframe_indent_back [OF gframe_refl this] show ?thesis
      by (simp add: indented_def update_def State_Monad.bind_def split_beta)
  qed
  then show ?thesis by (simp add: steady_def)
qed

text \<open>A child generator that is steady: only the imports and the crash flag reach its parent.\<close>

lemma steady_in_child:
  assumes "steady m" and prepare: "\<And>c. autoImports (prepare c) = autoImports c \<and> panicked (prepare c) = panicked c"
  shows "steady (in_child k prepare m)"
proof -
  have "gframe g (snd (run_state (in_child k prepare m) g))" for g
  proof -
    let ?c = "prepare (childGenerator k g)"
    have "gframe ?c (snd (run_state m ?c))" using assms(1) by (simp add: steady_def)
    then have "set (autoImports g) \<subseteq> set (autoImports (snd (run_state m ?c)))"
      "panicked g \<longrightarrow> panicked (snd (run_state m ?c))"
      using prepare [of "childGenerator k g"] by (auto simp: gframe_def childGenerator_def)
    then show ?thesis by (simp add: in_child_def Let_def gframe_def settings_def)
  qed
  then show ?thesis by (simp add: steady_def)
qed

lemma steady_name_of [steadies]: "steady (name_of i)"
  by (auto simp: name_of_def intro!: steadies)

lemma steady_lineDirective [steadies]: "steady (lineDirective p)"
  by (auto simp: lineDirective_def intro!: steadies)

lemma steady_identifierText [steadies]: "steady (identifierText e name)"
  by (auto simp: identifierText_def intro!: steadies)

lemma steady_generateTypeParameters [steadies]: "steady (generateTypeParameters tps)"
  by (auto simp: generateTypeParameters_def intro!: steadies)

lemma steady_generateSepOnlyString [steadies]: "steady (generateSepOnlyString v)"
  by (auto simp: generateSepOnlyString_def intro!: steadies)

section \<open>Expressions\<close>

context steady_rendering
begin

lemma steady_rendered [steadies]: "steady (rendered R e)"
  by (auto simp: rendered_def intro!: steady_via gframes)

lemma steady_block [steadies]: "steady (block R b)"
  by (auto simp: block_def intro!: steady_update gframes)

lemma steady_string_part [steadies]: "steady (string_part R p)"
  by (auto simp: string_part_def intro!: steadies)

lemma steady_parts [steadies]: "steady (parseStringPartsOrInterpolation R ps)"
  by (auto simp: parseStringPartsOrInterpolation_def intro!: steadies)

lemma steady_generateStringLiteral [steadies]: "steady (generateStringLiteral R v i r ps)"
  by (auto simp: generateStringLiteral_def generateStringFromParts_def intro!: steadies)

lemma steady_generateErrorExpr [steadies]: "steady (generateErrorExpr_of R e)"
  by (cases e) (auto simp: generateErrorExpr_of_def intro!: steadies)

lemma steady_operators [steadies]:
  "steady (generateBinaryExpr R l op r)" "steady (generateIsExpr R e c)" "steady (generateUnaryExpr R op r)"
  "steady (generateAddressOfExpr R e)" "steady (generateDerefExpr R e)"
  by (auto simp: generateBinaryExpr_def generateIsExpr_def generateUnaryExpr_def generateAddressOfExpr_def
      generateDerefExpr_def intro!: steadies)

lemma steady_indexText [steadies]: "steady (indexText R left i)"
  by (auto simp: indexText_def intro!: steadies)

lemma steady_indexing [steadies]: "steady (generateIndexExpr R l i)" "steady (generateSliceExpr R l a b)"
  by (auto simp: generateIndexExpr_def generateSliceExpr_def intro!: steadies)

lemma steady_piped_value [steadies]: "steady (piped_value R l)"
  by (auto simp: piped_value_def intro!: steadies)

lemma steady_pipe_call [steadies]: "steady (pipe_call R left fn node as v)"
  by (auto simp: pipe_call_def intro!: steadies steady_via gframes)

lemma steady_generatePipeExpr [steadies]: "steady (generatePipeExpr R l r)"
  by (cases r) (auto simp: generatePipeExpr_def intro!: steadies)

lemma steady_ordered_arguments [steadies]: "steady (ordered_arguments R ns v as ps)"
proof (induction ps arbitrary: as)
  case (Cons p ps)
  show ?case by (cases p; cases as) (auto intro!: steadies Cons.IH)
qed (simp add: steadies)

lemma steady_generateCallExpr [steadies]: "steady (generateCallExpr R f as ns v)"
  by (auto simp: generateCallExpr_def Let_def intro!: steadies)

lemma steady_method_call [steadies]: "steady (method_call R node ob m as ns v)"
  by (auto simp: method_call_def intro!: steadies)

lemma steady_generateMethodCallExpr [steadies]: "steady (generateMethodCallExpr R node ob m as ns v)"
proof (cases as)
  case (Cons a bs)
  then show ?thesis by (cases a) (auto simp: generateMethodCallExpr_def intro!: steadies)
qed (auto simp: generateMethodCallExpr_def intro!: steadies)

lemma steady_generateFieldAccess [steadies]: "steady (generateFieldAccess R ob f)"
  by (auto simp: generateFieldAccess_def intro!: steadies)

lemma steady_entries [steadies]: "steady (key_value R kv)" "steady (field_entry R kv)"
  by (auto simp: key_value_def field_entry_def intro!: steadies split: Expression.splits)

lemma steady_literals [steadies]:
  "steady (generateStructLiteral R ty fs)" "steady (generateListLiteral R ty es)"
  "steady (generateMapLiteral R kt vt ps)" "steady (generateMakeExpr R ty es)" "steady (generateReturnExpr R es)"
  "steady (generateInlineOnErrExpr R node e d)"
  by (auto simp: generateStructLiteral_def generateListLiteral_def generateMapLiteral_def generateMakeExpr_def
      generateReturnExpr_def generateInlineOnErrExpr_def Let_def comp_def intro!: steadies)

lemma steady_generateUntypedCompositeLiteral [steadies]: "steady (generateUntypedCompositeLiteral R k es ty)"
  by (cases ty) (auto simp: generateUntypedCompositeLiteral_def generateResolvedCompositeLiteral_def
      comp_def intro!: steadies)

lemma steady_buildIfExprElseChain [steadies]: "steady (buildIfExprElseChain R e c t)"
proof (induction S \<equiv> R e c t rule: buildIfExprElseChain.induct)
  case (1 t c a b cond thenVal)
  then show ?case
    by (subst buildIfExprElseChain.simps, cases b)
      (auto intro!: steadies simp del: buildIfExprElseChain.simps)
qed (auto intro: steadies)

lemma steady_generateIfExpression [steadies]: "steady (generateIfExpression R node c a b)"
  by (auto simp: generateIfExpression_def intro!: steadies)

lemma steady_generatePipedSwitchExpr [steadies]: "steady (generatePipedSwitchExpr_of R e)"
  by (cases e) (auto simp: generatePipedSwitchExpr_of_def intro!: steadies steady_in_child steady_update gframes)

lemma steady_child_body [steadies]: "steady (child_body R b)"
  by (auto simp: child_body_def intro!: steady_in_child steady_update gframes)

lemma steady_generateArrowLambda [steadies]: "steady (generateArrowLambda R node ps e b)"
  by (auto simp: generateArrowLambda_def intro!: steadies)

lemma steady_generateTypeCast [steadies]: "steady (generateTypeCast R e ty)"
  by (auto simp: generateTypeCast_def Let_def intro!: steadies)

text \<open>A function literal sets the placeholders and restores them.\<close>

lemma gframe_placeholders:
  "gframe (g\<lparr>placeholderMap := m\<rparr>) h \<Longrightarrow> gframe g (h\<lparr>placeholderMap := placeholderMap g\<rparr>)"
  by (cases g; cases h) (simp add: gframe_def settings_def)

lemma steady_generateFunctionLiteral [steadies]: "steady (generateFunctionLiteral R ps rs b)"
proof -
  define inner where "inner = (\<lambda>tps. do {
     s \<leftarrow> generateTypeParameters tps;
     p \<leftarrow> asks (\<lambda>g. generateFunctionParameters g ps);
     r \<leftarrow> asks (\<lambda>g. generateReturnTypes g rs);
     code \<leftarrow> (case b of Some b \<Rightarrow> child_body R b | None \<Rightarrow> give []);
     ind \<leftarrow> asks indent;
     give (''func'' @ s @ ''('' @ p @ '')'' @ (if r \<noteq> [] then '' '' @ r else []) @ '' {'' @ [CHR 0x0A] @ code @
       tabs ind @ ''}'') })"
  have inner: "steady (inner tps)" for tps
    by (auto simp: inner_def intro!: steadies)
  have "gframe g (snd (run_state (generateFunctionLiteral R ps rs b) g))" for g
  proof -
    let ?tps = "if isStdlibIter g then inferStdlibTypeParameters ps rs g else []"
    let ?h = "g\<lparr>placeholderMap := Some (add_placeholders ?tps (case placeholderMap g of None \<Rightarrow> [] | Some m \<Rightarrow> m))\<rparr>"
    have "snd (run_state (generateFunctionLiteral R ps rs b) g) =
        snd (run_state (inner ?tps) ?h)\<lparr>placeholderMap := placeholderMap g\<rparr>"
      by (simp add: generateFunctionLiteral_def inner_def State_Monad.bind_def asks_def update_def
          State_Monad.return_def split_beta Let_def)
    moreover have "gframe ?h (snd (run_state (inner ?tps) ?h))"
      using inner by (simp only: steady_def)
    ultimately show ?thesis by (simp only: gframe_placeholders)
  qed
  then show ?thesis by (simp add: steady_def)
qed

lemma steady_exprToString [steadies]: "steady (exprToString_of R e)"
proof (cases e)
  case (ErrorExpr t m)
  then show ?thesis by (cases m) (auto simp: exprToString_of_def intro!: steadies)
qed (auto simp: exprToString_of_def intro!: steadies)

lemma steady_generateFieldAccessExpr [steadies]: "steady (generateFieldAccessExpr_of R e)"
  by (cases e) (auto simp: generateFieldAccessExpr_of_def intro!: steadies)

section \<open>Statements\<close>

lemma steady_value_texts [steadies]: "steady (value_texts R k vs)"
proof -
  have "steady (case v of
      TypeCastExpr t x ty \<Rightarrow>
        (if k = 2 \<and> length vs = 1 then do {
           targetType \<leftarrow> asks (\<lambda>g. generateTypeAnnotation g ty);
           s \<leftarrow> rendered R x;
           give (s @ ''.('' @ targetType @ '')'') }
         else rendered R v)
    | _ \<Rightarrow> rendered R v)" for v
    by (cases v) (auto intro!: steadies)
  then show ?thesis unfolding value_texts_def by (intro steadies)
qed

lemma steady_onerr [steadies]:
  "steady (update (generateOnErrVarDecl R T names vs clause))"
  "steady (update (generateOnErrAssign R T es vs clause))"
  "steady (update (generateOnErrStmt R T e clause))"
  by (auto intro!: steady_update gframes)

lemma steady_assignments [steadies]:
  "steady (generateVarDeclStmt R names ty vs onerr)" "steady (generateAssignStmt R es vs t onerr)"
  by (auto simp: generateVarDeclStmt_def generateAssignStmt_def intro!: steadies)

lemma steady_returnValues [steadies]: "steady (returnValues R i vs)"
  by (induction vs arbitrary: i) (auto intro!: steadies)

lemma steady_generateReturnStmt [steadies]: "steady (generateReturnStmt R vs)"
  by (auto simp: generateReturnStmt_def intro!: steadies)

lemma steady_initText [steadies]: "steady (initText R s)"
  by (auto simp: initText_def intro!: steadies steady_in_child)

lemma steady_ifHeader:
  assumes "\<And>s. steady (ends s)"
  shows "steady (ifHeader R ends init c)"
  by (cases c) (auto simp: ifHeader_def isExprBindingHeader_def intro!: steadies assms)

lemma steady_ifParts [steadies]:
  "steady (ifHeader R put_line init c)" "steady (ifHeader R (\<lambda>s. put_text (s @ x)) init c)"
  "steady (ifBody R b)" "steady (elsePart R b)" "steady put_open_else"
  by (auto simp: ifBody_def elsePart_def put_open_else_def intro!: steadies steady_ifHeader)

lemma steady_generateIfStmtContinued [steadies]: "steady (generateIfStmtContinued R s)"
proof (induction S \<equiv> R s rule: generateIfStmtContinued.induct)
  case (1 t init c b alt)
  then show ?case
    by (subst generateIfStmtContinued.simps, cases alt)
      (auto intro!: steadies simp del: generateIfStmtContinued.simps)
qed (auto intro: steadies)

lemma steady_generateIfStmt [steadies]: "steady (generateIfStmt R init c b alt)"
  by (cases alt) (auto simp: generateIfStmt_def simp del: generateIfStmtContinued.simps intro!: steadies)

lemma steady_generateOtherwise [steadies]: "steady (generateOtherwise R ow)"
  by (auto simp: generateOtherwise_def intro!: steadies)

lemma steady_select_comm [steadies]: "steady (select_comm R bs recv send)"
  by (cases recv; cases send) (auto simp: select_comm_def intro!: steadies)

lemma steady_switches [steadies]:
  "steady (generateSwitchStmt R e cs ow)" "steady (generateSelectStmt R scs ow)"
  "steady (generateTypeSwitchStmt R e binding tcs ow)"
  by (auto simp: generateSwitchStmt_def generateSelectStmt_def generateTypeSwitchStmt_def intro!: steadies)

lemma steady_generateSwitch [steadies]: "steady (generateSwitch_of R sw)" "steady (generatePipedSwitchStmt R l sw)"
  by (cases sw; auto simp: generateSwitch_of_def generatePipedSwitchStmt_def intro!: steadies)+

lemma steady_loops [steadies]:
  "steady (generateForRangeStmt R v i c b)" "steady (generateForNumericStmt R v a z through b)"
  "steady (generateForConditionStmt R c b)" "steady (generateDeferred R kw c b)"
  by (auto simp: generateForRangeStmt_def generateForNumericStmt_def generateForConditionStmt_def
      generateDeferred_def intro!: steadies)

lemma steady_generateExpressionStmt [steadies]: "steady (generateExpressionStmt R e onerr)"
  by (cases e) (auto simp: generateExpressionStmt_def intro!: steadies)

lemma steady_generateStatement [steadies]: "steady (generateStatement R s)"
  by (cases s) (auto simp: generateStatement_def intro!: steadies)

lemma steady_generateBlock [steadies]: "steady (generateBlock_of R b)"
  by (auto simp: generateBlock_of_def intro!: steadies)

lemma deeper: "steady_rendering (deeper R)"
  using steady_exprToString steady_generateFieldAccessExpr steady_generateErrorExpr steady_generateBlock
    steady_generateSwitch(1) steady_generatePipedSwitchExpr
  by unfold_locales (simp_all add: deeper_def steady_def)

end

section \<open>The renderer\<close>

interpretation stuck: steady_rendering stuck_renderer
  by unfold_locales (auto simp: stuck_renderer_def crash_def intro: gframes)

interpretation generated: steady_rendering "renderer_at n" for n
proof (induction n)
  case (Suc n)
  then show ?case by (simp add: steady_rendering.deeper)
qed (simp add: stuck.steady_rendering_axioms)

text \<open>
  Claim C4. Rendering a block or an expression, at any depth of the renderer, changes the generator only by
  writing: the indent, the tables of names, types, placeholders and aliases, the caught error and the reserved
  names are as before; the output and the warnings are extended, imports are only added, the counter of
  temporaries does not go back and a crash is not forgotten. In particular the renderer is stable, which is
  what the correctness of the lowering of \<^verbatim>\<open>onerr\<close> chains assumes of it.
\<close>

theorem rendering_only_writes:
  "stable_renderer (renderer_at n) \<and> gframe g (generateBlock (renderer_at n) b g) \<and>
   gframe g (snd (exprToString (renderer_at n) e g))"
  using generated.exprToString [of _ n] generated.generateFieldAccessExpr [of _ n]
    generated.generateErrorExpr [of _ n] generated.generateBlock [of _ n] gframe_fields(3)
  by (auto simp: stable_renderer_def)

end
