(* ===== verification/GoStrings.thy ===== *)
theory GoStrings
  imports GoKnot
begin

text \<open>
  What the generated string literals and formats mean in Go: a reader of interpreted string literals, as far
  as \<^verbatim>\<open>escapeString\<close> writes escapes, and \<^verbatim>\<open>fmt.Sprintf\<close> with the verb \<^verbatim>\<open>%v\<close>. A reader gives \<open>None\<close> where Go
  reports an error or the format asks for more than \<^verbatim>\<open>%v\<close>.
\<close>

section \<open>Go's interpreted string literals\<close>

definition hex_value :: "char \<Rightarrow> nat option" where "hex_value c = hexDigit (of_char c)"

definition simple_escape :: "char \<Rightarrow> string option" where
  "simple_escape c =
     (if c = CHR ''n'' then Some [CHR 0x0A] else if c = CHR ''t'' then Some [CHR 0x09]
      else if c = CHR ''r'' then Some [CHR 0x0D]
      else if c = CHR 0x5C \<or> c = CHR 0x22 then Some [c] else None)"

text \<open>The bytes between the quotes.\<close>

fun go_literal :: "string \<Rightarrow> string option" where
  "go_literal [] = Some []"
| "go_literal (c # s) =
     (if c = CHR 0x22 \<or> c = CHR 0x0A then None
      else if c \<noteq> CHR 0x5C then map_option (\<lambda>x. c # x) (go_literal s)
      else case s of [] \<Rightarrow> None
        | d # s1 \<Rightarrow>
            (if d = CHR ''x'' then
               (case s1 of a # b # s2 \<Rightarrow>
                  (case (hex_value a, hex_value b) of
                     (Some i, Some j) \<Rightarrow> map_option (\<lambda>x. char_of (16 * i + j) # x) (go_literal s2)
                   | _ \<Rightarrow> None)
                | _ \<Rightarrow> None)
             else case simple_escape d of
                Some e \<Rightarrow> map_option (\<lambda>x. e @ x) (go_literal s1) | None \<Rightarrow> None))"

text \<open>The ways in which a literal can begin.\<close>

lemma go_literal_start:
  assumes "go_literal (c # s) = Some x"
  obtains (plain) y where "c \<notin> {CHR 0x22, CHR 0x0A, CHR 0x5C}" "go_literal s = Some y" "x = c # y"
    | (hex) a b t i j y where "c = CHR 0x5C" "s = CHR ''x'' # a # b # t" "hex_value a = Some i" "hex_value b = Some j"
        "go_literal t = Some y" "x = char_of (16 * i + j) # y"
    | (simple) d t e y where "c = CHR 0x5C" "s = d # t" "d \<noteq> CHR ''x''" "simple_escape d = Some e"
        "go_literal t = Some y" "x = e @ y"
proof (cases "c = CHR 0x5C")
  case True
  with assms obtain d t where s: "s = d # t" by (cases s) auto
  show thesis
  proof (cases "d = CHR ''x''")
    case True
    with assms \<open>c = CHR 0x5C\<close> s show thesis
      by (cases t; cases "tl t"; cases "hex_value (hd t)"; cases "hex_value (hd (tl t))") (auto intro: hex)
  next
    case False
    with assms \<open>c = CHR 0x5C\<close> s show thesis by (cases "simple_escape d") (auto intro: simple)
  qed
qed (use assms in \<open>auto split: if_splits intro: plain\<close>)

lemma go_literal_append: "go_literal a = Some x \<Longrightarrow> go_literal (a @ b) = map_option (\<lambda>y. x @ y) (go_literal b)"
proof (induction a arbitrary: x rule: length_induct)
  case (1 a)
  show ?case
  proof (cases a)
    case (Cons c s)
    with 1(2) have "go_literal (c # s) = Some x" by simp
    then show ?thesis
      by (cases rule: go_literal_start) (use 1(1) Cons in \<open>auto simp: option.map_comp comp_def\<close>)
  qed (use 1(2) in \<open>simp add: option.map_ident\<close>)
qed

lemma go_literal_plain:
  "set u \<inter> {CHR 0x22, CHR 0x0A, CHR 0x5C} = {} \<Longrightarrow> go_literal u = Some u"
  by (induction u) auto

lemma hex_value_hex_char: "k < 16 \<Longrightarrow> hex_value (hex_char k) = Some k"
  by (simp add: hex_value_def hexDigit_hex_char)

section \<open>Escaping\<close>

text \<open>What a rune of the source string stands for: two runes of the private use area are braces.\<close>

definition rune_value :: "rune \<Rightarrow> string" where
  "rune_value r = (if r = 0xE000 then ''{'' else if r = 0xE001 then ''}'' else utf8_encode r)"

definition literal_value :: "string \<Rightarrow> string" where
  "literal_value s = concat (map rune_value (go_runes s))"

lemma utf8_encode_high:
  assumes "0x80 \<le> r" and "c \<in> set (utf8_encode r)"
  shows "0x80 \<le> (of_char c :: nat)"
proof -
  consider "r < 0x800" | "0x800 \<le> r" "r < 0x10000" | "0x10000 \<le> r" "r \<le> 0x10FFFF" | "0x10FFFF < r" by linarith
  then show ?thesis
  proof cases
    case 1
    then have "0xC0 + r div 64 < 256" by (simp add: less_mult_imp_div_less)
    then show ?thesis using assms 1 by (auto simp: utf8_encode_def)
  next
    case 2
    then have "0xE0 + r div 4096 < 256" by (simp add: less_mult_imp_div_less)
    then show ?thesis using assms 2 by (auto simp: utf8_encode_def split: if_splits)
  next
    case 3
    then have "0xF0 + r div 262144 < 256" by (simp add: less_mult_imp_div_less)
    then show ?thesis using assms 3 by (auto simp: utf8_encode_def split: if_splits)
  next
    case 4
    then show ?thesis using assms by (auto simp: utf8_encode_def)
  qed
qed

lemma char_of_inj:
  "(r::nat) < 0x80 \<Longrightarrow> (char_of r = c) = (r = of_char c)" "(r::nat) < 0x80 \<Longrightarrow> (c = char_of r) = (r = of_char c)"
  by auto

lemma go_literal_utf8:
  assumes "r \<noteq> 0x0A" "r \<noteq> 0x22" "r \<noteq> 0x5C"
  shows "go_literal (utf8_encode r) = Some (utf8_encode r)"
proof (rule go_literal_plain, cases "r < 0x80")
  case True
  then show "set (utf8_encode r) \<inter> {CHR 0x22, CHR 0x0A, CHR 0x5C} = {}"
    using assms by (auto simp: utf8_encode_def char_of_inj)
next
  case False
  then show "set (utf8_encode r) \<inter> {CHR 0x22, CHR 0x0A, CHR 0x5C} = {}"
    using utf8_encode_high [of r] by fastforce
qed

lemma go_literal_escape:
  "simple_escape d = Some e \<Longrightarrow> go_literal [CHR 0x5C, d] = Some e"
  "hex_value a = Some i \<Longrightarrow> hex_value b = Some j \<Longrightarrow> go_literal [CHR 0x5C, CHR ''x'', a, b] = Some [char_of (16 * i + j)]"
  by (auto simp: simple_escape_def)

lemma char_of_value: "of_char c = (n::nat) \<Longrightarrow> char_of n = c"
  by auto

lemma char_values:
  "char_of (0x0A::nat) = CHR 0x0A" "char_of (0x09::nat) = CHR 0x09" "char_of (0x0D::nat) = CHR 0x0D"
  "char_of (0x5C::nat) = CHR 0x5C" "char_of (0x22::nat) = CHR 0x22" "char_of (0x30::nat) = CHR ''0''"
  by (rule char_of_value, simp)+

lemma escape_go_rune_hex:
  assumes "r < 0x20 \<or> r = 0x7F" and "r \<notin> {0x0A, 0x09, 0x0D}"
  shows "escape_go_rune r = [CHR 0x5C, CHR ''x'', hex_char (r div 16), hex_char (r mod 16)]"
  using assms by (auto simp: escape_go_rune_def hex_digits_def upt_rec hex_char_def char_values)

lemma go_literal_rune: "go_literal (escape_go_rune r) = Some (rune_value r)"
proof -
  consider (braces) "r = 0xE000 \<or> r = 0xE001" | (escaped) "r \<in> {0x0A, 0x09, 0x0D, 0x5C, 0x22}"
    | (hex) "r < 0x20 \<or> r = 0x7F" "r \<notin> {0x0A, 0x09, 0x0D}"
    | (plain) "r \<notin> {0x0A, 0x09, 0x0D, 0x5C, 0x22, 0, 0xE000, 0xE001}" "\<not> (r < 0x20 \<or> r = 0x7F)"
    by fastforce
  then show ?thesis
  proof cases
    case braces
    then show ?thesis by (elim disjE) (simp_all add: escape_go_rune_def rune_value_def)
  next
    case escaped
    then show ?thesis
      by (elim insertE emptyE)
        (simp_all add: escape_go_rune_def rune_value_def utf8_encode_def go_literal_escape simple_escape_def char_values
          del: go_literal.simps)
  next
    case hex
    then have r: "r div 16 < 16" "16 * (r div 16) + r mod 16 = r" "r < 0x80" by auto
    have "go_literal (escape_go_rune r) = Some [char_of (16 * (r div 16) + r mod 16)]"
      unfolding escape_go_rune_hex [OF hex]
      by (rule go_literal_escape(2)) (use r in \<open>simp_all add: hex_value_hex_char\<close>)
    then show ?thesis using r by (simp add: rune_value_def utf8_encode_def)
  next
    case plain
    then show ?thesis by (simp add: escape_go_rune_def rune_value_def go_literal_utf8)
  qed
qed

lemma go_literal_concat:
  "list_all (\<lambda>(a, x). go_literal a = Some x) ps \<Longrightarrow>
   go_literal (concat (map fst ps)) = Some (concat (map snd ps))"
  by (induction ps) (auto simp: go_literal_append)

lemma string_literal_body: "go_literal (escapeString s) = Some (literal_value s)"
proof -
  have "list_all (\<lambda>(a, x). go_literal a = Some x) (map (\<lambda>r. (escape_go_rune r, rune_value r)) (go_runes s))"
    by (simp add: list_all_iff go_literal_rune)
  from go_literal_concat [OF this] show ?thesis
    by (simp add: escapeString_def literal_value_def comp_def)
qed

text \<open>
  Claim C8. The literal that is generated for a string denotes the string: read as the body of a Go
  literal, what \<^verbatim>\<open>escapeString\<close> writes gives back the runes of the source string, with the two private use
  runes that stand for escaped braces as braces.
\<close>

theorem string_literal_denotes: "go_literal (escapeString s) = Some (literal_value s)"
  by (rule string_literal_body)

section \<open>Formats\<close>

text \<open>\<^verbatim>\<open>fmt.Sprintf\<close> of a format with the verbs \<^verbatim>\<open>%v\<close> and \<^verbatim>\<open>%%\<close> and exactly as many arguments as verbs; the
  arguments are the texts that \<^verbatim>\<open>%v\<close> prints for them.\<close>

fun sprintf_v :: "string \<Rightarrow> string list \<Rightarrow> string option" where
  "sprintf_v [] args = (if args = [] then Some [] else None)"
| "sprintf_v (c # f) args =
     (if c \<noteq> CHR ''%'' then map_option (\<lambda>x. c # x) (sprintf_v f args)
      else case f of [] \<Rightarrow> None
        | d # f1 \<Rightarrow>
            (if d = CHR ''v'' then
               (case args of [] \<Rightarrow> None | a # as \<Rightarrow> map_option (\<lambda>x. a @ x) (sprintf_v f1 as))
             else if d = CHR ''%'' then map_option (\<lambda>x. CHR ''%'' # x) (sprintf_v f1 args) else None))"

lemma sprintf_v_append:
  "sprintf_v f as = Some x \<Longrightarrow> sprintf_v (f @ f') (as @ as') = map_option (\<lambda>y. x @ y) (sprintf_v f' as')"
proof (induction f as arbitrary: x rule: sprintf_v.induct)
  case (2 c f args)
  consider (plain) "c \<noteq> CHR ''%''" | (verb) f1 where "c = CHR ''%''" "f = CHR ''v'' # f1"
    | (percent) f1 where "c = CHR ''%''" "f = CHR ''%'' # f1"
    using "2.prems" by (cases f) (auto split: if_splits)
  then show ?case
  proof cases
    case plain
    with "2.prems" obtain y where "sprintf_v f args = Some y" "x = c # y" by auto
    with "2.IH"(1) plain show ?thesis by (simp add: option.map_comp comp_def)
  next
    case verb
    with "2.prems" obtain a bs where args: "args = a # bs" by (cases args) auto
    from "2.prems" verb args obtain y where "sprintf_v f1 bs = Some y" "x = a @ y" by auto
    with "2.IH"(2) verb args show ?thesis by (simp add: option.map_comp comp_def)
  next
    case percent
    with "2.prems" obtain y where "sprintf_v f1 args = Some y" "x = CHR ''%'' # y" by auto
    with "2.IH"(3) percent show ?thesis by (simp add: option.map_comp comp_def)
  qed
next
  case (1 args)
  then show ?case by (cases "sprintf_v f' as'") (auto split: if_splits)
qed

lemma sprintf_v_plain: "CHR ''%'' \<notin> set f \<Longrightarrow> sprintf_v f [] = Some f"
  by (induction f) auto

section \<open>Percent signs\<close>

lemma high_runes:
  "0xC2 \<le> b \<Longrightarrow> 0x80 \<le> (b - 0xC0) * 64 + (x::nat)"
  "0xE1 \<le> b \<Longrightarrow> 0x80 \<le> (b - 0xE0) * 4096 + y + (x::nat)"
  "0xA0 \<le> c \<Longrightarrow> 0x80 \<le> (c - 0x80) * 64 + (x::nat)"
  "0xF1 \<le> b \<Longrightarrow> 0x80 \<le> (b - 0xF0) * 262144 + y + z + (x::nat)"
  "0x90 \<le> c \<Longrightarrow> 0x80 \<le> (c - 0x80) * 4096 + y + (x::nat)"
  by linarith+

lemma decode_rune_high: "0x80 \<le> b0 \<Longrightarrow> 0x80 \<le> fst (decode_rune (b0 # rs))"
proof -
  assume b0: "0x80 \<le> b0"
  consider "b0 < 0xC2 \<or> b0 > 0xF4" | "0xC2 \<le> b0" "b0 \<le> 0xDF" | "b0 = 0xE0" | "0xE1 \<le> b0" "b0 \<le> 0xEF"
    | "b0 = 0xF0" | "0xF1 \<le> b0" "b0 \<le> 0xF4" by linarith
  then show ?thesis
  proof cases
    case 1
    then show ?thesis using b0 by (auto simp: decode_rune_def)
  next
    case 2
    then show ?thesis by (simp add: decode_rune_def high_runes split: list.split)
  next
    case 3
    then show ?thesis by (simp add: decode_rune_def high_runes split: list.split)
  next
    case 4
    then show ?thesis by (simp add: decode_rune_def high_runes split: list.split)
  next
    case 5
    then show ?thesis by (simp add: decode_rune_def high_runes split: list.split)
  next
    case 6
    then show ?thesis by (simp add: decode_rune_def high_runes split: list.split)
  qed
qed

lemma decode_rune_ascii: "bs \<noteq> [] \<Longrightarrow> fst (decode_rune bs) < 0x80 \<Longrightarrow> fst (decode_rune bs) = hd bs"
  using decode_rune_high [of "hd bs" "tl bs"] by (cases bs; cases "hd bs < 0x80") (auto simp: decode_rune_def)

lemma ascii_runes: "r \<in> set (utf8_decode bs) \<Longrightarrow> r < 0x80 \<Longrightarrow> r \<in> set bs"
proof (induction bs rule: utf8_decode.induct)
  case (1 bs)
  show ?case
  proof (cases "bs = []")
    case False
    with 1(2) consider "r = fst (decode_rune bs)"
      | "r \<in> set (utf8_decode (drop (max 1 (snd (decode_rune bs))) bs))"
      by (subst (asm) utf8_decode.simps) auto
    then show ?thesis
    proof cases
      case 1
      then show ?thesis using decode_rune_ascii [OF False] \<open>r < 0x80\<close> False by simp
    next
      case 2
      then show ?thesis using 1(1) [OF False] \<open>r < 0x80\<close> in_set_dropD by fastforce
    qed
  qed (use 1(2) in simp)
qed

lemma percent_utf8: "CHR ''%'' \<in> set (utf8_encode r) \<Longrightarrow> r = 0x25"
proof (cases "r < 0x80")
  case False
  then show "CHR ''%'' \<in> set (utf8_encode r) \<Longrightarrow> r = 0x25" using utf8_encode_high [of r "CHR ''%''"] by simp
qed (auto simp: utf8_encode_def char_of_inj)

lemma percent_literal: "CHR ''%'' \<notin> set s \<Longrightarrow> CHR ''%'' \<notin> set (literal_value s)"
proof
  assume s: "CHR ''%'' \<notin> set s" and "CHR ''%'' \<in> set (literal_value s)"
  then obtain r where r: "r \<in> set (go_runes s)" "CHR ''%'' \<in> set (rune_value r)"
    by (auto simp: literal_value_def)
  then have "r = 0x25" by (auto simp: rune_value_def percent_utf8 split: if_splits)
  with r ascii_runes [where r = 37 and bs = "map of_char s"] have "(0x25::nat) \<in> of_char ` set s" by (simp add: go_runes_def)
  then obtain c where "c \<in> set s" "of_char c = (0x25::nat)" by auto
  then have "c = CHR ''%''" using char_of_value [of c] char_of_value [of "CHR ''%''"] by simp
  with s \<open>c \<in> set s\<close> show False by simp
qed

lemma set_split_str: "p \<in> set (split_str sep s) \<Longrightarrow> set p \<subseteq> set s"
proof (induction sep s rule: split_str.induct)
  case (1 sep s)
  show ?case
    using 1 by (subst (asm) (2) split_str.simps)
      (auto split: option.splits if_splits dest: in_set_takeD in_set_dropD)
qed

lemma split_str_nonempty: "split_str sep s \<noteq> []"
  by (subst split_str.simps) (auto split: option.splits)

section \<open>Interpolation\<close>

text \<open>What an interpolated string is to denote, given what \<^verbatim>\<open>%v\<close> prints for a Go expression: the literal parts with
  every separator rune as the path separator, and the values of the expressions, rendered from left to
  right.\<close>

definition part_value :: "(string \<Rightarrow> string) \<Rightarrow> string \<Rightarrow> string" where
  "part_value val lit =
     go_join (map literal_value (split_str (utf8_encode sep_sentinel) lit)) (val ''string(filepath.Separator)'')"

fun interpolated_value :: "renderer \<Rightarrow> (string \<Rightarrow> string) \<Rightarrow> StringInterpolation list \<Rightarrow> generator \<Rightarrow> string" where
  "interpolated_value R val [] g = []"
| "interpolated_value R val ((True, lit, e) # ps) g =
     part_value val lit @ interpolated_value R val ps (if has_sep lit then addImport ''path/filepath'' g else g)"
| "interpolated_value R val ((False, lit, e) # ps) g =
     (case (case e of Ident i \<Rightarrow> caught (identValue i) g | _ \<Rightarrow> None) of
        Some v \<Rightarrow> val v @ interpolated_value R val ps g
      | None \<Rightarrow> (let (s, g1) = exprToString R e g in val s @ interpolated_value R val ps g1))"

text \<open>A format with its arguments denotes a string.\<close>

definition denotes :: "(string \<Rightarrow> string) \<Rightarrow> string \<times> string list \<Rightarrow> string \<Rightarrow> bool" where
  "denotes val r x \<longleftrightarrow> (\<exists>f. go_literal (fst r) = Some f \<and> sprintf_v f (map val (snd r)) = Some x)"

lemma denotes_append:
  "denotes val (f, as) x \<Longrightarrow> denotes val (f', as') y \<Longrightarrow> denotes val (f @ f', as @ as') (x @ y)"
  by (auto simp: denotes_def go_literal_append sprintf_v_append)

lemma denotes_literal: "CHR ''%'' \<notin> set s \<Longrightarrow> denotes val (escapeString s, []) (literal_value s)"
  using string_literal_body [of s] percent_literal [of s] sprintf_v_plain by (auto simp: denotes_def)

lemma denotes_value: "denotes val (''%v'', [a]) (val a)"
  by (simp add: denotes_def)

lemma denotes_Nil: "denotes val ([], []) []"
  by (simp add: denotes_def)

lemma denotes_segments:
  "ss \<noteq> [] \<Longrightarrow> \<forall>s\<in>set ss. CHR ''%'' \<notin> set s \<Longrightarrow>
   denotes val (go_join (map escapeString ss) ''%v'', replicate (length ss - 1) a)
     (go_join (map literal_value ss) (val a))"
proof (induction ss)
  case (Cons s ss)
  show ?case
  proof (cases ss)
    case Nil
    with Cons show ?thesis by (simp add: denotes_literal)
  next
    case (Cons t ts)
    with Cons.IH Cons.prems have
      "denotes val (go_join (map escapeString ss) ''%v'', replicate (length ss - 1) a)
         (go_join (map literal_value ss) (val a))" by simp
    from denotes_append [OF denotes_literal denotes_append [OF denotes_value this]] Cons.prems Cons
    show ?thesis by simp
  qed
qed simp

lemma denotes_separators:
  "CHR ''%'' \<notin> set lit \<Longrightarrow> denotes val (separators lit) (part_value val lit)"
  using denotes_segments [of "split_str (utf8_encode sep_sentinel) lit" val "''string(filepath.Separator)''"]
    split_str_nonempty set_split_str
  by (fastforce simp: separators_def part_value_def Let_def)

lemma part_value_plain: "\<not> has_sep lit \<Longrightarrow> part_value val lit = literal_value lit"
  unfolding part_value_def
  by (subst split_str.simps) (simp add: has_sep_def contains_rune_def contains_str_def)

lemma denotes_plain_part:
  assumes "\<not> has_sep lit" and "CHR ''%'' \<notin> set lit"
  shows "denotes val (escapeString lit, []) (part_value val lit)"
  using assms by (simp add: part_value_plain denotes_literal)

lemma run_string_part:
  "fst (run_state (string_part R (True, lit, e)) g) = (if has_sep lit then separators lit else (escapeString lit, []))"
  "snd (run_state (string_part R (True, lit, e)) g) = (if has_sep lit then addImport ''path/filepath'' g else g)"
  "run_state (string_part R (False, lit, e)) g =
     (case (case e of Ident i \<Rightarrow> caught (identValue i) g | _ \<Rightarrow> None) of
        Some v \<Rightarrow> ((''%v'', [v]), g)
      | None \<Rightarrow> (let (s, g1) = exprToString R e g in ((''%v'', [s]), g1)))"
  by (simp_all add: string_part_def State_Monad.bind_def State_Monad.return_def asks_def use_import_def update_def
      rendered_def via_def split_beta Let_def split: option.split)

lemma run_parts_Cons:
  "fst (run_state (parseStringPartsOrInterpolation R (p # ps)) g) =
     (let (fa, g1) = run_state (string_part R p) g;
          fs = fst (run_state (parseStringPartsOrInterpolation R ps) g1)
      in (fst fa @ fst fs, snd fa @ snd fs))"
  by (simp add: parseStringPartsOrInterpolation_def State_Monad.bind_def State_Monad.return_def split_beta Let_def)

lemma denotes_Cons:
  assumes "denotes val (fst (run_state (string_part R p) g)) x"
    and "denotes val (fst (run_state (parseStringPartsOrInterpolation R ps) (snd (run_state (string_part R p) g)))) y"
  shows "denotes val (fst (run_state (parseStringPartsOrInterpolation R (p # ps)) g)) (x @ y)"
  using denotes_append [of val _ _ x _ _ y] assms by (simp add: run_parts_Cons split_beta Let_def)

text \<open>
  Claim C5. An interpolated string means what it says: if no literal part contains a percent sign, the format
  and the arguments that are generated for it denote the literal parts with escapes and separators
  resolved and the values of the expressions, in order.
\<close>

theorem interpolation_denotes:
  assumes "\<forall>p\<in>set parts. fst p \<longrightarrow> CHR ''%'' \<notin> set (fst (snd p))"
  shows "denotes val (fst (run_state (parseStringPartsOrInterpolation R parts) g)) (interpolated_value R val parts g)"
  using assms
proof (induction parts arbitrary: g)
  case Nil
  then show ?case
    by (simp add: parseStringPartsOrInterpolation_def State_Monad.bind_def State_Monad.return_def denotes_Nil)
next
  case (Cons p ps)
  obtain isLit lit e where p: "p = (isLit, lit, e)" by (cases p)
  let ?g1 = "snd (run_state (string_part R p) g)"
  have follow: "denotes val (fst (run_state (parseStringPartsOrInterpolation R ps) ?g1)) (interpolated_value R val ps ?g1)"
    using Cons by simp
  show ?case
  proof (cases isLit)
    case True
    then have "denotes val (fst (run_state (string_part R p) g)) (part_value val lit)"
      using Cons.prems p by (simp add: run_string_part denotes_separators denotes_plain_part)
    from denotes_Cons [OF this follow] show ?thesis using True p by (simp add: run_string_part)
  next
    case False
    let ?c = "case e of Ident i \<Rightarrow> caught (identValue i) g | _ \<Rightarrow> None"
    let ?s = "case ?c of Some v \<Rightarrow> v | None \<Rightarrow> fst (exprToString R e g)"
    have "denotes val (fst (run_state (string_part R p) g)) (val ?s)"
      using False p by (simp add: run_string_part denotes_value split_beta split: option.split)
    from denotes_Cons [OF this follow] show ?thesis
      using False p by (cases ?c) (simp_all add: run_string_part split_beta Let_def)
  qed
qed

definition sample_parts :: "StringInterpolation list" where
  "sample_parts =
     [(True, ''a'' @ [CHR 0x22], NilExpr), (False, [], Ident (Identifier no_token ''x'')), (True, '' of '', NilExpr)]"

theorem interpolation_denotes_witness:
  "denotes (\<lambda>a. if a = ''x'' then ''7'' else [])
     (fst (run_state (parseStringPartsOrInterpolation (renderer_at 1) sample_parts) (New_generator empty_program)))
     (''a'' @ [CHR 0x22] @ ''7 of '')"
proof -
  have "\<forall>p\<in>set sample_parts. fst p \<longrightarrow> CHR ''%'' \<notin> set (fst (snd p))"
    by (simp add: sample_parts_def)
  from interpolation_denotes [OF this, of "\<lambda>a. if a = ''x'' then ''7'' else []" "renderer_at 1" "New_generator empty_program"]
  have "denotes (\<lambda>a. if a = ''x'' then ''7'' else [])
      (fst (run_state (parseStringPartsOrInterpolation (renderer_at 1) sample_parts) (New_generator empty_program)))
      (interpolated_value (renderer_at 1) (\<lambda>a. if a = ''x'' then ''7'' else []) sample_parts (New_generator empty_program))" .
  moreover have "\<not> has_sep (''a'' @ [CHR 0x22])" "\<not> has_sep '' of ''"
    by (simp_all add: has_sep_def contains_rune_def contains_str_def sep_sentinel_def utf8_encode_def has_prefix_def
        char_of_def)
  moreover have "literal_value (''a'' @ [CHR 0x22]) = ''a'' @ [CHR 0x22]" "literal_value '' of '' = '' of ''"
    by (simp_all add: literal_value_def go_runes_def rune_value_def utf8_encode_def char_of_value)
  moreover have "caught ''x'' (New_generator empty_program) = None"
    "fst (exprToString (renderer_at 1) (Ident (Identifier no_token ''x'')) (New_generator empty_program)) = ''x''"
    by (simp_all add: caught_def New_generator_def deeper_def exprToString_of_def identifierText_def asks_def typeOf_def
        State_Monad.bind_def State_Monad.return_def)
  ultimately show ?thesis by (simp add: sample_parts_def split_beta part_value_plain)
qed

text \<open>Without the condition the claim is false: a percent sign of a literal part is copied into the format as it
  is, and takes the blank after it for a verb.\<close>

lemma percent_sign_breaks_format:
  fixes v :: string
  assumes "currentOnErrVar g = []"
    and "exprToString R (Ident i) g = (v, g1)"
  shows "fst (run_state (parseStringPartsOrInterpolation R [(True, ''100% of '', NilExpr), (False, [], Ident i)]) g) =
     (''100% of %v'', [v])" and "\<not> denotes val (''100% of %v'', [v]) x"
proof -
  have esc: "escapeString ''100% of '' = ''100% of ''"
    by (simp add: escapeString_def go_runes_def escape_go_rune_def utf8_encode_def char_of_value)
  have sep: "\<not> has_sep ''100% of ''"
    by (simp add: has_sep_def contains_rune_def contains_str_def sep_sentinel_def utf8_encode_def has_prefix_def char_of_def)
  from esc sep show "fst (run_state (parseStringPartsOrInterpolation R [(True, ''100% of '', NilExpr), (False, [], Ident i)]) g) =
     (''100% of %v'', [v])"
    using assms by (simp add: run_parts_Cons run_string_part caught_def split_beta Let_def
        parseStringPartsOrInterpolation_def State_Monad.return_def)
qed (auto simp: denotes_def)

end
