(* ===== verification/GoArguments.thy ===== *)
theory GoArguments
  imports GoSteady
begin

text \<open>
  Named arguments: a call of a function whose parameters are known is generated as the call that gives all
  arguments by position, whatever the order of the named ones.
\<close>

text \<open>The argument a call gives for a parameter: by position, else by name, else the default value.\<close>

definition argument_for :: "FuncDefaults \<Rightarrow> Expression list \<Rightarrow> NamedArgument list \<Rightarrow> nat \<Rightarrow> Expression \<Rightarrow> bool" where
  "argument_for fd positional ns k e \<longleftrightarrow>
     (if k < length positional then e = positional ! k
      else (\<exists>(t, i, v)\<in>set ns. identValue i = fdNames fd ! k \<and> v = e) \<or>
        (\<forall>(t, i, v)\<in>set ns. identValue i \<noteq> fdNames fd ! k) \<and> e = fdValues fd ! k \<and> e \<noteq> NilExpr)"

definition complete_arguments :: "FuncDefaults \<Rightarrow> Expression list \<Rightarrow> NamedArgument list \<Rightarrow> Expression list \<Rightarrow> bool" where
  "complete_arguments fd positional ns es \<longleftrightarrow>
     length es = length (fdNames fd) \<and> length positional \<le> length es \<and>
     list_all (\<lambda>k. argument_for fd positional ns k (es ! k)) [0..<length es]"

definition argument_names :: "NamedArgument list \<Rightarrow> string list" where
  "argument_names ns = map (\<lambda>(t, i, v). identValue i) ns"

lemma map_of_named_table:
  assumes "distinct (argument_names ns)"
  shows "map_of (named_table ns) x = Some v \<longleftrightarrow> (\<exists>(t, i, w)\<in>set ns. identValue i = x \<and> w = v)"
    and "map_of (named_table ns) x = None \<longleftrightarrow> (\<forall>(t, i, w)\<in>set ns. identValue i \<noteq> x)"
proof -
  have keys: "map fst (named_table ns) = rev (argument_names ns)"
    by (simp add: named_table_def argument_names_def rev_map split_def comp_def)
  then have "distinct (map fst (named_table ns))" using assms by simp
  then show "map_of (named_table ns) x = Some v \<longleftrightarrow> (\<exists>(t, i, w)\<in>set ns. identValue i = x \<and> w = v)"
    by (simp add: map_of_eq_Some_iff) (auto simp: named_table_def image_iff split_def Bex_def)
  show "map_of (named_table ns) x = None \<longleftrightarrow> (\<forall>(t, i, w)\<in>set ns. identValue i \<noteq> x)"
    by (auto simp: map_of_eq_None_iff named_table_def image_iff split_def)
qed

text \<open>The loop over the parameters renders the chosen arguments in order.\<close>

lemma ordered_arguments_complete:
  assumes "length es = length params" "length positional \<le> length params"
    and "\<And>k. k < length params \<Longrightarrow>
      (if k < length positional then es ! k = positional ! k
       else map_of named (fst (params ! k)) = Some (es ! k) \<or>
         map_of named (fst (params ! k)) = None \<and> es ! k = snd (params ! k) \<and> es ! k \<noteq> NilExpr)"
  shows "ordered_arguments R named variadic positional params = each (rendered R) es"
  using assms
proof (induction params arbitrary: positional es)
  case (Cons pd params)
  obtain p d where pd: "pd = (p, d)" by (cases pd)
  obtain e es' where es: "es = e # es'" "length es' = length params" using Cons.prems(1) by (cases es) auto
  note zero = Cons.prems(3) [of 0] and later = Cons.prems(3) [of "Suc k" for k]
  have "ordered_arguments R named variadic (tl positional) params = each (rendered R) es'"
  proof (rule Cons.IH)
    show "length es' = length params" by (rule es(2))
    show "length (tl positional) \<le> length params" using Cons.prems(2) by simp
    fix k assume "k < length params"
    then show "if k < length (tl positional) then es' ! k = tl positional ! k
       else map_of named (fst (params ! k)) = Some (es' ! k) \<or>
         map_of named (fst (params ! k)) = None \<and> es' ! k = snd (params ! k) \<and> es' ! k \<noteq> NilExpr"
      using later [of k] by (cases positional) (simp_all add: es(1) pd cong: if_cong)
  qed
  from this [symmetric] show ?case using zero by (cases positional) (auto simp: es(1) pd cong: if_cong split: option.split)
qed simp

lemma run_each_frame: "gframe g (snd (run_state (rendered (renderer_at n) e) g))"
  using generated.exprToString [of g n e] by (simp add: rendered_def via_def)

lemma complete_arguments_by_position:
  assumes "complete_arguments fd positional ns es" "distinct (argument_names ns)"
    and "length (fdValues fd) = length (fdNames fd)"
  shows "ordered_arguments R (named_table ns) variadic positional (zip (fdNames fd) (fdValues fd)) =
    each (rendered R) es"
  using assms map_of_named_table [OF assms(2)]
  by (intro ordered_arguments_complete)
    (auto simp: complete_arguments_def argument_for_def list_all_iff split: if_splits)

text \<open>
  Claim C7. A call of a function whose parameters are known is generated exactly as the call that gives every
  argument by position: the positional arguments first, for each remaining parameter the argument with
  its name, wherever it stands, and the default value if there is none.
\<close>

theorem named_arguments_by_position:
  assumes "map_of (funcDefaults g) (identValue f) = Some fd" "length (fdValues fd) = length (fdNames fd)"
    and "identValue f \<noteq> ''print''" "distinct (argument_names ns)"
    and "complete_arguments fd positional ns es"
  shows "exprToString (renderer_at n) (CallExpr t (Ident f) positional ns variadic) g =
    exprToString (renderer_at n) (CallExpr t (Ident f) es [] variadic) g"
proof (cases n)
  case 0
  then show ?thesis by (simp add: stuck_renderer_def)
next
  case (Suc m)
  let ?R = "renderer_at m"
  obtain s g1 where r: "run_state (rendered ?R (Ident f)) g = (s, g1)" by fastforce
  have "funcDefaults g1 = funcDefaults g"
    using run_each_frame [of g m "Ident f"] settings_fields(4) [of g1 g] by (simp add: r gframe_def)
  then have known: "map_of (funcDefaults g1) (identValue f) = Some fd" using assms(1) by simp
  have len: "length es = length (fdNames fd)" using assms(5) by (simp add: complete_arguments_def)
  have full: "each (rendered ?R) positional = each (rendered ?R) es"
    if "ns = []" "\<not> length positional < length (fdNames fd)"
  proof -
    have "positional = es"
      using assms(5) that by (auto simp: complete_arguments_def argument_for_def list_all_iff intro!: nth_equalityI)
    then show ?thesis by simp
  qed
  show ?thesis
    using complete_arguments_by_position [OF assms(5,4,2), of ?R "fdVariadic fd"] known len assms(3) full
    by (simp add: Suc deeper_def exprToString_of_def generateCallExpr_def is_print_def State_Monad.bind_def
        asks_def r Let_def split_beta)
qed

definition sample_defaults :: FuncDefaults where
  "sample_defaults =
     \<lparr>fdNames = [''a'', ''b'', ''c''], fdValues = [NilExpr, BooleanLiteral no_token True, NilExpr], fdVariadic = False\<rparr>"

definition known_generator :: generator where
  "known_generator = (New_generator empty_program)\<lparr>funcDefaults := [(''f'', sample_defaults)]\<rparr>"

theorem named_arguments_by_position_witness:
  "fst (exprToString (renderer_at 2)
     (CallExpr no_token (Ident (Identifier no_token ''f'')) [Ident (Identifier no_token ''x'')]
        [(no_token, Identifier no_token ''c'', Ident (Identifier no_token ''y''))] False) known_generator) =
   ''f(x, true, y)''"
proof -
  let ?x = "Ident (Identifier no_token ''x'')" and ?y = "Ident (Identifier no_token ''y'')"
  let ?ns = "[(no_token, Identifier no_token ''c'', ?y)]"
  have "complete_arguments sample_defaults [?x] ?ns [?x, BooleanLiteral no_token True, ?y]"
    by (simp add: complete_arguments_def argument_for_def sample_defaults_def upt_rec)
  then have same: "exprToString (renderer_at 2) (CallExpr no_token (Ident (Identifier no_token ''f'')) [?x] ?ns False) known_generator =
     exprToString (renderer_at 2) (CallExpr no_token (Ident (Identifier no_token ''f''))
       [?x, BooleanLiteral no_token True, ?y] [] False) known_generator"
    by (intro named_arguments_by_position [of _ _ sample_defaults])
      (simp_all add: known_generator_def sample_defaults_def argument_names_def)
  define R where "R = renderer_at 1"
  have top: "exprToString (renderer_at 2) e g = run_state (exprToString_of R e) g" for e g
    by (simp add: R_def numeral_2_eq_2 deeper_def)
  have named: "run_state (rendered R (Ident (Identifier no_token v))) known_generator = (v, known_generator)"
    if "v \<noteq> ''empty''" for v
    using that by (simp add: R_def rendered_def via_def deeper_def exprToString_of_def identifierText_def asks_def
        State_Monad.bind_def State_Monad.return_def caught_def typeOf_def known_generator_def New_generator_def)
  have shown: "run_state (rendered R (BooleanLiteral no_token True)) known_generator = (''true'', known_generator)"
    by (simp add: R_def rendered_def via_def deeper_def exprToString_of_def State_Monad.return_def)
  have "funcDefaults known_generator = [(''f'', sample_defaults)]" by (simp add: known_generator_def)
  then have "exprToString (renderer_at 2) (CallExpr no_token (Ident (Identifier no_token ''f''))
       [?x, BooleanLiteral no_token True, ?y] [] False) known_generator = (''f(x, true, y)'', known_generator)"
    by (simp add: top exprToString_of_def generateCallExpr_def named shown is_print_def asks_def
        State_Monad.bind_def State_Monad.return_def call_text_def sample_defaults_def)
  then show ?thesis unfolding same by simp
qed

end
