(* ===== verification/GoLoops.thy ===== *)
theory GoLoops
  imports GoStmt "HOL-Library.Word" "HOL-Library.Monad_Syntax"
begin

text \<open>
  What the loop that \<^verbatim>\<open>generateForNumericStmt\<close> writes does in Go, on a 64-bit \<^verbatim>\<open>int\<close> that wraps around: a
  reader of the text of its header, and the values the loop runs through.
\<close>

section \<open>The header of a loop\<close>

text \<open>A text before and after the first occurrence of a separator.\<close>

definition cut_at :: "string \<Rightarrow> string \<Rightarrow> (string \<times> string) option" where
  "cut_at sep s = (case index_str s sep of None \<Rightarrow> None | Some k \<Rightarrow> Some (take k s, drop (k + length sep) s))"

text \<open>A name or the sum of two names.\<close>

definition go_sum :: "(string \<Rightarrow> 64 word) \<Rightarrow> string \<Rightarrow> 64 word" where
  "go_sum vals s = (case cut_at ''+'' s of None \<Rightarrow> vals s | Some (a, b) \<Rightarrow> vals a + vals b)"

text \<open>The values of the variable of \<^verbatim>\<open>for i := a; i != stop; i += step\<close>, if the loop ends; the body leaves the
  variables of the header alone.\<close>

partial_function (option) run_loop :: "64 word \<Rightarrow> 64 word \<Rightarrow> 64 word \<Rightarrow> 64 word list option" where
  "run_loop i stop by_step =
     (if i = stop then Some [] else do { is \<leftarrow> run_loop (i + by_step) stop by_step; Some (i # is) })"

definition run_header :: "(string \<Rightarrow> 64 word) \<Rightarrow> string \<Rightarrow> 64 word list option" where
  "run_header vals text = do {
     (k, text) \<leftarrow> cut_at ''for '' text;
     (start, text) \<leftarrow> cut_at ''; '' text;
     (cond, text) \<leftarrow> cut_at ''; '' text;
     (i1, a) \<leftarrow> cut_at '' := '' start;
     (i2, stop) \<leftarrow> cut_at '' != '' cond;
     (i3, post) \<leftarrow> cut_at '' += '' text;
     (s, text) \<leftarrow> cut_at '' {'' post;
     if i1 = i2 \<and> i2 = i3 then run_loop (vals a) (go_sum vals stop) (vals s) else None }"

lemma index_str_first:
  "sep \<noteq> [] \<Longrightarrow> hd sep \<notin> set a \<Longrightarrow> index_str (a @ sep @ b) sep = Some (length a)"
proof (induction a)
  case Nil
  then show ?case by (cases sep) (simp_all add: has_prefix_def)
next
  case (Cons c a)
  then have "\<not> has_prefix (c # a @ sep @ b) sep" by (cases sep) (auto simp: has_prefix_def)
  with Cons show ?case by simp
qed

lemma cut_at_first: "sep \<noteq> [] \<Longrightarrow> hd sep \<notin> set a \<Longrightarrow> cut_at sep (a @ sep @ b) = Some (a, b)"
  by (simp add: cut_at_def index_str_first)

lemma index_str_absent: "sep \<noteq> [] \<Longrightarrow> hd sep \<notin> set a \<Longrightarrow> index_str a sep = None"
proof (induction a)
  case (Cons c a)
  then have "\<not> has_prefix (c # a) sep" by (cases sep) (auto simp: has_prefix_def)
  with Cons show ?case by simp
qed simp

definition loop_name :: "string \<Rightarrow> bool" where
  "loop_name x \<longleftrightarrow> list_all (\<lambda>c. c \<notin> {CHR '' '', CHR '';'', CHR ''+''}) x"

lemma loop_nameD: "loop_name x \<Longrightarrow> CHR '' '' \<notin> set x" "loop_name x \<Longrightarrow> CHR '';'' \<notin> set x" "loop_name x \<Longrightarrow> CHR ''+'' \<notin> set x"
  by (auto simp: loop_name_def list_all_iff)

section \<open>The loop\<close>

lemma run_loop_up:
  "a \<le> b \<Longrightarrow> b - a < 2 ^ 64 \<Longrightarrow>
   run_loop (word_of_int a) (word_of_int b) 1 = Some (map word_of_int [a..b - 1])"
proof (induction "nat (b - a)" arbitrary: a)
  case 0
  then show ?case by (subst run_loop.simps) simp
next
  case (Suc n)
  then have ab: "a < b" by simp
  have "word_of_int a \<noteq> (word_of_int b :: 64 word)"
  proof
    assume "word_of_int a = (word_of_int b :: 64 word)"
    then have "2 ^ 64 dvd b - a"
      by (simp add: word_of_int_eq_iff take_bit_eq_mod mod_eq_dvd_iff dvd_diff_commute)
    then show False using Suc.prems(2) ab zdvd_not_zless [of "b - a" "2 ^ 64"] by simp
  qed
  moreover have "run_loop (word_of_int (a + 1)) (word_of_int b) 1 = Some (map word_of_int [a + 1..b - 1])"
    by (rule Suc.hyps(1)) (use Suc.hyps(2) Suc.prems ab in simp_all)
  ultimately show ?case using ab
    by (subst run_loop.simps) (simp add: upto_rec1 [of a])
qed

lemma run_loop_down:
  "b \<le> a \<Longrightarrow> a - b < 2 ^ 64 \<Longrightarrow>
   run_loop (word_of_int a) (word_of_int b) (- 1) = Some (map word_of_int (rev [b + 1..a]))"
proof (induction "nat (a - b)" arbitrary: a)
  case 0
  then show ?case by (subst run_loop.simps) simp
next
  case (Suc n)
  then have ab: "b < a" by simp
  have "word_of_int a \<noteq> (word_of_int b :: 64 word)"
  proof
    assume "word_of_int a = (word_of_int b :: 64 word)"
    then have "2 ^ 64 dvd a - b"
      by (simp add: word_of_int_eq_iff take_bit_eq_mod mod_eq_dvd_iff)
    then show False using Suc.prems(2) ab zdvd_not_zless [of "a - b" "2 ^ 64"] by simp
  qed
  moreover have "run_loop (word_of_int (a - 1)) (word_of_int b) (- 1) = Some (map word_of_int (rev [b + 1..a - 1]))"
    by (rule Suc.hyps(1)) (use Suc.hyps(2) Suc.prems ab in simp_all)
  ultimately show ?case using ab
    by (subst run_loop.simps) (simp add: upto_rec2 [of "b + 1"])
qed

text \<open>The values that a loop from \<open>a\<close> to or through \<open>z\<close> is to visit, up or down.\<close>

definition numeric_range :: "bool \<Rightarrow> int \<Rightarrow> int \<Rightarrow> int list" where
  "numeric_range through a z =
     (if a \<le> z then [a..if through then z else z - 1] else rev [if through then z else z + 1..a])"

lemma run_loop_range:
  fixes low high :: "64 word"
  defines "by_step \<equiv> if high <s low then - 1 else 1"
  assumes "\<not> (through \<and> \<bar>sint high - sint low\<bar> = 2 ^ 64 - 1)"
  shows "run_loop low (if through then high + by_step else high) by_step =
    Some (map word_of_int (numeric_range through (sint low) (sint high)))"
proof -
  define a z where "a = sint low" and "z = sint high"
  have w: "low = word_of_int a" "high = word_of_int z" by (simp_all add: a_def z_def)
  have b: "- (2 ^ 63) \<le> a" "a < 2 ^ 63" "- (2 ^ 63) \<le> z" "z < 2 ^ 63"
    using sint_greater_eq [of low] sint_less [of low] sint_greater_eq [of high] sint_less [of high]
    by (simp_all add: a_def z_def)
  have step: "by_step = (if z < a then - 1 else 1)" by (simp add: by_step_def word_sless_alt a_def z_def)
  have lim: "through \<Longrightarrow> \<bar>z - a\<bar> \<noteq> 2 ^ 64 - 1" using assms(2) by (simp add: a_def z_def)
  show ?thesis
  proof (cases "z < a")
    case True
    have stop: "(if through then high + by_step else high) = word_of_int (if through then z - 1 else z)"
      using True by (simp add: step w)
    have "run_loop low (word_of_int (if through then z - 1 else z)) (- 1) =
        Some (map word_of_int (rev [(if through then z - 1 else z) + 1..a]))"
      unfolding w(1) by (rule run_loop_down) (use True b lim in auto)
    then show ?thesis using True unfolding stop by (simp add: step numeric_range_def flip: a_def z_def)
  next
    case False
    have stop: "(if through then high + by_step else high) = word_of_int (if through then z + 1 else z)"
      using False by (simp add: step w)
    have "run_loop low (word_of_int (if through then z + 1 else z)) 1 =
        Some (map word_of_int [a..(if through then z + 1 else z) - 1])"
      unfolding w(1) by (rule run_loop_up) (use False b lim in auto)
    then show ?thesis using False unfolding stop by (simp add: step numeric_range_def flip: a_def z_def)
  qed
qed

lemma run_step_header:
  assumes "loop_name i" "loop_name a" "loop_name e" "loop_name s"
  shows "run_header vals (stepHeader through i a e s) =
    run_loop (vals a) (if through then vals e + vals s else vals e) (vals s)"
proof -
  define stop where "stop = e @ (if through then ''+'' @ s else [])"
  note plain = assms [THEN loop_nameD(1)] assms [THEN loop_nameD(2)] assms [THEN loop_nameD(3)]
  have no: "CHR '';'' \<notin> set stop" "CHR '' '' \<notin> set stop" using plain by (auto simp: stop_def)
  have cuts:
    "cut_at ''for '' (stepHeader through i a e s) =
       Some ([], (i @ '' := '' @ a) @ ''; '' @ (i @ '' != '' @ stop) @ ''; '' @ i @ '' += '' @ s @ '' {'')"
    "cut_at ''; '' ((i @ '' := '' @ a) @ ''; '' @ r) = Some (i @ '' := '' @ a, r)"
    "cut_at ''; '' ((i @ '' != '' @ stop) @ ''; '' @ r) = Some (i @ '' != '' @ stop, r)"
    "cut_at '' := '' (i @ '' := '' @ a) = Some (i, a)"
    "cut_at '' != '' (i @ '' != '' @ stop) = Some (i, stop)"
    "cut_at '' += '' (i @ '' += '' @ s @ '' {'') = Some (i, s @ '' {'')"
    "cut_at '' {'' (s @ '' {'') = Some (s, [])" for r
    using cut_at_first [of "''for ''" "[]" "i @ '' := '' @ a @ ''; '' @ i @ '' != '' @ stop @ ''; '' @ i @ '' += '' @ s @ '' {''"]
      cut_at_first [of "''; ''" "i @ '' := '' @ a" r] cut_at_first [of "''; ''" "i @ '' != '' @ stop" r]
      cut_at_first [of "'' := ''" i a] cut_at_first [of "'' != ''" i stop] cut_at_first [of "'' += ''" i "s @ '' {''"]
      cut_at_first [of "'' {''" s "[]"] plain no
    by (simp_all add: stepHeader_def stop_def)
  have sum: "go_sum vals stop = (if through then vals e + vals s else vals e)"
  proof -
    have "cut_at ''+'' (e @ ''+'' @ s) = Some (e, s)" by (rule cut_at_first) (use plain in simp_all)
    moreover have "cut_at ''+'' e = None" using plain by (simp add: cut_at_def index_str_absent)
    ultimately show ?thesis by (cases through) (simp_all add: go_sum_def stop_def)
  qed
  show ?thesis
    by (simp only: run_header_def cuts Option.bind.simps prod.case sum simp_thms if_True)
qed

text \<open>
  Claim C9. The loop that is written for \<^verbatim>\<open>for i from a to z\<close> and \<^verbatim>\<open>for i from a through z\<close> ends and runs through
  the integers from \<open>a\<close> up or down to \<open>z\<close>, without or with \<open>z\<close>, whatever the wrap-around of the sum in its
  condition does - unless it is to run through all 64-bit integers, when the sum is the start value.
\<close>

theorem numeric_loop_visits:
  assumes "loop_name i" "loop_name a" "loop_name e" "loop_name s"
    and "vals s = (if vals e <s vals a then - 1 else 1)"
    and "\<not> (through \<and> \<bar>sint (vals e) - sint (vals a)\<bar> = 2 ^ 64 - 1)"
  shows "run_header vals (stepHeader through i a e s) =
    Some (map word_of_int (numeric_range through (sint (vals a)) (sint (vals e))))"
  unfolding run_step_header [OF assms(1-4)] assms(5) by (rule run_loop_range [OF assms(6)])

theorem numeric_loop_visits_witness:
  "run_header (\<lambda>x. if x = ''_iStart'' then 2 else if x = ''_iEnd'' then 5 else 1)
     (stepHeader True ''i'' ''_iStart'' ''_iEnd'' ''_iStep'') = Some [2, 3, 4, 5]"
proof -
  let ?v = "\<lambda>x::string. if x = ''_iStart'' then 2 else if x = ''_iEnd'' then 5 else (1 :: 64 word)"
  have "loop_name ''i''" "loop_name ''_iStart''" "loop_name ''_iEnd''" "loop_name ''_iStep''"
    by (simp_all add: loop_name_def)
  moreover have "?v ''_iStep'' = (if ?v ''_iEnd'' <s ?v ''_iStart'' then - 1 else 1)"
    by (simp add: word_sless_alt)
  moreover have "\<not> (True \<and> \<bar>sint (?v ''_iEnd'') - sint (?v ''_iStart'')\<bar> = 2 ^ 64 - 1)" by simp
  ultimately have "run_header ?v (stepHeader True ''i'' ''_iStart'' ''_iEnd'' ''_iStep'') =
      Some (map word_of_int (numeric_range True (sint (?v ''_iStart'')) (sint (?v ''_iEnd''))))"
    by (rule numeric_loop_visits)
  also have "numeric_range True (sint (?v ''_iStart'')) (sint (?v ''_iEnd'')) = [2, 3, 4, 5]"
    by (simp add: numeric_range_def upto_rec1)
  finally show ?thesis by simp
qed

text \<open>The exception: a loop through all 64-bit integers does not run at all.\<close>

lemma full_range_is_empty:
  assumes "loop_name i" "loop_name a" "loop_name e" "loop_name s"
    and "vals a = word_of_int (- (2 ^ 63))" "vals e = word_of_int (2 ^ 63 - 1)" "vals s = 1"
  shows "run_header vals (stepHeader True i a e s) = Some []"
  using assms by (simp add: run_step_header run_loop.simps)

end
