(* ===== verification/GoDecl.thy ===== *)
theory GoDecl
  imports GoKnot
begin

text \<open>
  \<^verbatim>\<open>internal/codegen/codegen_decl.go\<close>: declarations, with the type parameters that functions of the Kukicha
  library get (\<^verbatim>\<open>codegen_stdlib.go\<close>).
\<close>

section \<open>Types\<close>

text \<open>\<^verbatim>\<open>g.write(line)\<close> and \<^verbatim>\<open>g.writeLine("")\<close>\<close>

definition put_open :: "string \<Rightarrow> unit gen" where
  "put_open s = do { put_text s; put_line [] }"

definition generateTypeDecl :: "TypeDecl \<Rightarrow> unit gen" where
  "generateTypeDecl d =
     (if tdAliasType d \<noteq> NilType then do {
        ty \<leftarrow> asks (\<lambda>g. generateTypeAnnotation g (tdAliasType d));
        put_line (''type '' @ identValue (tdName d) @ (if tdIsAlias d then '' = '' else '' '') @ ty) }
      else do {
        put_open (''type '' @ identValue (tdName d) @ '' struct {'');
        indented (each_do (\<lambda>f. do {
          ty \<leftarrow> asks (\<lambda>g. generateTypeAnnotation g (fieldType f));
          put_line (identValue (fieldName f) @ '' '' @ ty @
            (if fieldTag f \<noteq> [] then '' '' @ [CHR 0x60] @ fieldTag f @ [CHR 0x60] else [])) }) (tdFields d));
        put_line ''}'' })"

definition generateInterfaceDecl :: "Identifier \<Rightarrow> MethodSignature list \<Rightarrow> unit gen" where
  "generateInterfaceDecl name methods = do {
     put_open (''type '' @ identValue name @ '' interface {'');
     indented (each_do (\<lambda>m. do {
       params \<leftarrow> asks (\<lambda>g. generateFunctionParameters g (sigParameters m));
       returns \<leftarrow> asks (\<lambda>g. generateReturnTypes g (sigReturns m));
       put_line (identValue (sigName m) @ ''('' @ params @ '')'' @ (if returns \<noteq> [] then '' '' @ returns else [])) }) methods);
     put_line ''}'' }"

section \<open>Enums\<close>

fun hasMethodOnType :: "string \<Rightarrow> string \<Rightarrow> Declaration list \<Rightarrow> bool" where
  "hasMethodOnType typeName methodName [] = False"
| "hasMethodOnType typeName methodName (FunctionDecl t n ps rs b (Some r) ds # decls) =
     (identValue n = methodName \<and>
        (case receiverType r of NamedType _ x \<Rightarrow> x = typeName | PrimitiveType _ x \<Rightarrow> x = typeName | _ \<Rightarrow> False)
      \<or> hasMethodOnType typeName methodName decls)"
| "hasMethodOnType typeName methodName (_ # decls) = hasMethodOnType typeName methodName decls"

definition generateVariantEnumDecl :: "Identifier \<Rightarrow> EnumCase list \<Rightarrow> unit gen" where
  "generateVariantEnumDecl name cases = do {
     let markerMethod = ''is'' @ identValue name;
     each_do (\<lambda>c. update (\<lambda>g. g\<lparr>variantCaseTypes :=
       (identValue (caseName c), identValue name) # variantCaseTypes g\<rparr>)) cases;
     put_line (''type '' @ identValue name @ '' interface{ '' @ markerMethod @ ''() }'');
     each_do (\<lambda>c. do {
       put_line [];
       (if caseFields c = [] then put_line (''type '' @ identValue (caseName c) @ '' struct{}'')
        else do {
          put_line (''type '' @ identValue (caseName c) @ '' struct {'');
          indented (each_do (\<lambda>f. do {
            ty \<leftarrow> asks (\<lambda>g. generateTypeAnnotation g (fieldType f));
            put_line (identValue (fieldName f) @ '' '' @ ty) }) (caseFields c));
          put_line ''}'' });
       put_line (''func ('' @ identValue (caseName c) @ '') '' @ markerMethod @ ''() {}'') }) cases }"

definition is_string_literal :: "Expression \<Rightarrow> bool" where
  "is_string_literal e = (case e of StringExpr _ _ _ _ _ \<Rightarrow> True | _ \<Rightarrow> False)"

text \<open>The \<^verbatim>\<open>String\<close> method of an enum.\<close>

definition generateEnumString :: "(rune \<Rightarrow> bool) \<Rightarrow> string \<Rightarrow> EnumCase list \<Rightarrow> bool \<Rightarrow> unit gen" where
  "generateEnumString isprint name cases isString = do {
     put_line [];
     put_line (''func (e '' @ name @ '') String() string {'');
     indented (do {
       put_line ''switch e {'';
       each_do (\<lambda>c. do {
         put_line (''case '' @ name @ identValue (caseName c) @ '':'');
         indented (put_line (''return '' @ Quote isprint (identValue (caseName c)))) }) cases;
       put_line ''default:'';
       indented (if isString then put_line ''return string(e)''
                 else do {
                   use_import ''fmt'';
                   put_line (''return fmt.Sprintf('' @ dquoted (name @ ''(%d)'') @ '', int(e))'') });
       put_line ''}'' });
     put_line ''}'' }"

definition generateEnumDecl :: "(rune \<Rightarrow> bool) \<Rightarrow> renderer \<Rightarrow> Identifier \<Rightarrow> EnumCase list \<Rightarrow> unit gen" where
  "generateEnumDecl isprint R ident cases =
     (if IsVariant cases then generateVariantEnumDecl ident cases
      else if cases = [] then crash ()
      else do {
        let name = identValue ident;
        update (\<lambda>g. g\<lparr>enumTypes := name # enumTypes g\<rparr>);
        let isString = is_string_literal (caseValue (cases ! 0));
        put_line (''type '' @ name @ '' '' @ (if isString then ''string'' else ''int''));
        put_line [];
        put_line ''const ('';
        indented (each_do (\<lambda>c. do {
          v \<leftarrow> rendered R (caseValue c);
          put_line (name @ identValue (caseName c) @ '' '' @ name @ '' = '' @ v) }) cases);
        put_line '')'';
        hasString \<leftarrow> asks (\<lambda>g. hasMethodOnType name ''String'' (programDeclarations (program g)));
        (if hasString then give () else generateEnumString isprint name cases isString) })"

section \<open>Constants and variables\<close>

definition generateConstDecl :: "renderer \<Rightarrow> ConstSpec list \<Rightarrow> unit gen" where
  "generateConstDecl R specs =
     (case specs of
        [] \<Rightarrow> give ()
      | [s] \<Rightarrow> do {
          v \<leftarrow> rendered R (specValue s);
          put_line (''const '' @ identValue (specName s) @ '' = '' @ v) }
      | _ \<Rightarrow> do {
          put_line ''const ('';
          indented (each_do (\<lambda>s. do {
            v \<leftarrow> rendered R (specValue s);
            put_line (identValue (specName s) @ '' = '' @ v) }) specs);
          put_line '')'' })"

definition generateGlobalVarDecl :: "renderer \<Rightarrow> Identifier list \<Rightarrow> TypeAnnotation \<Rightarrow> Expression list \<Rightarrow> unit gen" where
  "generateGlobalVarDecl R names ty vs =
     (if names = [] then give ()
      else do {
        varType \<leftarrow> asks (\<lambda>g. generateTypeAnnotation g ty);
        values \<leftarrow> each (rendered R) vs;
        let head = ''var '' @ name_texts names;
        put_line
          (if ty \<noteq> NilType then
             head @ '' '' @ varType @ (if vs \<noteq> [] then '' = '' @ go_join values '', '' else [])
           else if vs \<noteq> [] then head @ '' = '' @ go_join values '', ''
           else head @ '' any'') })"

section \<open>Functions\<close>

text \<open>\<^verbatim>\<open>generatedSliceGenericClass\<close>\<close>

definition generatedSliceGenericClass :: "(string \<times> string) list" where
  "generatedSliceGenericClass =
     [(''concurrent.Map'', ''TR''), (''concurrent.MapWithLimit'', ''TR''), (''maps.Contains'', ''TK''), (''maps.Filter'', ''TK''),
      (''maps.Has'', ''TK''), (''maps.Keys'', ''TK''), (''maps.MapValues'', ''TK''), (''maps.Merge'', ''TK''),
      (''maps.Omit'', ''TK''), (''maps.Pick'', ''TK''), (''maps.SortedKeys'', ''TK''), (''maps.Values'', ''TK''),
      (''set.Add'', ''K''), (''set.AddIn'', ''K''), (''set.Contains'', ''K''), (''set.Difference'', ''K''),
      (''set.Equal'', ''K''), (''set.From'', ''K''), (''set.Intersect'', ''K''), (''set.IsEmpty'', ''K''),
      (''set.IsSubset'', ''K''), (''set.IsSuperset'', ''K''), (''set.Len'', ''K''), (''set.New'', ''K''),
      (''set.Remove'', ''K''), (''set.RemoveIn'', ''K''), (''set.ToSlice'', ''K''), (''set.Union'', ''K''),
      (''slice.Chunk'', ''T''), (''slice.Concat'', ''T''), (''slice.Contains'', ''K''), (''slice.Drop'', ''T''),
      (''slice.DropLast'', ''T''), (''slice.Filter'', ''T''), (''slice.Find'', ''T''), (''slice.FindIndex'', ''T''),
      (''slice.FindLast'', ''T''), (''slice.FindLastOr'', ''T''), (''slice.FindOr'', ''T''), (''slice.First'', ''T''),
      (''slice.FirstOne'', ''T''), (''slice.FirstOr'', ''T''), (''slice.Get'', ''T''), (''slice.GetOr'', ''T''),
      (''slice.GroupBy'', ''TK''), (''slice.IndexOf'', ''K''), (''slice.IsEmpty'', ''T''), (''slice.IsNotEmpty'', ''T''),
      (''slice.Last'', ''T''), (''slice.LastOne'', ''T''), (''slice.LastOr'', ''T''), (''slice.Map'', ''TR''),
      (''slice.Pop'', ''T''), (''slice.Reverse'', ''T''), (''slice.Shift'', ''T''), (''slice.Sort'', ''T''),
      (''slice.SortBy'', ''TO''), (''slice.Unique'', ''K''), (''sort.By'', ''T''), (''sort.ByKey'', ''TO''),
      (''sort.Reverse'', ''T'')]"

definition GetSliceGenericClass :: "string \<Rightarrow> string" where
  "GetSliceGenericClass name = (case map_of generatedSliceGenericClass name of Some c \<Rightarrow> c | None \<Rightarrow> [])"

definition class_params :: "string \<Rightarrow> string \<Rightarrow> TypeParameter list" where
  "class_params pkg name = typeParamsFromClass (GetSliceGenericClass (pkg @ ''.'' @ name))"

definition inferDBTypeParameters :: "string \<Rightarrow> TypeParameter list" where
  "inferDBTypeParameters name =
     (if name \<in> set [''ScanAll'', ''ScanOne''] then [type_param ''T'' ''any'' ''any''] else [])"

text \<open>The helpers of \<^verbatim>\<open>fetch\<close> and \<^verbatim>\<open>json\<close> in a list become generic if their signature mentions \<^verbatim>\<open>any\<close>.\<close>

definition any_param :: "string list \<Rightarrow> string \<Rightarrow> Parameter list \<Rightarrow> TypeAnnotation list \<Rightarrow> TypeParameter list" where
  "any_param names name params returns =
     (if name \<in> set names \<and> list_ex (\<lambda>ty. typeContainsPlaceholder ty ''any'') (map paramType params @ returns)
      then [type_param ''T'' ''any'' ''any''] else [])"

definition inferFetchTypeParameters :: "string \<Rightarrow> Parameter list \<Rightarrow> TypeAnnotation list \<Rightarrow> TypeParameter list" where
  "inferFetchTypeParameters = any_param [''Json'', ''GetJson'', ''PostJson'']"

definition inferJSONTypeParameters :: "string \<Rightarrow> Parameter list \<Rightarrow> TypeAnnotation list \<Rightarrow> TypeParameter list" where
  "inferJSONTypeParameters = any_param [''DecodeRead'', ''Parse'', ''ParseString'']"

text \<open>The package that is compiled decides how the type parameters are found; the first that fits counts.\<close>

definition functionTypeParams :: "string \<Rightarrow> Parameter list \<Rightarrow> TypeAnnotation list \<Rightarrow> generator \<Rightarrow> TypeParameter list" where
  "functionTypeParams name params returns g =
     (if isStdlibIter g then inferStdlibTypeParameters params returns g
      else if isStdlibSlice g then class_params ''slice'' name
      else if isStdlibSort g then class_params ''sort'' name
      else if from_stdlib ''concurrent'' g then class_params ''concurrent'' name
      else if from_stdlib ''fetch'' g then inferFetchTypeParameters name params returns
      else if from_stdlib ''json'' g then inferJSONTypeParameters name params returns
      else if from_stdlib ''set'' g then class_params ''set'' name
      else if from_stdlib ''maps'' g then class_params ''maps'' name
      else if from_stdlib ''db'' g then inferDBTypeParameters name
      else [])"

definition receiver_text :: "Receiver option \<Rightarrow> generator \<Rightarrow> string" where
  "receiver_text r g =
     (case r of None \<Rightarrow> []
      | Some rc \<Rightarrow> ''('' @ identValue (receiverName rc) @ '' '' @ generateTypeAnnotation g (receiverType rc) @ '') '')"

definition generateFunctionDecl ::
  "renderer \<Rightarrow> Identifier \<Rightarrow> Parameter list \<Rightarrow> TypeAnnotation list \<Rightarrow> BlockStmt option \<Rightarrow> Receiver option \<Rightarrow> unit gen" where
  "generateFunctionDecl R name params returns body receiver = do {
     typeParams \<leftarrow> asks (functionTypeParams (identValue name) params returns);
     update (\<lambda>g. g\<lparr>placeholderMap := Some (add_placeholders typeParams []), currentFuncName := identValue name\<rparr>);
     rc \<leftarrow> asks (receiver_text receiver);
     tps \<leftarrow> generateTypeParameters typeParams;
     ps \<leftarrow> asks (\<lambda>g. generateFunctionParameters g params);
     rs \<leftarrow> asks (\<lambda>g. generateReturnTypes (g\<lparr>processingReturnType := True\<rparr>) returns);
     update (\<lambda>g. g\<lparr>processingReturnType := False\<rparr>);
     put_open (''func '' @ rc @ identValue name @ tps @ ''('' @ ps @ '')'' @ (if rs \<noteq> [] then '' '' @ rs else []) @ '' {'');
     update (\<lambda>g. g\<lparr>currentReturnTypes := returns\<rparr>);
     (case body of None \<Rightarrow> give () | Some b \<Rightarrow> indented (block R (Some b)));
     put_line ''}'';
     update (\<lambda>g. g\<lparr>placeholderMap := None, currentFuncName := [], currentReturnTypes := []\<rparr>) }"

section \<open>The dispatch\<close>

definition generateDeclaration :: "(rune \<Rightarrow> bool) \<Rightarrow> renderer \<Rightarrow> Declaration \<Rightarrow> unit gen" where
  "generateDeclaration isprint R d = do {
     lineDirective (DeclPos d);
     (case d of
        TypeDeclaration td \<Rightarrow> generateTypeDecl td
      | InterfaceDecl t n ms ds \<Rightarrow> generateInterfaceDecl n ms
      | FunctionDecl t n ps rs b rc ds \<Rightarrow> generateFunctionDecl R n ps rs b rc
      | VarDeclaration (VarDeclStmt names ty vs t onerr) \<Rightarrow> generateGlobalVarDecl R names ty vs
      | ConstDecl t specs \<Rightarrow> generateConstDecl R specs
      | EnumDecl t n cases ds \<Rightarrow> generateEnumDecl isprint R n cases
      | _ \<Rightarrow> give ()) }"

end
