(* ===== verification/GoWalk.thy ===== *)
theory GoWalk
  imports GoDecl
begin

text \<open>
  \<^verbatim>\<open>internal/codegen/codegen_walk.go\<close>, the scans of \<^verbatim>\<open>codegen_imports.go\<close> and \<^verbatim>\<open>needsExplain\<close>: what the generator
  finds out about a program before it writes the imports.
\<close>

section \<open>Blocks of a statement\<close>

definition in_block :: "(Statement \<Rightarrow> bool) \<Rightarrow> BlockStmt option \<Rightarrow> bool" where
  "in_block f b = (case b of None \<Rightarrow> False | Some (t, ss) \<Rightarrow> list_ex f ss)"

definition in_otherwise :: "(Statement \<Rightarrow> bool) \<Rightarrow> OtherwiseCase option \<Rightarrow> bool" where
  "in_otherwise f ow = (case ow of None \<Rightarrow> False | Some (t, b) \<Rightarrow> in_block f b)"

lemma in_block_cong [fundef_cong]:
  "b = b' \<Longrightarrow> (\<And>t ss s. b' = Some (t, ss) \<Longrightarrow> s \<in> set ss \<Longrightarrow> f s = f' s) \<Longrightarrow> in_block f b = in_block f' b'"
  by (auto simp: in_block_def list_ex_iff split: option.splits)

lemma in_otherwise_cong [fundef_cong]:
  "w = w' \<Longrightarrow> (\<And>t u ss s. w' = Some (t, Some (u, ss)) \<Longrightarrow> s \<in> set ss \<Longrightarrow> f s = f' s) \<Longrightarrow>
     in_otherwise f w = in_otherwise f' w'"
  by (auto simp: in_otherwise_def in_block_def list_ex_iff split: option.splits)

section \<open>Names of the program\<close>

definition names_in :: "Identifier option \<Rightarrow> string list" where
  "names_in i = (case i of None \<Rightarrow> [] | Some n \<Rightarrow> [identValue n])"

fun stmt_names :: "Statement \<Rightarrow> string list" where
  "stmt_names (VarDeclStmt ns ty vs t oe) = map identValue ns"
| "stmt_names (AssignStmt ts vs t oe) = ident_names ts"
| "stmt_names (ForRangeStmt t v i c b) =
     names_in v @ names_in i @
     (case b of None \<Rightarrow> [] | Some (bt, ss) \<Rightarrow> concat (map stmt_names ss))"
| "stmt_names (ForNumericStmt t v a z th b) =
     names_in v @ (case b of None \<Rightarrow> [] | Some (bt, ss) \<Rightarrow> concat (map stmt_names ss))"
| "stmt_names (ForConditionStmt t c b) = (case b of None \<Rightarrow> [] | Some (bt, ss) \<Rightarrow> concat (map stmt_names ss))"
| "stmt_names (IfStmt t i c b alt) =
     (case b of None \<Rightarrow> [] | Some (bt, ss) \<Rightarrow> concat (map stmt_names ss)) @ stmt_names alt"
| "stmt_names (ElseStmt t b) = (case b of None \<Rightarrow> [] | Some (bt, ss) \<Rightarrow> concat (map stmt_names ss))"
| "stmt_names (SwitchStmt t e cs ow) =
     concat (map (\<lambda>(ct, vs, b). case b of None \<Rightarrow> [] | Some (bt, ss) \<Rightarrow> concat (map stmt_names ss)) cs) @
     (case ow of Some (wt, Some (bt, ss)) \<Rightarrow> concat (map stmt_names ss) | _ \<Rightarrow> [])"
| "stmt_names (TypeSwitchStmt t e binding cs ow) =
     names_in binding @
     concat (map (\<lambda>(ct, ty, b). case b of None \<Rightarrow> [] | Some (bt, ss) \<Rightarrow> concat (map stmt_names ss)) cs) @
     (case ow of Some (wt, Some (bt, ss)) \<Rightarrow> concat (map stmt_names ss) | _ \<Rightarrow> [])"
| "stmt_names (SelectStmt t cs ow) =
     concat (map (\<lambda>(ct, bs, r, s, b). case b of None \<Rightarrow> [] | Some (bt, ss) \<Rightarrow> concat (map stmt_names ss)) cs) @
     (case ow of Some (wt, Some (bt, ss)) \<Rightarrow> concat (map stmt_names ss) | _ \<Rightarrow> [])"
| "stmt_names (GoStmt t c b) = (case b of None \<Rightarrow> [] | Some (bt, ss) \<Rightarrow> concat (map stmt_names ss))"
| "stmt_names _ = []"


definition declared_names :: "Declaration \<Rightarrow> string list" where
  "declared_names d =
     (case d of
        FunctionDecl t n ps rs b receiver ds \<Rightarrow>
          map (\<lambda>p. identValue (fst p)) ps @
          (case receiver of None \<Rightarrow> [] | Some r \<Rightarrow> [identValue (receiverName r)]) @
          (case b of None \<Rightarrow> [] | Some (bt, ss) \<Rightarrow> concat (map stmt_names ss))
      | _ \<Rightarrow> [])"

definition collectReservedNames :: "generator \<Rightarrow> generator" where
  "collectReservedNames g =
     g\<lparr>reservedNames := concat (map declared_names (programDeclarations (program g)))\<rparr>"

section \<open>Walking over expressions\<close>

text \<open>\<^verbatim>\<open>walkExpr\<close> and \<^verbatim>\<open>walkStmt\<close>: does the visitor accept an expression that is reached? The parts of an interpolated
  string, the blocks of \<^verbatim>\<open>defer\<close> and the default values of parameters are not reached.\<close>

fun walkExpr :: "(Expression \<Rightarrow> bool) \<Rightarrow> Expression \<Rightarrow> bool"
  and walkStmt :: "(Expression \<Rightarrow> bool) \<Rightarrow> Statement \<Rightarrow> bool" where
  "walkExpr v e =
     (e \<noteq> NilExpr \<and>
      (v e \<or>
       (case e of
          BinaryExpr t l op r \<Rightarrow> walkExpr v l \<or> walkExpr v r
        | IsExpr t x c b \<Rightarrow> walkExpr v x
        | UnaryExpr t op r \<Rightarrow> walkExpr v r
        | PipeExpr t l r m \<Rightarrow> walkExpr v l \<or> walkExpr v r
        | CallExpr t f as ns vr \<Rightarrow>
            walkExpr v f \<or> list_ex (walkExpr v) as \<or> list_ex (\<lambda>(nt, i, x). walkExpr v x) ns
        | MethodCallExpr t ob m as ns vr \<Rightarrow>
            walkExpr v ob \<or> list_ex (walkExpr v) as \<or> list_ex (\<lambda>(nt, i, x). walkExpr v x) ns
        | FieldAccessExpr t ob f \<Rightarrow> walkExpr v ob
        | IndexExpr t l i \<Rightarrow> walkExpr v l \<or> walkExpr v i
        | SliceExpr t l a b \<Rightarrow> walkExpr v l \<or> walkExpr v a \<or> walkExpr v b
        | ErrorExpr t m \<Rightarrow> walkExpr v m
        | PanicExpr t m \<Rightarrow> walkExpr v m
        | ReturnExpr t vs \<Rightarrow> list_ex (walkExpr v) vs
        | OnErrExpr t x d \<Rightarrow> walkExpr v x \<or> walkExpr v d
        | MakeExpr t ty as \<Rightarrow> list_ex (walkExpr v) as
        | CloseExpr t c \<Rightarrow> walkExpr v c
        | ReceiveExpr t c \<Rightarrow> walkExpr v c
        | AddressOfExpr t x \<Rightarrow> walkExpr v x
        | DerefExpr t x \<Rightarrow> walkExpr v x
        | TypeCastExpr t x ty \<Rightarrow> walkExpr v x
        | TypeAssertionExpr t x ty \<Rightarrow> walkExpr v x
        | StructLiteralExpr t ty fs m \<Rightarrow> list_ex (\<lambda>(i, x). walkExpr v x) fs
        | ListLiteralExpr t ty es m \<Rightarrow> list_ex (walkExpr v) es
        | MapLiteralExpr t kt vt ps m \<Rightarrow> list_ex (\<lambda>(k, x). walkExpr v k \<or> walkExpr v x) ps
        | UntypedCompositeLiteral t kd es m ty \<Rightarrow> list_ex (\<lambda>(k, x). walkExpr v k \<or> walkExpr v x) es
        | FunctionLiteral t ps rs b \<Rightarrow> in_block (walkStmt v) b
        | ArrowLambda t ps x b \<Rightarrow> walkExpr v x \<or> in_block (walkStmt v) b
        | BlockExpr t b \<Rightarrow> in_block (walkStmt v) b
        | PipedSwitchExpr t l sw \<Rightarrow>
            walkExpr v l \<or>
            (case sw of
               SwitchStmt st x cs ow \<Rightarrow>
                 list_ex (\<lambda>(ct, vs, b). list_ex (walkExpr v) vs \<or> in_block (walkStmt v) b) cs \<or>
                 in_otherwise (walkStmt v) ow
             | TypeSwitchStmt st x bd cs ow \<Rightarrow>
                 list_ex (\<lambda>(ct, ty, b). in_block (walkStmt v) b) cs \<or> in_otherwise (walkStmt v) ow
             | _ \<Rightarrow> False)
        | IfExpression t c a b \<Rightarrow> walkExpr v c \<or> walkExpr v a \<or> walkExpr v b
        | _ \<Rightarrow> False)))"
| "walkStmt v s =
     (case s of
        VarDeclStmt ns ty vs t oe \<Rightarrow>
          list_ex (walkExpr v) vs \<or> (case oe of None \<Rightarrow> False | Some (ot, h, x) \<Rightarrow> walkExpr v h)
      | AssignStmt ts vs t oe \<Rightarrow>
          list_ex (walkExpr v) ts \<or> list_ex (walkExpr v) vs \<or>
          (case oe of None \<Rightarrow> False | Some (ot, h, x) \<Rightarrow> walkExpr v h)
      | ReturnStmt t vs \<Rightarrow> list_ex (walkExpr v) vs
      | IncDecStmt t x op \<Rightarrow> walkExpr v x
      | IfStmt t i c b alt \<Rightarrow> walkStmt v i \<or> walkExpr v c \<or> in_block (walkStmt v) b \<or> walkStmt v alt
      | ElseStmt t b \<Rightarrow> in_block (walkStmt v) b
      | SwitchStmt t e cs ow \<Rightarrow>
          walkExpr v e \<or> list_ex (\<lambda>(ct, vs, b). list_ex (walkExpr v) vs \<or> in_block (walkStmt v) b) cs \<or>
          in_otherwise (walkStmt v) ow
      | SelectStmt t cs ow \<Rightarrow>
          list_ex (\<lambda>(ct, bs, r, sd, b). walkExpr v r \<or>
            (case sd of SendStmt st x c \<Rightarrow> walkExpr v x \<or> walkExpr v c | _ \<Rightarrow> False) \<or> in_block (walkStmt v) b) cs \<or>
          in_otherwise (walkStmt v) ow
      | TypeSwitchStmt t e bd cs ow \<Rightarrow>
          walkExpr v e \<or> list_ex (\<lambda>(ct, ty, b). in_block (walkStmt v) b) cs \<or> in_otherwise (walkStmt v) ow
      | ForRangeStmt t x i c b \<Rightarrow> walkExpr v c \<or> in_block (walkStmt v) b
      | ForNumericStmt t x a z th b \<Rightarrow> walkExpr v a \<or> walkExpr v z \<or> in_block (walkStmt v) b
      | ForConditionStmt t c b \<Rightarrow> walkExpr v c \<or> in_block (walkStmt v) b
      | DeferStmt t c b \<Rightarrow> walkExpr v c
      | GoStmt t c b \<Rightarrow> walkExpr v c \<or> in_block (walkStmt v) b
      | SendStmt t x c \<Rightarrow> walkExpr v x \<or> walkExpr v c
      | ExpressionStmt e oe \<Rightarrow>
          walkExpr v e \<or> (case oe of None \<Rightarrow> False | Some (ot, h, x) \<Rightarrow> walkExpr v h)
      | _ \<Rightarrow> False)"

declare walkExpr.simps [simp del] walkStmt.simps [simp del]

text \<open>The bodies of the functions of a program.\<close>

definition in_functions :: "(Statement \<Rightarrow> bool) \<Rightarrow> generator \<Rightarrow> bool" where
  "in_functions f g =
     list_ex (\<lambda>d. case d of FunctionDecl t n ps rs b rc ds \<Rightarrow> in_block f b | _ \<Rightarrow> False)
       (programDeclarations (program g))"

definition walkProgram :: "(Expression \<Rightarrow> bool) \<Rightarrow> generator \<Rightarrow> bool" where
  "walkProgram v g = in_functions (walkStmt v) g"

definition needsPrintBuiltin :: "generator \<Rightarrow> bool" where
  "needsPrintBuiltin g = walkProgram (\<lambda>e. case e of CallExpr t f as ns vr \<Rightarrow> is_print f | _ \<Rightarrow> False) g"

definition needsErrorsPackage :: "generator \<Rightarrow> bool" where
  "needsErrorsPackage g =
     walkProgram (\<lambda>e. case e of
         ErrorExpr t m \<Rightarrow>
           (case m of
              StringExpr st v interpolated raw parts \<Rightarrow> \<not> ((interpolated \<or> has_sep v) \<and> length parts > 0)
            | _ \<Rightarrow> True)
       | _ \<Rightarrow> False) g"

section \<open>Explanations\<close>

definition has_explain :: "OnErrClause option \<Rightarrow> bool" where
  "has_explain oe = (case oe of None \<Rightarrow> False | Some (t, h, explain, x) \<Rightarrow> explain \<noteq> [])"

fun stmtHasExplain :: "Statement \<Rightarrow> bool" where
  "stmtHasExplain (VarDeclStmt ns ty vs t oe) = has_explain oe"
| "stmtHasExplain (AssignStmt ts vs t oe) = has_explain oe"
| "stmtHasExplain (ExpressionStmt e oe) = has_explain oe"
| "stmtHasExplain (IfStmt t i c b alt) = (in_block stmtHasExplain b \<or> stmtHasExplain alt)"
| "stmtHasExplain (ForRangeStmt t x i c b) = in_block stmtHasExplain b"
| "stmtHasExplain (ForNumericStmt t x a z th b) = in_block stmtHasExplain b"
| "stmtHasExplain (ForConditionStmt t c b) = in_block stmtHasExplain b"
| "stmtHasExplain (SwitchStmt t e cs ow) =
     (list_ex (\<lambda>(ct, vs, b). in_block stmtHasExplain b) cs \<or> in_otherwise stmtHasExplain ow)"
| "stmtHasExplain (TypeSwitchStmt t e bd cs ow) =
     (list_ex (\<lambda>(ct, ty, b). in_block stmtHasExplain b) cs \<or> in_otherwise stmtHasExplain ow)"
| "stmtHasExplain (SelectStmt t cs ow) =
     (list_ex (\<lambda>(ct, bs, r, sd, b). in_block stmtHasExplain b) cs \<or> in_otherwise stmtHasExplain ow)"
| "stmtHasExplain (GoStmt t c b) = in_block stmtHasExplain b"
| "stmtHasExplain _ = False"

definition needsExplain :: "generator \<Rightarrow> bool" where
  "needsExplain g = in_functions stmtHasExplain g"

end
