(* ===== verification/GoScan.thy ===== *)
theory GoScan
  imports GoWalk
begin

text \<open>
  The scans that act on the generator: \<^verbatim>\<open>exprHasNonPrintfInterpolation\<close> (\<^verbatim>\<open>codegen_walk.go\<close>) renders the objects of
  method calls, and \<^verbatim>\<open>scanExprForAutoImports\<close> (\<^verbatim>\<open>codegen_imports.go\<close>) records an import.
\<close>

section \<open>Searching with effects\<close>

definition or_else :: "bool gen \<Rightarrow> bool gen \<Rightarrow> bool gen" where
  "or_else a b = do { x \<leftarrow> a; if x then give True else b }"

fun any_of :: "('a \<Rightarrow> bool gen) \<Rightarrow> 'a list \<Rightarrow> bool gen" where
  "any_of f [] = give False"
| "any_of f (x # xs) = or_else (f x) (any_of f xs)"

definition block_any :: "(Statement \<Rightarrow> bool gen) \<Rightarrow> BlockStmt option \<Rightarrow> bool gen" where
  "block_any f b = (case b of None \<Rightarrow> give False | Some (t, ss) \<Rightarrow> any_of f ss)"

definition otherwise_any :: "(Statement \<Rightarrow> bool gen) \<Rightarrow> OtherwiseCase option \<Rightarrow> bool gen" where
  "otherwise_any f ow = (case ow of None \<Rightarrow> give False | Some (t, b) \<Rightarrow> block_any f b)"

lemma any_of_cong [fundef_cong]:
  "xs = ys \<Longrightarrow> (\<And>x. x \<in> set ys \<Longrightarrow> f x = f' x) \<Longrightarrow> any_of f xs = any_of f' ys"
  by (induction ys arbitrary: xs) auto

lemma block_any_cong [fundef_cong]:
  "b = b' \<Longrightarrow> (\<And>t ss s. b' = Some (t, ss) \<Longrightarrow> s \<in> set ss \<Longrightarrow> f s = f' s) \<Longrightarrow> block_any f b = block_any f' b'"
  by (auto simp: block_any_def split: option.splits intro!: any_of_cong)

lemma otherwise_any_cong [fundef_cong]:
  "w = w' \<Longrightarrow> (\<And>t u ss s. w' = Some (t, Some (u, ss)) \<Longrightarrow> s \<in> set ss \<Longrightarrow> f s = f' s) \<Longrightarrow>
     otherwise_any f w = otherwise_any f' w'"
  by (auto simp: otherwise_any_def split: option.splits intro!: block_any_cong)

lemma each_do_cong [fundef_cong]:
  "xs = ys \<Longrightarrow> (\<And>x. x \<in> set ys \<Longrightarrow> f x = f' x) \<Longrightarrow> each_do f xs = each_do f' ys"
  by (induction ys arbitrary: xs) auto

section \<open>Interpolation that needs fmt\<close>

definition literalNeedsSprintf :: "string \<Rightarrow> bool \<Rightarrow> StringInterpolation list \<Rightarrow> bool" where
  "literalNeedsSprintf v interpolated parts =
     (if \<not> interpolated \<and> \<not> has_sep v then False
      else if length parts = 0 then has_sep v
      else list_ex (\<lambda>(isLiteral, literal, e). \<not> isLiteral \<or> has_sep literal) parts)"

text \<open>\<^verbatim>\<open>exprHasNonPrintfInterpolation\<close> and \<^verbatim>\<open>stmtHasNonPrintfInterpolation\<close>\<close>

fun exprInterpolates :: "renderer \<Rightarrow> Expression \<Rightarrow> bool gen"
  and stmtInterpolates :: "renderer \<Rightarrow> Statement \<Rightarrow> bool gen" where
  "exprInterpolates R e =
     (case e of
        StringExpr t v interpolated raw parts \<Rightarrow> give (literalNeedsSprintf v interpolated parts)
      | BinaryExpr t l op r \<Rightarrow> or_else (exprInterpolates R l) (exprInterpolates R r)
      | IsExpr t x c b \<Rightarrow> exprInterpolates R x
      | UnaryExpr t op r \<Rightarrow> exprInterpolates R r
      | CallExpr t f as ns vr \<Rightarrow>
          or_else (exprInterpolates R f) (or_else (any_of (exprInterpolates R) as) (any_of (\<lambda>(nt, i, x). exprInterpolates R x) ns))
      | MethodCallExpr t ob m as ns vr \<Rightarrow>
          or_else (exprInterpolates R ob) (do {
            ob_text \<leftarrow> rendered R ob;
            printf \<leftarrow> asks (isPrintfStyleCall ob_text (identValue m));
            or_else (case as of
                       [] \<Rightarrow> give False
                     | a # more_args \<Rightarrow>
                         (if printf then any_of (exprInterpolates R) more_args else or_else (exprInterpolates R a) (any_of (exprInterpolates R) more_args)))
                    (any_of (\<lambda>(nt, i, x). exprInterpolates R x) ns) })
      | FieldAccessExpr t ob f \<Rightarrow> exprInterpolates R ob
      | PipeExpr t l r m \<Rightarrow> or_else (exprInterpolates R l) (exprInterpolates R r)
      | ErrorExpr t m \<Rightarrow> exprInterpolates R m
      | PanicExpr t m \<Rightarrow> exprInterpolates R m
      | ReturnExpr t vs \<Rightarrow> any_of (exprInterpolates R) vs
      | OnErrExpr t x d \<Rightarrow> or_else (exprInterpolates R x) (exprInterpolates R d)
      | MakeExpr t ty as \<Rightarrow> any_of (exprInterpolates R) as
      | CloseExpr t c \<Rightarrow> exprInterpolates R c
      | ReceiveExpr t c \<Rightarrow> exprInterpolates R c
      | IndexExpr t l i \<Rightarrow> or_else (exprInterpolates R l) (exprInterpolates R i)
      | SliceExpr t l a b \<Rightarrow> or_else (exprInterpolates R l) (or_else (exprInterpolates R a) (exprInterpolates R b))
      | TypeCastExpr t x ty \<Rightarrow> exprInterpolates R x
      | TypeAssertionExpr t x ty \<Rightarrow> exprInterpolates R x
      | AddressOfExpr t x \<Rightarrow> exprInterpolates R x
      | DerefExpr t x \<Rightarrow> exprInterpolates R x
      | StructLiteralExpr t ty fs m \<Rightarrow> any_of (\<lambda>(i, x). exprInterpolates R x) fs
      | ListLiteralExpr t ty es m \<Rightarrow> any_of (exprInterpolates R) es
      | MapLiteralExpr t kt vt ps m \<Rightarrow> any_of (\<lambda>(k, x). or_else (exprInterpolates R k) (exprInterpolates R x)) ps
      | UntypedCompositeLiteral t kd es m ty \<Rightarrow> any_of (\<lambda>(k, x). or_else (exprInterpolates R k) (exprInterpolates R x)) es
      | FunctionLiteral t ps rs b \<Rightarrow> block_any (stmtInterpolates R) b
      | ArrowLambda t ps x b \<Rightarrow> or_else (exprInterpolates R x) (block_any (stmtInterpolates R) b)
      | BlockExpr t b \<Rightarrow> block_any (stmtInterpolates R) b
      | PipedSwitchExpr t l sw \<Rightarrow>
          or_else (exprInterpolates R l)
            (case sw of
               SwitchStmt t2 x cs ow \<Rightarrow>
                 or_else (any_of (\<lambda>(ct, vs, b). or_else (any_of (exprInterpolates R) vs) (block_any (stmtInterpolates R) b)) cs) (otherwise_any (stmtInterpolates R) ow)
             | TypeSwitchStmt t2 x bd cs ow \<Rightarrow>
                 or_else (any_of (\<lambda>(ct, ty, b). block_any (stmtInterpolates R) b) cs) (otherwise_any (stmtInterpolates R) ow)
             | _ \<Rightarrow> give False)
      | IfExpression t c a b \<Rightarrow> or_else (exprInterpolates R c) (or_else (exprInterpolates R a) (exprInterpolates R b))
      | _ \<Rightarrow> give False)"
| "stmtInterpolates R s =
     (case s of
        VarDeclStmt ns ty vs t oe \<Rightarrow>
          or_else (any_of (exprInterpolates R) vs) (case oe of None \<Rightarrow> give False | Some (ot, h, x) \<Rightarrow> exprInterpolates R h)
      | AssignStmt ts vs t oe \<Rightarrow>
          or_else (any_of (exprInterpolates R) vs) (case oe of None \<Rightarrow> give False | Some (ot, h, x) \<Rightarrow> exprInterpolates R h)
      | ReturnStmt t vs \<Rightarrow> any_of (exprInterpolates R) vs
      | IfStmt t i c b alt \<Rightarrow> or_else (exprInterpolates R c) (or_else (block_any (stmtInterpolates R) b) (stmtInterpolates R alt))
      | ExpressionStmt e oe \<Rightarrow>
          or_else (exprInterpolates R e) (case oe of None \<Rightarrow> give False | Some (ot, h, x) \<Rightarrow> exprInterpolates R h)
      | ForRangeStmt t x i c b \<Rightarrow> or_else (exprInterpolates R c) (block_any (stmtInterpolates R) b)
      | ForNumericStmt t x a z th b \<Rightarrow> or_else (or_else (exprInterpolates R a) (exprInterpolates R z)) (block_any (stmtInterpolates R) b)
      | ForConditionStmt t c b \<Rightarrow> or_else (exprInterpolates R c) (block_any (stmtInterpolates R) b)
      | ElseStmt t b \<Rightarrow> block_any (stmtInterpolates R) b
      | SwitchStmt t e cs ow \<Rightarrow>
          or_else (exprInterpolates R e) (or_else
            (any_of (\<lambda>(ct, vs, b). or_else (any_of (exprInterpolates R) vs) (block_any (stmtInterpolates R) b)) cs) (otherwise_any (stmtInterpolates R) ow))
      | TypeSwitchStmt t e bd cs ow \<Rightarrow>
          or_else (exprInterpolates R e) (or_else (any_of (\<lambda>(ct, ty, b). block_any (stmtInterpolates R) b) cs) (otherwise_any (stmtInterpolates R) ow))
      | SelectStmt t cs ow \<Rightarrow>
          or_else
            (any_of (\<lambda>(ct, bs, r, sd, b).
               or_else (case r of ReceiveExpr rt c \<Rightarrow> exprInterpolates R c | _ \<Rightarrow> give False)
                 (or_else (case sd of SendStmt t2 x c \<Rightarrow> or_else (exprInterpolates R c) (exprInterpolates R x) | _ \<Rightarrow> give False)
                   (block_any (stmtInterpolates R) b))) cs)
            (otherwise_any (stmtInterpolates R) ow)
      | DeferStmt t c b \<Rightarrow> exprInterpolates R c
      | GoStmt t c b \<Rightarrow> or_else (exprInterpolates R c) (block_any (stmtInterpolates R) b)
      | SendStmt t x c \<Rightarrow> or_else (exprInterpolates R x) (exprInterpolates R c)
      | _ \<Rightarrow> give False)"

declare exprInterpolates.simps [simp del] stmtInterpolates.simps [simp del]

definition needsStringInterpolation :: "renderer \<Rightarrow> bool gen" where
  "needsStringInterpolation R = do {
     decls \<leftarrow> asks (\<lambda>g. programDeclarations (program g));
     any_of (\<lambda>d. case d of
         FunctionDecl t n ps rs b rc ds \<Rightarrow> block_any (stmtInterpolates R) b
       | _ \<Rightarrow> give False) decls }"


section \<open>Automatic imports\<close>

text \<open>\<^verbatim>\<open>scanExprForAutoImports\<close> and \<^verbatim>\<open>scanStmtForAutoImports\<close>: a path separator in a string needs \<^verbatim>\<open>path/filepath\<close>.
  Not every expression is scanned: return values and defaults of \<^verbatim>\<open>onerr\<close> as expressions, named arguments, and the
  cases of a piped switch are left out.\<close>

definition block_do :: "(Statement \<Rightarrow> unit gen) \<Rightarrow> BlockStmt option \<Rightarrow> unit gen" where
  "block_do f b = (case b of None \<Rightarrow> give () | Some (t, ss) \<Rightarrow> each_do f ss)"

definition otherwise_do :: "(Statement \<Rightarrow> unit gen) \<Rightarrow> OtherwiseCase option \<Rightarrow> unit gen" where
  "otherwise_do f ow = (case ow of None \<Rightarrow> give () | Some (t, b) \<Rightarrow> block_do f b)"

lemma block_do_cong [fundef_cong]:
  "b = b' \<Longrightarrow> (\<And>t ss s. b' = Some (t, ss) \<Longrightarrow> s \<in> set ss \<Longrightarrow> f s = f' s) \<Longrightarrow> block_do f b = block_do f' b'"
  by (auto simp: block_do_def split: option.splits intro!: each_do_cong)

lemma otherwise_do_cong [fundef_cong]:
  "w = w' \<Longrightarrow> (\<And>t u ss s. w' = Some (t, Some (u, ss)) \<Longrightarrow> s \<in> set ss \<Longrightarrow> f s = f' s) \<Longrightarrow>
     otherwise_do f w = otherwise_do f' w'"
  by (auto simp: otherwise_do_def split: option.splits intro!: block_do_cong)

fun scanExpr :: "Expression \<Rightarrow> unit gen" and scanStmt :: "Statement \<Rightarrow> unit gen" where
  "scanExpr e =
     (case e of
        StringExpr t v interpolated raw parts \<Rightarrow> (if has_sep v then use_import ''path/filepath'' else give ())
      | BinaryExpr t l op r \<Rightarrow> do { scanExpr l; scanExpr r }
      | IsExpr t x c b \<Rightarrow> scanExpr x
      | UnaryExpr t op r \<Rightarrow> scanExpr r
      | PipeExpr t l r m \<Rightarrow> do { scanExpr l; scanExpr r }
      | CallExpr t f as ns vr \<Rightarrow> do { scanExpr f; each_do scanExpr as }
      | MethodCallExpr t ob m as ns vr \<Rightarrow> do { scanExpr ob; each_do scanExpr as }
      | FieldAccessExpr t ob f \<Rightarrow> scanExpr ob
      | IndexExpr t l i \<Rightarrow> do { scanExpr l; scanExpr i }
      | SliceExpr t l a b \<Rightarrow> do { scanExpr l; scanExpr a; scanExpr b }
      | FunctionLiteral t ps rs b \<Rightarrow> block_do scanStmt b
      | ArrowLambda t ps x b \<Rightarrow> do { scanExpr x; block_do scanStmt b }
      | StructLiteralExpr t ty fs m \<Rightarrow> each_do (\<lambda>(i, x). scanExpr x) fs
      | ListLiteralExpr t ty es m \<Rightarrow> each_do scanExpr es
      | MapLiteralExpr t kt vt ps m \<Rightarrow> each_do (\<lambda>(k, x). do { scanExpr k; scanExpr x }) ps
      | UntypedCompositeLiteral t kd es m ty \<Rightarrow> each_do (\<lambda>(k, x). do { scanExpr k; scanExpr x }) es
      | ErrorExpr t m \<Rightarrow> scanExpr m
      | PanicExpr t m \<Rightarrow> scanExpr m
      | TypeCastExpr t x ty \<Rightarrow> scanExpr x
      | TypeAssertionExpr t x ty \<Rightarrow> scanExpr x
      | AddressOfExpr t x \<Rightarrow> scanExpr x
      | DerefExpr t x \<Rightarrow> scanExpr x
      | BlockExpr t b \<Rightarrow> block_do scanStmt b
      | PipedSwitchExpr t l sw \<Rightarrow> scanExpr l
      | IfExpression t c a b \<Rightarrow> do { scanExpr c; scanExpr a; scanExpr b }
      | _ \<Rightarrow> give ())"
| "scanStmt s =
     (case s of
        VarDeclStmt ns ty vs t oe \<Rightarrow> do {
          each_do scanExpr vs; (case oe of None \<Rightarrow> give () | Some (ot, h, x) \<Rightarrow> scanExpr h) }
      | AssignStmt ts vs t oe \<Rightarrow> do {
          each_do scanExpr vs; (case oe of None \<Rightarrow> give () | Some (ot, h, x) \<Rightarrow> scanExpr h) }
      | ReturnStmt t vs \<Rightarrow> each_do scanExpr vs
      | IfStmt t i c b alt \<Rightarrow> do { scanStmt i; scanExpr c; block_do scanStmt b; scanStmt alt }
      | SwitchStmt t e cs ow \<Rightarrow> do {
          scanExpr e;
          each_do (\<lambda>(ct, vs, b). do { each_do scanExpr vs; block_do scanStmt b }) cs;
          otherwise_do scanStmt ow }
      | SelectStmt t cs ow \<Rightarrow> do {
          each_do (\<lambda>(ct, bs, r, sd, b). do {
            (case r of ReceiveExpr rt c \<Rightarrow> scanExpr c | _ \<Rightarrow> give ());
            (case sd of SendStmt t2 x c \<Rightarrow> do { scanExpr x; scanExpr c } | _ \<Rightarrow> give ());
            block_do scanStmt b }) cs;
          otherwise_do scanStmt ow }
      | TypeSwitchStmt t e bd cs ow \<Rightarrow> do {
          scanExpr e; each_do (\<lambda>(ct, ty, b). block_do scanStmt b) cs; otherwise_do scanStmt ow }
      | ForRangeStmt t x i c b \<Rightarrow> do { scanExpr c; block_do scanStmt b }
      | ForNumericStmt t x a z th b \<Rightarrow> do { scanExpr a; scanExpr z; block_do scanStmt b }
      | ForConditionStmt t c b \<Rightarrow> do { scanExpr c; block_do scanStmt b }
      | ExpressionStmt e oe \<Rightarrow> do {
          scanExpr e; (case oe of None \<Rightarrow> give () | Some (ot, h, x) \<Rightarrow> scanExpr h) }
      | DeferStmt t c b \<Rightarrow> scanExpr c
      | GoStmt t c b \<Rightarrow> do { scanExpr c; block_do scanStmt b }
      | SendStmt t x c \<Rightarrow> do { scanExpr x; scanExpr c }
      | ElseStmt t b \<Rightarrow> block_do scanStmt b
      | _ \<Rightarrow> give ())"

declare scanExpr.simps [simp del] scanStmt.simps [simp del]

definition funcUsesOrderedPlaceholder :: "Parameter list \<Rightarrow> TypeAnnotation list \<Rightarrow> bool" where
  "funcUsesOrderedPlaceholder params returns \<longleftrightarrow>
     list_ex (\<lambda>p. typeContainsPlaceholder (paramType p) ''ordered'') params \<or>
     list_ex (\<lambda>ty. typeContainsPlaceholder ty ''ordered'') returns"

definition scanForAutoImports :: "unit gen" where
  "scanForAutoImports = do {
     decls \<leftarrow> asks (\<lambda>g. programDeclarations (program g));
     each_do (\<lambda>d. case d of
         FunctionDecl t n ps rs b rc ds \<Rightarrow> do {
           block_do scanStmt b;
           sorting \<leftarrow> asks (\<lambda>g. isStdlibSort g \<or> isStdlibSlice g);
           (if sorting \<and> funcUsesOrderedPlaceholder ps rs then use_import ''cmp'' else give ()) }
       | _ \<Rightarrow> give ()) decls }"

text \<open>\<^verbatim>\<open>scanForFunctionDefaults\<close>: a later function of the same name replaces the entry. Methods count too.\<close>

definition function_defaults :: "Parameter list \<Rightarrow> FuncDefaults" where
  "function_defaults ps =
     \<lparr>fdNames = map (\<lambda>p. identValue (fst p)) ps,
      fdValues = map (\<lambda>(i, ty, vr, d). d) ps,
      fdVariadic = (ps \<noteq> [] \<and> fst (snd (snd (last ps))))\<rparr>"

fun record_defaults :: "Declaration list \<Rightarrow> (string \<times> FuncDefaults) list \<Rightarrow> (string \<times> FuncDefaults) list" where
  "record_defaults [] m = m"
| "record_defaults (FunctionDecl t n ps rs b rc ds # decls) m =
     record_defaults decls ((identValue n, function_defaults ps) # m)"
| "record_defaults (_ # decls) m = record_defaults decls m"

definition scanForFunctionDefaults :: "unit gen" where
  "scanForFunctionDefaults =
     update (\<lambda>g. g\<lparr>funcDefaults := record_defaults (programDeclarations (program g)) (funcDefaults g)\<rparr>)"

end
