(* ===== verification/GoProgram.thy ===== *)
theory GoProgram
  imports GoScan "HOL-Library.Char_ord" "HOL-Library.List_Lexorder" "HOL-Library.Product_Lexorder"
begin

text \<open>
  \<^verbatim>\<open>Generate\<close> (\<^verbatim>\<open>codegen.go\<close>) and \<^verbatim>\<open>generateImports\<close> (\<^verbatim>\<open>codegen_imports.go\<close>). A Go map has no order of iteration: the
  import paths are visited in an order that is a parameter. \<open>ImportOrder\<close> shows that it does not matter.
\<close>

section \<open>Import paths\<close>

definition externalStdlibPackages :: "(string \<times> string) list" where
  "externalStdlibPackages =
     [(''game'', ''github.com/kukichalang/game''), (''infer'', ''github.com/kukichalang/infer''),
      (''ort'', ''github.com/kukichalang/infer/ort''), (''webinfer'', ''github.com/kukichalang/infer/webinfer'')]"

definition wasmOnlyPackages :: "string list" where "wasmOnlyPackages = [''game'']"

definition stdlib_package :: "string \<Rightarrow> string option" where
  "stdlib_package path = (if has_prefix path ''stdlib/'' then Some (drop 7 path) else None)"

definition rewriteStdlibImport :: "generator \<Rightarrow> string \<Rightarrow> string" where
  "rewriteStdlibImport g path =
     (let cleanPath = trim_quotes path
      in case stdlib_package cleanPath of
           Some pkgName \<Rightarrow>
             (case map_of externalStdlibPackages pkgName of
                Some extPath \<Rightarrow> extPath
              | None \<Rightarrow> stdlibModuleBase g @ ''/'' @ cleanPath)
         | None \<Rightarrow> cleanPath)"

definition import_path_of :: "Declaration \<Rightarrow> string" where
  "import_path_of d = (case d of ImportDecl t p a \<Rightarrow> import_value p | _ \<Rightarrow> [])"

definition import_alias_of :: "Declaration \<Rightarrow> string" where
  "import_alias_of d = (case d of ImportDecl t p (Some a) \<Rightarrow> identValue a | _ \<Rightarrow> [])"

definition isWasmOnlyPackage :: "generator \<Rightarrow> bool" where
  "isWasmOnlyPackage g \<longleftrightarrow>
     list_ex (\<lambda>pkg. from_stdlib pkg g) wasmOnlyPackages \<or>
     list_ex (\<lambda>d. case stdlib_package (trim_quotes (import_path_of d)) of
        Some pkgName \<Rightarrow> pkgName \<in> set wasmOnlyPackages | None \<Rightarrow> False) (programImports (program g))"

section \<open>Imports\<close>

type_synonym import_map = "(string \<times> string) list"

definition goBuiltins :: "string list" where
  "goBuiltins =
     [''string'', ''int'', ''int8'', ''int16'', ''int32'', ''int64'', ''uint'', ''uint8'', ''uint16'', ''uint32'', ''uint64'',
      ''float32'', ''float64'', ''complex64'', ''complex128'', ''bool'', ''byte'', ''rune'', ''error'', ''any'']"

definition effectiveName :: "string \<Rightarrow> string \<Rightarrow> string" where
  "effectiveName path alias = (if alias = [] then extractPkgName path else alias)"

text \<open>A loop over the map that may change the alias of the path it is at.\<close>

fun each_import :: "(string \<Rightarrow> string \<Rightarrow> string gen) \<Rightarrow> string list \<Rightarrow> import_map \<Rightarrow> import_map gen" where
  "each_import f [] m = give m"
| "each_import f (path # paths) m = do {
     alias \<leftarrow> f path (the (map_of m path));
     each_import f paths (AList.update path alias m) }"

definition new_alias :: "string \<Rightarrow> string gen" where
  "new_alias pkgName = do {
     update (\<lambda>g. g\<lparr>pkgAliases := AList.update pkgName (''kuki'' @ pkgName) (pkgAliases g)\<rparr>);
     give (''kuki'' @ pkgName) }"

text \<open>Two imports with the same name: the ones of the Kukicha library without an alias get one.\<close>

definition collides :: "import_map \<Rightarrow> string \<Rightarrow> string \<Rightarrow> bool" where
  "collides m path alias \<longleftrightarrow>
     list_ex (\<lambda>(p, a). p \<noteq> path \<and> effectiveName p a = effectiveName path alias) m"

definition alias_collision :: "import_map \<Rightarrow> string \<Rightarrow> string \<Rightarrow> string gen" where
  "alias_collision m path alias = do {
     base \<leftarrow> asks stdlibModuleBase;
     (if collides m path alias \<and> has_prefix path (base @ ''/stdlib/'') \<and> alias = []
      then new_alias (effectiveName path alias) else give alias) }"

definition alias_builtin :: "string \<Rightarrow> string \<Rightarrow> string gen" where
  "alias_builtin path alias =
     (if alias = [] \<and> extractPkgName path \<in> set goBuiltins then new_alias (extractPkgName path) else give alias)"

definition alias_version :: "string \<Rightarrow> string \<Rightarrow> string gen" where
  "alias_version path alias =
     (let parts = split_char CHR ''/'' path
      in give (if alias = [] \<and> length parts \<ge> 2 \<and> is_version (last parts)
               then cut_version (parts ! (length parts - 2)) else alias))"

definition import_spec :: "string \<times> string \<Rightarrow> string" where
  "import_spec s = (case s of (path, alias) \<Rightarrow> (if alias \<noteq> [] then alias @ '' '' else []) @ dquoted path)"

definition write_imports :: "import_map \<Rightarrow> unit gen" where
  "write_imports m =
     (case sort m of
        [s] \<Rightarrow> put_line (''import '' @ import_spec s)
      | specs \<Rightarrow> do {
          put_line ''import ('';
          indented (each_do (\<lambda>s. put_line (import_spec s)) specs);
          put_line '')'' })"

text \<open>The imports of the program and those the generated code needs.\<close>

definition program_imports :: "generator \<Rightarrow> import_map" where
  "program_imports g =
     fold (\<lambda>d. AList.update (rewriteStdlibImport g (import_path_of d)) (import_alias_of d))
       (programImports (program g)) []"

definition with_imports :: "string list \<Rightarrow> import_map \<Rightarrow> import_map" where
  "with_imports paths m = fold (\<lambda>p m. if p \<in> fst ` set m then m else AList.update p [] m) paths m"

definition needsFmt :: "renderer \<Rightarrow> bool gen" where
  "needsFmt R = do {
     interpolation \<leftarrow> needsStringInterpolation R;
     pr \<leftarrow> asks needsPrintBuiltin;
     ex \<leftarrow> asks needsExplain;
     give (interpolation \<or> pr \<or> ex) }"

definition generateImports :: "(string list \<Rightarrow> string list) \<Rightarrow> renderer \<Rightarrow> unit gen" where
  "generateImports order R = do {
     m \<leftarrow> asks program_imports;
     fmt \<leftarrow> needsFmt R;
     let m = (if fmt then AList.update ''fmt'' [] m else m);
     os \<leftarrow> asks (\<lambda>g. mcpTarget g \<and> needsPrintBuiltin g);
     let m = (if os then AList.update ''os'' [] m else m);
     errs \<leftarrow> asks needsErrorsPackage;
     let m = (if errs then AList.update ''errors'' [] m else m);
     auto_paths \<leftarrow> asks autoImports;
     let m = with_imports (order (remdups auto_paths)) m;
     let paths = map fst m;
     m \<leftarrow> each_import (alias_collision m) (order paths) m;
     m \<leftarrow> each_import alias_builtin (order paths) m;
     m \<leftarrow> each_import alias_version (order paths) m;
     write_imports m }"

section \<open>The program\<close>

definition generatePackage :: "unit gen" where
  "generatePackage = do {
     name \<leftarrow> asks (\<lambda>g. case programPetiole (program g) of Some (PetioleDecl t n) \<Rightarrow> identValue n | _ \<Rightarrow> ''main'');
     put_line (''package '' @ name) }"

definition generateSkillComment :: "unit gen" where
  "generateSkillComment = do {
     skill \<leftarrow> asks (\<lambda>g. programSkill (program g));
     (case skill of
        Some (SkillDecl t n description version) \<Rightarrow> do {
          put_line [];
          put_line (''// Skill: '' @ identValue n);
          (if description \<noteq> [] then put_line (''// Description: '' @ description) else give ());
          (if version \<noteq> [] then put_line (''// Version: '' @ version) else give ()) }
      | _ \<Rightarrow> give ()) }"

text \<open>The enum types of the program. The registry of the enums of the library, \<^verbatim>\<open>generatedStdlibEnums\<close>, is empty, so
  no import adds one.\<close>

definition enum_names :: "Declaration list \<Rightarrow> string list" where
  "enum_names ds = concat (map (\<lambda>d. case d of EnumDecl t n cs dirs \<Rightarrow> [identValue n] | _ \<Rightarrow> []) ds)"

definition Generate_with :: "(string list \<Rightarrow> string list) \<Rightarrow> (rune \<Rightarrow> bool) \<Rightarrow> renderer \<Rightarrow> string gen" where
  "Generate_with order isprint R = do {
     update (\<lambda>g. g\<lparr>genOutput := []\<rparr>);
     put_line ''// Generated by Kukicha (requires Go 1.26+)'';
     put_line [];
     wasm \<leftarrow> asks isWasmOnlyPackage;
     (if wasm then do { put_line ''//go:build js''; put_line [] } else give ());
     generatePackage;
     generateSkillComment;
     update collectReservedNames;
     scanForAutoImports;
     scanForFunctionDefaults;
     fmt \<leftarrow> needsFmt R;
     errs \<leftarrow> asks needsErrorsPackage;
     imports \<leftarrow> asks (\<lambda>g. programImports (program g) \<noteq> [] \<or> autoImports g \<noteq> []);
     (if imports \<or> fmt \<or> errs then do { put_line []; generateImports order R } else give ());
     update (\<lambda>g. g\<lparr>enumTypes := enum_names (programDeclarations (program g)) @ enumTypes g\<rparr>);
     decls \<leftarrow> asks (\<lambda>g. programDeclarations (program g));
     each_do (\<lambda>d. do { put_line []; generateDeclaration isprint R d }) decls;
     asks genOutput }"

definition Generate :: "(string list \<Rightarrow> string list) \<Rightarrow> (rune \<Rightarrow> bool) \<Rightarrow> nat \<Rightarrow> generator \<Rightarrow> string \<times> generator" where
  "Generate order isprint n g = run_state (Generate_with order isprint (renderer_at n)) g"

section \<open>The options of the generator\<close>

definition SetStdlibModule :: "string \<Rightarrow> generator \<Rightarrow> generator" where
  "SetStdlibModule base g = g\<lparr>stdlibModuleBase := base\<rparr>"

definition SetSourceFile :: "string \<Rightarrow> generator \<Rightarrow> generator" where
  "SetSourceFile path g =
     (let h = g\<lparr>sourceFile := path\<rparr> in h\<lparr>isStdlibIter := from_stdlib ''iterator'' h\<rparr>)"

definition SetProjectDir :: "string \<Rightarrow> generator \<Rightarrow> generator" where
  "SetProjectDir dir g = g\<lparr>projectDir := dir\<rparr>"

definition SetAnalysisResult ::
  "(Expression \<times> int) list option \<Rightarrow> (Expression \<times> TypeInfo option) list option \<Rightarrow> generator \<Rightarrow> generator" where
  "SetAnalysisResult counts types g = g\<lparr>exprReturnCounts := counts, exprTypes := types\<rparr>"

definition SetMCPTarget :: "bool \<Rightarrow> generator \<Rightarrow> generator" where "SetMCPTarget v g = g\<lparr>mcpTarget := v\<rparr>"

definition SetStripLineDirectives :: "bool \<Rightarrow> generator \<Rightarrow> generator" where
  "SetStripLineDirectives v g = g\<lparr>stripLineDirectives := v\<rparr>"

end
