(* ===== verification/ImportOrder.thy ===== *)
theory ImportOrder
  imports GoProgram "HOL-Library.Multiset"
begin

text \<open>
  Go iterates over a map in any order. \<^verbatim>\<open>generateImports\<close> does so four times, and the aliases it gives depend on
  what it finds: the result does not depend on the order. The two import maps of two runs agree as maps;
  each loop keeps that, and the block is written from the sorted pairs.
\<close>

section \<open>Maps as lists\<close>

definition same_map :: "('k \<times> 'v) list \<Rightarrow> ('k \<times> 'v) list \<Rightarrow> bool" where
  "same_map m n \<longleftrightarrow> distinct (map fst m) \<and> distinct (map fst n) \<and> map_of m = map_of n"

lemma same_map_refl [simp]: "same_map m m \<longleftrightarrow> distinct (map fst m)"
  by (simp add: same_map_def)

lemma set_map_of: "distinct (map fst m) \<Longrightarrow> set m = {(k, v). map_of m k = Some v}"
  by auto

lemma same_map_set:
  assumes "same_map m n"
  shows "set m = set n"
proof -
  have d: "distinct (map fst m)" "distinct (map fst n)" and "map_of m = map_of n"
    using assms by (simp_all add: same_map_def)
  then show ?thesis by (simp only: set_map_of [OF d(1)] set_map_of [OF d(2)])
qed

lemma same_map_mset: "same_map m n \<Longrightarrow> mset m = mset n"
  using same_map_set [of m n] set_eq_iff_mset_eq_distinct [of m n]
  by (auto simp: same_map_def distinct_map)

lemma same_map_sort: "same_map m n \<Longrightarrow> sort m = sort (n :: ('k::linorder \<times> 'v::linorder) list)"
  using same_map_mset [of m n] by (metis mset_sort properties_for_sort sorted_sort)

lemma same_map_update: "same_map m n \<Longrightarrow> same_map (AList.update k v m) (AList.update k v n)"
  by (simp add: same_map_def distinct_update update_conv')

lemma same_map_with_imports:
  assumes "set ps = set qs" and "distinct (map fst m)"
  shows "same_map (with_imports ps m) (with_imports qs m)"
proof -
  have run: "distinct (map fst (with_imports ps m)) \<and>
      map_of (with_imports ps m) = (\<lambda>p. case map_of m p of Some a \<Rightarrow> Some a | None \<Rightarrow> if p \<in> set ps then Some [] else None)"
    if "distinct (map fst m)" for ps and m :: import_map
    using that
  proof (induction ps arbitrary: m)
    case Nil
    then show ?case by (auto simp: with_imports_def split: option.split)
  next
    case (Cons q ps)
    let ?m = "if q \<in> fst ` set m then m else AList.update q [] m"
    have "with_imports (q # ps) m = with_imports ps ?m" by (simp add: with_imports_def)
    moreover have "distinct (map fst ?m)" using Cons.prems by (simp add: distinct_update)
    moreover have "map_of m q = None \<longleftrightarrow> q \<notin> fst ` set m" by (simp add: map_of_eq_None_iff)
    ultimately show ?case using Cons.IH [of ?m] by (auto simp: update_conv' fun_eq_iff split: option.split)
  qed
  show ?thesis using run [of m ps] run [of m qs] assms
    by (auto simp: same_map_def fun_eq_iff split: option.split)
qed

section \<open>A loop over the imports\<close>

text \<open>The step at a path: the alias it gives, and the packages that are renamed for it.\<close>

definition rename :: "string list \<Rightarrow> (string \<times> string) list \<Rightarrow> (string \<times> string) list" where
  "rename ks al = fold (\<lambda>k. AList.update k (''kuki'' @ k)) ks al"

lemma map_of_rename: "map_of (rename ks al) = (\<lambda>k. if k \<in> set ks then Some (''kuki'' @ k) else map_of al k)"
  by (induction ks arbitrary: al) (auto simp: rename_def update_conv' fun_eq_iff)

definition gives ::
  "(string \<Rightarrow> string \<Rightarrow> string gen) \<Rightarrow> string \<Rightarrow> (string \<Rightarrow> string \<Rightarrow> string) \<Rightarrow> (string \<Rightarrow> string \<Rightarrow> string list) \<Rightarrow> bool" where
  "gives f base A K \<longleftrightarrow>
     (\<forall>p a h. stdlibModuleBase h = base \<longrightarrow>
        run_state (f p a) h = (A p a, h\<lparr>pkgAliases := rename (K p a) (pkgAliases h)\<rparr>))"

definition aliased_map :: "(string \<Rightarrow> string \<Rightarrow> string) \<Rightarrow> string list \<Rightarrow> import_map \<Rightarrow> import_map" where
  "aliased_map A ps m = fold (\<lambda>p. AList.update p (A p (the (map_of m p)))) ps m"

lemma rename_append: "rename (ks @ ls) al = rename ls (rename ks al)"
  by (simp add: rename_def)

lemma each_import_run:
  assumes f: "gives f base A K"
  shows "distinct ps \<Longrightarrow> stdlibModuleBase h = base \<Longrightarrow> (\<forall>p\<in>set ps. map_of m0 p = map_of m p) \<Longrightarrow>
    run_state (each_import f ps m) h =
      (fold (\<lambda>p. AList.update p (A p (the (map_of m0 p)))) ps m,
       h\<lparr>pkgAliases := rename (concat (map (\<lambda>p. K p (the (map_of m0 p))) ps)) (pkgAliases h)\<rparr>)"
proof (induction ps arbitrary: m h)
  case Nil
  then show ?case by (simp add: State_Monad.return_def rename_def)
next
  case (Cons p ps)
  then have "\<forall>q\<in>set ps. map_of m0 q = map_of (AList.update p (A p (the (map_of m p))) m) q"
    by (auto simp: update_conv')
  with Cons f show ?case
    by (simp add: gives_def State_Monad.bind_def rename_append)
qed

lemma map_of_aliased:
  assumes "distinct ps"
  shows "map_of (aliased_map A ps m) = (\<lambda>p. if p \<in> set ps then Some (A p (the (map_of m p))) else map_of m p)"
proof -
  have "map_of (fold (\<lambda>p. AList.update p (A p (the (map_of m0 p)))) ps m) =
      (\<lambda>p. if p \<in> set ps then Some (A p (the (map_of m0 p))) else map_of m p)" for m0 m
    using assms by (induction ps arbitrary: m) (auto simp: update_conv' fun_eq_iff)
  then show ?thesis by (simp add: aliased_map_def)
qed

lemma distinct_aliased: "distinct (map fst m) \<Longrightarrow> distinct (map fst (aliased_map A ps m))"
proof -
  have "distinct (map fst m) \<Longrightarrow> distinct (map fst (fold (\<lambda>p. AList.update p (A p (the (map_of m0 p)))) ps m))" for m0
    by (induction ps arbitrary: m) (simp_all add: distinct_update)
  then show "distinct (map fst m) \<Longrightarrow> distinct (map fst (aliased_map A ps m))" by (simp add: aliased_map_def)
qed

text \<open>Two states that differ in the order of the aliases only.\<close>

definition same_aliases :: "generator \<Rightarrow> generator \<Rightarrow> bool" where
  "same_aliases g h \<longleftrightarrow> g\<lparr>pkgAliases := []\<rparr> = h\<lparr>pkgAliases := []\<rparr> \<and> map_of (pkgAliases g) = map_of (pkgAliases h)"

lemma each_import_order:
  assumes f: "gives f base A K" and h: "same_aliases h1 h2" "stdlibModuleBase h1 = base"
    and m: "same_map m1 m2" and ps: "mset ps = mset (map fst m1)" and qs: "mset qs = mset (map fst m2)"
  shows "same_map (fst (run_state (each_import f ps m1) h1)) (fst (run_state (each_import f qs m2) h2))"
    and "same_aliases (snd (run_state (each_import f ps m1) h1)) (snd (run_state (each_import f qs m2) h2))"
    and "stdlibModuleBase (snd (run_state (each_import f ps m1) h1)) = base"
proof -
  have d: "distinct ps" "distinct qs"
    using m mset_eq_imp_distinct_iff [OF ps] mset_eq_imp_distinct_iff [OF qs] by (simp_all add: same_map_def)
  have set_eq: "set ps = set qs"
    using mset_eq_setD [OF ps] mset_eq_setD [OF qs] same_map_set [OF m] by simp
  have h2: "stdlibModuleBase h2 = base" using h by (cases h1; cases h2) (simp add: same_aliases_def)
  note run1 = each_import_run [OF f d(1) h(2), of m1 m1, simplified, folded aliased_map_def]
  note run2 = each_import_run [OF f d(2) h2, of m2 m2, simplified, folded aliased_map_def]
  have maps: "map_of m1 = map_of m2" using m by (simp add: same_map_def)
  show "same_map (fst (run_state (each_import f ps m1) h1)) (fst (run_state (each_import f qs m2) h2))"
    using m d set_eq maps by (simp add: run1 run2 same_map_def distinct_aliased map_of_aliased cong: if_cong)
  show "same_aliases (snd (run_state (each_import f ps m1) h1)) (snd (run_state (each_import f qs m2) h2))"
    using h(1) set_eq maps by (auto simp: run1 run2 same_aliases_def map_of_rename)
  show "stdlibModuleBase (snd (run_state (each_import f ps m1) h1)) = base"
    using h(2) by (simp add: run1)
qed

section \<open>The three loops\<close>

lemma run_new_alias:
  "run_state (new_alias k) h = (''kuki'' @ k, h\<lparr>pkgAliases := rename [k] (pkgAliases h)\<rparr>)"
  by (simp add: new_alias_def State_Monad.bind_def State_Monad.return_def update_def rename_def)

lemma gives_collision:
  "gives (alias_collision m) base
     (\<lambda>p a. if collides m p a \<and> has_prefix p (base @ ''/stdlib/'') \<and> a = [] then ''kuki'' @ effectiveName p a else a)
     (\<lambda>p a. if collides m p a \<and> has_prefix p (base @ ''/stdlib/'') \<and> a = [] then [effectiveName p a] else [])"
  by (auto simp: gives_def alias_collision_def State_Monad.bind_def State_Monad.return_def asks_def run_new_alias rename_def)

lemma gives_builtin:
  "gives alias_builtin base
     (\<lambda>p a. if a = [] \<and> extractPkgName p \<in> set goBuiltins then ''kuki'' @ extractPkgName p else a)
     (\<lambda>p a. if a = [] \<and> extractPkgName p \<in> set goBuiltins then [extractPkgName p] else [])"
  by (simp add: gives_def alias_builtin_def State_Monad.return_def run_new_alias rename_def)

lemma gives_version:
  "gives alias_version base
     (\<lambda>p a. let parts = split_char CHR ''/'' p
       in if a = [] \<and> length parts \<ge> 2 \<and> is_version (last parts) then cut_version (parts ! (length parts - 2)) else a)
     (\<lambda>p a. [])"
  by (simp add: gives_def alias_version_def State_Monad.return_def rename_def Let_def)

lemma collides_same: "same_map m n \<Longrightarrow> collides m = collides n"
  using same_map_set [of m n] by (simp add: collides_def list_ex_iff fun_eq_iff)

text \<open>Writing the block appends a text that depends on the indent and the sorted pairs.\<close>

lemma run_put_lines:
  "snd (run_state (each_do (\<lambda>s. put_line (f s)) ss) g) = fold (\<lambda>s. writeLine (f s)) ss g"
  by (induction ss arbitrary: g) (simp_all add: State_Monad.bind_def State_Monad.return_def put_line_def update_def)

lemma writeLine_aliases: "writeLine s (g\<lparr>pkgAliases := al\<rparr>) = (writeLine s g)\<lparr>pkgAliases := al\<rparr>"
  by (simp add: writeLine_def gen_write_def indentStr_def Let_def)

lemma fold_writeLine_aliases:
  "fold (\<lambda>s. writeLine (f s)) ss (g\<lparr>pkgAliases := al\<rparr>) = (fold (\<lambda>s. writeLine (f s)) ss g)\<lparr>pkgAliases := al\<rparr>"
  by (induction ss arbitrary: g) (simp_all add: writeLine_aliases)

lemma writeLine_keeps_aliases: "pkgAliases (writeLine s g) = pkgAliases g"
  by (simp add: writeLine_def gen_write_def indentStr_def Let_def)

lemma fold_writeLine_keeps: "pkgAliases (fold (\<lambda>s. writeLine (f s)) ss g) = pkgAliases g"
  by (induction ss arbitrary: g) (simp_all add: writeLine_keeps_aliases)

definition import_block :: "(string \<times> string) list \<Rightarrow> generator \<Rightarrow> generator" where
  "import_block ss g =
     (let h = writeLine ''import ('' g; k = fold (\<lambda>s. writeLine (import_spec s)) ss (h\<lparr>indent := indent h + 1\<rparr>)
      in writeLine '')'' (k\<lparr>indent := indent k - 1\<rparr>))"

lemma aliases_indent: "(g\<lparr>pkgAliases := al\<rparr>)\<lparr>indent := i\<rparr> = (g\<lparr>indent := i\<rparr>)\<lparr>pkgAliases := al\<rparr>"
  by simp

lemma import_block_aliases:
  "import_block ss (g\<lparr>pkgAliases := al\<rparr>) = (import_block ss g)\<lparr>pkgAliases := al\<rparr>"
  by (simp add: import_block_def Let_def writeLine_aliases aliases_indent fold_writeLine_aliases)

lemma import_block_keeps: "pkgAliases (import_block ss g) = pkgAliases g"
  by (simp add: import_block_def Let_def writeLine_keeps_aliases fold_writeLine_keeps)

lemma run_import_block:
  "snd (run_state (do { put_line ''import (''; indented (each_do (\<lambda>s. put_line (import_spec s)) ss); put_line '')'' }) g) =
   import_block ss g"
  by (simp add: import_block_def indented_def State_Monad.bind_def split_beta update_def put_line_def
      run_put_lines [unfolded put_line_def update_def] Let_def)

lemma run_write_imports:
  "snd (run_state (write_imports m) g) =
     (case sort m of [s] \<Rightarrow> writeLine (''import '' @ import_spec s) g | ss \<Rightarrow> import_block ss g)"
  unfolding write_imports_def
  by (cases "sort m"; cases "tl (sort m)") (simp_all only: list.case list.sel run_import_block, simp_all add: put_line_def update_def)

lemma write_imports_same:
  assumes "same_map m n" and "same_aliases g h"
  shows "same_aliases (snd (run_state (write_imports m) g)) (snd (run_state (write_imports n) h))"
proof -
  have "sort m = sort n" using same_map_sort [OF assms(1)] .
  then show ?thesis using assms(2)
    by (auto simp: run_write_imports same_aliases_def writeLine_aliases [symmetric] import_block_aliases [symmetric]
        writeLine_keeps_aliases import_block_keeps split: list.split)
qed

section \<open>The imports\<close>

lemma distinct_program_imports: "distinct (map fst (program_imports g))"
proof -
  have upd: "distinct (map fst m) \<Longrightarrow>
      distinct (map fst (fold (\<lambda>d. AList.update (f d) (a d)) ds m))" for m :: import_map and f a ds
    by (induction ds arbitrary: m) (simp_all add: distinct_update)
  show ?thesis unfolding program_imports_def by (rule upd) simp
qed

text \<open>The part of \<^verbatim>\<open>generateImports\<close> before the loops, and the loops.\<close>

definition needed_imports :: "renderer \<Rightarrow> (import_map \<times> string list) gen" where
  "needed_imports R = do {
     m \<leftarrow> asks program_imports;
     fmt \<leftarrow> needsFmt R;
     let m = (if fmt then AList.update ''fmt'' [] m else m);
     os \<leftarrow> asks (\<lambda>g. mcpTarget g \<and> needsPrintBuiltin g);
     let m = (if os then AList.update ''os'' [] m else m);
     errs \<leftarrow> asks needsErrorsPackage;
     let m = (if errs then AList.update ''errors'' [] m else m);
     auto_paths \<leftarrow> asks autoImports;
     give (m, auto_paths) }"

definition named_imports :: "(string list \<Rightarrow> string list) \<Rightarrow> import_map \<Rightarrow> string list \<Rightarrow> unit gen" where
  "named_imports order m auto_paths = do {
     let m = with_imports (order (remdups auto_paths)) m;
     let paths = map fst m;
     m \<leftarrow> each_import (alias_collision m) (order paths) m;
     m \<leftarrow> each_import alias_builtin (order paths) m;
     m \<leftarrow> each_import alias_version (order paths) m;
     write_imports m }"

lemma run_generateImports:
  "snd (run_state (generateImports order R) g) =
     (let (ma, h) = run_state (needed_imports R) g in snd (run_state (named_imports order (fst ma) (snd ma)) h))"
  by (simp add: generateImports_def needed_imports_def named_imports_def State_Monad.bind_def
      State_Monad.return_def split_beta Let_def)

lemma distinct_needed: "distinct (map fst (fst (fst (run_state (needed_imports R) g))))"
  by (simp add: needed_imports_def State_Monad.bind_def State_Monad.return_def asks_def split_beta Let_def
      distinct_update distinct_program_imports)

definition permutes :: "(string list \<Rightarrow> string list) \<Rightarrow> bool" where
  "permutes order \<longleftrightarrow> (\<forall>xs. mset (order xs) = mset xs)"

lemma map_fst_same: "mset (map fst m) = mset (map fst n) \<Longrightarrow> permutes order \<Longrightarrow> mset (order (map fst m)) = mset (map fst n)"
  by (simp add: permutes_def)

lemma each_import_keys:
  assumes "gives f base A K" and "stdlibModuleBase h = base" and "mset ps = mset (map fst m)" and "distinct (map fst m)"
  shows "map fst (fst (run_state (each_import f ps m) h)) = map fst m"
proof -
  have d: "distinct ps" using assms(3,4) mset_eq_imp_distinct_iff by blast
  have "set ps \<subseteq> set (map fst n) \<Longrightarrow> map fst (fold (\<lambda>p. AList.update p (A p (the (map_of m p)))) ps n) = map fst n" for n
  proof (induction ps arbitrary: n)
    case (Cons p ps)
    then have k: "map fst (AList.update p a n) = map fst n" for a by (simp add: update_keys)
    have "set ps \<subseteq> set (map fst (AList.update p a n))" for a unfolding k using Cons.prems by simp
    from Cons.IH [OF this] show ?case by (simp add: k)
  qed simp
  then show ?thesis
    using each_import_run [OF assms(1) d assms(2), of m m] mset_eq_setD [OF assms(3)] by simp
qed

lemma named_imports_order:
  assumes "permutes order" and "permutes order'" and d: "distinct (map fst m)"
  shows "same_aliases (snd (run_state (named_imports order m ps) h)) (snd (run_state (named_imports order' m ps) h))"
proof -
  let ?m = "with_imports (order (remdups ps)) m" and ?n = "with_imports (order' (remdups ps)) m"
  let ?base = "stdlibModuleBase h"
  have perm: "mset (order xs) = mset xs" "mset (order' xs) = mset xs" for xs
    using assms(1,2) by (simp_all add: permutes_def)
  have "set (order (remdups ps)) = set (order' (remdups ps))"
    using mset_eq_setD [OF perm(1)] mset_eq_setD [OF perm(2)] by simp
  from same_map_with_imports [OF this d] have mn: "same_map ?m ?n" .
  have hh: "same_aliases h h" by (simp add: same_aliases_def)
  define r1 where "r1 = run_state (each_import (alias_collision ?m) (order (map fst ?m)) ?m) h"
  define s1 where "s1 = run_state (each_import (alias_collision ?n) (order' (map fst ?n)) ?n) h"
  have coll: "alias_collision ?n = alias_collision ?m"
    using collides_same [OF mn] by (simp add: alias_collision_def fun_eq_iff)
  note one = each_import_order [OF gives_collision hh HOL.refl mn perm]
  have one': "same_map (fst r1) (fst s1)" "same_aliases (snd r1) (snd s1)" "stdlibModuleBase (snd r1) = ?base"
    using one [of ?m] by (simp_all add: r1_def s1_def coll)
  define r2 where "r2 = run_state (each_import alias_builtin (order (map fst ?m)) (fst r1)) (snd r1)"
  define s2 where "s2 = run_state (each_import alias_builtin (order' (map fst ?n)) (fst s1)) (snd s1)"
  have keys1: "map fst (fst r1) = map fst ?m" "map fst (fst s1) = map fst ?n"
    using each_import_keys [OF gives_collision HOL.refl perm(1)] each_import_keys [OF gives_collision HOL.refl perm(2)] mn
    by (simp_all add: r1_def s1_def same_map_def)
  have base2: "stdlibModuleBase (snd s1) = ?base"
    using one'(2,3) by (cases "snd r1"; cases "snd s1") (simp add: same_aliases_def)
  note two = each_import_order [OF gives_builtin one'(2,3,1), of "order (map fst ?m)" "order' (map fst ?n)"]
  have two': "same_map (fst r2) (fst s2)" "same_aliases (snd r2) (snd s2)" "stdlibModuleBase (snd r2) = ?base"
    using two by (simp_all add: r2_def s2_def keys1 perm)
  define r3 where "r3 = run_state (each_import alias_version (order (map fst ?m)) (fst r2)) (snd r2)"
  define s3 where "s3 = run_state (each_import alias_version (order' (map fst ?n)) (fst s2)) (snd s2)"
  have keys2: "map fst (fst r2) = map fst ?m" "map fst (fst s2) = map fst ?n"
    using each_import_keys [OF gives_builtin one'(3), of "order (map fst ?m)" "fst r1"]
      each_import_keys [OF gives_builtin base2, of "order' (map fst ?n)" "fst s1"] one'(1) keys1 perm
    by (simp_all add: r2_def s2_def same_map_def)
  note three = each_import_order [OF gives_version two'(2,3,1), of "order (map fst ?m)" "order' (map fst ?n)"]
  have three': "same_map (fst r3) (fst s3)" "same_aliases (snd r3) (snd s3)"
    using three by (simp_all add: r3_def s3_def keys2 perm)
  show ?thesis
    using write_imports_same [OF three']
    by (simp add: named_imports_def State_Monad.bind_def split_beta Let_def r1_def s1_def r2_def s2_def r3_def s3_def)
qed


text \<open>A program that imports two packages of the same name, one of them of the library.\<close>

definition quoted_path :: "string \<Rightarrow> Expression" where
  "quoted_path p = StringExpr no_token p False False []"

definition two_json :: generator where
  "two_json = New_generator (empty_program\<lparr>programImports :=
     [ImportDecl no_token (quoted_path ''stdlib/json'') None, ImportDecl no_token (quoted_path ''encoding/json'') None]\<rparr>)"


end
